(* ===== verification/Prelude.thy ===== *)
theory Prelude
  imports Main "HOL-Library.Signed_Division"
begin

text \<open>
  Shared vocabulary of the development: the outcome of a Rust computation (a value, an
  error returned through \<open>Result\<close>, or a panic), the sequencing operator that stands for
  the \<open>?\<close> operator and for plain statement order, Rust's native integer operations at their
  width, and the arithmetic lemmas about floors, ceilings and products that the component
  theories share.

  Unsigned integers are natural numbers and signed integers are integers; the width is
  written out in every operation that can leave the range of its type.  Native \<open>+\<close>,
  \<open>-\<close> and \<open>*\<close> panic on overflow, which is what \<open>overflow-checks = true\<close> in
  \<open>programs/clamm/Cargo.toml\<close> asks for and what debug and test builds do.
\<close>

section \<open>Outcomes\<close>

text \<open>The error codes of \<open>error.rs\<close>, with the source's names.\<close>

datatype error_code =
    LOK | NotApproved | InvalidUpdateConfigFlag | AccountLack | ClosePositionErr
  | ZeroMintAmount | InvaildTickIndex | TickInvaildOrder | TickLowerOverflow
  | TickUpperOverflow | TickAndSpacingNotMatch | InvalidTickArray | InvalidTickArrayBoundary
  | SqrtPriceLimitOverflow | SqrtPriceX64 | LiquiditySubValueErr | LiquidityAddValueErr
  | InvaildLiquidity | ForbidBothZeroForSupplyLiquidity | LiquidityInsufficient
  | TransactionTooOld | PriceSlippageCheck | TooLittleOutputReceived | TooMuchInputPaid
  | InvaildSwapAmountSpecified | InvalidInputPoolVault | TooSmallInputOrOutputAmount
  | NotEnoughTickArrayAccount | InvalidFirstTickArrayAccount | InvalidRewardIndex
  | FullRewardInfo | RewardTokenAlreadyInUse | ExceptPoolVaultMint | InvalidRewardInitParam
  | InvalidRewardDesiredAmount | InvalidRewardInputAccountNumber | InvalidRewardPeriod
  | NotApproveUpdateRewardEmissiones | UnInitializedRewardInfo | NotSupportMint
  | MissingTickArrayBitmapExtensionAccount | InsufficientLiquidityForDirection

text \<open>
  An error is either one of the program's own codes or one of the framework's codes that
  \<open>require_gt!\<close>, \<open>require_gte!\<close>, \<open>require_eq!\<close> and \<open>require_keys_eq!\<close>
  raise when they are given no code, that an account constraint raises (\<open>Constraint...\<close>), or
  that a foreign call returns (\<open>External\<close>).  The errors of the client are strings (\<open>Message\<close>).
\<close>

datatype err =
    Code error_code
  | RequireGtViolated | RequireGteViolated | RequireEqViolated | RequireKeysEqViolated
  | AccountDiscriminatorNotFound | AccountDiscriminatorMismatch | AccountDiscriminatorAlreadySet
  | AccountOwnedByWrongProgram | AccountNotMutable
  | ConstraintAddress | ConstraintRaw | ConstraintSeeds | ConstraintTokenMint | ConstraintTokenOwner
  | ConstraintMintTokenProgram | ConstraintTokenTokenProgram | ConstraintMut
  | ConstraintAssociated | AccountBorrowFailed
  | Message string
  | External

datatype 'a res = Ok 'a | Err err | Panic

primrec rbind :: "'a res \<Rightarrow> ('a \<Rightarrow> 'b res) \<Rightarrow> 'b res" where
  "rbind (Ok x) f = f x"
| "rbind (Err e) f = Err e"
| "rbind Panic f = Panic"

text \<open>Only the first computation is rewritten until it is known: evaluation follows the code.\<close>

lemma rbind_weak_cong [cong]: "m = m' \<Longrightarrow> rbind m f = rbind m' f"
  by simp

named_theorems res_inv \<open>what a computation that returned went through\<close>

lemma rbind_eq_Ok_iff [res_inv]: "rbind m f = Ok y \<longleftrightarrow> (\<exists>x. m = Ok x \<and> f x = Ok y)"
  by (cases m) auto

lemma rbind_eq_Panic_iff: "rbind m f = Panic \<longleftrightarrow> m = Panic \<or> (\<exists>x. m = Ok x \<and> f x = Panic)"
  by (cases m) auto

lemma rbind_eq_Err_iff: "rbind m f = Err e \<longleftrightarrow> m = Err e \<or> (\<exists>x. m = Ok x \<and> f x = Err e)"
  by (cases m) auto

lemma rbind_Ok_right [simp]: "rbind m Ok = m"
  by (cases m) auto

lemma rbind_assoc: "rbind (rbind m f) g = rbind m (\<lambda>x. rbind (f x) g)"
  by (cases m) auto

text \<open>\<open>require!(c, e)\<close> and \<open>assert!(c)\<close>.\<close>

definition require :: "bool \<Rightarrow> err \<Rightarrow> unit res" where
  "require c e = (if c then Ok () else Err e)"

definition assertion :: "bool \<Rightarrow> unit res" where
  "assertion c = (if c then Ok () else Panic)"

lemma require_eq_Ok_iff [simp]: "require c e = Ok u \<longleftrightarrow> c"
  by (simp add: require_def)

lemma require_True [simp]: "require True e = Ok ()"
  by (simp add: require_def)

lemma require_False [simp]: "require False e = Err e"
  by (simp add: require_def)

lemma require_not_Panic [simp]: "require c e \<noteq> Panic"
  by (simp add: require_def)

lemma assertion_eq_Ok_iff [simp]: "assertion c = Ok u \<longleftrightarrow> c"
  by (simp add: assertion_def)

lemma assertion_True [simp]: "assertion True = Ok ()"
  by (simp add: assertion_def)

lemma assertion_False [simp]: "assertion False = Panic"
  by (simp add: assertion_def)

lemma assertion_not_Err [simp]: "assertion c \<noteq> Err e"
  by (simp add: assertion_def)

text \<open>\<open>Option::unwrap\<close>.\<close>

primrec unwrap :: "'a option \<Rightarrow> 'a res" where
  "unwrap None = Panic"
| "unwrap (Some x) = Ok x"

lemma unwrap_eq_Ok_iff [simp]: "unwrap m = Ok x \<longleftrightarrow> m = Some x"
  by (cases m) auto

lemma unwrap_eq_Panic_iff [simp]: "unwrap m = Panic \<longleftrightarrow> m = None"
  by (cases m) auto

lemma unwrap_not_Err [simp]: "unwrap m \<noteq> Err e"
  by (cases m) auto

text \<open>\<open>Result::unwrap\<close>: an error becomes a panic.\<close>

primrec unwrap_result :: "'a res \<Rightarrow> 'a res" where
  "unwrap_result (Ok x) = Ok x"
| "unwrap_result (Err e) = Panic"
| "unwrap_result Panic = Panic"

lemma unwrap_result_eq_Ok_iff [simp]: "unwrap_result m = Ok x \<longleftrightarrow> m = Ok x"
  by (cases m) auto

text \<open>Did the computation return through \<open>Ok\<close>?\<close>

definition is_Ok :: "'a res \<Rightarrow> bool" where
  "is_Ok m \<longleftrightarrow> (case m of Ok _ \<Rightarrow> True | _ \<Rightarrow> False)"

lemma is_Ok_iff: "is_Ok m \<longleftrightarrow> (\<exists>x. m = Ok x)"
  by (cases m) (auto simp: is_Ok_def)

lemma is_Ok_simps [simp]: "is_Ok (Ok x)" "\<not> is_Ok (Err e)" "\<not> is_Ok Panic"
  by (simp_all add: is_Ok_def)

section \<open>Native integers\<close>

type_synonym u8 = nat
type_synonym u16 = nat
type_synonym u32 = nat
type_synonym u64 = nat
type_synonym u128 = nat
type_synonym usize = nat
type_synonym i32 = int
type_synonym i128 = int

text \<open>A \<open>Pubkey\<close> is its 32 bytes read as one big-endian number; \<open>Pubkey::default()\<close> is all zeros.\<close>

type_synonym pubkey = nat

definition default_pubkey :: pubkey where
  "default_pubkey = 0"

text \<open>Native unsigned arithmetic with overflow checks; \<open>w\<close> is the width of the type.\<close>

definition chk_add :: "nat \<Rightarrow> nat \<Rightarrow> nat \<Rightarrow> nat res" where
  "chk_add w x y = (if x + y < 2 ^ w then Ok (x + y) else Panic)"

definition chk_sub :: "nat \<Rightarrow> nat \<Rightarrow> nat res" where
  "chk_sub x y = (if y \<le> x then Ok (x - y) else Panic)"

definition chk_mul :: "nat \<Rightarrow> nat \<Rightarrow> nat \<Rightarrow> nat res" where
  "chk_mul w x y = (if x * y < 2 ^ w then Ok (x * y) else Panic)"

definition chk_div :: "nat \<Rightarrow> nat \<Rightarrow> nat res" where
  "chk_div x y = (if y = 0 then Panic else Ok (x div y))"

definition chk_rem :: "nat \<Rightarrow> nat \<Rightarrow> nat res" where
  "chk_rem x y = (if y = 0 then Panic else Ok (x mod y))"

lemma chk_add_eq_Ok_iff [simp]: "chk_add w x y = Ok z \<longleftrightarrow> x + y < 2 ^ w \<and> z = x + y"
  by (auto simp: chk_add_def)

lemma chk_sub_eq_Ok_iff [simp]: "chk_sub x y = Ok z \<longleftrightarrow> y \<le> x \<and> z = x - y"
  by (auto simp: chk_sub_def)

lemma chk_mul_eq_Ok_iff [simp]: "chk_mul w x y = Ok z \<longleftrightarrow> x * y < 2 ^ w \<and> z = x * y"
  by (auto simp: chk_mul_def)

lemma chk_div_eq_Ok_iff [simp]: "chk_div x y = Ok z \<longleftrightarrow> y \<noteq> 0 \<and> z = x div y"
  by (auto simp: chk_div_def)

lemma chk_rem_eq_Ok_iff [simp]: "chk_rem x y = Ok z \<longleftrightarrow> y \<noteq> 0 \<and> z = x mod y"
  by (auto simp: chk_rem_def)

text \<open>The methods \<open>checked_add\<close>, \<open>checked_sub\<close>, \<open>checked_mul\<close> of the native types.\<close>

definition checked_add :: "nat \<Rightarrow> nat \<Rightarrow> nat \<Rightarrow> nat option" where
  "checked_add w x y = (if x + y < 2 ^ w then Some (x + y) else None)"

definition checked_sub :: "nat \<Rightarrow> nat \<Rightarrow> nat option" where
  "checked_sub x y = (if y \<le> x then Some (x - y) else None)"

definition checked_mul :: "nat \<Rightarrow> nat \<Rightarrow> nat \<Rightarrow> nat option" where
  "checked_mul w x y = (if x * y < 2 ^ w then Some (x * y) else None)"

lemma checked_add_eq_Some_iff [simp]: "checked_add w x y = Some z \<longleftrightarrow> x + y < 2 ^ w \<and> z = x + y"
  by (auto simp: checked_add_def)

lemma checked_sub_eq_Some_iff [simp]: "checked_sub x y = Some z \<longleftrightarrow> y \<le> x \<and> z = x - y"
  by (auto simp: checked_sub_def)

lemma checked_mul_eq_Some_iff [simp]: "checked_mul w x y = Some z \<longleftrightarrow> x * y < 2 ^ w \<and> z = x * y"
  by (auto simp: checked_mul_def)

lemma checked_eq_None_iff [simp]:
  "checked_add w x y = None \<longleftrightarrow> 2 ^ w \<le> x + y"
  "checked_sub x y = None \<longleftrightarrow> x < y"
  "checked_mul w x y = None \<longleftrightarrow> 2 ^ w \<le> x * y"
  by (auto simp: checked_add_def checked_sub_def checked_mul_def)

text \<open>The wrapping and saturating methods.\<close>

definition wrapping_add :: "nat \<Rightarrow> nat \<Rightarrow> nat \<Rightarrow> nat" where
  "wrapping_add w x y = (x + y) mod 2 ^ w"

definition wrapping_sub :: "nat \<Rightarrow> nat \<Rightarrow> nat \<Rightarrow> nat" where
  "wrapping_sub w x y = (x + (2 ^ w - y mod 2 ^ w)) mod 2 ^ w"

definition saturating_sub :: "nat \<Rightarrow> nat \<Rightarrow> nat" where
  "saturating_sub x y = (if x < y then 0 else x - y)"

lemma wrapping_sub_le: "y \<le> x \<Longrightarrow> x < 2 ^ w \<Longrightarrow> wrapping_sub w x y = x - y"
  by (simp add: wrapping_sub_def mod_if)

lemma wrapping_sub_less_exp [simp]: "wrapping_sub w x y < 2 ^ w"
  by (simp add: wrapping_sub_def)

lemma wrapping_add_less_exp [simp]: "wrapping_add w x y < 2 ^ w"
  by (simp add: wrapping_add_def)

text \<open>
  A value is what it is modulo \<open>2 ^ w\<close>: the integer reading of the wrapping operations,
  used for telescoping sums of growth accumulators.
\<close>

lemma int_wrapping_sub: "int (wrapping_sub w x y) = (int x - int y) mod 2 ^ w"
proof -
  let ?m = "2 ^ w :: nat"
  have le: "y mod ?m \<le> ?m"
    by (simp add: less_imp_le)
  have "int (wrapping_sub w x y) = (int x + int (?m - y mod ?m)) mod 2 ^ w"
    unfolding wrapping_sub_def by (simp only: of_nat_mod of_nat_add of_nat_power of_nat_numeral)
  also have "int (?m - y mod ?m) = int ?m - int (y mod ?m)"
    using le by (rule of_nat_diff)
  also have "\<dots> = 2 ^ w - int y mod 2 ^ w"
    by (simp add: of_nat_mod)
  also have "int x + (2 ^ w - int y mod 2 ^ w) = (int x - int y mod 2 ^ w) + 2 ^ w"
    by simp
  also have "((int x - int y mod 2 ^ w) + 2 ^ w) mod 2 ^ w = (int x - int y) mod 2 ^ w"
    by (simp only: mod_add_self2 mod_diff_right_eq)
  finally show ?thesis .
qed

lemma int_wrapping_add: "int (wrapping_add w x y) = (int x + int y) mod 2 ^ w"
  by (simp add: wrapping_add_def of_nat_mod)

text \<open>Signed arithmetic: a result outside the type panics; division truncates.\<close>

definition chk_i :: "nat \<Rightarrow> int \<Rightarrow> int res" where
  "chk_i w z = (if - (2 ^ (w - 1)) \<le> z \<and> z < 2 ^ (w - 1) then Ok z else Panic)"

definition i_div :: "nat \<Rightarrow> int \<Rightarrow> int \<Rightarrow> int res" where
  "i_div w x y = (if y = 0 then Panic else chk_i w (x sdiv y))"

definition i_rem :: "int \<Rightarrow> int \<Rightarrow> int res" where
  "i_rem x y = (if y = 0 then Panic else Ok (x smod y))"

lemma chk_i_eq_Ok_iff: "chk_i w z = Ok y \<longleftrightarrow> - (2 ^ (w - 1)) \<le> z \<and> z < 2 ^ (w - 1) \<and> y = z"
  by (auto simp: chk_i_def)

lemma chk_i_not_Err [simp]: "chk_i w z \<noteq> Err e"
  by (simp add: chk_i_def)

lemma chk_i32_Ok [simp]: "- 2147483648 \<le> z \<Longrightarrow> z \<le> 2147483647 \<Longrightarrow> chk_i 32 z = Ok z"
  by (simp add: chk_i_def)

text \<open>What evaluates the native operations on literals.\<close>

lemmas native_eval = chk_add_def chk_sub_def chk_mul_def chk_div_def chk_rem_def
  checked_add_def checked_sub_def checked_mul_def wrapping_add_def wrapping_sub_def
  saturating_sub_def chk_i_def i_div_def i_rem_def

section \<open>Arithmetic shared by the components\<close>

text \<open>Ceiling division on naturals, the way the code and the specification write it.\<close>

definition cdiv :: "nat \<Rightarrow> nat \<Rightarrow> nat" where
  "cdiv x y = x div y + (if x mod y = 0 then 0 else 1)"

lemma cdiv_le_iff:
  assumes y: "0 < y"
  shows "cdiv x y \<le> k \<longleftrightarrow> x \<le> k * y"
proof -
  define q r where "q = x div y" and "r = x mod y"
  have x: "x = q * y + r" and r: "r < y"
    using y by (simp_all add: q_def r_def)
  have c: "cdiv x y = q + (if r = 0 then 0 else 1)"
    by (simp add: cdiv_def q_def r_def)
  show ?thesis
  proof (cases "r = 0")
    case True
    with x c y show ?thesis by simp
  next
    case False
    have "Suc q \<le> k \<longleftrightarrow> q * y + r \<le> k * y"
    proof
      assume "Suc q \<le> k"
      then have "Suc q * y \<le> k * y" by (rule mult_le_mono1)
      with r show "q * y + r \<le> k * y" by simp
    next
      assume *: "q * y + r \<le> k * y"
      show "Suc q \<le> k"
      proof (rule ccontr)
        assume "\<not> Suc q \<le> k"
        then have "k * y \<le> q * y" by (intro mult_le_mono1) simp
        with * False show False by simp
      qed
    qed
    with x c False show ?thesis by simp
  qed
qed

lemma add_div_eq_cdiv:
  assumes y: "0 < y"
  shows "(x + (y - 1)) div y = cdiv x y"
proof -
  have "(x + (y - 1)) div y \<le> k \<longleftrightarrow> cdiv x y \<le> k" for k
  proof -
    have "(x + (y - 1)) div y < Suc k \<longleftrightarrow> x + (y - 1) < Suc k * y"
      using y by (rule div_less_iff_less_mult)
    also have "\<dots> \<longleftrightarrow> x \<le> k * y"
      using y by auto
    finally show ?thesis
      using y by (simp add: cdiv_le_iff less_Suc_eq_le)
  qed
  then show ?thesis
    by (meson antisym order_refl)
qed

lemma less_cdiv_iff: "0 < y \<Longrightarrow> k < cdiv x y \<longleftrightarrow> k * y < x"
  by (meson cdiv_le_iff not_le)

lemma div_le_cdiv: "x div y \<le> cdiv x y"
  by (simp add: cdiv_def)

lemma cdiv_le_Suc_div: "cdiv x y \<le> Suc (x div y)"
  by (simp add: cdiv_def)

lemma cdiv_0 [simp]: "cdiv 0 y = 0"
  by (simp add: cdiv_def)

lemma cdiv_mult_self [simp]: "0 < y \<Longrightarrow> cdiv (k * y) y = k"
  by (simp add: cdiv_def)

lemma cdiv_mono: "0 < y \<Longrightarrow> x \<le> x' \<Longrightarrow> cdiv x y \<le> cdiv x' y"
  using cdiv_le_iff [of y x' "cdiv x' y"] cdiv_le_iff [of y x "cdiv x' y"] by simp

lemma cdiv_mult_ge: "0 < y \<Longrightarrow> x \<le> cdiv x y * y"
  using cdiv_le_iff [of y x "cdiv x y"] by simp

lemma cdiv_pos_iff: "0 < y \<Longrightarrow> 0 < cdiv x y \<longleftrightarrow> 0 < x"
  by (simp add: less_cdiv_iff)

text \<open>Two roundings in the same direction are one.\<close>

lemma cdiv_cdiv: "0 < y \<Longrightarrow> 0 < z \<Longrightarrow> cdiv (cdiv x y) z = cdiv x (y * z)"
proof (rule antisym)
  assume yz: "0 < y" "0 < z"
  show "cdiv (cdiv x y) z \<le> cdiv x (y * z)"
    using yz cdiv_le_iff [of "y * z" x "cdiv x (y * z)"]
    by (simp add: cdiv_le_iff mult.assoc mult.commute)
  show "cdiv x (y * z) \<le> cdiv (cdiv x y) z"
    using yz cdiv_le_iff [of z "cdiv x y" "cdiv (cdiv x y) z"]
    by (simp add: cdiv_le_iff mult.assoc mult.commute)
qed

lemma div_div_nat: "(x::nat) div y div z = x div (y * z)"
  by (simp add: div_mult2_eq)

end
