(* ===== verification/Uint_Crate.thy ===== *)
theory Uint_Crate
  imports Prelude
begin

text \<open>
  The types \<open>U128\<close> and \<open>U256\<close> of \<open>libraries/big_num.rs\<close> are generated by
  \<open>construct_uint!\<close> of the \<open>uint\<close> crate, whose source is not part of the repository.
  Its operations are therefore a parameter of every definition that uses them: a record
  of functions, indexed by the width of the type.  The locale states what the crate
  documents: the operators panic when the result leaves the type, the \<open>checked_*\<close>
  methods return \<open>None\<close> instead, shifts drop the bits that leave the type, and the
  narrowing conversions \<open>as_u64\<close> and \<open>as_u128\<close> panic when the value does not fit.
  Conversions from a narrower type (\<open>U256::from\<close>) keep the value, so they are not
  operations of the record.
\<close>

record uint_lib =
  u_add :: "nat \<Rightarrow> nat \<Rightarrow> nat \<Rightarrow> nat res"
  u_sub :: "nat \<Rightarrow> nat \<Rightarrow> nat \<Rightarrow> nat res"
  u_mul :: "nat \<Rightarrow> nat \<Rightarrow> nat \<Rightarrow> nat res"
  u_div :: "nat \<Rightarrow> nat \<Rightarrow> nat \<Rightarrow> nat res"
  u_rem :: "nat \<Rightarrow> nat \<Rightarrow> nat \<Rightarrow> nat res"
  u_shl :: "nat \<Rightarrow> nat \<Rightarrow> nat \<Rightarrow> nat"
  u_shr :: "nat \<Rightarrow> nat \<Rightarrow> nat \<Rightarrow> nat"
  u_checked_add :: "nat \<Rightarrow> nat \<Rightarrow> nat \<Rightarrow> nat option"
  u_checked_sub :: "nat \<Rightarrow> nat \<Rightarrow> nat \<Rightarrow> nat option"
  u_checked_mul :: "nat \<Rightarrow> nat \<Rightarrow> nat \<Rightarrow> nat option"
  u_checked_div :: "nat \<Rightarrow> nat \<Rightarrow> nat \<Rightarrow> nat option"
  u_as_u64 :: "nat \<Rightarrow> u64 res"
  u_as_u128 :: "nat \<Rightarrow> u128 res"

locale uint_crate =
  fixes U :: uint_lib
  assumes u_add [simp]: "u_add U w x y = (if x + y < 2 ^ w then Ok (x + y) else Panic)"
    and u_sub [simp]: "u_sub U w x y = (if y \<le> x then Ok (x - y) else Panic)"
    and u_mul [simp]: "u_mul U w x y = (if x * y < 2 ^ w then Ok (x * y) else Panic)"
    and u_div [simp]: "u_div U w x y = (if y = 0 then Panic else Ok (x div y))"
    and u_rem [simp]: "u_rem U w x y = (if y = 0 then Panic else Ok (x mod y))"
    and u_shl [simp]: "u_shl U w x k = x * 2 ^ k mod 2 ^ w"
    and u_shr [simp]: "u_shr U w x k = x div 2 ^ k"
    and u_checked_add [simp]:
      "u_checked_add U w x y = (if x + y < 2 ^ w then Some (x + y) else None)"
    and u_checked_sub [simp]: "u_checked_sub U w x y = (if y \<le> x then Some (x - y) else None)"
    and u_checked_mul [simp]:
      "u_checked_mul U w x y = (if x * y < 2 ^ w then Some (x * y) else None)"
    and u_checked_div [simp]: "u_checked_div U w x y = (if y = 0 then None else Some (x div y))"
    and u_as_u64 [simp]: "u_as_u64 U x = (if x < 2 ^ 64 then Ok x else Panic)"
    and u_as_u128 [simp]: "u_as_u128 U x = (if x < 2 ^ 128 then Ok x else Panic)"

text \<open>
  A concrete library with these laws: the witnesses of the development run the model on it.
\<close>

definition uint_ref :: uint_lib where
  "uint_ref = \<lparr>
     u_add = chk_add,
     u_sub = (\<lambda>w. chk_sub),
     u_mul = chk_mul,
     u_div = (\<lambda>w. chk_div),
     u_rem = (\<lambda>w. chk_rem),
     u_shl = (\<lambda>w x k. x * 2 ^ k mod 2 ^ w),
     u_shr = (\<lambda>w x k. x div 2 ^ k),
     u_checked_add = checked_add,
     u_checked_sub = (\<lambda>w. checked_sub),
     u_checked_mul = checked_mul,
     u_checked_div = (\<lambda>w x y. if y = 0 then None else Some (x div y)),
     u_as_u64 = (\<lambda>x. if x < 2 ^ 64 then Ok x else Panic),
     u_as_u128 = (\<lambda>x. if x < 2 ^ 128 then Ok x else Panic)\<rparr>"

interpretation uint_ref: uint_crate uint_ref
  by unfold_locales
    (simp_all add: uint_ref_def chk_add_def chk_sub_def chk_mul_def chk_div_def chk_rem_def
      checked_add_def checked_sub_def checked_mul_def)

lemma uint_crate_ref: "uint_crate uint_ref"
  by (rule uint_ref.uint_crate_axioms)

end
