(* ===== verification/Full_Math.thy ===== *)
theory Full_Math
  imports Uint_Crate
begin

text \<open>
  Fixed-point constants (\<open>libraries/fixed_point_64.rs\<close>), the rounding division of
  \<open>libraries/unsafe_math.rs\<close> and the multiply-divide routines of
  \<open>libraries/full_math.rs\<close>, for the three types that implement them, with their exact
  value as a floor or a ceiling.  The lemmas about the \<open>uint\<close> operations are proved inside
  the locale \<open>uint_crate\<close>, where the crate's laws are rewrite rules.
\<close>

section \<open>Fixed-point constants\<close>

definition Q64 :: u128 where
  "Q64 = (2 ^ 64 - 1) + 1"

definition RESOLUTION :: nat where
  "RESOLUTION = 64"

lemma Q64_eq [simp]: "Q64 = 2 ^ 64"
  by (simp add: Q64_def)

lemma RESOLUTION_eq [simp]: "RESOLUTION = 64"
  by (simp add: RESOLUTION_def)

section \<open>Division rounding up\<close>

definition div_rounding_up_u64 :: "u64 \<Rightarrow> u64 \<Rightarrow> u64 res" where
  "div_rounding_up_u64 x y =
     rbind (chk_div x y) (\<lambda>q.
     rbind (chk_rem x y) (\<lambda>r.
     chk_add 64 q (if r > 0 then 1 else 0)))"

definition div_rounding_up_u128 :: "uint_lib \<Rightarrow> nat \<Rightarrow> nat \<Rightarrow> nat res" where
  "div_rounding_up_u128 U x y =
     rbind (u_div U 128 x y) (\<lambda>q.
     rbind (u_rem U 128 x y) (\<lambda>r.
     u_add U 128 q (if r > 0 then 1 else 0)))"

definition div_rounding_up_u256 :: "uint_lib \<Rightarrow> nat \<Rightarrow> nat \<Rightarrow> nat res" where
  "div_rounding_up_u256 U x y =
     rbind (u_div U 256 x y) (\<lambda>q.
     rbind (u_rem U 256 x y) (\<lambda>r.
     u_add U 256 q (if r > 0 then 1 else 0)))"

section \<open>Widening and narrowing between \<open>U128\<close> and \<open>U256\<close>\<close>

text \<open>The 64-bit limb \<open>i\<close> of a value, little-endian, as in the field \<open>.0[i]\<close>.\<close>

definition limb :: "nat \<Rightarrow> nat \<Rightarrow> u64" where
  "limb x i = x div 2 ^ (64 * i) mod 2 ^ 64"

definition as_u256 :: "nat \<Rightarrow> nat" where
  "as_u256 x = limb x 0 + 2 ^ 64 * limb x 1"

definition as_u128_trunc :: "nat \<Rightarrow> nat" where
  "as_u128_trunc x = limb x 0 + 2 ^ 64 * limb x 1"

lemma two_limbs: "limb x 0 + 2 ^ 64 * limb x 1 = x mod 2 ^ 128"
proof -
  have "x mod (2 ^ 64 * 2 ^ 64) = 2 ^ 64 * (x div 2 ^ 64 mod 2 ^ 64) + x mod 2 ^ 64"
    by (rule mod_mult2_eq)
  then show ?thesis
    by (simp add: limb_def)
qed

lemma as_u256_eq [simp]: "x < 2 ^ 128 \<Longrightarrow> as_u256 x = x"
  by (simp only: as_u256_def two_limbs mod_less)

lemma as_u128_trunc_eq [simp]: "x < 2 ^ 128 \<Longrightarrow> as_u128_trunc x = x"
  by (simp only: as_u128_trunc_def two_limbs mod_less)

section \<open>Multiply and divide\<close>

definition mul_div_floor_u64 :: "uint_lib \<Rightarrow> u64 \<Rightarrow> u64 \<Rightarrow> u64 \<Rightarrow> u64 option res" where
  "mul_div_floor_u64 U self num denom =
     rbind (assertion (denom \<noteq> 0)) (\<lambda>_.
     rbind (u_mul U 128 self num) (\<lambda>p.
     rbind (u_div U 128 p denom) (\<lambda>r.
     if r > 2 ^ 64 - 1 then Ok None
     else rbind (u_as_u64 U r) (\<lambda>v. Ok (Some v)))))"

definition mul_div_ceil_u64 :: "uint_lib \<Rightarrow> u64 \<Rightarrow> u64 \<Rightarrow> u64 \<Rightarrow> u64 option res" where
  "mul_div_ceil_u64 U self num denom =
     rbind (assertion (denom \<noteq> 0)) (\<lambda>_.
     rbind (u_mul U 128 self num) (\<lambda>p.
     rbind (chk_sub denom 1) (\<lambda>d.
     rbind (u_add U 128 p d) (\<lambda>s.
     rbind (u_div U 128 s denom) (\<lambda>r.
     if r > 2 ^ 64 - 1 then Ok None
     else rbind (u_as_u64 U r) (\<lambda>v. Ok (Some v)))))))"

definition mul_div_floor_u128 :: "uint_lib \<Rightarrow> nat \<Rightarrow> nat \<Rightarrow> nat \<Rightarrow> nat option res" where
  "mul_div_floor_u128 U self num denom =
     rbind (assertion (denom \<noteq> 0)) (\<lambda>_.
     rbind (u_mul U 256 (as_u256 self) (as_u256 num)) (\<lambda>p.
     rbind (u_div U 256 p (as_u256 denom)) (\<lambda>r.
     if r > as_u256 (2 ^ 128 - 1) then Ok None
     else Ok (Some (as_u128_trunc r)))))"

definition mul_div_ceil_u128 :: "uint_lib \<Rightarrow> nat \<Rightarrow> nat \<Rightarrow> nat \<Rightarrow> nat option res" where
  "mul_div_ceil_u128 U self num denom =
     rbind (assertion (denom \<noteq> 0)) (\<lambda>_.
     rbind (u_mul U 256 (as_u256 self) (as_u256 num)) (\<lambda>p.
     rbind (u_sub U 128 denom 1) (\<lambda>d.
     rbind (u_add U 256 p (as_u256 d)) (\<lambda>s.
     rbind (u_div U 256 s (as_u256 denom)) (\<lambda>r.
     if r > as_u256 (2 ^ 128 - 1) then Ok None
     else Ok (Some (as_u128_trunc r)))))))"

definition mul_div_floor_u256 :: "uint_lib \<Rightarrow> nat \<Rightarrow> nat \<Rightarrow> nat \<Rightarrow> nat option res" where
  "mul_div_floor_u256 U self num denom =
     rbind (assertion (denom \<noteq> 0)) (\<lambda>_.
     rbind (u_mul U 256 self num) (\<lambda>p.
     rbind (u_div U 256 p denom) (\<lambda>r.
     if r > as_u256 (2 ^ 128 - 1) then Ok None else Ok (Some r))))"

definition mul_div_ceil_u256 :: "uint_lib \<Rightarrow> nat \<Rightarrow> nat \<Rightarrow> nat \<Rightarrow> nat option res" where
  "mul_div_ceil_u256 U self num denom =
     rbind (assertion (denom \<noteq> 0)) (\<lambda>_.
     rbind (u_mul U 256 self num) (\<lambda>p.
     rbind (u_sub U 256 denom 1) (\<lambda>d.
     rbind (u_add U 256 p d) (\<lambda>s.
     rbind (u_div U 256 s denom) (\<lambda>r.
     if r > as_u256 (2 ^ 128 - 1) then Ok None else Ok (Some r))))))"

text \<open>The conversion the fee code uses: a value that is not below \<open>u64::MAX\<close> becomes 0.\<close>

definition to_underflow_u64_u64 :: "u64 \<Rightarrow> u64" where
  "to_underflow_u64_u64 self = self"

definition to_underflow_u64_u128 :: "uint_lib \<Rightarrow> nat \<Rightarrow> u64 res" where
  "to_underflow_u64_u128 U self = (if self < 2 ^ 64 - 1 then u_as_u64 U self else Ok 0)"

definition to_underflow_u64_u256 :: "uint_lib \<Rightarrow> nat \<Rightarrow> u64 res" where
  "to_underflow_u64_u256 U self = (if self < 2 ^ 64 - 1 then u_as_u64 U self else Ok 0)"

section \<open>Values\<close>

lemma mult_less_exp: "x < 2 ^ m \<Longrightarrow> y < 2 ^ n \<Longrightarrow> x * y < (2::nat) ^ (m + n)"
  by (cases "y = 0") (auto simp: power_add intro: mult_strict_mono)

lemma mult_add_less_exp:
  assumes "x < 2 ^ n" "y < 2 ^ n" "d < (2::nat) ^ n"
  shows "x * y + (d - 1) < 2 ^ (n + n)"
proof -
  define M where "M = (2::nat) ^ n"
  have "x * y \<le> (M - 1) * (M - 1)"
    using assms by (intro mult_le_mono) (simp_all add: M_def)
  moreover have "(M - 1) * (M - 1) + (M - 1) = (M - 1) * M"
    using assms by (cases M) (simp_all add: M_def)
  moreover have "(M - 1) * M < M * M"
    using assms by (cases M) (simp_all add: M_def)
  moreover have "d - 1 \<le> M - 1"
    using assms by (simp add: M_def)
  ultimately have "x * y + (d - 1) < M * M"
    by linarith
  then show ?thesis
    by (simp add: M_def power_add)
qed

lemma mult_less_128: "x < 2 ^ 64 \<Longrightarrow> y < 2 ^ 64 \<Longrightarrow> x * y < (2::nat) ^ 128"
  using mult_less_exp [of x 64 y 64] by simp

lemma mult_less_256: "x < 2 ^ 128 \<Longrightarrow> y < 2 ^ 128 \<Longrightarrow> x * y < (2::nat) ^ 256"
  using mult_less_exp [of x 128 y 128] by simp

lemma mult_add_less_128:
  "x < 2 ^ 64 \<Longrightarrow> y < 2 ^ 64 \<Longrightarrow> d < 2 ^ 64 \<Longrightarrow> x * y + (d - 1) < (2::nat) ^ 128"
  using mult_add_less_exp [of x 64 y d] by simp

lemma mult_add_less_256:
  "x < 2 ^ 128 \<Longrightarrow> y < 2 ^ 128 \<Longrightarrow> d < 2 ^ 128 \<Longrightarrow> x * y + (d - 1) < (2::nat) ^ 256"
  using mult_add_less_exp [of x 128 y d] by simp

text \<open>The specification: the exact quotient when it fits in \<open>w\<close> bits.\<close>

definition fits :: "nat \<Rightarrow> nat \<Rightarrow> nat option" where
  "fits w r = (if r < 2 ^ w then Some r else None)"

lemma fits_eq_Some_iff [simp]: "fits w r = Some v \<longleftrightarrow> r < 2 ^ w \<and> v = r"
  by (auto simp: fits_def)

lemma fits_eq_None_iff [simp]: "fits w r = None \<longleftrightarrow> 2 ^ w \<le> r"
  by (auto simp: fits_def)

context uint_crate
begin

lemma div_rounding_up_u256_eq:
  "x < 2 ^ 256 \<Longrightarrow> 0 < y \<Longrightarrow> div_rounding_up_u256 U x y = Ok (cdiv x y)"
proof -
  assume xy: "x < 2 ^ 256" "0 < y"
  have "x div y + 1 < 2 ^ 256" if "0 < x mod y"
  proof (cases "y = 1")
    case False
    with xy have "x div y \<le> x div 2"
      by (intro div_le_mono2) simp_all
    with xy show ?thesis by simp
  qed (use that in simp)
  moreover have "x div y < 2 ^ 256"
    using xy div_le_dividend [of x y] by linarith
  ultimately show ?thesis
    using xy by (simp add: div_rounding_up_u256_def cdiv_def)
qed

lemma mul_div_floor_u64_eq:
  assumes "x < 2 ^ 64" "num < 2 ^ 64" "0 < denom"
  shows "mul_div_floor_u64 U x num denom = Ok (fits 64 (x * num div denom))"
  using assms mult_less_128 [of x num] by (auto simp: mul_div_floor_u64_def fits_def)

lemma mul_div_ceil_u64_eq:
  assumes "x < 2 ^ 64" "num < 2 ^ 64" "0 < denom" "denom < 2 ^ 64"
  shows "mul_div_ceil_u64 U x num denom = Ok (fits 64 (cdiv (x * num) denom))"
proof -
  have "(x * num + (denom - 1)) div denom = cdiv (x * num) denom"
    using assms by (intro add_div_eq_cdiv)
  then show ?thesis
    using assms mult_less_128 [of x num] mult_add_less_128 [of x num denom]
    by (auto simp: mul_div_ceil_u64_def fits_def chk_sub_def)
qed

lemma mul_div_floor_u128_eq:
  assumes "x < 2 ^ 128" "num < 2 ^ 128" "0 < denom" "denom < 2 ^ 128"
  shows "mul_div_floor_u128 U x num denom = Ok (fits 128 (x * num div denom))"
  using assms mult_less_256 [of x num] by (auto simp: mul_div_floor_u128_def fits_def)

lemma mul_div_ceil_u128_eq:
  assumes "x < 2 ^ 128" "num < 2 ^ 128" "0 < denom" "denom < 2 ^ 128"
  shows "mul_div_ceil_u128 U x num denom = Ok (fits 128 (cdiv (x * num) denom))"
proof -
  have "(x * num + (denom - 1)) div denom = cdiv (x * num) denom"
    using assms by (intro add_div_eq_cdiv)
  moreover have "as_u256 (denom - 1) = denom - 1"
    using assms by (intro as_u256_eq) simp
  ultimately show ?thesis
    using assms mult_less_256 [of x num] mult_add_less_256 [of x num denom]
    by (auto simp: mul_div_ceil_u128_def fits_def)
qed

lemma mul_div_floor_u256_eq:
  "0 < denom \<Longrightarrow> mul_div_floor_u256 U x num denom =
     (if x * num < 2 ^ 256 then Ok (fits 128 (x * num div denom)) else Panic)"
  by (auto simp: mul_div_floor_u256_def fits_def)

lemma mul_div_ceil_u256_eq:
  assumes "0 < denom"
  shows "mul_div_ceil_u256 U x num denom =
     (if x * num + (denom - 1) < 2 ^ 256 then Ok (fits 128 (cdiv (x * num) denom)) else Panic)"
proof -
  have "(x * num + (denom - 1)) div denom = cdiv (x * num) denom"
    using assms by (intro add_div_eq_cdiv)
  then show ?thesis
    using assms by (auto simp: mul_div_ceil_u256_def fits_def)
qed

lemma mul_div_zero_denom:
  "mul_div_floor_u64 U x num 0 = Panic"
  "mul_div_ceil_u64 U x num 0 = Panic"
  "mul_div_floor_u128 U x num 0 = Panic"
  "mul_div_ceil_u128 U x num 0 = Panic"
  "mul_div_floor_u256 U x num 0 = Panic"
  "mul_div_ceil_u256 U x num 0 = Panic"
  by (simp_all add: mul_div_floor_u64_def mul_div_ceil_u64_def mul_div_floor_u128_def
      mul_div_ceil_u128_def mul_div_floor_u256_def mul_div_ceil_u256_def)

lemma to_underflow_u64_eq:
  "to_underflow_u64_u128 U x = Ok (if x < 2 ^ 64 - 1 then x else 0)"
  "to_underflow_u64_u256 U x = Ok (if x < 2 ^ 64 - 1 then x else 0)"
  by (simp_all add: to_underflow_u64_u128_def to_underflow_u64_u256_def)

lemmas mul_div_eqs = mul_div_floor_u64_eq mul_div_ceil_u64_eq mul_div_floor_u128_eq
  mul_div_ceil_u128_eq mul_div_floor_u256_eq mul_div_ceil_u256_eq

end

section \<open>Properties\<close>

text \<open>
  C23. Multiply-then-divide is exact on 64-bit and 128-bit operands: the product is never
  truncated, the quotient is the floor (or the ceiling) of the exact fraction, and the result
  is \<open>None\<close> exactly when that quotient does not fit the type.
\<close>

theorem mul_div_exact:
  assumes "uint_crate U"
    and "x < 2 ^ 64" "n < 2 ^ 64" "0 < d" "d < 2 ^ 64"
    and "y < 2 ^ 128" "m < 2 ^ 128" "0 < e" "e < 2 ^ 128"
  shows "mul_div_floor_u64 U x n d = Ok (if x * n div d < 2 ^ 64 then Some (x * n div d) else None)
    \<and> mul_div_ceil_u64 U x n d =
        Ok (if cdiv (x * n) d < 2 ^ 64 then Some (cdiv (x * n) d) else None)
    \<and> mul_div_floor_u128 U y m e = Ok (if y * m div e < 2 ^ 128 then Some (y * m div e) else None)
    \<and> mul_div_ceil_u128 U y m e =
        Ok (if cdiv (y * m) e < 2 ^ 128 then Some (cdiv (y * m) e) else None)"
  using assms uint_crate.mul_div_eqs(1-4) [OF assms(1)] by (simp add: fits_def)

theorem mul_div_exact_witness:
  "mul_div_floor_u64 uint_ref 7 3 2 = Ok (Some 10)
    \<and> mul_div_ceil_u64 uint_ref 7 3 2 = Ok (Some 11)
    \<and> mul_div_floor_u128 uint_ref (2 ^ 127) 6 2 = Ok None
    \<and> mul_div_ceil_u128 uint_ref (2 ^ 127) 6 2 = Ok None"
  using mul_div_exact [OF uint_crate_ref, of 7 3 2 "2 ^ 127" 6 2] by (simp add: cdiv_def)

text \<open>
  The 256-bit instance is narrower than the trait's documentation says ("returns None
  if the output does not fit, handles phantom overflow"): an intermediate product of 256 bits
  or more panics, and a quotient above \<open>u128::MAX\<close> gives \<open>None\<close> although it fits in \<open>U256\<close>.
\<close>

theorem mul_div_floor_u256_limits:
  assumes "uint_crate U" "0 < d"
  shows "(mul_div_floor_u256 U x n d = Panic \<longleftrightarrow> 2 ^ 256 \<le> x * n)
    \<and> (mul_div_floor_u256 U x n d = Ok None \<longleftrightarrow> x * n < 2 ^ 256 \<and> 2 ^ 128 \<le> x * n div d)
    \<and> (mul_div_floor_u256 U x n d = Ok (Some q) \<longleftrightarrow>
        x * n < 2 ^ 256 \<and> x * n div d < 2 ^ 128 \<and> q = x * n div d)"
proof -
  have "x * n div d < 2 ^ 128 \<longleftrightarrow> \<not> 2 ^ 128 \<le> x * n div d" by auto
  moreover have "x * n < 2 ^ 256 \<longleftrightarrow> \<not> 2 ^ 256 \<le> x * n" by auto
  ultimately show ?thesis
    using uint_crate.mul_div_floor_u256_eq [OF assms, of x n] by (auto simp: fits_def simp del: not_le)
qed

theorem mul_div_floor_u256_limits_witness:
  "mul_div_floor_u256 uint_ref (2 ^ 255) 2 2 = Panic
    \<and> mul_div_floor_u256 uint_ref (2 ^ 128) 1 1 = Ok None
    \<and> mul_div_floor_u256 uint_ref (2 ^ 128) 6 4 = Ok None
    \<and> mul_div_floor_u256 uint_ref (2 ^ 128) 6 8 = Ok (Some (3 * 2 ^ 126))"
  using mul_div_floor_u256_limits [OF uint_crate_ref, of 2 "2 ^ 255" 2 0]
    mul_div_floor_u256_limits [OF uint_crate_ref, of 1 "2 ^ 128" 1 0]
    mul_div_floor_u256_limits [OF uint_crate_ref, of 4 "2 ^ 128" 6 0]
    mul_div_floor_u256_limits [OF uint_crate_ref, of 8 "2 ^ 128" 6 "3 * 2 ^ 126"]
  by simp

end
