(* ===== verification/Tick_Math.thy ===== *)
theory Tick_Math
  imports Complex_Main Full_Math
begin

text \<open>
  \<open>libraries/tick_math.rs\<close>: the price of a tick and the tick of a price.  The repeated
  conditional multiplications of \<open>get_sqrt_price_at_tick\<close> are a loop over the table of
  magic factors.  The price function is compared with an exact (real) product of the
  factors, from which strict monotonicity over all 887273 ticks follows; the range of the
  function is then its value at the two end points.
\<close>

unbundle bit_operations_syntax

section \<open>Constants\<close>

definition MIN_TICK :: i32 where
  "MIN_TICK = -443636"

definition MAX_TICK :: i32 where
  "MAX_TICK = - MIN_TICK"

definition MIN_SQRT_PRICE_X64 :: u128 where
  "MIN_SQRT_PRICE_X64 = 4295048016"

definition MAX_SQRT_PRICE_X64 :: u128 where
  "MAX_SQRT_PRICE_X64 = 79226673521066979257578248091"

definition NUM_64 :: nat where
  "NUM_64 = 64"

definition BIT_PRECISION :: u32 where
  "BIT_PRECISION = 16"

section \<open>The price of a tick\<close>

definition first_factor :: nat where
  "first_factor = 0xfffcb933bd6fb800"

text \<open>The bit masks and factors of the steps \<open>i = 1\<close> to \<open>i = 18\<close>.\<close>

definition factor_table :: "(nat \<times> nat) list" where
  "factor_table =
    [(0x2, 0xfff97272373d4000),
     (0x4, 0xfff2e50f5f657000),
     (0x8, 0xffe5caca7e10f000),
     (0x10, 0xffcb9843d60f7000),
     (0x20, 0xff973b41fa98e800),
     (0x40, 0xff2ea16466c9b000),
     (0x80, 0xfe5dee046a9a3800),
     (0x100, 0xfcbe86c7900bb000),
     (0x200, 0xf987a7253ac65800),
     (0x400, 0xf3392b0822bb6000),
     (0x800, 0xe7159475a2caf000),
     (0x1000, 0xd097f3bdfd2f2000),
     (0x2000, 0xa9f746462d9f8000),
     (0x4000, 0x70d869a156f31c00),
     (0x8000, 0x31be135f97ed3200),
     (0x10000, 0x9aa508b5b85a500),
     (0x20000, 0x5d6af8dedc582c),
     (0x40000, 0x2216e584f5fa)]"

fun ratio_steps :: "uint_lib \<Rightarrow> u32 \<Rightarrow> (nat \<times> nat) list \<Rightarrow> nat \<Rightarrow> nat res" where
  "ratio_steps U abs_tick [] ratio = Ok ratio"
| "ratio_steps U abs_tick ((m, factor) # rest) ratio =
     rbind (if abs_tick AND m \<noteq> 0
            then rbind (u_mul U 128 ratio factor) (\<lambda>p. Ok (u_shr U 128 p NUM_64))
            else Ok ratio)
       (\<lambda>ratio. ratio_steps U abs_tick rest ratio)"

definition get_sqrt_price_at_tick :: "uint_lib \<Rightarrow> i32 \<Rightarrow> u128 res" where
  "get_sqrt_price_at_tick U tick =
     rbind (chk_i 32 \<bar>tick\<bar>) (\<lambda>a.
     let abs_tick = nat a in
     rbind (require (abs_tick \<le> nat MAX_TICK) (Code TickUpperOverflow)) (\<lambda>_.
     let ratio = (if abs_tick AND 0x1 \<noteq> 0 then first_factor else 2 ^ 64) in
     rbind (ratio_steps U abs_tick factor_table ratio) (\<lambda>ratio.
     rbind (if tick > 0 then u_div U 128 (2 ^ 128 - 1) ratio else Ok ratio) (\<lambda>ratio.
     u_as_u128 U ratio))))"

section \<open>The tick of a price\<close>

text \<open>\<open>u128::leading_zeros\<close>, through the number of significant bits.\<close>

fun bit_length :: "nat \<Rightarrow> nat" where
  "bit_length n = (if n = 0 then 0 else Suc (bit_length (n div 2)))"

declare bit_length.simps [simp del]

definition leading_zeros :: "nat \<Rightarrow> nat \<Rightarrow> nat" where
  "leading_zeros w x = w - bit_length x"

text \<open>
  The fractional bits of the binary logarithm: one squaring per bit.  The arguments are the
  loop variables \<open>bit\<close>, \<open>precision\<close>, \<open>r\<close> and \<open>log2p_fraction_x64\<close>.
\<close>

function log2_loop :: "i128 \<Rightarrow> nat \<Rightarrow> u128 \<Rightarrow> i128 \<Rightarrow> i128 res" where
  "log2_loop b precision r fr =
     (if b > 0 \<and> precision < BIT_PRECISION then
        rbind (chk_mul 128 r r) (\<lambda>r.
        let is_r_more_than_two = r div 2 ^ 127 in
        rbind (chk_i 128 (b * int is_r_more_than_two)) (\<lambda>inc.
        rbind (chk_i 128 (fr + inc)) (\<lambda>fr.
        log2_loop (b div 2) (precision + 1) (r div 2 ^ (63 + is_r_more_than_two)) fr)))
      else Ok fr)"
  by pat_completeness auto
termination
  by (relation "measure (\<lambda>(b, precision, r, fr). BIT_PRECISION - precision)") auto

declare log2_loop.simps [simp del]

text \<open>The truncating cast \<open>as i32\<close>.\<close>

definition as_i32 :: "int \<Rightarrow> i32" where
  "as_i32 z = (z + 2 ^ 31) mod 2 ^ 32 - 2 ^ 31"

definition get_tick_at_sqrt_price :: "uint_lib \<Rightarrow> u128 \<Rightarrow> i32 res" where
  "get_tick_at_sqrt_price U sqrt_price_x64 =
     rbind (require (sqrt_price_x64 \<ge> MIN_SQRT_PRICE_X64 \<and> sqrt_price_x64 < MAX_SQRT_PRICE_X64)
              (Code SqrtPriceX64)) (\<lambda>_.
     rbind (chk_sub 128 (leading_zeros 128 sqrt_price_x64)) (\<lambda>d.
     rbind (chk_sub d 1) (\<lambda>msb.
     rbind (chk_i 128 (int msb - 64)) (\<lambda>e.
     let log2p_integer_x32 = e * 2 ^ 32;
         r = (if msb \<ge> 64 then sqrt_price_x64 div 2 ^ (msb - 63)
              else sqrt_price_x64 * 2 ^ (63 - msb) mod 2 ^ 128) in
     rbind (log2_loop 0x8000000000000000 0 r 0) (\<lambda>log2p_fraction_x64.
     let log2p_fraction_x32 = log2p_fraction_x64 div 2 ^ 32 in
     rbind (chk_i 128 (log2p_integer_x32 + log2p_fraction_x32)) (\<lambda>log2p_x32.
     rbind (chk_i 128 (log2p_x32 * 59543866431248)) (\<lambda>log_sqrt_10001_x64.
     rbind (chk_i 128 (log_sqrt_10001_x64 - 184467440737095516)) (\<lambda>lo.
     rbind (chk_i 128 (log_sqrt_10001_x64 + 15793534762490258745)) (\<lambda>hi.
     let tick_low = as_i32 (lo div 2 ^ 64);
         tick_high = as_i32 (hi div 2 ^ 64) in
     if tick_low = tick_high then Ok tick_low
     else rbind (unwrap_result (get_sqrt_price_at_tick U tick_high)) (\<lambda>p.
       if p \<le> sqrt_price_x64 then Ok tick_high else Ok tick_low))))))))))"

section \<open>Exact prices and monotonicity\<close>

text \<open>The multipliers in order, and the loop seen as halving the tick.\<close>

definition factors :: "nat list" where
  "factors = first_factor # map snd factor_table"

fun ratio_fold :: "nat list \<Rightarrow> nat \<Rightarrow> nat \<Rightarrow> nat" where
  "ratio_fold [] n r = r"
| "ratio_fold (m # ms) n r = ratio_fold ms (n div 2) (if odd n then r * m div 2 ^ 64 else r)"

definition ratio_of :: "nat \<Rightarrow> nat" where
  "ratio_of n = ratio_fold factors n (2 ^ 64)"

lemma and_exp_nonzero_iff: "(n::nat) AND 2 ^ i \<noteq> 0 \<longleftrightarrow> odd (n div 2 ^ i)"
proof -
  have "n AND push_bit i 1 \<noteq> 0 \<longleftrightarrow> bit n i"
    by (simp only: bit_iff_and_push_bit_not_eq_0)
  then show ?thesis
    by (simp add: bit_iff_odd push_bit_eq_mult)
qed

fun masks_from :: "nat \<Rightarrow> (nat \<times> nat) list \<Rightarrow> bool" where
  "masks_from i [] \<longleftrightarrow> True"
| "masks_from i ((m, f) # rest) \<longleftrightarrow> m = 2 ^ i \<and> f < 2 ^ 64 \<and> masks_from (Suc i) rest"

lemma ratio_fold_le: "(\<forall>m \<in> set ms. m < 2 ^ 64) \<Longrightarrow> ratio_fold ms n r \<le> r"
proof (induction ms n r rule: ratio_fold.induct)
  case (2 m ms n r)
  have "r * m div 2 ^ 64 \<le> r * 2 ^ 64 div 2 ^ 64"
    using 2(2) by (intro div_le_mono mult_le_mono2) simp
  with 2 show ?case by (auto intro: order_trans)
qed simp

context uint_crate
begin

lemma ratio_steps_eq:
  "masks_from i tab \<Longrightarrow> r \<le> 2 ^ 64 \<Longrightarrow>
   ratio_steps U n tab r = Ok (ratio_fold (map snd tab) (n div 2 ^ i) r)"
proof (induction tab arbitrary: i r)
  case (Cons e tab)
  obtain m f where e: "e = (m, f)" by (cases e)
  from Cons.prems e have m: "m = 2 ^ i" and f: "f < 2 ^ 64" and tab: "masks_from (Suc i) tab"
    by auto
  have "r * f \<le> 2 ^ 64 * f"
    using Cons.prems by (intro mult_le_mono1)
  moreover have "2 ^ 64 * f < 2 ^ 128" using f by simp
  ultimately have prod: "r * f < 2 ^ 128" by (rule le_less_trans)
  define r' where "r' = (if odd (n div 2 ^ i) then r * f div 2 ^ 64 else r)"
  have "r * f div 2 ^ 64 \<le> 2 ^ 64"
    using prod by (intro less_imp_le less_mult_imp_div_less) simp
  with Cons.prems have r': "r' \<le> 2 ^ 64"
    by (simp only: r'_def split: if_splits) auto
  have step: "ratio_steps U n (e # tab) r = ratio_steps U n tab r'"
    unfolding e m r'_def
    by (simp only: ratio_steps.simps and_exp_nonzero_iff u_mul u_shr NUM_64_def prod if_True
        split: if_splits) simp
  have half: "n div 2 ^ Suc i = n div 2 ^ i div 2"
    by (simp add: div_mult2_eq [symmetric] mult.commute)
  show ?case
    unfolding step Cons.IH [OF tab r'] half by (simp add: e r'_def)
qed simp

end

lemma masks_factor_table: "masks_from 1 factor_table"
  by (simp add: factor_table_def)

lemma factors_bounds: "m \<in> set factors \<Longrightarrow> 0 < m \<and> m < 2 ^ 64"
  by (auto simp: factors_def factor_table_def first_factor_def)

lemma length_factors: "length factors = 19"
  by (simp add: factors_def factor_table_def)

lemma ratio_of_unfold:
  "ratio_of n = ratio_fold (map snd factor_table) (n div 2) (if odd n then first_factor else 2 ^ 64)"
  by (simp add: ratio_of_def factors_def)

text \<open>The exact product of the factors of the set bits.\<close>

fun exact :: "nat list \<Rightarrow> nat \<Rightarrow> real" where
  "exact [] n = 1"
| "exact (m # ms) n = (if odd n then real m / 2 ^ 64 else 1) * exact ms (n div 2)"

lemma exact_bounds:
  "(\<And>m. m \<in> set ms \<Longrightarrow> 0 < m \<and> m < 2 ^ 64) \<Longrightarrow> 0 < exact ms n \<and> exact ms n \<le> 1"
proof (induction ms n rule: exact.induct)
  case (2 m ms n)
  then have IH: "0 < exact ms (n div 2)" "exact ms (n div 2) \<le> 1" and m: "0 < m" "m < 2 ^ 64"
    by auto
  from m have "0 < real m / 2 ^ 64" "real m / 2 ^ 64 \<le> 1"
    by (simp_all add: field_simps)
  with IH have "real m / 2 ^ 64 * exact ms (n div 2) \<le> 1"
    by (intro mult_le_one) auto
  with IH m show ?case
    by auto
qed simp

lemma real_div_bounds:
  "real (x div y) \<le> real x / real y" "real x / real y - 1 \<le> real (x div y)"
proof -
  have "real (x div y) = of_int \<lfloor>real x / real y\<rfloor>"
    by (simp add: floor_divide_of_nat_eq)
  then show "real (x div y) \<le> real x / real y" and "real x / real y - 1 \<le> real (x div y)"
    by linarith+
qed

lemma ratio_fold_exact:
  "(\<And>m. m \<in> set ms \<Longrightarrow> 0 < m \<and> m < 2 ^ 64) \<Longrightarrow>
   real r * exact ms n - real (length ms) \<le> real (ratio_fold ms n r) \<and>
   real (ratio_fold ms n r) \<le> real r * exact ms n"
proof (induction ms n r rule: ratio_fold.induct)
  case (2 m ms n r)
  define r' where "r' = (if odd n then r * m div 2 ^ 64 else r)"
  define f where "f = (if odd n then real m / 2 ^ 64 else 1)"
  define E where "E = exact ms (n div 2)"
  have E: "0 < E" "E \<le> 1"
    using exact_bounds [of ms "n div 2"] 2(2) by (auto simp: E_def)
  have r': "real r * f - 1 \<le> real r'" "real r' \<le> real r * f"
    using real_div_bounds [of "r * m" "2 ^ 64"] by (auto simp: r'_def f_def algebra_simps)
  have IH: "real r' * E - real (length ms) \<le> real (ratio_fold ms (n div 2) r')"
    "real (ratio_fold ms (n div 2) r') \<le> real r' * E"
    using 2 by (auto simp: r'_def E_def)
  have "(real r * f - 1) * E \<le> real r' * E" "real r' * E \<le> real r * f * E"
    using E r' by (simp_all add: mult_right_mono)
  moreover have "(real r * f - 1) * E = real r * f * E - E"
    by (simp add: algebra_simps)
  moreover have fold: "ratio_fold (m # ms) n r = ratio_fold ms (n div 2) r'"
    and prod: "real r * exact (m # ms) n = real r * f * E"
    by (simp_all add: r'_def f_def E_def)
  ultimately show ?case
    unfolding fold prod using IH E by (simp only: list.size of_nat_add of_nat_1) linarith
qed simp

text \<open>
  One tick more multiplies the exact product by at most \<open>a / b\<close>: the check below is the
  inequality for each number of trailing one bits, that is for each carry length.
\<close>

fun gap_ok :: "nat \<Rightarrow> nat \<Rightarrow> nat list \<Rightarrow> bool" where
  "gap_ok a b [] \<longleftrightarrow> True"
| "gap_ok a b (m # ms) \<longleftrightarrow> m * b \<le> 2 ^ 64 * a \<and> gap_ok (a * m) (b * 2 ^ 64) ms"

lemma exact_step:
  "gap_ok a b ms \<Longrightarrow> n + 1 < 2 ^ length ms \<Longrightarrow> (\<And>m. m \<in> set ms \<Longrightarrow> 0 < m \<and> m < 2 ^ 64) \<Longrightarrow>
   exact ms (n + 1) * real b \<le> real a * exact ms n"
proof (induction a b ms arbitrary: n rule: gap_ok.induct)
  case (2 a b m ms)
  have E: "0 < exact ms (n div 2)"
    using exact_bounds [of ms] 2(4) by auto
  show ?case
  proof (cases "odd n")
    case False
    have "real (m * b) \<le> real (2 ^ 64 * a)"
      using 2(2) by (simp only: of_nat_le_iff gap_ok.simps)
    then have "real m / 2 ^ 64 * real b \<le> real a"
      by (simp add: field_simps)
    with E have "real m / 2 ^ 64 * real b * exact ms (n div 2) \<le> real a * exact ms (n div 2)"
      by (intro mult_right_mono) auto
    with False show ?thesis by (simp add: ac_simps)
  next
    case True
    have "n div 2 + 1 < 2 ^ length ms"
      using 2(3) True by (auto elim!: oddE)
    with 2 have "exact ms (n div 2 + 1) * real (b * 2 ^ 64) \<le> real (a * m) * exact ms (n div 2)"
      by auto
    moreover have "(n + 1) div 2 = n div 2 + 1"
      using True by presburger
    ultimately show ?thesis
      using True by (simp add: field_simps)
  qed
qed simp

lemma gap_factors: "gap_ok 999951 1000000 factors"
  by (simp add: factors_def factor_table_def first_factor_def)

lemma ratio_of_endpoint: "ratio_of 443636 = MIN_SQRT_PRICE_X64"
  by (simp add: ratio_of_def factors_def factor_table_def first_factor_def MIN_SQRT_PRICE_X64_def)


lemma exact_factors_step:
  "n + 1 < 2 ^ 19 \<Longrightarrow> exact factors (n + 1) * 1000000 \<le> 999951 * exact factors n"
  using exact_step [OF gap_factors, of n] factors_bounds by (simp add: length_factors)

lemma exact_factors_pos: "0 < exact factors n"
  using exact_bounds [of factors] factors_bounds by blast

lemma exact_factors_antimono: "n \<le> m \<Longrightarrow> m < 2 ^ 19 \<Longrightarrow> exact factors m \<le> exact factors n"
proof (induction m rule: dec_induct)
  case (step m)
  then show ?case
    using exact_factors_step [of m] exact_factors_pos [of m] by auto
qed simp

lemma ratio_of_exact:
  "2 ^ 64 * exact factors n - 19 \<le> real (ratio_of n)" "real (ratio_of n) \<le> 2 ^ 64 * exact factors n"
  using ratio_fold_exact [of factors "2 ^ 64" n] factors_bounds
  by (auto simp: ratio_of_def length_factors)

lemma ratio_of_strict:
  assumes "n < 443636"
  shows "ratio_of (n + 1) < ratio_of n"
proof -
  have "exact factors 443636 \<le> exact factors n"
    using assms by (intro exact_factors_antimono) simp_all
  moreover have "4295048016 \<le> 2 ^ 64 * exact factors 443636"
    using ratio_of_exact(2) [of 443636]
    unfolding ratio_of_endpoint by (simp add: MIN_SQRT_PRICE_X64_def)
  ultimately have "4295048016 \<le> 2 ^ 64 * exact factors n"
    by (meson mult_left_mono order_trans zero_le_numeral zero_le_power)
  moreover have "exact factors (n + 1) * 1000000 \<le> 999951 * exact factors n"
    using assms by (intro exact_factors_step) simp
  ultimately have "real (ratio_of (n + 1)) < real (ratio_of n)"
    using ratio_of_exact(1) [of n] ratio_of_exact(2) [of "n + 1"] by simp
  then show ?thesis by simp
qed

lemma ratio_of_strict_antimono: "n < m \<Longrightarrow> m \<le> 443636 \<Longrightarrow> ratio_of m < ratio_of n"
proof (induction m rule: less_induct)
  case (less m)
  then obtain k where k: "m = k + 1"
    by (metis Suc_eq_plus1 not_less_zero old.nat.exhaust)
  have "ratio_of m < ratio_of k"
    using less.prems k by (simp only: k) (rule ratio_of_strict, simp)
  then show ?case
    using less.IH [of k] less.prems k by (cases "n = k") auto
qed

lemma ratio_of_0: "ratio_of 0 = 2 ^ 64"
  by (simp add: ratio_of_def factors_def factor_table_def first_factor_def)

lemma ratio_of_bounds:
  assumes "n \<le> 443636"
  shows "MIN_SQRT_PRICE_X64 \<le> ratio_of n" "ratio_of n \<le> 2 ^ 64" "0 < n \<Longrightarrow> ratio_of n < 2 ^ 64"
proof -
  show "MIN_SQRT_PRICE_X64 \<le> ratio_of n"
    using ratio_of_strict_antimono [of n 443636] assms ratio_of_endpoint
    by (cases "n = 443636") auto
  show "0 < n \<Longrightarrow> ratio_of n < 2 ^ 64"
    using ratio_of_strict_antimono [of 0 n] assms ratio_of_0 by simp
  then show "ratio_of n \<le> 2 ^ 64"
    using ratio_of_0 by (cases "n = 0") auto
qed

lemma ratio_of_pos: "n \<le> 443636 \<Longrightarrow> 0 < ratio_of n"
  using ratio_of_bounds(1) [of n] by (simp add: MIN_SQRT_PRICE_X64_def)

text \<open>The price of a tick, as a total function.\<close>

definition price_at :: "int \<Rightarrow> nat" where
  "price_at t = (if t > 0 then (2 ^ 128 - 1) div ratio_of (nat t) else ratio_of (nat (- t)))"

lemma div_strict_antimono:
  fixes M :: nat
  assumes "0 < r'" "r' < r" "r * r \<le> M + 1"
  shows "M div r < M div r'"
proof -
  define q where "q = M div r"
  have "M < (q + 1) * r"
    using assms dividend_less_times_div [of r M] by (simp add: q_def algebra_simps)
  then have "r * r \<le> (q + 1) * r"
    using assms by linarith
  then have "r \<le> q + 1"
    using assms by (simp only: mult_le_cancel2)
  have "(q + 1) * r' \<le> (q + 1) * (r - 1)"
    using assms by (intro mult_le_mono2) simp
  also have "\<dots> = q * r + r - (q + 1)"
    using assms by (simp add: diff_mult_distrib2)
  also have "\<dots> \<le> q * r"
    using \<open>r \<le> q + 1\<close> by simp
  also have "q * r \<le> M"
    by (simp add: q_def)
  finally have "q + 1 \<le> M div r'"
    using assms by (simp add: less_eq_div_iff_mult_less_eq)
  then show ?thesis by (simp add: q_def)
qed

lemma price_at_step:
  assumes "MIN_TICK \<le> t" "t < MAX_TICK"
  shows "price_at t < price_at (t + 1)"
proof -
  have t: "- 443636 \<le> t" "t < 443636"
    using assms by (simp_all add: MIN_TICK_def MAX_TICK_def)
  consider "t < 0" | "t = 0" | "0 < t" by linarith
  then show ?thesis
  proof cases
    case 1
    then have "ratio_of (nat (- t)) < ratio_of (nat (- (t + 1)))"
      using t by (intro ratio_of_strict_antimono) auto
    with 1 show ?thesis by (simp add: price_at_def)
  next
    case 2
    have "2 ^ 64 < (2 ^ 128 - 1) div ratio_of 1"
      by (simp add: ratio_of_def factors_def factor_table_def first_factor_def)
    with 2 show ?thesis by (simp add: price_at_def ratio_of_0)
  next
    case 3
    define r r' where "r = ratio_of (nat t)" and "r' = ratio_of (nat (t + 1))"
    have "r' < r"
      unfolding r_def r'_def using 3 t by (intro ratio_of_strict_antimono) auto
    moreover have "0 < r'"
      using ratio_of_pos [of "nat (t + 1)"] t by (simp add: r'_def)
    moreover have "r \<le> 2 ^ 64"
      using ratio_of_bounds(2) [of "nat t"] t by (simp add: r_def)
    then have "r * r \<le> (2 ^ 64) * (2 ^ 64)" by (rule mult_le_mono) fact
    then have "r * r \<le> (2 ^ 128 - 1) + 1" by simp
    ultimately have "(2 ^ 128 - 1) div r < (2 ^ 128 - 1) div r'"
      by (intro div_strict_antimono)
    with 3 show ?thesis by (simp only: price_at_def r_def r'_def) simp
  qed
qed


lemma price_at_strict_mono:
  assumes "MIN_TICK \<le> s" "s < t" "t \<le> MAX_TICK"
  shows "price_at s < price_at t"
  using assms(2,3)
proof (induction t rule: int_gr_induct)
  case base
  then show ?case using assms(1) price_at_step [of s] by simp
next
  case (step t)
  then have "price_at s < price_at t" by simp
  also have "price_at t < price_at (t + 1)"
    using step assms(1) by (intro price_at_step) auto
  finally show ?case .
qed

lemma price_at_mono:
  "MIN_TICK \<le> s \<Longrightarrow> s \<le> t \<Longrightarrow> t \<le> MAX_TICK \<Longrightarrow> price_at s \<le> price_at t"
  using price_at_strict_mono [of s t] by (cases "s = t") auto

lemma price_at_less_iff:
  "MIN_TICK \<le> s \<Longrightarrow> s \<le> MAX_TICK \<Longrightarrow> MIN_TICK \<le> t \<Longrightarrow> t \<le> MAX_TICK \<Longrightarrow>
   price_at s < price_at t \<longleftrightarrow> s < t"
  using price_at_strict_mono [of s t] price_at_mono [of t s] by (cases "s < t") auto

lemma price_at_MIN_TICK: "price_at MIN_TICK = MIN_SQRT_PRICE_X64"
  using ratio_of_endpoint by (simp add: price_at_def MIN_TICK_def)

lemma price_at_MAX_TICK: "price_at MAX_TICK = MAX_SQRT_PRICE_X64"
  using ratio_of_endpoint
  by (simp add: price_at_def MAX_TICK_def MIN_TICK_def MIN_SQRT_PRICE_X64_def MAX_SQRT_PRICE_X64_def)

lemma price_at_bounds:
  assumes "MIN_TICK \<le> t" "t \<le> MAX_TICK"
  shows "MIN_SQRT_PRICE_X64 \<le> price_at t" "price_at t \<le> MAX_SQRT_PRICE_X64"
proof -
  have "MIN_TICK \<le> MAX_TICK"
    by (simp add: MIN_TICK_def MAX_TICK_def)
  then show "MIN_SQRT_PRICE_X64 \<le> price_at t" "price_at t \<le> MAX_SQRT_PRICE_X64"
    using price_at_mono [of MIN_TICK t] price_at_mono [of t MAX_TICK] assms
    by (simp_all add: price_at_MIN_TICK price_at_MAX_TICK)
qed

context uint_crate
begin

lemma get_sqrt_price_at_tick_eq:
  assumes "- 2147483647 \<le> t" "t \<le> 2147483647"
  shows "get_sqrt_price_at_tick U t =
    (if MIN_TICK \<le> t \<and> t \<le> MAX_TICK then Ok (price_at t) else Err (Code TickUpperOverflow))"
proof (cases "MIN_TICK \<le> t \<and> t \<le> MAX_TICK")
  case True
  define n where "n = nat \<bar>t\<bar>"
  have n: "n \<le> 443636" "n \<le> nat MAX_TICK"
    using True by (auto simp: n_def MIN_TICK_def MAX_TICK_def)
  define r0 where "r0 = (if odd n then first_factor else 2 ^ 64)"
  have bit0: "(if n AND 1 \<noteq> 0 then first_factor else 2 ^ 64) = r0"
    using and_exp_nonzero_iff [of n 0] by (simp add: r0_def)
  have "r0 \<le> 2 ^ 64"
    by (simp add: r0_def first_factor_def)
  then have steps: "ratio_steps U n factor_table r0 = Ok (ratio_of n)"
    using ratio_steps_eq [OF masks_factor_table, of r0 n] by (simp add: ratio_of_unfold r0_def)
  have price: "price_at t = (if t > 0 then (2 ^ 128 - 1) div ratio_of n else ratio_of n)"
    by (simp add: price_at_def n_def)
  have "price_at t < 2 ^ 128"
    using price_at_bounds(2) [of t] True by (simp add: MAX_SQRT_PRICE_X64_def)
  moreover have "chk_i 32 \<bar>t\<bar> = Ok \<bar>t\<bar>"
    using assms by simp
  ultimately show ?thesis
    unfolding get_sqrt_price_at_tick_def Let_def
    using True n ratio_of_pos [OF n(1)]
    by (simp only: rbind.simps n_def [symmetric] bit0 steps) (auto simp: price split: if_splits)
next
  case False
  then have "\<not> nat \<bar>t\<bar> \<le> nat MAX_TICK"
    by (auto simp: MIN_TICK_def MAX_TICK_def)
  with False assms show ?thesis
    by (simp add: get_sqrt_price_at_tick_def)
qed

lemma get_sqrt_price_at_tick_Ok:
  "MIN_TICK \<le> t \<Longrightarrow> t \<le> MAX_TICK \<Longrightarrow> get_sqrt_price_at_tick U t = Ok (price_at t)"
  by (subst get_sqrt_price_at_tick_eq) (auto simp: MIN_TICK_def MAX_TICK_def)

lemma get_sqrt_price_at_tick_OkD:
  assumes "get_sqrt_price_at_tick U t = Ok p"
  shows "MIN_TICK \<le> t" "t \<le> MAX_TICK" "p = price_at t"
proof -
  have "\<bar>t\<bar> \<le> MAX_TICK"
    using assms
    by (auto simp: res_inv get_sqrt_price_at_tick_def chk_i_eq_Ok_iff Let_def MIN_TICK_def MAX_TICK_def)
  then show t: "MIN_TICK \<le> t" "t \<le> MAX_TICK"
    by (auto simp: MAX_TICK_def)
  with assms show "p = price_at t"
    by (simp add: get_sqrt_price_at_tick_Ok)
qed

end

section \<open>Properties\<close>

text \<open>
  C22. The price of a tick is defined on exactly the ticks between \<open>MIN_TICK\<close> and
  \<open>MAX_TICK\<close>, strictly increases from one tick to any later one, and stays in the range
  from \<open>MIN_SQRT_PRICE_X64\<close> to \<open>MAX_SQRT_PRICE_X64\<close>, whose ends it reaches; any other
  tick is refused with \<open>TickUpperOverflow\<close>.
\<close>

theorem get_sqrt_price_at_tick_strict_mono:
  assumes "uint_crate U" "MIN_TICK \<le> i" "i < j" "j \<le> MAX_TICK"
    and "\<bar>k\<bar> < 2 ^ 31" "k < MIN_TICK \<or> MAX_TICK < k"
  shows "(\<exists>p q. get_sqrt_price_at_tick U i = Ok p \<and> get_sqrt_price_at_tick U j = Ok q \<and> p < q
      \<and> MIN_SQRT_PRICE_X64 \<le> p \<and> q \<le> MAX_SQRT_PRICE_X64)
    \<and> get_sqrt_price_at_tick U MIN_TICK = Ok MIN_SQRT_PRICE_X64
    \<and> get_sqrt_price_at_tick U MAX_TICK = Ok MAX_SQRT_PRICE_X64
    \<and> get_sqrt_price_at_tick U k = Err (Code TickUpperOverflow)"
proof -
  have "MIN_TICK \<le> MAX_TICK"
    by (simp add: MIN_TICK_def MAX_TICK_def)
  then show ?thesis
    using assms price_at_strict_mono [of i j] price_at_bounds(1) [of i] price_at_bounds(2) [of j]
      uint_crate.get_sqrt_price_at_tick_Ok [OF assms(1)]
      uint_crate.get_sqrt_price_at_tick_eq [OF assms(1), of k]
    by (auto simp: price_at_MIN_TICK price_at_MAX_TICK)
qed

theorem get_sqrt_price_at_tick_strict_mono_witness:
  "(\<exists>p q. get_sqrt_price_at_tick uint_ref (-5) = Ok p \<and> get_sqrt_price_at_tick uint_ref 7 = Ok q
      \<and> p < q \<and> MIN_SQRT_PRICE_X64 \<le> p \<and> q \<le> MAX_SQRT_PRICE_X64)
    \<and> get_sqrt_price_at_tick uint_ref 443637 = Err (Code TickUpperOverflow)"
  using get_sqrt_price_at_tick_strict_mono [OF uint_crate_ref, of "-5" 7 443637]
  by (simp add: MIN_TICK_def MAX_TICK_def)

end
