(* ===== verification/Big_Num.thy ===== *)
theory Big_Num
  imports Tick_Math
begin

text \<open>
  \<open>libraries/big_num.rs\<close>: the macro \<open>construct_bignum!\<close>, which generates the bitmap types
  \<open>U512\<close> and \<open>U1024\<close>.  A number is the list of its 64-bit words, little-endian; the
  number of words is the length of the list.  Every operation works word by word as the
  macro does.  The second half shows what each does to the bits: shifts move them, and the
  leading and trailing zeros are the distance to the highest and lowest one.
\<close>

type_synonym bignum = "u64 list"

section \<open>The operations of the macro\<close>

definition bn_zero :: "nat \<Rightarrow> bignum" where
  "bn_zero n_words = replicate n_words 0"

definition bn_one :: "nat \<Rightarrow> bignum" where
  "bn_one n_words = (replicate n_words 0)[0 := 1]"

definition bn_max_value :: "nat \<Rightarrow> bignum" where
  "bn_max_value n_words = replicate n_words (2 ^ 64 - 1)"

fun bn_is_zero :: "bignum \<Rightarrow> bool" where
  "bn_is_zero [] = True"
| "bn_is_zero (w # ws) = (if w \<noteq> 0 then False else bn_is_zero ws)"

text \<open>The bit at an index; an index outside the words panics.\<close>

definition bn_bit :: "bignum \<Rightarrow> nat \<Rightarrow> bool res" where
  "bn_bit arr index =
     (if index div 64 < length arr then Ok (arr ! (index div 64) AND 2 ^ (index mod 64) \<noteq> 0)
      else Panic)"

text \<open>The loops over the words, from the most or the least significant one.\<close>

fun leading_zeros_words :: "u64 list \<Rightarrow> nat" where
  "leading_zeros_words [] = 0"
| "leading_zeros_words (w # ws) =
     (if w = 0 then 64 + leading_zeros_words ws else leading_zeros 64 w)"

definition bn_leading_zeros :: "bignum \<Rightarrow> nat" where
  "bn_leading_zeros self = leading_zeros_words (rev self)"

text \<open>\<open>u64::trailing_zeros\<close>\<close>

fun trailing_zeros :: "nat \<Rightarrow> nat \<Rightarrow> nat" where
  "trailing_zeros w x = (if w = 0 \<or> odd x then 0 else Suc (trailing_zeros (w - 1) (x div 2)))"

declare trailing_zeros.simps [simp del]

fun bn_trailing_zeros :: "bignum \<Rightarrow> nat" where
  "bn_trailing_zeros [] = 0"
| "bn_trailing_zeros (w # ws) = (if w = 0 then 64 + bn_trailing_zeros ws else trailing_zeros 64 w)"

definition bn_and :: "bignum \<Rightarrow> bignum \<Rightarrow> bignum" where
  "bn_and arr1 arr2 = map2 (\<lambda>x y. x AND y) arr1 arr2"

definition bn_or :: "bignum \<Rightarrow> bignum \<Rightarrow> bignum" where
  "bn_or arr1 arr2 = map2 (\<lambda>x y. x OR y) arr1 arr2"

definition bn_xor :: "bignum \<Rightarrow> bignum \<Rightarrow> bignum" where
  "bn_xor arr1 arr2 = map2 (\<lambda>x y. x XOR y) arr1 arr2"

definition bn_not :: "bignum \<Rightarrow> bignum" where
  "bn_not arr = map (\<lambda>x. 2 ^ 64 - 1 - x) arr"

text \<open>The shifts: one pass that moves whole words and shifts them, one that adds the carries.\<close>

definition bn_shl :: "bignum \<Rightarrow> nat \<Rightarrow> bignum" where
  "bn_shl original shift =
     (let n_words = length original; word_shift = shift div 64; bit_shift = shift mod 64;
          ret = map (\<lambda>i. if i < word_shift then 0
                         else original ! (i - word_shift) * 2 ^ bit_shift mod 2 ^ 64) [0..<n_words]
      in if bit_shift > 0 then
           map (\<lambda>i. if i < word_shift + 1 then ret ! i
                    else ret ! i + original ! (i - 1 - word_shift) div 2 ^ (64 - bit_shift))
             [0..<n_words]
         else ret)"

definition bn_shr :: "bignum \<Rightarrow> nat \<Rightarrow> bignum" where
  "bn_shr original shift =
     (let n_words = length original; word_shift = shift div 64; bit_shift = shift mod 64;
          ret = map (\<lambda>j. if j + word_shift < n_words then original ! (j + word_shift) div 2 ^ bit_shift
                         else 0) [0..<n_words]
      in if bit_shift > 0 then
           map (\<lambda>j. if j + word_shift + 1 < n_words
                    then ret ! j + original ! (j + word_shift + 1) * 2 ^ (64 - bit_shift) mod 2 ^ 64
                    else ret ! j) [0..<n_words]
         else ret)"

section \<open>Bits of a word\<close>

text \<open>The bits of a number and their position: the view in which the bitmaps are used.\<close>

definition bn_test :: "bignum \<Rightarrow> nat \<Rightarrow> bool" where
  "bn_test a i \<longleftrightarrow> i < 64 * length a \<and> bit (a ! (i div 64)) (i mod 64)"

definition bn_words :: "bignum \<Rightarrow> bool" where
  "bn_words a \<longleftrightarrow> (\<forall>w \<in> set a. w < 2 ^ 64)"

lemma bn_words_nth: "bn_words a \<Longrightarrow> i < length a \<Longrightarrow> a ! i < 2 ^ 64"
  by (simp add: bn_words_def)

lemma bit_add_low:
  assumes "z < 2 ^ b"
  shows "bit (x * 2 ^ b + z :: nat) r \<longleftrightarrow> (if r < b then bit z r else bit x (r - b))"
proof (cases "r < b")
  case True
  then obtain d where d: "b = r + Suc d"
    by (metis add_Suc_right less_iff_Suc_add)
  have "(x * 2 ^ b + z) div 2 ^ r = (z + (x * 2 ^ Suc d) * 2 ^ r) div 2 ^ r"
    by (simp only: d power_add ac_simps)
  also have "\<dots> = x * 2 ^ Suc d + z div 2 ^ r"
    by (rule div_mult_self1) simp
  finally have "(x * 2 ^ b + z) div 2 ^ r = x * 2 ^ Suc d + z div 2 ^ r" .
  with True show ?thesis
    by (simp add: bit_iff_odd)
next
  case False
  have "(x * 2 ^ b + z) div 2 ^ r = (x * 2 ^ b + z) div 2 ^ b div 2 ^ (r - b)"
    using le_add_diff_inverse [of b r] False
    by (simp only: div_mult2_eq [symmetric] power_add [symmetric] not_less)
  also have "(x * 2 ^ b + z) div 2 ^ b = x"
    using assms by simp
  finally show ?thesis
    using False by (simp add: bit_iff_odd)
qed

lemma not_bit_ge: "(x::nat) < 2 ^ n \<Longrightarrow> n \<le> r \<Longrightarrow> \<not> bit x r"
  using less_le_trans [OF _ power_increasing [of n r "2::nat"], of x] by (simp add: bit_iff_odd)

lemma bit_mod_exp: "bit (x mod 2 ^ n :: nat) r \<longleftrightarrow> r < n \<and> bit x r"
  by (simp add: bit_take_bit_iff flip: take_bit_eq_mod)

lemma bit_mult_exp: "bit (x * 2 ^ b :: nat) r \<longleftrightarrow> b \<le> r \<and> bit x (r - b)"
  using bit_add_low [of 0 b x r] by (auto simp: not_less)

lemma bit_div_exp: "bit (x div 2 ^ b :: nat) r \<longleftrightarrow> bit x (r + b)"
  by (simp add: bit_drop_bit_eq add.commute flip: drop_bit_eq_div)

lemma and_exp_eq: "(x::nat) AND 2 ^ k \<noteq> 0 \<longleftrightarrow> bit x k" "0 < (x::nat) AND 2 ^ k \<longleftrightarrow> bit x k"
  using and_exp_nonzero_iff [of x k] by (simp_all add: bit_iff_odd)

text \<open>A word of a shifted number: the shifted word and the carry from its neighbour do not overlap.\<close>

lemma word_shl:
  fixes x y :: nat
  assumes "y < 2 ^ 64" "0 < b" "b < 64"
  defines "w \<equiv> x * 2 ^ b mod 2 ^ 64 + y div 2 ^ (64 - b)"
  shows "w < 2 ^ 64" "r < 64 \<Longrightarrow> bit w r \<longleftrightarrow> (if r < b then bit y (64 - b + r) else bit x (r - b))"
proof -
  have split: "(2::nat) ^ 64 = 2 ^ (64 - b) * 2 ^ b"
    using assms(3) by (simp only: power_add [symmetric] le_add_diff_inverse2 less_imp_le)
  have hi: "x * 2 ^ b mod 2 ^ 64 = (x mod 2 ^ (64 - b)) * 2 ^ b"
    unfolding split by (rule mod_mult_mult2)
  have lo: "y div 2 ^ (64 - b) < 2 ^ b"
    using assms(1) unfolding split by (intro less_mult_imp_div_less) (simp only: mult.commute)
  have "x mod 2 ^ (64 - b) < 2 ^ (64 - b)" by simp
  then have "Suc (x mod 2 ^ (64 - b)) * 2 ^ b \<le> 2 ^ (64 - b) * 2 ^ b"
    by (intro mult_le_mono1 Suc_leI)
  then show "w < 2 ^ 64"
    using lo unfolding w_def hi split by (simp add: mult.commute)
  show "r < 64 \<Longrightarrow> bit w r \<longleftrightarrow> (if r < b then bit y (64 - b + r) else bit x (r - b))"
    unfolding w_def hi bit_add_low [OF lo] by (auto simp: bit_div_exp bit_mod_exp add.commute)
qed

lemma word_shr:
  fixes x y :: nat
  assumes "x < 2 ^ 64" "0 < b" "b < 64"
  defines "w \<equiv> x div 2 ^ b + y * 2 ^ (64 - b) mod 2 ^ 64"
  shows "w < 2 ^ 64" "r < 64 \<Longrightarrow> bit w r \<longleftrightarrow> (if r < 64 - b then bit x (b + r) else bit y (r - (64 - b)))"
  using word_shl(1) [OF assms(1), of "64 - b" y] word_shl(2) [OF assms(1), of "64 - b" r y] assms
  by (simp_all add: add.commute)


section \<open>Bits of a number\<close>

lemma length_bn_shl [simp]: "length (bn_shl a s) = length a"
  by (simp add: bn_shl_def Let_def)

lemma length_bn_shr [simp]: "length (bn_shr a s) = length a"
  by (simp add: bn_shr_def Let_def)

lemma length_bn_zero_one [simp]: "length (bn_zero n) = n" "length (bn_one n) = n"
  by (simp_all add: bn_zero_def bn_one_def)

lemma length_bn_bitwise [simp]:
  "length (bn_and a b) = min (length a) (length b)" "length (bn_xor a b) = min (length a) (length b)"
  by (simp_all add: bn_and_def bn_xor_def)

lemma bn_bit_eq: "i < 64 * length a \<Longrightarrow> bn_bit a i = Ok (bn_test a i)"
  by (simp add: bn_bit_def bn_test_def and_exp_eq less_mult_imp_div_less mult.commute)

lemma bn_test_zero [simp]: "\<not> bn_test (bn_zero n) i"
  by (auto simp: bn_test_def bn_zero_def less_mult_imp_div_less mult.commute)

lemma bn_test_one: "bn_test (bn_one n) i \<longleftrightarrow> 0 < n \<and> i = 0"
proof -
  have "i div 64 < n" if "i < 64 * n"
    using that by (simp add: less_mult_imp_div_less mult.commute)
  then show ?thesis
    by (cases "i div 64") (auto simp: bn_test_def bn_one_def nth_list_update bit_Suc_0_iff div_eq_0_iff)
qed

lemma bn_test_xor:
  "length b = length a \<Longrightarrow> bn_test (bn_xor a b) i \<longleftrightarrow> bn_test a i \<noteq> bn_test b i"
  by (auto simp: bn_test_def bn_xor_def bit_xor_iff less_mult_imp_div_less mult.commute)

lemma bn_test_and:
  "length b = length a \<Longrightarrow> bn_test (bn_and a b) i \<longleftrightarrow> bn_test a i \<and> bn_test b i"
  by (auto simp: bn_test_def bn_and_def bit_and_iff less_mult_imp_div_less mult.commute)

text \<open>The two passes of a shift, in one word.\<close>

lemma bn_shl_nth:
  assumes "i < length a"
  shows "bn_shl a s ! i =
    (if i < s div 64 then 0 else a ! (i - s div 64) * 2 ^ (s mod 64) mod 2 ^ 64)
    + (if 0 < s mod 64 \<and> s div 64 < i then a ! (i - 1 - s div 64) div 2 ^ (64 - s mod 64) else 0)"
  using assms by (auto simp: bn_shl_def Let_def)

lemma bn_shr_nth:
  assumes "i < length a"
  shows "bn_shr a s ! i =
    (if i + s div 64 < length a then a ! (i + s div 64) div 2 ^ (s mod 64) else 0)
    + (if 0 < s mod 64 \<and> i + s div 64 + 1 < length a
       then a ! (i + s div 64 + 1) * 2 ^ (64 - s mod 64) mod 2 ^ 64 else 0)"
  using assms by (auto simp: bn_shr_def Let_def)

lemma bn_words_shl:
  assumes "bn_words a"
  shows "bn_words (bn_shl a s)"
proof -
  have "bn_shl a s ! i < 2 ^ 64" if i: "i < length a" for i
  proof (cases "0 < s mod 64 \<and> s div 64 < i")
    case True
    then have "a ! (i - 1 - s div 64) < 2 ^ 64"
      using assms i by (intro bn_words_nth) auto
    then show ?thesis
      using word_shl(1) [of _ "s mod 64"] True by (simp add: bn_shl_nth [OF i])
  next
    case False
    then show ?thesis by (auto simp: bn_shl_nth [OF i])
  qed
  then show ?thesis
    by (auto simp: bn_words_def in_set_conv_nth)
qed

lemma bn_words_shr:
  assumes "bn_words a"
  shows "bn_words (bn_shr a s)"
proof -
  have "bn_shr a s ! i < 2 ^ 64" if i: "i < length a" for i
  proof (cases "i + s div 64 < length a")
    case True
    then have x: "a ! (i + s div 64) < 2 ^ 64"
      using assms by (intro bn_words_nth) auto
    then have "a ! (i + s div 64) div 2 ^ (s mod 64) < 2 ^ 64"
      by (rule le_less_trans [OF div_le_dividend])
    with x word_shr(1) [OF x, of "s mod 64"] show ?thesis
      by (auto simp: bn_shr_nth [OF i])
  next
    case False
    then show ?thesis by (auto simp: bn_shr_nth [OF i])
  qed
  then show ?thesis
    by (auto simp: bn_words_def in_set_conv_nth)
qed

text \<open>Positions: a shift adds to or subtracts from the position of every bit.\<close>

lemma split_position:
  fixes i s :: nat
  defines "q \<equiv> i div 64" and "r \<equiv> i mod 64" and "ws \<equiv> s div 64" and "bs \<equiv> s mod 64"
  shows "s \<le> i \<longleftrightarrow> (if r < bs then ws < q else ws \<le> q)"
    and "s \<le> i \<Longrightarrow> (i - s) div 64 = (if r < bs then q - 1 - ws else q - ws)"
    and "s \<le> i \<Longrightarrow> (i - s) mod 64 = (if r < bs then 64 - bs + r else r - bs)"
    and "(i + s) div 64 = (if r < 64 - bs then q + ws else q + ws + 1)"
    and "(i + s) mod 64 = (if r < 64 - bs then bs + r else r - (64 - bs))"
proof -
  have i: "i = 64 * q + r" "r < 64" and s: "s = 64 * ws + bs" "bs < 64"
    by (simp_all add: q_def r_def ws_def bs_def)
  show "s \<le> i \<longleftrightarrow> (if r < bs then ws < q else ws \<le> q)"
    using i s by auto
  show "(i - s) div 64 = (if r < bs then q - 1 - ws else q - ws)"
    "(i - s) mod 64 = (if r < bs then 64 - bs + r else r - bs)" if "s \<le> i"
  proof -
    define k m where "k = (if r < bs then q - 1 - ws else q - ws)"
      and "m = (if r < bs then 64 - bs + r else r - bs)"
    have "i - s = 64 * k + m" "m < 64"
      using i s that by (auto simp: k_def m_def)
    then show "(i - s) div 64 = k" "(i - s) mod 64 = m"
      by simp_all
  qed
  define k m where "k = (if r < 64 - bs then q + ws else q + ws + 1)"
    and "m = (if r < 64 - bs then bs + r else r - (64 - bs))"
  have "i + s = 64 * k + m" "m < 64"
    using i s by (auto simp: k_def m_def)
  then show "(i + s) div 64 = k" "(i + s) mod 64 = m"
    by simp_all
qed

lemma bn_test_shl:
  assumes a: "bn_words a"
  shows "bn_test (bn_shl a s) i \<longleftrightarrow> i < 64 * length a \<and> s \<le> i \<and> bn_test a (i - s)"
proof (cases "i < 64 * length a")
  case i: True
  define q r ws bs where "q = i div 64" and "r = i mod 64" and "ws = s div 64" and "bs = s mod 64"
  have q: "q < length a"
    using i by (simp add: q_def less_mult_imp_div_less mult.commute)
  have r: "r < 64" "bs < 64"
    by (simp_all add: r_def bs_def)
  note split = split_position [where i = i and s = s, folded q_def r_def ws_def bs_def]
  note nth = bn_shl_nth [OF q, of s, folded ws_def bs_def]
  have lhs: "bn_test (bn_shl a s) i \<longleftrightarrow> bit (bn_shl a s ! q) r"
    using i by (simp add: bn_test_def q_def r_def)
  have rhs: "s \<le> i \<and> bn_test a (i - s) \<longleftrightarrow>
      (if r < bs then ws < q \<and> bit (a ! (q - 1 - ws)) (64 - bs + r)
       else ws \<le> q \<and> bit (a ! (q - ws)) (r - bs))"
    using i split(1,2,3) by (auto simp: bn_test_def)
  show ?thesis
  proof (cases "0 < bs \<and> ws < q")
    case True
    then have "a ! (q - 1 - ws) < 2 ^ 64"
      using a q by (intro bn_words_nth) auto
    with True r i show ?thesis
      unfolding lhs rhs nth using word_shl(2) [of "a ! (q - 1 - ws)" bs r "a ! (q - ws)"] by simp
  next
    case False
    then show ?thesis
      using r i unfolding lhs rhs nth by (auto simp: bit_mod_exp [of _ 64, simplified] bit_mult_exp not_less)
  qed
next
  case False
  then show ?thesis by (simp add: bn_test_def)
qed

lemma bn_test_shr:
  assumes a: "bn_words a"
  shows "bn_test (bn_shr a s) i \<longleftrightarrow> bn_test a (i + s)"
proof (cases "i < 64 * length a")
  case i: True
  define q r ws bs where "q = i div 64" and "r = i mod 64" and "ws = s div 64" and "bs = s mod 64"
  have q: "q < length a"
    using i by (simp add: q_def less_mult_imp_div_less mult.commute)
  have r: "r < 64" "bs < 64"
    by (simp_all add: r_def bs_def)
  note split = split_position [where i = i and s = s, folded q_def r_def ws_def bs_def]
  note nth = bn_shr_nth [OF q, of s, folded ws_def bs_def]
  have lhs: "bn_test (bn_shr a s) i \<longleftrightarrow> bit (bn_shr a s ! q) r"
    using i by (simp add: bn_test_def q_def r_def)
  have lt: "i + s < 64 * length a \<longleftrightarrow> (i + s) div 64 < length a"
    by (simp add: div_less_iff_less_mult mult.commute)
  have rhs: "bn_test a (i + s) \<longleftrightarrow>
      (if r < 64 - bs then q + ws < length a \<and> bit (a ! (q + ws)) (bs + r)
       else q + ws + 1 < length a \<and> bit (a ! (q + ws + 1)) (r - (64 - bs)))"
    unfolding bn_test_def lt split(4,5) by simp
  show ?thesis
  proof (cases "q + ws < length a")
    case True
    then have x: "a ! (q + ws) < 2 ^ 64"
      using a by (intro bn_words_nth)
    show ?thesis
    proof (cases "0 < bs \<and> q + ws + 1 < length a")
      case True
      with x r show ?thesis
        unfolding lhs rhs nth using word_shr(2) [of "a ! (q + ws)" bs r "a ! (q + ws + 1)"] by simp
    next
      case False
      have "\<not> bit (a ! (q + ws)) (bs + r)" if "\<not> r < 64 - bs"
        using x that by (intro not_bit_ge [of _ 64]) auto
      with False True r show ?thesis
        unfolding lhs rhs nth by (auto simp: bit_div_exp add.commute)
    qed
  next
    case False
    then show ?thesis
      unfolding lhs rhs nth by auto
  qed
next
  case False
  then show ?thesis by (simp add: bn_test_def)
qed


section \<open>Highest and lowest one\<close>

lemma bn_test_Cons: "bn_test (w # ws) i \<longleftrightarrow> (if i < 64 then bit w i else bn_test ws (i - 64))"
proof (cases "i < 64")
  case False
  then have "i div 64 = Suc ((i - 64) div 64)" "i mod 64 = (i - 64) mod 64"
    by (simp_all add: le_div_geq le_mod_geq)
  with False show ?thesis
    by (auto simp: bn_test_def)
qed (simp add: bn_test_def)

lemma bn_test_snoc:
  "bn_test (ws @ [w]) i \<longleftrightarrow>
    (if i < 64 * length ws then bn_test ws i
     else i < 64 * length ws + 64 \<and> bit w (i - 64 * length ws))"
  by (induction ws arbitrary: i) (auto simp: bn_test_Cons, auto simp: bn_test_def)

lemma bn_words_simps [simp]:
  "bn_words []" "bn_words (w # ws) \<longleftrightarrow> w < 2 ^ 64 \<and> bn_words ws"
  "bn_words (ws @ [w]) \<longleftrightarrow> w < 2 ^ 64 \<and> bn_words ws"
  by (auto simp: bn_words_def)

lemma bn_is_zero_iff_all: "bn_is_zero a \<longleftrightarrow> (\<forall>w \<in> set a. w = 0)"
  by (induction a) auto

lemma bn_is_zero_iff: "bn_words a \<Longrightarrow> bn_is_zero a \<longleftrightarrow> (\<forall>i. \<not> bn_test a i)"
proof (induction a)
  case Nil
  then show ?case by (simp add: bn_test_def)
next
  case (Cons w ws)
  have "w = 0 \<longleftrightarrow> (\<forall>i < 64. \<not> bit w i)"
    using not_bit_ge [of w 64] Cons.prems by (auto simp: bit_eq_iff not_less) (metis not_less)
  moreover have "(\<forall>i. \<not> bn_test (w # ws) i) \<longleftrightarrow> (\<forall>i < 64. \<not> bit w i) \<and> (\<forall>i. \<not> bn_test ws i)"
  proof safe
    fix i assume *: "\<forall>i. \<not> bn_test (w # ws) i" "bn_test ws i"
    then have "bn_test (w # ws) (i + 64)" by (simp add: bn_test_Cons)
    with * show False by blast
  qed (auto simp: bn_test_Cons split: if_splits)
  ultimately show ?case
    using Cons by auto
qed

lemma trailing_zeros_bits:
  "0 < x \<Longrightarrow> x < 2 ^ w \<Longrightarrow>
    trailing_zeros w x < w \<and> bit x (trailing_zeros w x) \<and> (\<forall>j < trailing_zeros w x. \<not> bit x j)"
proof (induction w x rule: trailing_zeros.induct)
  case (1 w x)
  show ?case
  proof (cases "odd x")
    case True
    then have "trailing_zeros w x = 0"
      by (simp add: trailing_zeros.simps [of w x])
    with True 1(2,3) show ?thesis
      by (cases w) (auto simp: bit_0)
  next
    case False
    then obtain v where w: "w = Suc v" and x: "0 < x div 2" "x div 2 < 2 ^ v"
      using 1(2,3) by (cases w) (auto elim!: evenE)
    have "trailing_zeros w x = Suc (trailing_zeros v (x div 2))"
      unfolding trailing_zeros.simps [of w x] using False w by simp
    moreover have "trailing_zeros v (x div 2) < v \<and> bit (x div 2) (trailing_zeros v (x div 2))
        \<and> (\<forall>j < trailing_zeros v (x div 2). \<not> bit (x div 2) j)"
      using 1(1) False w x by simp
    ultimately show ?thesis
      using False w by (auto simp: bit_Suc bit_0 less_Suc_eq_0_disj)
  qed
qed

lemma bit_length_bits:
  "0 < x \<Longrightarrow> 0 < bit_length x \<and> bit x (bit_length x - 1) \<and> x < 2 ^ bit_length x"
proof (induction x rule: bit_length.induct)
  case (1 x)
  have l: "bit_length x = Suc (bit_length (x div 2))"
    using 1(2) by (simp add: bit_length.simps [of x])
  show ?case
  proof (cases "x div 2 = 0")
    case True
    then have "x = 1" using 1(2) by auto
    then show ?thesis by (simp add: bit_length.simps bit_Suc_0_iff)
  next
    case False
    then obtain k where k: "bit_length (x div 2) = Suc k" "bit (x div 2) k" "x div 2 < 2 ^ Suc k"
      using 1(1) 1(2) by (cases "bit_length (x div 2)") auto
    then show ?thesis by (auto simp: l bit_Suc)
  qed
qed

lemma bit_length_le: "0 < x \<Longrightarrow> x < 2 ^ w \<Longrightarrow> bit_length x \<le> w"
  using bit_length_bits [of x] not_bit_ge [of x w "bit_length x - 1"] by fastforce

lemma bn_trailing_zeros_bits:
  assumes "bn_words a" "\<not> bn_is_zero a"
  shows "bn_test a (bn_trailing_zeros a) \<and> (\<forall>j < bn_trailing_zeros a. \<not> bn_test a j)"
  using assms
proof (induction a)
  case (Cons w ws)
  show ?case
  proof (cases "w = 0")
    case True
    with Cons have "bn_test ws (bn_trailing_zeros ws)" "\<forall>j < bn_trailing_zeros ws. \<not> bn_test ws j"
      by auto
    with True show ?thesis
      by (auto simp: bn_test_Cons)
  next
    case False
    then show ?thesis
      using trailing_zeros_bits [of w 64] Cons.prems by (auto simp: bn_test_Cons)
  qed
qed simp

lemma bn_leading_zeros_bits:
  assumes "bn_words a" "\<not> bn_is_zero a"
  shows "bn_leading_zeros a < 64 * length a \<and> bn_test a (64 * length a - 1 - bn_leading_zeros a)
    \<and> (\<forall>j > 64 * length a - 1 - bn_leading_zeros a. \<not> bn_test a j)"
  using assms
proof (induction a rule: rev_induct)
  case (snoc w ws)
  show ?case
  proof (cases "w = 0")
    case True
    with snoc have "bn_leading_zeros ws < 64 * length ws"
      "bn_test ws (64 * length ws - 1 - bn_leading_zeros ws)"
      "\<forall>j > 64 * length ws - 1 - bn_leading_zeros ws. \<not> bn_test ws j"
      by (auto simp: bn_is_zero_iff_all)
    moreover have "bn_leading_zeros (ws @ [w]) = 64 + bn_leading_zeros ws"
      using True by (simp add: bn_leading_zeros_def)
    ultimately show ?thesis
      using True by (auto simp: bn_test_snoc)
  next
    case False
    define k where "k = bit_length w"
    have w: "w < 2 ^ 64" "0 < w"
      using False snoc.prems by auto
    have k: "0 < k" "k \<le> 64" "bit w (k - 1)" "w < 2 ^ k"
      using bit_length_bits [of w] bit_length_le [of w 64] w by (auto simp: k_def)
    have l: "bn_leading_zeros (ws @ [w]) = 64 - k"
      using False by (simp add: bn_leading_zeros_def leading_zeros_def k_def)
    have p: "64 * length (ws @ [w]) - 1 - (64 - k) = 64 * length ws + (k - 1)"
      using k by simp
    have "\<not> bn_test (ws @ [w]) j" if "64 * length ws + (k - 1) < j" for j
      using that k not_bit_ge [OF k(4), of "j - 64 * length ws"] by (auto simp: bn_test_snoc)
    then show ?thesis
      unfolding l p using k by (auto simp: bn_test_snoc)
  qed
qed simp


text \<open>
  The two searches of the bitmap code: shifting a position to the top (bottom) of the number
  and counting zeros finds the nearest one at or below (above) that position.
\<close>

lemma highest_one_below:
  assumes a: "bn_words a" and p: "p < 64 * length a"
  defines "y \<equiv> bn_shl a (64 * length a - 1 - p)"
  shows "bn_is_zero y \<Longrightarrow> \<forall>i \<le> p. \<not> bn_test a i"
    and "\<not> bn_is_zero y \<Longrightarrow> bn_leading_zeros y \<le> p \<and> bn_test a (p - bn_leading_zeros y)
      \<and> (\<forall>i. p - bn_leading_zeros y < i \<and> i \<le> p \<longrightarrow> \<not> bn_test a i)"
proof -
  define s where "s = 64 * length a - 1 - p"
  have y: "bn_words y" "length y = length a"
    using bn_words_shl [OF a] by (simp_all add: y_def)
  have test: "bn_test y (i + s) \<longleftrightarrow> bn_test a i" if "i \<le> p" for i
    using that p unfolding y_def s_def [symmetric] bn_test_shl [OF a] by (auto simp: s_def)
  show "\<forall>i \<le> p. \<not> bn_test a i" if "bn_is_zero y"
    using that test bn_is_zero_iff [OF y(1)] by blast
  show "bn_leading_zeros y \<le> p \<and> bn_test a (p - bn_leading_zeros y)
      \<and> (\<forall>i. p - bn_leading_zeros y < i \<and> i \<le> p \<longrightarrow> \<not> bn_test a i)" if nz: "\<not> bn_is_zero y"
  proof -
    define lz where "lz = bn_leading_zeros y"
    have lz: "lz < 64 * length a" "bn_test y (64 * length a - 1 - lz)"
      "\<forall>j > 64 * length a - 1 - lz. \<not> bn_test y j"
      using bn_leading_zeros_bits [OF y(1) nz] by (simp_all add: y(2) lz_def)
    have "s \<le> 64 * length a - 1 - lz"
      using lz(2) unfolding y_def s_def [symmetric] bn_test_shl [OF a] by simp
    then have le: "lz \<le> p" and pos: "64 * length a - 1 - lz = (p - lz) + s"
      using p lz(1) by (auto simp: s_def)
    have "\<not> bn_test a i" if "p - lz < i" "i \<le> p" for i
      using test [OF that(2)] lz(3) pos that by auto
    then show ?thesis
      using le lz(2) test [of "p - lz"] pos unfolding lz_def [symmetric] by auto
  qed
qed

lemma lowest_one_above:
  fixes a :: bignum and p :: nat
  assumes a: "bn_words a"
  defines "y \<equiv> bn_shr a p"
  shows "bn_is_zero y \<Longrightarrow> \<forall>i \<ge> p. \<not> bn_test a i"
    and "\<not> bn_is_zero y \<Longrightarrow> bn_test a (p + bn_trailing_zeros y)
      \<and> (\<forall>i. p \<le> i \<and> i < p + bn_trailing_zeros y \<longrightarrow> \<not> bn_test a i)"
proof -
  have y: "bn_words y"
    using bn_words_shr [OF a] by (simp add: y_def)
  have test: "bn_test y i \<longleftrightarrow> bn_test a (p + i)" for i
    by (simp add: y_def bn_test_shr [OF a] add.commute)
  show "\<forall>i \<ge> p. \<not> bn_test a i" if "bn_is_zero y"
    using that unfolding bn_is_zero_iff [OF y] test by (metis le_add_diff_inverse)
  show "bn_test a (p + bn_trailing_zeros y)
      \<and> (\<forall>i. p \<le> i \<and> i < p + bn_trailing_zeros y \<longrightarrow> \<not> bn_test a i)" if "\<not> bn_is_zero y"
    using bn_trailing_zeros_bits [OF y that] unfolding test
    by (metis le_add_diff_inverse nat_add_left_cancel_less)
qed

lemma bn_test_less: "bn_test a i \<Longrightarrow> i < 64 * length a"
  by (simp add: bn_test_def)

lemma bn_words_one: "bn_words (bn_one n)"
  by (cases n) (auto simp: bn_words_def bn_one_def)

text \<open>A one at a position, and flipping it.\<close>

lemma bn_test_one_shl: "bn_test (bn_shl (bn_one n) s) i \<longleftrightarrow> i < 64 * n \<and> i = s"
  by (auto simp: bn_test_shl [OF bn_words_one] bn_test_one)

lemma bn_test_flip:
  "length a = n \<Longrightarrow> s < 64 * n \<Longrightarrow>
    bn_test (bn_xor a (bn_shl (bn_one n) s)) i \<longleftrightarrow> (if i = s then \<not> bn_test a i else bn_test a i)"
  by (auto simp: bn_test_xor bn_test_one_shl)

lemma bn_words_xor: "bn_words a \<Longrightarrow> bn_words b \<Longrightarrow> bn_words (bn_xor a b)"
proof -
  assume ab: "bn_words a" "bn_words b"
  have "x XOR y < 2 ^ 64" if "x < 2 ^ 64" "y < 2 ^ 64" for x y :: nat
    using that by (metis take_bit_nat_eq_self take_bit_nat_less_exp take_bit_xor)
  then show ?thesis
    using ab by (auto simp: bn_words_def bn_xor_def set_zip)
qed

end
