(* ===== verification/Liquidity_Math.thy ===== *)
theory Liquidity_Math
  imports Tick_Math
begin

text \<open>
  \<open>libraries/liquidity_math.rs\<close>: signed updates of a liquidity, the liquidity that given
  token amounts buy, and the token amounts that a liquidity is worth between two prices.
  The lemmas give every amount as an exact floor or ceiling of one fraction.
\<close>

section \<open>Adding a signed delta\<close>

definition add_delta :: "u128 \<Rightarrow> i128 \<Rightarrow> u128 res" where
  "add_delta x y =
     (if y < 0 then
        rbind (chk_i 128 (- y)) (\<lambda>n.
        rbind (chk_sub x (nat n)) (\<lambda>z.
        rbind (require (x > z) (Code LiquiditySubValueErr)) (\<lambda>_.
        Ok z)))
      else
        rbind (chk_add 128 x (nat y)) (\<lambda>z.
        rbind (require (z \<ge> x) (Code LiquidityAddValueErr)) (\<lambda>_.
        Ok z)))"

text \<open>
  The same function in a build without overflow checks: \<open>-\<close> and \<open>+\<close> wrap, and the
  negation of the least \<open>i128\<close> is itself, which \<open>u128::try_from\<close> refuses.
\<close>

definition add_delta_unchecked :: "u128 \<Rightarrow> i128 \<Rightarrow> u128 res" where
  "add_delta_unchecked x y =
     (if y < 0 then
        if y = - (2 ^ 127) then Panic
        else
          let z = wrapping_sub 128 x (nat (- y)) in
          rbind (require (x > z) (Code LiquiditySubValueErr)) (\<lambda>_. Ok z)
      else
        let z = wrapping_add 128 x (nat y) in
        rbind (require (z \<ge> x) (Code LiquidityAddValueErr)) (\<lambda>_. Ok z))"

lemma add_delta_eq_Ok_iff:
  assumes "x < 2 ^ 128"
  shows "add_delta x y = Ok z \<longleftrightarrow> int z = int x + y \<and> z < 2 ^ 128 \<and> - (2 ^ 127) < y"
  using assms by (auto simp: add_delta_def res_inv chk_i_eq_Ok_iff nat_add_distrib)

lemma add_delta_not_Err: "add_delta x y \<noteq> Err e"
  by (auto simp: add_delta_def rbind_eq_Err_iff chk_sub_def chk_add_def require_def
      chk_i_eq_Ok_iff split: if_splits)

lemma add_delta_unchecked_eq_Ok_iff:
  assumes "x < 2 ^ 128" "- (2 ^ 127) \<le> y" "y < 2 ^ 127"
  shows "add_delta_unchecked x y = Ok z \<longleftrightarrow> add_delta x y = Ok z"
proof (cases "y < 0")
  case True
  define n where "n = nat (- y)"
  have n: "0 < n" "n \<le> 2 ^ 127" "y = - int n"
    using True assms by (auto simp: n_def)
  have "wrapping_sub 128 x n = (if n \<le> x then x - n else x + 2 ^ 128 - n)"
    using assms n by (auto simp: wrapping_sub_def mod_if)
  then show ?thesis
    using assms n by (auto simp: add_delta_unchecked_def add_delta_eq_Ok_iff res_inv Let_def)
next
  case False
  define n where "n = nat y"
  have n: "n < 2 ^ 127" "y = int n"
    using False assms by (auto simp: n_def)
  have "wrapping_add 128 x n = (if x + n < 2 ^ 128 then x + n else x + n - 2 ^ 128)"
    using assms n by (auto simp: wrapping_add_def mod_if)
  then show ?thesis
    using assms n by (auto simp: add_delta_unchecked_def add_delta_eq_Ok_iff res_inv Let_def)
qed

section \<open>Liquidity bought by token amounts\<close>

definition get_liquidity_from_amount_0 ::
  "uint_lib \<Rightarrow> u128 \<Rightarrow> u128 \<Rightarrow> u64 \<Rightarrow> u128 res" where
  "get_liquidity_from_amount_0 U sqrt_ratio_a_x64 sqrt_ratio_b_x64 amount_0 =
     (let (a, b) = (if sqrt_ratio_a_x64 > sqrt_ratio_b_x64
                    then (sqrt_ratio_b_x64, sqrt_ratio_a_x64)
                    else (sqrt_ratio_a_x64, sqrt_ratio_b_x64)) in
      rbind (mul_div_floor_u128 U a b Q64) (\<lambda>o1.
      rbind (unwrap o1) (\<lambda>intermediate.
      rbind (chk_sub b a) (\<lambda>d.
      rbind (mul_div_floor_u128 U amount_0 intermediate d) (\<lambda>o2.
      rbind (unwrap o2) (\<lambda>r. u_as_u128 U r))))))"

definition get_liquidity_from_amount_1 ::
  "uint_lib \<Rightarrow> u128 \<Rightarrow> u128 \<Rightarrow> u64 \<Rightarrow> u128 res" where
  "get_liquidity_from_amount_1 U sqrt_ratio_a_x64 sqrt_ratio_b_x64 amount_1 =
     (let (a, b) = (if sqrt_ratio_a_x64 > sqrt_ratio_b_x64
                    then (sqrt_ratio_b_x64, sqrt_ratio_a_x64)
                    else (sqrt_ratio_a_x64, sqrt_ratio_b_x64)) in
      rbind (chk_sub b a) (\<lambda>d.
      rbind (mul_div_floor_u128 U amount_1 Q64 d) (\<lambda>o1.
      rbind (unwrap o1) (\<lambda>r. u_as_u128 U r))))"

definition get_liquidity_from_amounts ::
  "uint_lib \<Rightarrow> u128 \<Rightarrow> u128 \<Rightarrow> u128 \<Rightarrow> u64 \<Rightarrow> u64 \<Rightarrow> u128 res" where
  "get_liquidity_from_amounts U sqrt_ratio_x64 sqrt_ratio_a_x64 sqrt_ratio_b_x64 amount_0 amount_1 =
     (let (a, b) = (if sqrt_ratio_a_x64 > sqrt_ratio_b_x64
                    then (sqrt_ratio_b_x64, sqrt_ratio_a_x64)
                    else (sqrt_ratio_a_x64, sqrt_ratio_b_x64)) in
      if sqrt_ratio_x64 \<le> a then get_liquidity_from_amount_0 U a b amount_0
      else if sqrt_ratio_x64 < b then
        rbind (get_liquidity_from_amount_0 U sqrt_ratio_x64 b amount_0) (\<lambda>l0.
        rbind (get_liquidity_from_amount_1 U a sqrt_ratio_x64 amount_1) (\<lambda>l1.
        Ok (min l0 l1)))
      else get_liquidity_from_amount_1 U a b amount_1)"

definition get_liquidity_from_single_amount_0 ::
  "uint_lib \<Rightarrow> u128 \<Rightarrow> u128 \<Rightarrow> u128 \<Rightarrow> u64 \<Rightarrow> u128 res" where
  "get_liquidity_from_single_amount_0 U sqrt_ratio_x64 sqrt_ratio_a_x64 sqrt_ratio_b_x64 amount_0 =
     (let (a, b) = (if sqrt_ratio_a_x64 > sqrt_ratio_b_x64
                    then (sqrt_ratio_b_x64, sqrt_ratio_a_x64)
                    else (sqrt_ratio_a_x64, sqrt_ratio_b_x64)) in
      if sqrt_ratio_x64 \<le> a then get_liquidity_from_amount_0 U a b amount_0
      else if sqrt_ratio_x64 < b then get_liquidity_from_amount_0 U sqrt_ratio_x64 b amount_0
      else Ok 0)"

definition get_liquidity_from_single_amount_1 ::
  "uint_lib \<Rightarrow> u128 \<Rightarrow> u128 \<Rightarrow> u128 \<Rightarrow> u64 \<Rightarrow> u128 res" where
  "get_liquidity_from_single_amount_1 U sqrt_ratio_x64 sqrt_ratio_a_x64 sqrt_ratio_b_x64 amount_1 =
     (let (a, b) = (if sqrt_ratio_a_x64 > sqrt_ratio_b_x64
                    then (sqrt_ratio_b_x64, sqrt_ratio_a_x64)
                    else (sqrt_ratio_a_x64, sqrt_ratio_b_x64)) in
      if sqrt_ratio_x64 \<le> a then Ok 0
      else if sqrt_ratio_x64 < b then get_liquidity_from_amount_1 U a sqrt_ratio_x64 amount_1
      else get_liquidity_from_amount_1 U a b amount_1)"

section \<open>Token amounts of a liquidity\<close>

definition get_delta_amount_0_unsigned ::
  "uint_lib \<Rightarrow> u128 \<Rightarrow> u128 \<Rightarrow> u128 \<Rightarrow> bool \<Rightarrow> u64 res" where
  "get_delta_amount_0_unsigned U sqrt_ratio_a_x64 sqrt_ratio_b_x64 liquidity round_up =
     (let (a, b) = (if sqrt_ratio_a_x64 > sqrt_ratio_b_x64
                    then (sqrt_ratio_b_x64, sqrt_ratio_a_x64)
                    else (sqrt_ratio_a_x64, sqrt_ratio_b_x64));
          numerator_1 = u_shl U 256 liquidity RESOLUTION in
      rbind (chk_sub b a) (\<lambda>numerator_2.
      rbind (assertion (a > 0)) (\<lambda>_.
      if round_up then
        rbind (mul_div_ceil_u256 U numerator_1 numerator_2 b) (\<lambda>m.
        rbind (unwrap m) (\<lambda>q.
        rbind (div_rounding_up_u256 U q a) (\<lambda>r.
        u_as_u64 U r)))
      else
        rbind (mul_div_floor_u256 U numerator_1 numerator_2 b) (\<lambda>m.
        rbind (unwrap m) (\<lambda>q.
        rbind (u_div U 256 q a) (\<lambda>r.
        u_as_u64 U r))))))"

definition get_delta_amount_1_unsigned ::
  "uint_lib \<Rightarrow> u128 \<Rightarrow> u128 \<Rightarrow> u128 \<Rightarrow> bool \<Rightarrow> u64 res" where
  "get_delta_amount_1_unsigned U sqrt_ratio_a_x64 sqrt_ratio_b_x64 liquidity round_up =
     (let (a, b) = (if sqrt_ratio_a_x64 > sqrt_ratio_b_x64
                    then (sqrt_ratio_b_x64, sqrt_ratio_a_x64)
                    else (sqrt_ratio_a_x64, sqrt_ratio_b_x64)) in
      rbind (chk_sub b a) (\<lambda>d.
      rbind (if round_up then mul_div_ceil_u256 U liquidity d Q64
             else mul_div_floor_u256 U liquidity d Q64) (\<lambda>m.
      rbind (unwrap m) (\<lambda>r.
      u_as_u64 U r))))"

definition get_delta_amount_0_signed :: "uint_lib \<Rightarrow> u128 \<Rightarrow> u128 \<Rightarrow> i128 \<Rightarrow> u64 res" where
  "get_delta_amount_0_signed U sqrt_ratio_a_x64 sqrt_ratio_b_x64 liquidity =
     (if liquidity < 0 then
        rbind (chk_i 128 (- liquidity)) (\<lambda>n.
        get_delta_amount_0_unsigned U sqrt_ratio_a_x64 sqrt_ratio_b_x64 (nat n) False)
      else get_delta_amount_0_unsigned U sqrt_ratio_a_x64 sqrt_ratio_b_x64 (nat liquidity) True)"

definition get_delta_amount_1_signed :: "uint_lib \<Rightarrow> u128 \<Rightarrow> u128 \<Rightarrow> i128 \<Rightarrow> u64 res" where
  "get_delta_amount_1_signed U sqrt_ratio_a_x64 sqrt_ratio_b_x64 liquidity =
     (if liquidity < 0 then
        rbind (chk_i 128 (- liquidity)) (\<lambda>n.
        get_delta_amount_1_unsigned U sqrt_ratio_a_x64 sqrt_ratio_b_x64 (nat n) False)
      else get_delta_amount_1_unsigned U sqrt_ratio_a_x64 sqrt_ratio_b_x64 (nat liquidity) True)"

definition get_delta_amounts_signed ::
  "uint_lib \<Rightarrow> i32 \<Rightarrow> u128 \<Rightarrow> i32 \<Rightarrow> i32 \<Rightarrow> i128 \<Rightarrow> (u64 \<times> u64) res" where
  "get_delta_amounts_signed U tick_current sqrt_price_x64_current tick_lower tick_upper liquidity_delta =
     (if tick_current < tick_lower then
        rbind (get_sqrt_price_at_tick U tick_lower) (\<lambda>pl.
        rbind (get_sqrt_price_at_tick U tick_upper) (\<lambda>pu.
        rbind (get_delta_amount_0_signed U pl pu liquidity_delta) (\<lambda>amount_0.
        Ok (amount_0, 0))))
      else if tick_current < tick_upper then
        rbind (get_sqrt_price_at_tick U tick_upper) (\<lambda>pu.
        rbind (get_delta_amount_0_signed U sqrt_price_x64_current pu liquidity_delta) (\<lambda>amount_0.
        rbind (get_sqrt_price_at_tick U tick_lower) (\<lambda>pl.
        rbind (get_delta_amount_1_signed U pl sqrt_price_x64_current liquidity_delta) (\<lambda>amount_1.
        Ok (amount_0, amount_1)))))
      else
        rbind (get_sqrt_price_at_tick U tick_lower) (\<lambda>pl.
        rbind (get_sqrt_price_at_tick U tick_upper) (\<lambda>pu.
        rbind (get_delta_amount_1_signed U pl pu liquidity_delta) (\<lambda>amount_1.
        Ok (0, amount_1)))))"

section \<open>Amounts as fractions\<close>

text \<open>The exact amounts: \<open>L (1/sqrt(a) - 1/sqrt(b))\<close> and \<open>L (sqrt(b) - sqrt(a))\<close>, rounded.\<close>

definition amount_0_of :: "nat \<Rightarrow> nat \<Rightarrow> nat \<Rightarrow> bool \<Rightarrow> nat" where
  "amount_0_of a b L up =
     (let num = L * 2 ^ 64 * (max a b - min a b); den = min a b * max a b
      in if up then cdiv num den else num div den)"

definition amount_1_of :: "nat \<Rightarrow> nat \<Rightarrow> nat \<Rightarrow> bool \<Rightarrow> nat" where
  "amount_1_of a b L up =
     (let num = L * (max a b - min a b) in if up then cdiv num (2 ^ 64) else num div 2 ^ 64)"

lemma amount_0_of_commute: "amount_0_of a b L up = amount_0_of b a L up"
  by (simp add: amount_0_of_def max.commute min.commute)

lemma amount_1_of_commute: "amount_1_of a b L up = amount_1_of b a L up"
  by (simp add: amount_1_of_def max.commute min.commute)

lemma amount_rounding:
  "amount_0_of a b L False \<le> amount_0_of a b L True"
  "amount_0_of a b L True \<le> Suc (amount_0_of a b L False)"
  "amount_1_of a b L False \<le> amount_1_of a b L True"
  "amount_1_of a b L True \<le> Suc (amount_1_of a b L False)"
  by (simp_all add: amount_0_of_def amount_1_of_def Let_def div_le_cdiv cdiv_le_Suc_div)

lemma amount_0_of_le_iff:
  "0 < a \<Longrightarrow> a \<le> b \<Longrightarrow> amount_0_of a b L True \<le> k \<longleftrightarrow> L * 2 ^ 64 * (b - a) \<le> k * (a * b)"
  by (simp add: amount_0_of_def Let_def cdiv_le_iff)

lemma le_amount_0_of_iff:
  "0 < a \<Longrightarrow> a \<le> b \<Longrightarrow> k \<le> amount_0_of a b L False \<longleftrightarrow> k * (a * b) \<le> L * 2 ^ 64 * (b - a)"
  by (simp add: amount_0_of_def Let_def less_eq_div_iff_mult_less_eq)

lemma amount_1_of_le_iff:
  "a \<le> b \<Longrightarrow> amount_1_of a b L True \<le> k \<longleftrightarrow> L * (b - a) \<le> k * 2 ^ 64"
  by (simp add: amount_1_of_def Let_def cdiv_le_iff)

lemma le_amount_1_of_iff:
  "a \<le> b \<Longrightarrow> k \<le> amount_1_of a b L False \<longleftrightarrow> k * 2 ^ 64 \<le> L * (b - a)"
  by (simp add: amount_1_of_def Let_def less_eq_div_iff_mult_less_eq)

lemma sorted_pair:
  "(let (x, y) = (if a > (b::nat) then (b, a) else (a, b)) in f x y) = f (min a b) (max a b)"
  by (simp add: min_def max_def)

context uint_crate
begin

lemma get_delta_amount_1_unsigned_eq:
  assumes "a < 2 ^ 128" "b < 2 ^ 128" "L < 2 ^ 128"
  shows "get_delta_amount_1_unsigned U a b L up =
    (if amount_1_of a b L up < 2 ^ 64 then Ok (amount_1_of a b L up) else Panic)"
proof -
  define d where "d = max a b - min a b"
  have d: "d < 2 ^ 128"
    using assms by (simp add: d_def less_imp_diff_less)
  have "L * d + (2 ^ 64 - 1) < 2 ^ 256" and "L * d < 2 ^ 256"
    using mult_add_less_256 [of L d "2 ^ 64"] mult_less_256 [of L d] assms d by simp_all
  then show ?thesis
    unfolding get_delta_amount_1_unsigned_def sorted_pair unfolding amount_1_of_def Let_def
    by (cases up) (auto simp: mul_div_floor_u256_eq mul_div_ceil_u256_eq chk_sub_def d_def [symmetric] fits_def)
qed

text \<open>The two roundings of \<open>get_delta_amount_0_unsigned\<close>, one after the other, are one rounding.\<close>

lemma get_delta_amount_0_unsigned_eq:
  fixes a b L :: nat
  defines "lo \<equiv> min a b" and "hi \<equiv> max a b"
  defines "N \<equiv> L * 2 ^ 64 * (hi - lo)"
  assumes L: "L < 2 ^ 128"
  shows "get_delta_amount_0_unsigned U a b L up =
    (if 0 < lo \<and> N + (if up then hi - 1 else 0) < 2 ^ 256
        \<and> (if up then cdiv N hi else N div hi) < 2 ^ 128 \<and> amount_0_of a b L up < 2 ^ 64
     then Ok (amount_0_of a b L up) else Panic)"
proof (cases "0 < lo")
  case False
  then show ?thesis
    unfolding get_delta_amount_0_unsigned_def sorted_pair
    unfolding Let_def lo_def [symmetric] hi_def [symmetric] by (simp add: chk_sub_def)
next
  case True
  have lohi: "0 < lo" "lo \<le> hi" "0 < hi"
    using True unfolding lo_def hi_def by auto
  have shl: "u_shl U 256 L RESOLUTION = L * 2 ^ 64"
    using L by simp
  have sub: "chk_sub hi lo = Ok (hi - lo)"
    using lohi by (simp add: chk_sub_def)
  have ceil: "mul_div_ceil_u256 U (L * 2 ^ 64) (hi - lo) hi =
      (if N + (hi - 1) < 2 ^ 256 then Ok (fits 128 (cdiv N hi)) else Panic)"
    and floor: "mul_div_floor_u256 U (L * 2 ^ 64) (hi - lo) hi =
      (if N < 2 ^ 256 then Ok (fits 128 (N div hi)) else Panic)"
    using lohi by (simp_all only: mul_div_ceil_u256_eq mul_div_floor_u256_eq N_def)
  have amount: "amount_0_of a b L up = (if up then cdiv (cdiv N hi) lo else N div hi div lo)"
    using lohi by (simp only: amount_0_of_def Let_def N_def lo_def [symmetric] hi_def [symmetric]
        cdiv_cdiv div_div_nat mult.commute)
  have "cdiv N hi < 2 ^ 128 \<Longrightarrow> cdiv N hi < 2 ^ 256"
    by simp
  with True lohi show ?thesis
    unfolding get_delta_amount_0_unsigned_def sorted_pair
    unfolding Let_def shl lo_def [symmetric] hi_def [symmetric] sub rbind.simps ceil floor amount
    by (cases up) (auto simp: fits_def div_rounding_up_u256_eq)
qed

lemma get_delta_amount_0_unsigned_OkD:
  assumes "L < 2 ^ 128" "get_delta_amount_0_unsigned U a b L up = Ok r"
  shows "0 < min a b" "r = amount_0_of a b L up" "r < 2 ^ 64"
  using assms by (auto simp only: get_delta_amount_0_unsigned_eq res.inject res.distinct split: if_splits)

lemma get_delta_amount_1_unsigned_OkD:
  assumes "a < 2 ^ 128" "b < 2 ^ 128" "L < 2 ^ 128" "get_delta_amount_1_unsigned U a b L up = Ok r"
  shows "r = amount_1_of a b L up" "r < 2 ^ 64"
  using assms by (auto simp only: get_delta_amount_1_unsigned_eq res.inject res.distinct split: if_splits)

end

section \<open>Liquidity bought by an amount never costs more than the amount\<close>

context uint_crate
begin

lemma get_liquidity_from_amount_0_OkD:
  assumes "a < 2 ^ 128" "b < 2 ^ 128" "amount < 2 ^ 64"
    and ok: "get_liquidity_from_amount_0 U a b amount = Ok L"
  shows "a \<noteq> b" "L = amount * (min a b * max a b div 2 ^ 64) div (max a b - min a b)" "L < 2 ^ 128"
proof -
  define lo hi where "lo = min a b" and "hi = max a b"
  have lohi: "lo \<le> hi" "lo < 2 ^ 128" "hi < 2 ^ 128"
    using assms unfolding lo_def hi_def by auto
  note ok' = ok [unfolded get_liquidity_from_amount_0_def sorted_pair,
      folded lo_def hi_def]
  have inter: "mul_div_floor_u128 U lo hi Q64 = Ok (fits 128 (lo * hi div 2 ^ 64))"
    using lohi by (subst mul_div_floor_u128_eq) simp_all
  have sub: "chk_sub hi lo = Ok (hi - lo)"
    using lohi by (simp add: chk_sub_def)
  note ok'' = ok' [unfolded inter sub rbind.simps]
  have fit: "lo * hi div 2 ^ 64 < 2 ^ 128"
    using ok'' by (auto simp: res_inv fits_def split: if_splits)
  have nz: "hi - lo \<noteq> 0"
  proof
    assume "hi - lo = 0"
    with ok'' show False
      by (auto simp only: res_inv mul_div_zero_denom res.distinct)
  qed
  have "mul_div_floor_u128 U amount (lo * hi div 2 ^ 64) (hi - lo) =
      Ok (fits 128 (amount * (lo * hi div 2 ^ 64) div (hi - lo)))"
    using assms(3) fit nz lohi by (intro mul_div_floor_u128_eq) auto
  with ok'' fit have "L = amount * (lo * hi div 2 ^ 64) div (hi - lo) \<and> L < 2 ^ 128"
    by (auto simp: res_inv fits_def split: if_splits)
  with nz show "a \<noteq> b" "L = amount * (min a b * max a b div 2 ^ 64) div (max a b - min a b)"
    "L < 2 ^ 128"
    by (auto simp: lo_def hi_def)
qed

lemma get_liquidity_from_amount_1_OkD:
  assumes "a < 2 ^ 128" "b < 2 ^ 128" "amount < 2 ^ 64"
    and ok: "get_liquidity_from_amount_1 U a b amount = Ok L"
  shows "a \<noteq> b" "L = amount * 2 ^ 64 div (max a b - min a b)" "L < 2 ^ 128"
proof -
  define lo hi where "lo = min a b" and "hi = max a b"
  have lohi: "lo \<le> hi" "hi < 2 ^ 128"
    using assms unfolding lo_def hi_def by auto
  have sub: "chk_sub hi lo = Ok (hi - lo)"
    using lohi by (simp add: chk_sub_def)
  note ok' = ok [unfolded get_liquidity_from_amount_1_def sorted_pair,
      folded lo_def hi_def, unfolded sub rbind.simps]
  have nz: "hi - lo \<noteq> 0"
  proof
    assume "hi - lo = 0"
    with ok' show False
      by (auto simp only: res_inv mul_div_zero_denom res.distinct)
  qed
  have "mul_div_floor_u128 U amount Q64 (hi - lo) = Ok (fits 128 (amount * Q64 div (hi - lo)))"
    using assms(3) nz lohi by (intro mul_div_floor_u128_eq) auto
  with ok' have "L = amount * 2 ^ 64 div (hi - lo) \<and> L < 2 ^ 128"
    by (auto simp: res_inv fits_def split: if_splits)
  with nz show "a \<noteq> b" "L = amount * 2 ^ 64 div (max a b - min a b)" "L < 2 ^ 128"
    by (auto simp: lo_def hi_def)
qed

lemma cost_of_liquidity_0:
  assumes "a < 2 ^ 128" "b < 2 ^ 128" "amount < 2 ^ 64" "0 < min a b"
    and "get_liquidity_from_amount_0 U a b amount = Ok L"
  shows "amount_0_of a b L True \<le> amount"
proof -
  define lo hi where "lo = min a b" and "hi = max a b"
  have lohi: "0 < lo" "lo \<le> hi"
    using assms unfolding lo_def hi_def by auto
  have "L * (hi - lo) \<le> amount * (lo * hi div 2 ^ 64)"
    using get_liquidity_from_amount_0_OkD(2) [OF assms(1-3,5)]
    by (simp add: lo_def hi_def)
  then have "L * (hi - lo) * 2 ^ 64 \<le> amount * (lo * hi div 2 ^ 64) * 2 ^ 64"
    by (rule mult_le_mono1)
  also have "\<dots> \<le> amount * (lo * hi)"
    unfolding mult.assoc by (rule mult_le_mono2) (rule div_times_less_eq_dividend)
  finally have "L * 2 ^ 64 * (hi - lo) \<le> amount * (lo * hi)"
    by (simp only: ac_simps)
  then have "amount_0_of lo hi L True \<le> amount"
    using lohi by (simp only: amount_0_of_le_iff)
  then show ?thesis
    by (simp add: lo_def hi_def amount_0_of_def)
qed

lemma cost_of_liquidity_1:
  assumes "a < 2 ^ 128" "b < 2 ^ 128" "amount < 2 ^ 64"
    and "get_liquidity_from_amount_1 U a b amount = Ok L"
  shows "amount_1_of a b L True \<le> amount"
proof -
  have "L * (max a b - min a b) \<le> amount * 2 ^ 64"
    using get_liquidity_from_amount_1_OkD(2) [OF assms] by simp
  then have "amount_1_of (min a b) (max a b) L True \<le> amount"
    by (simp only: amount_1_of_le_iff min.cobounded1 max.coboundedI1)
  then show ?thesis
    by (simp add: amount_1_of_def)
qed

end

lemma get_delta_amount_0_unsigned_commute:
  "get_delta_amount_0_unsigned U b a L up = get_delta_amount_0_unsigned U a b L up"
  unfolding get_delta_amount_0_unsigned_def sorted_pair by (simp only: min.commute max.commute)

section \<open>Properties\<close>

text \<open>
  Adding a signed delta to a liquidity returns the mathematical sum exactly when that
  sum is a \<open>u128\<close> (and the delta is not the least \<open>i128\<close>, whose negation overflows), and
  never returns one of its two error codes: with overflow checks the operators panic first.
  Without overflow checks the wrapping code accepts the same inputs with the same results,
  because its comparisons catch each wrap.
\<close>

theorem add_delta_spec:
  assumes "x < 2 ^ 128" "- (2 ^ 127) \<le> y" "y < 2 ^ 127"
  shows "(add_delta x y = Ok z \<longleftrightarrow> int z = int x + y \<and> z < 2 ^ 128 \<and> y \<noteq> - (2 ^ 127))
    \<and> add_delta x y \<noteq> Err e
    \<and> (add_delta_unchecked x y = Ok z \<longleftrightarrow> add_delta x y = Ok z)"
proof -
  have "- (2 ^ 127) < y \<longleftrightarrow> y \<noteq> - (2 ^ 127)"
    using assms(2) by auto
  then show ?thesis
    by (simp only: add_delta_eq_Ok_iff [OF assms(1)] add_delta_not_Err
        add_delta_unchecked_eq_Ok_iff [OF assms] simp_thms)
qed

theorem add_delta_spec_witness:
  "add_delta 5 (-3) = Ok 2 \<and> add_delta_unchecked 5 (-3) = Ok 2 \<and> add_delta 5 (-6) \<noteq> Ok 0"
  using add_delta_spec [of 5 "-3" 2] add_delta_spec [of 5 "-6" 0] by simp

text \<open>
  C24. The amount of token 0 of a liquidity \<open>L\<close> between two prices is
  \<open>L 2^64 |b - a| / (a b)\<close>, rounded once in the direction asked for although the code rounds
  twice, and the amount of token 1 is \<open>L |b - a| / 2^64\<close>; the order of the prices does not
  matter, a returned amount fits 64 bits, and rounding up exceeds rounding down by at most 1.
\<close>

theorem get_delta_amounts_exact:
  assumes "uint_crate U" "a < 2 ^ 128" "b < 2 ^ 128" "L < 2 ^ 128"
  shows "(get_delta_amount_0_unsigned U a b L up = Ok x \<longrightarrow>
      0 < a \<and> 0 < b \<and> x < 2 ^ 64 \<and>
      x = (let num = L * 2 ^ 64 * (max a b - min a b); den = a * b
           in if up then cdiv num den else num div den))
    \<and> get_delta_amount_1_unsigned U a b L up =
      (let num = L * (max a b - min a b); r = (if up then cdiv num (2 ^ 64) else num div 2 ^ 64)
       in if r < 2 ^ 64 then Ok r else Panic)
    \<and> get_delta_amount_0_unsigned U b a L up = get_delta_amount_0_unsigned U a b L up
    \<and> (get_delta_amount_0_unsigned U a b L False = Ok y \<longrightarrow>
       get_delta_amount_0_unsigned U a b L True = Ok z \<longrightarrow> y \<le> z \<and> z \<le> y + 1)"
proof -
  have ab: "min a b * max a b = a * b" "0 < min a b \<longleftrightarrow> 0 < a \<and> 0 < b"
    by (auto simp: min_def max_def)
  have one: "get_delta_amount_0_unsigned U a b L up = Ok x \<Longrightarrow>
      0 < a \<and> 0 < b \<and> x < 2 ^ 64 \<and> x = amount_0_of a b L up" for up x
    using uint_crate.get_delta_amount_0_unsigned_OkD [OF assms(1,4), of a b up x] ab by simp
  have comm: "get_delta_amount_0_unsigned U b a L up = get_delta_amount_0_unsigned U a b L up"
    by (rule get_delta_amount_0_unsigned_commute)
  show ?thesis
    using one [of up x] one [of False y] one [of True z] comm amount_rounding(1,2) [of a b L]
      uint_crate.get_delta_amount_1_unsigned_eq [OF assms, of up]
    by (simp only: amount_0_of_def amount_1_of_def Let_def ab) auto
qed

theorem get_delta_amounts_exact_witness:
  "get_delta_amount_0_unsigned uint_ref (2 ^ 64) (2 ^ 65) 7 True = Ok 4
    \<and> get_delta_amount_0_unsigned uint_ref (2 ^ 64) (2 ^ 65) 7 False = Ok 3
    \<and> get_delta_amount_1_unsigned uint_ref (2 ^ 64) (2 ^ 65) 7 True = Ok 7"
proof -
  have "get_delta_amount_0_unsigned uint_ref (2 ^ 64) (2 ^ 65) 7 True = Ok 4"
    "get_delta_amount_0_unsigned uint_ref (2 ^ 64) (2 ^ 65) 7 False = Ok 3"
    by (simp_all add: uint_ref.get_delta_amount_0_unsigned_eq amount_0_of_def cdiv_def)
  then show ?thesis
    using get_delta_amounts_exact [OF uint_crate_ref, of "2 ^ 64" "2 ^ 65" 7 True 4 3 4]
    by (simp add: cdiv_def)
qed

text \<open>
  C25. Liquidity bought by an amount of one token is never worth more than that amount: a
  deposit of the liquidity that \<open>get_liquidity_from_amount_0\<close> or
  \<open>get_liquidity_from_amount_1\<close> returns, rounded up, costs at most the amount given.
\<close>

theorem liquidity_costs_at_most_amount:
  assumes "uint_crate U" "0 < a" "a < 2 ^ 128" "0 < b" "b < 2 ^ 128" "amount < 2 ^ 64"
  shows "(get_liquidity_from_amount_0 U a b amount = Ok L \<longrightarrow>
      get_delta_amount_0_unsigned U a b L True = Ok cost \<longrightarrow> cost \<le> amount)
    \<and> (get_liquidity_from_amount_1 U a b amount = Ok L \<longrightarrow>
      (\<exists>cost \<le> amount. get_delta_amount_1_unsigned U a b L True = Ok cost))"
proof (intro conjI impI)
  assume L: "get_liquidity_from_amount_0 U a b amount = Ok L"
    and cost: "get_delta_amount_0_unsigned U a b L True = Ok cost"
  have L128: "L < 2 ^ 128"
    using uint_crate.get_liquidity_from_amount_0_OkD(3) [OF assms(1,3,5,6) L] .
  have "0 < min a b"
    using assms by simp
  then show "cost \<le> amount"
    using uint_crate.cost_of_liquidity_0 [OF assms(1,3,5,6) _ L]
      uint_crate.get_delta_amount_0_unsigned_OkD(2) [OF assms(1) L128 cost] by simp
next
  assume L: "get_liquidity_from_amount_1 U a b amount = Ok L"
  have L128: "L < 2 ^ 128"
    using uint_crate.get_liquidity_from_amount_1_OkD(3) [OF assms(1,3,5,6) L] .
  show "\<exists>cost \<le> amount. get_delta_amount_1_unsigned U a b L True = Ok cost"
    using uint_crate.cost_of_liquidity_1 [OF assms(1,3,5,6) L] assms(6)
      uint_crate.get_delta_amount_1_unsigned_eq [OF assms(1,3,5) L128, of True] by auto
qed

theorem liquidity_costs_at_most_amount_witness:
  "get_liquidity_from_amount_1 uint_ref (2 ^ 64) (2 ^ 65) 10 = Ok 10
    \<and> (\<exists>cost \<le> 10. get_delta_amount_1_unsigned uint_ref (2 ^ 64) (2 ^ 65) 10 True = Ok cost)"
proof -
  have "get_liquidity_from_amount_1 uint_ref (2 ^ 64) (2 ^ 65) 10 = Ok 10"
    unfolding get_liquidity_from_amount_1_def sorted_pair
    by (simp add: chk_sub_def uint_ref.mul_div_floor_u128_eq fits_def)
  then show ?thesis
    using liquidity_costs_at_most_amount [OF uint_crate_ref, of "2 ^ 64" "2 ^ 65" 10 10] by simp
qed

end
