(* ===== verification/Tick_Array.thy ===== *)
theory Tick_Array
  imports Liquidity_Math
begin

text \<open>
  \<open>states/tick_array.rs\<close>, with the reward records of \<open>states/pool.rs\<close> that it reads.  A
  fixed-size array is a list; a mutable reference into an array is the offset it points to.
  The first part is the code; the second relates the truncated divisions of the code with
  floors, shows what the searches inside an array find, and proves the accounting of a
  tick: crossing it back and forth is the identity, and the growth inside a range is the
  same on both sides of a crossing.
\<close>

section \<open>Reward records\<close>

definition REWARD_NUM :: usize where
  "REWARD_NUM = 3"

text \<open>The values of \<open>RewardState as u8\<close>.\<close>

datatype reward_state = Uninitialized | Initialized | Opening | Ended

primrec reward_state_as_u8 :: "reward_state \<Rightarrow> u8" where
  "reward_state_as_u8 Uninitialized = 0"
| "reward_state_as_u8 Initialized = 1"
| "reward_state_as_u8 Opening = 2"
| "reward_state_as_u8 Ended = 3"

record reward_info =
  ri_reward_state :: u8
  ri_open_time :: u64
  ri_end_time :: u64
  ri_last_update_time :: u64
  ri_emissions_per_second_x64 :: u128
  ri_reward_total_emissioned :: u64
  ri_reward_claimed :: u64
  ri_token_mint :: pubkey
  ri_token_vault :: pubkey
  ri_authority :: pubkey
  ri_reward_growth_global_x64 :: u128

definition new_reward_info :: "pubkey \<Rightarrow> reward_info" where
  "new_reward_info authority =
     \<lparr>ri_reward_state = 0, ri_open_time = 0, ri_end_time = 0, ri_last_update_time = 0,
      ri_emissions_per_second_x64 = 0, ri_reward_total_emissioned = 0, ri_reward_claimed = 0,
      ri_token_mint = default_pubkey, ri_token_vault = default_pubkey, ri_authority = authority,
      ri_reward_growth_global_x64 = 0\<rparr>"

definition reward_initialized :: "reward_info \<Rightarrow> bool" where
  "reward_initialized self \<longleftrightarrow> ri_token_mint self \<noteq> default_pubkey"

definition get_reward_growths :: "reward_info list \<Rightarrow> u128 list" where
  "get_reward_growths reward_infos = map ri_reward_growth_global_x64 reward_infos"

section \<open>One tick\<close>

record tick_state =
  ts_tick :: i32
  ts_liquidity_net :: i128
  ts_liquidity_gross :: u128
  ts_fee_growth_outside_0_x64 :: u128
  ts_fee_growth_outside_1_x64 :: u128
  ts_reward_growths_outside_x64 :: "u128 list"

definition default_tick_state :: tick_state where
  "default_tick_state =
     \<lparr>ts_tick = 0, ts_liquidity_net = 0, ts_liquidity_gross = 0, ts_fee_growth_outside_0_x64 = 0,
      ts_fee_growth_outside_1_x64 = 0, ts_reward_growths_outside_x64 = replicate REWARD_NUM 0\<rparr>"

definition check_is_out_of_boundary :: "i32 \<Rightarrow> bool" where
  "check_is_out_of_boundary tick \<longleftrightarrow> tick < MIN_TICK \<or> tick > MAX_TICK"

definition tick_initialize :: "tick_state \<Rightarrow> i32 \<Rightarrow> u16 \<Rightarrow> tick_state res" where
  "tick_initialize self tick tick_spacing =
     (if check_is_out_of_boundary tick then Err (Code InvaildTickIndex)
      else
        rbind (i_rem tick (int tick_spacing)) (\<lambda>r.
        rbind (require (r = 0) (Code TickAndSpacingNotMatch)) (\<lambda>_.
        Ok (self\<lparr>ts_tick := tick\<rparr>))))"

text \<open>\<open>i128::checked_add\<close> and \<open>checked_sub\<close>, unwrapped.\<close>

definition unwrap_i128 :: "int \<Rightarrow> i128 res" where
  "unwrap_i128 z = chk_i 128 z"

definition tick_update ::
  "tick_state \<Rightarrow> i32 \<Rightarrow> i128 \<Rightarrow> u128 \<Rightarrow> u128 \<Rightarrow> bool \<Rightarrow> reward_info list \<Rightarrow> (bool \<times> tick_state) res"
where
  "tick_update self tick_current liquidity_delta fee_growth_global_0_x64 fee_growth_global_1_x64
      upper reward_infos =
     (let liquidity_gross_before = ts_liquidity_gross self in
      rbind (add_delta liquidity_gross_before liquidity_delta) (\<lambda>liquidity_gross_after.
      let flipped = ((liquidity_gross_after = 0) \<noteq> (liquidity_gross_before = 0));
          self =
            (if liquidity_gross_before = 0 \<and> ts_tick self \<le> tick_current then
               self\<lparr>ts_fee_growth_outside_0_x64 := fee_growth_global_0_x64,
                    ts_fee_growth_outside_1_x64 := fee_growth_global_1_x64,
                    ts_reward_growths_outside_x64 := get_reward_growths reward_infos\<rparr>
             else self);
          self = self\<lparr>ts_liquidity_gross := liquidity_gross_after\<rparr> in
      rbind (if upper then unwrap_i128 (ts_liquidity_net self - liquidity_delta)
             else unwrap_i128 (ts_liquidity_net self + liquidity_delta)) (\<lambda>liquidity_net.
      Ok (flipped, self\<lparr>ts_liquidity_net := liquidity_net\<rparr>))))"

text \<open>The loop of \<open>cross\<close> over the rewards.\<close>

fun cross_rewards :: "reward_info list \<Rightarrow> u128 list \<Rightarrow> u128 list res" where
  "cross_rewards (info # infos) (g # gs) =
     rbind (if \<not> reward_initialized info then Ok g
            else unwrap (checked_sub (ri_reward_growth_global_x64 info) g)) (\<lambda>g.
     rbind (cross_rewards infos gs) (\<lambda>gs. Ok (g # gs)))"
| "cross_rewards infos gs = Ok gs"

definition tick_cross ::
  "tick_state \<Rightarrow> u128 \<Rightarrow> u128 \<Rightarrow> reward_info list \<Rightarrow> (i128 \<times> tick_state) res" where
  "tick_cross self fee_growth_global_0_x64 fee_growth_global_1_x64 reward_infos =
     rbind (unwrap (checked_sub fee_growth_global_0_x64 (ts_fee_growth_outside_0_x64 self))) (\<lambda>f0.
     rbind (unwrap (checked_sub fee_growth_global_1_x64 (ts_fee_growth_outside_1_x64 self))) (\<lambda>f1.
     rbind (cross_rewards reward_infos (ts_reward_growths_outside_x64 self)) (\<lambda>gs.
     Ok (ts_liquidity_net self,
         self\<lparr>ts_fee_growth_outside_0_x64 := f0, ts_fee_growth_outside_1_x64 := f1,
              ts_reward_growths_outside_x64 := gs\<rparr>))))"

definition tick_clear :: "tick_state \<Rightarrow> tick_state" where
  "tick_clear self =
     self\<lparr>ts_liquidity_net := 0, ts_liquidity_gross := 0, ts_fee_growth_outside_0_x64 := 0,
          ts_fee_growth_outside_1_x64 := 0,
          ts_reward_growths_outside_x64 := replicate REWARD_NUM 0\<rparr>"

definition tick_is_initialized :: "tick_state \<Rightarrow> bool" where
  "tick_is_initialized self \<longleftrightarrow> ts_liquidity_gross self \<noteq> 0"

section \<open>Growth inside a range of ticks\<close>

definition get_fee_growth_inside ::
  "tick_state \<Rightarrow> tick_state \<Rightarrow> i32 \<Rightarrow> u128 \<Rightarrow> u128 \<Rightarrow> (u128 \<times> u128) res" where
  "get_fee_growth_inside tick_lower tick_upper tick_current fee_growth_global_0_x64
      fee_growth_global_1_x64 =
     rbind (if tick_current \<ge> ts_tick tick_lower then
              Ok (ts_fee_growth_outside_0_x64 tick_lower, ts_fee_growth_outside_1_x64 tick_lower)
            else
              rbind (unwrap (checked_sub fee_growth_global_0_x64
                              (ts_fee_growth_outside_0_x64 tick_lower))) (\<lambda>b0.
              rbind (unwrap (checked_sub fee_growth_global_1_x64
                              (ts_fee_growth_outside_1_x64 tick_lower))) (\<lambda>b1.
              Ok (b0, b1)))) (\<lambda>(below_0, below_1).
     rbind (if tick_current < ts_tick tick_upper then
              Ok (ts_fee_growth_outside_0_x64 tick_upper, ts_fee_growth_outside_1_x64 tick_upper)
            else
              rbind (unwrap (checked_sub fee_growth_global_0_x64
                              (ts_fee_growth_outside_0_x64 tick_upper))) (\<lambda>a0.
              rbind (unwrap (checked_sub fee_growth_global_1_x64
                              (ts_fee_growth_outside_1_x64 tick_upper))) (\<lambda>a1.
              Ok (a0, a1)))) (\<lambda>(above_0, above_1).
     Ok (wrapping_sub 128 (wrapping_sub 128 fee_growth_global_0_x64 below_0) above_0,
         wrapping_sub 128 (wrapping_sub 128 fee_growth_global_1_x64 below_1) above_1)))"

text \<open>One turn of the loop of \<open>get_reward_growths_inside\<close>, and the loop.\<close>

definition reward_growth_inside ::
  "i32 \<Rightarrow> i32 \<Rightarrow> i32 \<Rightarrow> reward_info \<Rightarrow> u128 \<Rightarrow> u128 \<Rightarrow> u128 res" where
  "reward_growth_inside tick_lower tick_upper tick_current_index info outside_lower outside_upper =
     (if \<not> reward_initialized info then Ok 0
      else
        rbind (if tick_current_index \<ge> tick_lower then Ok outside_lower
               else unwrap (checked_sub (ri_reward_growth_global_x64 info) outside_lower)) (\<lambda>below.
        rbind (if tick_current_index < tick_upper then Ok outside_upper
               else unwrap (checked_sub (ri_reward_growth_global_x64 info) outside_upper)) (\<lambda>above.
        Ok (wrapping_sub 128 (wrapping_sub 128 (ri_reward_growth_global_x64 info) below) above))))"

fun reward_growths_inside_loop ::
  "i32 \<Rightarrow> i32 \<Rightarrow> i32 \<Rightarrow> reward_info list \<Rightarrow> u128 list \<Rightarrow> u128 list \<Rightarrow> u128 list res" where
  "reward_growths_inside_loop lower upper current (info # infos) (l # ls) (u # us) =
     rbind (reward_growth_inside lower upper current info l u) (\<lambda>g.
     rbind (reward_growths_inside_loop lower upper current infos ls us) (\<lambda>gs. Ok (g # gs)))"
| "reward_growths_inside_loop lower upper current infos ls us = Ok []"

definition get_reward_growths_inside ::
  "tick_state \<Rightarrow> tick_state \<Rightarrow> i32 \<Rightarrow> reward_info list \<Rightarrow> u128 list res" where
  "get_reward_growths_inside tick_lower tick_upper tick_current_index reward_infos =
     reward_growths_inside_loop (ts_tick tick_lower) (ts_tick tick_upper) tick_current_index
       reward_infos (ts_reward_growths_outside_x64 tick_lower)
       (ts_reward_growths_outside_x64 tick_upper)"

section \<open>Arrays of ticks\<close>

definition TICK_ARRAY_SIZE :: i32 where
  "TICK_ARRAY_SIZE = 60"

definition TICK_ARRAY_SIZE_USIZE :: usize where
  "TICK_ARRAY_SIZE_USIZE = 60"

record tick_array =
  ta_pool_id :: pubkey
  ta_start_tick_index :: i32
  ta_ticks :: "tick_state list"
  ta_initialized_tick_count :: u8

definition default_tick_array :: tick_array where
  "default_tick_array =
     \<lparr>ta_pool_id = default_pubkey, ta_start_tick_index = 0,
      ta_ticks = replicate TICK_ARRAY_SIZE_USIZE default_tick_state,
      ta_initialized_tick_count = 0\<rparr>"

text \<open>The product of 60 and a 16-bit spacing always fits \<open>i32\<close>.\<close>

definition tick_count :: "u16 \<Rightarrow> i32" where
  "tick_count tick_spacing = TICK_ARRAY_SIZE * int tick_spacing"

definition get_array_start_index :: "i32 \<Rightarrow> u16 \<Rightarrow> i32 res" where
  "get_array_start_index tick_index tick_spacing =
     (let ticks_in_array = tick_count tick_spacing in
      rbind (i_div 32 tick_index ticks_in_array) (\<lambda>start.
      rbind (if tick_index < 0
             then rbind (i_rem tick_index ticks_in_array) (\<lambda>r.
               if r \<noteq> 0 then chk_i 32 (start - 1) else Ok start)
             else Ok start) (\<lambda>start.
      chk_i 32 (start * ticks_in_array))))"

definition check_is_valid_start_index :: "i32 \<Rightarrow> u16 \<Rightarrow> bool res" where
  "check_is_valid_start_index tick_index tick_spacing =
     (if check_is_out_of_boundary tick_index then
        if tick_index > MAX_TICK then Ok False
        else rbind (get_array_start_index MIN_TICK tick_spacing) (\<lambda>min_start_index.
          Ok (tick_index = min_start_index))
      else rbind (i_rem tick_index (tick_count tick_spacing)) (\<lambda>r. Ok (r = 0)))"

text \<open>The result of the check is not used by the code.\<close>

definition tick_array_initialize :: "tick_array \<Rightarrow> i32 \<Rightarrow> u16 \<Rightarrow> pubkey \<Rightarrow> tick_array res" where
  "tick_array_initialize self start_index tick_spacing pool_key =
     rbind (check_is_valid_start_index start_index tick_spacing) (\<lambda>_.
     Ok (self\<lparr>ta_start_tick_index := start_index, ta_pool_id := pool_key\<rparr>))"

definition update_initialized_tick_count :: "tick_array \<Rightarrow> bool \<Rightarrow> tick_array res" where
  "update_initialized_tick_count self add =
     rbind (if add then chk_add 8 (ta_initialized_tick_count self) 1
            else chk_sub (ta_initialized_tick_count self) 1) (\<lambda>n.
     Ok (self\<lparr>ta_initialized_tick_count := n\<rparr>))"

definition get_tick_offset_in_array :: "tick_array \<Rightarrow> i32 \<Rightarrow> u16 \<Rightarrow> usize res" where
  "get_tick_offset_in_array self tick_index tick_spacing =
     rbind (get_array_start_index tick_index tick_spacing) (\<lambda>start_tick_index.
     rbind (require (start_tick_index = ta_start_tick_index self) (Code InvalidTickArray)) (\<lambda>_.
     rbind (chk_i 32 (tick_index - ta_start_tick_index self)) (\<lambda>d.
     rbind (i_div 32 d (int tick_spacing)) (\<lambda>q.
     Ok (nat (q mod 2 ^ 64))))))"

definition get_tick_state :: "tick_array \<Rightarrow> i32 \<Rightarrow> u16 \<Rightarrow> (usize \<times> tick_state) res" where
  "get_tick_state self tick_index tick_spacing =
     rbind (get_tick_offset_in_array self tick_index tick_spacing) (\<lambda>offset_in_array.
     if offset_in_array < length (ta_ticks self) then
       Ok (offset_in_array, ta_ticks self ! offset_in_array)
     else Panic)"

definition update_tick_state :: "tick_array \<Rightarrow> i32 \<Rightarrow> u16 \<Rightarrow> tick_state \<Rightarrow> tick_array res" where
  "update_tick_state self tick_index tick_spacing tick_state =
     rbind (get_tick_offset_in_array self tick_index tick_spacing) (\<lambda>offset_in_array.
     if offset_in_array < length (ta_ticks self) then
       Ok (self\<lparr>ta_ticks := (ta_ticks self)[offset_in_array := tick_state]\<rparr>)
     else Panic)"

text \<open>The two search loops; \<open>scan_down ticks (Suc i)\<close> looks at \<open>i\<close> and below.\<close>

fun scan_down :: "tick_state list \<Rightarrow> nat \<Rightarrow> usize option" where
  "scan_down ticks 0 = None"
| "scan_down ticks (Suc i) = (if tick_is_initialized (ticks ! i) then Some i else scan_down ticks i)"

function scan_up :: "tick_state list \<Rightarrow> nat \<Rightarrow> usize option" where
  "scan_up ticks i =
     (if i < TICK_ARRAY_SIZE_USIZE then
        if tick_is_initialized (ticks ! i) then Some i else scan_up ticks (i + 1)
      else None)"
  by pat_completeness auto
termination
  by (relation "measure (\<lambda>(ticks, i). TICK_ARRAY_SIZE_USIZE - i)") auto

declare scan_up.simps [simp del]

definition first_initialized_tick :: "tick_array \<Rightarrow> bool \<Rightarrow> usize res" where
  "first_initialized_tick self zero_for_one =
     (case (if zero_for_one then scan_down (ta_ticks self) (nat TICK_ARRAY_SIZE)
            else scan_up (ta_ticks self) 0) of
        Some i \<Rightarrow> Ok i
      | None \<Rightarrow> Err (Code InvalidTickArray))"

definition next_initialized_tick :: "tick_array \<Rightarrow> i32 \<Rightarrow> u16 \<Rightarrow> bool \<Rightarrow> usize option res" where
  "next_initialized_tick self current_tick_index tick_spacing zero_for_one =
     rbind (get_array_start_index current_tick_index tick_spacing) (\<lambda>current_tick_array_start_index.
     if current_tick_array_start_index \<noteq> ta_start_tick_index self then Ok None
     else
       rbind (chk_i 32 (current_tick_index - ta_start_tick_index self)) (\<lambda>d.
       rbind (i_div 32 d (int tick_spacing)) (\<lambda>offset_in_array.
       if zero_for_one then Ok (scan_down (ta_ticks self) (nat (offset_in_array + 1)))
       else Ok (scan_up (ta_ticks self) (nat (offset_in_array + 1))))))"

definition next_tick_arrary_start_index :: "tick_array \<Rightarrow> u16 \<Rightarrow> bool \<Rightarrow> i32 res" where
  "next_tick_arrary_start_index self tick_spacing zero_for_one =
     (let ticks_in_array = TICK_ARRAY_SIZE * int tick_spacing in
      if zero_for_one then chk_i 32 (ta_start_tick_index self - ticks_in_array)
      else chk_i 32 (ta_start_tick_index self + ticks_in_array))"

definition check_tick_array_start_index :: "i32 \<Rightarrow> i32 \<Rightarrow> u16 \<Rightarrow> unit res" where
  "check_tick_array_start_index tick_array_start_index tick_index tick_spacing =
     rbind (require (tick_index \<ge> MIN_TICK) (Code TickLowerOverflow)) (\<lambda>_.
     rbind (require (tick_index \<le> MAX_TICK) (Code TickUpperOverflow)) (\<lambda>_.
     rbind (i_rem tick_index (int tick_spacing)) (\<lambda>r.
     rbind (require (0 = r) RequireEqViolated) (\<lambda>_.
     rbind (get_array_start_index tick_index tick_spacing) (\<lambda>expect_start_index.
     require (tick_array_start_index = expect_start_index) RequireEqViolated)))))"

definition check_ticks_order :: "i32 \<Rightarrow> i32 \<Rightarrow> unit res" where
  "check_ticks_order tick_lower_index tick_upper_index =
     require (tick_lower_index < tick_upper_index) (Code TickInvaildOrder)"


section \<open>Truncated division as a floor\<close>

text \<open>The start of the array that holds a tick, and a 32-bit range in which nothing overflows.\<close>

definition array_start :: "int \<Rightarrow> nat \<Rightarrow> int" where
  "array_start t ts = t div (60 * int ts) * (60 * int ts)"

definition moderate :: "int \<Rightarrow> bool" where
  "moderate t \<longleftrightarrow> - (2 ^ 30) \<le> t \<and> t \<le> 2 ^ 30"

definition spacing_ok :: "nat \<Rightarrow> bool" where
  "spacing_ok ts \<longleftrightarrow> 0 < ts \<and> ts < 2 ^ 16"

lemma tick_count_eq: "tick_count ts = 60 * int ts"
  by (simp add: tick_count_def TICK_ARRAY_SIZE_def)

lemma tick_count_bounds: "spacing_ok ts \<Longrightarrow> 60 \<le> tick_count ts \<and> tick_count ts \<le> 60 * 65535"
  by (auto simp: spacing_ok_def tick_count_eq)

lemma smod_eq_0_iff: "(x::int) smod y = 0 \<longleftrightarrow> y dvd x"
proof -
  have "x smod y = 0 \<longleftrightarrow> \<bar>x\<bar> mod \<bar>y\<bar> = 0"
    by (auto simp: signed_modulo_int_def sgn_0_0)
  also have "\<dots> \<longleftrightarrow> y dvd x"
    by (simp add: dvd_eq_mod_eq_0 [symmetric])
  finally show ?thesis .
qed

lemma i_rem_eq_0: "0 < y \<Longrightarrow> i_rem x y = Ok r \<Longrightarrow> r = 0 \<longleftrightarrow> y dvd x"
  by (auto simp: i_rem_def smod_eq_0_iff)

lemma i_rem_Ok: "0 < y \<Longrightarrow> i_rem x y = Ok (x smod y)"
  by (simp add: i_rem_def)

lemma sdiv_nonneg: "0 \<le> x \<Longrightarrow> 0 < y \<Longrightarrow> (x::int) sdiv y = x div y"
  by (cases "x = 0") (auto simp: signed_divide_int_def)

lemma sdiv_neg: "x < 0 \<Longrightarrow> 0 < y \<Longrightarrow> (x::int) sdiv y = - ((- x) div y)"
  by (simp add: signed_divide_int_def)

text \<open>Truncation and a correction for negative values that do not divide: the floor.\<close>

lemma floor_by_correction:
  assumes y: "0 < (y::int)"
  shows "(if x < 0 \<and> x smod y \<noteq> 0 then x sdiv y - 1 else x sdiv y) = x div y"
proof (cases "x < 0")
  case True
  have "- ((- x) div y) = (if y dvd x then x div y else x div y + 1)"
    using zdiv_zminus1_eq_if [of y x] y by (auto simp: dvd_eq_mod_eq_0)
  with True y show ?thesis
    by (auto simp: sdiv_neg smod_eq_0_iff)
qed (use y in \<open>simp add: sdiv_nonneg\<close>)

lemma array_start_bounds:
  assumes "spacing_ok ts"
  shows "array_start t ts \<le> t" "t < array_start t ts + tick_count ts" "tick_count ts dvd array_start t ts"
proof -
  have n: "0 < tick_count ts"
    using tick_count_bounds [OF assms] by simp
  have "t = array_start t ts + t mod tick_count ts"
    by (simp only: array_start_def tick_count_eq div_mult_mod_eq)
  then show "array_start t ts \<le> t" "t < array_start t ts + tick_count ts"
    using pos_mod_bound [OF n, of t] pos_mod_sign [OF n, of t] by linarith+
  show "tick_count ts dvd array_start t ts"
    by (simp add: array_start_def tick_count_eq)
qed

lemma array_start_unique:
  assumes "spacing_ok ts" "tick_count ts dvd a" "a \<le> t" "t < a + tick_count ts"
  shows "array_start t ts = a"
proof -
  have n: "0 < tick_count ts"
    using tick_count_bounds [OF assms(1)] by simp
  obtain k where a: "a = tick_count ts * k"
    using assms(2) by (auto simp: dvd_def)
  have "t div tick_count ts = k"
    using assms(3,4) n unfolding a
    by (intro int_div_pos_eq [of t "tick_count ts" k "t - tick_count ts * k"]) auto
  then show ?thesis
    by (simp add: array_start_def a tick_count_eq)
qed

lemma array_start_self: "spacing_ok ts \<Longrightarrow> tick_count ts dvd a \<Longrightarrow> array_start a ts = a"
  using tick_count_bounds [of ts] by (intro array_start_unique) auto

lemma array_start_mono: "spacing_ok ts \<Longrightarrow> s \<le> t \<Longrightarrow> array_start s ts \<le> array_start t ts"
  by (simp add: array_start_def zdiv_mono1 spacing_ok_def)

lemma moderate_tick: "MIN_TICK \<le> t \<Longrightarrow> t \<le> MAX_TICK \<Longrightarrow> moderate t"
  by (simp add: moderate_def MIN_TICK_def MAX_TICK_def)

lemma get_array_start_index_eq:
  assumes "moderate t" "spacing_ok ts"
  shows "get_array_start_index t ts = Ok (array_start t ts)"
proof -
  define n where "n = tick_count ts"
  have n: "60 \<le> n" "n \<le> 60 * 65535"
    using tick_count_bounds [OF assms(2)] by (auto simp: n_def)
  have t: "- (2 ^ 30) \<le> t" "t \<le> 2 ^ 30"
    using assms(1) by (auto simp: moderate_def)
  have q: "\<bar>t sdiv n\<bar> \<le> 2 ^ 30"
  proof (cases "t < 0")
    case True
    have "(- t) div n \<le> - t" "0 \<le> (- t) div n"
      using True n by (auto intro: order_trans [OF zdiv_mono2 [of "- t" 1 n]] pos_imp_zdiv_nonneg_iff [THEN iffD2])
    with True n t show ?thesis by (simp add: sdiv_neg)
  next
    case False
    have "t div n \<le> t" "0 \<le> t div n"
      using False n by (auto intro: order_trans [OF zdiv_mono2 [of t 1 n]] pos_imp_zdiv_nonneg_iff [THEN iffD2])
    with False n t show ?thesis by (simp add: sdiv_nonneg)
  qed
  have start: "(if t < 0 \<and> t smod n \<noteq> 0 then t sdiv n - 1 else t sdiv n) = t div n"
    using n by (intro floor_by_correction) simp
  have prod: "t div n * n = array_start t ts"
    by (simp add: n_def array_start_def tick_count_eq)
  have fits: "chk_i 32 (t div n * n) = Ok (t div n * n)"
    using array_start_bounds(1,2) [OF assms(2), of t] n t unfolding prod n_def [symmetric]
    by (intro chk_i32_Ok) auto
  have q': "- (2 ^ 30) \<le> t sdiv n" "t sdiv n \<le> 2 ^ 30"
    using q by auto
  have div: "i_div 32 t n = Ok (t sdiv n)" and rem: "i_rem t n = Ok (t smod n)"
    using q' n by (simp_all add: i_div_def i_rem_def chk_i_def)
  have sub: "chk_i 32 (t sdiv n - 1) = Ok (t sdiv n - 1)"
    using q' by (intro chk_i32_Ok) auto
  show ?thesis
    unfolding get_array_start_index_def Let_def n_def [symmetric] div rem rbind.simps sub
    using start fits prod by (auto split: if_splits)
qed

definition valid_start :: "int \<Rightarrow> nat \<Rightarrow> bool" where
  "valid_start t ts \<longleftrightarrow> tick_count ts dvd t \<and> array_start MIN_TICK ts \<le> t \<and> t \<le> MAX_TICK"

lemma check_is_valid_start_index_eq:
  assumes "spacing_ok ts"
  shows "check_is_valid_start_index t ts = Ok (valid_start t ts)"
proof -
  have n: "0 < tick_count ts"
    using tick_count_bounds [OF assms] by simp
  note min = array_start_bounds [OF assms, of MIN_TICK]
  have start: "get_array_start_index MIN_TICK ts = Ok (array_start MIN_TICK ts)"
    using assms by (intro get_array_start_index_eq moderate_tick) (auto simp: MIN_TICK_def MAX_TICK_def)
  have "t = array_start MIN_TICK ts" if "tick_count ts dvd t" "array_start MIN_TICK ts \<le> t" "t < MIN_TICK"
    using array_start_unique [OF assms min(3) that(2)] array_start_self [OF assms that(1)] min(2) that(3)
    by simp
  then show ?thesis
    using min n start
    by (auto simp: check_is_valid_start_index_def check_is_out_of_boundary_def valid_start_def
        i_rem_Ok smod_eq_0_iff)
qed

section \<open>Offsets and searches inside an array\<close>

lemma array_offset:
  fixes t :: int and ts :: nat
  assumes "spacing_ok ts"
  defines "off \<equiv> (t - array_start t ts) div int ts"
  shows "0 \<le> off" "off < 60" "array_start t ts + off * int ts \<le> t"
    "t < array_start t ts + (off + 1) * int ts"
    "int ts dvd t \<Longrightarrow> t = array_start t ts + off * int ts"
proof -
  have ts: "0 < int ts"
    using assms(1) by (simp add: spacing_ok_def)
  define d where "d = t - array_start t ts"
  have d: "0 \<le> d" "d < 60 * int ts"
    using array_start_bounds(1,2) [OF assms(1), of t] by (auto simp: d_def tick_count_eq)
  have off: "off = d div int ts"
    by (simp add: off_def d_def)
  show "0 \<le> off"
    using d ts by (simp add: off pos_imp_zdiv_nonneg_iff)
  have split: "d = off * int ts + d mod int ts"
    by (simp add: off)
  then have "off * int ts < 60 * int ts"
    using d(2) pos_mod_sign [OF ts, of d] by linarith
  then show "off < 60"
    using ts by simp
  show "array_start t ts + off * int ts \<le> t" "t < array_start t ts + (off + 1) * int ts"
    using split pos_mod_sign [OF ts, of d] pos_mod_bound [OF ts, of d]
    by (auto simp: d_def algebra_simps)
  show "t = array_start t ts + off * int ts" if dvd: "int ts dvd t"
  proof -
    have "int ts dvd tick_count ts"
      by (simp add: tick_count_eq)
    then have "int ts dvd d"
      using dvd array_start_bounds(3) [OF assms(1), of t] unfolding d_def
      by (meson dvd_diff dvd_trans)
    then show ?thesis
      using split by (simp add: d_def dvd_eq_mod_eq_0)
  qed
qed

lemma moderate_offset:
  assumes "moderate t" "spacing_ok ts"
  shows "chk_i 32 (t - array_start t ts) = Ok (t - array_start t ts)"
    "i_div 32 (t - array_start t ts) (int ts) = Ok ((t - array_start t ts) div int ts)"
proof -
  note b = array_start_bounds(1,2) [OF assms(2), of t]
  show "chk_i 32 (t - array_start t ts) = Ok (t - array_start t ts)"
    using b tick_count_bounds [OF assms(2)] by (intro chk_i32_Ok) auto
  have "0 \<le> (t - array_start t ts) div int ts" "(t - array_start t ts) div int ts < 60"
    using array_offset(1,2) [OF assms(2)] by auto
  then show "i_div 32 (t - array_start t ts) (int ts) = Ok ((t - array_start t ts) div int ts)"
    using assms(2) b by (simp add: i_div_def spacing_ok_def sdiv_nonneg)
qed

lemma get_tick_offset_in_array_eq:
  assumes "moderate t" "spacing_ok ts"
  shows "get_tick_offset_in_array A t ts =
    (if array_start t ts = ta_start_tick_index A
     then Ok (nat ((t - ta_start_tick_index A) div int ts)) else Err (Code InvalidTickArray))"
proof (cases "array_start t ts = ta_start_tick_index A")
  case True
  have "0 \<le> (t - array_start t ts) div int ts" "(t - array_start t ts) div int ts < 60"
    using array_offset(1,2) [OF assms(2)] by auto
  then have "(t - array_start t ts) div int ts mod 2 ^ 64 = (t - array_start t ts) div int ts"
    by simp
  with True show ?thesis
    unfolding get_tick_offset_in_array_def get_array_start_index_eq [OF assms]
    by (simp only: rbind.simps True [symmetric] require_True moderate_offset [OF assms] if_True simp_thms)
next
  case False
  then show ?thesis
    by (simp add: get_tick_offset_in_array_def get_array_start_index_eq [OF assms])
qed

lemma scan_down_eq_Some_iff:
  "scan_down ticks n = Some i \<longleftrightarrow>
    i < n \<and> tick_is_initialized (ticks ! i) \<and> (\<forall>j. i < j \<and> j < n \<longrightarrow> \<not> tick_is_initialized (ticks ! j))"
  by (induction n) (auto simp: less_Suc_eq)

lemma scan_down_eq_None_iff:
  "scan_down ticks n = None \<longleftrightarrow> (\<forall>j < n. \<not> tick_is_initialized (ticks ! j))"
  by (induction n) (auto simp: less_Suc_eq)

lemma scan_up_eq_Some_iff:
  "scan_up ticks n = Some i \<longleftrightarrow>
    n \<le> i \<and> i < 60 \<and> tick_is_initialized (ticks ! i)
    \<and> (\<forall>j. n \<le> j \<and> j < i \<longrightarrow> \<not> tick_is_initialized (ticks ! j))"
proof (induction ticks n rule: scan_up.induct)
  case (1 ticks n)
  consider "60 \<le> n" | "n < 60" "tick_is_initialized (ticks ! n)"
    | "n < 60" "\<not> tick_is_initialized (ticks ! n)" by linarith
  then show ?case
  proof cases
    case 3
    then have "scan_up ticks n = scan_up ticks (n + 1)"
      by (simp add: scan_up.simps [of ticks n] TICK_ARRAY_SIZE_USIZE_def)
    moreover have "(\<forall>j. n \<le> j \<and> j < i \<longrightarrow> \<not> tick_is_initialized (ticks ! j)) \<longleftrightarrow>
        (\<forall>j. n + 1 \<le> j \<and> j < i \<longrightarrow> \<not> tick_is_initialized (ticks ! j))"
      using 3(2) by (metis Suc_eq_plus1 Suc_leI Suc_leD le_neq_implies_less)
    moreover have "n \<le> i \<and> tick_is_initialized (ticks ! i) \<longleftrightarrow>
        n + 1 \<le> i \<and> tick_is_initialized (ticks ! i)"
      using 3(2) by (auto simp: Suc_le_eq order_le_less)
    ultimately show ?thesis
      using 1 3 by (auto simp: TICK_ARRAY_SIZE_USIZE_def)
  qed (auto simp: scan_up.simps [of ticks n] TICK_ARRAY_SIZE_USIZE_def)
qed

lemma scan_up_eq_None_iff:
  "scan_up ticks n = None \<longleftrightarrow> (\<forall>j. n \<le> j \<and> j < 60 \<longrightarrow> \<not> tick_is_initialized (ticks ! j))"
proof (induction ticks n rule: scan_up.induct)
  case (1 ticks n)
  consider "60 \<le> n" | "n < 60" "tick_is_initialized (ticks ! n)"
    | "n < 60" "\<not> tick_is_initialized (ticks ! n)" by linarith
  then show ?case
  proof cases
    case 3
    then have "scan_up ticks n = scan_up ticks (n + 1)"
      by (simp add: scan_up.simps [of ticks n] TICK_ARRAY_SIZE_USIZE_def)
    with 1 3 show ?thesis
      by (auto simp: TICK_ARRAY_SIZE_USIZE_def) (metis Suc_leI le_neq_implies_less)
  qed (auto simp: scan_up.simps [of ticks n] TICK_ARRAY_SIZE_USIZE_def)
qed

text \<open>An array whose initialized ticks sit where their index says.\<close>

definition wf_tick_array :: "nat \<Rightarrow> tick_array \<Rightarrow> bool" where
  "wf_tick_array ts A \<longleftrightarrow> length (ta_ticks A) = 60 \<and> valid_start (ta_start_tick_index A) ts
    \<and> (\<forall>i < 60. tick_is_initialized (ta_ticks A ! i) \<longrightarrow>
        ts_tick (ta_ticks A ! i) = ta_start_tick_index A + int i * int ts)
    \<and> ta_initialized_tick_count A = length (filter tick_is_initialized (ta_ticks A))"

lemma next_initialized_tick_nearest_gen:
  assumes wf: "wf_tick_array ts A" and t: "moderate t" "spacing_ok ts"
    and inside: "array_start t ts = ta_start_tick_index A"
  defines "inited \<equiv> \<lambda>j. j < 60 \<and> tick_is_initialized (ta_ticks A ! j)"
    and "pos_of \<equiv> \<lambda>j. ts_tick (ta_ticks A ! j)"
  shows "\<exists>r. next_initialized_tick A t ts z = Ok r \<and>
    (case r of
       Some i \<Rightarrow> inited i \<and>
         (if z then pos_of i \<le> t \<and> (\<forall>j. inited j \<and> pos_of j \<le> t \<longrightarrow> pos_of j \<le> pos_of i)
          else t < pos_of i \<and> (\<forall>j. inited j \<and> t < pos_of j \<longrightarrow> pos_of i \<le> pos_of j))
     | None \<Rightarrow> \<forall>j. inited j \<longrightarrow> (if z then t < pos_of j else pos_of j \<le> t))"
proof -
  define s where "s = ta_start_tick_index A"
  define off where "off = nat ((t - s) div int ts)"
  note off0 = array_offset [OF t(2), of t]
  have off: "int off = (t - s) div int ts" "off < 60"
    using off0(1,2) inside by (auto simp: off_def s_def)
  have pos: "s + int off * int ts \<le> t" "t < s + (int off + 1) * int ts"
    using off0(3,4) unfolding off(1) inside s_def by auto
  have ts: "0 < int ts"
    using t(2) by (simp add: spacing_ok_def)
  have pos_of: "pos_of j = s + int j * int ts" if "inited j" for j
    using wf that by (simp add: wf_tick_array_def inited_def pos_of_def s_def)
  have le: "pos_of j \<le> t \<longleftrightarrow> j < Suc off" if "inited j" for j
  proof
    assume "pos_of j \<le> t"
    then have "int j * int ts < (int off + 1) * int ts"
      using pos(2) pos_of [OF that] by linarith
    then show "j < Suc off" using ts by simp
  next
    assume "j < Suc off"
    then have "int j * int ts \<le> int off * int ts"
      using ts by simp
    then show "pos_of j \<le> t" using pos(1) pos_of [OF that] by linarith
  qed
  have mono: "pos_of i \<le> pos_of j \<longleftrightarrow> i \<le> j" if "inited i" "inited j" for i j
    using ts by (simp add: pos_of [OF that(1)] pos_of [OF that(2)])
  have next': "next_initialized_tick A t ts z =
      Ok (if z then scan_down (ta_ticks A) (Suc off) else scan_up (ta_ticks A) (Suc off))"
  proof -
    have "nat ((t - s) div int ts + 1) = Suc off"
      using off(1) by linarith
    then show ?thesis
      using moderate_offset [OF t] inside
      by (simp add: next_initialized_tick_def get_array_start_index_eq [OF t] s_def)
  qed
  show ?thesis
  proof (cases z)
    case True
    have down: "scan_down (ta_ticks A) (Suc off) = Some i \<Longrightarrow>
        inited i \<and> pos_of i \<le> t \<and> (\<forall>j. inited j \<and> pos_of j \<le> t \<longrightarrow> pos_of j \<le> pos_of i)" for i
      using off(2) le mono unfolding scan_down_eq_Some_iff
      by (metis (no_types, lifting) Suc_leI inited_def le_less_trans less_Suc_eq_le not_le order_trans)
    have "scan_down (ta_ticks A) (Suc off) = None \<Longrightarrow> (\<forall>j. inited j \<longrightarrow> t < pos_of j)"
      using le unfolding scan_down_eq_None_iff by (meson inited_def not_le)
    with down True next' show ?thesis
      by (cases "scan_down (ta_ticks A) (Suc off)") auto
  next
    case False
    have up: "scan_up (ta_ticks A) (Suc off) = Some i \<Longrightarrow>
        inited i \<and> t < pos_of i \<and> (\<forall>j. inited j \<and> t < pos_of j \<longrightarrow> pos_of i \<le> pos_of j)" for i
      using le mono unfolding scan_up_eq_Some_iff
      by (metis (no_types, lifting) inited_def not_le)
    have "scan_up (ta_ticks A) (Suc off) = None \<Longrightarrow> (\<forall>j. inited j \<longrightarrow> pos_of j \<le> t)"
      using le unfolding scan_up_eq_None_iff by (metis inited_def not_le)
    with up False next' show ?thesis
      by (cases "scan_up (ta_ticks A) (Suc off)") auto
  qed
qed

section \<open>Growth on the two sides of a tick\<close>

text \<open>
  The growth inside a range for one accumulator: \<open>low\<close> says whether the current tick is at or
  right of the lower tick, \<open>upp\<close> whether it is left of the upper one.
\<close>

definition inside_value :: "bool \<Rightarrow> bool \<Rightarrow> nat \<Rightarrow> nat \<Rightarrow> nat \<Rightarrow> nat" where
  "inside_value low upp g outside_lower outside_upper =
     nat ((int g - (if low then int outside_lower else int g - int outside_lower)
                 - (if upp then int outside_upper else int g - int outside_upper)) mod 2 ^ 128)"

lemma wrapping_sub_twice:
  "wrapping_sub 128 (wrapping_sub 128 g b) a = nat ((int g - int b - int a) mod 2 ^ 128)"
proof -
  have "int (wrapping_sub 128 (wrapping_sub 128 g b) a) = (int g - int b - int a) mod 2 ^ 128"
    by (simp only: int_wrapping_sub mod_diff_left_eq)
  then show ?thesis
    by (metis nat_int)
qed

lemma inside_value_wrapping:
  assumes "low \<or> ol \<le> g" "upp \<or> ou \<le> g"
  shows "wrapping_sub 128 (wrapping_sub 128 g (if low then ol else g - ol)) (if upp then ou else g - ou)
    = inside_value low upp g ol ou"
  using assms unfolding wrapping_sub_twice inside_value_def by (auto simp: of_nat_diff algebra_simps)

lemma inside_value_cross:
  "ol \<le> g \<Longrightarrow> inside_value (\<not> low) upp g (g - ol) ou = inside_value low upp g ol ou"
  "ou \<le> g \<Longrightarrow> inside_value low (\<not> upp) g ol (g - ou) = inside_value low upp g ol ou"
  by (simp_all add: inside_value_def of_nat_diff)

lemma inside_value_accrues:
  assumes "low \<or> upp"
  shows "inside_value low upp (g + d) ol ou =
    (inside_value low upp g ol ou + (if low \<and> upp then d else 0)) mod 2 ^ 128"
proof -
  define z where "z = (int g - (if low then int ol else int g - int ol)
                 - (if upp then int ou else int g - int ou))"
  have "inside_value low upp (g + d) ol ou = nat ((z + (if low \<and> upp then int d else 0)) mod 2 ^ 128)"
    using assms by (auto simp: inside_value_def z_def algebra_simps)
  also have "(z + (if low \<and> upp then int d else 0)) mod 2 ^ 128 =
      int ((nat (z mod 2 ^ 128) + (if low \<and> upp then d else 0)) mod 2 ^ 128)"
    by (simp add: of_nat_mod mod_add_left_eq)
  finally show ?thesis
    by (simp only: inside_value_def z_def nat_int)
qed

lemma get_fee_growth_inside_eq:
  fixes l u :: tick_state
  defines "ol0 \<equiv> ts_fee_growth_outside_0_x64 l" and "ol1 \<equiv> ts_fee_growth_outside_1_x64 l"
    and "ou0 \<equiv> ts_fee_growth_outside_0_x64 u" and "ou1 \<equiv> ts_fee_growth_outside_1_x64 u"
    and "low \<equiv> \<lambda>cur. ts_tick l \<le> cur" and "upp \<equiv> \<lambda>cur. cur < ts_tick u"
  shows "get_fee_growth_inside l u cur g0 g1 =
    (if (low cur \<or> ol0 \<le> g0 \<and> ol1 \<le> g1) \<and> (upp cur \<or> ou0 \<le> g0 \<and> ou1 \<le> g1)
     then Ok (inside_value (low cur) (upp cur) g0 ol0 ou0, inside_value (low cur) (upp cur) g1 ol1 ou1)
     else Panic)"
proof -
  have sub: "unwrap (checked_sub g x) = (if x \<le> g then Ok (g - x) else Panic)" for g x
    by (simp add: checked_sub_def)
  show ?thesis
    unfolding get_fee_growth_inside_def sub ol0_def [symmetric] ol1_def [symmetric]
      ou0_def [symmetric] ou1_def [symmetric]
    using inside_value_wrapping [of "low cur" ol0 g0 "upp cur" ou0]
      inside_value_wrapping [of "low cur" ol1 g1 "upp cur" ou1]
    by (cases "low cur"; cases "upp cur") (auto simp: low_def upp_def)
qed

lemma reward_growth_inside_eq:
  "reward_growth_inside lo up cur info ol ou =
    (if \<not> reward_initialized info then Ok 0
     else let g = ri_reward_growth_global_x64 info in
       if (lo \<le> cur \<or> ol \<le> g) \<and> (cur < up \<or> ou \<le> g)
       then Ok (inside_value (lo \<le> cur) (cur < up) g ol ou) else Panic)"
proof -
  have sub: "unwrap (checked_sub g x) = (if x \<le> g then Ok (g - x) else Panic)" for g x
    by (simp add: checked_sub_def)
  define g where "g = ri_reward_growth_global_x64 info"
  show ?thesis
    unfolding reward_growth_inside_def sub Let_def g_def [symmetric]
    using inside_value_wrapping [of "lo \<le> cur" ol g "cur < up" ou]
    by (cases "lo \<le> cur"; cases "cur < up") auto
qed

lemma tick_cross_OkD:
  assumes "tick_cross T g0 g1 rs = Ok (n, T')"
  shows "n = ts_liquidity_net T" "ts_tick T' = ts_tick T" "ts_liquidity_net T' = ts_liquidity_net T"
    "ts_liquidity_gross T' = ts_liquidity_gross T"
    "ts_fee_growth_outside_0_x64 T \<le> g0" "ts_fee_growth_outside_1_x64 T \<le> g1"
    "ts_fee_growth_outside_0_x64 T' = g0 - ts_fee_growth_outside_0_x64 T"
    "ts_fee_growth_outside_1_x64 T' = g1 - ts_fee_growth_outside_1_x64 T"
    "cross_rewards rs (ts_reward_growths_outside_x64 T) = Ok (ts_reward_growths_outside_x64 T')"
  using assms by (auto simp: tick_cross_def res_inv)

lemma cross_rewards_twice: "cross_rewards rs gs = Ok hs \<Longrightarrow> cross_rewards rs hs = Ok gs"
proof (induction rs gs arbitrary: hs rule: cross_rewards.induct)
  case (1 info infos g gs)
  then show ?case
    by (auto simp: res_inv checked_sub_def split: if_splits)
next
  case "2_1"
  then show ?case by simp
next
  case "2_2"
  then show ?case by (cases hs) auto
qed

lemma tick_cross_twice:
  assumes "tick_cross T g0 g1 rs = Ok (n, T')"
  shows "tick_cross T' g0 g1 rs = Ok (n, T)"
proof -
  note D = tick_cross_OkD [OF assms]
  have "T' = T\<lparr>ts_fee_growth_outside_0_x64 := g0 - ts_fee_growth_outside_0_x64 T,
      ts_fee_growth_outside_1_x64 := g1 - ts_fee_growth_outside_1_x64 T,
      ts_reward_growths_outside_x64 := ts_reward_growths_outside_x64 T'\<rparr>"
    using D by (intro tick_state.equality) simp_all
  moreover have "cross_rewards rs (ts_reward_growths_outside_x64 T') = Ok (ts_reward_growths_outside_x64 T)"
    using D(9) by (rule cross_rewards_twice)
  ultimately show ?thesis
    using D by (simp add: tick_cross_def checked_sub_def)
qed

lemma reward_growth_inside_cross:
  assumes "(if \<not> reward_initialized info then Ok x
      else unwrap (checked_sub (ri_reward_growth_global_x64 info) x)) = Ok x'"
  shows "(lo \<le> cur) \<noteq> (lo \<le> cur') \<Longrightarrow> (cur < up) = (cur' < up) \<Longrightarrow>
      reward_growth_inside lo up cur info x u = Ok g \<Longrightarrow>
      reward_growth_inside lo up cur' info x' u = Ok g"
    and "(lo \<le> cur) = (lo \<le> cur') \<Longrightarrow> (cur < up) \<noteq> (cur' < up) \<Longrightarrow>
      reward_growth_inside lo up cur info l x = Ok g \<Longrightarrow>
      reward_growth_inside lo up cur' info l x' = Ok g"
proof -
  define G where "G = ri_reward_growth_global_x64 info"
  have x: "x \<le> G \<and> x' = G - x" if "reward_initialized info"
    using assms that by (simp add: G_def)
  show "reward_growth_inside lo up cur' info x' u = Ok g"
    if "(lo \<le> cur) \<noteq> (lo \<le> cur')" "(cur < up) = (cur' < up)"
      "reward_growth_inside lo up cur info x u = Ok g"
    using that x inside_value_cross(1) [of x G "lo \<le> cur" "cur < up" u]
    unfolding reward_growth_inside_eq Let_def G_def [symmetric]
    by (auto split: if_splits)
  show "reward_growth_inside lo up cur' info l x' = Ok g"
    if "(lo \<le> cur) = (lo \<le> cur')" "(cur < up) \<noteq> (cur' < up)"
      "reward_growth_inside lo up cur info l x = Ok g"
    using that x inside_value_cross(2) [of x G "lo \<le> cur" "cur < up" l]
    unfolding reward_growth_inside_eq Let_def G_def [symmetric]
    by (auto split: if_splits)
qed

lemma cross_rewards_ConsD:
  assumes "cross_rewards (info # infos) (g # gs) = Ok hs"
  obtains h hs' where "hs = h # hs'" "cross_rewards infos gs = Ok hs'"
    "(if \<not> reward_initialized info then Ok g
      else unwrap (checked_sub (ri_reward_growth_global_x64 info) g)) = Ok h"
  using assms by (auto simp: res_inv)

lemma reward_loop_cross_lower:
  assumes "(lo \<le> cur) \<noteq> (lo \<le> cur')" "(cur < up) = (cur' < up)"
    and "cross_rewards rs ls = Ok ls'" "reward_growths_inside_loop lo up cur rs ls us = Ok q"
  shows "reward_growths_inside_loop lo up cur' rs ls' us = Ok q"
  using assms
proof (induction lo up cur rs ls us arbitrary: ls' q rule: reward_growths_inside_loop.induct)
  case (1 lo up cur info infos l ls u us)
  from 1(4) obtain l' ls'' where l': "ls' = l' # ls''" "cross_rewards infos ls = Ok ls''"
    and cross: "(if \<not> reward_initialized info then Ok l
            else unwrap (checked_sub (ri_reward_growth_global_x64 info) l)) = Ok l'"
    by (rule cross_rewards_ConsD)
  obtain g gs where g: "reward_growth_inside lo up cur info l u = Ok g" "q = g # gs"
    and gs: "reward_growths_inside_loop lo up cur infos ls us = Ok gs"
    using 1(5) by (auto simp: res_inv)
  have "reward_growth_inside lo up cur' info l' u = Ok g"
    using reward_growth_inside_cross(1) [OF cross 1(2,3) g(1)] .
  moreover have "reward_growths_inside_loop lo up cur' infos ls'' us = Ok gs"
    using 1(1) [OF 1(2,3) l'(2) gs] .
  ultimately show ?case
    by (simp add: l'(1) g(2))
qed (auto simp: neq_Nil_conv res_inv)

lemma reward_loop_cross_upper:
  assumes "(lo \<le> cur) = (lo \<le> cur')" "(cur < up) \<noteq> (cur' < up)"
    and "cross_rewards rs us = Ok us'" "reward_growths_inside_loop lo up cur rs ls us = Ok q"
  shows "reward_growths_inside_loop lo up cur' rs ls us' = Ok q"
  using assms
proof (induction lo up cur rs ls us arbitrary: us' q rule: reward_growths_inside_loop.induct)
  case (1 lo up cur info infos l ls u us)
  from 1(4) obtain u' us'' where u': "us' = u' # us''" "cross_rewards infos us = Ok us''"
    and cross: "(if \<not> reward_initialized info then Ok u
            else unwrap (checked_sub (ri_reward_growth_global_x64 info) u)) = Ok u'"
    by (rule cross_rewards_ConsD)
  obtain g gs where g: "reward_growth_inside lo up cur info l u = Ok g" "q = g # gs"
    and gs: "reward_growths_inside_loop lo up cur infos ls us = Ok gs"
    using 1(5) by (auto simp: res_inv)
  have "reward_growth_inside lo up cur' info l u' = Ok g"
    using reward_growth_inside_cross(2) [OF cross 1(2,3) g(1)] .
  moreover have "reward_growths_inside_loop lo up cur' infos ls us'' = Ok gs"
    using 1(1) [OF 1(2,3) u'(2) gs] .
  ultimately show ?case
    by (simp add: u'(1) g(2))
qed (auto simp: neq_Nil_conv res_inv)

text \<open>The three parts of an update, side by side.\<close>

lemma tick_update_eq:
  "tick_update T cur d g0 g1 upper rs =
    rbind (add_delta (ts_liquidity_gross T) d) (\<lambda>after.
    rbind (unwrap_i128 (if upper then ts_liquidity_net T - d else ts_liquidity_net T + d)) (\<lambda>net.
    Ok ((after = 0) \<noteq> (ts_liquidity_gross T = 0),
        (if ts_liquidity_gross T = 0 \<and> ts_tick T \<le> cur then
           T\<lparr>ts_fee_growth_outside_0_x64 := g0, ts_fee_growth_outside_1_x64 := g1,
             ts_reward_growths_outside_x64 := get_reward_growths rs\<rparr> else T)
        \<lparr>ts_liquidity_gross := after, ts_liquidity_net := net\<rparr>)))"
  by (cases "ts_liquidity_gross T = 0 \<and> ts_tick T \<le> cur"; cases upper)
    (auto simp: tick_update_def Let_def cong del: rbind_weak_cong)

lemma tick_update_OkD:
  assumes "ts_liquidity_gross T < 2 ^ 128" "tick_update T cur d g0 g1 upper rs = Ok (flipped, T')"
  shows "int (ts_liquidity_gross T') = int (ts_liquidity_gross T) + d" "ts_liquidity_gross T' < 2 ^ 128"
    "ts_liquidity_net T' = (if upper then ts_liquidity_net T - d else ts_liquidity_net T + d)"
    "flipped = ((ts_liquidity_gross T' = 0) \<noteq> (ts_liquidity_gross T = 0))"
    "ts_tick T' = ts_tick T"
    "ts_liquidity_gross T = 0 \<and> ts_tick T \<le> cur \<Longrightarrow> ts_fee_growth_outside_0_x64 T' = g0 \<and>
      ts_fee_growth_outside_1_x64 T' = g1 \<and> ts_reward_growths_outside_x64 T' = get_reward_growths rs"
    "\<not> (ts_liquidity_gross T = 0 \<and> ts_tick T \<le> cur) \<Longrightarrow>
      ts_fee_growth_outside_0_x64 T' = ts_fee_growth_outside_0_x64 T \<and>
      ts_fee_growth_outside_1_x64 T' = ts_fee_growth_outside_1_x64 T \<and>
      ts_reward_growths_outside_x64 T' = ts_reward_growths_outside_x64 T"
    "- (2 ^ 127) < d" "- (2 ^ 127) \<le> ts_liquidity_net T'" "ts_liquidity_net T' < 2 ^ 127"
proof -
  define T1 where "T1 = (if ts_liquidity_gross T = 0 \<and> ts_tick T \<le> cur then
      T\<lparr>ts_fee_growth_outside_0_x64 := g0, ts_fee_growth_outside_1_x64 := g1,
        ts_reward_growths_outside_x64 := get_reward_growths rs\<rparr> else T)"
  from assms(2) obtain after net where after: "add_delta (ts_liquidity_gross T) d = Ok after"
    and net: "unwrap_i128 (if upper then ts_liquidity_net T - d else ts_liquidity_net T + d) = Ok net"
    and flipped: "flipped = ((after = 0) \<noteq> (ts_liquidity_gross T = 0))"
    and T': "T' = T1\<lparr>ts_liquidity_gross := after, ts_liquidity_net := net\<rparr>"
    by (auto simp only: tick_update_eq res_inv res.inject prod.inject T1_def)
  have T1: "ts_tick T1 = ts_tick T" "ts_liquidity_net T1 = ts_liquidity_net T"
    by (simp_all add: T1_def)
  note after' = after [unfolded add_delta_eq_Ok_iff [OF assms(1)]]
  note net' = net [unfolded unwrap_i128_def chk_i_eq_Ok_iff]
  show "int (ts_liquidity_gross T') = int (ts_liquidity_gross T) + d" "ts_liquidity_gross T' < 2 ^ 128"
    "flipped = ((ts_liquidity_gross T' = 0) \<noteq> (ts_liquidity_gross T = 0))"
    "ts_tick T' = ts_tick T" "- (2 ^ 127) < d"
    using after' flipped T1 by (simp_all add: T')
  show "ts_liquidity_net T' = (if upper then ts_liquidity_net T - d else ts_liquidity_net T + d)"
    "- (2 ^ 127) \<le> ts_liquidity_net T'" "ts_liquidity_net T' < 2 ^ 127"
    using net' by (simp_all add: T')
  show "ts_liquidity_gross T = 0 \<and> ts_tick T \<le> cur \<Longrightarrow> ts_fee_growth_outside_0_x64 T' = g0 \<and>
      ts_fee_growth_outside_1_x64 T' = g1 \<and> ts_reward_growths_outside_x64 T' = get_reward_growths rs"
    "\<not> (ts_liquidity_gross T = 0 \<and> ts_tick T \<le> cur) \<Longrightarrow>
      ts_fee_growth_outside_0_x64 T' = ts_fee_growth_outside_0_x64 T \<and>
      ts_fee_growth_outside_1_x64 T' = ts_fee_growth_outside_1_x64 T \<and>
      ts_reward_growths_outside_x64 T' = ts_reward_growths_outside_x64 T"
    by (auto simp: T' T1_def)
qed

section \<open>Properties\<close>

text \<open>
  The truncating division and correction of \<open>get_array_start_index\<close> is the floor: for
  every tick (and far beyond) and every positive spacing it returns the one multiple of the
  array width that has the tick in its array, and a start index is valid exactly when it is
  such a multiple between the array of \<open>MIN_TICK\<close> and \<open>MAX_TICK\<close>.
\<close>

theorem get_array_start_index_floor:
  assumes "- (2 ^ 30) \<le> t" "t \<le> 2 ^ 30" "0 < ts" "ts < 2 ^ 16"
  shows "\<exists>s. get_array_start_index t ts = Ok s \<and> tick_count ts dvd s \<and> s \<le> t \<and> t < s + tick_count ts
    \<and> (\<forall>s'. tick_count ts dvd s' \<and> s' \<le> t \<and> t < s' + tick_count ts \<longrightarrow> s' = s)
    \<and> (\<exists>m. get_array_start_index MIN_TICK ts = Ok m \<and>
        check_is_valid_start_index t ts = Ok (tick_count ts dvd t \<and> m \<le> t \<and> t \<le> MAX_TICK))"
proof -
  have ok: "moderate t" "spacing_ok ts" "moderate MIN_TICK"
    using assms by (simp_all add: moderate_def spacing_ok_def MIN_TICK_def)
  have valid: "check_is_valid_start_index t ts =
      Ok (tick_count ts dvd t \<and> array_start MIN_TICK ts \<le> t \<and> t \<le> MAX_TICK)"
    by (simp only: check_is_valid_start_index_eq [OF ok(2)] valid_start_def)
  have unique: "\<forall>s'. tick_count ts dvd s' \<and> s' \<le> t \<and> t < s' + tick_count ts \<longrightarrow> s' = array_start t ts"
    using array_start_unique [OF ok(2)] by blast
  show ?thesis
    by (intro exI [of _ "array_start t ts"] exI [of _ "array_start MIN_TICK ts"] conjI unique valid
        get_array_start_index_eq ok array_start_bounds)
qed

theorem get_array_start_index_floor_witness:
  "get_array_start_index (-1) 10 = Ok (-600)"
proof -
  obtain s where s: "get_array_start_index (-1) 10 = Ok s" "tick_count 10 dvd s" "s \<le> -1"
    "-1 < s + tick_count 10"
    using get_array_start_index_floor [of "-1" 10] by auto
  then have "s = -600"
    by (auto simp: tick_count_eq dvd_def)
  with s show ?thesis by simp
qed

text \<open>
  C30. In a well-formed array, \<open>next_initialized_tick\<close> finds the nearest initialized tick:
  moving down, the greatest one at or below the current tick, moving up, the least one above
  it; it returns \<open>None\<close> exactly when the array has none on that side.  A tick outside the
  array gives \<open>None\<close>.
\<close>

theorem next_initialized_tick_nearest:
  assumes "wf_tick_array ts A" "- (2 ^ 30) \<le> t" "t \<le> 2 ^ 30" "0 < ts" "ts < 2 ^ 16"
  defines "inited \<equiv> \<lambda>j. j < 60 \<and> tick_is_initialized (ta_ticks A ! j)"
    and "tick_of \<equiv> \<lambda>j. ts_tick (ta_ticks A ! j)"
  shows "if ta_start_tick_index A \<le> t \<and> t < ta_start_tick_index A + tick_count ts
    then \<exists>r. next_initialized_tick A t ts z = Ok r \<and>
      (case r of
         Some i \<Rightarrow> inited i \<and>
           (if z then tick_of i \<le> t \<and> (\<forall>j. inited j \<and> tick_of j \<le> t \<longrightarrow> tick_of j \<le> tick_of i)
            else t < tick_of i \<and> (\<forall>j. inited j \<and> t < tick_of j \<longrightarrow> tick_of i \<le> tick_of j))
       | None \<Rightarrow> \<forall>j. inited j \<longrightarrow> (if z then t < tick_of j else tick_of j \<le> t))
    else next_initialized_tick A t ts z = Ok None"
proof -
  have ok: "moderate t" "spacing_ok ts"
    using assms by (simp_all add: moderate_def spacing_ok_def)
  have dvd: "tick_count ts dvd ta_start_tick_index A"
    using assms(1) by (simp add: wf_tick_array_def valid_start_def)
  show ?thesis
  proof (cases "array_start t ts = ta_start_tick_index A")
    case True
    then have "ta_start_tick_index A \<le> t" "t < ta_start_tick_index A + tick_count ts"
      using array_start_bounds [OF ok(2), of t] by auto
    then show ?thesis
      using next_initialized_tick_nearest_gen [OF assms(1) ok True, of z]
      unfolding inited_def tick_of_def by simp
  next
    case False
    then have "\<not> (ta_start_tick_index A \<le> t \<and> t < ta_start_tick_index A + tick_count ts)"
      using array_start_unique [OF ok(2) dvd] by blast
    moreover have "next_initialized_tick A t ts z = Ok None"
      using False by (simp add: next_initialized_tick_def get_array_start_index_eq [OF ok])
    ultimately show ?thesis
      by (simp only: if_False)
  qed
qed

definition sample_array :: tick_array where
  "sample_array = default_tick_array
     \<lparr>ta_ticks := (replicate 60 default_tick_state)
        [3 := default_tick_state\<lparr>ts_tick := 30, ts_liquidity_gross := 5\<rparr>],
      ta_initialized_tick_count := 1\<rparr>"

lemma sample_array_wf: "wf_tick_array 10 sample_array"
proof -
  let ?T = "default_tick_state\<lparr>ts_tick := 30, ts_liquidity_gross := 5\<rparr>"
  have init: "\<not> tick_is_initialized default_tick_state" "tick_is_initialized ?T"
    by (simp_all add: tick_is_initialized_def default_tick_state_def)
  have "array_start MIN_TICK 10 \<le> MIN_TICK"
    by (intro array_start_bounds) (simp add: spacing_ok_def)
  then have "valid_start 0 10"
    by (simp add: valid_start_def MIN_TICK_def MAX_TICK_def)
  moreover have "filter tick_is_initialized (ta_ticks sample_array) = [?T]"
    using init by (simp add: sample_array_def eval_nat_numeral)
  ultimately show ?thesis
    using init by (auto simp: wf_tick_array_def sample_array_def default_tick_array_def nth_list_update)
qed

theorem next_initialized_tick_nearest_witness:
  "wf_tick_array 10 sample_array \<and> next_initialized_tick sample_array 600 10 True = Ok None"
  using next_initialized_tick_nearest [OF sample_array_wf, of 600 True] sample_array_wf
  by (simp add: tick_count_eq sample_array_def default_tick_array_def)


text \<open>
  Updating a tick adds the delta to its gross liquidity and adds it to (lower tick) or
  subtracts it from (upper tick) its net liquidity, reports a flip exactly when the tick
  starts or stops being used, and records the growth so far only when it starts being used
  at or left of the current tick.  Updating it again with the opposite delta restores both
  liquidities.
\<close>

theorem tick_update_spec:
  assumes "ts_liquidity_gross T < 2 ^ 128" "d < 2 ^ 127" "- (2 ^ 127) \<le> ts_liquidity_net T"
    and "ts_liquidity_net T < 2 ^ 127"
    and "tick_update T cur d g0 g1 upper rs = Ok (flipped, T')"
  shows "int (ts_liquidity_gross T') = int (ts_liquidity_gross T) + d
    \<and> ts_liquidity_net T' = ts_liquidity_net T + (if upper then - d else d)
    \<and> flipped = (tick_is_initialized T' \<noteq> tick_is_initialized T)
    \<and> (ts_fee_growth_outside_0_x64 T', ts_fee_growth_outside_1_x64 T', ts_reward_growths_outside_x64 T') =
        (if \<not> tick_is_initialized T \<and> ts_tick T \<le> cur then (g0, g1, get_reward_growths rs)
         else (ts_fee_growth_outside_0_x64 T, ts_fee_growth_outside_1_x64 T, ts_reward_growths_outside_x64 T))
    \<and> (\<exists>T''. tick_update T' cur (- d) h0 h1 upper rs' = Ok (flipped, T'')
        \<and> ts_liquidity_gross T'' = ts_liquidity_gross T \<and> ts_liquidity_net T'' = ts_liquidity_net T)"
proof -
  note D = tick_update_OkD [OF assms(1,5)]
  have add: "add_delta (ts_liquidity_gross T') (- d) = Ok (ts_liquidity_gross T)"
    using D(1,2) assms(1,2) by (simp add: add_delta_eq_Ok_iff)
  have "unwrap_i128 (if upper then ts_liquidity_net T' - - d else ts_liquidity_net T' + - d)
      = Ok (ts_liquidity_net T)"
    using D(3) assms(3,4) by (simp add: unwrap_i128_def chk_i_eq_Ok_iff)
  then obtain T'' where "tick_update T' cur (- d) h0 h1 upper rs' = Ok (flipped, T'')"
    "ts_liquidity_gross T'' = ts_liquidity_gross T" "ts_liquidity_net T'' = ts_liquidity_net T"
    using D(4) unfolding tick_update_eq add rbind.simps by auto
  moreover have "flipped = (tick_is_initialized T' \<noteq> tick_is_initialized T)"
    using D(4) by (auto simp: tick_is_initialized_def)
  ultimately show ?thesis
    using D(1,3,6,7) by (cases "ts_liquidity_gross T = 0 \<and> ts_tick T \<le> cur")
      (auto simp: tick_is_initialized_def)
qed

theorem tick_update_spec_witness:
  "\<exists>T'. tick_update default_tick_state 5 7 11 13 True [] = Ok (True, T')
    \<and> ts_liquidity_net T' = - 7 \<and> ts_fee_growth_outside_0_x64 T' = 11"
proof -
  obtain T' where "tick_update default_tick_state 5 7 11 13 True [] = Ok (True, T')"
    by (simp add: tick_update_def default_tick_state_def add_delta_def chk_add_def unwrap_i128_def
        chk_i_def get_reward_growths_def)
  then show ?thesis
    using tick_update_spec [of default_tick_state 7 5 11 13 True "[]" True T']
    by (auto simp: default_tick_state_def tick_is_initialized_def)
qed

text \<open>
  C28. Crossing a tick keeps the growth inside every range that it bounds: the fee and reward
  growths of the range, seen from the other side of the crossed lower (or upper) tick, are
  what they were before, and crossing back restores the tick.
\<close>

theorem crossing_preserves_growth_inside:
  assumes "tick_cross T g0 g1 rs = Ok (n, T')"
  shows "tick_cross T' g0 g1 rs = Ok (n, T)
    \<and> ((ts_tick T \<le> cur) \<noteq> (ts_tick T \<le> cur') \<and> (cur < ts_tick V) = (cur' < ts_tick V) \<longrightarrow>
       (get_fee_growth_inside T V cur g0 g1 = Ok r \<longrightarrow> get_fee_growth_inside T' V cur' g0 g1 = Ok r)
       \<and> (get_reward_growths_inside T V cur rs = Ok q \<longrightarrow> get_reward_growths_inside T' V cur' rs = Ok q))
    \<and> ((cur < ts_tick T) \<noteq> (cur' < ts_tick T) \<and> (ts_tick V \<le> cur) = (ts_tick V \<le> cur') \<longrightarrow>
       (get_fee_growth_inside V T cur g0 g1 = Ok r \<longrightarrow> get_fee_growth_inside V T' cur' g0 g1 = Ok r)
       \<and> (get_reward_growths_inside V T cur rs = Ok q \<longrightarrow> get_reward_growths_inside V T' cur' rs = Ok q))"
proof (intro conjI impI; (elim conjE)?)
  note D = tick_cross_OkD [OF assms]
  show "tick_cross T' g0 g1 rs = Ok (n, T)"
    using assms by (rule tick_cross_twice)
  show "get_fee_growth_inside T' V cur' g0 g1 = Ok r"
    if "(ts_tick T \<le> cur) \<noteq> (ts_tick T \<le> cur')" "(cur < ts_tick V) = (cur' < ts_tick V)"
      "get_fee_growth_inside T V cur g0 g1 = Ok r"
    using that D inside_value_cross(1) [OF D(5), of "ts_tick T \<le> cur" "cur < ts_tick V"]
      inside_value_cross(1) [OF D(6), of "ts_tick T \<le> cur" "cur < ts_tick V"]
    by (auto simp: get_fee_growth_inside_eq split: if_splits)
  show "get_fee_growth_inside V T' cur' g0 g1 = Ok r"
    if "(cur < ts_tick T) \<noteq> (cur' < ts_tick T)" "(ts_tick V \<le> cur) = (ts_tick V \<le> cur')"
      "get_fee_growth_inside V T cur g0 g1 = Ok r"
    using that D inside_value_cross(2) [OF D(5), of "ts_tick V \<le> cur" "cur < ts_tick T"]
      inside_value_cross(2) [OF D(6), of "ts_tick V \<le> cur" "cur < ts_tick T"]
    by (auto simp: get_fee_growth_inside_eq split: if_splits)
  show "get_reward_growths_inside T' V cur' rs = Ok q"
    if "(ts_tick T \<le> cur) \<noteq> (ts_tick T \<le> cur')" "(cur < ts_tick V) = (cur' < ts_tick V)"
      "get_reward_growths_inside T V cur rs = Ok q"
    using that D(2) reward_loop_cross_lower [OF that(1,2) D(9)]
    by (simp add: get_reward_growths_inside_def)
  show "get_reward_growths_inside V T' cur' rs = Ok q"
    if "(cur < ts_tick T) \<noteq> (cur' < ts_tick T)" "(ts_tick V \<le> cur) = (ts_tick V \<le> cur')"
      "get_reward_growths_inside V T cur rs = Ok q"
    using that D(2) reward_loop_cross_upper [OF that(2,1) D(9)]
    by (simp add: get_reward_growths_inside_def)
qed


theorem crossing_preserves_growth_inside_witness:
  "\<exists>T'. tick_cross default_tick_state 3 4 [] = Ok (0, T') \<and> tick_cross T' 3 4 [] = Ok (0, default_tick_state)
    \<and> get_fee_growth_inside default_tick_state (default_tick_state\<lparr>ts_tick := 10\<rparr>) (-1) 3 4 = Ok (0, 0)
    \<and> get_fee_growth_inside T' (default_tick_state\<lparr>ts_tick := 10\<rparr>) 0 3 4 = Ok (0, 0)"
proof -
  let ?V = "default_tick_state\<lparr>ts_tick := 10\<rparr>"
  obtain T' where T': "tick_cross default_tick_state 3 4 [] = Ok (0, T')"
    by (simp add: tick_cross_def default_tick_state_def checked_sub_def)
  have "get_fee_growth_inside default_tick_state ?V (-1) 3 4 = Ok (0, 0)"
    by (simp add: get_fee_growth_inside_def default_tick_state_def native_eval)
  then show ?thesis
    using T' crossing_preserves_growth_inside [OF T', of "-1" 0 ?V "(0, 0)"]
    by (auto simp: default_tick_state_def)
qed

text \<open>
  C29. Fees that accrue while the current tick stays put reach exactly the ranges around it:
  when the global growth rises, the growth inside a range that contains the current tick
  rises by the same amount (modulo \<open>2^128\<close>), and the growth inside any other range is
  unchanged.
\<close>

theorem fee_growth_inside_accrues:
  assumes "ts_tick l < ts_tick u" "get_fee_growth_inside l u cur g0 g1 = Ok (r0, r1)"
  shows "get_fee_growth_inside l u cur (g0 + d0) (g1 + d1) =
    (if ts_tick l \<le> cur \<and> cur < ts_tick u then Ok ((r0 + d0) mod 2 ^ 128, (r1 + d1) mod 2 ^ 128)
     else Ok (r0, r1))"
proof -
  have small: "inside_value low upp g x y < 2 ^ 128" for low upp g x y
    by (simp add: inside_value_def nat_less_iff)
  note acc = inside_value_accrues [of True True, simplified] inside_value_accrues [of True False, simplified]
    inside_value_accrues [of False True, simplified]
  consider "ts_tick l \<le> cur" "cur < ts_tick u" | "ts_tick l \<le> cur" "\<not> cur < ts_tick u"
    | "\<not> ts_tick l \<le> cur" "cur < ts_tick u"
    using assms(1) by linarith
  then show ?thesis
    by cases (use assms(2) small [simplified] in \<open>auto simp: get_fee_growth_inside_eq acc split: if_splits\<close>)
qed

theorem fee_growth_inside_accrues_witness:
  "get_fee_growth_inside default_tick_state (default_tick_state\<lparr>ts_tick := 10\<rparr>) 5 3 4 = Ok (3, 4)
    \<and> get_fee_growth_inside default_tick_state (default_tick_state\<lparr>ts_tick := 10\<rparr>) 5 8 10 = Ok (8, 10)"
proof -
  let ?V = "default_tick_state\<lparr>ts_tick := 10\<rparr>"
  have "get_fee_growth_inside default_tick_state ?V 5 3 4 = Ok (3, 4)"
    by (simp add: get_fee_growth_inside_def default_tick_state_def wrapping_sub_def)
  then show ?thesis
    using fee_growth_inside_accrues [of default_tick_state ?V 5 3 4 3 4 5 6]
    by (simp add: default_tick_state_def)
qed

end
