(* ===== verification/Bit_Map.thy ===== *)
theory Bit_Map
  imports Big_Num Tick_Array
begin

text \<open>
  \<open>libraries/tick_array_bit_map.rs\<close>: the 1024-bit map that says which tick arrays around
  price 1 are in use.  Bit \<open>p\<close> stands for the array that starts at
  \<open>(p - 512) * tick_count\<close>.  The lemmas show that the shift-and-count searches return the
  nearest array in use in the given direction, or the edge of the map when there is none.
\<close>

section \<open>The code\<close>

definition TICK_ARRAY_BITMAP_SIZE :: i32 where
  "TICK_ARRAY_BITMAP_SIZE = 512"

text \<open>At most \<open>65535 * 60 * 512\<close>, which fits \<open>i32\<close>.\<close>

definition max_tick_in_tickarray_bitmap :: "u16 \<Rightarrow> i32" where
  "max_tick_in_tickarray_bitmap tick_spacing = int tick_spacing * TICK_ARRAY_SIZE * TICK_ARRAY_BITMAP_SIZE"

definition get_bitmap_tick_boundary :: "i32 \<Rightarrow> u16 \<Rightarrow> (i32 \<times> i32) res" where
  "get_bitmap_tick_boundary tick_array_start_index tick_spacing =
     (let ticks_in_one_bitmap = max_tick_in_tickarray_bitmap tick_spacing in
      rbind (chk_i 32 \<bar>tick_array_start_index\<bar>) (\<lambda>a.
      rbind (i_div 32 a ticks_in_one_bitmap) (\<lambda>m.
      rbind (if tick_array_start_index < 0
             then rbind (i_rem a ticks_in_one_bitmap) (\<lambda>r. if r \<noteq> 0 then chk_i 32 (m + 1) else Ok m)
             else Ok m) (\<lambda>m.
      rbind (chk_i 32 (ticks_in_one_bitmap * m)) (\<lambda>min_value.
      if tick_array_start_index < 0 then
        rbind (chk_i 32 (- min_value + ticks_in_one_bitmap)) (\<lambda>hi. Ok (- min_value, hi))
      else
        rbind (chk_i 32 (min_value + ticks_in_one_bitmap)) (\<lambda>hi. Ok (min_value, hi)))))))"

definition most_significant_bit :: "bignum \<Rightarrow> u16 option" where
  "most_significant_bit x = (if bn_is_zero x then None else Some (bn_leading_zeros x))"

definition least_significant_bit :: "bignum \<Rightarrow> u16 option" where
  "least_significant_bit x = (if bn_is_zero x then None else Some (bn_trailing_zeros x))"

text \<open>The shared step: the position of the array of a tick, rounded towards minus infinity.\<close>

definition compressed_position :: "i32 \<Rightarrow> i32 \<Rightarrow> i32 res" where
  "compressed_position tick multiplier =
     rbind (i_div 32 tick multiplier) (\<lambda>q.
     rbind (chk_i 32 (q + 512)) (\<lambda>compressed.
     if tick < 0 then
       rbind (i_rem tick multiplier) (\<lambda>r.
       if r \<noteq> 0 then chk_i 32 (compressed - 1) else Ok compressed)
     else Ok compressed))"

definition check_current_tick_array_is_initialized ::
  "bignum \<Rightarrow> i32 \<Rightarrow> u16 \<Rightarrow> (bool \<times> i32) res" where
  "check_current_tick_array_is_initialized bit_map tick_current tick_spacing =
     (if check_is_out_of_boundary tick_current then Err (Code InvaildTickIndex)
      else
        let multiplier = int tick_spacing * TICK_ARRAY_SIZE in
        rbind (compressed_position tick_current multiplier) (\<lambda>compressed.
        rbind (chk_i 32 \<bar>compressed\<bar>) (\<lambda>bit_pos.
        let mask = bn_shl (bn_one 16) (nat bit_pos);
            masked = bn_and bit_map mask;
            initialized = (masked \<noteq> bn_zero 16) in
        rbind (chk_i 32 (compressed - 512)) (\<lambda>d.
        rbind (chk_i 32 (d * multiplier)) (\<lambda>start.
        if initialized then Ok (True, start) else Ok (False, start))))))"

text \<open>\<open>i32::try_into::<usize>().unwrap()\<close>\<close>

definition unwrap_usize :: "int \<Rightarrow> usize res" where
  "unwrap_usize z = (if 0 \<le> z then Ok (nat z) else Panic)"

definition next_initialized_tick_array_start_index ::
  "bignum \<Rightarrow> i32 \<Rightarrow> u16 \<Rightarrow> bool \<Rightarrow> (bool \<times> i32) res" where
  "next_initialized_tick_array_start_index bit_map last_tick_array_start_index tick_spacing zero_for_one =
     rbind (check_is_valid_start_index last_tick_array_start_index tick_spacing) (\<lambda>valid.
     rbind (assertion valid) (\<lambda>_.
     let tick_boundary = max_tick_in_tickarray_bitmap tick_spacing in
     rbind (chk_i 32 (if zero_for_one then last_tick_array_start_index - tick_count tick_spacing
                      else last_tick_array_start_index + tick_count tick_spacing))
       (\<lambda>next_tick_array_start_index.
     if next_tick_array_start_index < - tick_boundary \<or> next_tick_array_start_index \<ge> tick_boundary
     then Ok (False, last_tick_array_start_index)
     else
       let multiplier = int tick_spacing * TICK_ARRAY_SIZE in
       rbind (compressed_position next_tick_array_start_index multiplier) (\<lambda>compressed.
       rbind (chk_i 32 \<bar>compressed\<bar>) (\<lambda>bit_pos.
       if zero_for_one then
         rbind (unwrap_usize (1024 - bit_pos - 1)) (\<lambda>shift.
         case most_significant_bit (bn_shl bit_map shift) of
           Some next_bit \<Rightarrow>
             rbind (chk_i 32 ((bit_pos - int next_bit - 512) * multiplier)) (\<lambda>start. Ok (True, start))
         | None \<Rightarrow> Ok (False, - tick_boundary))
       else
         rbind (unwrap_usize bit_pos) (\<lambda>shift.
         case least_significant_bit (bn_shr bit_map shift) of
           Some next_bit \<Rightarrow>
             rbind (chk_i 32 ((bit_pos + int next_bit - 512) * multiplier)) (\<lambda>start. Ok (True, start))
         | None \<Rightarrow> Ok (False, tick_boundary - tick_count tick_spacing)))))))"

section \<open>Positions\<close>

lemma max_tick_eq: "max_tick_in_tickarray_bitmap ts = 512 * tick_count ts"
  by (simp add: max_tick_in_tickarray_bitmap_def tick_count_def TICK_ARRAY_BITMAP_SIZE_def)

lemma compressed_position_eq:
  assumes "- (2 ^ 31) < t" "t < 2 ^ 31" "60 \<le> n"
  shows "compressed_position t n = Ok (t div n + 512)"
proof -
  have lo: "- (2 ^ 26) \<le> t sdiv n" and hi: "t sdiv n \<le> 2 ^ 26"
  proof -
    show "t sdiv n \<le> 2 ^ 26"
    proof (cases "t < 0")
      case True
      then have "0 \<le> (- t) div n" using assms by (subst pos_imp_zdiv_nonneg_iff) auto
      with True assms show ?thesis by (simp add: sdiv_neg)
    next
      case False
      then have "t div n \<le> t div 60" using assms by (intro zdiv_mono2) auto
      with False assms show ?thesis by (simp add: sdiv_nonneg)
    qed
    show "- (2 ^ 26) \<le> t sdiv n"
    proof (cases "t < 0")
      case True
      then have "(- t) div n \<le> (- t) div 60" using assms by (intro zdiv_mono2) auto
      with True assms show ?thesis by (simp add: sdiv_neg)
    next
      case False
      then have "0 \<le> t div n" using assms by (simp add: pos_imp_zdiv_nonneg_iff)
      with False assms show ?thesis by (simp add: sdiv_nonneg)
    qed
  qed
  have n: "0 < n" using assms by simp
  have start: "(if t < 0 \<and> t smod n \<noteq> 0 then t sdiv n - 1 else t sdiv n) = t div n"
    by (rule floor_by_correction [OF n])
  have steps: "i_div 32 t n = Ok (t sdiv n)" "i_rem t n = Ok (t smod n)"
    "chk_i 32 (t sdiv n + 512) = Ok (t sdiv n + 512)"
    "chk_i 32 (t sdiv n + 512 - 1) = Ok (t sdiv n + 512 - 1)"
    using lo hi n by (simp_all add: i_div_def i_rem_def chk_i_def)
  show ?thesis
    unfolding compressed_position_def steps rbind.simps using start by (auto split: if_splits)
qed


text \<open>The array that starts at \<open>start\<close> is marked in the map.\<close>

definition map_has :: "bignum \<Rightarrow> nat \<Rightarrow> int \<Rightarrow> bool" where
  "map_has bit_map ts start \<longleftrightarrow> tick_count ts dvd start
    \<and> - max_tick_in_tickarray_bitmap ts \<le> start \<and> start < max_tick_in_tickarray_bitmap ts
    \<and> bn_test bit_map (nat (start div tick_count ts + 512))"

definition wf_bit_map :: "bignum \<Rightarrow> bool" where
  "wf_bit_map bit_map \<longleftrightarrow> length bit_map = 16 \<and> bn_words bit_map"

lemma map_has_position:
  assumes "spacing_ok ts" "p < 1024"
  shows "map_has bm ts ((int p - 512) * tick_count ts) \<longleftrightarrow> bn_test bm p"
proof -
  define n where "n = tick_count ts"
  have n: "0 < n"
    using tick_count_bounds [OF assms(1)] by (simp add: n_def)
  have "- 512 * n \<le> (int p - 512) * n" "(int p - 512) * n < 512 * n"
    using n assms(2) by (intro mult_right_mono, auto)
  with n show ?thesis
    by (simp add: map_has_def max_tick_eq n_def [symmetric])
qed

lemma map_has_cases:
  assumes "spacing_ok ts" "map_has bm ts s"
  obtains p where "p < 1024" "s = (int p - 512) * tick_count ts" "bn_test bm p"
proof -
  define n where "n = tick_count ts"
  have n: "0 < n"
    using tick_count_bounds [OF assms(1)] by (simp add: n_def)
  obtain k where s: "s = n * k"
    using assms(2) by (auto simp: map_has_def n_def)
  have "n * - 512 \<le> n * k" "n * k < n * 512"
    using assms(2) by (simp_all add: map_has_def max_tick_eq n_def [symmetric] s mult.commute)
  then have k: "- 512 \<le> k" "k < 512"
    using n by (simp_all only: mult_le_cancel_left_pos mult_less_cancel_left_pos)
  show thesis
  proof (rule that)
    show "nat (k + 512) < 1024" "s = (int (nat (k + 512)) - 512) * tick_count ts"
      using k by (simp_all add: s n_def mult.commute)
    show "bn_test bm (nat (k + 512))"
      using assms(2) n by (simp add: map_has_def n_def [symmetric] s)
  qed
qed

section \<open>What the searches find\<close>

text \<open>
  \<open>nearest_below\<close> (\<open>nearest_above\<close>): a search from \<open>next\<close> downwards (upwards) through the
  arrays that satisfy \<open>P\<close> returned the nearest one, or the given edge when there is none.
\<close>

definition nearest_below :: "(int \<Rightarrow> bool) \<Rightarrow> int \<Rightarrow> int \<Rightarrow> bool \<times> int \<Rightarrow> bool" where
  "nearest_below P next edge r \<longleftrightarrow> (case r of (found, s) \<Rightarrow>
     if found then P s \<and> s \<le> next \<and> (\<forall>s'. P s' \<and> s' \<le> next \<longrightarrow> s' \<le> s)
     else s = edge \<and> (\<forall>s'. P s' \<longrightarrow> next < s'))"

definition nearest_above :: "(int \<Rightarrow> bool) \<Rightarrow> int \<Rightarrow> int \<Rightarrow> bool \<times> int \<Rightarrow> bool" where
  "nearest_above P next edge r \<longleftrightarrow> (case r of (found, s) \<Rightarrow>
     if found then P s \<and> next \<le> s \<and> (\<forall>s'. P s' \<and> next \<le> s' \<longrightarrow> s \<le> s')
     else s = edge \<and> (\<forall>s'. P s' \<longrightarrow> s' < next))"

text \<open>A search over positions is a search over the multiples of the width that they stand for.\<close>

lemma nearest_below_scale:
  fixes T :: "nat \<Rightarrow> bool" and base :: int
  assumes n: "0 < n" and P: "\<And>s. P s \<longleftrightarrow> (\<exists>i. T i \<and> s = (base + int i) * n)"
    and some: "case r of None \<Rightarrow> \<forall>i \<le> p. \<not> T i
      | Some i \<Rightarrow> i \<le> p \<and> T i \<and> (\<forall>j. i < j \<and> j \<le> p \<longrightarrow> \<not> T j)"
  shows "nearest_below P ((base + int p) * n) edge
    (case r of None \<Rightarrow> (False, edge) | Some i \<Rightarrow> (True, (base + int i) * n))"
proof -
  have le: "(base + int i) * n \<le> (base + int j) * n \<longleftrightarrow> i \<le> j" for i j
    using n by simp
  show ?thesis
    using some by (cases r) (auto simp: nearest_below_def P le n not_le not_less)
qed

lemma nearest_above_scale:
  fixes T :: "nat \<Rightarrow> bool" and base :: int
  assumes n: "0 < n" and P: "\<And>s. P s \<longleftrightarrow> (\<exists>i. T i \<and> s = (base + int i) * n)"
    and some: "case r of None \<Rightarrow> \<forall>i \<ge> p. \<not> T i
      | Some i \<Rightarrow> p \<le> i \<and> T i \<and> (\<forall>j. p \<le> j \<and> j < i \<longrightarrow> \<not> T j)"
  shows "nearest_above P ((base + int p) * n) edge
    (case r of None \<Rightarrow> (False, edge) | Some i \<Rightarrow> (True, (base + int i) * n))"
proof -
  have le: "(base + int i) * n \<le> (base + int j) * n \<longleftrightarrow> i \<le> j" for i j
    using n by simp
  show ?thesis
    using some by (cases r) (auto simp: nearest_above_def P le n not_le not_less)
qed

lemma map_has_iff:
  assumes "spacing_ok ts" "length bm = 16"
  shows "map_has bm ts s \<longleftrightarrow> (\<exists>i. bn_test bm i \<and> s = (- 512 + int i) * tick_count ts)"
proof
  assume "map_has bm ts s"
  then show "\<exists>i. bn_test bm i \<and> s = (- 512 + int i) * tick_count ts"
    using assms(1) by (elim map_has_cases) auto
next
  assume "\<exists>i. bn_test bm i \<and> s = (- 512 + int i) * tick_count ts"
  then obtain i where "bn_test bm i" "s = (int i - 512) * tick_count ts"
    by auto
  moreover from this have "i < 1024"
    using bn_test_less [of bm i] assms(2) by simp
  ultimately show "map_has bm ts s"
    using map_has_position [OF assms(1)] by simp
qed

text \<open>The search of the default map starts one array past the last one.\<close>

lemma search_default_map:
  fixes bm :: bignum and last :: int and ts :: nat and z :: bool
  assumes wf: "wf_bit_map bm" and ts: "spacing_ok ts" and last: "valid_start last ts"
  defines "n \<equiv> tick_count ts"
  defines "next \<equiv> (if z then last - n else last + n)"
  shows "\<exists>r. next_initialized_tick_array_start_index bm last ts z = Ok r \<and>
    (if next < - (512 * n) \<or> 512 * n \<le> next then r = (False, last)
     else if z then nearest_below (map_has bm ts) next (- (512 * n)) r
     else nearest_above (map_has bm ts) next (512 * n - n) r)"
proof -
  have n: "60 \<le> n" "n \<le> 60 * 65535" "0 < n"
    using tick_count_bounds [OF ts] by (auto simp: n_def)
  have lens: "length bm = 16" "bn_words bm"
    using wf by (simp_all add: wf_bit_map_def)
  have "MIN_TICK - n < array_start MIN_TICK ts"
    using array_start_bounds(2) [OF ts, of MIN_TICK] by (simp add: n_def)
  then have last_bounds: "MIN_TICK - n < last" "last \<le> MAX_TICK" and dvd: "n dvd last"
    using last by (auto simp: valid_start_def n_def)
  have chk: "chk_i 32 next = Ok next"
    using last_bounds n by (intro chk_i32_Ok) (auto simp: next_def MIN_TICK_def MAX_TICK_def)
  have valid: "check_is_valid_start_index last ts = Ok True"
    using last by (simp add: check_is_valid_start_index_eq [OF ts])
  have mult: "int ts * TICK_ARRAY_SIZE = n"
    by (simp add: n_def tick_count_def)
  note unfold = next_initialized_tick_array_start_index_def valid rbind.simps assertion_True Let_def
    max_tick_eq n_def [symmetric] next_def [symmetric] chk mult
  show ?thesis
  proof (cases "next < - (512 * n) \<or> 512 * n \<le> next")
    case True
    then show ?thesis
      unfolding unfold by simp
  next
    case range: False
    have "n dvd next"
      using dvd by (simp add: next_def)
    then obtain k where k: "next = n * k"
      by (auto simp: dvd_def)
    have "n * - 512 \<le> n * k" "n * k < n * 512"
      using range unfolding k by linarith+
    then have kb: "- 512 \<le> k" "k < 512"
      using n by (simp_all only: mult_le_cancel_left_pos mult_less_cancel_left_pos)
    define p where "p = nat (k + 512)"
    have p: "int p = k + 512" "p < 1024" "next = (- 512 + int p) * n"
      using kb by (auto simp: p_def k)
    have pos: "compressed_position next n = Ok (int p)" "chk_i 32 \<bar>int p\<bar> = Ok (int p)"
    proof -
      have "- (2 ^ 31) < next" "next < 2 ^ 31"
        using range n by auto
      from compressed_position_eq [OF this n(1)] show "compressed_position next n = Ok (int p)"
        using n(3) p(1) by (simp add: k)
      show "chk_i 32 \<bar>int p\<bar> = Ok (int p)"
        using p(2) by simp
    qed
    have "nat (1024 - int p - 1) = 1023 - p"
      using p(2) by linarith
    then have shift: "unwrap_usize (1024 - int p - 1) = Ok (1023 - p)" "unwrap_usize (int p) = Ok p"
      using p(2) by (simp_all add: unwrap_usize_def)
    have res: "chk_i 32 ((- 512 + int i) * n) = Ok ((- 512 + int i) * n)" if "i < 1024" for i
    proof -
      have "- 512 * n \<le> (- 512 + int i) * n" "(- 512 + int i) * n \<le> 512 * n"
        using n that by (intro mult_right_mono; simp)+
      then show ?thesis
        using n by (intro chk_i32_Ok) linarith+
    qed
    have has: "map_has bm ts s \<longleftrightarrow> (\<exists>i. bn_test bm i \<and> s = (- 512 + int i) * n)" for s
      by (simp only: map_has_iff [OF ts lens(1)] n_def)
    show ?thesis
    proof (cases z)
      case True
      note search = highest_one_below [OF lens(2), of p, unfolded lens(1), simplified, OF p(2)]
      let ?y = "bn_shl bm (1023 - p)"
      have "next_initialized_tick_array_start_index bm last ts z =
        Ok (case (if bn_is_zero ?y then None else Some (p - bn_leading_zeros ?y)) of
          None \<Rightarrow> (False, - (512 * n)) | Some i \<Rightarrow> (True, (- 512 + int i) * n))"
        unfolding unfold if_not_P [OF range] pos rbind.simps
        unfolding if_P [OF True] shift rbind.simps most_significant_bit_def
      proof (cases "bn_is_zero ?y")
        case nz: False
        define lz where "lz = bn_leading_zeros ?y"
        have eq: "int p - int lz - 512 = - 512 + int (p - lz)"
          using search(2) [OF nz] by (simp add: lz_def)
        have "p - lz < 1024"
          using p(2) by simp
        from res [OF this] show "(case if bn_is_zero ?y then None else Some (bn_leading_zeros ?y) of
            None \<Rightarrow> Ok (False, - (512 * n))
          | Some next_bit \<Rightarrow> rbind (chk_i 32 ((int p - int next_bit - 512) * n)) (\<lambda>start. Ok (True, start))) =
          Ok (case if bn_is_zero ?y then None else Some (p - bn_leading_zeros ?y) of
            None \<Rightarrow> (False, - (512 * n)) | Some i \<Rightarrow> (True, (- 512 + int i) * n))"
          unfolding if_not_P [OF nz] option.case lz_def [symmetric] eq by (simp only: rbind.simps)
      qed simp
      moreover have "nearest_below (map_has bm ts) next (- (512 * n))
        (case (if bn_is_zero ?y then None else Some (p - bn_leading_zeros ?y)) of
          None \<Rightarrow> (False, - (512 * n)) | Some i \<Rightarrow> (True, (- 512 + int i) * n))"
        unfolding p(3)
      proof (rule nearest_below_scale [OF n(3) has])
        show "case if bn_is_zero ?y then None else Some (p - bn_leading_zeros ?y) of
            None \<Rightarrow> \<forall>i \<le> p. \<not> bn_test bm i
          | Some i \<Rightarrow> i \<le> p \<and> bn_test bm i \<and> (\<forall>j. i < j \<and> j \<le> p \<longrightarrow> \<not> bn_test bm j)"
          using search(1) search(2)
          by (cases "bn_is_zero ?y") auto
      qed
      ultimately show ?thesis
        using True range by auto
    next
      case False
      note search = lowest_one_above [OF lens(2), of p]
      let ?y = "bn_shr bm p"
      have "next_initialized_tick_array_start_index bm last ts z =
        Ok (case (if bn_is_zero ?y then None else Some (p + bn_trailing_zeros ?y)) of
          None \<Rightarrow> (False, 512 * n - n) | Some i \<Rightarrow> (True, (- 512 + int i) * n))"
        unfolding unfold if_not_P [OF range] pos rbind.simps
        unfolding if_not_P [OF False] shift rbind.simps least_significant_bit_def
      proof (cases "bn_is_zero ?y")
        case nz: False
        define tz where "tz = bn_trailing_zeros ?y"
        have eq: "int p + int tz - 512 = - 512 + int (p + tz)"
          by simp
        have "p + tz < 1024"
          using search(2) [OF nz] bn_test_less [of bm "p + tz"] lens(1) by (simp add: tz_def)
        from res [OF this] show "(case if bn_is_zero ?y then None else Some (bn_trailing_zeros ?y) of
            None \<Rightarrow> Ok (False, 512 * n - n)
          | Some next_bit \<Rightarrow> rbind (chk_i 32 ((int p + int next_bit - 512) * n)) (\<lambda>start. Ok (True, start))) =
          Ok (case if bn_is_zero ?y then None else Some (p + bn_trailing_zeros ?y) of
            None \<Rightarrow> (False, 512 * n - n) | Some i \<Rightarrow> (True, (- 512 + int i) * n))"
          unfolding if_not_P [OF nz] option.case tz_def [symmetric] eq by (simp only: rbind.simps)
      qed simp
      moreover have "nearest_above (map_has bm ts) next (512 * n - n)
        (case (if bn_is_zero ?y then None else Some (p + bn_trailing_zeros ?y)) of
          None \<Rightarrow> (False, 512 * n - n) | Some i \<Rightarrow> (True, (- 512 + int i) * n))"
        unfolding p(3)
      proof (rule nearest_above_scale [OF n(3) has])
        show "case if bn_is_zero ?y then None else Some (p + bn_trailing_zeros ?y) of
            None \<Rightarrow> \<forall>i \<ge> p. \<not> bn_test bm i
          | Some i \<Rightarrow> p \<le> i \<and> bn_test bm i \<and> (\<forall>j. p \<le> j \<and> j < i \<longrightarrow> \<not> bn_test bm j)"
          using search(1) search(2)
          by (cases "bn_is_zero ?y") auto
      qed
      ultimately show ?thesis
        using False range by auto
    qed
  qed
qed

lemma bn_eq_zero_iff: "length a = n \<Longrightarrow> a = bn_zero n \<longleftrightarrow> bn_is_zero a"
  by (auto simp: bn_zero_def bn_is_zero_iff_all list_eq_iff_nth_eq all_set_conv_all_nth)

lemma bn_words_and: "bn_words a \<Longrightarrow> bn_words b \<Longrightarrow> bn_words (bn_and a b)"
proof -
  assume ab: "bn_words a" "bn_words b"
  have "x AND y < 2 ^ 64" if "x < 2 ^ 64" "y < 2 ^ 64" for x y :: nat
    using that by (metis take_bit_nat_eq_self take_bit_nat_less_exp take_bit_and)
  then show ?thesis
    using ab by (auto simp: bn_words_def bn_and_def set_zip)
qed

lemma check_current_eq:
  assumes wf: "wf_bit_map bm" and ts: "spacing_ok ts" and t: "MIN_TICK \<le> t" "t \<le> MAX_TICK"
    and range: "- max_tick_in_tickarray_bitmap ts \<le> t" "t < max_tick_in_tickarray_bitmap ts"
  shows "check_current_tick_array_is_initialized bm t ts =
    Ok (map_has bm ts (array_start t ts), array_start t ts)"
proof -
  define n where "n = tick_count ts"
  have n: "60 \<le> n" "n \<le> 60 * 65535" "0 < n"
    using tick_count_bounds [OF ts] by (auto simp: n_def)
  have lens: "length bm = 16" "bn_words bm"
    using wf by (simp_all add: wf_bit_map_def)
  have r: "- 512 * n \<le> t" "t < 512 * n"
    using range by (simp_all add: max_tick_eq n_def)
  have k: "- 512 \<le> t div n" "t div n < 512"
  proof -
    have "(- 512 * n) div n \<le> t div n"
      using r(1) n(3) by (rule zdiv_mono1)
    moreover have "(- 512 * n) div n = - 512"
      using n(3) by (intro nonzero_mult_div_cancel_right) simp
    ultimately show "- 512 \<le> t div n"
      by simp
    show "t div n < 512"
    proof (rule ccontr)
      assume "\<not> t div n < 512"
      then have "512 * n \<le> t div n * n" using n by (intro mult_right_mono) auto
      moreover have "t div n * n \<le> t"
        using div_mult_mod_eq [of t n] pos_mod_sign [OF n(3), of t] by linarith
      ultimately show False using r by linarith
    qed
  qed
  define p where "p = nat (t div n + 512)"
  have p: "int p = t div n + 512" "p < 1024"
    using k by (auto simp: p_def)
  have pos: "compressed_position t n = Ok (int p)" "chk_i 32 \<bar>int p\<bar> = Ok (int p)"
  proof -
    show "compressed_position t n = Ok (int p)"
      using compressed_position_eq [of t n] t n p(1) by (simp add: MIN_TICK_def MAX_TICK_def)
    show "chk_i 32 \<bar>int p\<bar> = Ok (int p)"
      using p(2) by simp
  qed
  have start: "(int p - 512) * n = array_start t ts"
    by (simp add: p(1) array_start_def n_def tick_count_eq)
  have "chk_i 32 (array_start t ts) = Ok (array_start t ts)"
    using array_start_bounds(1,2) [OF ts, of t] t n unfolding n_def [symmetric]
    by (intro chk_i32_Ok) (auto simp: MIN_TICK_def MAX_TICK_def)
  then have fits: "chk_i 32 (int p - 512) = Ok (int p - 512)"
    "chk_i 32 ((int p - 512) * n) = Ok (array_start t ts)"
    using p(2) unfolding start by simp_all
  let ?m = "bn_and bm (bn_shl (bn_one 16) p)"
  have words: "bn_words ?m"
    using lens by (intro bn_words_and bn_words_shl bn_words_one)
  have "?m \<noteq> bn_zero 16 \<longleftrightarrow> (\<exists>i. bn_test ?m i)"
    using bn_eq_zero_iff [of ?m 16] bn_is_zero_iff [OF words] lens(1) by simp
  also have "\<dots> \<longleftrightarrow> bn_test bm p"
    using lens(1) p(2) by (simp add: bn_test_and bn_test_one_shl)
  also have "\<dots> \<longleftrightarrow> map_has bm ts (array_start t ts)"
    using map_has_position [OF ts p(2), of bm] by (simp add: start [symmetric] n_def)
  finally have mask: "?m \<noteq> bn_zero 16 \<longleftrightarrow> map_has bm ts (array_start t ts)" .
  have "\<not> check_is_out_of_boundary t"
    using t by (simp add: check_is_out_of_boundary_def)
  moreover have "int ts * TICK_ARRAY_SIZE = n"
    by (simp add: n_def tick_count_def)
  ultimately show ?thesis
    unfolding check_current_tick_array_is_initialized_def Let_def
    by (simp only: if_False pos rbind.simps nat_int fits mask split: if_split) simp
qed

text \<open>The bitmap that holds a start index, by its first and one-past-last tick.\<close>

lemma get_bitmap_tick_boundary_eq:
  assumes "moderate t" "spacing_ok ts"
  defines "B \<equiv> max_tick_in_tickarray_bitmap ts"
  assumes B: "B \<le> 2 ^ 29"
  shows "get_bitmap_tick_boundary t ts = Ok (t div B * B, t div B * B + B)"
proof -
  have Bpos: "0 < B" "60 \<le> B"
    using tick_count_bounds [OF assms(2)] by (auto simp: B_def max_tick_eq)
  have t: "- (2 ^ 30) \<le> t" "t \<le> 2 ^ 30"
    using assms(1) by (auto simp: moderate_def)
  have absq: "0 \<le> \<bar>t\<bar> div B" "\<bar>t\<bar> div B \<le> 2 ^ 30"
  proof -
    show "0 \<le> \<bar>t\<bar> div B" using Bpos by (simp add: pos_imp_zdiv_nonneg_iff)
    have "\<bar>t\<bar> div B \<le> \<bar>t\<bar> div 1" using Bpos by (intro zdiv_mono2) auto
    with t show "\<bar>t\<bar> div B \<le> 2 ^ 30" by (auto simp: abs_le_iff)
  qed
  have b: "t div B * B \<le> t" "t < t div B * B + B"
    using div_mult_mod_eq [of t B] pos_mod_sign [OF Bpos(1), of t] pos_mod_bound [OF Bpos(1), of t]
    by linarith+
  have steps: "chk_i 32 \<bar>t\<bar> = Ok \<bar>t\<bar>" "i_div 32 \<bar>t\<bar> B = Ok (\<bar>t\<bar> div B)" "i_rem \<bar>t\<bar> B = Ok (\<bar>t\<bar> smod B)"
    "chk_i 32 (\<bar>t\<bar> div B + 1) = Ok (\<bar>t\<bar> div B + 1)"
    using t absq Bpos by (auto simp: i_div_def i_rem_def sdiv_nonneg intro!: chk_i32_Ok)
  show ?thesis
  proof (cases "t < 0")
    case True
    have m: "(if \<bar>t\<bar> smod B \<noteq> 0 then \<bar>t\<bar> div B + 1 else \<bar>t\<bar> div B) = - (t div B)"
      using zdiv_zminus1_eq_if [of B t] True Bpos by (auto simp: smod_eq_0_iff dvd_eq_mod_eq_0)
    have fits: "chk_i 32 (B * - (t div B)) = Ok (- (t div B * B))"
      "chk_i 32 (t div B * B + B) = Ok (t div B * B + B)"
      using b t B Bpos by (auto simp: mult.commute intro!: chk_i32_Ok)
    show ?thesis
      unfolding get_bitmap_tick_boundary_def B_def [symmetric] Let_def steps rbind.simps
      using True m fits steps(4) by (auto split: if_splits)
  next
    case False
    have fits: "chk_i 32 (B * (t div B)) = Ok (t div B * B)"
      "chk_i 32 (t div B * B + B) = Ok (t div B * B + B)"
      using b t B Bpos by (auto simp: mult.commute intro!: chk_i32_Ok)
    with False show ?thesis
      unfolding get_bitmap_tick_boundary_def B_def [symmetric] Let_def steps rbind.simps by simp
  qed
qed

section \<open>Properties\<close>

text \<open>
  C31. The search for the next tick array in the default map finds the nearest one: moving
  down it returns the greatest array in use before the given one, moving up the least one
  after it; without any it returns the edge of the map on that side, and when the next array
  lies outside the map it returns the given array.
\<close>

theorem next_tick_array_in_default_map_nearest:
  fixes bm :: bignum and last :: int and ts :: nat and z :: bool
  assumes "wf_bit_map bm" "0 < ts" "ts < 2 ^ 16" "valid_start last ts"
  defines "n \<equiv> tick_count ts"
  defines "next \<equiv> (if z then last - n else last + n)"
  shows "\<exists>found s. next_initialized_tick_array_start_index bm last ts z = Ok (found, s) \<and>
    (if next < - 512 * n \<or> 512 * n \<le> next then \<not> found \<and> s = last
     else if z then
       (if found then map_has bm ts s \<and> s < last \<and> (\<forall>s'. map_has bm ts s' \<and> s' < last \<longrightarrow> s' \<le> s)
        else s = - 512 * n \<and> (\<forall>s'. map_has bm ts s' \<longrightarrow> last \<le> s'))
     else
       (if found then map_has bm ts s \<and> last < s \<and> (\<forall>s'. map_has bm ts s' \<and> last < s' \<longrightarrow> s \<le> s')
        else s = 511 * n \<and> (\<forall>s'. map_has bm ts s' \<longrightarrow> s' \<le> last)))"
proof -
  have ts: "spacing_ok ts"
    using assms by (simp add: spacing_ok_def)
  have n: "0 < n" "n dvd last"
    using tick_count_bounds [OF ts] assms(4) by (auto simp: n_def valid_start_def)
  have step: "s \<le> last - n \<longleftrightarrow> s < last" "last + n \<le> s \<longleftrightarrow> last < s"
    if "map_has bm ts s" for s
  proof -
    have "n dvd last - s" "n dvd s - last"
      using that n(2) by (auto simp: map_has_def n_def)
    then show "s \<le> last - n \<longleftrightarrow> s < last" "last + n \<le> s \<longleftrightarrow> last < s"
      using n(1) zdvd_imp_le [of n "last - s"] zdvd_imp_le [of n "s - last"] by auto
  qed
  obtain p where p: "next_initialized_tick_array_start_index bm last ts z = Ok p"
    "if next < - (512 * n) \<or> 512 * n \<le> next then p = (False, last)
     else if z then nearest_below (map_has bm ts) next (- (512 * n)) p
     else nearest_above (map_has bm ts) next (512 * n - n) p"
    using search_default_map [OF assms(1) ts assms(4), of z] unfolding n_def next_def by blast
  obtain found s where fs: "p = (found, s)"
    by (cases p)
  note r = p(1) [unfolded fs] and case' = p(2) [unfolded fs]
  have "if next < - 512 * n \<or> 512 * n \<le> next then \<not> found \<and> s = last
     else if z then
       (if found then map_has bm ts s \<and> s < last \<and> (\<forall>s'. map_has bm ts s' \<and> s' < last \<longrightarrow> s' \<le> s)
        else s = - 512 * n \<and> (\<forall>s'. map_has bm ts s' \<longrightarrow> last \<le> s'))
     else
       (if found then map_has bm ts s \<and> last < s \<and> (\<forall>s'. map_has bm ts s' \<and> last < s' \<longrightarrow> s \<le> s')
        else s = 511 * n \<and> (\<forall>s'. map_has bm ts s' \<longrightarrow> s' \<le> last))"
  proof (cases "next < - (512 * n) \<or> 512 * n \<le> next")
    case True
    with case' show ?thesis by simp
  next
    case inside: False
    show ?thesis
    proof (cases z)
      case True
      then have "nearest_below (map_has bm ts) (last - n) (- (512 * n)) (found, s)"
        using case' inside by (simp add: next_def)
      then have "if found then map_has bm ts s \<and> s < last \<and> (\<forall>s'. map_has bm ts s' \<and> s' < last \<longrightarrow> s' \<le> s)
        else s = - 512 * n \<and> (\<forall>s'. map_has bm ts s' \<longrightarrow> last \<le> s')"
        unfolding nearest_below_def prod.case using step(1) by (cases found) (auto, metis not_le)
      with True inside show ?thesis by simp
    next
      case False
      then have "nearest_above (map_has bm ts) (last + n) (512 * n - n) (found, s)"
        using case' inside by (simp add: next_def)
      then have "if found then map_has bm ts s \<and> last < s \<and> (\<forall>s'. map_has bm ts s' \<and> last < s' \<longrightarrow> s \<le> s')
        else s = 511 * n \<and> (\<forall>s'. map_has bm ts s' \<longrightarrow> s' \<le> last)"
        unfolding nearest_above_def prod.case using step(2) by (cases found) (auto, metis not_le)
      with False inside show ?thesis by simp
    qed
  qed
  with r show ?thesis by blast
qed


text \<open>The full map of the source's tests.\<close>

lemma full_map_wf: "wf_bit_map (bn_max_value 16)"
  by (simp add: wf_bit_map_def bn_words_def bn_max_value_def)

theorem next_tick_array_in_default_map_nearest_witness:
  "\<exists>s. next_initialized_tick_array_start_index (bn_max_value 16) 306600 10 False = Ok (False, s) \<and> s = 306600"
proof -
  have "array_start MIN_TICK 10 \<le> MIN_TICK"
    by (intro array_start_bounds) (simp add: spacing_ok_def)
  then have "valid_start 306600 10"
    by (simp add: valid_start_def tick_count_eq MIN_TICK_def MAX_TICK_def)
  from next_tick_array_in_default_map_nearest [OF full_map_wf _ _ this, of False]
  show ?thesis
    by (auto simp: tick_count_eq)
qed

text \<open>
  \<open>check_current_tick_array_is_initialized\<close> answers, for a tick in the range of the
  default map, the start of the array that holds the tick and whether that array is marked;
  a tick outside the valid range is refused.
\<close>

theorem check_current_tick_array_correct:
  assumes "wf_bit_map bm" "0 < ts" "ts < 2 ^ 16"
  shows "if t < MIN_TICK \<or> MAX_TICK < t then
      check_current_tick_array_is_initialized bm t ts = Err (Code InvaildTickIndex)
    else \<exists>s. get_array_start_index t ts = Ok s \<and>
      (- max_tick_in_tickarray_bitmap ts \<le> t \<and> t < max_tick_in_tickarray_bitmap ts \<longrightarrow>
       check_current_tick_array_is_initialized bm t ts =
         Ok (bn_test bm (nat (s div tick_count ts + 512)), s))"
proof -
  have ts: "spacing_ok ts"
    using assms by (simp add: spacing_ok_def)
  show ?thesis
  proof (cases "t < MIN_TICK \<or> MAX_TICK < t")
    case True
    then show ?thesis
      by (auto simp: check_current_tick_array_is_initialized_def check_is_out_of_boundary_def)
  next
    case False
    then have t: "MIN_TICK \<le> t" "t \<le> MAX_TICK" by auto
    have "map_has bm ts (array_start t ts) = bn_test bm (nat (array_start t ts div tick_count ts + 512))"
      if "- max_tick_in_tickarray_bitmap ts \<le> t" "t < max_tick_in_tickarray_bitmap ts"
    proof -
      have "tick_count ts dvd - max_tick_in_tickarray_bitmap ts"
        by (simp add: max_tick_eq)
      then have "array_start (- max_tick_in_tickarray_bitmap ts) ts = - max_tick_in_tickarray_bitmap ts"
        by (rule array_start_self [OF ts])
      then have "- max_tick_in_tickarray_bitmap ts \<le> array_start t ts"
        using array_start_mono [OF ts that(1)] by simp
      moreover have "array_start t ts < max_tick_in_tickarray_bitmap ts"
        using array_start_bounds(1) [OF ts, of t] that(2) by simp
      ultimately show ?thesis
        using array_start_bounds(3) [OF ts, of t] by (simp add: map_has_def)
    qed
    then show ?thesis
      using False t check_current_eq [OF assms(1) ts t]
        get_array_start_index_eq [OF moderate_tick [OF t] ts] by auto
  qed
qed

theorem check_current_tick_array_correct_witness:
  "check_current_tick_array_is_initialized (bn_max_value 16) 443637 10 = Err (Code InvaildTickIndex)"
  using check_current_tick_array_correct [OF full_map_wf, of 10 443637]
  by (simp add: MAX_TICK_def MIN_TICK_def)

end
