(* ===== verification/Bitmap_Extension.thy ===== *)
theory Bitmap_Extension
  imports Bit_Map
begin

text \<open>
  \<open>states/tickarray_bitmap_extension.rs\<close>: fourteen further 512-bit maps on each side of the
  default map.  The lemmas identify the map and the bit of every start index, show that a
  flip changes that array and no other, and that a search inside one map finds the nearest
  array in use.
\<close>

section \<open>The code\<close>

definition EXTENSION_TICKARRAY_BITMAP_SIZE :: usize where
  "EXTENSION_TICKARRAY_BITMAP_SIZE = 14"

record bitmap_extension =
  be_pool_id :: pubkey
  be_positive_tick_array_bitmap :: "bignum list"
  be_negative_tick_array_bitmap :: "bignum list"

definition default_bitmap_extension :: bitmap_extension where
  "default_bitmap_extension =
     \<lparr>be_pool_id = default_pubkey,
      be_positive_tick_array_bitmap = replicate EXTENSION_TICKARRAY_BITMAP_SIZE (replicate 8 0),
      be_negative_tick_array_bitmap = replicate EXTENSION_TICKARRAY_BITMAP_SIZE (replicate 8 0)\<rparr>"

definition bitmap_extension_initialize :: "bitmap_extension \<Rightarrow> pubkey \<Rightarrow> bitmap_extension" where
  "bitmap_extension_initialize self pool_id =
     self\<lparr>be_pool_id := pool_id,
       be_positive_tick_array_bitmap := replicate EXTENSION_TICKARRAY_BITMAP_SIZE (replicate 8 0),
       be_negative_tick_array_bitmap := replicate EXTENSION_TICKARRAY_BITMAP_SIZE (replicate 8 0)\<rparr>"

definition check_extension_boundary :: "i32 \<Rightarrow> u16 \<Rightarrow> unit res" where
  "check_extension_boundary tick_index tick_spacing =
     (let positive_tick_boundary = max_tick_in_tickarray_bitmap tick_spacing;
          negative_tick_boundary = - positive_tick_boundary in
      rbind (require (MAX_TICK > positive_tick_boundary) RequireGtViolated) (\<lambda>_.
      rbind (require (negative_tick_boundary > MIN_TICK) RequireGtViolated) (\<lambda>_.
      if tick_index \<ge> negative_tick_boundary \<and> tick_index < positive_tick_boundary
      then Err (Code InvalidTickArrayBoundary) else Ok ())))"

definition get_bitmap_offset :: "i32 \<Rightarrow> u16 \<Rightarrow> usize res" where
  "get_bitmap_offset tick_index tick_spacing =
     rbind (check_is_valid_start_index tick_index tick_spacing) (\<lambda>valid.
     rbind (require valid (Code InvaildTickIndex)) (\<lambda>_.
     rbind (check_extension_boundary tick_index tick_spacing) (\<lambda>_.
     let ticks_in_one_bitmap = max_tick_in_tickarray_bitmap tick_spacing in
     rbind (chk_i 32 \<bar>tick_index\<bar>) (\<lambda>a.
     rbind (i_div 32 a ticks_in_one_bitmap) (\<lambda>q.
     rbind (chk_i 32 (q - 1)) (\<lambda>offset.
     rbind (if tick_index < 0 then
              rbind (i_rem a ticks_in_one_bitmap) (\<lambda>r.
              if r = 0 then chk_i 32 (offset - 1) else Ok offset)
            else Ok offset) (\<lambda>offset.
     Ok (nat (offset mod 2 ^ 64)))))))))"

definition get_bitmap :: "bitmap_extension \<Rightarrow> i32 \<Rightarrow> u16 \<Rightarrow> (usize \<times> bignum) res" where
  "get_bitmap self tick_index tick_spacing =
     rbind (get_bitmap_offset tick_index tick_spacing) (\<lambda>offset.
     let bitmaps = (if tick_index < 0 then be_negative_tick_array_bitmap self
                    else be_positive_tick_array_bitmap self) in
     if offset < length bitmaps then Ok (offset, bitmaps ! offset) else Panic)"

definition tick_array_offset_in_bitmap :: "i32 \<Rightarrow> u16 \<Rightarrow> i32 res" where
  "tick_array_offset_in_bitmap tick_array_start_index tick_spacing =
     rbind (chk_i 32 \<bar>tick_array_start_index\<bar>) (\<lambda>a.
     rbind (i_rem a (max_tick_in_tickarray_bitmap tick_spacing)) (\<lambda>m.
     rbind (i_div 32 m (tick_count tick_spacing)) (\<lambda>offset.
     if tick_array_start_index < 0 \<and> m \<noteq> 0 then chk_i 32 (TICK_ARRAY_BITMAP_SIZE - offset)
     else Ok offset)))"

definition check_tick_array_is_initialized ::
  "bitmap_extension \<Rightarrow> i32 \<Rightarrow> u16 \<Rightarrow> (bool \<times> i32) res" where
  "check_tick_array_is_initialized self tick_array_start_index tick_spacing =
     rbind (get_bitmap self tick_array_start_index tick_spacing) (\<lambda>(_, tickarray_bitmap).
     rbind (tick_array_offset_in_bitmap tick_array_start_index tick_spacing) (\<lambda>offset.
     rbind (bn_bit tickarray_bitmap (nat (offset mod 2 ^ 64))) (\<lambda>b.
     if b then Ok (True, tick_array_start_index) else Ok (False, tick_array_start_index))))"

definition extension_flip_tick_array_bit :: "bitmap_extension \<Rightarrow> i32 \<Rightarrow> u16 \<Rightarrow> bitmap_extension res" where
  "extension_flip_tick_array_bit self tick_array_start_index tick_spacing =
     rbind (get_bitmap self tick_array_start_index tick_spacing) (\<lambda>(offset, tick_array_bitmap).
     rbind (tick_array_offset_in_bitmap tick_array_start_index tick_spacing) (\<lambda>off.
     rbind (unwrap_usize off) (\<lambda>shift.
     let mask = bn_shl (bn_one 8) shift;
         flipped = bn_xor tick_array_bitmap mask in
     if tick_array_start_index < 0 then
       Ok (self\<lparr>be_negative_tick_array_bitmap := (be_negative_tick_array_bitmap self)[offset := flipped]\<rparr>)
     else
       Ok (self\<lparr>be_positive_tick_array_bitmap := (be_positive_tick_array_bitmap self)[offset := flipped]\<rparr>))))"

definition next_initialized_tick_array_in_bitmap :: "bignum \<Rightarrow> i32 \<Rightarrow> u16 \<Rightarrow> bool \<Rightarrow> (bool \<times> i32) res" where
  "next_initialized_tick_array_in_bitmap tickarray_bitmap next_tick_array_start_index tick_spacing
      zero_for_one =
     rbind (get_bitmap_tick_boundary next_tick_array_start_index tick_spacing)
       (\<lambda>(bitmap_min_tick_boundary, bitmap_max_tick_boundary).
     rbind (tick_array_offset_in_bitmap next_tick_array_start_index tick_spacing) (\<lambda>offset.
     if zero_for_one then
       rbind (unwrap_usize (TICK_ARRAY_BITMAP_SIZE - 1 - offset)) (\<lambda>shift.
       let offset_bit_map = bn_shl tickarray_bitmap shift;
           next_bit = (if bn_is_zero offset_bit_map then None else Some (bn_leading_zeros offset_bit_map)) in
       case next_bit of
         Some b \<Rightarrow>
           rbind (chk_i 32 (int b * tick_count tick_spacing)) (\<lambda>d.
           rbind (chk_i 32 (next_tick_array_start_index - d)) (\<lambda>start. Ok (True, start)))
       | None \<Rightarrow> Ok (False, bitmap_min_tick_boundary))
     else
       rbind (unwrap_usize offset) (\<lambda>shift.
       let offset_bit_map = bn_shr tickarray_bitmap shift;
           next_bit = (if bn_is_zero offset_bit_map then None else Some (bn_trailing_zeros offset_bit_map)) in
       case next_bit of
         Some b \<Rightarrow>
           rbind (chk_i 32 (int b * tick_count tick_spacing)) (\<lambda>d.
           rbind (chk_i 32 (next_tick_array_start_index + d)) (\<lambda>start. Ok (True, start)))
       | None \<Rightarrow>
           rbind (chk_i 32 (bitmap_max_tick_boundary - tick_count tick_spacing)) (\<lambda>edge.
           Ok (False, edge)))))"

definition next_initialized_tick_array_from_one_bitmap ::
  "bitmap_extension \<Rightarrow> i32 \<Rightarrow> u16 \<Rightarrow> bool \<Rightarrow> (bool \<times> i32) res" where
  "next_initialized_tick_array_from_one_bitmap self last_tick_array_start_index tick_spacing zero_for_one =
     (let multiplier = tick_count tick_spacing in
      rbind (chk_i 32 (if zero_for_one then last_tick_array_start_index - multiplier
                       else last_tick_array_start_index + multiplier)) (\<lambda>next_tick_array_start_index.
      rbind (get_array_start_index MIN_TICK tick_spacing) (\<lambda>min_tick_array_start_index.
      rbind (get_array_start_index MAX_TICK tick_spacing) (\<lambda>max_tick_array_start_index.
      if next_tick_array_start_index < min_tick_array_start_index
         \<or> next_tick_array_start_index > max_tick_array_start_index
      then Ok (False, next_tick_array_start_index)
      else
        rbind (get_bitmap self next_tick_array_start_index tick_spacing) (\<lambda>(_, tickarray_bitmap).
        next_initialized_tick_array_in_bitmap tickarray_bitmap next_tick_array_start_index
          tick_spacing zero_for_one)))))"

section \<open>The map and the bit of a start index\<close>

text \<open>The spacings for which there is anything beyond the default map.\<close>

definition extended :: "nat \<Rightarrow> bool" where
  "extended ts \<longleftrightarrow> 0 < ts \<and> max_tick_in_tickarray_bitmap ts < MAX_TICK"

definition wf_extension :: "bitmap_extension \<Rightarrow> bool" where
  "wf_extension ext \<longleftrightarrow>
     length (be_positive_tick_array_bitmap ext) = 14 \<and> length (be_negative_tick_array_bitmap ext) = 14
     \<and> (\<forall>bm \<in> set (be_positive_tick_array_bitmap ext) \<union> set (be_negative_tick_array_bitmap ext).
          length bm = 8 \<and> bn_words bm)"

definition outside_default :: "nat \<Rightarrow> int \<Rightarrow> bool" where
  "outside_default ts s \<longleftrightarrow> s < - max_tick_in_tickarray_bitmap ts \<or> max_tick_in_tickarray_bitmap ts \<le> s"

text \<open>The number of the map on its side, the map, and the bit in it.\<close>

definition map_number :: "nat \<Rightarrow> int \<Rightarrow> nat" where
  "map_number ts s =
     (let q = s div max_tick_in_tickarray_bitmap ts in if s < 0 then nat (- q - 2) else nat (q - 1))"

definition map_of_start :: "bitmap_extension \<Rightarrow> nat \<Rightarrow> int \<Rightarrow> bignum" where
  "map_of_start ext ts s =
     (if s < 0 then be_negative_tick_array_bitmap ext else be_positive_tick_array_bitmap ext)
       ! map_number ts s"

definition bit_of_start :: "nat \<Rightarrow> int \<Rightarrow> nat" where
  "bit_of_start ts s = nat (s mod max_tick_in_tickarray_bitmap ts div tick_count ts)"

text \<open>The array that starts at \<open>s\<close> is marked in the extension.\<close>

definition extension_has :: "bitmap_extension \<Rightarrow> nat \<Rightarrow> int \<Rightarrow> bool" where
  "extension_has ext ts s \<longleftrightarrow> tick_count ts dvd s \<and> outside_default ts s \<and> map_number ts s < 14
     \<and> bn_test (map_of_start ext ts s) (bit_of_start ts s)"

lemma extended_bounds:
  assumes "extended ts"
  defines "B \<equiv> max_tick_in_tickarray_bitmap ts"
  shows "spacing_ok ts" "30720 \<le> B" "B < 443636" "B = 512 * tick_count ts" "60 \<le> tick_count ts"
    "ts \<le> 14"
proof -
  have B: "B = 30720 * int ts"
    by (simp add: B_def max_tick_eq tick_count_eq)
  have ts: "0 < ts" "30720 * int ts < 443636"
    using assms(1) B by (auto simp: extended_def B_def MAX_TICK_def MIN_TICK_def)
  then show "spacing_ok ts" "30720 \<le> B" "B < 443636" "ts \<le> 14" "60 \<le> tick_count ts"
    by (auto simp: spacing_ok_def B tick_count_eq)
  show "B = 512 * tick_count ts"
    by (simp add: B_def max_tick_eq)
qed

lemma valid_start_bounds:
  assumes "spacing_ok ts" "valid_start s ts"
  shows "MIN_TICK - tick_count ts < s" "s \<le> MAX_TICK" "tick_count ts dvd s"
  using assms array_start_bounds(2) [OF assms(1), of MIN_TICK] by (auto simp: valid_start_def)

text \<open>Division of a magnitude, for negative values.\<close>

lemma abs_div_neg: "(s::int) < 0 \<Longrightarrow> 0 < B \<Longrightarrow> \<bar>s\<bar> div B = (if B dvd s then - (s div B) else - (s div B) - 1)"
  using zdiv_zminus1_eq_if [of B s] by (auto simp: dvd_eq_mod_eq_0)

lemma abs_mod_neg: "(s::int) < 0 \<Longrightarrow> 0 < B \<Longrightarrow> \<bar>s\<bar> mod B = (if B dvd s then 0 else B - s mod B)"
  using zmod_zminus1_eq_if [of s B] by (auto simp: dvd_eq_mod_eq_0)

lemma map_number_bounds:
  assumes ts: "extended ts" and s: "valid_start s ts" "outside_default ts s"
  defines "q \<equiv> s div max_tick_in_tickarray_bitmap ts"
  shows "s < 0 \<Longrightarrow> - 15 \<le> q \<and> q \<le> - 2" "0 \<le> s \<Longrightarrow> 1 \<le> q \<and> q \<le> 14"
proof -
  define B where "B = max_tick_in_tickarray_bitmap ts"
  note b = extended_bounds [OF ts, folded B_def]
  note v = valid_start_bounds [OF b(1) s(1)]
  have n: "tick_count ts \<le> 840"
    using b(6) by (simp add: tick_count_eq)
  have s': "- 15 * B \<le> s" "s < 15 * B"
    using v n b(2) by (auto simp: MIN_TICK_def MAX_TICK_def)
  have B: "0 < B" using b(2) by simp
  have eq: "s = q * B + s mod B" "0 \<le> s mod B" "s mod B < B"
    using B by (simp_all add: q_def B_def [symmetric])
  show "- 15 \<le> q \<and> q \<le> - 2" if "s < 0"
  proof
    show "- 15 \<le> q"
    proof (rule ccontr)
      assume "\<not> - 15 \<le> q"
      then have "q * B \<le> - 16 * B" using B by (intro mult_right_mono) auto
      with eq s' show False by linarith
    qed
    show "q \<le> - 2"
    proof (rule ccontr)
      assume "\<not> q \<le> - 2"
      then have "- 1 * B \<le> q * B" using B by (intro mult_right_mono) auto
      moreover have "s < - B"
        using s(2) that B by (auto simp: outside_default_def B_def [symmetric])
      ultimately show False using eq by linarith
    qed
  qed
  show "1 \<le> q \<and> q \<le> 14" if "0 \<le> s"
  proof
    show "q \<le> 14"
    proof (rule ccontr)
      assume "\<not> q \<le> 14"
      then have "15 * B \<le> q * B" using B by (intro mult_right_mono) auto
      with eq s' show False by linarith
    qed
    show "1 \<le> q"
    proof (rule ccontr)
      assume "\<not> 1 \<le> q"
      then have "q * B \<le> 0 * B" using B by (intro mult_right_mono) auto
      moreover have "B \<le> s"
        using s(2) that B by (auto simp: outside_default_def B_def [symmetric])
      ultimately show False using eq by linarith
    qed
  qed
qed

lemma check_extension_boundary_eq:
  assumes "extended ts"
  shows "check_extension_boundary s ts =
    (if outside_default ts s then Ok () else Err (Code InvalidTickArrayBoundary))"
  using extended_bounds [OF assms]
  by (auto simp: check_extension_boundary_def outside_default_def Let_def MIN_TICK_def MAX_TICK_def)

lemma get_bitmap_offset_eq:
  assumes ts: "extended ts"
  shows "get_bitmap_offset s ts =
    (if \<not> valid_start s ts then Err (Code InvaildTickIndex)
     else if \<not> outside_default ts s then Err (Code InvalidTickArrayBoundary)
     else Ok (map_number ts s))"
proof (cases "valid_start s ts \<and> outside_default ts s")
  case True
  define B q where "B = max_tick_in_tickarray_bitmap ts" and "q = s div B"
  note b = extended_bounds [OF ts, folded B_def]
  note v = valid_start_bounds [OF b(1)] 
  have n: "tick_count ts \<le> 840"
    using b(6) by (simp add: tick_count_eq)
  have B: "0 < B" using b(2) by simp
  have qb: "s < 0 \<Longrightarrow> - 15 \<le> q \<and> q \<le> - 2" "0 \<le> s \<Longrightarrow> 1 \<le> q \<and> q \<le> 14"
    using map_number_bounds [OF ts, of s] True by (simp_all add: q_def B_def)
  have a: "chk_i 32 \<bar>s\<bar> = Ok \<bar>s\<bar>"
    using v [of s] True n by (intro chk_i32_Ok) (auto simp: MIN_TICK_def MAX_TICK_def)
  have d: "\<bar>s\<bar> div B = (if s < 0 \<and> \<not> B dvd s then - q - 1 else if s < 0 then - q else q)"
    using abs_div_neg [of s B] B by (simp add: q_def)
  have div: "i_div 32 \<bar>s\<bar> B = Ok (\<bar>s\<bar> div B)" and rem: "i_rem \<bar>s\<bar> B = Ok (\<bar>s\<bar> smod B)"
    using qb d B by (auto simp: i_div_def i_rem_def sdiv_nonneg intro!: chk_i32_Ok)
  have fits: "chk_i 32 (\<bar>s\<bar> div B - 1) = Ok (\<bar>s\<bar> div B - 1)"
    "chk_i 32 (\<bar>s\<bar> div B - 1 - 1) = Ok (\<bar>s\<bar> div B - 1 - 1)"
    using qb d by (auto intro!: chk_i32_Ok)
  have chain: "(if s < 0 then if \<bar>s\<bar> smod B = 0 then Ok (\<bar>s\<bar> div B - 1 - 1) else Ok (\<bar>s\<bar> div B - 1)
      else Ok (\<bar>s\<bar> div B - 1)) = Ok (if s < 0 then - q - 2 else q - 1)"
    using d by (auto simp: smod_eq_0_iff)
  have "0 \<le> (if s < 0 then - q - 2 else q - 1)" "(if s < 0 then - q - 2 else q - 1) \<le> 13"
    using qb by auto
  then have "nat ((if s < 0 then - q - 2 else q - 1) mod 2 ^ 64) = map_number ts s"
    by (auto simp: map_number_def B_def [symmetric] q_def [symmetric] Let_def)
  then show ?thesis
    using True
    unfolding get_bitmap_offset_def check_is_valid_start_index_eq [OF b(1)]
      check_extension_boundary_eq [OF ts] Let_def B_def [symmetric] a rbind.simps div rem fits chain
    by simp
next
  case False
  then show ?thesis
    by (auto simp: get_bitmap_offset_def check_is_valid_start_index_eq [OF extended_bounds(1) [OF ts]]
        check_extension_boundary_eq [OF ts])
qed

lemma map_number_less:
  assumes "extended ts" "valid_start s ts" "outside_default ts s"
  shows "map_number ts s < 14"
  using map_number_bounds [OF assms] by (cases "s < 0") (auto simp: map_number_def Let_def)

lemma get_bitmap_eq:
  assumes "extended ts" "wf_extension ext"
  shows "get_bitmap ext s ts =
    (if \<not> valid_start s ts then Err (Code InvaildTickIndex)
     else if \<not> outside_default ts s then Err (Code InvalidTickArrayBoundary)
     else Ok (map_number ts s, map_of_start ext ts s))"
  using map_number_less [OF assms(1), of s] assms(2)
  by (auto simp: get_bitmap_def get_bitmap_offset_eq [OF assms(1)] wf_extension_def Let_def map_of_start_def)

text \<open>A start index is its map's first tick plus its bit times the width.\<close>

lemma bit_of_start:
  assumes ts: "extended ts" and s: "tick_count ts dvd s"
  defines "B \<equiv> max_tick_in_tickarray_bitmap ts" and "n \<equiv> tick_count ts"
  shows "s = s div B * B + int (bit_of_start ts s) * n" "bit_of_start ts s < 512"
proof -
  note b = extended_bounds [OF ts, folded B_def n_def]
  have pos: "0 < B" "0 < n" using b by auto
  have "n dvd s mod B"
    using s b(4) by (simp add: dvd_mod n_def)
  then obtain i where i: "s mod B = n * i" by (auto simp: dvd_def)
  have "0 \<le> n * i" "n * i < n * 512"
    using pos_mod_sign [OF pos(1), of s] pos_mod_bound [OF pos(1), of s] i b(4) by linarith+
  then have ib: "0 \<le> i" "i < 512"
    using pos by (simp_all add: zero_le_mult_iff)
  have bit: "int (bit_of_start ts s) = i"
    using pos ib i by (simp add: bit_of_start_def B_def [symmetric] n_def [symmetric])
  show "s = s div B * B + int (bit_of_start ts s) * n"
    using div_mult_mod_eq [of s B] i by (simp add: bit mult.commute)
  show "bit_of_start ts s < 512"
    using ib bit by linarith
qed

lemma tick_array_offset_in_bitmap_eq:
  assumes ts: "extended ts" and s: "moderate s" "tick_count ts dvd s"
  shows "tick_array_offset_in_bitmap s ts = Ok (int (bit_of_start ts s))"
proof -
  define B n where "B = max_tick_in_tickarray_bitmap ts" and "n = tick_count ts"
  note b = extended_bounds [OF ts, folded B_def n_def]
  have pos: "0 < B" "0 < n" using b by auto
  define i where "i = int (bit_of_start ts s)"
  have i: "s mod B = i * n" "0 \<le> i" "i < 512"
  proof -
    have "s div B * B + s mod B = s div B * B + i * n"
      using bit_of_start(1) [OF ts s(2)] div_mult_mod_eq [of s B] by (simp add: B_def n_def i_def)
    then show "s mod B = i * n" by linarith
    show "0 \<le> i" "i < 512"
      using bit_of_start(2) [OF ts s(2)] by (auto simp: i_def)
  qed
  have a: "chk_i 32 \<bar>s\<bar> = Ok \<bar>s\<bar>"
    using s(1) by (intro chk_i32_Ok) (auto simp: moderate_def)
  have rem: "i_rem \<bar>s\<bar> B = Ok (\<bar>s\<bar> mod B)"
    using pos by (simp add: i_rem_def signed_modulo_int_def sgn_if)
  define m where "m = \<bar>s\<bar> mod B"
  have m: "m = (if s < 0 \<and> i \<noteq> 0 then (512 - i) * n else i * n)"
  proof (cases "s < 0")
    case True
    have "B dvd s \<longleftrightarrow> i = 0"
      using i pos by (auto simp: dvd_eq_mod_eq_0)
    with True show ?thesis
      using abs_mod_neg [OF True pos(1)] i b(4) by (auto simp: m_def algebra_simps)
  next
    case False
    with i show ?thesis by (simp add: m_def)
  qed
  have m0: "m \<noteq> 0 \<longleftrightarrow> i \<noteq> 0" "0 \<le> m"
    using m i pos by auto
  have div: "i_div 32 m n = Ok (if s < 0 \<and> i \<noteq> 0 then 512 - i else i)"
    using m m0 i pos by (auto simp: i_div_def sdiv_nonneg intro!: chk_i32_Ok)
  have "chk_i 32 (512 - (512 - i)) = Ok i"
    using i by simp
  then show ?thesis
    unfolding tick_array_offset_in_bitmap_def a rbind.simps B_def [symmetric] rem m_def [symmetric]
      n_def [symmetric] div i_def [symmetric]
    using m0 by (auto simp: TICK_ARRAY_BITMAP_SIZE_def)
qed

lemma valid_start_moderate: "extended ts \<Longrightarrow> valid_start s ts \<Longrightarrow> moderate s"
  using valid_start_bounds [of ts s] extended_bounds [of ts]
  by (auto simp: moderate_def MIN_TICK_def MAX_TICK_def tick_count_eq)

lemma map_of_start_wf:
  assumes "wf_extension ext" "map_number ts s < 14"
  shows "length (map_of_start ext ts s) = 8" "bn_words (map_of_start ext ts s)"
  using assms nth_mem [of "map_number ts s" "be_positive_tick_array_bitmap ext"]
    nth_mem [of "map_number ts s" "be_negative_tick_array_bitmap ext"]
  by (auto simp: wf_extension_def map_of_start_def)

lemma check_tick_array_is_initialized_eq:
  assumes "extended ts" "wf_extension ext" "valid_start s ts" "outside_default ts s"
  shows "check_tick_array_is_initialized ext s ts = Ok (extension_has ext ts s, s)"
proof -
  note b = extended_bounds [OF assms(1)]
  have num: "map_number ts s < 14"
    using assms by (intro map_number_less)
  have dvd: "tick_count ts dvd s"
    using valid_start_bounds [OF b(1) assms(3)] by simp
  note bit = bit_of_start(2) [OF assms(1) dvd]
  have "nat (int (bit_of_start ts s) mod 2 ^ 64) = bit_of_start ts s"
    using bit by simp
  moreover have "bn_bit (map_of_start ext ts s) (bit_of_start ts s) =
      Ok (bn_test (map_of_start ext ts s) (bit_of_start ts s))"
    using bit map_of_start_wf [OF assms(2) num] by (intro bn_bit_eq) simp
  ultimately show ?thesis
    using assms dvd num
    by (simp add: check_tick_array_is_initialized_def get_bitmap_eq extension_has_def
        tick_array_offset_in_bitmap_eq valid_start_moderate cong del: rbind_weak_cong)
qed

text \<open>Distinct start indexes have distinct bits.\<close>

lemma start_unique:
  assumes ts: "extended ts"
    and s: "tick_count ts dvd s" "outside_default ts s" and s': "tick_count ts dvd s'" "outside_default ts s'"
    and eq: "s < 0 \<longleftrightarrow> s' < 0" "map_number ts s = map_number ts s'" "bit_of_start ts s = bit_of_start ts s'"
  shows "s = s'"
proof -
  define B where "B = max_tick_in_tickarray_bitmap ts"
  note b = extended_bounds [OF ts, folded B_def]
  have B: "0 < B" using b by simp
  have q: "x div B \<le> - 2" if "x < 0" "outside_default ts x" for x
  proof (rule ccontr)
    assume "\<not> x div B \<le> - 2"
    then have "- 1 * B \<le> x div B * B" using B by (intro mult_right_mono) auto
    moreover have "x < - B"
      using that B by (auto simp: outside_default_def B_def [symmetric])
    ultimately show False
      using div_mult_mod_eq [of x B] pos_mod_sign [OF B, of x] by linarith
  qed
  have q': "1 \<le> x div B" if "\<not> x < 0" "outside_default ts x" for x
  proof (rule ccontr)
    assume "\<not> 1 \<le> x div B"
    then have "x div B * B \<le> 0 * B" using B by (intro mult_right_mono) auto
    moreover have "B \<le> x"
      using that B by (auto simp: outside_default_def B_def [symmetric])
    ultimately show False
      using div_mult_mod_eq [of x B] pos_mod_bound [OF B, of x] by linarith
  qed
  have "s div B = s' div B"
    using eq(1,2) q [of s] q [of s'] q' [of s] q' [of s'] s(2) s'(2)
    by (cases "s < 0") (auto simp: map_number_def Let_def B_def [symmetric])
  then show ?thesis
    using bit_of_start(1) [OF ts s(1), folded B_def] bit_of_start(1) [OF ts s'(1), folded B_def] eq(3)
    by simp
qed

lemma extension_flip_correct:
  assumes ts: "extended ts" and wf: "wf_extension ext" and s: "valid_start s ts" "outside_default ts s"
  shows "\<exists>ext'. extension_flip_tick_array_bit ext s ts = Ok ext' \<and> wf_extension ext'
    \<and> be_pool_id ext' = be_pool_id ext
    \<and> (\<forall>s'. extension_has ext' ts s' \<longleftrightarrow> (if s' = s then \<not> extension_has ext ts s' else extension_has ext ts s'))"
proof -
  define k i bm where "k = map_number ts s" and "i = bit_of_start ts s" and "bm = map_of_start ext ts s"
  define bm' where "bm' = bn_xor bm (bn_shl (bn_one 8) i)"
  define ext' where "ext' = (if s < 0 then
      ext\<lparr>be_negative_tick_array_bitmap := (be_negative_tick_array_bitmap ext)[k := bm']\<rparr>
    else ext\<lparr>be_positive_tick_array_bitmap := (be_positive_tick_array_bitmap ext)[k := bm']\<rparr>)"
  note b = extended_bounds [OF ts]
  have dvd: "tick_count ts dvd s"
    using valid_start_bounds [OF b(1) s(1)] by simp
  have k: "k < 14"
    using map_number_less [OF ts s] by (simp add: k_def)
  have i: "i < 512"
    using bit_of_start(2) [OF ts dvd] by (simp add: i_def)
  have bm: "length bm = 8" "bn_words bm"
    using map_of_start_wf [OF wf] k by (simp_all add: bm_def k_def)
  have bm': "length bm' = 8" "bn_words bm'"
    "\<And>j. bn_test bm' j \<longleftrightarrow> (if j = i then \<not> bn_test bm j else bn_test bm j)"
    using bm i bn_test_flip [of bm 8 i]
    by (auto simp: bm'_def intro!: bn_words_xor bn_words_shl bn_words_one)
  have "extension_flip_tick_array_bit ext s ts = Ok ext'"
    using ts wf s i
    by (simp add: extension_flip_tick_array_bit_def get_bitmap_eq tick_array_offset_in_bitmap_eq
        valid_start_moderate dvd unwrap_usize_def ext'_def k_def [symmetric] i_def [symmetric]
        bm_def [symmetric] bm'_def [symmetric] cong del: rbind_weak_cong)
  moreover have "wf_extension ext'"
    using wf bm' by (auto simp: wf_extension_def ext'_def dest: set_update_subset_insert [THEN subsetD])
  moreover have "extension_has ext' ts s' \<longleftrightarrow> (if s' = s then \<not> extension_has ext ts s' else extension_has ext ts s')"
    for s'
  proof (cases "tick_count ts dvd s' \<and> outside_default ts s' \<and> map_number ts s' < 14")
    case True
    have lens: "k < length (be_negative_tick_array_bitmap ext)" "k < length (be_positive_tick_array_bitmap ext)"
      using wf k by (simp_all add: wf_extension_def)
    have map': "map_of_start ext' ts s' = (if (s' < 0 \<longleftrightarrow> s < 0) \<and> map_number ts s' = k then bm'
        else map_of_start ext ts s')"
      using lens True by (auto simp: map_of_start_def ext'_def nth_list_update)
    show ?thesis
    proof (cases "(s' < 0 \<longleftrightarrow> s < 0) \<and> map_number ts s' = k")
      case same: True
      then have "map_of_start ext ts s' = bm"
        by (auto simp: map_of_start_def bm_def k_def)
      moreover have "bit_of_start ts s' = i \<longleftrightarrow> s' = s"
        using start_unique [OF ts, of s' s] True same dvd s(2) by (auto simp: k_def i_def)
      ultimately show ?thesis
        using True same map' bm'(3) by (auto simp: extension_has_def)
    next
      case False
      then have "s' \<noteq> s" by (auto simp: k_def)
      with False True map' show ?thesis by (auto simp: extension_has_def)
    qed
  next
    case False
    moreover have "s' \<noteq> s"
      using False dvd s(2) k by (auto simp: k_def)
    ultimately show ?thesis by (auto simp: extension_has_def)
  qed
  moreover have "be_pool_id ext' = be_pool_id ext"
    by (simp add: ext'_def)
  ultimately show ?thesis by blast
qed

section \<open>The search inside one map\<close>

lemma le_div_int_iff:
  assumes "0 < (B::int)"
  shows "k \<le> s div B \<longleftrightarrow> k * B \<le> s"
proof
  assume "k \<le> s div B"
  then have "k * B \<le> s div B * B"
    using assms by (intro mult_right_mono) auto
  then show "k * B \<le> s"
    using div_mult_mod_eq [of s B] pos_mod_sign [OF assms, of s] by linarith
next
  assume "k * B \<le> s"
  then have "k * B div B \<le> s div B"
    using assms by (rule zdiv_mono1)
  then show "k \<le> s div B"
    using assms by simp
qed

lemma outside_default_iff:
  assumes "extended ts"
  shows "outside_default ts s \<longleftrightarrow>
    s div max_tick_in_tickarray_bitmap ts \<le> - 2 \<or> 1 \<le> s div max_tick_in_tickarray_bitmap ts"
proof -
  define B where "B = max_tick_in_tickarray_bitmap ts"
  have B: "0 < B" using extended_bounds [OF assms] by (simp add: B_def)
  have "s div B \<le> - 2 \<longleftrightarrow> \<not> - 1 \<le> s div B" by auto
  then show ?thesis
    unfolding outside_default_def B_def [symmetric] le_div_int_iff [OF B] by auto
qed

lemma marks_of_one_map:
  fixes ext :: bitmap_extension and ts :: nat and s s' :: int
  assumes ts: "extended ts" and wf: "wf_extension ext"
    and s: "valid_start s ts" "outside_default ts s"
  defines "B \<equiv> max_tick_in_tickarray_bitmap ts" and "n \<equiv> tick_count ts"
  shows "extension_has ext ts s' \<and> s' div B = s div B \<longleftrightarrow>
    (\<exists>i. bn_test (map_of_start ext ts s) i \<and> s' = (512 * (s div B) + int i) * n)"
proof -
  note b = extended_bounds [OF ts, folded B_def n_def]
  have pos: "0 < B" "0 < n" using b by auto
  define q where "q = s div B"
  have num: "map_number ts s < 14"
    using ts s by (rule map_number_less)
  have same: "s' < 0 \<longleftrightarrow> s < 0" "outside_default ts s' \<longleftrightarrow> outside_default ts s"
    "map_number ts s' = map_number ts s" "map_of_start ext ts s' = map_of_start ext ts s"
    if "s' div B = q" for s'
  proof -
    show sign: "s' < 0 \<longleftrightarrow> s < 0"
      using that pos by (metis q_def not_less pos_imp_zdiv_nonneg_iff)
    show "outside_default ts s' \<longleftrightarrow> outside_default ts s"
      using that by (simp add: outside_default_iff [OF ts] B_def q_def)
    show num: "map_number ts s' = map_number ts s"
      using that sign by (simp add: map_number_def B_def [symmetric] q_def)
    show "map_of_start ext ts s' = map_of_start ext ts s"
      by (simp add: map_of_start_def sign num)
  qed
  show ?thesis
  proof
    assume *: "extension_has ext ts s' \<and> s' div B = s div B"
    then have "s' = s' div B * B + int (bit_of_start ts s') * n"
      using bit_of_start(1) [OF ts, of s', folded B_def n_def] by (simp add: extension_has_def n_def)
    also have "\<dots> = (512 * q + int (bit_of_start ts s')) * n"
      using * b(4) by (simp add: q_def algebra_simps)
    finally show "\<exists>i. bn_test (map_of_start ext ts s) i \<and> s' = (512 * (s div B) + int i) * n"
      using * same(4) [of s'] by (auto simp: extension_has_def q_def)
  next
    assume "\<exists>i. bn_test (map_of_start ext ts s) i \<and> s' = (512 * (s div B) + int i) * n"
    then obtain i where i: "bn_test (map_of_start ext ts s) i" and s': "s' = (512 * q + int i) * n"
      by (auto simp: q_def)
    have i512: "i < 512"
      using bn_test_less [OF i] map_of_start_wf(1) [OF wf num] by simp
    have s'': "s' = int i * n + q * B"
      by (simp add: s' b(4) algebra_simps)
    have rest: "0 \<le> int i * n" "int i * n < B"
      using i512 pos by (simp_all add: b(4))
    have q: "s' div B = q" and m: "s' mod B = int i * n"
      using rest pos by (simp_all add: s'')
    have "bit_of_start ts s' = i"
      using m pos by (simp add: bit_of_start_def B_def [symmetric] n_def [symmetric])
    with q i same [OF q] s num show "extension_has ext ts s' \<and> s' div B = s div B"
      by (auto simp: extension_has_def q_def s' n_def)
  qed
qed

lemma search_one_map:
  fixes ext :: bitmap_extension and ts :: nat and nxt :: int and z :: bool
  assumes ts: "extended ts" and wf: "wf_extension ext"
    and v: "valid_start nxt ts" "outside_default ts nxt"
  defines "B \<equiv> max_tick_in_tickarray_bitmap ts" and "n \<equiv> tick_count ts"
  defines "P \<equiv> \<lambda>s. extension_has ext ts s \<and> s div B = nxt div B"
  shows "\<exists>r. next_initialized_tick_array_in_bitmap (map_of_start ext ts nxt) nxt ts z = Ok r \<and>
    (if z then nearest_below P nxt (nxt div B * B) r
     else nearest_above P nxt (nxt div B * B + B - n) r)"
proof -
  note b = extended_bounds [OF ts, folded B_def n_def]
  have pos: "0 < B" "0 < n" using b by auto
  have n: "n \<le> 840"
    using b(6) by (simp add: n_def tick_count_eq)
  define q p bm where "q = nxt div B" and "p = bit_of_start ts nxt" and "bm = map_of_start ext ts nxt"
  have mod: "moderate nxt"
    using valid_start_moderate [OF ts v(1)] .
  have nb: "- 444476 \<le> nxt" "nxt \<le> 443636" and dvd: "n dvd nxt"
    using valid_start_bounds [OF b(1) v(1)] n by (auto simp: MIN_TICK_def MAX_TICK_def n_def)
  have nxt': "nxt = q * B + int p * n" and p: "p < 512"
    using bit_of_start [OF ts, of nxt, folded B_def n_def] dvd by (simp_all add: q_def p_def n_def)
  have bm: "length bm = 8" "bn_words bm"
    using map_of_start_wf [OF wf map_number_less [OF ts v]] by (simp_all add: bm_def)
  have boundary: "get_bitmap_tick_boundary nxt ts = Ok (q * B, q * B + B)"
    using get_bitmap_tick_boundary_eq [OF mod b(1), folded B_def] b(3) by (simp add: q_def)
  have offset: "tick_array_offset_in_bitmap nxt ts = Ok (int p)"
    using tick_array_offset_in_bitmap_eq [OF ts mod] dvd by (simp add: p_def n_def)
  have shift: "unwrap_usize (512 - 1 - int p) = Ok (511 - p)" "unwrap_usize (int p) = Ok p"
    using p by (auto simp: unwrap_usize_def nat_diff_distrib)
  have base: "(512 * q + int p) * n = nxt"
    by (simp add: nxt' b(4) algebra_simps)
  have has: "P s \<longleftrightarrow> (\<exists>i. bn_test bm i \<and> s = (512 * q + int i) * n)" for s
    unfolding P_def bm_def q_def n_def B_def by (rule marks_of_one_map [OF ts wf v])
  have small: "0 \<le> int i * n" "int i * n \<le> 512 * 840" if "i < 512" for i
  proof -
    show "0 \<le> int i * n" using pos by simp
    show "int i * n \<le> 512 * 840" using that n pos by (intro mult_mono) auto
  qed
  have step: "chk_i 32 (int d * n) = Ok (int d * n)"
    "chk_i 32 (nxt - int d * n) = Ok (nxt - int d * n)"
    "chk_i 32 (nxt + int d * n) = Ok (nxt + int d * n)" if "d < 512" for d
    using small [OF that] nb by (auto intro!: chk_i32_Ok)
  note unfold = next_initialized_tick_array_in_bitmap_def boundary rbind.simps prod.case offset
    TICK_ARRAY_BITMAP_SIZE_def shift Let_def bm_def [symmetric] n_def [symmetric]
  show ?thesis
  proof (cases z)
    case True
    note search = highest_one_below [OF bm(2), of p, unfolded bm(1), simplified, OF p]
    let ?y = "bn_shl bm (511 - p)"
    have "next_initialized_tick_array_in_bitmap bm nxt ts z =
      Ok (case (if bn_is_zero ?y then None else Some (p - bn_leading_zeros ?y)) of
        None \<Rightarrow> (False, q * B) | Some i \<Rightarrow> (True, (512 * q + int i) * n))"
      unfolding unfold if_P [OF True]
    proof (cases "bn_is_zero ?y")
      case nz: False
      define lz where "lz = bn_leading_zeros ?y"
      have lz: "lz \<le> p" "lz < 512"
        using search(2) [OF nz] p by (auto simp: lz_def)
      have eq: "nxt - int lz * n = (512 * q + int (p - lz)) * n"
        using lz by (simp add: base [symmetric] of_nat_diff algebra_simps)
      show "(case if bn_is_zero ?y then None else Some (bn_leading_zeros ?y) of
          None \<Rightarrow> Ok (False, q * B)
        | Some b \<Rightarrow> rbind (chk_i 32 (int b * n)) (\<lambda>d. rbind (chk_i 32 (nxt - d)) (\<lambda>start. Ok (True, start)))) =
        Ok (case if bn_is_zero ?y then None else Some (p - bn_leading_zeros ?y) of
          None \<Rightarrow> (False, q * B) | Some i \<Rightarrow> (True, (512 * q + int i) * n))"
        unfolding if_not_P [OF nz] option.case lz_def [symmetric] step(1,2) [OF lz(2)] rbind.simps unfolding eq ..
    qed simp
    moreover have "nearest_below P nxt (q * B)
      (case (if bn_is_zero ?y then None else Some (p - bn_leading_zeros ?y)) of
        None \<Rightarrow> (False, q * B) | Some i \<Rightarrow> (True, (512 * q + int i) * n))"
      unfolding base [symmetric]
    proof (rule nearest_below_scale [OF pos(2) has])
      show "case if bn_is_zero ?y then None else Some (p - bn_leading_zeros ?y) of
          None \<Rightarrow> \<forall>i \<le> p. \<not> bn_test bm i
        | Some i \<Rightarrow> i \<le> p \<and> bn_test bm i \<and> (\<forall>j. i < j \<and> j \<le> p \<longrightarrow> \<not> bn_test bm j)"
        using search(1) search(2) by (cases "bn_is_zero ?y") auto
    qed
    ultimately show ?thesis
      using True by (auto simp: bm_def q_def)
  next
    case False
    note search = lowest_one_above [OF bm(2), of p]
    let ?y = "bn_shr bm p"
    have edge: "chk_i 32 (q * B + B - n) = Ok (q * B + B - n)"
    proof -
      have "nxt - int p * n = q * B" by (simp add: nxt')
      then show ?thesis
        using small [OF p] nb b(2,3) n pos by (intro chk_i32_Ok) linarith+
    qed
    have "next_initialized_tick_array_in_bitmap bm nxt ts z =
      Ok (case (if bn_is_zero ?y then None else Some (p + bn_trailing_zeros ?y)) of
        None \<Rightarrow> (False, q * B + B - n) | Some i \<Rightarrow> (True, (512 * q + int i) * n))"
      unfolding unfold if_not_P [OF False] edge
    proof (cases "bn_is_zero ?y")
      case nz: False
      define tz where "tz = bn_trailing_zeros ?y"
      have "p + tz < 512"
        using search(2) [OF nz] bn_test_less [of bm "p + tz"] bm(1) by (simp add: tz_def)
      then have tz: "tz < 512" by simp
      have eq: "nxt + int tz * n = (512 * q + int (p + tz)) * n"
        by (simp add: base [symmetric] algebra_simps)
      show "(case if bn_is_zero ?y then None else Some (bn_trailing_zeros ?y) of
          None \<Rightarrow> Ok (False, q * B + B - n)
        | Some b \<Rightarrow> rbind (chk_i 32 (int b * n)) (\<lambda>d. rbind (chk_i 32 (nxt + d)) (\<lambda>start. Ok (True, start)))) =
        Ok (case if bn_is_zero ?y then None else Some (p + bn_trailing_zeros ?y) of
          None \<Rightarrow> (False, q * B + B - n) | Some i \<Rightarrow> (True, (512 * q + int i) * n))"
        unfolding if_not_P [OF nz] option.case tz_def [symmetric] step(1,3) [OF tz] rbind.simps unfolding eq ..
    qed simp
    moreover have "nearest_above P nxt (q * B + B - n)
      (case (if bn_is_zero ?y then None else Some (p + bn_trailing_zeros ?y)) of
        None \<Rightarrow> (False, q * B + B - n) | Some i \<Rightarrow> (True, (512 * q + int i) * n))"
      unfolding base [symmetric]
    proof (rule nearest_above_scale [OF pos(2) has])
      show "case if bn_is_zero ?y then None else Some (p + bn_trailing_zeros ?y) of
          None \<Rightarrow> \<forall>i \<ge> p. \<not> bn_test bm i
        | Some i \<Rightarrow> p \<le> i \<and> bn_test bm i \<and> (\<forall>j. p \<le> j \<and> j < i \<longrightarrow> \<not> bn_test bm j)"
        using search(1) search(2) by (cases "bn_is_zero ?y") auto
    qed
    ultimately show ?thesis
      using False by (auto simp: bm_def q_def)
  qed
qed

end
