(* ===== verification/Sqrt_Price_Math.thy ===== *)
theory Sqrt_Price_Math
  imports Liquidity_Math
begin

text \<open>
  \<open>libraries/sqrt_price_math.rs\<close>: the price after an amount of one token enters or leaves
  the pool at constant liquidity.  The lemmas give the exact fraction and its rounding, on
  the side that favours the pool.
\<close>

definition get_next_sqrt_price_from_amount_0_rounding_up ::
  "uint_lib \<Rightarrow> u128 \<Rightarrow> u128 \<Rightarrow> u64 \<Rightarrow> bool \<Rightarrow> u128 res" where
  "get_next_sqrt_price_from_amount_0_rounding_up U sqrt_price_x64 liquidity amount add =
     (if amount = 0 then Ok sqrt_price_x64
      else
        let numerator_1 = u_shl U 256 liquidity RESOLUTION;
            fallback =
              rbind (u_div U 256 numerator_1 sqrt_price_x64) (\<lambda>q.
              rbind (unwrap (u_checked_add U 256 q amount)) (\<lambda>s.
              rbind (div_rounding_up_u256 U numerator_1 s) (\<lambda>r.
              u_as_u128 U r)))
        in
        if add then
          (case u_checked_mul U 256 amount sqrt_price_x64 of
             Some product \<Rightarrow>
               rbind (u_add U 256 numerator_1 product) (\<lambda>denominator.
               if denominator \<ge> numerator_1 then
                 rbind (mul_div_ceil_u256 U numerator_1 sqrt_price_x64 denominator) (\<lambda>m.
                 rbind (unwrap m) (\<lambda>r.
                 u_as_u128 U r))
               else fallback)
           | None \<Rightarrow> fallback)
        else
          rbind (unwrap (u_checked_mul U 256 amount sqrt_price_x64)) (\<lambda>product.
          rbind (unwrap (u_checked_sub U 256 numerator_1 product)) (\<lambda>denominator.
          rbind (mul_div_ceil_u256 U numerator_1 sqrt_price_x64 denominator) (\<lambda>m.
          rbind (unwrap m) (\<lambda>r.
          u_as_u128 U r)))))"

definition get_next_sqrt_price_from_amount_1_rounding_down ::
  "uint_lib \<Rightarrow> u128 \<Rightarrow> u128 \<Rightarrow> u64 \<Rightarrow> bool \<Rightarrow> u128 res" where
  "get_next_sqrt_price_from_amount_1_rounding_down U sqrt_price_x64 liquidity amount add =
     (let shifted = amount * 2 ^ RESOLUTION mod 2 ^ 128 in
      if add then
        rbind (u_div U 256 shifted liquidity) (\<lambda>quotient.
        rbind (u_as_u128 U quotient) (\<lambda>q.
        unwrap (checked_add 128 sqrt_price_x64 q)))
      else
        rbind (div_rounding_up_u256 U shifted liquidity) (\<lambda>quotient.
        rbind (u_as_u128 U quotient) (\<lambda>q.
        unwrap (checked_sub sqrt_price_x64 q))))"

definition get_next_sqrt_price_from_input ::
  "uint_lib \<Rightarrow> u128 \<Rightarrow> u128 \<Rightarrow> u64 \<Rightarrow> bool \<Rightarrow> u128 res" where
  "get_next_sqrt_price_from_input U sqrt_price_x64 liquidity amount_in zero_for_one =
     rbind (assertion (sqrt_price_x64 > 0)) (\<lambda>_.
     rbind (assertion (liquidity > 0)) (\<lambda>_.
     if zero_for_one then
       get_next_sqrt_price_from_amount_0_rounding_up U sqrt_price_x64 liquidity amount_in True
     else
       get_next_sqrt_price_from_amount_1_rounding_down U sqrt_price_x64 liquidity amount_in True))"

definition get_next_sqrt_price_from_output ::
  "uint_lib \<Rightarrow> u128 \<Rightarrow> u128 \<Rightarrow> u64 \<Rightarrow> bool \<Rightarrow> u128 res" where
  "get_next_sqrt_price_from_output U sqrt_price_x64 liquidity amount_out zero_for_one =
     rbind (assertion (sqrt_price_x64 > 0)) (\<lambda>_.
     rbind (assertion (liquidity > 0)) (\<lambda>_.
     if zero_for_one then
       get_next_sqrt_price_from_amount_1_rounding_down U sqrt_price_x64 liquidity amount_out False
     else
       get_next_sqrt_price_from_amount_0_rounding_up U sqrt_price_x64 liquidity amount_out False))"

section \<open>Values\<close>

context uint_crate
begin

text \<open>
  Token 0 enters: the price is \<open>L P / (L + amount P)\<close> rounded up.  The alternative branch
  for an overflowing product is never taken, since a 64-bit amount times a 128-bit price
  fits in 256 bits, and \<open>U256\<close> addition panics rather than wrapping.
\<close>

lemma next_price_0_add_eq:
  assumes L: "L < 2 ^ 128" and P: "P < 2 ^ 128" and am: "0 < amount" "amount < 2 ^ 64"
    and pos: "0 < L \<or> 0 < P"
  defines "D \<equiv> L * 2 ^ 64 + amount * P"
  shows "get_next_sqrt_price_from_amount_0_rounding_up U P L amount True =
    (if L * 2 ^ 64 * P + (D - 1) < 2 ^ 256 \<and> cdiv (L * 2 ^ 64 * P) D < 2 ^ 128
     then Ok (cdiv (L * 2 ^ 64 * P) D) else Panic)"
proof -
  have shl: "u_shl U 256 L RESOLUTION = L * 2 ^ 64"
    using L by simp
  have prod: "amount * P < 2 ^ 192"
    using mult_less_exp [OF am(2) P] by simp
  then have mul: "u_checked_mul U 256 amount P = Some (amount * P)"
    by simp
  have add: "u_add U 256 (L * 2 ^ 64) (amount * P) = Ok D"
    using L prod by (simp add: D_def)
  have D: "0 < D" "L * 2 ^ 64 \<le> D"
    using pos am by (auto simp: D_def)
  have nz: "amount = 0 \<longleftrightarrow> False"
    using am by simp
  show ?thesis
    unfolding get_next_sqrt_price_from_amount_0_rounding_up_def Let_def shl nz if_False if_True mul
      option.case add rbind.simps mul_div_ceil_u256_eq [OF D(1)]
    using D(2) by (auto simp: fits_def)
qed

lemma next_price_0_sub_OkD:
  assumes L: "L < 2 ^ 128" and am: "0 < amount"
    and ok: "get_next_sqrt_price_from_amount_0_rounding_up U P L amount False = Ok r"
  shows "amount * P < L * 2 ^ 64" "r = cdiv (L * 2 ^ 64 * P) (L * 2 ^ 64 - amount * P)" "r < 2 ^ 128"
proof -
  have shl: "u_shl U 256 L RESOLUTION = L * 2 ^ 64"
    using L by simp
  have nz: "amount = 0 \<longleftrightarrow> False"
    using am by simp
  note ok' = ok [unfolded get_next_sqrt_price_from_amount_0_rounding_up_def Let_def shl nz if_False]
  then have le: "amount * P \<le> L * 2 ^ 64"
    by (auto simp: res_inv split: if_splits)
  show lt: "amount * P < L * 2 ^ 64"
  proof (rule ccontr)
    assume "\<not> amount * P < L * 2 ^ 64"
    with le have "L * 2 ^ 64 - amount * P = 0" by simp
    with ok' show False
      by (auto simp: res_inv mul_div_zero_denom split: if_splits)
  qed
  then have D: "0 < L * 2 ^ 64 - amount * P" by simp
  show "r = cdiv (L * 2 ^ 64 * P) (L * 2 ^ 64 - amount * P)" "r < 2 ^ 128"
    using ok' mul_div_ceil_u256_eq [OF D, of "L * 2 ^ 64" P]
    by (auto simp: res_inv fits_def split: if_splits)
qed

lemma shifted_amount:
  "amount < 2 ^ 64 \<Longrightarrow> amount * 2 ^ RESOLUTION mod 2 ^ 128 = amount * (2::nat) ^ 64"
  by simp

lemma next_price_1_add_eq:
  assumes "amount < 2 ^ 64" "0 < L"
  shows "get_next_sqrt_price_from_amount_1_rounding_down U P L amount True =
    (if P + amount * 2 ^ 64 div L < 2 ^ 128 then Ok (P + amount * 2 ^ 64 div L) else Panic)"
proof -
  have "amount * 2 ^ 64 < 2 ^ 128"
    using assms by simp
  then have "amount * 2 ^ 64 div L < 2 ^ 128"
    by (rule le_less_trans [OF div_le_dividend])
  then show ?thesis
    unfolding get_next_sqrt_price_from_amount_1_rounding_down_def shifted_amount [OF assms(1)] Let_def
    using assms(2) by (simp add: checked_add_def)
qed

lemma next_price_1_sub_eq:
  assumes "amount < 2 ^ 64" "0 < L"
  shows "get_next_sqrt_price_from_amount_1_rounding_down U P L amount False =
    (if cdiv (amount * 2 ^ 64) L \<le> P then Ok (P - cdiv (amount * 2 ^ 64) L) else Panic)"
proof -
  have "amount * 2 ^ 64 \<le> amount * 2 ^ 64 * L"
    using assms by simp
  then have "cdiv (amount * 2 ^ 64) L \<le> amount * 2 ^ 64"
    using assms by (simp only: cdiv_le_iff)
  then have "cdiv (amount * 2 ^ 64) L < 2 ^ 128"
    using assms by simp
  moreover have "div_rounding_up_u256 U (amount * 2 ^ 64) L = Ok (cdiv (amount * 2 ^ 64) L)"
    using assms by (intro div_rounding_up_u256_eq) simp_all
  ultimately show ?thesis
    unfolding get_next_sqrt_price_from_amount_1_rounding_down_def shifted_amount [OF assms(1)] Let_def
    by (simp add: checked_sub_def)
qed

end

end
