(* ===== verification/Swap_Math.thy ===== *)
theory Swap_Math
  imports Sqrt_Price_Math
begin

text \<open>
  \<open>libraries/swap_math.rs\<close>: one step of a swap inside a range of constant liquidity.
  The first part is the code; the second shows that the step stays between the current
  and the target price, moves amounts that are exactly those of the price move (rounded in
  favour of the pool), and never uses more than the amount that is left.
\<close>

section \<open>The step\<close>

text \<open>\<open>states/config.rs\<close>\<close>

definition FEE_RATE_DENOMINATOR_VALUE :: u32 where
  "FEE_RATE_DENOMINATOR_VALUE = 1000000"

record swap_step =
  ss_sqrt_price_next_x64 :: u128
  ss_amount_in :: u64
  ss_amount_out :: u64
  ss_fee_amount :: u64

definition default_swap_step :: swap_step where
  "default_swap_step =
     \<lparr>ss_sqrt_price_next_x64 = 0, ss_amount_in = 0, ss_amount_out = 0, ss_fee_amount = 0\<rparr>"

text \<open>The price that the step reaches, with the amount of moving to the target.\<close>

definition swap_step_target ::
  "uint_lib \<Rightarrow> u128 \<Rightarrow> u128 \<Rightarrow> u128 \<Rightarrow> u64 \<Rightarrow> u32 \<Rightarrow> bool \<Rightarrow> bool \<Rightarrow> swap_step res" where
  "swap_step_target U sqrt_price_current_x64 sqrt_price_target_x64 liquidity amount_remaining
      fee_rate is_base_input zero_for_one =
     (if is_base_input then
        rbind (chk_sub FEE_RATE_DENOMINATOR_VALUE fee_rate) (\<lambda>rest_rate.
        rbind (mul_div_floor_u64 U amount_remaining rest_rate FEE_RATE_DENOMINATOR_VALUE) (\<lambda>m.
        rbind (unwrap m) (\<lambda>amount_remaining_less_fee.
        rbind (if zero_for_one
               then get_delta_amount_0_unsigned U sqrt_price_target_x64 sqrt_price_current_x64
                      liquidity True
               else get_delta_amount_1_unsigned U sqrt_price_current_x64 sqrt_price_target_x64
                      liquidity True) (\<lambda>amount_in.
        rbind (if amount_remaining_less_fee \<ge> amount_in then Ok sqrt_price_target_x64
               else get_next_sqrt_price_from_input U sqrt_price_current_x64 liquidity
                      amount_remaining_less_fee zero_for_one) (\<lambda>next.
        Ok (default_swap_step\<lparr>ss_amount_in := amount_in, ss_sqrt_price_next_x64 := next\<rparr>))))))
      else
        rbind (if zero_for_one
               then get_delta_amount_1_unsigned U sqrt_price_target_x64 sqrt_price_current_x64
                      liquidity False
               else get_delta_amount_0_unsigned U sqrt_price_current_x64 sqrt_price_target_x64
                      liquidity False) (\<lambda>amount_out.
        rbind (if amount_remaining \<ge> amount_out then Ok sqrt_price_target_x64
               else get_next_sqrt_price_from_output U sqrt_price_current_x64 liquidity
                      amount_remaining zero_for_one) (\<lambda>next.
        Ok (default_swap_step\<lparr>ss_amount_out := amount_out, ss_sqrt_price_next_x64 := next\<rparr>))))"

text \<open>The amounts of the move, when they are not those of reaching the target.\<close>

definition swap_step_amounts ::
  "uint_lib \<Rightarrow> u128 \<Rightarrow> u128 \<Rightarrow> u128 \<Rightarrow> bool \<Rightarrow> bool \<Rightarrow> swap_step \<Rightarrow> swap_step res" where
  "swap_step_amounts U sqrt_price_current_x64 sqrt_price_target_x64 liquidity is_base_input
      zero_for_one swap_step =
     (let next = ss_sqrt_price_next_x64 swap_step; max = (sqrt_price_target_x64 = next) in
      if zero_for_one then
        rbind (if \<not> (max \<and> is_base_input)
               then get_delta_amount_0_unsigned U next sqrt_price_current_x64 liquidity True
               else Ok (ss_amount_in swap_step)) (\<lambda>amount_in.
        rbind (if \<not> (max \<and> \<not> is_base_input)
               then get_delta_amount_1_unsigned U next sqrt_price_current_x64 liquidity False
               else Ok (ss_amount_out swap_step)) (\<lambda>amount_out.
        Ok (swap_step\<lparr>ss_amount_in := amount_in, ss_amount_out := amount_out\<rparr>)))
      else
        rbind (if \<not> (max \<and> is_base_input)
               then get_delta_amount_1_unsigned U sqrt_price_current_x64 next liquidity True
               else Ok (ss_amount_in swap_step)) (\<lambda>amount_in.
        rbind (if \<not> (max \<and> \<not> is_base_input)
               then get_delta_amount_0_unsigned U sqrt_price_current_x64 next liquidity False
               else Ok (ss_amount_out swap_step)) (\<lambda>amount_out.
        Ok (swap_step\<lparr>ss_amount_in := amount_in, ss_amount_out := amount_out\<rparr>))))"

text \<open>The cap on the output and the fee.\<close>

definition swap_step_fee ::
  "uint_lib \<Rightarrow> u128 \<Rightarrow> u64 \<Rightarrow> u32 \<Rightarrow> bool \<Rightarrow> swap_step \<Rightarrow> swap_step res" where
  "swap_step_fee U sqrt_price_target_x64 amount_remaining fee_rate is_base_input swap_step =
     (let swap_step = (if \<not> is_base_input \<and> ss_amount_out swap_step > amount_remaining
                       then swap_step\<lparr>ss_amount_out := amount_remaining\<rparr> else swap_step) in
      rbind (if is_base_input \<and> ss_sqrt_price_next_x64 swap_step \<noteq> sqrt_price_target_x64 then
               unwrap (checked_sub amount_remaining (ss_amount_in swap_step))
             else
               rbind (chk_sub FEE_RATE_DENOMINATOR_VALUE fee_rate) (\<lambda>rest_rate.
               rbind (mul_div_ceil_u64 U (ss_amount_in swap_step) fee_rate rest_rate) (\<lambda>m.
               unwrap m))) (\<lambda>fee.
      Ok (swap_step\<lparr>ss_fee_amount := fee\<rparr>)))"

definition compute_swap_step ::
  "uint_lib \<Rightarrow> u128 \<Rightarrow> u128 \<Rightarrow> u128 \<Rightarrow> u64 \<Rightarrow> u32 \<Rightarrow> bool \<Rightarrow> bool \<Rightarrow> swap_step res" where
  "compute_swap_step U sqrt_price_current_x64 sqrt_price_target_x64 liquidity amount_remaining
      fee_rate is_base_input zero_for_one =
     rbind (swap_step_target U sqrt_price_current_x64 sqrt_price_target_x64 liquidity
              amount_remaining fee_rate is_base_input zero_for_one) (\<lambda>swap_step.
     rbind (swap_step_amounts U sqrt_price_current_x64 sqrt_price_target_x64 liquidity
              is_base_input zero_for_one swap_step) (\<lambda>swap_step.
     swap_step_fee U sqrt_price_target_x64 amount_remaining fee_rate is_base_input swap_step))"

section \<open>Price moves on natural numbers\<close>

lemma next_input_0:
  fixes T C L A :: nat
  assumes T: "0 < T" "T \<le> C" and A: "A < amount_0_of T C L True"
  defines "N \<equiv> cdiv (L * 2 ^ 64 * C) (L * 2 ^ 64 + A * C)"
  shows "T < N" "N \<le> C" "amount_0_of N C L True \<le> A"
proof -
  define K where "K = L * 2 ^ 64"
  define D where "D = K + A * C"
  have N: "N = cdiv (K * C) D"
    by (simp only: N_def K_def D_def)
  have lt: "A * (T * C) < K * (C - T)"
    using A T amount_0_of_le_iff [of T C L A] by (simp only: K_def not_le [symmetric]) simp
  then have K: "0 < K" by (cases "K = 0") auto
  then have D: "0 < D" by (simp add: D_def)
  have KT: "K * (C - T) = K * C - K * T" "K * T \<le> K * C"
    using T by (simp_all add: diff_mult_distrib2)
  have TD: "T * D = K * T + A * (T * C)"
    by (simp add: D_def algebra_simps)
  have "T * D < K * C"
    using lt KT TD by linarith
  with D show TN: "T < N"
    unfolding N by (simp only: less_cdiv_iff)
  have "K * C \<le> C * D"
    by (simp add: D_def algebra_simps)
  with D show NC: "N \<le> C"
    unfolding N by (simp only: cdiv_le_iff)
  have "K * C \<le> N * D"
    unfolding N using D by (rule cdiv_mult_ge)
  moreover have "N * D = K * N + A * (N * C)"
    by (simp add: D_def algebra_simps)
  moreover have "K * (C - N) = K * C - K * N"
    by (simp add: diff_mult_distrib2)
  ultimately have "K * (C - N) \<le> A * (N * C)"
    by linarith
  then show "amount_0_of N C L True \<le> A"
    using TN NC T amount_0_of_le_iff [of N C L A] by (simp only: K_def)
qed

lemma next_input_1:
  fixes T C L A :: nat
  assumes T: "C \<le> T" and A: "A < amount_1_of C T L True"
  defines "N \<equiv> C + A * 2 ^ 64 div L"
  shows "N < T" "C \<le> N" "amount_1_of C N L True \<le> A"
proof -
  have lt: "A * 2 ^ 64 < L * (T - C)"
    using A T amount_1_of_le_iff [of C T L A] by (simp only: not_le [symmetric]) simp
  then have "0 < L" by (cases "L = 0") auto
  with lt have "A * 2 ^ 64 div L < T - C"
    by (simp only: div_less_iff_less_mult mult.commute)
  then show "N < T" "C \<le> N"
    by (auto simp: N_def)
  have "L * (N - C) \<le> A * 2 ^ 64"
    unfolding N_def by (simp only: diff_add_inverse times_div_less_eq_dividend)
  then show "amount_1_of C N L True \<le> A"
    by (simp only: amount_1_of_le_iff \<open>C \<le> N\<close>)
qed

lemma next_output_1:
  fixes T C L A :: nat
  assumes T: "T \<le> C" and L: "0 < L" and A: "A < amount_1_of T C L False"
  defines "N \<equiv> C - cdiv (A * 2 ^ 64) L"
  shows "T \<le> N" "N \<le> C" "A \<le> amount_1_of N C L False"
proof -
  have "Suc A * 2 ^ 64 \<le> L * (C - T)"
    using A T le_amount_1_of_iff [of T C "Suc A" L] by simp
  then have "A * 2 ^ 64 \<le> (C - T) * L"
    by (simp add: mult.commute)
  then have le: "cdiv (A * 2 ^ 64) L \<le> C - T"
    using L by (simp only: cdiv_le_iff)
  then show "T \<le> N" "N \<le> C"
    using T by (auto simp: N_def)
  have "C - N = cdiv (A * 2 ^ 64) L"
    using le T by (simp add: N_def)
  then have "A * 2 ^ 64 \<le> L * (C - N)"
    using cdiv_mult_ge [OF L, of "A * 2 ^ 64"] by (simp add: mult.commute)
  then show "A \<le> amount_1_of N C L False"
    by (simp only: le_amount_1_of_iff \<open>N \<le> C\<close>)
qed

lemma next_output_0:
  fixes T C L A :: nat
  assumes C: "0 < C" "C \<le> T" and A: "A < amount_0_of C T L False"
    and D: "A * C < L * 2 ^ 64"
  defines "N \<equiv> cdiv (L * 2 ^ 64 * C) (L * 2 ^ 64 - A * C)"
  shows "N \<le> T" "C \<le> N" "A \<le> amount_0_of C N L False"
proof -
  define K where "K = L * 2 ^ 64"
  define D where "D = K - A * C"
  have N: "N = cdiv (K * C) D"
    by (simp only: N_def K_def D_def)
  have D: "0 < D" "D + A * C = K"
    using assms(4) by (simp_all add: D_def K_def)
  have "Suc A * (C * T) \<le> K * (T - C)"
    using A C le_amount_0_of_iff [of C T "Suc A" L] by (simp add: K_def)
  then have lt: "A * (C * T) \<le> K * (T - C)"
    by simp
  have KT: "K * (T - C) = K * T - K * C" "K * C \<le> K * T"
    using C by (simp_all add: diff_mult_distrib2)
  have KD: "K * x = x * D + A * (C * x)" for x
  proof -
    have "K * x = (D + A * C) * x"
      by (simp only: D(2))
    then show ?thesis
      by (simp only: algebra_simps)
  qed
  have "K * C \<le> T * D"
    using lt KT KD [of T] by linarith
  with D(1) show "N \<le> T"
    unfolding N by (simp only: cdiv_le_iff)
  have ge: "K * C \<le> N * D"
    unfolding N using D(1) by (rule cdiv_mult_ge)
  have "C * D \<le> N * D"
    using ge KD [of C] by linarith
  with D(1) show CN: "C \<le> N" by simp
  have "K * (N - C) = K * N - K * C"
    by (simp add: diff_mult_distrib2)
  then have "A * (C * N) \<le> K * (N - C)"
    using ge KD [of N] by linarith
  with C CN show "A \<le> amount_0_of C N L False"
    by (simp only: le_amount_0_of_iff K_def)
qed

lemma fee_fits:
  fixes A x f F :: nat
  assumes f: "f < F" and x: "x \<le> A * (F - f) div F"
  shows "x + cdiv (x * f) (F - f) \<le> A"
proof -
  define g where "g = F - f"
  have g: "0 < g" "f + g = F" "g \<le> F"
    using f by (auto simp: g_def)
  have "x * F \<le> A * g"
    using x f by (simp add: g_def less_eq_div_iff_mult_less_eq)
  moreover have "A * g \<le> A * F"
    using g by simp
  ultimately have "x * F \<le> A * F"
    by (rule le_trans)
  then have xA: "x \<le> A"
    using f by simp
  have "x * f + x * g = x * F"
    by (simp only: g(2) [symmetric] distrib_left)
  then have "x * f + x * g \<le> A * g"
    using \<open>x * F \<le> A * g\<close> by simp
  then have "x * f \<le> (A - x) * g"
    by (simp add: diff_mult_distrib)
  then have "cdiv (x * f) g \<le> A - x"
    using g(1) by (simp only: cdiv_le_iff)
  with xA show ?thesis
    by (simp add: g_def)
qed

section \<open>The whole step\<close>

text \<open>The exact amounts of moving from \<open>c\<close> to \<open>n\<close>: what enters is rounded up, what leaves down.\<close>

definition step_in_of :: "bool \<Rightarrow> nat \<Rightarrow> nat \<Rightarrow> nat \<Rightarrow> nat" where
  "step_in_of zero_for_one c n L =
     (if zero_for_one then amount_0_of n c L True else amount_1_of c n L True)"

definition step_out_of :: "bool \<Rightarrow> nat \<Rightarrow> nat \<Rightarrow> nat \<Rightarrow> nat" where
  "step_out_of zero_for_one c n L =
     (if zero_for_one then amount_1_of n c L False else amount_0_of c n L False)"

definition price_between :: "bool \<Rightarrow> nat \<Rightarrow> nat \<Rightarrow> nat \<Rightarrow> bool" where
  "price_between zero_for_one c n t \<longleftrightarrow> (if zero_for_one then t \<le> n \<and> n \<le> c else c \<le> n \<and> n \<le> t)"

context uint_crate
begin

lemma get_next_sqrt_price_from_input_OkD:
  assumes "C < 2 ^ 128" "L < 2 ^ 128" "A < 2 ^ 64"
    and ok: "get_next_sqrt_price_from_input U C L A zero_for_one = Ok N"
  shows "0 < C" "0 < L"
    "N = (if zero_for_one then cdiv (L * 2 ^ 64 * C) (L * 2 ^ 64 + A * C) else C + A * 2 ^ 64 div L)"
proof -
  show pos: "0 < C" "0 < L"
    using ok by (auto simp: get_next_sqrt_price_from_input_def res_inv)
  show "N = (if zero_for_one then cdiv (L * 2 ^ 64 * C) (L * 2 ^ 64 + A * C)
    else C + A * 2 ^ 64 div L)"
  proof (cases "zero_for_one \<and> A = 0")
    case True
    then have "N = C"
      using ok pos by (simp add: get_next_sqrt_price_from_input_def
          get_next_sqrt_price_from_amount_0_rounding_up_def)
    moreover have "cdiv (L * 2 ^ 64 * C) (L * 2 ^ 64) = C"
      using cdiv_mult_self [of "L * 2 ^ 64" C] pos by (simp add: mult.commute)
    ultimately show ?thesis
      using True by simp
  next
    case False
    then show ?thesis
      using ok pos assms
      by (cases zero_for_one)
        (auto simp only: get_next_sqrt_price_from_input_def assertion_True rbind.simps
          next_price_0_add_eq next_price_1_add_eq res.inject res.distinct simp_thms if_True if_False
          split: if_splits)
  qed
qed

lemma get_next_sqrt_price_from_output_OkD:
  assumes "L < 2 ^ 128" "A < 2 ^ 64"
    and ok: "get_next_sqrt_price_from_output U C L A zero_for_one = Ok N"
  shows "0 < C" "0 < L"
    "N = (if zero_for_one then C - cdiv (A * 2 ^ 64) L
          else cdiv (L * 2 ^ 64 * C) (L * 2 ^ 64 - A * C))"
    "\<not> zero_for_one \<Longrightarrow> A * C < L * 2 ^ 64"
proof -
  show pos: "0 < C" "0 < L"
    using ok by (auto simp: get_next_sqrt_price_from_output_def res_inv)
  have *: "N = (if zero_for_one then C - cdiv (A * 2 ^ 64) L
          else cdiv (L * 2 ^ 64 * C) (L * 2 ^ 64 - A * C)) \<and> (\<not> zero_for_one \<longrightarrow> A * C < L * 2 ^ 64)"
  proof (cases zero_for_one)
    case True
    with ok pos have "get_next_sqrt_price_from_amount_1_rounding_down U C L A False = Ok N"
      by (simp add: get_next_sqrt_price_from_output_def)
    with True assms pos show ?thesis
      by (auto simp only: next_price_1_sub_eq res.inject res.distinct split: if_splits)
  next
    case False
    with ok pos have sub: "get_next_sqrt_price_from_amount_0_rounding_up U C L A False = Ok N"
      by (simp add: get_next_sqrt_price_from_output_def)
    show ?thesis
    proof (cases "A = 0")
      case True
      then have "N = C"
        using sub by (simp add: get_next_sqrt_price_from_amount_0_rounding_up_def)
      moreover have "cdiv (L * 2 ^ 64 * C) (L * 2 ^ 64) = C"
        using cdiv_mult_self [of "L * 2 ^ 64" C] pos by (simp add: mult.commute)
      ultimately show ?thesis
        using True False pos by simp
    next
      case A: False
      then show ?thesis
        using next_price_0_sub_OkD [OF assms(1) _ sub] False by simp
    qed
  qed
  then show "N = (if zero_for_one then C - cdiv (A * 2 ^ 64) L
          else cdiv (L * 2 ^ 64 * C) (L * 2 ^ 64 - A * C))"
    "\<not> zero_for_one \<Longrightarrow> A * C < L * 2 ^ 64"
    by blast+
qed

lemma price_between_input:
  assumes "c < 2 ^ 128" "L < 2 ^ 128" "A < 2 ^ 64" "0 < t" "price_between z c t t"
    and A: "A < step_in_of z c t L"
    and ok: "get_next_sqrt_price_from_input U c L A z = Ok n"
  shows "price_between z c n t" "n \<noteq> t" "step_in_of z c n L \<le> A"
proof -
  note n = get_next_sqrt_price_from_input_OkD [OF assms(1-3) ok]
  have "price_between z c n t \<and> n \<noteq> t \<and> step_in_of z c n L \<le> A"
  proof (cases z)
    case True
    then have "A < amount_0_of t c L True" "t \<le> c"
      using A assms(5) by (simp_all add: step_in_of_def price_between_def)
    from next_input_0 [OF assms(4) this(2,1)] True n(3) show ?thesis
      by (simp add: step_in_of_def price_between_def)
  next
    case False
    then have "A < amount_1_of c t L True" "c \<le> t"
      using A assms(5) by (simp_all add: step_in_of_def price_between_def)
    from next_input_1 [OF this(2,1)] False n(3) show ?thesis
      by (simp add: step_in_of_def price_between_def)
  qed
  then show "price_between z c n t" "n \<noteq> t" "step_in_of z c n L \<le> A"
    by blast+
qed

lemma price_between_output:
  assumes "L < 2 ^ 128" "A < 2 ^ 64" "price_between z c t t"
    and A: "A < step_out_of z c t L"
    and ok: "get_next_sqrt_price_from_output U c L A z = Ok n"
  shows "price_between z c n t" "A \<le> step_out_of z c n L"
proof -
  note n = get_next_sqrt_price_from_output_OkD [OF assms(1-2) ok]
  have "price_between z c n t \<and> A \<le> step_out_of z c n L"
  proof (cases z)
    case True
    then have "A < amount_1_of t c L False" "t \<le> c"
      using A assms(3) by (simp_all add: step_out_of_def price_between_def)
    from next_output_1 [OF this(2) n(2) this(1)] True n(3) show ?thesis
      by (simp add: step_out_of_def price_between_def)
  next
    case False
    then have "A < amount_0_of c t L False" "c \<le> t"
      using A assms(3) by (simp_all add: step_out_of_def price_between_def)
    from next_output_0 [OF n(1) this(2,1) n(4)] False n(3) show ?thesis
      by (simp add: step_out_of_def price_between_def)
  qed
  then show "price_between z c n t" "A \<le> step_out_of z c n L"
    by blast+
qed

end

context uint_crate
begin

text \<open>The delta amounts the step asks for are the exact ones.\<close>

lemma step_delta_in_OkD:
  assumes "c < 2 ^ 128" "n < 2 ^ 128" "L < 2 ^ 128" "price_between z c n n"
    and "(if z then get_delta_amount_0_unsigned U n c L True
          else get_delta_amount_1_unsigned U c n L True) = Ok r"
  shows "r = step_in_of z c n L" "r < 2 ^ 64"
  using assms get_delta_amount_0_unsigned_OkD [of L n c True r]
    get_delta_amount_1_unsigned_OkD [of c n L True r]
  by (cases z; simp add: step_in_of_def)+

lemma step_delta_out_OkD:
  assumes "c < 2 ^ 128" "n < 2 ^ 128" "L < 2 ^ 128" "price_between z c n n"
    and "(if z then get_delta_amount_1_unsigned U n c L False
          else get_delta_amount_0_unsigned U c n L False) = Ok r"
  shows "r = step_out_of z c n L" "r < 2 ^ 64"
  using assms get_delta_amount_0_unsigned_OkD [of L c n False r]
    get_delta_amount_1_unsigned_OkD [of n c L False r]
  by (cases z; simp add: step_out_of_def amount_1_of_commute)+

lemma swap_step_target_OkD:
  assumes "c < 2 ^ 128" "t < 2 ^ 128" "L < 2 ^ 128" "rem < 2 ^ 64" "f < FEE_RATE_DENOMINATOR_VALUE"
    and "0 < t" "price_between z c t t"
    and ok: "swap_step_target U c t L rem f base z = Ok s"
  defines "A \<equiv> rem * (FEE_RATE_DENOMINATOR_VALUE - f) div FEE_RATE_DENOMINATOR_VALUE"
    and "n \<equiv> ss_sqrt_price_next_x64 s"
  shows "price_between z c n t"
    "base \<Longrightarrow> ss_amount_in s = step_in_of z c t L \<and> ss_amount_in s < 2 ^ 64 \<and> step_in_of z c n L \<le> A"
    "\<not> base \<Longrightarrow> ss_amount_out s = step_out_of z c t L \<and> (n \<noteq> t \<longrightarrow> rem \<le> step_out_of z c n L)"
proof -
  have between: "price_between z c t t"
    using assms by simp
  have "price_between z c n t \<and>
    (base \<longrightarrow> ss_amount_in s = step_in_of z c t L \<and> ss_amount_in s < 2 ^ 64 \<and> step_in_of z c n L \<le> A) \<and>
    (\<not> base \<longrightarrow> ss_amount_out s = step_out_of z c t L \<and> (n \<noteq> t \<longrightarrow> rem \<le> step_out_of z c n L))"
  proof (cases base)
    case True
    have "A \<le> rem * FEE_RATE_DENOMINATOR_VALUE div FEE_RATE_DENOMINATOR_VALUE"
      unfolding A_def by (intro div_le_mono mult_le_mono2 diff_le_self)
    then have "A \<le> rem"
      by (simp add: FEE_RATE_DENOMINATOR_VALUE_def)
    then have A: "A < 2 ^ 64"
      using assms(4) by simp
    have "mul_div_floor_u64 U rem (FEE_RATE_DENOMINATOR_VALUE - f) FEE_RATE_DENOMINATOR_VALUE
        = Ok (Some A)"
      using assms(4) A by (subst mul_div_floor_u64_eq) (auto simp: FEE_RATE_DENOMINATOR_VALUE_def A_def)
    with ok True obtain inn where inn:
      "(if z then get_delta_amount_0_unsigned U t c L True
        else get_delta_amount_1_unsigned U c t L True) = Ok inn"
      and n: "(if A \<ge> inn then Ok t else get_next_sqrt_price_from_input U c L A z) = Ok n"
      and s: "ss_amount_in s = inn"
      by (auto simp only: swap_step_target_def res_inv if_True chk_sub_eq_Ok_iff res.inject
          unwrap_eq_Ok_iff option.inject n_def default_swap_step_def swap_step.simps)
    have inn': "inn = step_in_of z c t L" "inn < 2 ^ 64"
      using step_delta_in_OkD [OF assms(1,2,3) between inn] by simp_all
    show ?thesis
    proof (cases "A \<ge> inn")
      case True
      with n inn' s between \<open>base\<close> show ?thesis by simp
    next
      case False
      with n inn' have "A < step_in_of z c t L" "get_next_sqrt_price_from_input U c L A z = Ok n"
        by simp_all
      from price_between_input [OF assms(1,3) A assms(6) between this] inn' s \<open>base\<close> show ?thesis
        by simp
    qed
  next
    case False
    with ok obtain out where out:
      "(if z then get_delta_amount_1_unsigned U t c L False
        else get_delta_amount_0_unsigned U c t L False) = Ok out"
      and n: "(if rem \<ge> out then Ok t else get_next_sqrt_price_from_output U c L rem z) = Ok n"
      and s: "ss_amount_out s = out"
      by (auto simp only: swap_step_target_def res_inv if_False res.inject n_def default_swap_step_def swap_step.simps)
    have out': "out = step_out_of z c t L"
      using step_delta_out_OkD [OF assms(1,2,3) between out] by simp
    show ?thesis
    proof (cases "rem \<ge> out")
      case True
      with n out' s between False show ?thesis by simp
    next
      case less: False
      with n out' have "rem < step_out_of z c t L" "get_next_sqrt_price_from_output U c L rem z = Ok n"
        by simp_all
      from price_between_output [OF assms(3,4) between this] out' s False show ?thesis
        by simp
    qed
  qed
  then show "price_between z c n t"
    "base \<Longrightarrow> ss_amount_in s = step_in_of z c t L \<and> ss_amount_in s < 2 ^ 64 \<and> step_in_of z c n L \<le> A"
    "\<not> base \<Longrightarrow> ss_amount_out s = step_out_of z c t L \<and> (n \<noteq> t \<longrightarrow> rem \<le> step_out_of z c n L)"
    by blast+
qed

lemma swap_step_amounts_OkD:
  assumes "c < 2 ^ 128" "t < 2 ^ 128" "L < 2 ^ 128"
    and "price_between z c (ss_sqrt_price_next_x64 s) t"
    and "base \<Longrightarrow> ss_amount_in s = step_in_of z c t L \<and> ss_amount_in s < 2 ^ 64"
    and "\<not> base \<Longrightarrow> ss_amount_out s = step_out_of z c t L"
    and ok: "swap_step_amounts U c t L base z s = Ok s'"
  defines "n \<equiv> ss_sqrt_price_next_x64 s"
  shows "ss_sqrt_price_next_x64 s' = n" "ss_amount_in s' = step_in_of z c n L"
    "ss_amount_in s' < 2 ^ 64" "ss_amount_out s' = step_out_of z c n L"
proof -
  have n: "n < 2 ^ 128" "price_between z c n n"
    using assms by (auto simp: price_between_def split: if_splits)
  let ?din = "if z then get_delta_amount_0_unsigned U n c L True
    else get_delta_amount_1_unsigned U c n L True"
  let ?dout = "if z then get_delta_amount_1_unsigned U n c L False
    else get_delta_amount_0_unsigned U c n L False"
  have "swap_step_amounts U c t L base z s =
    rbind (if \<not> (t = n \<and> base) then ?din else Ok (ss_amount_in s)) (\<lambda>amount_in.
    rbind (if \<not> (t = n \<and> \<not> base) then ?dout else Ok (ss_amount_out s)) (\<lambda>amount_out.
    Ok (s\<lparr>ss_amount_in := amount_in, ss_amount_out := amount_out\<rparr>)))"
    by (cases z) (simp_all only: swap_step_amounts_def Let_def n_def if_True if_False)
  with ok obtain inn out where
      inn: "(if \<not> (t = n \<and> base) then ?din else Ok (ss_amount_in s)) = Ok inn"
      and out: "(if \<not> (t = n \<and> \<not> base) then ?dout else Ok (ss_amount_out s)) = Ok out"
      and s': "s' = s\<lparr>ss_amount_in := inn, ss_amount_out := out\<rparr>"
    by (auto simp only: res_inv res.inject)
  have "inn = step_in_of z c n L \<and> inn < 2 ^ 64"
  proof (cases "t = n \<and> base")
    case True
    with inn assms(5) show ?thesis by simp
  next
    case False
    with inn have "?din = Ok inn" by simp
    from step_delta_in_OkD [OF assms(1) n(1) assms(3) n(2) this] show ?thesis by simp
  qed
  moreover have "out = step_out_of z c n L"
  proof (cases "t = n \<and> \<not> base")
    case True
    with out assms(6) show ?thesis by simp
  next
    case False
    with out have "?dout = Ok out" by simp
    from step_delta_out_OkD(1) [OF assms(1) n(1) assms(3) n(2) this] show ?thesis .
  qed
  ultimately show "ss_sqrt_price_next_x64 s' = n" "ss_amount_in s' = step_in_of z c n L"
    "ss_amount_in s' < 2 ^ 64" "ss_amount_out s' = step_out_of z c n L"
    by (simp_all add: s' n_def)
qed

lemma swap_step_fee_OkD:
  assumes "f < FEE_RATE_DENOMINATOR_VALUE" "ss_amount_in s < 2 ^ 64"
    and ok: "swap_step_fee U t rem f base s = Ok s'"
  shows "ss_sqrt_price_next_x64 s' = ss_sqrt_price_next_x64 s" "ss_amount_in s' = ss_amount_in s"
    "ss_amount_out s' = (if base then ss_amount_out s else min rem (ss_amount_out s))"
    "if base \<and> ss_sqrt_price_next_x64 s \<noteq> t then ss_amount_in s + ss_fee_amount s' = rem
     else ss_fee_amount s' = cdiv (ss_amount_in s * f) (FEE_RATE_DENOMINATOR_VALUE - f)"
proof -
  have D: "0 < FEE_RATE_DENOMINATOR_VALUE - f" "FEE_RATE_DENOMINATOR_VALUE - f < 2 ^ 64" "f < 2 ^ 64"
    using assms(1) by (simp_all add: FEE_RATE_DENOMINATOR_VALUE_def)
  have fee: "mul_div_ceil_u64 U (ss_amount_in s) f (FEE_RATE_DENOMINATOR_VALUE - f) =
      Ok (fits 64 (cdiv (ss_amount_in s * f) (FEE_RATE_DENOMINATOR_VALUE - f)))"
    using assms(2) D by (intro mul_div_ceil_u64_eq)
  show "ss_sqrt_price_next_x64 s' = ss_sqrt_price_next_x64 s" "ss_amount_in s' = ss_amount_in s"
    "ss_amount_out s' = (if base then ss_amount_out s else min rem (ss_amount_out s))"
    "if base \<and> ss_sqrt_price_next_x64 s \<noteq> t then ss_amount_in s + ss_fee_amount s' = rem
     else ss_fee_amount s' = cdiv (ss_amount_in s * f) (FEE_RATE_DENOMINATOR_VALUE - f)"
    using ok assms(1) fee
    by (auto simp: swap_step_fee_def Let_def res_inv min_def split: if_splits)
qed

lemma compute_swap_step_OkD:
  assumes bounds: "c < 2 ^ 128" "t < 2 ^ 128" "L < 2 ^ 128" "rem < 2 ^ 64"
    and f: "f < FEE_RATE_DENOMINATOR_VALUE"
    and t: "0 < t" "price_between z c t t"
    and ok: "compute_swap_step U c t L rem f base z = Ok s"
  defines "n \<equiv> ss_sqrt_price_next_x64 s"
  shows "price_between z c n t"
    and "ss_amount_in s = step_in_of z c n L"
    and "ss_amount_out s = (if base then step_out_of z c n L else min rem (step_out_of z c n L))"
    and "base \<Longrightarrow> ss_amount_in s + ss_fee_amount s \<le> rem"
    and "base \<Longrightarrow> n \<noteq> t \<Longrightarrow> ss_amount_in s + ss_fee_amount s = rem"
    and "\<not> base \<Longrightarrow> n \<noteq> t \<Longrightarrow> ss_amount_out s = rem"
    and "\<not> base \<or> n = t \<Longrightarrow>
      ss_fee_amount s = cdiv (ss_amount_in s * f) (FEE_RATE_DENOMINATOR_VALUE - f)"
proof -
  from ok obtain s1 s2 where s1: "swap_step_target U c t L rem f base z = Ok s1"
    and s2: "swap_step_amounts U c t L base z s1 = Ok s2"
    and s: "swap_step_fee U t rem f base s2 = Ok s"
    by (auto simp: compute_swap_step_def res_inv)
  note r1 = swap_step_target_OkD [OF bounds f t s1]
  note r2 = swap_step_amounts_OkD [OF bounds(1-3) r1(1) _ _ s2]
  have r2': "ss_sqrt_price_next_x64 s2 = ss_sqrt_price_next_x64 s1"
    "ss_amount_in s2 = step_in_of z c (ss_sqrt_price_next_x64 s1) L"
    "ss_amount_out s2 = step_out_of z c (ss_sqrt_price_next_x64 s1) L" "ss_amount_in s2 < 2 ^ 64"
    using r1 r2 by blast+
  note r3 = swap_step_fee_OkD [OF f r2'(4) s]
  have n: "n = ss_sqrt_price_next_x64 s1"
    using r3(1) r2'(1) by (simp add: n_def)
  show "price_between z c n t" "ss_amount_in s = step_in_of z c n L"
    "ss_amount_out s = (if base then step_out_of z c n L else min rem (step_out_of z c n L))"
    "base \<Longrightarrow> n \<noteq> t \<Longrightarrow> ss_amount_in s + ss_fee_amount s = rem"
    "\<not> base \<Longrightarrow> n \<noteq> t \<Longrightarrow> ss_amount_out s = rem"
    "\<not> base \<or> n = t \<Longrightarrow>
      ss_fee_amount s = cdiv (ss_amount_in s * f) (FEE_RATE_DENOMINATOR_VALUE - f)"
    using r1 r2' r3 by (auto simp: n)
  show "ss_amount_in s + ss_fee_amount s \<le> rem" if base
  proof (cases "n = t")
    case False
    with that r2' r3 show ?thesis by (simp add: n)
  next
    case True
    have "ss_amount_in s \<le> rem * (FEE_RATE_DENOMINATOR_VALUE - f) div FEE_RATE_DENOMINATOR_VALUE"
      using that r1(2) r2' r3(2) by simp
    from fee_fits [OF f this] True r2' r3 show ?thesis by (simp add: n)
  qed
qed

end

section \<open>Properties\<close>

text \<open>
  C26. The price after an exact input or output at constant liquidity is the exact fraction,
  rounded in favour of the pool, on the right side of the current price: token 0 entering
  or leaving moves it to \<open>L P / (L \<plusminus> amount P)\<close> rounded up, token 1 entering or leaving
  to \<open>P \<plusminus> amount / L\<close> rounded down; both calls panic without liquidity or price.
\<close>

theorem next_sqrt_price_exact:
  assumes "uint_crate U" "P < 2 ^ 128" "L < 2 ^ 128" "amount < 2 ^ 64"
  shows "(get_next_sqrt_price_from_input U P L amount z = Ok n \<longrightarrow> 0 < P \<and> 0 < L \<and>
      (if z then n = cdiv (L * 2 ^ 64 * P) (L * 2 ^ 64 + amount * P) \<and> n \<le> P
       else n = P + amount * 2 ^ 64 div L \<and> P \<le> n))
    \<and> (get_next_sqrt_price_from_output U P L amount z = Ok n \<longrightarrow> 0 < P \<and> 0 < L \<and>
      (if z then n = P - cdiv (amount * 2 ^ 64) L \<and> n \<le> P
       else amount * P < L * 2 ^ 64 \<and> P \<le> n \<and>
         n = cdiv (L * 2 ^ 64 * P) (L * 2 ^ 64 - amount * P)))"
proof (intro conjI impI)
  assume ok: "get_next_sqrt_price_from_input U P L amount z = Ok n"
  note n = uint_crate.get_next_sqrt_price_from_input_OkD [OF assms ok]
  have "L * 2 ^ 64 * P \<le> P * (L * 2 ^ 64 + amount * P)"
    by (simp add: algebra_simps)
  moreover have "0 < L * 2 ^ 64 + amount * P"
    using n(2) by simp
  ultimately have "cdiv (L * 2 ^ 64 * P) (L * 2 ^ 64 + amount * P) \<le> P"
    by (simp only: cdiv_le_iff)
  with n show "0 < P" "0 < L"
    "if z then n = cdiv (L * 2 ^ 64 * P) (L * 2 ^ 64 + amount * P) \<and> n \<le> P
     else n = P + amount * 2 ^ 64 div L \<and> P \<le> n"
    by auto
next
  assume ok: "get_next_sqrt_price_from_output U P L amount z = Ok n"
  note n = uint_crate.get_next_sqrt_price_from_output_OkD [OF assms(1,3,4) ok]
  have "P \<le> cdiv (L * 2 ^ 64 * P) (L * 2 ^ 64 - amount * P)" if "amount * P < L * 2 ^ 64"
  proof -
    define D where "D = L * 2 ^ 64 - amount * P"
    have D: "0 < D" "D \<le> L * 2 ^ 64"
      using that by (simp_all add: D_def)
    have "P * D \<le> P * (L * 2 ^ 64)"
      using D(2) by (rule mult_le_mono2)
    also have "\<dots> = L * 2 ^ 64 * P"
      by (rule mult.commute)
    also have "\<dots> \<le> cdiv (L * 2 ^ 64 * P) D * D"
      using D(1) by (rule cdiv_mult_ge)
    finally show ?thesis
      using D(1) unfolding D_def [symmetric] by simp
  qed
  with n show "0 < P" "0 < L"
    "if z then n = P - cdiv (amount * 2 ^ 64) L \<and> n \<le> P
     else amount * P < L * 2 ^ 64 \<and> P \<le> n \<and>
       n = cdiv (L * 2 ^ 64 * P) (L * 2 ^ 64 - amount * P)"
    by auto
qed

theorem next_sqrt_price_exact_witness:
  "get_next_sqrt_price_from_input uint_ref (2 ^ 64) 10 5 False = Ok (2 ^ 64 + 2 ^ 63)
    \<and> (2 ^ 64 :: nat) + 5 * 2 ^ 64 div 10 = 2 ^ 64 + 2 ^ 63"
proof -
  have "get_next_sqrt_price_from_input uint_ref (2 ^ 64) 10 5 False = Ok (2 ^ 64 + 2 ^ 63)"
    by (simp add: get_next_sqrt_price_from_input_def uint_ref.next_price_1_add_eq)
  then show ?thesis
    using next_sqrt_price_exact [OF uint_crate_ref, of "2 ^ 64" 10 5 False "2 ^ 64 + 2 ^ 63"]
    by simp
qed

text \<open>
  C21. A swap step that returns stays between the current and the target price and moves
  exactly the amounts of that price move, rounding what enters up and what leaves down.
  For an exact input, amount and fee together never exceed what remains, and are all of it
  unless the target is reached; for an exact output, the output never exceeds what remains
  and is all of it unless the target is reached.  The fee of a step that reaches its target
  (or of an exact output) is \<open>fee_rate / (10^6 - fee_rate)\<close> of the input, rounded up.
\<close>

theorem compute_swap_step_spec:
  assumes "uint_crate U" "c < 2 ^ 128" "t < 2 ^ 128" "L < 2 ^ 128" "rem < 2 ^ 64"
    and "f < FEE_RATE_DENOMINATOR_VALUE" "0 < t" "if z then t \<le> c else c \<le> t"
    and "compute_swap_step U c t L rem f base z = Ok s"
  shows "let n = ss_sqrt_price_next_x64 s; inn = ss_amount_in s; out = ss_amount_out s;
      fee = ss_fee_amount s in
    (if z then t \<le> n \<and> n \<le> c \<and> inn = amount_0_of n c L True
        \<and> out = (if base then amount_1_of n c L False else min rem (amount_1_of n c L False))
     else c \<le> n \<and> n \<le> t \<and> inn = amount_1_of c n L True
        \<and> out = (if base then amount_0_of c n L False else min rem (amount_0_of c n L False)))
    \<and> (if base then inn + fee \<le> rem \<and> (n = t \<or> inn + fee = rem) else n = t \<or> out = rem)
    \<and> (base \<and> n \<noteq> t \<or> fee = cdiv (inn * f) (FEE_RATE_DENOMINATOR_VALUE - f))"
proof -
  have "price_between z c t t"
    using assms(8) by (auto simp: price_between_def)
  note s = uint_crate.compute_swap_step_OkD [OF assms(1-7) this assms(9)]
  show ?thesis
    using s unfolding Let_def step_in_of_def step_out_of_def price_between_def
    by (cases z; cases base) auto
qed


theorem compute_swap_step_spec_witness:
  "\<exists>s. compute_swap_step uint_ref (2 ^ 64) (2 ^ 65) 1000000 1000 3000 True False = Ok s
    \<and> ss_amount_in s = 997 \<and> ss_fee_amount s = 3 \<and> ss_sqrt_price_next_x64 s \<le> 2 ^ 65
    \<and> ss_amount_in s + ss_fee_amount s \<le> 1000"
proof -
  have "\<exists>s. compute_swap_step uint_ref (2 ^ 64) (2 ^ 65) 1000000 1000 3000 True False = Ok s
      \<and> ss_amount_in s = 997 \<and> ss_fee_amount s = 3"
    by (simp add: compute_swap_step_def swap_step_target_def swap_step_amounts_def swap_step_fee_def
        FEE_RATE_DENOMINATOR_VALUE_def chk_sub_def Let_def default_swap_step_def uint_ref.mul_div_eqs
        fits_def uint_ref.get_delta_amount_1_unsigned_eq uint_ref.get_delta_amount_0_unsigned_eq
        amount_1_of_def amount_0_of_def cdiv_def checked_sub_def
        get_next_sqrt_price_from_input_def uint_ref.next_price_1_add_eq)
  then show ?thesis
    using compute_swap_step_spec [OF uint_crate_ref, of "2 ^ 64" "2 ^ 65" 1000000 1000 3000 False True]
    by (fastforce simp: FEE_RATE_DENOMINATOR_VALUE_def Let_def)
qed

text \<open>
  C27. A step whose target is out of reach for any 64-bit amount fails, however small the
  amount to swap: the cost of reaching the target is computed first and its conversion to
  \<open>u64\<close> panics, so a swap of one unit in a range whose far end costs \<open>2^64\<close> or more of the
  input token cannot be executed.
\<close>

theorem compute_swap_step_panics_on_distant_target:
  assumes "uint_crate U" "c < 2 ^ 128" "t < 2 ^ 128" "L < 2 ^ 128" "rem < 2 ^ 64"
    and "f < FEE_RATE_DENOMINATOR_VALUE"
    and "if z then 2 ^ 64 \<le> amount_0_of t c L True else 2 ^ 64 \<le> amount_1_of c t L True"
  shows "compute_swap_step U c t L rem f True z = Panic"
proof -
  define g where "g = rem * (FEE_RATE_DENOMINATOR_VALUE - f) div FEE_RATE_DENOMINATOR_VALUE"
  have "rem * (FEE_RATE_DENOMINATOR_VALUE - f) \<le> rem * FEE_RATE_DENOMINATOR_VALUE"
    by (intro mult_le_mono2 diff_le_self)
  then have "g \<le> rem * FEE_RATE_DENOMINATOR_VALUE div FEE_RATE_DENOMINATOR_VALUE"
    unfolding g_def by (rule div_le_mono)
  then have g: "g < 2 ^ 64"
    using assms(5) by (simp add: FEE_RATE_DENOMINATOR_VALUE_def)
  have floor: "mul_div_floor_u64 U rem (FEE_RATE_DENOMINATOR_VALUE - f) FEE_RATE_DENOMINATOR_VALUE
      = Ok (Some g)"
    using assms(5) g
    by (subst uint_crate.mul_div_floor_u64_eq [OF assms(1)])
      (auto simp: FEE_RATE_DENOMINATOR_VALUE_def g_def fits_def)
  have rest: "chk_sub FEE_RATE_DENOMINATOR_VALUE f = Ok (FEE_RATE_DENOMINATOR_VALUE - f)"
    using assms(6) by (simp add: chk_sub_def)
  have "(if z then get_delta_amount_0_unsigned U t c L True
         else get_delta_amount_1_unsigned U c t L True) = Panic"
    using assms(7) uint_crate.get_delta_amount_0_unsigned_eq [OF assms(1,4), of t c True]
      uint_crate.get_delta_amount_1_unsigned_eq [OF assms(1,2,3,4), of True]
    by (cases z) (simp_all only: if_True if_False not_le [symmetric] simp_thms)
  then have "swap_step_target U c t L rem f True z = Panic"
    by (simp only: swap_step_target_def if_True rest floor rbind.simps unwrap.simps)
  then show ?thesis
    by (simp add: compute_swap_step_def)
qed

theorem compute_swap_step_panics_on_distant_target_witness:
  "compute_swap_step uint_ref (2 ^ 64) (2 ^ 96) (2 ^ 40) 1 3000 True False = Panic"
  using compute_swap_step_panics_on_distant_target
    [OF uint_crate_ref, of "2 ^ 64" "2 ^ 96" "2 ^ 40" 1 3000 False]
  by (simp add: FEE_RATE_DENOMINATOR_VALUE_def amount_1_of_def cdiv_def)

end
