(* ===== verification/Config.thy ===== *)
theory Config
  imports Swap_Math
begin

text \<open>
  \<open>states/config.rs\<close>, \<open>states/operation_account.rs\<close> and the administrator's instructions on
  them (\<open>create_amm_config\<close>, \<open>update_amm_config\<close>, \<open>create_operation_account\<close>,
  \<open>update_operation_account\<close> with their checks in \<open>lib.rs\<close>).  The lemmas show that the fee
  rates of every reachable configuration stay in the bounds that the swap relies on, and
  that the two fixed-size lists of the operation account are sets.
\<close>

section \<open>The administrator\<close>

text \<open>\<open>crate::admin::id()\<close>: \<open>8yf92ub7Q41NVCkt9iJDd9uSquf2cT4oy6X1vFgPz4qq\<close> in base 58.\<close>

definition admin_id :: pubkey where
  "admin_id = 0x7685750672bdd9bb68d5891be414ed0f56b76cdab8fc863936af4fed01f95424"

section \<open>Fee configuration\<close>

record amm_config =
  ac_bump :: u8
  ac_index :: u16
  ac_owner :: pubkey
  ac_protocol_fee_rate :: u32
  ac_trade_fee_rate :: u32
  ac_tick_spacing :: u16
  ac_fund_fee_rate :: u32
  ac_fund_owner :: pubkey

definition default_amm_config :: amm_config where
  "default_amm_config =
     \<lparr>ac_bump = 0, ac_index = 0, ac_owner = default_pubkey, ac_protocol_fee_rate = 0,
      ac_trade_fee_rate = 0, ac_tick_spacing = 0, ac_fund_fee_rate = 0,
      ac_fund_owner = default_pubkey\<rparr>"

definition is_authorized :: "amm_config \<Rightarrow> pubkey \<Rightarrow> pubkey \<Rightarrow> unit res" where
  "is_authorized self signer expect_pubkey =
     require (signer = ac_owner self \<or> expect_pubkey = signer) (Code NotApproved)"

text \<open>
  The instruction of \<open>lib.rs\<close> (the four assertions) and its handler; the account constraint on
  the signer comes first, and the account is created by the instruction.
\<close>

definition create_amm_config ::
  "pubkey \<Rightarrow> u8 \<Rightarrow> u16 \<Rightarrow> u16 \<Rightarrow> u32 \<Rightarrow> u32 \<Rightarrow> u32 \<Rightarrow> amm_config res" where
  "create_amm_config owner bump index tick_spacing trade_fee_rate protocol_fee_rate fund_fee_rate =
     rbind (require (owner = admin_id) (Code NotApproved)) (\<lambda>_.
     rbind (assertion (trade_fee_rate < FEE_RATE_DENOMINATOR_VALUE)) (\<lambda>_.
     rbind (assertion (protocol_fee_rate \<le> FEE_RATE_DENOMINATOR_VALUE)) (\<lambda>_.
     rbind (assertion (fund_fee_rate \<le> FEE_RATE_DENOMINATOR_VALUE)) (\<lambda>_.
     rbind (chk_add 32 fund_fee_rate protocol_fee_rate) (\<lambda>s.
     rbind (assertion (s \<le> FEE_RATE_DENOMINATOR_VALUE)) (\<lambda>_.
     Ok (default_amm_config
       \<lparr>ac_owner := owner, ac_bump := bump, ac_index := index, ac_trade_fee_rate := trade_fee_rate,
        ac_protocol_fee_rate := protocol_fee_rate, ac_tick_spacing := tick_spacing,
        ac_fund_fee_rate := fund_fee_rate, ac_fund_owner := owner\<rparr>)))))))"

definition update_protocol_fee_rate :: "amm_config \<Rightarrow> u32 \<Rightarrow> amm_config res" where
  "update_protocol_fee_rate amm_config protocol_fee_rate =
     rbind (assertion (protocol_fee_rate \<le> FEE_RATE_DENOMINATOR_VALUE)) (\<lambda>_.
     rbind (chk_add 32 protocol_fee_rate (ac_fund_fee_rate amm_config)) (\<lambda>s.
     rbind (assertion (s \<le> FEE_RATE_DENOMINATOR_VALUE)) (\<lambda>_.
     Ok (amm_config\<lparr>ac_protocol_fee_rate := protocol_fee_rate\<rparr>))))"

definition update_trade_fee_rate :: "amm_config \<Rightarrow> u32 \<Rightarrow> amm_config res" where
  "update_trade_fee_rate amm_config trade_fee_rate =
     rbind (assertion (trade_fee_rate < FEE_RATE_DENOMINATOR_VALUE)) (\<lambda>_.
     Ok (amm_config\<lparr>ac_trade_fee_rate := trade_fee_rate\<rparr>))"

definition update_fund_fee_rate :: "amm_config \<Rightarrow> u32 \<Rightarrow> amm_config res" where
  "update_fund_fee_rate amm_config fund_fee_rate =
     rbind (assertion (fund_fee_rate \<le> FEE_RATE_DENOMINATOR_VALUE)) (\<lambda>_.
     rbind (chk_add 32 fund_fee_rate (ac_protocol_fee_rate amm_config)) (\<lambda>s.
     rbind (assertion (s \<le> FEE_RATE_DENOMINATOR_VALUE)) (\<lambda>_.
     Ok (amm_config\<lparr>ac_fund_fee_rate := fund_fee_rate\<rparr>))))"

definition set_new_owner :: "amm_config \<Rightarrow> pubkey \<Rightarrow> amm_config" where
  "set_new_owner amm_config new_owner = amm_config\<lparr>ac_owner := new_owner\<rparr>"

definition set_new_fund_owner :: "amm_config \<Rightarrow> pubkey \<Rightarrow> amm_config" where
  "set_new_fund_owner amm_config new_fund_owner = amm_config\<lparr>ac_fund_owner := new_fund_owner\<rparr>"

text \<open>\<open>remaining_accounts.iter().next().unwrap().key\<close>\<close>

fun first_account :: "pubkey list \<Rightarrow> pubkey res" where
  "first_account [] = Panic"
| "first_account (k # ks) = Ok k"

definition update_amm_config ::
  "pubkey \<Rightarrow> pubkey list \<Rightarrow> amm_config \<Rightarrow> u8 \<Rightarrow> u32 \<Rightarrow> amm_config res" where
  "update_amm_config owner remaining_accounts amm_config param val =
     rbind (require (owner = admin_id) (Code NotApproved)) (\<lambda>_.
     if param = 0 then update_trade_fee_rate amm_config val
     else if param = 1 then update_protocol_fee_rate amm_config val
     else if param = 2 then update_fund_fee_rate amm_config val
     else if param = 3 then
       rbind (first_account remaining_accounts) (\<lambda>k. Ok (set_new_owner amm_config k))
     else if param = 4 then
       rbind (first_account remaining_accounts) (\<lambda>k. Ok (set_new_fund_owner amm_config k))
     else Err (Code InvalidUpdateConfigFlag))"

section \<open>The operation account\<close>

definition OPERATION_SIZE_USIZE :: usize where
  "OPERATION_SIZE_USIZE = 10"

definition WHITE_MINT_SIZE_USIZE :: usize where
  "WHITE_MINT_SIZE_USIZE = 100"

record operation_state =
  os_bump :: u8
  os_operation_owners :: "pubkey list"
  os_whitelist_mints :: "pubkey list"

definition operation_initialize :: "operation_state \<Rightarrow> u8 \<Rightarrow> operation_state" where
  "operation_initialize self bump =
     self\<lparr>os_bump := bump,
       os_operation_owners := replicate OPERATION_SIZE_USIZE default_pubkey,
       os_whitelist_mints := replicate WHITE_MINT_SIZE_USIZE default_pubkey\<rparr>"

definition validate_operation_owner :: "operation_state \<Rightarrow> pubkey \<Rightarrow> bool" where
  "validate_operation_owner self owner \<longleftrightarrow>
     owner \<noteq> default_pubkey \<and> owner \<in> set (os_operation_owners self)"

definition validate_whitelist_mint :: "operation_state \<Rightarrow> pubkey \<Rightarrow> bool" where
  "validate_whitelist_mint self mint \<longleftrightarrow>
     mint \<noteq> default_pubkey \<and> mint \<in> set (os_whitelist_mints self)"

text \<open>
  \<open>array = [default; n]; array[0..xs.len()].copy_from_slice(xs)\<close>: a slice longer than the
  array panics.
\<close>

definition fill_array :: "usize \<Rightarrow> pubkey list \<Rightarrow> pubkey list res" where
  "fill_array n xs =
     (if length xs \<le> n then Ok (xs @ replicate (n - length xs) default_pubkey) else Panic)"

text \<open>
  A \<open>HashSet\<close> iterates in an unspecified order: the parameter \<open>hash_order\<close> lists the elements
  of the set built from a vector.
\<close>

definition update_operation_owner ::
  "(pubkey list \<Rightarrow> pubkey list) \<Rightarrow> operation_state \<Rightarrow> pubkey list \<Rightarrow> operation_state res" where
  "update_operation_owner hash_order self keys =
     (let operation_owners = filter (\<lambda>item. item \<noteq> default_pubkey) (os_operation_owners self @ keys);
          updated_owner = sort (hash_order operation_owners) in
      rbind (fill_array OPERATION_SIZE_USIZE updated_owner) (\<lambda>arr.
      Ok (self\<lparr>os_operation_owners := arr\<rparr>)))"

definition remove_operation_owner :: "operation_state \<Rightarrow> pubkey list \<Rightarrow> operation_state res" where
  "remove_operation_owner self keys =
     rbind (fill_array OPERATION_SIZE_USIZE
              (filter (\<lambda>x. x \<notin> set keys) (os_operation_owners self))) (\<lambda>arr.
     Ok (self\<lparr>os_operation_owners := arr\<rparr>))"

definition update_whitelist_mint ::
  "(pubkey list \<Rightarrow> pubkey list) \<Rightarrow> operation_state \<Rightarrow> pubkey list \<Rightarrow> operation_state res" where
  "update_whitelist_mint hash_order self keys =
     (let whitelist_mints = filter (\<lambda>item. item \<noteq> default_pubkey) (os_whitelist_mints self @ keys);
          updated_mints = hash_order whitelist_mints in
      rbind (fill_array WHITE_MINT_SIZE_USIZE updated_mints) (\<lambda>arr.
      Ok (self\<lparr>os_whitelist_mints := arr\<rparr>)))"

definition remove_whitelist_mint :: "operation_state \<Rightarrow> pubkey list \<Rightarrow> operation_state res" where
  "remove_whitelist_mint self keys =
     rbind (fill_array WHITE_MINT_SIZE_USIZE
              (filter (\<lambda>x. x \<notin> set keys) (os_whitelist_mints self))) (\<lambda>arr.
     Ok (self\<lparr>os_whitelist_mints := arr\<rparr>))"

definition create_operation_account :: "pubkey \<Rightarrow> u8 \<Rightarrow> operation_state \<Rightarrow> operation_state res" where
  "create_operation_account owner bump operation_state =
     rbind (require (owner = admin_id) (Code NotApproved)) (\<lambda>_.
     Ok (operation_initialize operation_state bump))"

definition update_operation_account ::
  "(pubkey list \<Rightarrow> pubkey list) \<Rightarrow> pubkey \<Rightarrow> operation_state \<Rightarrow> u8 \<Rightarrow> pubkey list \<Rightarrow> operation_state res"
where
  "update_operation_account hash_order owner operation_state param keys =
     rbind (require (owner = admin_id) (Code NotApproved)) (\<lambda>_.
     if param = 0 then update_operation_owner hash_order operation_state keys
     else if param = 1 then remove_operation_owner operation_state keys
     else if param = 2 then update_whitelist_mint hash_order operation_state keys
     else if param = 3 then remove_whitelist_mint operation_state keys
     else Err (Code InvalidUpdateConfigFlag))"

section \<open>The order of a hash set\<close>

locale hash_set_order =
  fixes hash_order :: "pubkey list \<Rightarrow> pubkey list"
  assumes hash_order_set [simp]: "set (hash_order xs) = set xs"
    and hash_order_distinct [simp]: "distinct (hash_order xs)"
begin

lemma length_hash_order: "length (hash_order xs) = card (set xs)"
  by (metis distinct_card hash_order_set hash_order_distinct)

end

interpretation remdups_order: hash_set_order remdups
  by unfold_locales auto

lemma hash_set_order_remdups: "hash_set_order remdups"
  by (rule remdups_order.hash_set_order_axioms)

lemma fill_array_Ok:
  assumes "fill_array n xs = Ok arr"
  shows "length arr = n" "set arr - {default_pubkey} = set xs - {default_pubkey}"
    "arr = xs @ replicate (n - length xs) default_pubkey"
  using assms by (auto simp: fill_array_def split: if_splits)

definition known :: "pubkey list \<Rightarrow> pubkey set" where
  "known arr = set arr - {default_pubkey}"

lemma validate_iff:
  "validate_operation_owner s k \<longleftrightarrow> k \<in> known (os_operation_owners s)"
  "validate_whitelist_mint s k \<longleftrightarrow> k \<in> known (os_whitelist_mints s)"
  by (auto simp: validate_operation_owner_def validate_whitelist_mint_def known_def)

section \<open>Properties\<close>

text \<open>
  C32. The owner list of the operation account is a set with at most ten members: adding keys
  gives exactly the old owners and the new non-default keys, in ascending order, and panics
  exactly when that set has more than ten members; removing keys always succeeds and leaves
  exactly the other owners.  The whitelist is untouched by both.
\<close>

theorem operation_owners_are_a_set:
  assumes "hash_set_order h" "length (os_operation_owners s) = 10"
  shows "(if card (known (os_operation_owners s) \<union> known keys) \<le> 10 then
      \<exists>s'. update_operation_owner h s keys = Ok s' \<and> length (os_operation_owners s') = 10
        \<and> (\<forall>k. validate_operation_owner s' k \<longleftrightarrow>
             validate_operation_owner s k \<or> k \<in> set keys \<and> k \<noteq> default_pubkey)
        \<and> (\<exists>n. sorted (take n (os_operation_owners s')) \<and>
             set (drop n (os_operation_owners s')) \<subseteq> {default_pubkey})
        \<and> os_whitelist_mints s' = os_whitelist_mints s
    else update_operation_owner h s keys = Panic)
    \<and> (\<exists>s'. remove_operation_owner s keys = Ok s' \<and> length (os_operation_owners s') = 10
        \<and> (\<forall>k. validate_operation_owner s' k \<longleftrightarrow> validate_operation_owner s k \<and> k \<notin> set keys)
        \<and> os_whitelist_mints s' = os_whitelist_mints s)"
proof
  define xs where "xs = filter (\<lambda>item. item \<noteq> default_pubkey) (os_operation_owners s @ keys)"
  have set_xs: "set xs = known (os_operation_owners s) \<union> known keys"
    by (auto simp: xs_def known_def)
  have len: "length (sort (h xs)) = card (known (os_operation_owners s) \<union> known keys)"
    using hash_set_order.length_hash_order [OF assms(1), of xs] set_xs by simp
  have set_sort: "set (sort (h xs)) = known (os_operation_owners s) \<union> known keys"
    using hash_set_order.hash_order_set [OF assms(1)] set_xs by simp
  have upd: "update_operation_owner h s keys =
      rbind (fill_array 10 (sort (h xs))) (\<lambda>arr. Ok (s\<lparr>os_operation_owners := arr\<rparr>))"
    by (simp add: update_operation_owner_def xs_def OPERATION_SIZE_USIZE_def)
  show "if card (known (os_operation_owners s) \<union> known keys) \<le> 10 then
      \<exists>s'. update_operation_owner h s keys = Ok s' \<and> length (os_operation_owners s') = 10
        \<and> (\<forall>k. validate_operation_owner s' k \<longleftrightarrow>
             validate_operation_owner s k \<or> k \<in> set keys \<and> k \<noteq> default_pubkey)
        \<and> (\<exists>n. sorted (take n (os_operation_owners s')) \<and>
             set (drop n (os_operation_owners s')) \<subseteq> {default_pubkey})
        \<and> os_whitelist_mints s' = os_whitelist_mints s
    else update_operation_owner h s keys = Panic"
  proof (cases "card (known (os_operation_owners s) \<union> known keys) \<le> 10")
    case True
    define arr where "arr = sort (h xs) @ replicate (10 - length (sort (h xs))) default_pubkey"
    have fill: "fill_array 10 (sort (h xs)) = Ok arr"
      using True len by (simp add: fill_array_def arr_def)
    have "known arr = known (os_operation_owners s) \<union> known keys"
      using fill_array_Ok(2) [OF fill] unfolding set_sort by (auto simp: known_def)
    moreover have "sorted (take (length (sort (h xs))) arr)"
      "set (drop (length (sort (h xs))) arr) \<subseteq> {default_pubkey}"
      by (auto simp: arr_def)
    moreover have "update_operation_owner h s keys = Ok (s\<lparr>os_operation_owners := arr\<rparr>)"
      using fill by (simp add: upd)
    ultimately show ?thesis
      using True fill_array_Ok(1) [OF fill]
      by (auto simp: validate_iff known_def intro!: exI [of _ "length (sort (h xs))"])
  next
    case False
    then show ?thesis
      using len by (simp add: upd fill_array_def)
  qed
  define ys where "ys = filter (\<lambda>x. x \<notin> set keys) (os_operation_owners s)"
  have "length ys \<le> 10"
    unfolding ys_def using length_filter_le [of "\<lambda>x. x \<notin> set keys" "os_operation_owners s"] assms(2)
    by simp
  then obtain arr where fill: "fill_array 10 ys = Ok arr"
    by (simp add: fill_array_def)
  have "remove_operation_owner s keys = Ok (s\<lparr>os_operation_owners := arr\<rparr>)"
    using fill by (simp add: remove_operation_owner_def ys_def OPERATION_SIZE_USIZE_def)
  moreover have "known arr = known ys"
    using fill_array_Ok(2) [OF fill] by (simp add: known_def)
  ultimately show "\<exists>s'. remove_operation_owner s keys = Ok s' \<and> length (os_operation_owners s') = 10
      \<and> (\<forall>k. validate_operation_owner s' k \<longleftrightarrow> validate_operation_owner s k \<and> k \<notin> set keys)
      \<and> os_whitelist_mints s' = os_whitelist_mints s"
    using fill_array_Ok(1) [OF fill] by (auto simp: validate_iff known_def ys_def)
qed

definition sample_operation_state :: operation_state where
  "sample_operation_state =
     \<lparr>os_bump = 0, os_operation_owners = replicate 10 0, os_whitelist_mints = replicate 100 0\<rparr>"

theorem operation_owners_are_a_set_witness:
  "\<exists>s'. update_operation_owner remdups sample_operation_state [7, 3, 7] = Ok s'
    \<and> validate_operation_owner s' 3 \<and> validate_operation_owner s' 7 \<and> \<not> validate_operation_owner s' 5"
proof -
  have "known (os_operation_owners sample_operation_state) \<union> known [7, 3, 7] = {3, 7}"
    by (auto simp: known_def sample_operation_state_def default_pubkey_def)
  then have small: "card (known (os_operation_owners sample_operation_state) \<union> known [7, 3, 7]) \<le> 10"
    by simp
  have len: "length (os_operation_owners sample_operation_state) = 10"
    by (simp add: sample_operation_state_def)
  have no: "\<not> validate_operation_owner sample_operation_state k" for k
    by (auto simp: sample_operation_state_def validate_operation_owner_def default_pubkey_def)
  show ?thesis
    using conjunct1 [OF operation_owners_are_a_set [OF hash_set_order_remdups len, of "[7, 3, 7]"],
        unfolded if_P [OF small]]
    by (auto simp: no default_pubkey_def)
qed

section \<open>Reachable configurations\<close>

text \<open>What the instructions can do to one configuration account, in any order.\<close>

inductive config_reachable :: "amm_config \<Rightarrow> bool" where
  created: "create_amm_config owner bump index tick_spacing trade protocol fund = Ok c \<Longrightarrow>
    config_reachable c"
| updated: "config_reachable c \<Longrightarrow> update_amm_config owner accounts c param val = Ok c' \<Longrightarrow>
    config_reachable c'"

definition rates_ok :: "amm_config \<Rightarrow> bool" where
  "rates_ok c \<longleftrightarrow> ac_trade_fee_rate c < 1000000 \<and> ac_protocol_fee_rate c + ac_fund_fee_rate c \<le> 1000000"

lemma update_amm_config_rates:
  assumes "rates_ok c" "update_amm_config owner accounts c param val = Ok c'"
  shows "owner = admin_id \<and> rates_ok c' \<and> ac_tick_spacing c' = ac_tick_spacing c \<and> ac_index c' = ac_index c \<and> ac_bump c' = ac_bump c"
  using assms
  by (auto simp: update_amm_config_def update_trade_fee_rate_def update_protocol_fee_rate_def
      update_fund_fee_rate_def set_new_owner_def set_new_fund_owner_def rates_ok_def res_inv
      FEE_RATE_DENOMINATOR_VALUE_def split: if_splits)

lemma config_reachable_rates: "config_reachable c \<Longrightarrow> rates_ok c"
proof (induction rule: config_reachable.induct)
  case created
  then show ?case
    by (auto simp: create_amm_config_def res_inv rates_ok_def FEE_RATE_DENOMINATOR_VALUE_def)
next
  case updated
  then show ?case using update_amm_config_rates by blast
qed

text \<open>
  C33. Every configuration that the instructions can reach has a trade fee below 100\<open>%\<close> and
  protocol and fund shares that together are at most the whole fee, and no update changes
  its tick spacing, index or bump.
\<close>

theorem config_rates_invariant:
  assumes "config_reachable c"
  shows "rates_ok c \<and> (update_amm_config owner accounts c param val = Ok c' \<longrightarrow>
    owner = admin_id \<and> rates_ok c' \<and> ac_tick_spacing c' = ac_tick_spacing c
    \<and> ac_index c' = ac_index c \<and> ac_bump c' = ac_bump c)"
  using config_reachable_rates [OF assms] update_amm_config_rates by blast

theorem config_rates_invariant_witness:
  "\<exists>c c'. config_reachable c \<and> update_amm_config admin_id [] c 0 2500 = Ok c' \<and> rates_ok c'
    \<and> ac_trade_fee_rate c' = 2500"
proof -
  obtain c where c: "create_amm_config admin_id 255 1 10 3000 120000 40000 = Ok c"
    by (simp add: create_amm_config_def FEE_RATE_DENOMINATOR_VALUE_def native_eval)
  obtain c' where c': "update_amm_config admin_id [] c 0 2500 = Ok c'" "ac_trade_fee_rate c' = 2500"
    by (simp add: update_amm_config_def update_trade_fee_rate_def FEE_RATE_DENOMINATOR_VALUE_def)
  show ?thesis
    using config_rates_invariant [OF created [OF c], of admin_id "[]" 0 2500 c'] created [OF c] c' by blast
qed

end
