(* ===== verification/Pool.thy ===== *)
theory Pool
  imports Bitmap_Extension Config
begin

text \<open>
  \<open>states/pool.rs\<close>: the pool account, its rewards, its default map of tick arrays and its
  status bits.  Keys derived from seeds and the loading of a passed account are not code of
  the repository: derivations are a parameter, and a passed account carries the outcome of
  loading it.
\<close>

lemma rbind_fundef_cong [fundef_cong]:
  "m = m' \<Longrightarrow> (\<And>x. m' = Ok x \<Longrightarrow> f x = g x) \<Longrightarrow> rbind m f = rbind m' g"
  by (cases m') auto

section \<open>State\<close>

definition OBSERVATION_UPDATE_DURATION_DEFAULT :: u16 where
  "OBSERVATION_UPDATE_DURATION_DEFAULT = 15"

text \<open>The limits of a build without the feature \<open>paramset\<close>.\<close>

definition MIN_REWARD_PERIOD :: u64 where
  "MIN_REWARD_PERIOD = 7 * 24 * 60 * 60"

definition MAX_REWARD_PERIOD :: u64 where
  "MAX_REWARD_PERIOD = 90 * 24 * 60 * 60"

definition INCREASE_EMISSIONES_PERIOD :: u64 where
  "INCREASE_EMISSIONES_PERIOD = 72 * 60 * 60"

datatype pool_status_bit_index =
  OpenPositionOrIncreaseLiquidity | DecreaseLiquidity | CollectFee | CollectReward | Swap

primrec status_bit_as_u8 :: "pool_status_bit_index \<Rightarrow> u8" where
  "status_bit_as_u8 OpenPositionOrIncreaseLiquidity = 0"
| "status_bit_as_u8 DecreaseLiquidity = 1"
| "status_bit_as_u8 CollectFee = 2"
| "status_bit_as_u8 CollectReward = 3"
| "status_bit_as_u8 Swap = 4"

datatype pool_status_bit_flag = Enable | Disable

record pool_state =
  ps_bump :: u8
  ps_amm_config :: pubkey
  ps_owner :: pubkey
  ps_token_mint_0 :: pubkey
  ps_token_mint_1 :: pubkey
  ps_token_vault_0 :: pubkey
  ps_token_vault_1 :: pubkey
  ps_observation_key :: pubkey
  ps_mint_decimals_0 :: u8
  ps_mint_decimals_1 :: u8
  ps_tick_spacing :: u16
  ps_liquidity :: u128
  ps_sqrt_price_x64 :: u128
  ps_tick_current :: i32
  ps_observation_index :: u16
  ps_observation_update_duration :: u16
  ps_fee_growth_global_0_x64 :: u128
  ps_fee_growth_global_1_x64 :: u128
  ps_protocol_fees_token_0 :: u64
  ps_protocol_fees_token_1 :: u64
  ps_swap_in_amount_token_0 :: u128
  ps_swap_out_amount_token_1 :: u128
  ps_swap_in_amount_token_1 :: u128
  ps_swap_out_amount_token_0 :: u128
  ps_status :: u8
  ps_reward_infos :: "reward_info list"
  ps_tick_array_bitmap :: bignum
  ps_total_fees_token_0 :: u64
  ps_total_fees_claimed_token_0 :: u64
  ps_total_fees_token_1 :: u64
  ps_total_fees_claimed_token_1 :: u64
  ps_fund_fees_token_0 :: u64
  ps_fund_fees_token_1 :: u64
  ps_open_time :: u64

definition default_pool :: pool_state where
  "default_pool = \<lparr>
     ps_bump = 0, ps_amm_config = default_pubkey, ps_owner = default_pubkey,
     ps_token_mint_0 = default_pubkey, ps_token_mint_1 = default_pubkey,
     ps_token_vault_0 = default_pubkey, ps_token_vault_1 = default_pubkey,
     ps_observation_key = default_pubkey, ps_mint_decimals_0 = 0, ps_mint_decimals_1 = 0,
     ps_tick_spacing = 0, ps_liquidity = 0, ps_sqrt_price_x64 = 0, ps_tick_current = 0,
     ps_observation_index = 0, ps_observation_update_duration = 0,
     ps_fee_growth_global_0_x64 = 0, ps_fee_growth_global_1_x64 = 0,
     ps_protocol_fees_token_0 = 0, ps_protocol_fees_token_1 = 0,
     ps_swap_in_amount_token_0 = 0, ps_swap_out_amount_token_1 = 0,
     ps_swap_in_amount_token_1 = 0, ps_swap_out_amount_token_0 = 0, ps_status = 0,
     ps_reward_infos = replicate REWARD_NUM (new_reward_info default_pubkey),
     ps_tick_array_bitmap = replicate 16 0,
     ps_total_fees_token_0 = 0, ps_total_fees_claimed_token_0 = 0,
     ps_total_fees_token_1 = 0, ps_total_fees_claimed_token_1 = 0,
     ps_fund_fees_token_0 = 0, ps_fund_fees_token_1 = 0, ps_open_time = 0\<rparr>"

text \<open>Seed-derived addresses: \<open>Pubkey::create_program_address\<close> and \<open>find_program_address\<close>.\<close>

record pda =
  pda_pool :: "pubkey \<Rightarrow> pubkey \<Rightarrow> pubkey \<Rightarrow> u8 \<Rightarrow> pubkey res"
  pda_bitmap_extension :: "pubkey \<Rightarrow> pubkey"
  pda_tick_array :: "pubkey \<Rightarrow> i32 \<Rightarrow> pubkey"
  pda_position :: "pubkey \<Rightarrow> pubkey"
  pda_protocol_position :: "pubkey \<Rightarrow> i32 \<Rightarrow> i32 \<Rightarrow> pubkey"
  pda_observation :: "pubkey \<Rightarrow> pubkey"

definition pool_key :: "pda \<Rightarrow> pool_state \<Rightarrow> pubkey res" where
  "pool_key D self =
     unwrap_result (pda_pool D (ps_amm_config self) (ps_token_mint_0 self) (ps_token_mint_1 self)
       (ps_bump self))"

text \<open>The parts of a mint account that the pool reads.\<close>

record mint =
  mint_key :: pubkey
  mint_decimals :: u8

definition pool_initialize ::
  "pool_state \<Rightarrow> u8 \<Rightarrow> u128 \<Rightarrow> u64 \<Rightarrow> i32 \<Rightarrow> pubkey \<Rightarrow> pubkey \<Rightarrow> pubkey \<Rightarrow> pubkey \<Rightarrow> amm_config \<Rightarrow>
   mint \<Rightarrow> mint \<Rightarrow> pubkey \<Rightarrow> pool_state res" where
  "pool_initialize self bump sqrt_price_x64 open_time tick pool_creator token_vault_0 token_vault_1
      amm_config_key amm_config token_mint_0 token_mint_1 observation_state_key =
     Ok (self\<lparr>
       ps_bump := bump, ps_amm_config := amm_config_key, ps_owner := pool_creator,
       ps_token_mint_0 := mint_key token_mint_0, ps_token_mint_1 := mint_key token_mint_1,
       ps_mint_decimals_0 := mint_decimals token_mint_0,
       ps_mint_decimals_1 := mint_decimals token_mint_1,
       ps_token_vault_0 := token_vault_0, ps_token_vault_1 := token_vault_1,
       ps_tick_spacing := ac_tick_spacing amm_config, ps_liquidity := 0,
       ps_sqrt_price_x64 := sqrt_price_x64, ps_tick_current := tick,
       ps_observation_update_duration := OBSERVATION_UPDATE_DURATION_DEFAULT,
       ps_observation_index := 0,
       ps_reward_infos := replicate REWARD_NUM (new_reward_info pool_creator),
       ps_fee_growth_global_0_x64 := 0, ps_fee_growth_global_1_x64 := 0,
       ps_protocol_fees_token_0 := 0, ps_protocol_fees_token_1 := 0,
       ps_swap_in_amount_token_0 := 0, ps_swap_out_amount_token_1 := 0,
       ps_swap_in_amount_token_1 := 0, ps_swap_out_amount_token_0 := 0,
       ps_status := 0, ps_tick_array_bitmap := replicate 16 0,
       ps_total_fees_token_0 := 0, ps_total_fees_claimed_token_0 := 0,
       ps_total_fees_token_1 := 0, ps_total_fees_claimed_token_1 := 0,
       ps_fund_fees_token_0 := 0, ps_fund_fees_token_1 := 0, ps_open_time := open_time,
       ps_observation_key := observation_state_key\<rparr>)"

definition pool_check_reset :: "pool_state \<Rightarrow> u128 \<Rightarrow> i32 \<Rightarrow> pool_state res" where
  "pool_check_reset self sqrt_price_x64 tick =
     rbind (require (tick \<ge> MIN_TICK \<and> tick \<le> MAX_TICK) (Code InvaildTickIndex)) (\<lambda>_.
     if \<not> bn_is_zero (ps_tick_array_bitmap self) then Err (Code NotApproved)
     else Ok (self\<lparr>
       ps_sqrt_price_x64 := sqrt_price_x64, ps_tick_current := tick, ps_liquidity := 0,
       ps_observation_index := 0,
       ps_fee_growth_global_0_x64 := 0, ps_fee_growth_global_1_x64 := 0,
       ps_protocol_fees_token_0 := 0, ps_protocol_fees_token_1 := 0,
       ps_swap_in_amount_token_0 := 0, ps_swap_out_amount_token_1 := 0,
       ps_swap_in_amount_token_1 := 0, ps_swap_out_amount_token_0 := 0,
       ps_total_fees_token_0 := 0, ps_total_fees_claimed_token_0 := 0,
       ps_total_fees_token_1 := 0, ps_total_fees_claimed_token_1 := 0,
       ps_reward_infos := replicate REWARD_NUM (new_reward_info (ps_owner self))\<rparr>))"

section \<open>Rewards\<close>

text \<open>\<open>iter().position\<close>: the first element that satisfies the predicate.\<close>

fun position :: "('a \<Rightarrow> bool) \<Rightarrow> 'a list \<Rightarrow> nat option" where
  "position P [] = None"
| "position P (x # xs) = (if P x then Some 0 else map_option Suc (position P xs))"

definition pool_initialize_reward ::
  "pool_state \<Rightarrow> u64 \<Rightarrow> u64 \<Rightarrow> u128 \<Rightarrow> pubkey \<Rightarrow> pubkey \<Rightarrow> pubkey \<Rightarrow> operation_state \<Rightarrow> pool_state res" where
  "pool_initialize_reward self open_time end_time reward_per_second_x64 token_mint token_vault
      authority operation_state =
     (let reward_infos = ps_reward_infos self in
      case position (\<lambda>r. \<not> reward_initialized r) reward_infos of
        None \<Rightarrow> Err (Code FullRewardInfo)
      | Some lowest_index \<Rightarrow>
          if lowest_index \<ge> REWARD_NUM then Err (Code FullRewardInfo)
          else
            let reward_mints = map ri_token_mint reward_infos;
                whitelist_mints = os_whitelist_mints operation_state in
            rbind (require (token_mint \<notin> set reward_mints) (Code RewardTokenAlreadyInUse)) (\<lambda>_.
            rbind
              (if lowest_index = REWARD_NUM - 2 then
                 if ps_token_mint_0 self \<notin> set reward_mints \<and> ps_token_mint_1 self \<notin> set reward_mints
                 then require (token_mint = ps_token_mint_0 self \<or> token_mint = ps_token_mint_1 self
                               \<or> token_mint \<in> set whitelist_mints) (Code ExceptPoolVaultMint)
                 else Ok ()
               else if lowest_index = REWARD_NUM - 1 then
                 require (authority = admin_id \<or> validate_operation_owner operation_state authority)
                   (Code NotApproved)
               else Ok ()) (\<lambda>_.
            Ok (self\<lparr>ps_reward_infos := reward_infos[lowest_index :=
              (reward_infos ! lowest_index)\<lparr>
                ri_last_update_time := open_time, ri_open_time := open_time,
                ri_end_time := end_time, ri_emissions_per_second_x64 := reward_per_second_x64,
                ri_token_mint := token_mint, ri_token_vault := token_vault,
                ri_authority := authority\<rparr>]\<rparr>))))"

text \<open>The body of the loop of \<open>update_reward_infos\<close> for one reward, and the loop.\<close>

definition accrue_reward :: "uint_lib \<Rightarrow> u128 \<Rightarrow> u64 \<Rightarrow> reward_info \<Rightarrow> reward_info res" where
  "accrue_reward U liquidity latest_update_timestamp info =
     (if liquidity \<noteq> 0 then
        rbind (require (latest_update_timestamp \<ge> ri_last_update_time info) RequireGteViolated) (\<lambda>_.
        rbind (unwrap (checked_sub latest_update_timestamp (ri_last_update_time info))) (\<lambda>time_delta.
        rbind (mul_div_floor_u256 U time_delta (ri_emissions_per_second_x64 info) liquidity) (\<lambda>m.
        rbind (unwrap m) (\<lambda>reward_growth_delta.
        rbind (u_as_u128 U reward_growth_delta) (\<lambda>d.
        rbind (unwrap (checked_add 128 (ri_reward_growth_global_x64 info) d)) (\<lambda>growth.
        rbind (mul_div_ceil_u128 U time_delta (ri_emissions_per_second_x64 info) Q64) (\<lambda>e.
        rbind (unwrap e) (\<lambda>emitted.
        rbind (u_as_u64 U emitted) (\<lambda>emitted.
        rbind (unwrap (checked_add 64 (ri_reward_total_emissioned info) emitted)) (\<lambda>total.
        Ok (info\<lparr>ri_reward_growth_global_x64 := growth, ri_reward_total_emissioned := total\<rparr>)))))))))))
      else Ok info)"

definition update_reward_info :: "uint_lib \<Rightarrow> u128 \<Rightarrow> u64 \<Rightarrow> reward_info \<Rightarrow> reward_info res" where
  "update_reward_info U liquidity curr_timestamp info =
     (if \<not> reward_initialized info then Ok info
      else if curr_timestamp \<le> ri_open_time info then Ok info
      else
        let latest_update_timestamp = min curr_timestamp (ri_end_time info) in
        rbind (accrue_reward U liquidity latest_update_timestamp info) (\<lambda>info.
        let info = info\<lparr>ri_last_update_time := latest_update_timestamp\<rparr> in
        Ok (if latest_update_timestamp \<ge> ri_open_time info \<and> latest_update_timestamp < ri_end_time info
            then info\<lparr>ri_reward_state := reward_state_as_u8 Opening\<rparr>
            else if latest_update_timestamp = ri_end_time info
            then info\<lparr>ri_reward_state := reward_state_as_u8 Ended\<rparr>
            else info)))"

fun update_reward_infos_loop :: "uint_lib \<Rightarrow> u128 \<Rightarrow> u64 \<Rightarrow> reward_info list \<Rightarrow> reward_info list res" where
  "update_reward_infos_loop U liquidity curr_timestamp [] = Ok []"
| "update_reward_infos_loop U liquidity curr_timestamp (info # infos) =
     rbind (update_reward_info U liquidity curr_timestamp info) (\<lambda>info.
     rbind (update_reward_infos_loop U liquidity curr_timestamp infos) (\<lambda>infos. Ok (info # infos)))"

definition update_reward_infos ::
  "uint_lib \<Rightarrow> pool_state \<Rightarrow> u64 \<Rightarrow> (reward_info list \<times> pool_state) res" where
  "update_reward_infos U self curr_timestamp =
     rbind (update_reward_infos_loop U (ps_liquidity self) curr_timestamp (ps_reward_infos self))
       (\<lambda>next_reward_infos.
     Ok (next_reward_infos, self\<lparr>ps_reward_infos := next_reward_infos\<rparr>))"

definition check_unclaimed_reward :: "pool_state \<Rightarrow> usize \<Rightarrow> u64 \<Rightarrow> unit res" where
  "check_unclaimed_reward self index reward_amount_owed =
     rbind (assertion (index < REWARD_NUM)) (\<lambda>_.
     let info = ps_reward_infos self ! index in
     rbind (unwrap (checked_sub (ri_reward_total_emissioned info) (ri_reward_claimed info)))
       (\<lambda>unclaimed_reward.
     require (unclaimed_reward \<ge> reward_amount_owed) RequireGteViolated))"

definition add_reward_clamed :: "pool_state \<Rightarrow> usize \<Rightarrow> u64 \<Rightarrow> pool_state res" where
  "add_reward_clamed self index amount =
     rbind (assertion (index < REWARD_NUM)) (\<lambda>_.
     let info = ps_reward_infos self ! index in
     rbind (unwrap (checked_add 64 (ri_reward_claimed info) amount)) (\<lambda>claimed.
     Ok (self\<lparr>ps_reward_infos := (ps_reward_infos self)[index := info\<lparr>ri_reward_claimed := claimed\<rparr>]\<rparr>)))"

section \<open>Tick arrays in use\<close>

definition get_tick_array_offset :: "pool_state \<Rightarrow> i32 \<Rightarrow> usize res" where
  "get_tick_array_offset self tick_array_start_index =
     rbind (check_is_valid_start_index tick_array_start_index (ps_tick_spacing self)) (\<lambda>valid.
     rbind (require valid (Code InvaildTickIndex)) (\<lambda>_.
     rbind (i_div 32 tick_array_start_index (tick_count (ps_tick_spacing self))) (\<lambda>q.
     rbind (chk_i 32 (q + TICK_ARRAY_BITMAP_SIZE)) (\<lambda>offset.
     Ok (nat (offset mod 2 ^ 64))))))"

definition flip_tick_array_bit_internal :: "pool_state \<Rightarrow> i32 \<Rightarrow> pool_state res" where
  "flip_tick_array_bit_internal self tick_array_start_index =
     rbind (get_tick_array_offset self tick_array_start_index) (\<lambda>offset.
     let mask = bn_shl (bn_one 16) offset in
     Ok (self\<lparr>ps_tick_array_bitmap := bn_xor (ps_tick_array_bitmap self) mask\<rparr>))"

definition tick_array_start_index_range :: "pool_state \<Rightarrow> (i32 \<times> i32) res" where
  "tick_array_start_index_range self =
     (let max_tick_boundary = max_tick_in_tickarray_bitmap (ps_tick_spacing self);
          min_tick_boundary = - max_tick_boundary in
      rbind (if max_tick_boundary > MAX_TICK then
               rbind (get_array_start_index MAX_TICK (ps_tick_spacing self)) (\<lambda>m.
               chk_i 32 (m + tick_count (ps_tick_spacing self)))
             else Ok max_tick_boundary) (\<lambda>max_tick_boundary.
      rbind (if min_tick_boundary < MIN_TICK
             then get_array_start_index MIN_TICK (ps_tick_spacing self)
             else Ok min_tick_boundary) (\<lambda>min_tick_boundary.
      Ok (min_tick_boundary, max_tick_boundary))))"

text \<open>The loop over the given ticks.\<close>

fun any_outside :: "u16 \<Rightarrow> i32 \<Rightarrow> i32 \<Rightarrow> i32 list \<Rightarrow> bool res" where
  "any_outside tick_spacing lo hi [] = Ok False"
| "any_outside tick_spacing lo hi (tick_index # rest) =
     rbind (get_array_start_index tick_index tick_spacing) (\<lambda>tick_array_start_index.
     if tick_array_start_index \<ge> hi \<or> tick_array_start_index < lo then Ok True
     else any_outside tick_spacing lo hi rest)"

definition is_overflow_default_tickarray_bitmap :: "pool_state \<Rightarrow> i32 list \<Rightarrow> bool res" where
  "is_overflow_default_tickarray_bitmap self tick_indexs =
     rbind (tick_array_start_index_range self) (\<lambda>(lo, hi).
     any_outside (ps_tick_spacing self) lo hi tick_indexs)"

text \<open>
  An account passed as bitmap extension: its key and what \<open>AccountLoader::try_from\<close> and
  \<open>load_mut\<close> give for it.
\<close>

record extension_account =
  ea_key :: pubkey
  ea_load :: "bitmap_extension res"

definition flip_tick_array_bit ::
  "pda \<Rightarrow> pool_state \<Rightarrow> extension_account option \<Rightarrow> i32 \<Rightarrow> (pool_state \<times> extension_account option) res"
where
  "flip_tick_array_bit D self tickarray_bitmap_extension tick_array_start_index =
     rbind (is_overflow_default_tickarray_bitmap self [tick_array_start_index]) (\<lambda>overflow.
     if overflow then
       rbind (unwrap tickarray_bitmap_extension) (\<lambda>account.
       rbind (pool_key D self) (\<lambda>key.
       rbind (require (ea_key account = pda_bitmap_extension D key) RequireKeysEqViolated) (\<lambda>_.
       rbind (ea_load account) (\<lambda>ext.
       rbind (extension_flip_tick_array_bit ext tick_array_start_index (ps_tick_spacing self)) (\<lambda>ext.
       Ok (self, Some (account\<lparr>ea_load := Ok ext\<rparr>)))))))
     else
       rbind (flip_tick_array_bit_internal self tick_array_start_index) (\<lambda>self.
       Ok (self, tickarray_bitmap_extension)))"

text \<open>Neither search runs past its starting point: the loop over the two maps makes progress.\<close>

lemma get_bitmap_tick_boundary_OkD:
  assumes "get_bitmap_tick_boundary t ts = Ok (lo, hi)"
  shows "lo \<le> t" "t < hi"
proof -
  define B where "B = max_tick_in_tickarray_bitmap ts"
  have B: "0 < B"
    using assms by (auto simp: get_bitmap_tick_boundary_def Let_def res_inv i_div_def B_def
        max_tick_eq tick_count_eq split: if_splits)
  define a where "a = \<bar>t\<bar>"
  define k r where "k = a div B" and "r = a mod B"
  have q: "a = k * B + r" "0 \<le> r" "r < B" "0 \<le> a"
    using B by (simp_all add: a_def k_def r_def)
  have div: "a sdiv B = k" and rem: "a smod B = r"
    using B q(4) by (simp_all add: sdiv_nonneg signed_modulo_int_def sgn_if k_def r_def)
  note ok = assms [unfolded get_bitmap_tick_boundary_def Let_def, folded a_def B_def]
  have "if t < 0 then lo = - (B * (if r \<noteq> 0 then k + 1 else k)) \<and> hi = lo + B
    else lo = B * k \<and> hi = lo + B"
    using ok B by (auto simp: res_inv i_div_def i_rem_def chk_i_eq_Ok_iff div rem split: if_splits)
  moreover have "t = (if t < 0 then - a else a)"
    by (simp add: a_def)
  ultimately show "lo \<le> t" "t < hi"
    using q by (auto simp: algebra_simps split: if_splits)
qed

lemma default_map_progress:
  assumes "next_initialized_tick_array_start_index bm t ts z = Ok (False, s)"
  shows "0 < tick_count ts" "if z then s \<le> t else t \<le> s"
proof -
  show n: "0 < tick_count ts"
  proof (rule ccontr)
    assume "\<not> 0 < tick_count ts"
    then have "tick_count ts = 0" by (simp add: tick_count_eq)
    with assms show False
      by (auto simp: next_initialized_tick_array_start_index_def check_is_valid_start_index_def res_inv
          i_rem_def i_div_def get_array_start_index_def Let_def split: if_splits)
  qed
  show "if z then s \<le> t else t \<le> s"
    using assms n
    by (auto simp: next_initialized_tick_array_start_index_def Let_def res_inv chk_i_eq_Ok_iff
        split: if_splits option.splits)
qed

lemma one_map_progress:
  assumes "next_initialized_tick_array_from_one_bitmap ext t ts z = Ok (False, s)" "0 < tick_count ts"
  shows "if z then s < t else t < s"
proof -
  define nxt where "nxt = (if z then t - tick_count ts else t + tick_count ts)"
  from assms(1) consider "s = nxt"
    | bm where "next_initialized_tick_array_in_bitmap bm nxt ts z = Ok (False, s)"
    by (auto simp: next_initialized_tick_array_from_one_bitmap_def Let_def res_inv chk_i_eq_Ok_iff
        nxt_def split: if_splits)
  then show ?thesis
  proof cases
    case 1
    with assms(2) show ?thesis by (auto simp: nxt_def)
  next
    case 2
    then obtain lo hi where "get_bitmap_tick_boundary nxt ts = Ok (lo, hi)"
      and "s = (if z then lo else hi - tick_count ts)"
      by (auto simp: next_initialized_tick_array_in_bitmap_def Let_def res_inv chk_i_eq_Ok_iff
          split: if_splits option.splits)
    with get_bitmap_tick_boundary_OkD [of nxt ts lo hi] assms(2) show ?thesis
      by (auto simp: nxt_def)
  qed
qed

text \<open>The loop over the default map and the extension, which terminates on every input.\<close>

function pool_next_loop ::
  "pool_state \<Rightarrow> bitmap_extension option \<Rightarrow> i32 \<Rightarrow> bool \<Rightarrow> i32 option res" where
  "pool_next_loop self tickarray_bitmap_extension last_tick_array_start_index zero_for_one =
     rbind (next_initialized_tick_array_start_index (ps_tick_array_bitmap self)
              last_tick_array_start_index (ps_tick_spacing self) zero_for_one) (\<lambda>(is_found, start_index).
     if is_found then Ok (Some start_index)
     else
       case tickarray_bitmap_extension of
         None \<Rightarrow> Err (Code MissingTickArrayBitmapExtensionAccount)
       | Some ext \<Rightarrow>
           rbind (next_initialized_tick_array_from_one_bitmap ext start_index (ps_tick_spacing self)
                    zero_for_one) (\<lambda>(is_found, start_index).
           if is_found then Ok (Some start_index)
           else if start_index < MIN_TICK \<or> start_index > MAX_TICK then Ok None
           else pool_next_loop self tickarray_bitmap_extension start_index zero_for_one))"
  by pat_completeness auto
termination
proof (relation "measure (\<lambda>(self, ext, last_start, z). nat (if z then last_start - MIN_TICK + 1 else MAX_TICK - last_start + 1))")
  show "wf (measure (\<lambda>(self, ext, last_start, z).
      nat (if z then last_start - MIN_TICK + 1 else MAX_TICK - last_start + 1)))"
    by simp
next
  fix self ext last_start z x f s e y g t
  assume a: "next_initialized_tick_array_start_index (ps_tick_array_bitmap self) last_start
      (ps_tick_spacing self) z = Ok x" "(f, s) = x" "\<not> f"
    and b: "next_initialized_tick_array_from_one_bitmap e s (ps_tick_spacing self) z = Ok y"
      "(g, t) = y" "\<not> g" "\<not> (t < MIN_TICK \<or> MAX_TICK < t)"
  have "next_initialized_tick_array_start_index (ps_tick_array_bitmap self) last_start
      (ps_tick_spacing self) z = Ok (False, s)"
    using a by simp
  from default_map_progress [OF this] one_map_progress [of e s "ps_tick_spacing self" z t] b
  show "((self, ext, t, z), self, ext, last_start, z)
    \<in> measure (\<lambda>(self, ext, last_start, z).
      nat (if z then last_start - MIN_TICK + 1 else MAX_TICK - last_start + 1))"
    by (cases z) auto
qed


declare pool_next_loop.simps [simp del]

definition pool_next_initialized_tick_array_start_index ::
  "pool_state \<Rightarrow> bitmap_extension option \<Rightarrow> i32 \<Rightarrow> bool \<Rightarrow> i32 option res" where
  "pool_next_initialized_tick_array_start_index self tickarray_bitmap_extension
      last_tick_array_start_index zero_for_one =
     rbind (get_array_start_index last_tick_array_start_index (ps_tick_spacing self)) (\<lambda>start.
     pool_next_loop self tickarray_bitmap_extension start zero_for_one)"

definition get_first_initialized_tick_array ::
  "pool_state \<Rightarrow> bitmap_extension option \<Rightarrow> bool \<Rightarrow> (bool \<times> i32) res" where
  "get_first_initialized_tick_array self tickarray_bitmap_extension zero_for_one =
     rbind (is_overflow_default_tickarray_bitmap self [ps_tick_current self]) (\<lambda>overflow.
     rbind (if overflow then
              rbind (unwrap tickarray_bitmap_extension) (\<lambda>ext.
              rbind (get_array_start_index (ps_tick_current self) (ps_tick_spacing self)) (\<lambda>start.
              check_tick_array_is_initialized ext start (ps_tick_spacing self)))
            else check_current_tick_array_is_initialized (ps_tick_array_bitmap self)
                   (ps_tick_current self) (ps_tick_spacing self)) (\<lambda>(is_initialized, start_index).
     if is_initialized then Ok (True, start_index)
     else
       rbind (get_array_start_index (ps_tick_current self) (ps_tick_spacing self)) (\<lambda>start.
       rbind (pool_next_initialized_tick_array_start_index self tickarray_bitmap_extension start
                zero_for_one) (\<lambda>next_start_index.
       rbind (require (next_start_index \<noteq> None) (Code InsufficientLiquidityForDirection)) (\<lambda>_.
       rbind (unwrap next_start_index) (\<lambda>n. Ok (False, n)))))))"

section \<open>Status bits\<close>

definition set_status :: "pool_state \<Rightarrow> u8 \<Rightarrow> pool_state" where
  "set_status self status = self\<lparr>ps_status := status\<rparr>"

definition set_status_by_bit :: "pool_state \<Rightarrow> pool_status_bit_index \<Rightarrow> pool_status_bit_flag \<Rightarrow> pool_state"
where
  "set_status_by_bit self b flag =
     (let s = 1 * 2 ^ status_bit_as_u8 b mod 2 ^ 8 in
      if flag = Disable then self\<lparr>ps_status := ps_status self OR s\<rparr>
      else let m = 255 XOR s in self\<lparr>ps_status := ps_status self AND m\<rparr>)"

definition get_status_by_bit :: "pool_state \<Rightarrow> pool_status_bit_index \<Rightarrow> bool" where
  "get_status_by_bit self b \<longleftrightarrow>
     (let status = 1 * 2 ^ status_bit_as_u8 b mod 2 ^ 8 in ps_status self AND status = 0)"

end
