(* ===== verification/Positions.thy ===== *)
theory Positions
  imports Pool
begin

text \<open>
  Positions and the change of their liquidity: \<open>states/protocol_position.rs\<close> (one record per
  pool and range, shared by all owners), \<open>states/personal_position.rs\<close> (one record per position
  token), and \<open>modify_position\<close> and \<open>update_position\<close> of \<open>instructions/open_position.rs\<close>, through
  which every change of liquidity goes.
\<close>

section \<open>The position of a range\<close>

record protocol_position =
  pp_bump :: u8
  pp_pool_id :: pubkey
  pp_tick_lower_index :: i32
  pp_tick_upper_index :: i32
  pp_liquidity :: u128
  pp_fee_growth_inside_0_last_x64 :: u128
  pp_fee_growth_inside_1_last_x64 :: u128
  pp_token_fees_owed_0 :: u64
  pp_token_fees_owed_1 :: u64
  pp_reward_growth_inside :: "u128 list"

definition default_protocol_position :: protocol_position where
  "default_protocol_position =
     \<lparr>pp_bump = 0, pp_pool_id = default_pubkey, pp_tick_lower_index = 0, pp_tick_upper_index = 0,
      pp_liquidity = 0, pp_fee_growth_inside_0_last_x64 = 0, pp_fee_growth_inside_1_last_x64 = 0,
      pp_token_fees_owed_0 = 0, pp_token_fees_owed_1 = 0,
      pp_reward_growth_inside = replicate REWARD_NUM 0\<rparr>"

definition update_reward_growths_inside :: "protocol_position \<Rightarrow> u128 list \<Rightarrow> protocol_position" where
  "update_reward_growths_inside self reward_growths_inside =
     self\<lparr>pp_reward_growth_inside := reward_growths_inside\<rparr>"

text \<open>The two fee computations of \<open>update\<close>.\<close>

definition protocol_tokens_owed :: "uint_lib \<Rightarrow> u128 \<Rightarrow> u128 \<Rightarrow> u128 \<Rightarrow> u64 res" where
  "protocol_tokens_owed U fee_growth_inside_x64 fee_growth_inside_last_x64 liquidity =
     rbind (mul_div_floor_u128 U (saturating_sub fee_growth_inside_x64 fee_growth_inside_last_x64)
              liquidity Q64) (\<lambda>m.
     rbind (unwrap m) (\<lambda>owed. to_underflow_u64_u128 U owed))"

definition protocol_position_update ::
  "uint_lib \<Rightarrow> protocol_position \<Rightarrow> i32 \<Rightarrow> i32 \<Rightarrow> i128 \<Rightarrow> u128 \<Rightarrow> u128 \<Rightarrow> u128 list \<Rightarrow> protocol_position res"
where
  "protocol_position_update U self tick_lower_index tick_upper_index liquidity_delta
      fee_growth_inside_0_x64 fee_growth_inside_1_x64 reward_growths_inside =
     rbind (require (tick_lower_index \<ge> MIN_TICK \<and> tick_lower_index \<le> MAX_TICK)
              (Code TickLowerOverflow)) (\<lambda>_.
     rbind (require (tick_upper_index \<ge> MIN_TICK \<and> tick_upper_index \<le> MAX_TICK)
              (Code TickUpperOverflow)) (\<lambda>_.
     rbind (if liquidity_delta = 0 then
              rbind (require (pp_liquidity self > 0) (Code InvaildLiquidity)) (\<lambda>_. Ok (pp_liquidity self))
            else add_delta (pp_liquidity self) liquidity_delta) (\<lambda>liquidity_next.
     rbind (protocol_tokens_owed U fee_growth_inside_0_x64 (pp_fee_growth_inside_0_last_x64 self)
              (pp_liquidity self)) (\<lambda>tokens_owed_0.
     rbind (protocol_tokens_owed U fee_growth_inside_1_x64 (pp_fee_growth_inside_1_last_x64 self)
              (pp_liquidity self)) (\<lambda>tokens_owed_1.
     let self = (if liquidity_delta \<noteq> 0 then self\<lparr>pp_liquidity := liquidity_next\<rparr> else self);
         self = self\<lparr>pp_fee_growth_inside_0_last_x64 := fee_growth_inside_0_x64,
                     pp_fee_growth_inside_1_last_x64 := fee_growth_inside_1_x64,
                     pp_tick_lower_index := tick_lower_index,
                     pp_tick_upper_index := tick_upper_index\<rparr> in
     rbind (if tokens_owed_0 > 0 \<or> tokens_owed_1 > 0 then
              rbind (unwrap (checked_add 64 (pp_token_fees_owed_0 self) tokens_owed_0)) (\<lambda>owed_0.
              rbind (unwrap (checked_add 64 (pp_token_fees_owed_1 self) tokens_owed_1)) (\<lambda>owed_1.
              Ok (self\<lparr>pp_token_fees_owed_0 := owed_0, pp_token_fees_owed_1 := owed_1\<rparr>)))
            else Ok self) (\<lambda>self.
     Ok (update_reward_growths_inside self reward_growths_inside)))))))"

section \<open>The position of an owner\<close>

record position_reward_info =
  pr_growth_inside_last_x64 :: u128
  pr_reward_amount_owed :: u64

record personal_position =
  pe_bump :: u8
  pe_nft_mint :: pubkey
  pe_pool_id :: pubkey
  pe_tick_lower_index :: i32
  pe_tick_upper_index :: i32
  pe_liquidity :: u128
  pe_fee_growth_inside_0_last_x64 :: u128
  pe_fee_growth_inside_1_last_x64 :: u128
  pe_token_fees_owed_0 :: u64
  pe_token_fees_owed_1 :: u64
  pe_reward_infos :: "position_reward_info list"

definition default_personal_position :: personal_position where
  "default_personal_position =
     \<lparr>pe_bump = 0, pe_nft_mint = default_pubkey, pe_pool_id = default_pubkey,
      pe_tick_lower_index = 0, pe_tick_upper_index = 0, pe_liquidity = 0,
      pe_fee_growth_inside_0_last_x64 = 0, pe_fee_growth_inside_1_last_x64 = 0,
      pe_token_fees_owed_0 = 0, pe_token_fees_owed_1 = 0,
      pe_reward_infos =
        replicate REWARD_NUM \<lparr>pr_growth_inside_last_x64 = 0, pr_reward_amount_owed = 0\<rparr>\<rparr>"

text \<open>One turn of the loop of \<open>update_rewards\<close>, and the loop.\<close>

definition update_reward ::
  "uint_lib \<Rightarrow> u128 \<Rightarrow> bool \<Rightarrow> u128 \<Rightarrow> position_reward_info \<Rightarrow> position_reward_info res" where
  "update_reward U liquidity with_delta growth_inside curr_reward_info =
     rbind (if with_delta then
              let reward_growth_delta =
                    wrapping_sub 128 growth_inside (pr_growth_inside_last_x64 curr_reward_info) in
              rbind (mul_div_floor_u256 U reward_growth_delta liquidity Q64) (\<lambda>m.
              rbind (unwrap m) (\<lambda>owed.
              rbind (to_underflow_u64_u256 U owed) (\<lambda>amount_owed_delta.
              rbind (unwrap (checked_add 64 (pr_reward_amount_owed curr_reward_info) amount_owed_delta))
                (\<lambda>owed. Ok (curr_reward_info\<lparr>pr_reward_amount_owed := owed\<rparr>)))))
            else Ok curr_reward_info) (\<lambda>info.
     Ok (info\<lparr>pr_growth_inside_last_x64 := growth_inside\<rparr>))"

fun update_rewards_loop ::
  "uint_lib \<Rightarrow> u128 \<Rightarrow> bool \<Rightarrow> u128 list \<Rightarrow> position_reward_info list \<Rightarrow> position_reward_info list res" where
  "update_rewards_loop U liquidity with_delta (g # gs) (info # infos) =
     rbind (update_reward U liquidity with_delta g info) (\<lambda>info.
     rbind (update_rewards_loop U liquidity with_delta gs infos) (\<lambda>infos. Ok (info # infos)))"
| "update_rewards_loop U liquidity with_delta gs infos = Ok infos"

definition update_rewards :: "uint_lib \<Rightarrow> personal_position \<Rightarrow> u128 list \<Rightarrow> bool \<Rightarrow> personal_position res" where
  "update_rewards U self reward_growths_inside with_delta =
     rbind (update_rewards_loop U (pe_liquidity self) with_delta reward_growths_inside (pe_reward_infos self))
       (\<lambda>infos. Ok (self\<lparr>pe_reward_infos := infos\<rparr>))"

definition calculate_latest_token_fees :: "uint_lib \<Rightarrow> u64 \<Rightarrow> u128 \<Rightarrow> u128 \<Rightarrow> u128 \<Rightarrow> u64 res" where
  "calculate_latest_token_fees U last_total_fees fee_growth_inside_last_x64
      fee_growth_inside_latest_x64 liquidity =
     rbind (mul_div_floor_u128 U
              (wrapping_sub 128 fee_growth_inside_latest_x64 fee_growth_inside_last_x64)
              liquidity Q64) (\<lambda>m.
     rbind (unwrap m) (\<lambda>d.
     rbind (to_underflow_u64_u128 U d) (\<lambda>fee_growth_delta.
     unwrap (checked_add 64 last_total_fees fee_growth_delta))))"

section \<open>Changing the liquidity of a range\<close>

text \<open>\<open>update_position\<close> returns the two flips; the states it mutates come after them.\<close>

definition update_position ::
  "uint_lib \<Rightarrow> i128 \<Rightarrow> pool_state \<Rightarrow> protocol_position \<Rightarrow> tick_state \<Rightarrow> tick_state \<Rightarrow> u64 \<Rightarrow>
   (bool \<times> bool \<times> pool_state \<times> protocol_position \<times> tick_state \<times> tick_state) res" where
  "update_position U liquidity_delta pool protocol_position tick_lower tick_upper timestamp =
     rbind (update_reward_infos U pool timestamp) (\<lambda>(updated_reward_infos, pool).
     rbind (if liquidity_delta \<noteq> 0 then
              rbind (tick_update tick_lower (ps_tick_current pool) liquidity_delta
                       (ps_fee_growth_global_0_x64 pool) (ps_fee_growth_global_1_x64 pool) False
                       updated_reward_infos) (\<lambda>(flipped_lower, tick_lower).
              rbind (tick_update tick_upper (ps_tick_current pool) liquidity_delta
                       (ps_fee_growth_global_0_x64 pool) (ps_fee_growth_global_1_x64 pool) True
                       updated_reward_infos) (\<lambda>(flipped_upper, tick_upper).
              Ok (flipped_lower, tick_lower, flipped_upper, tick_upper)))
            else Ok (False, tick_lower, False, tick_upper))
       (\<lambda>(flipped_lower, tick_lower, flipped_upper, tick_upper).
     rbind (get_fee_growth_inside tick_lower tick_upper (ps_tick_current pool)
              (ps_fee_growth_global_0_x64 pool) (ps_fee_growth_global_1_x64 pool))
       (\<lambda>(fee_growth_inside_0_x64, fee_growth_inside_1_x64).
     rbind (get_reward_growths_inside tick_lower tick_upper (ps_tick_current pool) updated_reward_infos)
       (\<lambda>reward_growths_inside.
     rbind (protocol_position_update U protocol_position (ts_tick tick_lower) (ts_tick tick_upper)
              liquidity_delta fee_growth_inside_0_x64 fee_growth_inside_1_x64 reward_growths_inside)
       (\<lambda>protocol_position.
     let tick_lower = (if liquidity_delta < 0 \<and> flipped_lower then tick_clear tick_lower else tick_lower);
         tick_upper = (if liquidity_delta < 0 \<and> flipped_upper then tick_clear tick_upper else tick_upper) in
     Ok (flipped_lower, flipped_upper, pool, protocol_position, tick_lower, tick_upper))))))"

definition modify_position ::
  "uint_lib \<Rightarrow> i128 \<Rightarrow> pool_state \<Rightarrow> protocol_position \<Rightarrow> tick_state \<Rightarrow> tick_state \<Rightarrow> u64 \<Rightarrow>
   ((u64 \<times> u64 \<times> bool \<times> bool) \<times> pool_state \<times> protocol_position \<times> tick_state \<times> tick_state) res" where
  "modify_position U liquidity_delta pool protocol_position tick_lower tick_upper timestamp =
     rbind (update_position U liquidity_delta pool protocol_position tick_lower tick_upper timestamp)
       (\<lambda>(flip_tick_lower, flip_tick_upper, pool, protocol_position, tick_lower, tick_upper).
     if liquidity_delta \<noteq> 0 then
       rbind (get_delta_amounts_signed U (ps_tick_current pool) (ps_sqrt_price_x64 pool)
                (ts_tick tick_lower) (ts_tick tick_upper) liquidity_delta) (\<lambda>(amount_0, amount_1).
       rbind (if ps_tick_current pool \<ge> ts_tick tick_lower \<and> ps_tick_current pool < ts_tick tick_upper
              then rbind (add_delta (ps_liquidity pool) liquidity_delta) (\<lambda>l. Ok (pool\<lparr>ps_liquidity := l\<rparr>))
              else Ok pool) (\<lambda>pool.
       Ok ((amount_0, amount_1, flip_tick_lower, flip_tick_upper), pool, protocol_position,
           tick_lower, tick_upper)))
     else Ok ((0, 0, flip_tick_lower, flip_tick_upper), pool, protocol_position, tick_lower, tick_upper))"

end
