(* ===== verification/Ledger.thy ===== *)
theory Ledger
  imports Positions
begin

text \<open>
  The abstract state of a pool's liquidity: how much of it stands on every range of ticks.
  From it follow the gross and net liquidity of every tick and the liquidity that is active at
  a tick; the records of the program implement this ledger.
\<close>

section \<open>The ledger\<close>

type_synonym ledger = "int \<times> int \<Rightarrow> nat"

definition ticks :: "int set" where
  "ticks = {MIN_TICK..MAX_TICK}"

definition wf_ledger :: "ledger \<Rightarrow> bool" where
  "wf_ledger L \<longleftrightarrow> (\<forall>l u. L (l, u) \<noteq> 0 \<longrightarrow> l \<in> ticks \<and> u \<in> ticks \<and> l < u)"

definition starting_at :: "ledger \<Rightarrow> int \<Rightarrow> nat" where
  "starting_at L t = (\<Sum>u \<in> ticks. L (t, u))"

definition ending_at :: "ledger \<Rightarrow> int \<Rightarrow> nat" where
  "ending_at L t = (\<Sum>l \<in> ticks. L (l, t))"

definition gross_at :: "ledger \<Rightarrow> int \<Rightarrow> nat" where
  "gross_at L t = starting_at L t + ending_at L t"

definition net_at :: "ledger \<Rightarrow> int \<Rightarrow> int" where
  "net_at L t = int (starting_at L t) - int (ending_at L t)"

definition active_at :: "ledger \<Rightarrow> int \<Rightarrow> nat" where
  "active_at L t = (\<Sum>(l, u) \<in> ticks \<times> ticks. if l \<le> t \<and> t < u then L (l, u) else 0)"

lemma finite_ticks [simp]: "finite ticks"
  by (simp add: ticks_def)

text \<open>Moving the current tick over \<open>t\<close> changes the active liquidity by the net liquidity of \<open>t\<close>.\<close>

lemma sum_row: "(\<Sum>(l, u) \<in> ticks \<times> ticks. if l = t then f u else (0::int)) = (if t \<in> ticks then \<Sum>u \<in> ticks. f u else 0)"
proof -
  have "(\<Sum>(l, u) \<in> ticks \<times> ticks. if l = t then f u else 0) = (\<Sum>l \<in> ticks. if l = t then \<Sum>u \<in> ticks. f u else 0)"
    unfolding sum.cartesian_product [symmetric] by (intro sum.cong) auto
  then show ?thesis by simp
qed

lemma sum_column: "(\<Sum>(l, u) \<in> ticks \<times> ticks. if u = t then f l else (0::int)) = (if t \<in> ticks then \<Sum>l \<in> ticks. f l else 0)"
proof -
  have "(\<Sum>(l, u) \<in> ticks \<times> ticks. if u = t then f l else 0) = (\<Sum>l \<in> ticks. \<Sum>u \<in> ticks. if u = t then f l else 0)"
    unfolding sum.cartesian_product [symmetric] ..
  also have "\<dots> = (\<Sum>l \<in> ticks. if t \<in> ticks then f l else 0)"
    by (intro sum.cong) auto
  finally show ?thesis by auto
qed

lemma outside_ledger:
  assumes "wf_ledger L" "t \<notin> ticks"
  shows "starting_at L t = 0" "ending_at L t = 0"
proof -
  have "L (t, u) = 0" "L (l, t) = 0" for l u
    using assms by (auto simp: wf_ledger_def)
  then show "starting_at L t = 0" "ending_at L t = 0"
    by (simp_all add: starting_at_def ending_at_def)
qed

lemma active_step:
  assumes "wf_ledger L"
  shows "int (active_at L t) = int (active_at L (t - 1)) + net_at L t"
proof -
  have point: "int (if l \<le> t \<and> t < u then L (l, u) else 0) =
      int (if l \<le> t - 1 \<and> t - 1 < u then L (l, u) else 0)
      + (if l = t then int (L (t, u)) else 0) - (if u = t then int (L (l, t)) else 0)" for l u
    using assms by (cases "l < u") (auto simp: wf_ledger_def)
  have "int (active_at L t) = (\<Sum>(l, u) \<in> ticks \<times> ticks. int (if l \<le> t \<and> t < u then L (l, u) else 0))"
    unfolding active_at_def of_nat_sum by (intro sum.cong) auto
  also have "\<dots> = (\<Sum>(l, u) \<in> ticks \<times> ticks. int (if l \<le> t - 1 \<and> t - 1 < u then L (l, u) else 0))
      + (\<Sum>(l, u) \<in> ticks \<times> ticks. if l = t then int (L (t, u)) else 0)
      - (\<Sum>(l, u) \<in> ticks \<times> ticks. if u = t then int (L (l, t)) else 0)"
    unfolding point sum.distrib [symmetric] sum_subtractf [symmetric] by (intro sum.cong) auto
  also have "(\<Sum>(l, u) \<in> ticks \<times> ticks. int (if l \<le> t - 1 \<and> t - 1 < u then L (l, u) else 0)) = int (active_at L (t - 1))"
    unfolding active_at_def of_nat_sum by (intro sum.cong) auto
  also have "(\<Sum>(l, u) \<in> ticks \<times> ticks. if l = t then int (L (t, u)) else 0) = int (starting_at L t)"
    using outside_ledger [OF assms, of t] by (auto simp: sum_row starting_at_def)
  also have "(\<Sum>(l, u) \<in> ticks \<times> ticks. if u = t then int (L (l, t)) else 0) = int (ending_at L t)"
    using outside_ledger [OF assms, of t] by (auto simp: sum_column ending_at_def)
  finally show ?thesis by (simp add: net_at_def)
qed

text \<open>Between ticks without liquidity nothing changes.\<close>

lemma active_between:
  assumes "wf_ledger L" "s \<le> t" "\<And>x. s < x \<Longrightarrow> x \<le> t \<Longrightarrow> net_at L x = 0"
  shows "active_at L t = active_at L s"
  using assms(2,3)
proof (induction t rule: int_ge_induct)
  case (step i)
  then show ?case
    using active_step [OF assms(1), of "i + 1"] by simp
qed simp

section \<open>Changing one range\<close>

lemma sum_update:
  assumes "finite A" "a \<in> A"
  shows "(\<Sum>x \<in> A. (f(a := v)) x) + f a = (\<Sum>x \<in> A. f x) + (v :: nat)"
proof -
  have "(\<Sum>x \<in> A - {a}. (f(a := v)) x) = (\<Sum>x \<in> A - {a}. f x)"
    by (intro sum.cong) auto
  then show ?thesis
    unfolding sum.remove [OF assms] by simp
qed

lemma change_range:
  fixes v :: nat
  assumes L: "wf_ledger L" and lu: "l \<in> ticks" "u \<in> ticks" "l < u"
  defines "L' \<equiv> L((l, u) := v)"
  shows "wf_ledger L'"
    and "int (starting_at L' t) = int (starting_at L t) + (if t = l then int v - int (L (l, u)) else 0)"
    and "int (ending_at L' t) = int (ending_at L t) + (if t = u then int v - int (L (l, u)) else 0)"
    and "int (active_at L' t) = int (active_at L t) + (if l \<le> t \<and> t < u then int v - int (L (l, u)) else 0)"
proof -
  show "wf_ledger L'"
    using L lu by (auto simp: wf_ledger_def L'_def)
  show "int (starting_at L' t) = int (starting_at L t) + (if t = l then int v - int (L (l, u)) else 0)"
  proof (cases "t = l")
    case True
    have "(\<Sum>x \<in> ticks. ((\<lambda>x. L (l, x))(u := v)) x) + L (l, u) = (\<Sum>x \<in> ticks. L (l, x)) + v"
      using sum_update [of ticks u "\<lambda>x. L (l, x)" v] lu by simp
    moreover have "(\<lambda>x. L (l, x))(u := v) = (\<lambda>x. L' (l, x))" by (auto simp: L'_def)
    ultimately have "starting_at L' t + L (l, u) = starting_at L t + v"
      using True by (simp add: starting_at_def)
    then show ?thesis using True by simp
  qed (simp add: starting_at_def L'_def)
  show "int (ending_at L' t) = int (ending_at L t) + (if t = u then int v - int (L (l, u)) else 0)"
  proof (cases "t = u")
    case True
    have "(\<Sum>x \<in> ticks. ((\<lambda>x. L (x, u))(l := v)) x) + L (l, u) = (\<Sum>x \<in> ticks. L (x, u)) + v"
      using sum_update [of ticks l "\<lambda>x. L (x, u)" v] lu by simp
    moreover have "(\<lambda>x. L (x, u))(l := v) = (\<lambda>x. L' (x, u))" by (auto simp: L'_def)
    ultimately have "ending_at L' t + L (l, u) = ending_at L t + v"
      using True by (simp add: ending_at_def)
    then show ?thesis using True by simp
  qed (simp add: ending_at_def L'_def)
  show "int (active_at L' t) = int (active_at L t) + (if l \<le> t \<and> t < u then int v - int (L (l, u)) else 0)"
  proof -
    let ?f = "\<lambda>L (x, y). if x \<le> t \<and> t < y then L (x, y) else (0::nat)"
    have "(\<Sum>x \<in> ticks \<times> ticks. ((?f L)((l, u) := ?f L' (l, u))) x) + ?f L (l, u) = (\<Sum>x \<in> ticks \<times> ticks. ?f L x) + ?f L' (l, u)"
      using lu by (intro sum_update) simp_all
    moreover have "(?f L)((l, u) := ?f L' (l, u)) = ?f L'" by (auto simp: L'_def fun_eq_iff)
    ultimately have "active_at L' t + ?f L (l, u) = active_at L t + ?f L' (l, u)"
      by (simp only: active_at_def)
    then show ?thesis by (auto simp: L'_def split: if_splits)
  qed
qed


section \<open>The program's records\<close>

definition tick_represents :: "ledger \<Rightarrow> int \<Rightarrow> tick_state \<Rightarrow> bool" where
  "tick_represents L t T \<longleftrightarrow>
     ts_tick T = t \<and> ts_liquidity_gross T = gross_at L t \<and> ts_liquidity_net T = net_at L t"

definition pool_represents :: "ledger \<Rightarrow> pool_state \<Rightarrow> bool" where
  "pool_represents L p \<longleftrightarrow> ps_liquidity p = active_at L (ps_tick_current p)"

lemma update_reward_infos_OkD:
  assumes "update_reward_infos U p t = Ok (rs, p')"
  shows "p' = p\<lparr>ps_reward_infos := rs\<rparr>"
  using assms by (auto simp: update_reward_infos_def res_inv)

lemma protocol_position_update_OkD:
  assumes "protocol_position_update U pos l u d g0 g1 rg = Ok pos'" "pp_liquidity pos < 2 ^ 128"
  shows "int (pp_liquidity pos') = int (pp_liquidity pos) + d" "pp_liquidity pos' < 2 ^ 128"
    "pp_fee_growth_inside_0_last_x64 pos' = g0" "pp_fee_growth_inside_1_last_x64 pos' = g1"
    "pp_reward_growth_inside pos' = rg" "pp_tick_lower_index pos' = l" "pp_tick_upper_index pos' = u"
    "l \<in> ticks" "u \<in> ticks" "pp_bump pos' = pp_bump pos" "pp_pool_id pos' = pp_pool_id pos"
proof -
  define next_is where "next_is z \<longleftrightarrow> (if d = 0 then z = pp_liquidity pos else add_delta (pp_liquidity pos) d = Ok z)" for z
  from assms(1) obtain z where "next_is z" "pp_liquidity pos' = z"
    and rest: "pp_fee_growth_inside_0_last_x64 pos' = g0" "pp_fee_growth_inside_1_last_x64 pos' = g1"
    "pp_reward_growth_inside pos' = rg" "pp_tick_lower_index pos' = l" "pp_tick_upper_index pos' = u"
    "l \<in> ticks" "u \<in> ticks" "pp_bump pos' = pp_bump pos" "pp_pool_id pos' = pp_pool_id pos"
    by (auto simp: protocol_position_update_def next_is_def Let_def res_inv ticks_def
        update_reward_growths_inside_def split: if_splits)
  with assms(2) show "int (pp_liquidity pos') = int (pp_liquidity pos) + d" "pp_liquidity pos' < 2 ^ 128"
    by (auto simp: next_is_def add_delta_eq_Ok_iff split: if_splits)
  show "pp_fee_growth_inside_0_last_x64 pos' = g0" "pp_fee_growth_inside_1_last_x64 pos' = g1"
    "pp_reward_growth_inside pos' = rg" "pp_tick_lower_index pos' = l" "pp_tick_upper_index pos' = u"
    "l \<in> ticks" "u \<in> ticks" "pp_bump pos' = pp_bump pos" "pp_pool_id pos' = pp_pool_id pos"
    by (fact rest)+
qed

text \<open>The liquidity of a tick after a change of \<open>d\<close>, cleared when it is gone.\<close>

definition changed_tick :: "bool \<Rightarrow> int \<Rightarrow> tick_state \<Rightarrow> bool \<times> tick_state \<Rightarrow> bool" where
  "changed_tick upper d T r \<longleftrightarrow> (case r of (flipped, T') \<Rightarrow>
     0 \<le> int (ts_liquidity_gross T) + d \<and> ts_tick T' = ts_tick T
     \<and> int (ts_liquidity_gross T') = int (ts_liquidity_gross T) + d
     \<and> flipped = ((ts_liquidity_gross T' = 0) \<noteq> (ts_liquidity_gross T = 0))
     \<and> ts_liquidity_net T' = (if d < 0 \<and> flipped then 0
          else if upper then ts_liquidity_net T - d else ts_liquidity_net T + d))"

lemma tick_update_changed:
  assumes "tick_update T c d g0 g1 upper rs = Ok (f, T')" "ts_liquidity_gross T < 2 ^ 128"
  shows "changed_tick upper d T (f, if d < 0 \<and> f then tick_clear T' else T')"
proof -
  note u = tick_update_OkD [OF assms(2,1)]
  have "ts_liquidity_gross T' = 0" if "d < 0" "f" using u(1,4) that by auto
  then show ?thesis
    using u by (auto simp: changed_tick_def tick_clear_def)
qed

lemma update_position_OkD:
  assumes "update_position U d p pos lo up now = Ok (fl, fu, p', pos', lo', up')"
    and "ts_liquidity_gross lo < 2 ^ 128" "ts_liquidity_gross up < 2 ^ 128" "pp_liquidity pos < 2 ^ 128"
  shows "\<exists>rs. p' = p\<lparr>ps_reward_infos := rs\<rparr>"
    and "if d = 0 then \<not> fl \<and> \<not> fu \<and> lo' = lo \<and> up' = up
      else changed_tick False d lo (fl, lo') \<and> changed_tick True d up (fu, up')"
    and "int (pp_liquidity pos') = int (pp_liquidity pos) + d"
    and "pp_tick_lower_index pos' = ts_tick lo" "pp_tick_upper_index pos' = ts_tick up"
    and "pp_pool_id pos' = pp_pool_id pos"
proof -
  from assms(1) obtain rs q lo1 up1 g0 g1 rg where rew: "update_reward_infos U p now = Ok (rs, q)"
    and upd: "if d = 0 then \<not> fl \<and> \<not> fu \<and> lo1 = lo \<and> up1 = up else
      tick_update lo (ps_tick_current q) d (ps_fee_growth_global_0_x64 q) (ps_fee_growth_global_1_x64 q) False rs = Ok (fl, lo1)
      \<and> tick_update up (ps_tick_current q) d (ps_fee_growth_global_0_x64 q) (ps_fee_growth_global_1_x64 q) True rs = Ok (fu, up1)"
    and pos: "protocol_position_update U pos (ts_tick lo1) (ts_tick up1) d g0 g1 rg = Ok pos'"
    and res: "p' = q" "lo' = (if d < 0 \<and> fl then tick_clear lo1 else lo1)" "up' = (if d < 0 \<and> fu then tick_clear up1 else up1)"
    by (cases "d = 0") (auto simp: update_position_def Let_def res_inv split: prod.splits)
  show "\<exists>rs. p' = p\<lparr>ps_reward_infos := rs\<rparr>"
    using update_reward_infos_OkD [OF rew] res(1) by blast
  show chg: "if d = 0 then \<not> fl \<and> \<not> fu \<and> lo' = lo \<and> up' = up
      else changed_tick False d lo (fl, lo') \<and> changed_tick True d up (fu, up')"
  proof (cases "d = 0")
    case False
    then have "tick_update lo (ps_tick_current q) d (ps_fee_growth_global_0_x64 q) (ps_fee_growth_global_1_x64 q) False rs = Ok (fl, lo1)"
      "tick_update up (ps_tick_current q) d (ps_fee_growth_global_0_x64 q) (ps_fee_growth_global_1_x64 q) True rs = Ok (fu, up1)"
      using upd by simp_all
    from tick_update_changed [OF this(1) assms(2)] tick_update_changed [OF this(2) assms(3)] False
    show ?thesis unfolding res by simp
  qed (use upd res in simp)
  have ids: "ts_tick lo1 = ts_tick lo" "ts_tick up1 = ts_tick up"
    using upd tick_update_OkD(5) assms(2,3) by (auto split: if_splits)
  note p' = protocol_position_update_OkD [OF pos assms(4)]
  show "int (pp_liquidity pos') = int (pp_liquidity pos) + d"
    "pp_tick_lower_index pos' = ts_tick lo" "pp_tick_upper_index pos' = ts_tick up" "pp_pool_id pos' = pp_pool_id pos"
    using p' ids by auto
qed

lemma modify_position_OkD:
  assumes "modify_position U d p pos lo up now = Ok ((a0, a1, fl, fu), p', pos', lo', up')"
  shows "\<exists>q. update_position U d p pos lo up now = Ok (fl, fu, q, pos', lo', up')
    \<and> (if d = 0 then a0 = 0 \<and> a1 = 0 \<and> p' = q
       else get_delta_amounts_signed U (ps_tick_current q) (ps_sqrt_price_x64 q) (ts_tick lo') (ts_tick up') d = Ok (a0, a1)
         \<and> (if ts_tick lo' \<le> ps_tick_current q \<and> ps_tick_current q < ts_tick up'
            then \<exists>l. add_delta (ps_liquidity q) d = Ok l \<and> p' = q\<lparr>ps_liquidity := l\<rparr> else p' = q))"
proof -
  from assms obtain x where x: "update_position U d p pos lo up now = Ok x"
    by (auto simp only: modify_position_def rbind_eq_Ok_iff)
  obtain gl gu q pos1 lo1 up1 where x': "x = (gl, gu, q, pos1, lo1, up1)"
    by (metis prod_cases6)
  note ok = assms [unfolded modify_position_def x x' rbind.simps prod.case]
  show ?thesis
  proof (cases "d = 0")
    case True
    with ok x x' show ?thesis by simp
  next
    case False
    note ok' = ok [unfolded if_P [OF False]]
    then obtain b0 b1 where g: "get_delta_amounts_signed U (ps_tick_current q) (ps_sqrt_price_x64 q) (ts_tick lo1) (ts_tick up1) d = Ok (b0, b1)"
      by (auto simp only: rbind_eq_Ok_iff)
    show ?thesis
    proof (cases "ts_tick lo1 \<le> ps_tick_current q \<and> ps_tick_current q < ts_tick up1")
      case True
      then show ?thesis using ok' g x False unfolding x' by (auto simp: rbind_eq_Ok_iff)
    next
      case out: False
      then show ?thesis using ok' [unfolded g rbind.simps prod.case if_not_P [OF out]] g x False unfolding x' by auto
    qed
  qed
qed

section \<open>A sample\<close>

definition empty_ledger :: ledger where
  "empty_ledger = (\<lambda>r. 0)"

definition sample_range_pool :: pool_state where
  "sample_range_pool = default_pool\<lparr>ps_sqrt_price_x64 := 2 ^ 64, ps_tick_spacing := 1\<rparr>"

lemma empty_ledger_wf: "wf_ledger empty_ledger" "gross_at empty_ledger t = 0" "net_at empty_ledger t = 0"
  "active_at empty_ledger t = 0"
  by (simp_all add: wf_ledger_def empty_ledger_def gross_at_def net_at_def starting_at_def ending_at_def
      active_at_def case_prod_beta)

lemma sample_amounts:
  "\<exists>r. get_delta_amounts_signed uint_ref 0 (2 ^ 64) MIN_TICK MAX_TICK 1000 = Ok r"
proof -
  have t: "\<not> (0 < MIN_TICK)" "0 < MAX_TICK" "MIN_TICK \<le> MAX_TICK" by (simp_all add: MIN_TICK_def MAX_TICK_def)
  have p: "get_sqrt_price_at_tick uint_ref MIN_TICK = Ok MIN_SQRT_PRICE_X64"
    "get_sqrt_price_at_tick uint_ref MAX_TICK = Ok MAX_SQRT_PRICE_X64"
    using uint_ref.get_sqrt_price_at_tick_Ok [of MIN_TICK] uint_ref.get_sqrt_price_at_tick_Ok [of MAX_TICK] t
    by (simp_all add: price_at_MIN_TICK price_at_MAX_TICK)
  show ?thesis
    by (simp add: get_delta_amounts_signed_def t p get_delta_amount_0_signed_def get_delta_amount_1_signed_def
        uint_ref.get_delta_amount_0_unsigned_eq uint_ref.get_delta_amount_1_unsigned_eq amount_0_of_def amount_1_of_def
        MIN_SQRT_PRICE_X64_def MAX_SQRT_PRICE_X64_def cdiv_def)
qed

lemma sample_update:
  "\<exists>f g p r l u. update_position uint_ref 1000 sample_range_pool default_protocol_position
     (default_tick_state\<lparr>ts_tick := MIN_TICK\<rparr>) (default_tick_state\<lparr>ts_tick := MAX_TICK\<rparr>) 5 = Ok (f, g, p, r, l, u)
     \<and> ps_tick_current p = 0 \<and> ps_sqrt_price_x64 p = 2 ^ 64 \<and> ps_liquidity p = 0 \<and> ts_tick l = MIN_TICK \<and> ts_tick u = MAX_TICK"
  by (simp add: update_position_def update_reward_infos_def sample_range_pool_def
      default_pool_def update_reward_info_def new_reward_info_def reward_initialized_def default_pubkey_def REWARD_NUM_def
      numeral_3_eq_3 tick_update_def default_tick_state_def Let_def add_delta_def native_eval chk_i_def unwrap_i128_def get_reward_growths_def
      get_fee_growth_inside_def get_reward_growths_inside_def reward_growth_inside_def
      protocol_position_update_def default_protocol_position_def protocol_tokens_owed_def uint_ref.mul_div_floor_u128_eq
      fits_def Q64_def uint_ref.to_underflow_u64_eq
      update_reward_growths_inside_def
      MIN_TICK_def MAX_TICK_def) blast

lemma sample_modify:
  "\<exists>a0 a1 fl fu p pos l u. modify_position uint_ref 1000 sample_range_pool default_protocol_position
     (default_tick_state\<lparr>ts_tick := MIN_TICK\<rparr>) (default_tick_state\<lparr>ts_tick := MAX_TICK\<rparr>) 5 = Ok ((a0, a1, fl, fu), p, pos, l, u)"
proof -
  obtain f g p r l u where u: "update_position uint_ref 1000 sample_range_pool default_protocol_position
     (default_tick_state\<lparr>ts_tick := MIN_TICK\<rparr>) (default_tick_state\<lparr>ts_tick := MAX_TICK\<rparr>) 5 = Ok (f, g, p, r, l, u)"
     "ps_tick_current p = 0" "ps_sqrt_price_x64 p = 2 ^ 64" "ps_liquidity p = 0" "ts_tick l = MIN_TICK" "ts_tick u = MAX_TICK"
    using sample_update by blast
  obtain a b where a: "get_delta_amounts_signed uint_ref 0 (2 ^ 64) MIN_TICK MAX_TICK 1000 = Ok (a, b)"
    using sample_amounts by (metis surj_pair)
  have "add_delta 0 1000 = Ok 1000" by (simp add: add_delta_def native_eval)
  moreover have "MIN_TICK \<le> 0" "0 < MAX_TICK" by (simp_all add: MIN_TICK_def MAX_TICK_def)
  ultimately show ?thesis
    unfolding modify_position_def using u(4) a by (simp add: u)
qed

section \<open>A change of a position is a change of one range\<close>

lemma modify_position_ledger:
  assumes "wf_ledger L" "l < u"
    and "tick_represents L l lower" "tick_represents L u upper" "pool_represents L p" "pp_liquidity pos = L (l, u)"
    and "gross_at L l < 2 ^ 128" "gross_at L u < 2 ^ 128" "ps_liquidity p < 2 ^ 128" "l \<in> ticks" "u \<in> ticks"
    and "modify_position U d p pos lower upper now = Ok ((a0, a1, fl, fu), p', pos', lower', upper')"
  shows "0 \<le> int (L (l, u)) + d \<and> (let L' = L((l, u) := nat (int (L (l, u)) + d)) in
      wf_ledger L' \<and> tick_represents L' l lower' \<and> tick_represents L' u upper' \<and> pool_represents L' p'
      \<and> pp_liquidity pos' = L' (l, u)
      \<and> (\<forall>t. t \<noteq> l \<and> t \<noteq> u \<longrightarrow> gross_at L' t = gross_at L t \<and> net_at L' t = net_at L t)
      \<and> (fl \<longleftrightarrow> (gross_at L' l = 0) \<noteq> (gross_at L l = 0)) \<and> (fu \<longleftrightarrow> (gross_at L' u = 0) \<noteq> (gross_at L u = 0))
      \<and> ps_tick_current p' = ps_tick_current p \<and> ps_sqrt_price_x64 p' = ps_sqrt_price_x64 p)"
proof -
  have lo: "ts_tick lower = l" "ts_liquidity_gross lower = gross_at L l" "ts_liquidity_net lower = net_at L l"
    and up: "ts_tick upper = u" "ts_liquidity_gross upper = gross_at L u" "ts_liquidity_net upper = net_at L u"
    using assms(3,4) by (auto simp: tick_represents_def)
  have "L (l, u) \<le> starting_at L l"
    using assms(11) by (auto simp: starting_at_def intro!: member_le_sum)
  then have small: "L (l, u) < 2 ^ 128" using assms(7) by (simp add: gross_at_def)
  from modify_position_OkD [OF assms(12)] obtain q where
    upd: "update_position U d p pos lower upper now = Ok (fl, fu, q, pos', lower', upper')"
    and q: "if d = 0 then p' = q else (if ts_tick lower' \<le> ps_tick_current q \<and> ps_tick_current q < ts_tick upper'
            then \<exists>l. add_delta (ps_liquidity q) d = Ok l \<and> p' = q\<lparr>ps_liquidity := l\<rparr> else p' = q)"
    by (auto split: if_splits)
  have bounds: "ts_liquidity_gross lower < 2 ^ 128" "ts_liquidity_gross upper < 2 ^ 128" "pp_liquidity pos < 2 ^ 128"
    using assms(7,8) small by (simp_all add: lo up assms(6))
  note u = update_position_OkD [OF upd bounds]
  define v where "v = nat (int (L (l, u)) + d)"
  have v: "int v = int (L (l, u)) + d" "pp_liquidity pos' = v"
    using u(3) by (auto simp: v_def assms(6))
  define L' where "L' = L((l, u) := v)"
  note c = change_range [OF assms(1,10,11,2), of v, folded L'_def]
  have gross: "int (gross_at L' t) = int (gross_at L t) + (if t = l \<or> t = u then d else 0)"
    and net: "net_at L' t = net_at L t + (if t = l then d else if t = u then - d else 0)" for t
    using c(2,3) [of t] v(1) assms(2) by (auto simp: gross_at_def net_at_def)
  have zero: "net_at L' t = 0" if "gross_at L' t = 0" for t
    using that by (simp add: gross_at_def net_at_def)
  obtain rs where q': "q = p\<lparr>ps_reward_infos := rs\<rparr>" using u(1) by blast
  have ticks': "tick_represents L' l lower' \<and> tick_represents L' u upper'
      \<and> (fl \<longleftrightarrow> (gross_at L' l = 0) \<noteq> (gross_at L l = 0)) \<and> (fu \<longleftrightarrow> (gross_at L' u = 0) \<noteq> (gross_at L u = 0))"
  proof (cases "d = 0")
    case True
    then show ?thesis
      using u(2) assms(3,4) gross [of l] gross [of u] net [of l] net [of u] assms(2)
      by (auto simp: tick_represents_def)
  next
    case False
    then have ch: "changed_tick False d lower (fl, lower')" "changed_tick True d upper (fu, upper')"
      using u(2) by auto
    have g: "ts_liquidity_gross lower' = gross_at L' l" "ts_liquidity_gross upper' = gross_at L' u"
      using ch gross [of l] gross [of u] by (auto simp: changed_tick_def lo up)
    have f: "fl \<longleftrightarrow> (gross_at L' l = 0) \<noteq> (gross_at L l = 0)" "fu \<longleftrightarrow> (gross_at L' u = 0) \<noteq> (gross_at L u = 0)"
      using ch by (auto simp: changed_tick_def lo up g)
    have "ts_liquidity_net lower' = net_at L' l"
      using ch(1) net [of l] f(1) zero [of l] gross [of l] by (auto simp: changed_tick_def lo split: if_splits)
    moreover have "ts_liquidity_net upper' = net_at L' u"
      using ch(2) net [of u] f(2) zero [of u] gross [of u] assms(2) by (auto simp: changed_tick_def up split: if_splits)
    ultimately show ?thesis
      using ch g f by (auto simp: tick_represents_def changed_tick_def lo up)
  qed
  have ids: "ts_tick lower' = l" "ts_tick upper' = u"
    using ticks' by (auto simp: tick_represents_def)
  have pool: "ps_liquidity p = active_at L (ps_tick_current p)"
    using assms(5) by (simp add: pool_represents_def)
  have "pool_represents L' p' \<and> ps_tick_current p' = ps_tick_current p \<and> ps_sqrt_price_x64 p' = ps_sqrt_price_x64 p"
  proof (cases "d \<noteq> 0 \<and> l \<le> ps_tick_current p \<and> ps_tick_current p < u")
    case True
    then obtain z where z: "add_delta (ps_liquidity p) d = Ok z" "p' = q\<lparr>ps_liquidity := z\<rparr>"
      using q by (auto simp: ids q')
    have "int z = int (ps_liquidity p) + d"
      using z(1) assms(9) by (simp add: add_delta_eq_Ok_iff)
    then show ?thesis
      using c(4) [of "ps_tick_current p"] v(1) True pool by (auto simp: pool_represents_def z q')
  next
    case False
    then have "p' = q" using q by (auto simp: ids q' split: if_splits)
    then show ?thesis
      using c(4) [of "ps_tick_current p"] v(1) False pool by (auto simp: pool_represents_def q' split: if_splits)
  qed
  moreover have "\<forall>t. t \<noteq> l \<and> t \<noteq> u \<longrightarrow> gross_at L' t = gross_at L t \<and> net_at L' t = net_at L t"
  proof (intro allI impI)
    fix t assume "t \<noteq> l \<and> t \<noteq> u"
    then show "gross_at L' t = gross_at L t \<and> net_at L' t = net_at L t"
      using gross [of t] net [of t] by simp
  qed
  moreover have "pp_liquidity pos' = L' (l, u)"
    by (simp add: v(2) L'_def)
  moreover have "0 \<le> int (L (l, u)) + d"
    using v(1) by linarith
  ultimately show ?thesis
    unfolding v_def [symmetric] Let_def L'_def [symmetric] using c(1) ticks' by argo
qed

section \<open>Properties\<close>

text \<open>
  C36. A change of a position's liquidity implements the change of one range in the ledger: when
  the two ticks, the position and the pool represent a ledger and the change succeeds, they
  represent afterwards the ledger with the range changed by the delta (which does not go
  negative); the gross and net liquidity of every other tick stays, a tick is reported flipped
  exactly when it starts or stops carrying liquidity, and price and current tick stay.
\<close>

theorem modify_position_refines_ledger:
  assumes "wf_ledger L" "l < u"
    and "tick_represents L l lower" "tick_represents L u upper" "pool_represents L p" "pp_liquidity pos = L (l, u)"
    and "gross_at L l < 2 ^ 128" "gross_at L u < 2 ^ 128" "ps_liquidity p < 2 ^ 128" "l \<in> ticks" "u \<in> ticks"
    and "modify_position U d p pos lower upper now = Ok ((a0, a1, fl, fu), p', pos', lower', upper')"
  shows "0 \<le> int (L (l, u)) + d \<and> (let L' = L((l, u) := nat (int (L (l, u)) + d)) in
      wf_ledger L' \<and> tick_represents L' l lower' \<and> tick_represents L' u upper' \<and> pool_represents L' p'
      \<and> pp_liquidity pos' = L' (l, u)
      \<and> (\<forall>t. t \<noteq> l \<and> t \<noteq> u \<longrightarrow> gross_at L' t = gross_at L t \<and> net_at L' t = net_at L t)
      \<and> (fl \<longleftrightarrow> (gross_at L' l = 0) \<noteq> (gross_at L l = 0)) \<and> (fu \<longleftrightarrow> (gross_at L' u = 0) \<noteq> (gross_at L u = 0))
      \<and> ps_tick_current p' = ps_tick_current p \<and> ps_sqrt_price_x64 p' = ps_sqrt_price_x64 p)"
  by (rule modify_position_ledger [OF assms])

theorem modify_position_refines_ledger_witness:
  "\<exists>a0 a1 fl fu p pos l u. modify_position uint_ref 1000 sample_range_pool default_protocol_position
     (default_tick_state\<lparr>ts_tick := MIN_TICK\<rparr>) (default_tick_state\<lparr>ts_tick := MAX_TICK\<rparr>) 5 = Ok ((a0, a1, fl, fu), p, pos, l, u)
     \<and> pool_represents (empty_ledger((MIN_TICK, MAX_TICK) := 1000)) p \<and> fl \<and> fu"
proof -
  obtain a0 a1 fl fu p pos l u where m: "modify_position uint_ref 1000 sample_range_pool default_protocol_position
     (default_tick_state\<lparr>ts_tick := MIN_TICK\<rparr>) (default_tick_state\<lparr>ts_tick := MAX_TICK\<rparr>) 5 = Ok ((a0, a1, fl, fu), p, pos, l, u)"
    using sample_modify by blast
  have t: "MIN_TICK \<in> ticks" "MAX_TICK \<in> ticks" "MIN_TICK < MAX_TICK"
    by (simp_all add: ticks_def MIN_TICK_def MAX_TICK_def)
  have e: "empty_ledger r = 0" for r by (simp add: empty_ledger_def)
  have rep: "tick_represents empty_ledger MIN_TICK (default_tick_state\<lparr>ts_tick := MIN_TICK\<rparr>)"
    "tick_represents empty_ledger MAX_TICK (default_tick_state\<lparr>ts_tick := MAX_TICK\<rparr>)"
    "pool_represents empty_ledger sample_range_pool" "pp_liquidity default_protocol_position = 0"
    "ps_liquidity sample_range_pool = 0"
    by (simp_all add: tick_represents_def pool_represents_def empty_ledger_wf default_tick_state_def sample_range_pool_def
        default_pool_def default_protocol_position_def)
  have "gross_at (empty_ledger((MIN_TICK, MAX_TICK) := 1000)) MIN_TICK \<noteq> 0"
    "gross_at (empty_ledger((MIN_TICK, MAX_TICK) := 1000)) MAX_TICK \<noteq> 0"
    using t by (auto simp: gross_at_def starting_at_def ending_at_def)
  then show ?thesis
    using modify_position_refines_ledger [OF empty_ledger_wf(1) t(3) rep(1-3) _ _ _ _ t(1,2) m] m
    by (simp add: e rep(4,5) empty_ledger_wf Let_def) blast
qed

end
