(* ===== verification/Account_Load.thy ===== *)
theory Account_Load
  imports Prelude
begin

text \<open>
  \<open>util/account_load.rs\<close> and \<open>util/system.rs\<close>: the typed view of an account's bytes, and the
  creation of an account through the system program.  A loader shares its account with every
  other loader of the same key, so accounts live in a store indexed by key and a loader is a
  key.  The system program is not part of the repository: its instructions are parameters.
\<close>

section \<open>Accounts\<close>

text \<open>
  The bytes of an account as the loader of a type tells them apart: fewer than the eight bytes of
  a discriminator; a discriminator of zero, followed by a value of the type; another
  discriminator; the discriminator of the type, followed by its value.
\<close>

datatype 'a account_data = Short_Data | Blank_Data 'a | Other_Data | Typed_Data 'a

record 'a account_info =
  ai_owner :: pubkey
  ai_is_writable :: bool
  ai_lamports :: u64
  ai_data :: "'a account_data"

type_synonym 'a accounts = "pubkey \<Rightarrow> 'a account_info"

text \<open>\<open>crate::id()\<close>: \<open>CnhWofYruFeG98WR13YZeuZwHbpEC8S1e2uC9MkcWon8\<close> in base 58.\<close>

definition program_id :: pubkey where
  "program_id = 0xaf258074987c8ea99ce979251c2ab3aeebc727db1d290ab5abbc5624fe1fb849"

text \<open>The system program's address is all zeros.\<close>

definition system_program_id :: pubkey where
  "system_program_id = 0"

section \<open>Loading\<close>

text \<open>The checks on length and discriminator that the loading methods share.\<close>

primrec typed_data :: "'a account_data \<Rightarrow> 'a res" where
  "typed_data Short_Data = Err AccountDiscriminatorNotFound"
| "typed_data (Blank_Data x) = Err AccountDiscriminatorMismatch"
| "typed_data Other_Data = Err AccountDiscriminatorMismatch"
| "typed_data (Typed_Data x) = Ok x"

definition account_try_from :: "'a accounts \<Rightarrow> pubkey \<Rightarrow> pubkey res" where
  "account_try_from accs k =
     (if ai_owner (accs k) \<noteq> program_id then Err AccountOwnedByWrongProgram
      else rbind (typed_data (ai_data (accs k))) (\<lambda>_. Ok k))"

definition account_try_from_unchecked :: "'a accounts \<Rightarrow> pubkey \<Rightarrow> pubkey res" where
  "account_try_from_unchecked accs k =
     (if ai_owner (accs k) \<noteq> program_id then Err AccountOwnedByWrongProgram else Ok k)"

text \<open>The write of the discriminator is what makes a blank account a typed one.\<close>

definition load_init :: "'a accounts \<Rightarrow> pubkey \<Rightarrow> ('a \<times> 'a accounts) res" where
  "load_init accs k =
     (if \<not> ai_is_writable (accs k) then Err AccountNotMutable
      else (case ai_data (accs k) of
              Short_Data \<Rightarrow> Panic
            | Blank_Data x \<Rightarrow> Ok (x, accs(k := (accs k)\<lparr>ai_data := Typed_Data x\<rparr>))
            | Other_Data \<Rightarrow> Err AccountDiscriminatorAlreadySet
            | Typed_Data x \<Rightarrow> Err AccountDiscriminatorAlreadySet))"

definition load_data_mut :: "'a accounts \<Rightarrow> pubkey \<Rightarrow> 'a res" where
  "load_data_mut accs k =
     (if ai_owner (accs k) \<noteq> program_id then Err AccountOwnedByWrongProgram
      else if \<not> ai_is_writable (accs k) then Err AccountNotMutable
      else typed_data (ai_data (accs k)))"

definition account_load :: "'a accounts \<Rightarrow> pubkey \<Rightarrow> 'a res" where
  "account_load accs k = typed_data (ai_data (accs k))"

definition account_load_mut :: "'a accounts \<Rightarrow> pubkey \<Rightarrow> 'a res" where
  "account_load_mut accs k =
     (if \<not> ai_is_writable (accs k) then Err AccountNotMutable else typed_data (ai_data (accs k)))"

text \<open>What is written through the reference that a loading method returned.\<close>

definition store_account :: "pubkey \<Rightarrow> 'a \<Rightarrow> 'a accounts \<Rightarrow> 'a accounts" where
  "store_account k x accs = accs(k := (accs k)\<lparr>ai_data := Typed_Data x\<rparr>)"

text \<open>
  The contract of a loading method: what was stored is loaded, other accounts are as before, and
  whether an account can be loaded does not depend on the value in it.
\<close>

locale account_loading =
  fixes load :: "'a accounts \<Rightarrow> pubkey \<Rightarrow> 'a res"
  assumes load_other: "j \<noteq> k \<Longrightarrow> load (store_account k x accs) j = load accs j"
    and load_stored: "load accs k = Ok y \<Longrightarrow> load (store_account k x accs) k = Ok x"
begin

lemma load_after_store:
  "load accs k = Ok y \<Longrightarrow> load accs j = Ok z \<Longrightarrow>
   load (store_account k x accs) j = Ok (if j = k then x else z)"
  by (simp add: load_other load_stored)

lemma load_after_store_ok_iff:
  "load accs k = Ok y \<Longrightarrow> (\<exists>x'. load (store_account k x accs) j = Ok x') \<longleftrightarrow> (\<exists>x'. load accs j = Ok x')"
  by (cases "j = k") (auto simp: load_other load_stored)

end

interpretation load: account_loading account_load
  by unfold_locales (simp_all add: account_load_def store_account_def)

interpretation load_mut: account_loading account_load_mut
  by unfold_locales (auto simp: account_load_mut_def store_account_def split: if_splits)

interpretation load_data_mut: account_loading load_data_mut
  by unfold_locales (auto simp: load_data_mut_def store_account_def split: if_splits)

lemma typed_data_eq_Ok_iff [simp]: "typed_data d = Ok x \<longleftrightarrow> d = Typed_Data x"
  by (cases d) auto

lemma typed_data_not_Panic [simp]: "typed_data d \<noteq> Panic"
  by (cases d) auto

lemma account_load_eq_Ok_iff: "account_load accs k = Ok x \<longleftrightarrow> ai_data (accs k) = Typed_Data x"
  by (simp add: account_load_def)

lemma account_load_mut_eq_Ok_iff:
  "account_load_mut accs k = Ok x \<longleftrightarrow> ai_is_writable (accs k) \<and> ai_data (accs k) = Typed_Data x"
  by (simp add: account_load_mut_def)

lemma load_data_mut_eq_Ok_iff:
  "load_data_mut accs k = Ok x \<longleftrightarrow>
    ai_owner (accs k) = program_id \<and> ai_is_writable (accs k) \<and> ai_data (accs k) = Typed_Data x"
  by (simp add: load_data_mut_def)

lemma account_try_from_eq_Ok_iff:
  "account_try_from accs k = Ok l \<longleftrightarrow> ai_owner (accs k) = program_id \<and> (\<exists>x. ai_data (accs k) = Typed_Data x) \<and> l = k"
  by (auto simp: account_try_from_def rbind_eq_Ok_iff)

text \<open>
  Anchor's \<open>AccountLoader\<close>, which is not part of the repository, offers the same two methods on an
  account of the instruction; what it promises is that a value it returns is the account's, and
  the contract of a loading method.
\<close>

record 'a account_loader =
  al_load :: "'a accounts \<Rightarrow> pubkey \<Rightarrow> 'a res"
  al_load_mut :: "'a accounts \<Rightarrow> pubkey \<Rightarrow> 'a res"

locale anchor_loader =
  load: account_loading "al_load A" + load_mut: account_loading "al_load_mut A" for A :: "'a account_loader" +
  assumes load_value: "al_load A accs k = Ok x \<Longrightarrow> ai_data (accs k) = Typed_Data x"
    and load_mut_value: "al_load_mut A accs k = Ok x \<Longrightarrow> ai_data (accs k) = Typed_Data x"

definition account_load_methods :: "'a account_loader" where
  "account_load_methods = \<lparr>al_load = account_load, al_load_mut = account_load_mut\<rparr>"

interpretation account_load_methods: anchor_loader account_load_methods
  by unfold_locales
    (auto simp: account_load_methods_def load.load_other load.load_stored load_mut.load_other
      load_mut.load_stored account_load_eq_Ok_iff account_load_mut_eq_Ok_iff)

lemma anchor_loader_methods: "anchor_loader account_load_methods"
  by (rule account_load_methods.anchor_loader_axioms)

section \<open>Creating an account\<close>

text \<open>
  The instructions of the system program and the rent, as the program uses them:
  \<open>Rent::get\<close> with \<open>minimum_balance\<close>, \<open>create_account\<close> (payer, target, lamports, space, owner),
  \<open>transfer\<close> (payer, target, lamports), \<open>allocate\<close> (target, space) and \<open>assign\<close> (target, owner),
  the last two with the target's seeds as its signature.
\<close>

record 'a system_lib =
  sys_rent :: "(usize \<Rightarrow> u64) res"
  sys_create_account :: "pubkey \<Rightarrow> pubkey \<Rightarrow> u64 \<Rightarrow> u64 \<Rightarrow> pubkey \<Rightarrow> 'a accounts \<Rightarrow> 'a accounts res"
  sys_transfer :: "pubkey \<Rightarrow> pubkey \<Rightarrow> u64 \<Rightarrow> 'a accounts \<Rightarrow> 'a accounts res"
  sys_allocate :: "pubkey \<Rightarrow> u64 \<Rightarrow> 'a accounts \<Rightarrow> 'a accounts res"
  sys_assign :: "pubkey \<Rightarrow> pubkey \<Rightarrow> 'a accounts \<Rightarrow> 'a accounts res"

definition u64_try_from :: "nat \<Rightarrow> u64 res" where
  "u64_try_from x = (if x < 2 ^ 64 then Ok x else Panic)"

definition create_or_allocate_account ::
  "'a system_lib \<Rightarrow> pubkey \<Rightarrow> pubkey \<Rightarrow> pubkey \<Rightarrow> usize \<Rightarrow> 'a accounts \<Rightarrow> 'a accounts res" where
  "create_or_allocate_account S program payer target_account space accs =
     rbind (sys_rent S) (\<lambda>minimum_balance.
     let current_lamports = ai_lamports (accs target_account) in
     if current_lamports = 0 then
       rbind (u64_try_from space) (\<lambda>space_u64.
       sys_create_account S payer target_account (minimum_balance space) space_u64 program accs)
     else
       let required_lamports = saturating_sub (max (minimum_balance space) 1) current_lamports in
       rbind (if required_lamports > 0
              then sys_transfer S payer target_account required_lamports accs
              else Ok accs) (\<lambda>accs.
       rbind (u64_try_from space) (\<lambda>space_u64.
       rbind (sys_allocate S target_account space_u64 accs) (\<lambda>accs.
       sys_assign S target_account program accs))))"

text \<open>
  What the system program documents: an instruction that succeeds does to the accounts what it is
  named after and nothing else; only lamports of the payer change besides the target, and a new
  account is filled with zeros, which is the value \<open>zero\<close> of the type with a zero discriminator.
\<close>

locale system_program =
  fixes S :: "'a system_lib" and zero :: 'a and space :: nat
  assumes create_account_law: "sys_create_account S payer target l space owner accs = Ok accs' \<Longrightarrow>
      payer \<noteq> target \<Longrightarrow>
      accs' = accs(payer := (accs payer)\<lparr>ai_lamports := ai_lamports (accs payer) - l\<rparr>,
                   target := (accs target)\<lparr>ai_owner := owner, ai_lamports := l, ai_data := Blank_Data zero\<rparr>)"
    and transfer_law: "sys_transfer S payer target l accs = Ok accs' \<Longrightarrow> payer \<noteq> target \<Longrightarrow>
      accs' = accs(payer := (accs payer)\<lparr>ai_lamports := ai_lamports (accs payer) - l\<rparr>,
                   target := (accs target)\<lparr>ai_lamports := ai_lamports (accs target) + l\<rparr>)"
    and allocate_law: "sys_allocate S target space accs = Ok accs' \<Longrightarrow>
      accs' = accs(target := (accs target)\<lparr>ai_data := Blank_Data zero\<rparr>)"
    and assign_law: "sys_assign S target owner accs = Ok accs' \<Longrightarrow>
      accs' = accs(target := (accs target)\<lparr>ai_owner := owner\<rparr>)"
begin

lemma create_or_allocate_account_OkD:
  assumes ok: "create_or_allocate_account S program payer target space accs = Ok accs'"
    and ne: "payer \<noteq> target"
  shows "ai_owner (accs' target) = program \<and> ai_data (accs' target) = Blank_Data zero
    \<and> ai_is_writable (accs' target) = ai_is_writable (accs target)
    \<and> (\<exists>l. accs' payer = (accs payer)\<lparr>ai_lamports := l\<rparr>)
    \<and> (\<forall>k. k \<noteq> payer \<longrightarrow> k \<noteq> target \<longrightarrow> accs' k = accs k)"
proof (cases "ai_lamports (accs target) = 0")
  case True
  then obtain mb where "sys_create_account S payer target (mb space) space program accs = Ok accs'"
    using ok by (auto simp: create_or_allocate_account_def rbind_eq_Ok_iff u64_try_from_def split: if_splits)
  from create_account_law [OF this ne] show ?thesis
    using ne by auto
next
  case False
  then obtain accs1 accs2 where 1: "accs1 = accs \<or> (\<exists>l. sys_transfer S payer target l accs = Ok accs1)"
    and 2: "sys_allocate S target space accs1 = Ok accs2" and 3: "sys_assign S target program accs2 = Ok accs'"
    using ok by (auto simp: create_or_allocate_account_def Let_def rbind_eq_Ok_iff u64_try_from_def split: if_splits)
  have p: "(\<exists>l. accs1 payer = (accs payer)\<lparr>ai_lamports := l\<rparr>) \<and> (\<forall>k. k \<noteq> payer \<longrightarrow> k \<noteq> target \<longrightarrow> accs1 k = accs k)
      \<and> ai_is_writable (accs1 target) = ai_is_writable (accs target)"
    using 1
  proof
    assume "accs1 = accs"
    then show ?thesis by (auto intro: exI [of _ "ai_lamports (accs payer)"])
  next
    assume "\<exists>l. sys_transfer S payer target l accs = Ok accs1"
    then obtain l where "sys_transfer S payer target l accs = Ok accs1" ..
    from transfer_law [OF this ne] show ?thesis using ne by auto
  qed
  show ?thesis
    using p allocate_law [OF 2] assign_law [OF 3] ne by auto
qed

end

text \<open>A system program with these laws; it accepts everything but overdrafts and used targets.\<close>

definition system_ref :: "'a \<Rightarrow> 'a system_lib" where
  "system_ref zero = \<lparr>
     sys_rent = Ok (\<lambda>space. 6960 * (space + 128)),
     sys_create_account = (\<lambda>payer target l space owner accs.
       if ai_lamports (accs payer) < l \<or> ai_lamports (accs target) \<noteq> 0 then Err External
       else Ok (accs(payer := (accs payer)\<lparr>ai_lamports := ai_lamports (accs payer) - l\<rparr>,
                     target := (accs target)\<lparr>ai_owner := owner, ai_lamports := l, ai_data := Blank_Data zero\<rparr>))),
     sys_transfer = (\<lambda>payer target l accs.
       if ai_lamports (accs payer) < l then Err External
       else Ok (accs(payer := (accs payer)\<lparr>ai_lamports := ai_lamports (accs payer) - l\<rparr>,
                     target := (accs target)\<lparr>ai_lamports := ai_lamports (accs target) + l\<rparr>))),
     sys_allocate = (\<lambda>target space accs.
       if ai_owner (accs target) \<noteq> system_program_id \<or> ai_data (accs target) \<noteq> Short_Data then Err External
       else Ok (accs(target := (accs target)\<lparr>ai_data := Blank_Data zero\<rparr>))),
     sys_assign = (\<lambda>target owner accs.
       if ai_owner (accs target) \<noteq> system_program_id then Err External
       else Ok (accs(target := (accs target)\<lparr>ai_owner := owner\<rparr>)))\<rparr>"

interpretation system_ref: system_program "system_ref zero" zero n
  by unfold_locales (auto simp: system_ref_def split: if_splits)

end
