(* ===== verification/Token_Util.thy ===== *)
theory Token_Util
  imports Pool
begin

text \<open>
  \<open>util/token.rs\<close> and \<open>util/access_control.rs\<close>: transfers between users and the vaults of a pool,
  the fees that a token of the program Token-2022 charges on its own transfers, and the check that
  a signer holds the token of a position.  The token programs are not part of the repository:
  their instructions and the decoding of their accounts are parameters, over a state of type
  \<open>'s\<close> that only they change.
\<close>

section \<open>Token accounts and mints\<close>

text \<open>
  A token account as an instruction has deserialized it: its key, the program that owns it, its
  mint, the owner of the tokens and their amount at that time.
\<close>

record token_account =
  tk_key :: pubkey
  tk_program :: pubkey
  tk_mint :: pubkey
  tk_owner :: pubkey
  tk_amount :: u64

record mint_account = mint +
  mint_program :: pubkey

datatype extension_type = TransferFeeConfig | MetadataPointer | TokenMetadata | Other_Extension nat

record transfer_fee =
  tf_transfer_fee_basis_points :: u16
  tf_maximum_fee :: u64

record transfer_fee_config =
  tfc_get_epoch_fee :: "u64 \<Rightarrow> transfer_fee"
  tfc_calculate_epoch_fee :: "u64 \<Rightarrow> u64 \<Rightarrow> u64 option"
  tfc_calculate_inverse_epoch_fee :: "u64 \<Rightarrow> u64 \<Rightarrow> u64 option"

text \<open>What \<open>StateWithExtensions\<close> finds in the data of a mint.\<close>

record mint_view =
  mv_transfer_fee_config :: "transfer_fee_config option"
  mv_extension_types :: "extension_type list res"

text \<open>
  The token programs: the id of the older one and the constant of the newer one, the decoding of
  mints and accounts, the epoch of the clock, and the instructions.  Each instruction names the
  program called, then its accounts in the order of the source's records, then its arguments; the
  authority is the signer or the pool, which signs with its seeds.
\<close>

record 's token_lib =
  tl_token_id :: pubkey
  tl_max_fee_basis_points :: u16
  tl_unpack_mint :: "pubkey \<Rightarrow> mint_view res"
  tl_epoch :: "u64 res"
  tl_load :: "'s \<Rightarrow> pubkey \<Rightarrow> token_account res"
  tl_transfer :: "pubkey \<Rightarrow> pubkey \<Rightarrow> pubkey \<Rightarrow> pubkey \<Rightarrow> u64 \<Rightarrow> 's \<Rightarrow> 's res"
  tl_transfer_checked :: "pubkey \<Rightarrow> pubkey \<Rightarrow> pubkey \<Rightarrow> pubkey \<Rightarrow> pubkey \<Rightarrow> u64 \<Rightarrow> u8 \<Rightarrow> 's \<Rightarrow> 's res"
  tl_mint_to :: "pubkey \<Rightarrow> pubkey \<Rightarrow> pubkey \<Rightarrow> pubkey \<Rightarrow> u64 \<Rightarrow> 's \<Rightarrow> 's res"
  tl_burn :: "pubkey \<Rightarrow> pubkey \<Rightarrow> pubkey \<Rightarrow> pubkey \<Rightarrow> u64 \<Rightarrow> 's \<Rightarrow> 's res"
  tl_close_account :: "pubkey \<Rightarrow> pubkey \<Rightarrow> pubkey \<Rightarrow> pubkey \<Rightarrow> 's \<Rightarrow> 's res"
  tl_disable_minting :: "pubkey \<Rightarrow> pubkey \<Rightarrow> pubkey \<Rightarrow> 's \<Rightarrow> 's res"
  tl_create_metadata :: "pubkey \<Rightarrow> pubkey \<Rightarrow> pubkey \<Rightarrow> pubkey \<Rightarrow> pubkey \<Rightarrow> pubkey \<Rightarrow>
    string \<Rightarrow> string \<Rightarrow> string \<Rightarrow> 's \<Rightarrow> 's res"
  tl_create_vault :: "pubkey \<Rightarrow> pubkey \<Rightarrow> pubkey \<Rightarrow> pubkey \<Rightarrow> 's \<Rightarrow> 's res"

text \<open>\<open>InterfaceAccount::reload\<close>.\<close>

definition reload :: "'s token_lib \<Rightarrow> 's \<Rightarrow> token_account \<Rightarrow> token_account res" where
  "reload T s account = tl_load T s (tk_key account)"

section \<open>Transfers\<close>

definition transfer_from_user_to_pool_vault ::
  "'s token_lib \<Rightarrow> pubkey \<Rightarrow> token_account \<Rightarrow> token_account \<Rightarrow> mint_account option \<Rightarrow> pubkey \<Rightarrow>
   pubkey option \<Rightarrow> u64 \<Rightarrow> 's \<Rightarrow> 's res" where
  "transfer_from_user_to_pool_vault T signer from_account to_vault mint token_program
      token_program_2022 amount s =
     (if amount = 0 then Ok s
      else case (mint, token_program_2022) of
        (Some mint, Some program_2022) \<Rightarrow>
          let token_program_info =
                (if tk_program from_account = program_2022 then program_2022 else token_program) in
          tl_transfer_checked T token_program_info (tk_key from_account) (mint_key mint)
            (tk_key to_vault) signer amount (mint_decimals mint) s
      | _ \<Rightarrow> tl_transfer T token_program (tk_key from_account) (tk_key to_vault) signer amount s)"

text \<open>The pool is the authority over its vaults.\<close>

definition transfer_from_pool_vault_to_user ::
  "'s token_lib \<Rightarrow> pubkey \<Rightarrow> token_account \<Rightarrow> token_account \<Rightarrow> mint_account option \<Rightarrow> pubkey \<Rightarrow>
   pubkey option \<Rightarrow> u64 \<Rightarrow> 's \<Rightarrow> 's res" where
  "transfer_from_pool_vault_to_user T pool_state_loader from_vault to_account mint token_program
      token_program_2022 amount s =
     (if amount = 0 then Ok s
      else case (mint, token_program_2022) of
        (Some mint, Some program_2022) \<Rightarrow>
          let token_program_info =
                (if tk_program from_vault = program_2022 then program_2022 else token_program) in
          tl_transfer_checked T token_program_info (tk_key from_vault) (mint_key mint)
            (tk_key to_account) pool_state_loader amount (mint_decimals mint) s
      | _ \<Rightarrow> tl_transfer T token_program (tk_key from_vault) (tk_key to_account) pool_state_loader
               amount s)"

definition close_spl_account ::
  "'s token_lib \<Rightarrow> pubkey \<Rightarrow> pubkey \<Rightarrow> token_account \<Rightarrow> pubkey \<Rightarrow> 's \<Rightarrow> 's res" where
  "close_spl_account T owner destination account token_program s =
     tl_close_account T token_program (tk_key account) destination owner s"

definition burn ::
  "'s token_lib \<Rightarrow> pubkey \<Rightarrow> mint_account \<Rightarrow> token_account \<Rightarrow> pubkey \<Rightarrow> u64 \<Rightarrow> 's \<Rightarrow> 's res" where
  "burn T owner mint burn_account token_program amount s =
     tl_burn T token_program (mint_key mint) (tk_key burn_account) owner amount s"

section \<open>Fees of the token itself\<close>

definition get_transfer_inverse_fee :: "'s token_lib \<Rightarrow> mint_account \<Rightarrow> u64 \<Rightarrow> u64 res" where
  "get_transfer_inverse_fee T mint post_fee_amount =
     (if mint_program mint = tl_token_id T then Ok 0
      else
        rbind (tl_unpack_mint T (mint_key mint)) (\<lambda>view.
        case mv_transfer_fee_config view of
          Some transfer_fee_config \<Rightarrow>
            rbind (tl_epoch T) (\<lambda>epoch.
            let transfer_fee = tfc_get_epoch_fee transfer_fee_config epoch in
            if tf_transfer_fee_basis_points transfer_fee = tl_max_fee_basis_points T
            then Ok (tf_maximum_fee transfer_fee)
            else unwrap (tfc_calculate_inverse_epoch_fee transfer_fee_config epoch post_fee_amount))
        | None \<Rightarrow> Ok 0))"

definition get_transfer_fee :: "'s token_lib \<Rightarrow> mint_account \<Rightarrow> u64 \<Rightarrow> u64 res" where
  "get_transfer_fee T mint pre_fee_amount =
     (if mint_program mint = tl_token_id T then Ok 0
      else
        rbind (tl_unpack_mint T (mint_key mint)) (\<lambda>view.
        case mv_transfer_fee_config view of
          Some transfer_fee_config \<Rightarrow>
            rbind (tl_epoch T) (\<lambda>epoch.
            unwrap (tfc_calculate_epoch_fee transfer_fee_config epoch pre_fee_amount))
        | None \<Rightarrow> Ok 0))"

text \<open>The mints \<open>HVbp..\<close>, \<open>Crn4..\<close>, \<open>FrBf..\<close> and \<open>2b1k..\<close>, decoded from base 58.\<close>

definition MINT_WHITELIST :: "pubkey list" where
  "MINT_WHITELIST =
     [0xf50e9e92be2c2547ea546f1a7dcc6e5574ab7c2bccefca46363b68108542f7e6,
      0xb030f976ef9b21c0e16220b0f633e7609b0eabf43f980bb6c8437da5b40be70f,
      0xdc9d22619a867be6a606bf03c54849301a5d1faa05cac48c7be74c5f28da4613,
      0x1792483b6c8a2a87b7471d814f9591f9395c840a9ce3d9f4d5ba7d3a4b8a749e]"

fun extensions_supported :: "extension_type list \<Rightarrow> bool" where
  "extensions_supported [] = True"
| "extensions_supported (e # extensions) =
     (if e \<noteq> TransferFeeConfig \<and> e \<noteq> MetadataPointer \<and> e \<noteq> TokenMetadata then False
      else extensions_supported extensions)"

definition is_supported_mint :: "'s token_lib \<Rightarrow> mint_account \<Rightarrow> bool res" where
  "is_supported_mint T mint =
     (if mint_program mint = tl_token_id T then Ok True
      else if mint_key mint \<in> set MINT_WHITELIST then Ok True
      else
        rbind (tl_unpack_mint T (mint_key mint)) (\<lambda>view.
        rbind (mv_extension_types view) (\<lambda>extensions.
        Ok (extensions_supported extensions))))"

text \<open>The signer holds the token of the position.\<close>

definition is_authorized_for_token :: "pubkey \<Rightarrow> token_account \<Rightarrow> unit res" where
  "is_authorized_for_token signer token_account =
     require (tk_amount token_account = 1 \<and> tk_owner token_account = signer) (Code NotApproved)"

section \<open>What the token programs promise\<close>

text \<open>
  The documented effect of the instructions on the balances: a transfer takes the amount from its
  source and, less the fee of the token, gives it to its destination; no other balance changes,
  and a decoded account shows the balance.  A plain transfer charges no fee.
\<close>

locale token_programs =
  fixes T :: "'s token_lib" and balance :: "'s \<Rightarrow> pubkey \<Rightarrow> nat"
  assumes load_law: "tl_load T s k = Ok a \<Longrightarrow> tk_key a = k \<and> tk_amount a = balance s k"
    and transfer_law: "tl_transfer T p src dst authority n s = Ok s' \<Longrightarrow> src \<noteq> dst \<Longrightarrow>
      n \<le> balance s src \<and> balance s' = (balance s)(src := balance s src - n, dst := balance s dst + n)"
    and transfer_checked_law:
      "tl_transfer_checked T p src m dst authority n d s = Ok s' \<Longrightarrow> src \<noteq> dst \<Longrightarrow>
       \<exists>fee \<le> n. n \<le> balance s src
         \<and> balance s' = (balance s)(src := balance s src - n, dst := balance s dst + (n - fee))"
begin

text \<open>Either direction: the source pays exactly the amount, the destination gets no more.\<close>

lemma user_to_vault_OkD:
  assumes "transfer_from_user_to_pool_vault T signer a v m p p22 n s = Ok s'" "tk_key a \<noteq> tk_key v"
  shows "\<exists>fee \<le> n. n \<le> balance s (tk_key a)
    \<and> balance s' = (balance s)(tk_key a := balance s (tk_key a) - n, tk_key v := balance s (tk_key v) + (n - fee))
    \<and> (m = None \<or> p22 = None \<longrightarrow> fee = 0)"
proof (cases "n = 0 \<or> m = None \<or> p22 = None")
  case True
  then show ?thesis
    using assms transfer_law
    by (fastforce simp: transfer_from_user_to_pool_vault_def split: if_splits option.splits)
next
  case False
  then obtain m' p' where "m = Some m'" "p22 = Some p'" by auto
  with False show ?thesis
    using assms transfer_checked_law by (auto simp: transfer_from_user_to_pool_vault_def Let_def)
qed

lemma vault_to_user_OkD:
  assumes "transfer_from_pool_vault_to_user T pool v a m p p22 n s = Ok s'" "tk_key v \<noteq> tk_key a"
  shows "\<exists>fee \<le> n. n \<le> balance s (tk_key v)
    \<and> balance s' = (balance s)(tk_key v := balance s (tk_key v) - n, tk_key a := balance s (tk_key a) + (n - fee))
    \<and> (m = None \<or> p22 = None \<longrightarrow> fee = 0)"
proof (cases "n = 0 \<or> m = None \<or> p22 = None")
  case True
  then show ?thesis
    using assms transfer_law
    by (fastforce simp: transfer_from_pool_vault_to_user_def split: if_splits option.splits)
next
  case False
  then obtain m' p' where "m = Some m'" "p22 = Some p'" by auto
  with False show ?thesis
    using assms transfer_checked_law by (auto simp: transfer_from_pool_vault_to_user_def Let_def)
qed

lemma reload_OkD: "reload T s a = Ok b \<Longrightarrow> tk_key b = tk_key a \<and> tk_amount b = balance s (tk_key a)"
  by (auto simp: reload_def dest: load_law)

end

text \<open>
  Token programs with these laws: a table of accounts, transfers checked against mint, owner and
  balance, and a fee of one percent on the mints of the newer program.
\<close>

type_synonym token_table = "pubkey \<Rightarrow> token_account"

definition move_tokens ::
  "pubkey \<Rightarrow> pubkey \<Rightarrow> pubkey \<Rightarrow> nat \<Rightarrow> nat \<Rightarrow> token_table \<Rightarrow> token_table res" where
  "move_tokens src dst authority n fee s =
     (if tk_owner (s src) \<noteq> authority \<or> tk_mint (s src) \<noteq> tk_mint (s dst) \<or> tk_amount (s src) < n
      then Err External
      else let s = s(src := (s src)\<lparr>tk_amount := tk_amount (s src) - n\<rparr>) in
           Ok (s(dst := (s dst)\<lparr>tk_amount := tk_amount (s dst) + (n - fee)\<rparr>)))"

definition one_percent :: transfer_fee_config where
  "one_percent = \<lparr>
     tfc_get_epoch_fee = (\<lambda>_. \<lparr>tf_transfer_fee_basis_points = 100, tf_maximum_fee = 2 ^ 64 - 1\<rparr>),
     tfc_calculate_epoch_fee = (\<lambda>_ n. Some (cdiv n 100)),
     tfc_calculate_inverse_epoch_fee = (\<lambda>_ n. Some (cdiv (n * 100) 99 - n))\<rparr>"

definition token_ref :: "token_table token_lib" where
  "token_ref = \<lparr>
     tl_token_id = 1, tl_max_fee_basis_points = 10000,
     tl_unpack_mint = (\<lambda>_. Ok \<lparr>mv_transfer_fee_config = Some one_percent, mv_extension_types = Ok [TransferFeeConfig]\<rparr>),
     tl_epoch = Ok 0,
     tl_load = (\<lambda>s k. Ok ((s k)\<lparr>tk_key := k\<rparr>)),
     tl_transfer = (\<lambda>p src dst authority n. move_tokens src dst authority n 0),
     tl_transfer_checked = (\<lambda>p src m dst authority n d.
       move_tokens src dst authority n (if p = 1 then 0 else cdiv n 100)),
     tl_mint_to = (\<lambda>p m dst authority n s. Ok (s(dst := (s dst)\<lparr>tk_amount := tk_amount (s dst) + n\<rparr>))),
     tl_burn = (\<lambda>p m src authority n s.
       if tk_owner (s src) \<noteq> authority \<or> tk_amount (s src) < n then Err External
       else Ok (s(src := (s src)\<lparr>tk_amount := tk_amount (s src) - n\<rparr>))),
     tl_close_account = (\<lambda>p a dst authority s.
       if tk_owner (s a) \<noteq> authority \<or> tk_amount (s a) \<noteq> 0 then Err External else Ok s),
     tl_disable_minting = (\<lambda>p m authority. Ok),
     tl_create_metadata = (\<lambda>p a m pool payer authority name symbol uri. Ok),
     tl_create_vault = (\<lambda>p a m owner s.
       Ok (s(a := \<lparr>tk_key = a, tk_program = p, tk_mint = m, tk_owner = owner, tk_amount = 0\<rparr>)))\<rparr>"

definition table_balance :: "token_table \<Rightarrow> pubkey \<Rightarrow> nat" where
  "table_balance s k = tk_amount (s k)"

lemma cdiv_100_le: "cdiv n 100 \<le> n"
  by (simp add: cdiv_le_iff)

lemma move_tokens_OkD:
  "move_tokens src dst authority n fee s = Ok s' \<Longrightarrow> src \<noteq> dst \<Longrightarrow>
   n \<le> table_balance s src \<and> table_balance s' =
     (table_balance s)(src := table_balance s src - n, dst := table_balance s dst + (n - fee))"
  by (auto simp: move_tokens_def table_balance_def Let_def split: if_splits)

interpretation token_ref: token_programs token_ref table_balance
proof unfold_locales
  fix s k a assume "tl_load token_ref s k = Ok a"
  then show "tk_key a = k \<and> tk_amount a = table_balance s k"
    by (auto simp: token_ref_def table_balance_def)
next
  fix p src dst authority n s s'
  assume "tl_transfer token_ref p src dst authority n s = Ok s'" "src \<noteq> dst"
  then show "n \<le> table_balance s src \<and> table_balance s' =
      (table_balance s)(src := table_balance s src - n, dst := table_balance s dst + n)"
    using move_tokens_OkD [of src dst authority n 0 s s'] by (simp add: token_ref_def)
next
  fix p src m dst authority n d s s'
  assume ok: "tl_transfer_checked token_ref p src m dst authority n d s = Ok s'" and ne: "src \<noteq> dst"
  define fee where "fee = (if p = 1 then 0 else cdiv n 100)"
  have "move_tokens src dst authority n fee s = Ok s'"
    using ok by (simp add: token_ref_def fee_def)
  moreover have "fee \<le> n"
    by (simp add: fee_def cdiv_100_le)
  ultimately show "\<exists>fee \<le> n. n \<le> table_balance s src \<and> table_balance s' =
      (table_balance s)(src := table_balance s src - n, dst := table_balance s dst + (n - fee))"
    using move_tokens_OkD [OF _ ne] by blast
qed

lemma token_programs_ref: "token_programs token_ref table_balance"
  by (rule token_ref.token_programs_axioms)

end
