(* ===== verification/Deposit.thy ===== *)
theory Deposit
  imports Account_Load Token_Util Positions
begin

text \<open>
  Adding liquidity: \<open>add_liquidity\<close> and \<open>open_position\<close> of \<open>instructions/open_position.rs\<close>,
  \<open>increase_liquidity\<close> of \<open>instructions/increase_liquidity.rs\<close>, and the creation of tick array
  accounts, \<open>TickArrayState::get_or_create_tick_array\<close>.  Pool, positions and extension come
  loaded by Anchor and are passed and returned as values; the tick arrays are accounts of the
  store, because the two arrays of a range may be one account.
\<close>

section \<open>The account of a tick array\<close>

definition TICK_STATE_LEN :: usize where
  "TICK_STATE_LEN = 4 + 16 + 16 + 16 + 16 + 16 * REWARD_NUM + 16 + 16 + 8 + 8 + 4"

definition TICK_ARRAY_LEN :: usize where
  "TICK_ARRAY_LEN = 8 + 32 + 4 + TICK_STATE_LEN * TICK_ARRAY_SIZE_USIZE + 1 + 115"

definition get_or_create_tick_array ::
  "tick_array system_lib \<Rightarrow> pda \<Rightarrow> pubkey \<Rightarrow> pubkey \<Rightarrow> pubkey \<Rightarrow> i32 \<Rightarrow> u16 \<Rightarrow> tick_array accounts \<Rightarrow>
   (pubkey \<times> tick_array accounts) res" where
  "get_or_create_tick_array S D payer tick_array_account_info pool_state_loader
      tick_array_start_index tick_spacing accs =
     rbind (check_is_valid_start_index tick_array_start_index tick_spacing) (\<lambda>valid.
     rbind (require valid (Code InvaildTickIndex)) (\<lambda>_.
     if ai_owner (accs tick_array_account_info) = system_program_id then
       let expect_pda_address = pda_tick_array D pool_state_loader tick_array_start_index in
       rbind (require (expect_pda_address = tick_array_account_info) RequireKeysEqViolated) (\<lambda>_.
       rbind (create_or_allocate_account S program_id payer tick_array_account_info TICK_ARRAY_LEN accs)
         (\<lambda>accs.
       rbind (account_try_from_unchecked accs tick_array_account_info) (\<lambda>tick_array_state_loader.
       rbind (load_init accs tick_array_state_loader) (\<lambda>(tick_array_account, accs).
       rbind (tick_array_initialize tick_array_account tick_array_start_index tick_spacing
                pool_state_loader) (\<lambda>tick_array_account.
       Ok (tick_array_state_loader,
           store_account tick_array_state_loader tick_array_account accs))))))
     else
       rbind (account_try_from accs tick_array_account_info) (\<lambda>loader. Ok (loader, accs))))"

section \<open>Adding liquidity\<close>

text \<open>The accounts that pay for a deposit and those that it is paid to.\<close>

record deposit_accounts =
  da_payer :: pubkey
  da_token_account_0 :: token_account
  da_token_account_1 :: token_account
  da_token_vault_0 :: token_account
  da_token_vault_1 :: token_account
  da_token_program_2022 :: "pubkey option"
  da_token_program :: pubkey
  da_vault_0_mint :: "mint_account option"
  da_vault_1_mint :: "mint_account option"

text \<open>What a deposit changes.\<close>

record 's deposit_state =
  dp_pool :: pool_state
  dp_position :: protocol_position
  dp_tick_arrays :: "tick_array accounts"
  dp_extension :: "extension_account option"
  dp_tokens :: 's

text \<open>The liquidity that one amount pays for, when the caller names an amount instead.\<close>

definition liquidity_of_single_amount ::
  "uint_lib \<Rightarrow> 's token_lib \<Rightarrow> deposit_accounts \<Rightarrow> pool_state \<Rightarrow> u64 \<Rightarrow> u64 \<Rightarrow> i32 \<Rightarrow> i32 \<Rightarrow> bool \<Rightarrow> u128 res"
where
  "liquidity_of_single_amount U T A pool amount_0_max amount_1_max tick_lower_index tick_upper_index
      base_flag =
     (if base_flag then
        rbind (unwrap (da_vault_0_mint A)) (\<lambda>vault_0_mint.
        rbind (unwrap_result (get_transfer_fee T vault_0_mint amount_0_max)) (\<lambda>amount_0_transfer_fee.
        rbind (get_sqrt_price_at_tick U tick_lower_index) (\<lambda>lower.
        rbind (get_sqrt_price_at_tick U tick_upper_index) (\<lambda>upper.
        rbind (unwrap (checked_sub amount_0_max amount_0_transfer_fee)) (\<lambda>amount.
        get_liquidity_from_single_amount_0 U (ps_sqrt_price_x64 pool) lower upper amount)))))
      else
        rbind (unwrap (da_vault_1_mint A)) (\<lambda>vault_1_mint.
        rbind (unwrap_result (get_transfer_fee T vault_1_mint amount_1_max)) (\<lambda>amount_1_transfer_fee.
        rbind (get_sqrt_price_at_tick U tick_lower_index) (\<lambda>lower.
        rbind (get_sqrt_price_at_tick U tick_upper_index) (\<lambda>upper.
        rbind (unwrap (checked_sub amount_1_max amount_1_transfer_fee)) (\<lambda>amount.
        get_liquidity_from_single_amount_1 U (ps_sqrt_price_x64 pool) lower upper amount))))))"

text \<open>\<open>i128::try_from(x).unwrap()\<close>.\<close>

definition i128_of_u128 :: "u128 \<Rightarrow> i128 res" where
  "i128_of_u128 x = (if x < 2 ^ 127 then Ok (int x) else Panic)"

text \<open>
  The steps on one tick of the range, over the loading methods of the array's loader: the array
  belongs to the pool; the tick is copied out, and written back.
\<close>

definition check_array_of_pool ::
  "tick_array account_loader \<Rightarrow> pda \<Rightarrow> pubkey \<Rightarrow> 's deposit_state \<Rightarrow> unit res" where
  "check_array_of_pool AL D loader st =
     rbind (al_load AL (dp_tick_arrays st) loader) (\<lambda>tick_array.
     rbind (pool_key D (dp_pool st)) (\<lambda>key.
     require (ta_pool_id tick_array = key) RequireKeysEqViolated))"

definition load_tick :: "tick_array account_loader \<Rightarrow> pubkey \<Rightarrow> i32 \<Rightarrow> 's deposit_state \<Rightarrow> tick_state res" where
  "load_tick AL loader tick_index st =
     rbind (al_load_mut AL (dp_tick_arrays st) loader) (\<lambda>tick_array.
     rbind (get_tick_state tick_array tick_index (ps_tick_spacing (dp_pool st))) (\<lambda>(_, tick_state).
     Ok tick_state))"

definition store_tick ::
  "tick_array account_loader \<Rightarrow> pubkey \<Rightarrow> i32 \<Rightarrow> tick_state \<Rightarrow> 's deposit_state \<Rightarrow> 's deposit_state res" where
  "store_tick AL loader tick_index tick_state st =
     rbind (al_load_mut AL (dp_tick_arrays st) loader) (\<lambda>tick_array.
     rbind (update_tick_state tick_array tick_index (ps_tick_spacing (dp_pool st)) tick_state)
       (\<lambda>tick_array.
     Ok (st\<lparr>dp_tick_arrays := store_account loader tick_array (dp_tick_arrays st)\<rparr>)))"

definition flip_array ::
  "pda \<Rightarrow> i32 \<Rightarrow> 's deposit_state \<Rightarrow> 's deposit_state res" where
  "flip_array D start_tick_index st =
     rbind (flip_tick_array_bit D (dp_pool st) (dp_extension st) start_tick_index) (\<lambda>(pool, extension).
     Ok (st\<lparr>dp_pool := pool, dp_extension := extension\<rparr>))"

text \<open>
  One more tick of an array carries liquidity, and the first one marks the array in the maps; or
  one tick less, and the last one removes the mark.
\<close>

definition count_new_tick :: "tick_array account_loader \<Rightarrow> pda \<Rightarrow> pubkey \<Rightarrow> 's deposit_state \<Rightarrow> 's deposit_state res" where
  "count_new_tick AL D loader st =
     rbind (al_load_mut AL (dp_tick_arrays st) loader) (\<lambda>tick_array.
     let before_init_tick_count = ta_initialized_tick_count tick_array in
     rbind (update_initialized_tick_count tick_array True) (\<lambda>tick_array.
     let st = st\<lparr>dp_tick_arrays := store_account loader tick_array (dp_tick_arrays st)\<rparr> in
     if before_init_tick_count = 0 then flip_array D (ta_start_tick_index tick_array) st else Ok st))"

definition count_cleared_tick :: "tick_array account_loader \<Rightarrow> pda \<Rightarrow> pubkey \<Rightarrow> 's deposit_state \<Rightarrow> 's deposit_state res" where
  "count_cleared_tick AL D loader st =
     rbind (al_load_mut AL (dp_tick_arrays st) loader) (\<lambda>tick_array.
     rbind (update_initialized_tick_count tick_array False) (\<lambda>tick_array.
     let st = st\<lparr>dp_tick_arrays := store_account loader tick_array (dp_tick_arrays st)\<rparr> in
     if ta_initialized_tick_count tick_array = 0 then flip_array D (ta_start_tick_index tick_array) st
     else Ok st))"

definition name_tick :: "i32 \<Rightarrow> tick_state \<Rightarrow> tick_state" where
  "name_tick tick_index tick_state =
     (if ts_tick tick_state = 0 then tick_state\<lparr>ts_tick := tick_index\<rparr> else tick_state)"

text \<open>The part of \<open>add_liquidity\<close> that changes pool, position and ticks.\<close>

definition add_to_range ::
  "uint_lib \<Rightarrow> pda \<Rightarrow> u64 \<Rightarrow> pubkey \<Rightarrow> pubkey \<Rightarrow> u128 \<Rightarrow> i32 \<Rightarrow> i32 \<Rightarrow> 's deposit_state \<Rightarrow>
   ((u64 \<times> u64) \<times> 's deposit_state) res" where
  "add_to_range U D timestamp lower_loader upper_loader liquidity tick_lower_index tick_upper_index st =
     rbind (assertion (liquidity > 0)) (\<lambda>_.
     rbind (check_array_of_pool account_load_methods D lower_loader st) (\<lambda>_.
     rbind (check_array_of_pool account_load_methods D upper_loader st) (\<lambda>_.
     rbind (load_tick account_load_methods lower_loader tick_lower_index st) (\<lambda>tick_lower.
     rbind (load_tick account_load_methods upper_loader tick_upper_index st) (\<lambda>tick_upper.
     let tick_lower = name_tick tick_lower_index tick_lower;
         tick_upper = name_tick tick_upper_index tick_upper in
     rbind (i128_of_u128 liquidity) (\<lambda>liquidity_delta.
     rbind (modify_position U liquidity_delta (dp_pool st) (dp_position st) tick_lower tick_upper timestamp)
       (\<lambda>((amount_0, amount_1, flip_tick_lower, flip_tick_upper), pool, position, tick_lower, tick_upper).
     let st = st\<lparr>dp_pool := pool, dp_position := position\<rparr> in
     rbind (store_tick account_load_methods lower_loader tick_lower_index tick_lower st) (\<lambda>st.
     rbind (store_tick account_load_methods upper_loader tick_upper_index tick_upper st) (\<lambda>st.
     rbind (if flip_tick_lower then count_new_tick account_load_methods D lower_loader st else Ok st) (\<lambda>st.
     rbind (if flip_tick_upper then count_new_tick account_load_methods D upper_loader st else Ok st) (\<lambda>st.
     Ok ((amount_0, amount_1), st))))))))))))"

definition deposit_fee :: "'s token_lib \<Rightarrow> mint_account option \<Rightarrow> u64 \<Rightarrow> u64 res" where
  "deposit_fee T vault_mint amount =
     (case vault_mint of
        Some mint \<Rightarrow> unwrap_result (get_transfer_inverse_fee T mint amount)
      | None \<Rightarrow> Ok 0)"

text \<open>The part of \<open>add_liquidity\<close> that charges the payer.\<close>

definition pay_deposit ::
  "'s token_lib \<Rightarrow> deposit_accounts \<Rightarrow> u64 \<Rightarrow> u64 \<Rightarrow> u64 \<Rightarrow> u64 \<Rightarrow> 's \<Rightarrow> ((u64 \<times> u64) \<times> 's) res" where
  "pay_deposit T A amount_0_max amount_1_max amount_0 amount_1 s =
     rbind (require (amount_0 > 0 \<or> amount_1 > 0) (Code ForbidBothZeroForSupplyLiquidity)) (\<lambda>_.
     rbind (deposit_fee T (da_vault_0_mint A) amount_0) (\<lambda>amount_0_transfer_fee.
     rbind (deposit_fee T (da_vault_1_mint A) amount_1) (\<lambda>amount_1_transfer_fee.
     rbind (chk_add 64 amount_0 amount_0_transfer_fee) (\<lambda>total_0.
     rbind (require (amount_0_max \<ge> total_0) (Code PriceSlippageCheck)) (\<lambda>_.
     rbind (chk_add 64 amount_1 amount_1_transfer_fee) (\<lambda>total_1.
     rbind (require (amount_1_max \<ge> total_1) (Code PriceSlippageCheck)) (\<lambda>_.
     rbind (transfer_from_user_to_pool_vault T (da_payer A) (da_token_account_0 A) (da_token_vault_0 A)
              (da_vault_0_mint A) (da_token_program A) (da_token_program_2022 A) total_0 s) (\<lambda>s.
     rbind (transfer_from_user_to_pool_vault T (da_payer A) (da_token_account_1 A) (da_token_vault_1 A)
              (da_vault_1_mint A) (da_token_program A) (da_token_program_2022 A) total_1 s) (\<lambda>s.
     Ok ((amount_0_transfer_fee, amount_1_transfer_fee), s))))))))))"

definition add_liquidity ::
  "uint_lib \<Rightarrow> 's token_lib \<Rightarrow> pda \<Rightarrow> u64 \<Rightarrow> deposit_accounts \<Rightarrow> pubkey \<Rightarrow> pubkey \<Rightarrow> u128 \<Rightarrow> u64 \<Rightarrow> u64 \<Rightarrow>
   i32 \<Rightarrow> i32 \<Rightarrow> bool option \<Rightarrow> 's deposit_state \<Rightarrow>
   ((u64 \<times> u64 \<times> u64 \<times> u64) \<times> u128 \<times> 's deposit_state) res" where
  "add_liquidity U T D timestamp A lower_loader upper_loader liquidity amount_0_max amount_1_max
      tick_lower_index tick_upper_index base_flag st =
     (if liquidity = 0 \<and> base_flag = None then Ok ((0, 0, 0, 0), liquidity, st)
      else
        rbind (if liquidity = 0 then
                 rbind (unwrap base_flag) (\<lambda>base.
                 liquidity_of_single_amount U T A (dp_pool st) amount_0_max amount_1_max
                   tick_lower_index tick_upper_index base)
               else Ok liquidity) (\<lambda>liquidity.
        rbind (add_to_range U D timestamp lower_loader upper_loader liquidity
                 tick_lower_index tick_upper_index st) (\<lambda>((amount_0, amount_1), st).
        rbind (pay_deposit T A amount_0_max amount_1_max amount_0 amount_1 (dp_tokens st))
          (\<lambda>((amount_0_transfer_fee, amount_1_transfer_fee), tokens).
        Ok ((amount_0, amount_1, amount_0_transfer_fee, amount_1_transfer_fee), liquidity,
            st\<lparr>dp_tokens := tokens\<rparr>)))))"

text \<open>The extension account, when the range needs one: the first of the remaining accounts.\<close>

definition extension_if_used ::
  "bool \<Rightarrow> pda \<Rightarrow> pubkey \<Rightarrow> extension_account list \<Rightarrow> extension_account option res" where
  "extension_if_used use_tickarray_bitmap_extension D pool_state_loader remaining_accounts =
     (if use_tickarray_bitmap_extension then
       (case remaining_accounts of
          [] \<Rightarrow> Panic
        | account # _ \<Rightarrow>
            rbind (require (ea_key account = pda_bitmap_extension D pool_state_loader) RequireKeysEqViolated)
              (\<lambda>_. Ok (Some account)))
     else Ok None)"

section \<open>Increasing a position\<close>

text \<open>What the position has earned since its last change, with the growth of the range as of now.\<close>

definition collect_growth :: "uint_lib \<Rightarrow> personal_position \<Rightarrow> protocol_position \<Rightarrow> personal_position res" where
  "collect_growth U personal protocol =
     rbind (calculate_latest_token_fees U (pe_token_fees_owed_0 personal)
              (pe_fee_growth_inside_0_last_x64 personal) (pp_fee_growth_inside_0_last_x64 protocol)
              (pe_liquidity personal)) (\<lambda>owed_0.
     rbind (calculate_latest_token_fees U (pe_token_fees_owed_1 personal)
              (pe_fee_growth_inside_1_last_x64 personal) (pp_fee_growth_inside_1_last_x64 protocol)
              (pe_liquidity personal)) (\<lambda>owed_1.
     let personal = personal\<lparr>pe_token_fees_owed_0 := owed_0, pe_token_fees_owed_1 := owed_1,
           pe_fee_growth_inside_0_last_x64 := pp_fee_growth_inside_0_last_x64 protocol,
           pe_fee_growth_inside_1_last_x64 := pp_fee_growth_inside_1_last_x64 protocol\<rparr> in
     update_rewards U personal (pp_reward_growth_inside protocol) True))"

definition increase_liquidity ::
  "uint_lib \<Rightarrow> 's token_lib \<Rightarrow> pda \<Rightarrow> u64 \<Rightarrow> deposit_accounts \<Rightarrow> pubkey \<Rightarrow> personal_position \<Rightarrow>
   pubkey \<Rightarrow> pubkey \<Rightarrow> extension_account list \<Rightarrow> u128 \<Rightarrow> u64 \<Rightarrow> u64 \<Rightarrow> bool option \<Rightarrow>
   's deposit_state \<Rightarrow> (personal_position \<times> 's deposit_state) res" where
  "increase_liquidity U T D timestamp A pool_state_loader personal tick_array_lower tick_array_upper
      remaining_accounts liquidity amount_0_max amount_1_max base_flag st =
     rbind (require (get_status_by_bit (dp_pool st) OpenPositionOrIncreaseLiquidity) (Code NotApproved)) (\<lambda>_.
     let tick_lower = pe_tick_lower_index personal; tick_upper = pe_tick_upper_index personal in
     rbind (is_overflow_default_tickarray_bitmap (dp_pool st) [tick_lower, tick_upper])
       (\<lambda>use_tickarray_bitmap_extension.
     rbind (account_try_from (dp_tick_arrays st) tick_array_lower) (\<lambda>lower_loader.
     rbind (account_try_from (dp_tick_arrays st) tick_array_upper) (\<lambda>upper_loader.
     rbind (extension_if_used use_tickarray_bitmap_extension D pool_state_loader remaining_accounts)
       (\<lambda>extension.
     rbind (add_liquidity U T D timestamp A lower_loader upper_loader liquidity amount_0_max amount_1_max
              tick_lower tick_upper base_flag (st\<lparr>dp_extension := extension\<rparr>)) (\<lambda>(_, liquidity, st).
     rbind (collect_growth U personal (dp_position st)) (\<lambda>personal.
     rbind (unwrap (checked_add 128 (pe_liquidity personal) liquidity)) (\<lambda>total_liquidity.
     Ok (personal\<lparr>pe_liquidity := total_liquidity\<rparr>, st)))))))))"

text \<open>What the instruction accounts must satisfy, in the order of their declaration.\<close>

definition check_vaults :: "deposit_accounts \<Rightarrow> pool_state \<Rightarrow> unit res" where
  "check_vaults A pool =
     rbind (require (tk_mint (da_token_account_0 A) = tk_mint (da_token_vault_0 A)) ConstraintTokenMint) (\<lambda>_.
     rbind (require (tk_mint (da_token_account_1 A) = tk_mint (da_token_vault_1 A)) ConstraintTokenMint) (\<lambda>_.
     rbind (require (tk_key (da_token_vault_0 A) = ps_token_vault_0 pool) ConstraintRaw) (\<lambda>_.
     require (tk_key (da_token_vault_1 A) = ps_token_vault_1 pool) ConstraintRaw)))"

definition check_vault_mints :: "deposit_accounts \<Rightarrow> mint_account \<Rightarrow> mint_account \<Rightarrow> unit res" where
  "check_vault_mints A vault_0_mint vault_1_mint =
     rbind (require (mint_key vault_0_mint = tk_mint (da_token_vault_0 A)) ConstraintAddress) (\<lambda>_.
     require (mint_key vault_1_mint = tk_mint (da_token_vault_1 A)) ConstraintAddress)"

definition check_position_accounts ::
  "pda \<Rightarrow> pubkey \<Rightarrow> pubkey \<Rightarrow> personal_position \<Rightarrow> pubkey \<Rightarrow> pubkey \<Rightarrow> protocol_position \<Rightarrow>
   tick_array accounts \<Rightarrow> unit res" where
  "check_position_accounts D pool_state_loader protocol_position_key personal
      tick_array_lower tick_array_upper protocol accs =
     rbind (require (protocol_position_key =
              pda_protocol_position D pool_state_loader (pe_tick_lower_index personal) (pe_tick_upper_index personal))
              ConstraintSeeds) (\<lambda>_.
     rbind (require (pp_pool_id protocol = pool_state_loader) ConstraintRaw) (\<lambda>_.
     rbind (require (pe_pool_id personal = pool_state_loader) ConstraintRaw) (\<lambda>_.
     rbind (account_load accs tick_array_lower) (\<lambda>lower.
     rbind (require (ta_pool_id lower = pool_state_loader) ConstraintRaw) (\<lambda>_.
     rbind (account_load accs tick_array_upper) (\<lambda>upper.
     require (ta_pool_id upper = pool_state_loader) ConstraintRaw))))))"

definition check_increase_accounts ::
  "pda \<Rightarrow> deposit_accounts \<Rightarrow> token_account \<Rightarrow> pubkey \<Rightarrow> pubkey \<Rightarrow> personal_position \<Rightarrow> pubkey \<Rightarrow> pubkey \<Rightarrow>
   's deposit_state \<Rightarrow> unit res" where
  "check_increase_accounts D A nft_account pool_state_loader protocol_position_key personal
      tick_array_lower tick_array_upper st =
     rbind (require (tk_mint nft_account = pe_nft_mint personal) ConstraintRaw) (\<lambda>_.
     rbind (check_position_accounts D pool_state_loader protocol_position_key personal
              tick_array_lower tick_array_upper (dp_position st) (dp_tick_arrays st)) (\<lambda>_.
     check_vaults A (dp_pool st)))"

definition check_increase_accounts_v2 ::
  "pda \<Rightarrow> deposit_accounts \<Rightarrow> mint_account \<Rightarrow> mint_account \<Rightarrow> token_account \<Rightarrow> pubkey \<Rightarrow> pubkey \<Rightarrow>
   personal_position \<Rightarrow> pubkey \<Rightarrow> pubkey \<Rightarrow> 's deposit_state \<Rightarrow> unit res" where
  "check_increase_accounts_v2 D A vault_0_mint vault_1_mint nft_account pool_state_loader
      protocol_position_key personal tick_array_lower tick_array_upper st =
     rbind (require (tk_mint nft_account = pe_nft_mint personal) ConstraintRaw) (\<lambda>_.
     rbind (require (tk_program nft_account = da_token_program A) ConstraintTokenTokenProgram) (\<lambda>_.
     rbind (check_position_accounts D pool_state_loader protocol_position_key personal
              tick_array_lower tick_array_upper (dp_position st) (dp_tick_arrays st)) (\<lambda>_.
     rbind (check_vaults A (dp_pool st)) (\<lambda>_.
     check_vault_mints A vault_0_mint vault_1_mint))))"

text \<open>The two instructions, from the constraints of their accounts to the handler.\<close>

definition increase_liquidity_v1 ::
  "uint_lib \<Rightarrow> 's token_lib \<Rightarrow> pda \<Rightarrow> u64 \<Rightarrow> deposit_accounts \<Rightarrow> token_account \<Rightarrow> pubkey \<Rightarrow> pubkey \<Rightarrow>
   personal_position \<Rightarrow> pubkey \<Rightarrow> pubkey \<Rightarrow> extension_account list \<Rightarrow> u128 \<Rightarrow> u64 \<Rightarrow> u64 \<Rightarrow>
   's deposit_state \<Rightarrow> (personal_position \<times> 's deposit_state) res" where
  "increase_liquidity_v1 U T D timestamp A nft_account pool_state_loader protocol_position_key personal
      tick_array_lower tick_array_upper remaining_accounts liquidity amount_0_max amount_1_max st =
     rbind (check_increase_accounts D A nft_account pool_state_loader protocol_position_key personal
              tick_array_lower tick_array_upper st) (\<lambda>_.
     rbind (is_authorized_for_token (da_payer A) nft_account) (\<lambda>_.
     rbind (assertion (liquidity \<noteq> 0)) (\<lambda>_.
     increase_liquidity U T D timestamp
       (A\<lparr>da_token_program_2022 := None, da_vault_0_mint := None, da_vault_1_mint := None\<rparr>)
       pool_state_loader personal tick_array_lower tick_array_upper remaining_accounts liquidity
       amount_0_max amount_1_max None st)))"

definition increase_liquidity_v2 ::
  "uint_lib \<Rightarrow> 's token_lib \<Rightarrow> pda \<Rightarrow> u64 \<Rightarrow> deposit_accounts \<Rightarrow> pubkey \<Rightarrow> mint_account \<Rightarrow> mint_account \<Rightarrow>
   token_account \<Rightarrow> pubkey \<Rightarrow> pubkey \<Rightarrow>
   personal_position \<Rightarrow> pubkey \<Rightarrow> pubkey \<Rightarrow> extension_account list \<Rightarrow> u128 \<Rightarrow> u64 \<Rightarrow> u64 \<Rightarrow> bool option \<Rightarrow>
   's deposit_state \<Rightarrow> (personal_position \<times> 's deposit_state) res" where
  "increase_liquidity_v2 U T D timestamp A token_program_2022 vault_0_mint vault_1_mint nft_account
      pool_state_loader protocol_position_key personal tick_array_lower tick_array_upper
      remaining_accounts liquidity amount_0_max amount_1_max base_flag st =
     rbind (check_increase_accounts_v2 D A vault_0_mint vault_1_mint nft_account pool_state_loader
              protocol_position_key personal tick_array_lower tick_array_upper st) (\<lambda>_.
     rbind (is_authorized_for_token (da_payer A) nft_account) (\<lambda>_.
     rbind (if liquidity = 0 then assertion (base_flag \<noteq> None) else Ok ()) (\<lambda>_.
     increase_liquidity U T D timestamp
       (A\<lparr>da_token_program_2022 := Some token_program_2022, da_vault_0_mint := Some vault_0_mint,
          da_vault_1_mint := Some vault_1_mint\<rparr>)
       pool_state_loader personal tick_array_lower tick_array_upper remaining_accounts liquidity
       amount_0_max amount_1_max base_flag st)))"

section \<open>Opening a position\<close>

definition METADATA_URI :: string where
  "METADATA_URI =
     ''https://cloudflare-ipfs.com/ipfs/QmbzJafuKY3B4t25eq9zdKZMgXiMeW4jHLzf6KE6ZmHWn1/02.json''"

text \<open>The token of a position: one unit is minted and no more can be.\<close>

record nft_accounts =
  nf_position_nft_mint :: pubkey
  nf_position_nft_account :: pubkey
  nf_metadata_account :: pubkey
  nf_metadata_program :: pubkey

definition create_nft_with_metadata ::
  "'s token_lib \<Rightarrow> pubkey \<Rightarrow> pubkey \<Rightarrow> nft_accounts \<Rightarrow> pubkey \<Rightarrow> bool \<Rightarrow> 's \<Rightarrow> 's res" where
  "create_nft_with_metadata T payer pool_state_loader N token_program with_matedata s =
     rbind (tl_mint_to T token_program (nf_position_nft_mint N) (nf_position_nft_account N)
              pool_state_loader 1 s) (\<lambda>s.
     rbind (if with_matedata then
              tl_create_metadata T (nf_metadata_program N) (nf_metadata_account N)
                (nf_position_nft_mint N) pool_state_loader payer pool_state_loader
                ''Raydium Concentrated Liquidity'' ''RCL'' METADATA_URI s
            else Ok s) (\<lambda>s.
     tl_disable_minting T token_program (nf_position_nft_mint N) pool_state_loader s))"

definition set_tick_index :: "pubkey \<Rightarrow> i32 \<Rightarrow> u16 \<Rightarrow> tick_array accounts \<Rightarrow> tick_array accounts res" where
  "set_tick_index loader tick_index tick_spacing accs =
     rbind (account_load_mut accs loader) (\<lambda>tick_array.
     rbind (get_tick_state tick_array tick_index tick_spacing) (\<lambda>(i, tick_state).
     Ok (store_account loader
           (tick_array\<lparr>ta_ticks := (ta_ticks tick_array)[i := tick_state\<lparr>ts_tick := tick_index\<rparr>]\<rparr>) accs)))"

definition open_position ::
  "uint_lib \<Rightarrow> 's token_lib \<Rightarrow> tick_array system_lib \<Rightarrow> pda \<Rightarrow> u64 \<Rightarrow> deposit_accounts \<Rightarrow> nft_accounts \<Rightarrow>
   pubkey \<Rightarrow> pubkey \<Rightarrow> pubkey \<Rightarrow> personal_position \<Rightarrow> extension_account list \<Rightarrow> u8 \<Rightarrow> u8 \<Rightarrow>
   u128 \<Rightarrow> u64 \<Rightarrow> u64 \<Rightarrow> i32 \<Rightarrow> i32 \<Rightarrow> i32 \<Rightarrow> i32 \<Rightarrow> bool \<Rightarrow> bool option \<Rightarrow>
   's deposit_state \<Rightarrow> (personal_position \<times> 's deposit_state) res" where
  "open_position U T S D timestamp A N pool_state_loader tick_array_lower tick_array_upper personal
      remaining_accounts protocol_position_bump personal_position_bump liquidity amount_0_max
      amount_1_max tick_lower_index tick_upper_index tick_array_lower_start_index
      tick_array_upper_start_index with_matedata base_flag st =
     (let tick_spacing = ps_tick_spacing (dp_pool st) in
      rbind (require (get_status_by_bit (dp_pool st) OpenPositionOrIncreaseLiquidity) (Code NotApproved)) (\<lambda>_.
      rbind (check_ticks_order tick_lower_index tick_upper_index) (\<lambda>_.
      rbind (check_tick_array_start_index tick_array_lower_start_index tick_lower_index tick_spacing) (\<lambda>_.
      rbind (check_tick_array_start_index tick_array_upper_start_index tick_upper_index tick_spacing) (\<lambda>_.
      rbind (get_or_create_tick_array S D (da_payer A) tick_array_lower pool_state_loader
               tick_array_lower_start_index tick_spacing (dp_tick_arrays st)) (\<lambda>(lower_loader, accs).
      rbind (if tick_array_lower_start_index = tick_array_upper_start_index then
               rbind (account_try_from accs tick_array_upper) (\<lambda>loader. Ok (loader, accs))
             else
               get_or_create_tick_array S D (da_payer A) tick_array_upper pool_state_loader
                 tick_array_upper_start_index tick_spacing accs) (\<lambda>(upper_loader, accs).
      rbind (if pp_pool_id (dp_position st) = default_pubkey then
               rbind (set_tick_index lower_loader tick_lower_index tick_spacing accs) (\<lambda>accs.
               rbind (set_tick_index upper_loader tick_upper_index tick_spacing accs) (\<lambda>accs.
               Ok (st\<lparr>dp_position := (dp_position st)\<lparr>pp_bump := protocol_position_bump,
                         pp_pool_id := pool_state_loader, pp_tick_lower_index := tick_lower_index,
                         pp_tick_upper_index := tick_upper_index\<rparr>,
                       dp_tick_arrays := accs\<rparr>)))
             else Ok (st\<lparr>dp_tick_arrays := accs\<rparr>)) (\<lambda>st.
      rbind (is_overflow_default_tickarray_bitmap (dp_pool st)
               [tick_array_lower_start_index, tick_array_upper_start_index])
        (\<lambda>use_tickarray_bitmap_extension.
      rbind (extension_if_used use_tickarray_bitmap_extension D pool_state_loader remaining_accounts)
        (\<lambda>extension.
      rbind (add_liquidity U T D timestamp A lower_loader upper_loader liquidity amount_0_max amount_1_max
               tick_lower_index tick_upper_index base_flag (st\<lparr>dp_extension := extension\<rparr>))
        (\<lambda>(_, liquidity, st).
      let personal = personal\<lparr>pe_bump := personal_position_bump,
            pe_nft_mint := nf_position_nft_mint N, pe_pool_id := pool_state_loader,
            pe_tick_lower_index := tick_lower_index, pe_tick_upper_index := tick_upper_index,
            pe_fee_growth_inside_0_last_x64 := pp_fee_growth_inside_0_last_x64 (dp_position st),
            pe_fee_growth_inside_1_last_x64 := pp_fee_growth_inside_1_last_x64 (dp_position st)\<rparr> in
      rbind (update_rewards U personal (pp_reward_growth_inside (dp_position st)) False) (\<lambda>personal.
      rbind (create_nft_with_metadata T (da_payer A) pool_state_loader N (da_token_program A)
               with_matedata (dp_tokens st)) (\<lambda>tokens.
      Ok (personal\<lparr>pe_liquidity := liquidity\<rparr>, st\<lparr>dp_tokens := tokens\<rparr>))))))))))))))"

text \<open>
  The constraints of the instruction accounts and the two instructions.  The mint, the token
  account and the position of a new position are created by Anchor before the handler runs.
\<close>

definition check_open_seeds ::
  "pda \<Rightarrow> pubkey \<Rightarrow> pubkey \<Rightarrow> pubkey \<Rightarrow> pubkey \<Rightarrow> i32 \<Rightarrow> i32 \<Rightarrow> i32 \<Rightarrow> i32 \<Rightarrow> unit res" where
  "check_open_seeds D pool_state_loader protocol_position_key tick_array_lower tick_array_upper
      tick_lower_index tick_upper_index tick_array_lower_start_index tick_array_upper_start_index =
     rbind (require (protocol_position_key =
              pda_protocol_position D pool_state_loader tick_lower_index tick_upper_index) ConstraintSeeds) (\<lambda>_.
     rbind (require (tick_array_lower =
              pda_tick_array D pool_state_loader tick_array_lower_start_index) ConstraintSeeds) (\<lambda>_.
     require (tick_array_upper =
              pda_tick_array D pool_state_loader tick_array_upper_start_index) ConstraintSeeds))"

definition check_open_accounts ::
  "pda \<Rightarrow> deposit_accounts \<Rightarrow> pubkey \<Rightarrow> pubkey \<Rightarrow> pubkey \<Rightarrow> pubkey \<Rightarrow> i32 \<Rightarrow> i32 \<Rightarrow> i32 \<Rightarrow> i32 \<Rightarrow>
   pool_state \<Rightarrow> unit res" where
  "check_open_accounts D A pool_state_loader protocol_position_key tick_array_lower tick_array_upper
      tick_lower_index tick_upper_index tick_array_lower_start_index tick_array_upper_start_index pool =
     rbind (check_open_seeds D pool_state_loader protocol_position_key tick_array_lower tick_array_upper
              tick_lower_index tick_upper_index tick_array_lower_start_index
              tick_array_upper_start_index) (\<lambda>_.
     check_vaults A pool)"

definition check_open_accounts_v2 ::
  "pda \<Rightarrow> deposit_accounts \<Rightarrow> mint_account \<Rightarrow> mint_account \<Rightarrow> pubkey \<Rightarrow> pubkey \<Rightarrow> pubkey \<Rightarrow> pubkey \<Rightarrow>
   i32 \<Rightarrow> i32 \<Rightarrow> i32 \<Rightarrow> i32 \<Rightarrow> pool_state \<Rightarrow> unit res" where
  "check_open_accounts_v2 D A vault_0_mint vault_1_mint pool_state_loader protocol_position_key
      tick_array_lower tick_array_upper tick_lower_index tick_upper_index
      tick_array_lower_start_index tick_array_upper_start_index pool =
     rbind (check_open_seeds D pool_state_loader protocol_position_key tick_array_lower tick_array_upper
              tick_lower_index tick_upper_index tick_array_lower_start_index
              tick_array_upper_start_index) (\<lambda>_.
     rbind (check_vaults A pool) (\<lambda>_.
     check_vault_mints A vault_0_mint vault_1_mint))"

definition open_position_v1 ::
  "uint_lib \<Rightarrow> 's token_lib \<Rightarrow> tick_array system_lib \<Rightarrow> pda \<Rightarrow> u64 \<Rightarrow> deposit_accounts \<Rightarrow> nft_accounts \<Rightarrow>
   pubkey \<Rightarrow> pubkey \<Rightarrow> pubkey \<Rightarrow> pubkey \<Rightarrow> extension_account list \<Rightarrow> u8 \<Rightarrow> u8 \<Rightarrow>
   i32 \<Rightarrow> i32 \<Rightarrow> i32 \<Rightarrow> i32 \<Rightarrow> u128 \<Rightarrow> u64 \<Rightarrow> u64 \<Rightarrow>
   's deposit_state \<Rightarrow> (personal_position \<times> 's deposit_state) res" where
  "open_position_v1 U T S D timestamp A N pool_state_loader protocol_position_key tick_array_lower
      tick_array_upper remaining_accounts protocol_position_bump personal_position_bump
      tick_lower_index tick_upper_index tick_array_lower_start_index tick_array_upper_start_index
      liquidity amount_0_max amount_1_max st =
     rbind (check_open_accounts D A pool_state_loader protocol_position_key tick_array_lower
              tick_array_upper tick_lower_index tick_upper_index tick_array_lower_start_index
              tick_array_upper_start_index (dp_pool st)) (\<lambda>_.
     open_position U T S D timestamp
       (A\<lparr>da_token_program_2022 := None, da_vault_0_mint := None, da_vault_1_mint := None\<rparr>)
       N pool_state_loader tick_array_lower tick_array_upper default_personal_position
       remaining_accounts protocol_position_bump personal_position_bump liquidity amount_0_max
       amount_1_max tick_lower_index tick_upper_index tick_array_lower_start_index
       tick_array_upper_start_index True None st)"

definition open_position_v2 ::
  "uint_lib \<Rightarrow> 's token_lib \<Rightarrow> tick_array system_lib \<Rightarrow> pda \<Rightarrow> u64 \<Rightarrow> deposit_accounts \<Rightarrow> pubkey \<Rightarrow>
   mint_account \<Rightarrow> mint_account \<Rightarrow> nft_accounts \<Rightarrow>
   pubkey \<Rightarrow> pubkey \<Rightarrow> pubkey \<Rightarrow> pubkey \<Rightarrow> extension_account list \<Rightarrow> u8 \<Rightarrow> u8 \<Rightarrow>
   i32 \<Rightarrow> i32 \<Rightarrow> i32 \<Rightarrow> i32 \<Rightarrow> u128 \<Rightarrow> u64 \<Rightarrow> u64 \<Rightarrow> bool \<Rightarrow> bool option \<Rightarrow>
   's deposit_state \<Rightarrow> (personal_position \<times> 's deposit_state) res" where
  "open_position_v2 U T S D timestamp A token_program_2022 vault_0_mint vault_1_mint N
      pool_state_loader protocol_position_key tick_array_lower
      tick_array_upper remaining_accounts protocol_position_bump personal_position_bump
      tick_lower_index tick_upper_index tick_array_lower_start_index tick_array_upper_start_index
      liquidity amount_0_max amount_1_max with_matedata base_flag st =
     rbind (check_open_accounts_v2 D A vault_0_mint vault_1_mint pool_state_loader
              protocol_position_key tick_array_lower tick_array_upper tick_lower_index tick_upper_index
              tick_array_lower_start_index tick_array_upper_start_index (dp_pool st)) (\<lambda>_.
     open_position U T S D timestamp
       (A\<lparr>da_token_program_2022 := Some token_program_2022, da_vault_0_mint := Some vault_0_mint,
          da_vault_1_mint := Some vault_1_mint\<rparr>)
       N pool_state_loader tick_array_lower tick_array_upper default_personal_position
       remaining_accounts protocol_position_bump personal_position_bump liquidity amount_0_max
       amount_1_max tick_lower_index tick_upper_index tick_array_lower_start_index
       tick_array_upper_start_index with_matedata base_flag st)"

end
