(* ===== verification/Withdraw.thy ===== *)
theory Withdraw
  imports Deposit
begin

text \<open>
  Removing liquidity and collecting what a position has earned:
  \<open>instructions/decrease_liquidity.rs\<close>, and the end of a position,
  \<open>instructions/close_position.rs\<close>.
\<close>

section \<open>Burning liquidity\<close>

definition burn_liquidity ::
  "uint_lib \<Rightarrow> tick_array account_loader \<Rightarrow> pda \<Rightarrow> u64 \<Rightarrow> pubkey \<Rightarrow> pubkey \<Rightarrow> u128 \<Rightarrow>
   's deposit_state \<Rightarrow> ((u64 \<times> u64) \<times> 's deposit_state) res" where
  "burn_liquidity U AL D timestamp tick_array_lower_loader tick_array_upper_loader liquidity st =
     rbind (check_array_of_pool AL D tick_array_lower_loader st) (\<lambda>_.
     rbind (check_array_of_pool AL D tick_array_upper_loader st) (\<lambda>_.
     rbind (load_tick AL tick_array_lower_loader (pp_tick_lower_index (dp_position st)) st) (\<lambda>tick_lower.
     rbind (load_tick AL tick_array_upper_loader (pp_tick_upper_index (dp_position st)) st) (\<lambda>tick_upper.
     rbind (i128_of_u128 liquidity) (\<lambda>liquidity.
     rbind (modify_position U (- liquidity) (dp_pool st) (dp_position st) tick_lower tick_upper timestamp)
       (\<lambda>((amount_0, amount_1, flip_tick_lower, flip_tick_upper), pool, position, tick_lower, tick_upper).
     let st = st\<lparr>dp_pool := pool, dp_position := position\<rparr> in
     rbind (store_tick AL tick_array_lower_loader (pp_tick_lower_index position) tick_lower st) (\<lambda>st.
     rbind (store_tick AL tick_array_upper_loader (pp_tick_upper_index position) tick_upper st) (\<lambda>st.
     rbind (if flip_tick_lower then count_cleared_tick AL D tick_array_lower_loader st else Ok st) (\<lambda>st.
     rbind (if flip_tick_upper then count_cleared_tick AL D tick_array_upper_loader st else Ok st) (\<lambda>st.
     Ok ((amount_0, amount_1), st)))))))))))"

text \<open>The fees that a position is owed, against what is left of the fees of the pool.\<close>

definition claim_fees ::
  "personal_position \<Rightarrow> pool_state \<Rightarrow> ((u64 \<times> u64) \<times> personal_position \<times> pool_state) res" where
  "claim_fees personal pool =
     (if get_status_by_bit pool CollectFee then
        let latest_fees_owed_0 = pe_token_fees_owed_0 personal;
            latest_fees_owed_1 = pe_token_fees_owed_1 personal in
        rbind (chk_sub (ps_total_fees_token_0 pool) (ps_total_fees_claimed_token_0 pool)) (\<lambda>unclaimed_0.
        rbind (require (unclaimed_0 \<ge> latest_fees_owed_0) RequireGteViolated) (\<lambda>_.
        rbind (chk_sub (ps_total_fees_token_1 pool) (ps_total_fees_claimed_token_1 pool)) (\<lambda>unclaimed_1.
        rbind (require (unclaimed_1 \<ge> latest_fees_owed_1) RequireGteViolated) (\<lambda>_.
        let personal = personal\<lparr>pe_token_fees_owed_0 := 0, pe_token_fees_owed_1 := 0\<rparr> in
        rbind (unwrap (checked_add 64 (ps_total_fees_claimed_token_0 pool) latest_fees_owed_0)) (\<lambda>claimed_0.
        rbind (unwrap (checked_add 64 (ps_total_fees_claimed_token_1 pool) latest_fees_owed_1)) (\<lambda>claimed_1.
        Ok ((latest_fees_owed_0, latest_fees_owed_1), personal,
            pool\<lparr>ps_total_fees_claimed_token_0 := claimed_0, ps_total_fees_claimed_token_1 := claimed_1\<rparr>)))))))
      else Ok ((0, 0), personal, pool))"

definition decrease_liquidity_and_update_position ::
  "uint_lib \<Rightarrow> tick_array account_loader \<Rightarrow> pda \<Rightarrow> u64 \<Rightarrow> personal_position \<Rightarrow> pubkey \<Rightarrow> pubkey \<Rightarrow>
   u128 \<Rightarrow> 's deposit_state \<Rightarrow>
   ((u64 \<times> u64 \<times> u64 \<times> u64) \<times> personal_position \<times> 's deposit_state) res" where
  "decrease_liquidity_and_update_position U AL D timestamp personal tick_array_lower tick_array_upper
      liquidity st =
     rbind (if get_status_by_bit (dp_pool st) DecreaseLiquidity then
              rbind (burn_liquidity U AL D timestamp tick_array_lower tick_array_upper liquidity st)
                (\<lambda>((decrease_amount_0, decrease_amount_1), st).
              rbind (collect_growth U personal (dp_position st)) (\<lambda>personal.
              rbind (unwrap (checked_sub (pe_liquidity personal) liquidity)) (\<lambda>rest.
              Ok ((decrease_amount_0, decrease_amount_1), personal\<lparr>pe_liquidity := rest\<rparr>, st))))
            else Ok ((0, 0), personal, st)) (\<lambda>((decrease_amount_0, decrease_amount_1), personal, st).
     rbind (claim_fees personal (dp_pool st)) (\<lambda>((latest_fees_owed_0, latest_fees_owed_1), personal, pool).
     Ok ((decrease_amount_0, latest_fees_owed_0, decrease_amount_1, latest_fees_owed_1), personal,
         st\<lparr>dp_pool := pool\<rparr>)))"

section \<open>Rewards\<close>

text \<open>
  An account after the fixed ones of an instruction: its key and what Anchor decodes from it as an
  extension, a token account or a mint.
\<close>

record remaining_account =
  ra_key :: pubkey
  ra_extension :: "bitmap_extension res"
  ra_token_account :: "token_account res"
  ra_mint :: "mint_account res"

fun count_initialized :: "reward_info list \<Rightarrow> nat" where
  "count_initialized [] = 0"
| "count_initialized (item # items) =
     (if reward_initialized item then 1 else 0) + count_initialized items"

definition check_required_accounts_length :: "pool_state \<Rightarrow> 'a list \<Rightarrow> nat \<Rightarrow> unit res" where
  "check_required_accounts_length pool remaining_accounts reward_group_account_num =
     (let valid_reward_count = count_initialized (ps_reward_infos pool) in
      if length remaining_accounts \<noteq> valid_reward_count * reward_group_account_num
      then Err (Code InvalidRewardInputAccountNumber) else Ok ())"

text \<open>\<open>iter.next().unwrap()\<close>.\<close>

primrec next_account :: "'a list \<Rightarrow> ('a \<times> 'a list) res" where
  "next_account [] = Panic"
| "next_account (x # xs) = Ok (x, xs)"

text \<open>The group of accounts of one reward.\<close>

definition next_reward_group ::
  "bool \<Rightarrow> remaining_account list \<Rightarrow>
   ((token_account \<times> token_account \<times> mint_account option) \<times> remaining_account list) res" where
  "next_reward_group need_reward_mint accounts =
     rbind (next_account accounts) (\<lambda>(a, accounts).
     rbind (ra_token_account a) (\<lambda>reward_token_vault.
     rbind (next_account accounts) (\<lambda>(a, accounts).
     rbind (ra_token_account a) (\<lambda>recipient_token_account.
     if need_reward_mint then
       rbind (next_account accounts) (\<lambda>(a, accounts).
       rbind (ra_mint a) (\<lambda>reward_vault_mint.
       Ok ((reward_token_vault, recipient_token_account, Some reward_vault_mint), accounts)))
     else Ok ((reward_token_vault, recipient_token_account, None), accounts)))))"

text \<open>The reward of one index: what is transferred, with the position, the pool and the tokens after.\<close>

definition collect_reward ::
  "'s token_lib \<Rightarrow> pubkey \<Rightarrow> pubkey \<Rightarrow> pubkey option \<Rightarrow> nat \<Rightarrow>
   token_account \<Rightarrow> token_account \<Rightarrow> mint_account option \<Rightarrow>
   personal_position \<Rightarrow> pool_state \<Rightarrow> 's \<Rightarrow> (u64 \<times> personal_position \<times> pool_state \<times> 's) res" where
  "collect_reward T pool_state_loader token_program token_program_2022 i reward_token_vault
      recipient_token_account reward_vault_mint personal pool s =
     rbind (require (tk_mint reward_token_vault = tk_mint recipient_token_account) RequireKeysEqViolated) (\<lambda>_.
     rbind (assertion (i < REWARD_NUM)) (\<lambda>_.
     rbind (require (tk_key reward_token_vault = ri_token_vault (ps_reward_infos pool ! i))
              RequireKeysEqViolated) (\<lambda>_.
     let reward_amount_owed = pr_reward_amount_owed (pe_reward_infos personal ! i) in
     if reward_amount_owed = 0 then Ok (0, personal, pool, s)
     else
       rbind (check_unclaimed_reward pool i reward_amount_owed) (\<lambda>_.
       let transfer_amount =
             (if reward_amount_owed > tk_amount reward_token_vault then tk_amount reward_token_vault
              else reward_amount_owed) in
       if transfer_amount > 0 then
         rbind (unwrap (checked_sub reward_amount_owed transfer_amount)) (\<lambda>rest.
         let personal = personal\<lparr>pe_reward_infos := (pe_reward_infos personal)
               [i := (pe_reward_infos personal ! i)\<lparr>pr_reward_amount_owed := rest\<rparr>]\<rparr> in
         rbind (add_reward_clamed pool i transfer_amount) (\<lambda>pool.
         rbind (transfer_from_pool_vault_to_user T pool_state_loader reward_token_vault
                  recipient_token_account reward_vault_mint token_program token_program_2022
                  transfer_amount s) (\<lambda>s.
         Ok (transfer_amount, personal, pool, s))))
       else Ok (transfer_amount, personal, pool, s)))))"

fun collect_rewards_loop ::
  "'s token_lib \<Rightarrow> pubkey \<Rightarrow> pubkey \<Rightarrow> pubkey option \<Rightarrow> bool \<Rightarrow> nat \<Rightarrow> nat \<Rightarrow> remaining_account list \<Rightarrow>
   u64 list \<Rightarrow> personal_position \<Rightarrow> pool_state \<Rightarrow> 's \<Rightarrow>
   (u64 list \<times> personal_position \<times> pool_state \<times> 's) res" where
  "collect_rewards_loop T pool_state_loader token_program token_program_2022 need_reward_mint i 0
      accounts reward_amounts personal pool s = Ok (reward_amounts, personal, pool, s)"
| "collect_rewards_loop T pool_state_loader token_program token_program_2022 need_reward_mint i (Suc n)
      accounts reward_amounts personal pool s =
     rbind (next_reward_group need_reward_mint accounts) (\<lambda>((vault, recipient, mint), accounts).
     rbind (collect_reward T pool_state_loader token_program token_program_2022 i vault recipient mint
              personal pool s) (\<lambda>(transfer_amount, personal, pool, s).
     collect_rewards_loop T pool_state_loader token_program token_program_2022 need_reward_mint (Suc i) n
       accounts (reward_amounts[i := transfer_amount]) personal pool s))"

definition collect_rewards ::
  "'s token_lib \<Rightarrow> pubkey \<Rightarrow> remaining_account list \<Rightarrow> pubkey \<Rightarrow> pubkey option \<Rightarrow> bool \<Rightarrow>
   personal_position \<Rightarrow> pool_state \<Rightarrow> 's \<Rightarrow> (u64 list \<times> personal_position \<times> pool_state \<times> 's) res" where
  "collect_rewards T pool_state_loader remaining_accounts token_program token_program_2022
      need_reward_mint personal pool s =
     (let reward_amounts = replicate REWARD_NUM 0 in
      if \<not> get_status_by_bit pool CollectReward then Ok (reward_amounts, personal, pool, s)
      else
        let reward_group_account_num = (if need_reward_mint then 3 else 2) in
        rbind (check_required_accounts_length pool remaining_accounts reward_group_account_num) (\<lambda>_.
        collect_rewards_loop T pool_state_loader token_program token_program_2022 need_reward_mint 0
          (length remaining_accounts div reward_group_account_num) remaining_accounts reward_amounts
          personal pool s))"

section \<open>Decreasing a position\<close>

text \<open>A vault that holds no more than the fees still to be claimed stops the collection of fees.\<close>

definition check_unclaimed_fees_and_vault ::
  "'s token_lib \<Rightarrow> token_account \<Rightarrow> token_account \<Rightarrow> 's \<Rightarrow> pool_state \<Rightarrow> pool_state res" where
  "check_unclaimed_fees_and_vault T token_vault_0 token_vault_1 s pool =
     rbind (reload T s token_vault_0) (\<lambda>token_vault_0.
     rbind (reload T s token_vault_1) (\<lambda>token_vault_1.
     rbind (unwrap (checked_sub (ps_total_fees_token_0 pool) (ps_total_fees_claimed_token_0 pool)))
       (\<lambda>unclaimed_fee_token_0.
     rbind (unwrap (checked_sub (ps_total_fees_token_1 pool) (ps_total_fees_claimed_token_1 pool)))
       (\<lambda>unclaimed_fee_token_1.
     if unclaimed_fee_token_0 \<ge> tk_amount token_vault_0 \<and> tk_amount token_vault_0 \<noteq> 0
        \<or> unclaimed_fee_token_1 \<ge> tk_amount token_vault_1 \<and> tk_amount token_vault_1 \<noteq> 0
     then Ok (set_status_by_bit pool CollectFee Disable)
     else Ok pool))))"

text \<open>The extension among the remaining accounts, the last one if there are several; and the others.\<close>

fun split_remaining ::
  "pubkey \<Rightarrow> remaining_account list \<Rightarrow> remaining_account option \<Rightarrow> remaining_account option \<times> remaining_account list"
where
  "split_remaining key [] extension = (extension, [])"
| "split_remaining key (account # accounts) extension =
     (if ra_key account = key then split_remaining key accounts (Some account)
      else let (extension, rest) = split_remaining key accounts extension in (extension, account # rest))"

definition as_extension_account :: "remaining_account \<Rightarrow> extension_account" where
  "as_extension_account account = \<lparr>ea_key = ra_key account, ea_load = ra_extension account\<rparr>"

text \<open>The accounts that receive a withdrawal; the program of the tokens and their mints.\<close>

record withdraw_accounts =
  wa_token_vault_0 :: token_account
  wa_token_vault_1 :: token_account
  wa_recipient_token_account_0 :: token_account
  wa_recipient_token_account_1 :: token_account
  wa_token_program :: pubkey
  wa_token_program_2022 :: "pubkey option"
  wa_vault_0_mint :: "mint_account option"
  wa_vault_1_mint :: "mint_account option"

definition withdraw_fee :: "'s token_lib \<Rightarrow> mint_account option \<Rightarrow> u64 \<Rightarrow> u64 res" where
  "withdraw_fee T vault_mint amount =
     (case vault_mint of
        Some mint \<Rightarrow> unwrap_result (get_transfer_fee T mint amount)
      | None \<Rightarrow> Ok 0)"

text \<open>The payment of a withdrawal: what the recipient gets of the liquidity is bounded below.\<close>

definition pay_withdrawal ::
  "'s token_lib \<Rightarrow> withdraw_accounts \<Rightarrow> pubkey \<Rightarrow> u128 \<Rightarrow> u64 \<Rightarrow> u64 \<Rightarrow> u64 \<times> u64 \<times> u64 \<times> u64 \<Rightarrow> 's \<Rightarrow> 's res"
where
  "pay_withdrawal T W pool_state_loader liquidity amount_0_min amount_1_min amounts s =
     (case amounts of (decrease_amount_0, latest_fees_owed_0, decrease_amount_1, latest_fees_owed_1) \<Rightarrow>
      rbind (withdraw_fee T (wa_vault_0_mint W) decrease_amount_0) (\<lambda>transfer_fee_0.
      rbind (withdraw_fee T (wa_vault_1_mint W) decrease_amount_1) (\<lambda>transfer_fee_1.
      rbind (if liquidity > 0 then
               rbind (chk_sub decrease_amount_0 transfer_fee_0) (\<lambda>received_0.
               rbind (require (received_0 \<ge> amount_0_min) (Code PriceSlippageCheck)) (\<lambda>_.
               rbind (chk_sub decrease_amount_1 transfer_fee_1) (\<lambda>received_1.
               require (received_1 \<ge> amount_1_min) (Code PriceSlippageCheck))))
             else Ok ()) (\<lambda>_.
      rbind (chk_add 64 decrease_amount_0 latest_fees_owed_0) (\<lambda>transfer_amount_0.
      rbind (chk_add 64 decrease_amount_1 latest_fees_owed_1) (\<lambda>transfer_amount_1.
      rbind (transfer_from_pool_vault_to_user T pool_state_loader (wa_token_vault_0 W)
               (wa_recipient_token_account_0 W) (wa_vault_0_mint W) (wa_token_program W)
               (wa_token_program_2022 W) transfer_amount_0 s) (\<lambda>s.
      transfer_from_pool_vault_to_user T pool_state_loader (wa_token_vault_1 W)
        (wa_recipient_token_account_1 W) (wa_vault_1_mint W) (wa_token_program W)
        (wa_token_program_2022 W) transfer_amount_1 s)))))))"

definition decrease_liquidity ::
  "uint_lib \<Rightarrow> 's token_lib \<Rightarrow> tick_array account_loader \<Rightarrow> pda \<Rightarrow> u64 \<Rightarrow> withdraw_accounts \<Rightarrow> pubkey \<Rightarrow>
   personal_position \<Rightarrow> pubkey \<Rightarrow> pubkey \<Rightarrow> remaining_account list \<Rightarrow> u128 \<Rightarrow> u64 \<Rightarrow> u64 \<Rightarrow>
   's deposit_state \<Rightarrow> (u64 list \<times> personal_position \<times> 's deposit_state) res" where
  "decrease_liquidity U T AL D timestamp W pool_state_loader personal tick_array_lower tick_array_upper
      remaining_accounts liquidity amount_0_min amount_1_min st =
     rbind (assertion (liquidity \<le> pe_liquidity personal)) (\<lambda>_.
     rbind (require (get_status_by_bit (dp_pool st) DecreaseLiquidity
              \<or> get_status_by_bit (dp_pool st) CollectFee
              \<or> get_status_by_bit (dp_pool st) CollectReward) (Code NotApproved)) (\<lambda>_.
     rbind (al_load AL (dp_tick_arrays st) tick_array_lower) (\<lambda>lower.
     rbind (al_load AL (dp_tick_arrays st) tick_array_upper) (\<lambda>upper.
     rbind (is_overflow_default_tickarray_bitmap (dp_pool st)
              [ta_start_tick_index lower, ta_start_tick_index upper]) (\<lambda>use_tickarray_bitmap_extension.
     rbind (if remaining_accounts = [] then Ok 0 else pool_key D (dp_pool st)) (\<lambda>key.
     let (extension, remaining_collect_accounts) =
           split_remaining (pda_bitmap_extension D key) remaining_accounts None in
     rbind (if use_tickarray_bitmap_extension
            then require (extension \<noteq> None) (Code MissingTickArrayBitmapExtensionAccount)
            else Ok ()) (\<lambda>_.
     rbind (decrease_liquidity_and_update_position U AL D timestamp personal tick_array_lower
              tick_array_upper liquidity (st\<lparr>dp_extension := map_option as_extension_account extension\<rparr>))
       (\<lambda>(amounts, personal, st).
     rbind (pay_withdrawal T W pool_state_loader liquidity amount_0_min amount_1_min amounts (dp_tokens st))
       (\<lambda>s.
     rbind (check_unclaimed_fees_and_vault T (wa_token_vault_0 W) (wa_token_vault_1 W) s (dp_pool st))
       (\<lambda>pool.
     rbind (collect_rewards T pool_state_loader remaining_collect_accounts (wa_token_program W)
              (wa_token_program_2022 W) (wa_token_program_2022 W \<noteq> None) personal pool s)
       (\<lambda>(reward_amounts, personal, pool, s).
     Ok (reward_amounts, personal, st\<lparr>dp_pool := pool, dp_tokens := s\<rparr>))))))))))))"


text \<open>The constraints of the instruction accounts, and the two instructions.\<close>

definition check_withdraw_accounts ::
  "tick_array account_loader \<Rightarrow> pda \<Rightarrow> token_account \<Rightarrow> withdraw_accounts \<Rightarrow> pubkey \<Rightarrow> pubkey \<Rightarrow>
   personal_position \<Rightarrow> pubkey \<Rightarrow> pubkey \<Rightarrow> 's deposit_state \<Rightarrow> unit res" where
  "check_withdraw_accounts AL D nft_account W pool_state_loader protocol_position_key personal
      tick_array_lower tick_array_upper st =
     rbind (require (tk_mint nft_account = pe_nft_mint personal) ConstraintRaw) (\<lambda>_.
     rbind (require (tk_program nft_account = wa_token_program W) ConstraintTokenTokenProgram) (\<lambda>_.
     rbind (require (pe_pool_id personal = pool_state_loader) ConstraintRaw) (\<lambda>_.
     rbind (require (protocol_position_key =
              pda_protocol_position D pool_state_loader (pe_tick_lower_index personal) (pe_tick_upper_index personal))
              ConstraintSeeds) (\<lambda>_.
     rbind (require (pp_pool_id (dp_position st) = pool_state_loader) ConstraintRaw) (\<lambda>_.
     rbind (require (tk_key (wa_token_vault_0 W) = ps_token_vault_0 (dp_pool st)) ConstraintRaw) (\<lambda>_.
     rbind (require (tk_key (wa_token_vault_1 W) = ps_token_vault_1 (dp_pool st)) ConstraintRaw) (\<lambda>_.
     rbind (al_load AL (dp_tick_arrays st) tick_array_lower) (\<lambda>lower.
     rbind (require (ta_pool_id lower = pool_state_loader) ConstraintRaw) (\<lambda>_.
     rbind (al_load AL (dp_tick_arrays st) tick_array_upper) (\<lambda>upper.
     rbind (require (ta_pool_id upper = pool_state_loader) ConstraintRaw) (\<lambda>_.
     rbind (require (tk_mint (wa_recipient_token_account_0 W) = tk_mint (wa_token_vault_0 W))
              ConstraintTokenMint) (\<lambda>_.
     require (tk_mint (wa_recipient_token_account_1 W) = tk_mint (wa_token_vault_1 W))
              ConstraintTokenMint))))))))))))"

definition check_withdraw_accounts_v2 ::
  "tick_array account_loader \<Rightarrow> pda \<Rightarrow> token_account \<Rightarrow> withdraw_accounts \<Rightarrow> mint_account \<Rightarrow> mint_account \<Rightarrow>
   pubkey \<Rightarrow> pubkey \<Rightarrow> personal_position \<Rightarrow> pubkey \<Rightarrow> pubkey \<Rightarrow> 's deposit_state \<Rightarrow> unit res" where
  "check_withdraw_accounts_v2 AL D nft_account W vault_0_mint vault_1_mint pool_state_loader
      protocol_position_key personal tick_array_lower tick_array_upper st =
     rbind (check_withdraw_accounts AL D nft_account W pool_state_loader protocol_position_key personal
              tick_array_lower tick_array_upper st) (\<lambda>_.
     rbind (require (mint_key vault_0_mint = tk_mint (wa_token_vault_0 W)) ConstraintAddress) (\<lambda>_.
     require (mint_key vault_1_mint = tk_mint (wa_token_vault_1 W)) ConstraintAddress))"

definition decrease_liquidity_v1 ::
  "uint_lib \<Rightarrow> 's token_lib \<Rightarrow> tick_array account_loader \<Rightarrow> pda \<Rightarrow> u64 \<Rightarrow> pubkey \<Rightarrow> token_account \<Rightarrow>
   withdraw_accounts \<Rightarrow> pubkey \<Rightarrow> pubkey \<Rightarrow> personal_position \<Rightarrow> pubkey \<Rightarrow> pubkey \<Rightarrow>
   remaining_account list \<Rightarrow> u128 \<Rightarrow> u64 \<Rightarrow> u64 \<Rightarrow>
   's deposit_state \<Rightarrow> (u64 list \<times> personal_position \<times> 's deposit_state) res" where
  "decrease_liquidity_v1 U T AL D timestamp nft_owner nft_account W pool_state_loader
      protocol_position_key personal tick_array_lower tick_array_upper remaining_accounts liquidity
      amount_0_min amount_1_min st =
     rbind (check_withdraw_accounts AL D nft_account W pool_state_loader protocol_position_key personal
              tick_array_lower tick_array_upper st) (\<lambda>_.
     rbind (is_authorized_for_token nft_owner nft_account) (\<lambda>_.
     decrease_liquidity U T AL D timestamp
       (W\<lparr>wa_token_program_2022 := None, wa_vault_0_mint := None, wa_vault_1_mint := None\<rparr>)
       pool_state_loader personal tick_array_lower tick_array_upper remaining_accounts liquidity
       amount_0_min amount_1_min st))"

definition decrease_liquidity_v2 ::
  "uint_lib \<Rightarrow> 's token_lib \<Rightarrow> tick_array account_loader \<Rightarrow> pda \<Rightarrow> u64 \<Rightarrow> pubkey \<Rightarrow> token_account \<Rightarrow>
   withdraw_accounts \<Rightarrow> pubkey \<Rightarrow> mint_account \<Rightarrow> mint_account \<Rightarrow>
   pubkey \<Rightarrow> pubkey \<Rightarrow> personal_position \<Rightarrow> pubkey \<Rightarrow> pubkey \<Rightarrow>
   remaining_account list \<Rightarrow> u128 \<Rightarrow> u64 \<Rightarrow> u64 \<Rightarrow>
   's deposit_state \<Rightarrow> (u64 list \<times> personal_position \<times> 's deposit_state) res" where
  "decrease_liquidity_v2 U T AL D timestamp nft_owner nft_account W token_program_2022 vault_0_mint
      vault_1_mint pool_state_loader protocol_position_key personal tick_array_lower tick_array_upper
      remaining_accounts liquidity amount_0_min amount_1_min st =
     rbind (check_withdraw_accounts_v2 AL D nft_account W vault_0_mint vault_1_mint pool_state_loader
              protocol_position_key personal tick_array_lower tick_array_upper st) (\<lambda>_.
     rbind (is_authorized_for_token nft_owner nft_account) (\<lambda>_.
     decrease_liquidity U T AL D timestamp
       (W\<lparr>wa_token_program_2022 := Some token_program_2022, wa_vault_0_mint := Some vault_0_mint,
          wa_vault_1_mint := Some vault_1_mint\<rparr>)
       pool_state_loader personal tick_array_lower tick_array_upper remaining_accounts liquidity
       amount_0_min amount_1_min st))"

section \<open>Closing a position\<close>

fun check_no_rewards_owed :: "position_reward_info list \<Rightarrow> unit res" where
  "check_no_rewards_owed [] = Ok ()"
| "check_no_rewards_owed (info # infos) =
     (if pr_reward_amount_owed info \<noteq> 0 then Err (Code ClosePositionErr)
      else check_no_rewards_owed infos)"

text \<open>
  The constraints come first; \<open>associated_token\<close> derives the address of the owner's token account.
  When the handler returns, Anchor closes the account of the position.
\<close>

definition close_position ::
  "'s token_lib \<Rightarrow> pda \<Rightarrow> (pubkey \<Rightarrow> pubkey \<Rightarrow> pubkey \<Rightarrow> pubkey) \<Rightarrow> pubkey \<Rightarrow> mint_account \<Rightarrow>
   token_account \<Rightarrow> pubkey \<Rightarrow> personal_position \<Rightarrow> pubkey \<Rightarrow> 's \<Rightarrow> 's res" where
  "close_position T D associated_token nft_owner position_nft_mint position_nft_account
      personal_position_key personal token_program s =
     rbind (require (mint_key position_nft_mint = pe_nft_mint personal) ConstraintAddress) (\<lambda>_.
     rbind (require (mint_program position_nft_mint = token_program) ConstraintMintTokenProgram) (\<lambda>_.
     rbind (require (tk_owner position_nft_account = nft_owner) ConstraintTokenOwner) (\<lambda>_.
     rbind (require (tk_key position_nft_account =
              associated_token nft_owner token_program (mint_key position_nft_mint)) ConstraintAssociated) (\<lambda>_.
     rbind (require (tk_amount position_nft_account = 1) ConstraintRaw) (\<lambda>_.
     rbind (require (personal_position_key = pda_position D (mint_key position_nft_mint)) ConstraintSeeds) (\<lambda>_.
     if pe_liquidity personal \<noteq> 0 \<or> pe_token_fees_owed_0 personal \<noteq> 0 \<or> pe_token_fees_owed_1 personal \<noteq> 0
     then Err (Code ClosePositionErr)
     else
       rbind (check_no_rewards_owed (pe_reward_infos personal)) (\<lambda>_.
       rbind (burn T nft_owner position_nft_mint position_nft_account token_program 1 s) (\<lambda>s.
       close_spl_account T nft_owner nft_owner position_nft_account token_program s))))))))"

end
