(* ===== verification/Pool_Search.thy ===== *)
theory Pool_Search
  imports Pool
begin

text \<open>
  The tick arrays of a pool that are in use are marked in two places: the pool's own map for
  the arrays around price one, and the extension account for the rest.  This theory joins the
  two: one predicate \<open>pool_has\<close> for both, the contract of a search that moves in one direction
  (locale \<open>mark_search\<close>, interpreted on the search of the pool's map and on the search of one
  map of the extension), and the correctness of the loop over both and of the flips.
\<close>

section \<open>Directed searches\<close>

definition beyond :: "bool \<Rightarrow> int \<Rightarrow> int \<Rightarrow> bool" where
  "beyond z s t \<longleftrightarrow> (if z then s < t else t < s)"

text \<open>The nearest mark strictly beyond \<open>t\<close>.\<close>

definition nearest_mark :: "(int \<Rightarrow> bool) \<Rightarrow> bool \<Rightarrow> int \<Rightarrow> int option \<Rightarrow> bool" where
  "nearest_mark P z t r \<longleftrightarrow> (case r of
     None \<Rightarrow> \<forall>s. P s \<longrightarrow> \<not> beyond z s t
   | Some s \<Rightarrow> P s \<and> beyond z s t \<and> (\<forall>s'. P s' \<and> beyond z s' t \<longrightarrow> \<not> beyond z s s'))"

text \<open>One step of a search found the nearest mark, or skipped no mark on its way.\<close>

definition step_ok :: "(int \<Rightarrow> bool) \<Rightarrow> bool \<Rightarrow> int \<Rightarrow> bool \<times> int \<Rightarrow> bool" where
  "step_ok P z t r \<longleftrightarrow> (case r of (found, s) \<Rightarrow>
     if found then nearest_mark P z t (Some s)
     else \<not> beyond z t s \<and> (\<forall>s'. P s' \<and> beyond z s' t \<longrightarrow> beyond z s' s))"

locale mark_search =
  fixes search :: "'s \<Rightarrow> bool \<Rightarrow> int \<Rightarrow> (bool \<times> int) res"
    and marks :: "'s \<Rightarrow> int \<Rightarrow> bool"
    and defined_at :: "'s \<Rightarrow> bool \<Rightarrow> int \<Rightarrow> bool"
  assumes search_ok: "defined_at st z t \<Longrightarrow> \<exists>r. search st z t = Ok r \<and> step_ok (marks st) z t r"
begin

lemma found: "defined_at st z t \<Longrightarrow> search st z t = Ok (True, s) \<Longrightarrow> nearest_mark (marks st) z t (Some s)"
  using search_ok [of st z t] by (auto simp: step_ok_def)

lemma not_found:
  assumes "defined_at st z t" "search st z t = Ok (False, s)"
  shows "nearest_mark (marks st) z t r \<longleftrightarrow> nearest_mark (marks st) z s r"
proof -
  have "\<not> beyond z t s" "\<And>s'. marks st s' \<Longrightarrow> beyond z s' t \<Longrightarrow> beyond z s' s"
    using search_ok [OF assms(1)] assms(2) by (auto simp: step_ok_def)
  moreover from this(1) have "beyond z s' s \<Longrightarrow> beyond z s' t" for s'
    by (auto simp: beyond_def split: if_splits)
  ultimately have "marks st s' \<Longrightarrow> beyond z s' t \<longleftrightarrow> beyond z s' s" for s'
    by blast
  then show ?thesis
    by (auto simp: nearest_mark_def split: option.splits)
qed

lemma returns: "defined_at st z t \<Longrightarrow> \<exists>found s. search st z t = Ok (found, s)"
  using search_ok [of st z t] by auto

end

section \<open>The two maps\<close>

abbreviation spacing_of :: "pool_state \<Rightarrow> nat" where
  "spacing_of self \<equiv> ps_tick_spacing self"

definition pool_has :: "pool_state \<Rightarrow> bitmap_extension \<Rightarrow> int \<Rightarrow> bool" where
  "pool_has self ext s \<longleftrightarrow> map_has (ps_tick_array_bitmap self) (spacing_of self) s
     \<or> extension_has ext (spacing_of self) s"

definition wf_pool_maps :: "pool_state \<Rightarrow> bitmap_extension \<Rightarrow> bool" where
  "wf_pool_maps self ext \<longleftrightarrow> spacing_ok (spacing_of self) \<and> wf_bit_map (ps_tick_array_bitmap self)
     \<and> wf_extension ext \<and> (\<forall>s. pool_has self ext s \<longrightarrow> valid_start s (spacing_of self))"

lemma map_has_inside: "map_has bm ts s \<Longrightarrow> \<not> outside_default ts s"
  by (auto simp: map_has_def outside_default_def)

lemma pool_has_dvd: "pool_has self ext s \<Longrightarrow> tick_count (spacing_of self) dvd s"
  by (auto simp: pool_has_def map_has_def extension_has_def)

text \<open>A spacing without extension has no start outside of the default map.\<close>

lemma outside_extended:
  assumes "spacing_ok ts" "valid_start s ts" "outside_default ts s"
  shows "extended ts"
proof (rule ccontr)
  assume "\<not> extended ts"
  then have B: "MAX_TICK \<le> max_tick_in_tickarray_bitmap ts"
    using assms(1) by (auto simp: extended_def spacing_ok_def)
  have n: "0 < tick_count ts" "max_tick_in_tickarray_bitmap ts = 512 * tick_count ts"
    using tick_count_bounds [OF assms(1)] by (auto simp: max_tick_eq)
  have "tick_count ts dvd - max_tick_in_tickarray_bitmap ts"
    by (simp add: n)
  then have "- max_tick_in_tickarray_bitmap ts \<le> array_start MIN_TICK ts"
    using array_start_mono [OF assms(1), of "- max_tick_in_tickarray_bitmap ts" MIN_TICK]
      array_start_self [OF assms(1), of "- max_tick_in_tickarray_bitmap ts"] B
    by (simp add: MIN_TICK_def MAX_TICK_def)
  moreover have "max_tick_in_tickarray_bitmap ts \<noteq> MAX_TICK"
  proof
    assume "max_tick_in_tickarray_bitmap ts = MAX_TICK"
    then have "512 dvd MAX_TICK" using n(2) by (metis dvd_triv_left)
    then show False by (simp add: MAX_TICK_def MIN_TICK_def)
  qed
  ultimately show False
    using assms(2,3) B by (auto simp: valid_start_def outside_default_def)
qed

lemma mult_beyond:
  assumes "0 < (n::int)" "n dvd s" "n dvd t"
  shows "s < t \<longleftrightarrow> s \<le> t - n" "t < s \<longleftrightarrow> t + n \<le> s"
proof -
  have "n dvd t - s" "n dvd s - t"
    using assms by auto
  then show "s < t \<longleftrightarrow> s \<le> t - n" "t < s \<longleftrightarrow> t + n \<le> s"
    using assms(1) zdvd_imp_le [of n "t - s"] zdvd_imp_le [of n "s - t"] by auto
qed


section \<open>The search of the pool's map\<close>

definition default_step :: "pool_state \<times> bitmap_extension \<Rightarrow> bool \<Rightarrow> int \<Rightarrow> (bool \<times> int) res" where
  "default_step st z t = (case st of (self, ext) \<Rightarrow>
     next_initialized_tick_array_start_index (ps_tick_array_bitmap self) t (spacing_of self) z)"

definition all_marks :: "pool_state \<times> bitmap_extension \<Rightarrow> int \<Rightarrow> bool" where
  "all_marks st = (case st of (self, ext) \<Rightarrow> pool_has self ext)"

definition at_start :: "pool_state \<times> bitmap_extension \<Rightarrow> bool \<Rightarrow> int \<Rightarrow> bool" where
  "at_start st z t \<longleftrightarrow> (case st of (self, ext) \<Rightarrow>
     wf_pool_maps self ext \<and> valid_start t (spacing_of self))"

lemma default_step_eq:
  assumes wf: "wf_pool_maps self ext" and t: "valid_start t (spacing_of self)"
  defines "n \<equiv> tick_count (spacing_of self)"
  shows "\<exists>r. default_step (self, ext) z t = Ok r \<and> step_ok (pool_has self ext) z t r
    \<and> (\<not> fst r \<longrightarrow> n dvd snd r \<and> outside_default (spacing_of self) (if z then snd r - n else snd r + n))"
proof -
  define ts bm nxt where "ts = spacing_of self" and "bm = ps_tick_array_bitmap self"
    and "nxt = (if z then t - n else t + n)"
  have ts: "spacing_ok ts" and bm: "wf_bit_map bm"
    using wf by (auto simp: wf_pool_maps_def ts_def bm_def)
  have n: "0 < n" "n dvd t" "n = tick_count ts" "max_tick_in_tickarray_bitmap ts = 512 * n"
    using tick_count_bounds [OF ts] t by (auto simp: n_def ts_def valid_start_def max_tick_eq)
  have marks: "pool_has self ext s \<longleftrightarrow> map_has bm ts s \<or> extension_has ext ts s" for s
    by (simp add: pool_has_def bm_def ts_def)
  have dvd: "pool_has self ext s \<Longrightarrow> n dvd s" for s
    using pool_has_dvd by (simp add: n_def)
  have steps: "beyond z s t \<longleftrightarrow> (if z then s \<le> nxt else nxt \<le> s)" if "pool_has self ext s" for s
    using mult_beyond [OF n(1) dvd [OF that] n(2)] by (auto simp: beyond_def nxt_def)
  have inside: "map_has bm ts s" if "pool_has self ext s" "- (512 * n) \<le> s" "s < 512 * n" for s
    using that by (auto simp: marks extension_has_def outside_default_def n(4))
  obtain r where r: "default_step (self, ext) z t = Ok r"
    "if nxt < - (512 * n) \<or> 512 * n \<le> nxt then r = (False, t)
     else if z then nearest_below (map_has bm ts) nxt (- (512 * n)) r
     else nearest_above (map_has bm ts) nxt (512 * n - n) r"
    using search_default_map [OF bm ts t [folded ts_def], of z] unfolding n(3) [symmetric] nxt_def
    by (auto simp: default_step_def bm_def ts_def)
  have "step_ok (pool_has self ext) z t r \<and>
    (\<not> fst r \<longrightarrow> n dvd snd r \<and> outside_default ts (if z then snd r - n else snd r + n))"
  proof (cases "nxt < - (512 * n) \<or> 512 * n \<le> nxt")
    case True
    then have "r = (False, t)" using r(2) by simp
    with True n show ?thesis
      by (auto simp: step_ok_def outside_default_def nxt_def beyond_def split: if_splits)
  next
    case False
    show ?thesis
    proof (cases z)
      case True
      then have nb: "nearest_below (map_has bm ts) nxt (- (512 * n)) r"
        using r(2) False by simp
      show ?thesis
      proof (cases "fst r")
        case f: True
        then obtain s where r': "r = (True, s)" by (cases r) auto
        have s: "map_has bm ts s" "s \<le> nxt" "\<And>s'. map_has bm ts s' \<Longrightarrow> s' \<le> nxt \<Longrightarrow> s' \<le> s"
          using nb by (auto simp: nearest_below_def r')
        have "s' \<le> s" if "pool_has self ext s'" "s' \<le> nxt" for s'
        proof (cases "- (512 * n) \<le> s'")
          case True
          then show ?thesis using that False inside s(3) by auto
        next
          case False
          then show ?thesis using s(1) by (auto simp: map_has_def n(4))
        qed
        then show ?thesis
          using s True steps by (auto simp: step_ok_def r' nearest_mark_def marks beyond_def not_less)
      next
        case f: False
        then have r': "r = (False, - (512 * n))" and none: "\<And>s. map_has bm ts s \<Longrightarrow> nxt < s"
          using nb by (cases r, auto simp: nearest_below_def)+
        have "s' < - (512 * n)" if "pool_has self ext s'" "s' \<le> nxt" for s'
          using that none False inside [OF that(1)] by (cases "- (512 * n) \<le> s'") force+
        then show ?thesis
          using True steps n False by (auto simp: step_ok_def r' beyond_def outside_default_def nxt_def)
      qed
    next
      case up: False
      then have nb: "nearest_above (map_has bm ts) nxt (512 * n - n) r"
        using r(2) False by simp
      show ?thesis
      proof (cases "fst r")
        case f: True
        then obtain s where r': "r = (True, s)" by (cases r) auto
        have s: "map_has bm ts s" "nxt \<le> s" "\<And>s'. map_has bm ts s' \<Longrightarrow> nxt \<le> s' \<Longrightarrow> s \<le> s'"
          using nb by (auto simp: nearest_above_def r')
        have "s \<le> s'" if "pool_has self ext s'" "nxt \<le> s'" for s'
        proof (cases "s' < 512 * n")
          case True
          then show ?thesis using that False inside s(3) by auto
        next
          case False
          then show ?thesis using s(1) by (auto simp: map_has_def n(4))
        qed
        then show ?thesis
          using s up steps by (auto simp: step_ok_def r' nearest_mark_def marks beyond_def not_less)
      next
        case f: False
        then have r': "r = (False, 512 * n - n)" and none: "\<And>s. map_has bm ts s \<Longrightarrow> s < nxt"
          using nb by (cases r, auto simp: nearest_above_def)+
        have "512 * n - n < s'" if "pool_has self ext s'" "nxt \<le> s'" for s'
          using that none False inside [OF that(1)] n(1) by (cases "s' < 512 * n") force+
        moreover have "t \<le> 512 * n - n"
          using False up by (auto simp: nxt_def)
        ultimately show ?thesis
          using up steps n by (auto simp: step_ok_def r' beyond_def outside_default_def)
      qed
    qed
  qed
  with r(1) show ?thesis by (auto simp: ts_def)
qed

interpretation default_search: mark_search default_step all_marks at_start
  by unfold_locales (use default_step_eq in \<open>force simp: at_start_def all_marks_def\<close>)


section \<open>The search of one map of the extension\<close>

definition extension_step :: "pool_state \<times> bitmap_extension \<Rightarrow> bool \<Rightarrow> int \<Rightarrow> (bool \<times> int) res" where
  "extension_step st z t = (case st of (self, ext) \<Rightarrow>
     next_initialized_tick_array_from_one_bitmap ext t (spacing_of self) z)"

text \<open>The search is asked from a multiple of the width whose neighbour is not in the pool's map.\<close>

definition at_edge :: "pool_state \<times> bitmap_extension \<Rightarrow> bool \<Rightarrow> int \<Rightarrow> bool" where
  "at_edge st z t \<longleftrightarrow> (case st of (self, ext) \<Rightarrow>
     let n = tick_count (spacing_of self) in
     wf_pool_maps self ext \<and> n dvd t \<and> \<bar>t\<bar> \<le> 512 * n + 2 ^ 20
     \<and> outside_default (spacing_of self) (if z then t - n else t + n))"

lemma extension_step_eq:
  assumes at: "at_edge (self, ext) z t"
  defines "n \<equiv> tick_count (spacing_of self)"
  shows "\<exists>r. extension_step (self, ext) z t = Ok r \<and> step_ok (pool_has self ext) z t r
    \<and> (\<not> fst r \<longrightarrow> n dvd snd r)"
proof -
  define ts bm nxt B where "ts = spacing_of self" and "bm = ps_tick_array_bitmap self"
    and "nxt = (if z then t - n else t + n)" and "B = max_tick_in_tickarray_bitmap ts"
  have wf: "wf_pool_maps self ext" and ts: "spacing_ok ts" and ext: "wf_extension ext"
    and out: "outside_default ts nxt"
    using at by (auto simp: at_edge_def wf_pool_maps_def ts_def nxt_def n_def Let_def)
  have n: "0 < n" "n dvd t" "n = tick_count ts" "n \<le> 60 * 65535" "B = 512 * n"
    and t: "\<bar>t\<bar> \<le> 512 * n + 2 ^ 20"
    using tick_count_bounds [OF ts] at by (auto simp: n_def ts_def at_edge_def B_def max_tick_eq Let_def)
  have marks: "pool_has self ext s \<longleftrightarrow> map_has bm ts s \<or> extension_has ext ts s" for s
    by (simp add: pool_has_def bm_def ts_def)
  have valid: "pool_has self ext s \<Longrightarrow> valid_start s ts" for s
    using wf by (simp add: wf_pool_maps_def ts_def)
  have dvd: "pool_has self ext s \<Longrightarrow> n dvd s" "n dvd nxt" for s
    using pool_has_dvd n(2) by (auto simp: n_def nxt_def)
  have steps: "beyond z s t \<longleftrightarrow> (if z then s \<le> nxt else nxt \<le> s)" if "pool_has self ext s" for s
    using mult_beyond [OF n(1) dvd(1) [OF that] n(2)] by (auto simp: beyond_def nxt_def)
  have chk: "chk_i 32 (if z then t - n else t + n) = Ok nxt"
    using n t by (auto simp: nxt_def intro!: chk_i32_Ok)
  have ends: "get_array_start_index MIN_TICK ts = Ok (array_start MIN_TICK ts)"
    "get_array_start_index MAX_TICK ts = Ok (array_start MAX_TICK ts)"
    using ts by (auto intro!: get_array_start_index_eq moderate_tick simp: MIN_TICK_def MAX_TICK_def)
  have le_max: "s \<le> array_start MAX_TICK ts" if "valid_start s ts" for s
    using that array_start_mono [OF ts, of s MAX_TICK] array_start_self [OF ts, of s]
    by (simp add: valid_start_def)
  note unfold = extension_step_def prod.case next_initialized_tick_array_from_one_bitmap_def Let_def
    ts_def [symmetric] n(3) [symmetric] chk rbind.simps ends
  show ?thesis
  proof (cases "nxt < array_start MIN_TICK ts \<or> array_start MAX_TICK ts < nxt")
    case True
    have "step_ok (pool_has self ext) z t (False, nxt)"
    proof -
      have "beyond z s nxt" if "pool_has self ext s" "beyond z s t" for s
        using True steps [OF that(1)] that(2) valid [OF that(1)] le_max [OF valid [OF that(1)]]
        by (cases z) (auto simp: beyond_def valid_start_def)
      then show ?thesis
        using n by (auto simp: step_ok_def beyond_def nxt_def)
    qed
    with True show ?thesis
      unfolding unfold using dvd(2) by auto
  next
    case False
    then have v: "valid_start nxt ts"
      using dvd(2) array_start_bounds [OF ts, of MAX_TICK] by (auto simp: valid_start_def n(3))
    have ets: "extended ts"
      using outside_extended [OF ts v out] .
    define q where "q = nxt div B"
    have q: "q \<le> - 2 \<or> 1 \<le> q"
      using out by (simp add: outside_default_iff [OF ets] q_def B_def)
    have B: "0 < B" using n by simp
    have between: "extension_has ext ts s \<and> s div B = q" if "pool_has self ext s" "s div B = q" for s
      using that q map_has_inside [of bm ts s] by (auto simp: marks outside_default_iff [OF ets] B_def)
    have nb: "q * B \<le> nxt" "nxt < q * B + B"
      using div_mult_mod_eq [of nxt B] pos_mod_sign [OF B, of nxt] pos_mod_bound [OF B, of nxt]
      unfolding q_def by linarith+
    have in_map: "s div B = q \<longleftrightarrow> q * B \<le> s \<and> s < q * B + B" for s
      using le_div_int_iff [OF B, of q s] le_div_int_iff [OF B, of "q + 1" s]
      by (auto simp: algebra_simps)
    obtain r where r: "next_initialized_tick_array_in_bitmap (map_of_start ext ts nxt) nxt ts z = Ok r"
      "if z then nearest_below (\<lambda>s. extension_has ext ts s \<and> s div B = q) nxt (q * B) r
       else nearest_above (\<lambda>s. extension_has ext ts s \<and> s div B = q) nxt (q * B + B - n) r"
      using search_one_map [OF ets ext v out, of z] unfolding B_def q_def n(3) by blast
    have res: "extension_step (self, ext) z t = Ok r"
      unfolding unfold using False get_bitmap_eq [OF ets ext, of nxt] v out r(1) by simp
    have "step_ok (pool_has self ext) z t r \<and> (\<not> fst r \<longrightarrow> n dvd snd r)"
    proof (cases r)
      case (Pair f s)
      show ?thesis
      proof (cases f)
        case True
        then have s: "pool_has self ext s" "q * B \<le> s" "s < q * B + B" "beyond z s t"
          "\<And>s'. extension_has ext ts s' \<Longrightarrow> s' div B = q \<Longrightarrow> beyond z s' t \<Longrightarrow> \<not> beyond z s s'"
          using r(2) in_map Pair steps
          by (auto simp: nearest_below_def nearest_above_def beyond_def marks not_less split: if_splits)
        have "\<not> beyond z s s'" if "pool_has self ext s'" "beyond z s' t" for s'
        proof
          assume "beyond z s s'"
          then have "s' div B = q"
            using in_map [of s'] nb s(2,3) steps [OF that(1)] that(2) by (auto simp: beyond_def split: if_splits)
          with s(5) between [OF that(1)] that \<open>beyond z s s'\<close> show False by blast
        qed
        with s True Pair show ?thesis by (auto simp: step_ok_def nearest_mark_def)
      next
        case f: False
        then have s: "s = (if z then q * B else q * B + B - n)"
          "\<And>s'. extension_has ext ts s' \<Longrightarrow> s' div B = q \<Longrightarrow> \<not> (if z then s' \<le> nxt else nxt \<le> s')"
          using r(2) Pair by (auto simp: nearest_below_def nearest_above_def not_less split: if_splits)
        have "beyond z s' s" if "pool_has self ext s'" "beyond z s' t" for s'
        proof -
          have "s' div B \<noteq> q"
            using s(2) [of s'] between [OF that(1)] steps [OF that(1)] that(2) by blast
          then show ?thesis
            using in_map [of s'] nb steps [OF that(1)] that(2) n(1) by (auto simp: beyond_def s(1) split: if_splits)
        qed
        moreover have "n dvd s" "\<not> beyond z t s"
          using nb n(1,5) dvd(2) mult_beyond [OF n(1), of nxt "q * B + B"] by (auto simp: s(1) nxt_def beyond_def)
        ultimately show ?thesis
          using f Pair by (auto simp: step_ok_def)
      qed
    qed
    with res show ?thesis by blast
  qed
qed

interpretation extension_search: mark_search extension_step all_marks at_edge
  by unfold_locales (use extension_step_eq in \<open>force simp: at_edge_def all_marks_def\<close>)


section \<open>The loop over both\<close>

lemma valid_start_small: "spacing_ok ts \<Longrightarrow> valid_start t ts \<Longrightarrow> \<bar>t\<bar> \<le> 512 * tick_count ts + 2 ^ 20"
  using array_start_bounds(2) [of ts MIN_TICK] tick_count_bounds [of ts]
  by (auto simp: valid_start_def MIN_TICK_def MAX_TICK_def)

lemma after_default_step:
  assumes "at_start (self, ext) z t" "default_step (self, ext) z t = Ok (False, s)"
  shows "at_edge (self, ext) z s"
proof -
  have wf: "wf_pool_maps self ext" and t: "valid_start t (spacing_of self)"
    and ts: "spacing_ok (spacing_of self)" and n: "0 < tick_count (spacing_of self)"
    using assms(1) tick_count_bounds [of "spacing_of self"] by (auto simp: at_start_def wf_pool_maps_def)
  have "s = t \<or> \<bar>s\<bar> \<le> 512 * tick_count (spacing_of self)"
    using assms(2) n
    by (auto simp: default_step_def next_initialized_tick_array_start_index_def Let_def res_inv
        chk_i_eq_Ok_iff max_tick_eq split: if_splits option.splits)
  then have "\<bar>s\<bar> \<le> 512 * tick_count (spacing_of self) + 2 ^ 20"
    using valid_start_small [OF ts t] by auto
  with default_step_eq [OF wf t, of z] assms(2) wf show ?thesis
    by (auto simp: at_edge_def Let_def)
qed

lemma pool_next_loop_nearest:
  "e = Some ext \<Longrightarrow> wf_pool_maps self ext \<Longrightarrow> valid_start t (spacing_of self) \<Longrightarrow>
   \<exists>r. pool_next_loop self e t z = Ok r \<and> nearest_mark (pool_has self ext) z t r"
proof (induction self e t z rule: pool_next_loop.induct)
  case (1 self e0 t z)
  note e0 = 1(2)
  let ?st = "(self, ext)"
  have wf: "wf_pool_maps self ext" and start: "at_start ?st z t"
    using 1(3,4) by (auto simp: at_start_def)
  then have ts: "spacing_ok (spacing_of self)"
    by (simp add: wf_pool_maps_def)
  have marks: "all_marks ?st = pool_has self ext"
    by (simp add: all_marks_def)
  obtain f s where d: "default_step ?st z t = Ok (f, s)"
    using default_search.returns [OF start] by blast
  note d' = d [unfolded default_step_def prod.case]
  show ?case
  proof (cases f)
    case True
    with default_search.found [OF start] d d' show ?thesis
      by (simp add: marks e0 pool_next_loop.simps [of self _ t])
  next
    case False
    then have edge: "at_edge ?st z s"
      using after_default_step [OF start] d by simp
    have skip: "nearest_mark (pool_has self ext) z t r = nearest_mark (pool_has self ext) z s r" for r
      using default_search.not_found [OF start, of s r] d False by (simp add: marks)
    obtain g u where e: "extension_step ?st z s = Ok (g, u)"
      using extension_search.returns [OF edge] by blast
    note e' = e [unfolded extension_step_def prod.case]
    show ?thesis
    proof (cases g)
      case True
      with extension_search.found [OF edge] e d' e' False show ?thesis
        by (simp add: marks e0 skip pool_next_loop.simps [of self _ t])
    next
      case g: False
      have skip': "nearest_mark (pool_has self ext) z s r = nearest_mark (pool_has self ext) z u r" for r
        using extension_search.not_found [OF edge, of u r] e g by (simp add: marks)
      have u: "tick_count (spacing_of self) dvd u"
        using extension_step_eq [OF edge] e g by auto
      have zdir: "if z then u < s else s < u" "0 < tick_count (spacing_of self)"
        using one_map_progress [of ext s "spacing_of self" z u] e' g tick_count_bounds [OF ts] by auto
      show ?thesis
      proof (cases "u < MIN_TICK \<or> MAX_TICK < u")
        case True
        have n: "tick_count (spacing_of self) dvd t" "array_start MIN_TICK (spacing_of self) \<le> t" "t \<le> MAX_TICK"
          "MIN_TICK < array_start MIN_TICK (spacing_of self) + tick_count (spacing_of self)"
          using 1(4) array_start_bounds [OF ts, of MIN_TICK] by (auto simp: valid_start_def)
        have "\<not> beyond z t s"
          using default_search.search_ok [OF start] d False by (auto simp: step_ok_def)
        then have side: "if z then u < MIN_TICK else MAX_TICK < u"
          using True zdir n mult_beyond(1) [OF zdir(2) n(1) u] mult_beyond(2) [OF zdir(2) u n(1)]
          by (auto simp: beyond_def split: if_splits)
        have "\<not> beyond z s' u" if "pool_has self ext s'" for s'
        proof -
          have "valid_start s' (spacing_of self)"
            using wf that by (simp add: wf_pool_maps_def)
          then show ?thesis
            using side n mult_beyond(1) [OF zdir(2) pool_has_dvd [OF that] u]
            by (auto simp: beyond_def valid_start_def)
        qed
        then have "nearest_mark (pool_has self ext) z u None"
          by (simp add: nearest_mark_def)
        then show ?thesis
          using d' e' False g True by (simp add: e0 skip skip' pool_next_loop.simps [of self _ t])
      next
        case in_range: False
        then have "valid_start u (spacing_of self)"
          using u array_start_bounds(1) [OF ts, of MIN_TICK] by (auto simp: valid_start_def)
        moreover note 1(1) [OF d' refl False e0 e' refl g in_range e0 wf]
        ultimately obtain r where "pool_next_loop self (Some ext) u z = Ok r"
          "nearest_mark (pool_has self ext) z u r" by (auto simp: e0)
        with d' e' False g in_range show ?thesis
          by (simp add: e0 skip skip' pool_next_loop.simps [of self _ t])
      qed
    qed
  qed
qed


section \<open>Flips\<close>

lemma tick_array_start_index_range_eq:
  assumes "spacing_ok (spacing_of self)"
  defines "ts \<equiv> spacing_of self"
  shows "tick_array_start_index_range self =
    Ok (if extended ts then (- max_tick_in_tickarray_bitmap ts, max_tick_in_tickarray_bitmap ts)
        else (array_start MIN_TICK ts, array_start MAX_TICK ts + tick_count ts))"
proof -
  have ts: "spacing_ok ts" and n: "60 \<le> tick_count ts" "tick_count ts \<le> 60 * 65535"
    using assms tick_count_bounds [of ts] by (auto simp: ts_def)
  have ends: "get_array_start_index MIN_TICK ts = Ok (array_start MIN_TICK ts)"
    "get_array_start_index MAX_TICK ts = Ok (array_start MAX_TICK ts)"
    using ts by (auto intro!: get_array_start_index_eq moderate_tick simp: MIN_TICK_def MAX_TICK_def)
  have "max_tick_in_tickarray_bitmap ts \<noteq> MAX_TICK"
  proof
    assume "max_tick_in_tickarray_bitmap ts = MAX_TICK"
    then have "512 dvd MAX_TICK" using max_tick_eq [of ts] by (metis dvd_triv_left)
    then show False by (simp add: MAX_TICK_def MIN_TICK_def)
  qed
  then have cases: "extended ts \<longleftrightarrow> \<not> max_tick_in_tickarray_bitmap ts > MAX_TICK"
    "extended ts \<longleftrightarrow> \<not> - max_tick_in_tickarray_bitmap ts < MIN_TICK"
    using ts by (auto simp: extended_def spacing_ok_def MAX_TICK_def MIN_TICK_def)
  have "chk_i 32 (array_start MAX_TICK ts + tick_count ts) = Ok (array_start MAX_TICK ts + tick_count ts)"
    using array_start_bounds [OF ts, of MAX_TICK] n by (intro chk_i32_Ok) (auto simp: MAX_TICK_def MIN_TICK_def)
  then show ?thesis
    using cases by (simp add: tick_array_start_index_range_def ts_def [symmetric] Let_def ends)
qed

lemma overflow_of_start:
  assumes "spacing_ok (spacing_of self)" "valid_start s (spacing_of self)"
  shows "is_overflow_default_tickarray_bitmap self [s] = Ok (outside_default (spacing_of self) s)"
proof -
  define ts where "ts = spacing_of self"
  have ts: "spacing_ok ts" and s: "valid_start s ts"
    using assms by (simp_all add: ts_def)
  have "moderate s"
    using s array_start_bounds(2) [OF ts, of MIN_TICK] tick_count_bounds [OF ts]
    by (auto simp: valid_start_def moderate_def MIN_TICK_def MAX_TICK_def)
  then have start: "get_array_start_index s ts = Ok s"
    using get_array_start_index_eq [OF _ ts] array_start_self [OF ts, of s] s by (simp add: valid_start_def)
  have "s \<le> array_start MAX_TICK ts"
    using s array_start_mono [OF ts, of s MAX_TICK] array_start_self [OF ts, of s]
    by (simp add: valid_start_def)
  then have "\<not> s < array_start MIN_TICK ts" "\<not> array_start MAX_TICK ts + tick_count ts \<le> s"
    using s tick_count_bounds [OF ts] by (auto simp: valid_start_def)
  then show ?thesis
    using tick_array_start_index_range_eq [OF assms(1)] start outside_extended [OF ts s]
    by (auto simp: is_overflow_default_tickarray_bitmap_def ts_def [symmetric] outside_default_def)
qed

lemma default_flip:
  assumes wf: "wf_pool_maps self ext" and s: "valid_start s (spacing_of self)"
    and inside: "\<not> outside_default (spacing_of self) s"
  shows "\<exists>bm. flip_tick_array_bit_internal self s = Ok (self\<lparr>ps_tick_array_bitmap := bm\<rparr>) \<and> wf_bit_map bm
    \<and> (\<forall>s'. map_has bm (spacing_of self) s' \<longleftrightarrow>
        (if s' = s then \<not> map_has (ps_tick_array_bitmap self) (spacing_of self) s'
         else map_has (ps_tick_array_bitmap self) (spacing_of self) s'))"
proof -
  define ts bm n where "ts = spacing_of self" and "bm = ps_tick_array_bitmap self" and "n = tick_count ts"
  have ts: "spacing_ok ts" and bm: "length bm = 16" "bn_words bm"
    using wf by (auto simp: wf_pool_maps_def wf_bit_map_def ts_def bm_def)
  have n: "0 < n" "max_tick_in_tickarray_bitmap ts = 512 * n" and v: "valid_start s ts" "n dvd s"
    using tick_count_bounds [OF ts] s by (auto simp: n_def max_tick_eq valid_start_def ts_def)
  obtain k where k: "s = n * k" using v(2) by (auto simp: dvd_def)
  have "n * - 512 \<le> n * k" "n * k < n * 512"
    using inside unfolding outside_default_def ts_def [symmetric] n(2) k by linarith+
  then have kb: "- 512 \<le> k" "k < 512"
    using n(1) by (simp_all only: mult_le_cancel_left_pos mult_less_cancel_left_pos)
  have "i_div 32 s n = Ok k"
  proof -
    have "s sdiv n = k"
      using n(1) by (simp add: k signed_divide_int_def abs_mult sgn_mult sgn_mult_abs)
    then show ?thesis using n(1) kb by (auto simp: i_div_def intro!: chk_i32_Ok)
  qed
  moreover have "chk_i 32 (k + 512) = Ok (k + 512)" "nat ((k + 512) mod 2 ^ 64) = nat (k + 512)"
    using kb by (auto intro!: chk_i32_Ok)
  moreover have "check_is_valid_start_index s ts = Ok True"
    using v(1) by (simp add: check_is_valid_start_index_eq [OF ts])
  ultimately have off: "get_tick_array_offset self s = Ok (nat (k + 512))"
    unfolding get_tick_array_offset_def ts_def [symmetric] n_def [symmetric] TICK_ARRAY_BITMAP_SIZE_def
    by (simp only: rbind.simps require_True)
  define bm' where "bm' = bn_xor bm (bn_shl (bn_one 16) (nat (k + 512)))"
  have wf': "wf_bit_map bm'"
    using bm by (simp add: bm'_def wf_bit_map_def bn_words_xor bn_words_shl bn_words_one)
  have bit: "bn_test bm' i \<longleftrightarrow> (if i = nat (k + 512) then \<not> bn_test bm i else bn_test bm i)" if "i < 1024" for i
    using bn_test_flip [OF bm(1), where s = "nat (k + 512)"] kb by (simp add: bm'_def)
  have "map_has bm' ts s' \<longleftrightarrow> (if s' = s then \<not> map_has bm ts s' else map_has bm ts s')" for s'
  proof (cases "n dvd s' \<and> - (512 * n) \<le> s' \<and> s' < 512 * n")
    case True
    then obtain j where j: "s' = n * j" by (auto simp: dvd_def)
    have "n * - 512 \<le> n * j" "n * j < n * 512"
      using True unfolding j by linarith+
    then have jb: "- 512 \<le> j" "j < 512"
      using n(1) by (simp_all only: mult_le_cancel_left_pos mult_less_cancel_left_pos)
    then have eq: "nat (j + 512) = nat (k + 512) \<longleftrightarrow> s' = s"
      using kb n(1) by (auto simp: j k)
    have has: "map_has b ts s' \<longleftrightarrow> bn_test b (nat (j + 512))" for b
      using True n(1) by (simp add: map_has_def n(2) n_def [symmetric] j)
    have "nat (j + 512) < 1024" using jb by auto
    from bit [OF this] show ?thesis
      unfolding has eq by simp
  next
    case False
    then have "\<not> map_has b ts s'" for b by (auto simp: map_has_def n(2) n_def)
    moreover have "s' \<noteq> s" using False inside v(2) by (auto simp: outside_default_def ts_def [symmetric] n(2))
    ultimately show ?thesis by simp
  qed
  moreover have "flip_tick_array_bit_internal self s = Ok (self\<lparr>ps_tick_array_bitmap := bm'\<rparr>)"
    by (simp add: flip_tick_array_bit_internal_def off bm'_def bm_def)
  ultimately show ?thesis using wf' unfolding ts_def bm_def by blast
qed


section \<open>Properties\<close>

text \<open>
  C34. The search for the next tick array of a pool terminates and is exact over the pool's map
  and the extension together: from the array of any valid tick it returns the nearest array in
  use strictly beyond it in the direction of the swap, whichever of the fifteen maps marks it,
  and no array exactly when none is in use there.
\<close>

theorem next_tick_array_nearest:
  assumes "wf_pool_maps self ext" "MIN_TICK \<le> t" "t \<le> MAX_TICK"
    and "get_array_start_index t (ps_tick_spacing self) = Ok a"
  shows "case pool_next_initialized_tick_array_start_index self (Some ext) t z of
      Ok (Some s) \<Rightarrow> pool_has self ext s \<and>
        (if z then s < a \<and> (\<forall>s'. pool_has self ext s' \<and> s' < a \<longrightarrow> s' \<le> s)
         else a < s \<and> (\<forall>s'. pool_has self ext s' \<and> a < s' \<longrightarrow> s \<le> s'))
    | Ok None \<Rightarrow> \<forall>s. pool_has self ext s \<longrightarrow> (if z then a \<le> s else s \<le> a)
    | _ \<Rightarrow> False"
proof -
  define ts where "ts = ps_tick_spacing self"
  have ts: "spacing_ok ts"
    using assms(1) by (simp add: wf_pool_maps_def ts_def)
  have a: "a = array_start t ts"
    using assms get_array_start_index_eq [OF moderate_tick ts] by (simp add: ts_def)
  then have "valid_start a ts"
    using array_start_bounds [OF ts, of t] array_start_mono [OF ts assms(2)] assms(3)
    by (simp add: valid_start_def)
  then obtain r where "pool_next_loop self (Some ext) a z = Ok r" "nearest_mark (pool_has self ext) z a r"
    using pool_next_loop_nearest [OF refl assms(1)] by (auto simp: ts_def)
  then show ?thesis
    using assms(4)
    by (auto simp: pool_next_initialized_tick_array_start_index_def nearest_mark_def beyond_def
        not_less split: option.splits if_splits)
qed

definition sample_pool :: pool_state where
  "sample_pool = default_pool\<lparr>ps_tick_spacing := 10, ps_tick_array_bitmap := bn_shl (bn_one 16) 512\<rparr>"

lemma default_extension_empty: "\<not> extension_has default_bitmap_extension ts s"
proof -
  have "\<not> bn_test (replicate 8 0) i" for i
    using bn_test_zero [of 8 i] by (simp add: bn_zero_def)
  then show ?thesis
    by (auto simp: extension_has_def map_of_start_def default_bitmap_extension_def
        EXTENSION_TICKARRAY_BITMAP_SIZE_def)
qed

lemma wf_default_extension: "wf_extension default_bitmap_extension"
  by (simp add: wf_extension_def default_bitmap_extension_def EXTENSION_TICKARRAY_BITMAP_SIZE_def bn_words_def)

lemma sample_pool_has: "pool_has sample_pool default_bitmap_extension s \<longleftrightarrow> s = 0"
proof -
  have "map_has (bn_shl (bn_one 16) 512) 10 s \<longleftrightarrow> s = 0"
    by (subst map_has_iff) (auto simp: spacing_ok_def bn_test_one_shl tick_count_eq)
  then show ?thesis
    by (simp add: pool_has_def default_extension_empty sample_pool_def default_pool_def)
qed

lemma sample_pool_wf: "wf_pool_maps sample_pool default_bitmap_extension"
proof -
  have "array_start MIN_TICK 10 \<le> MIN_TICK"
    by (intro array_start_bounds) (simp add: spacing_ok_def)
  then have "valid_start 0 10"
    by (simp add: valid_start_def MIN_TICK_def MAX_TICK_def)
  then show ?thesis
    by (simp add: wf_pool_maps_def sample_pool_has wf_default_extension)
      (simp add: sample_pool_def default_pool_def spacing_ok_def wf_bit_map_def bn_words_shl bn_words_one)
qed

theorem next_tick_array_nearest_witness:
  "pool_next_initialized_tick_array_start_index sample_pool (Some default_bitmap_extension) 443000 True = Ok (Some 0)"
proof -
  have a: "get_array_start_index 443000 (ps_tick_spacing sample_pool) = Ok 442800"
    by (simp add: sample_pool_def default_pool_def get_array_start_index_eq moderate_def spacing_ok_def
        array_start_def)
  show ?thesis
    using next_tick_array_nearest [OF sample_pool_wf _ _ a, of True]
    by (auto simp: MIN_TICK_def MAX_TICK_def sample_pool_has split: res.splits option.splits)
qed


text \<open>
  C35. Flipping the bit of a tick array changes the use of that array and of no other: for a
  valid start index the flip succeeds when the pool's key derives and the extension account is
  the pool's own, it toggles exactly this start over both maps, keeps them well formed, and
  leaves everything else of the pool and the pool id of the extension as they were; an array
  inside of the pool's map leaves the extension account as it was.
\<close>

theorem flip_toggles_one_array:
  assumes "wf_pool_maps self ext" "valid_start s (ps_tick_spacing self)"
    and "pool_key D self = Ok key" "ea_key account = pda_bitmap_extension D key" "ea_load account = Ok ext"
  shows "\<exists>bm ext'. flip_tick_array_bit D self (Some account) s =
      Ok (self\<lparr>ps_tick_array_bitmap := bm\<rparr>, Some (account\<lparr>ea_load := Ok ext'\<rparr>))
    \<and> wf_pool_maps (self\<lparr>ps_tick_array_bitmap := bm\<rparr>) ext'
    \<and> (\<forall>s'. pool_has (self\<lparr>ps_tick_array_bitmap := bm\<rparr>) ext' s' \<longleftrightarrow>
          (if s' = s then \<not> pool_has self ext s' else pool_has self ext s'))
    \<and> be_pool_id ext' = be_pool_id ext
    \<and> (if outside_default (ps_tick_spacing self) s then bm = ps_tick_array_bitmap self else ext' = ext)"
proof -
  define ts where "ts = ps_tick_spacing self"
  have ts: "spacing_ok ts" and ext: "wf_extension ext" and bm: "wf_bit_map (ps_tick_array_bitmap self)"
    using assms(1) by (auto simp: wf_pool_maps_def ts_def)
  have valid: "pool_has self ext s' \<Longrightarrow> valid_start s' ts" for s'
    using assms(1) by (simp add: wf_pool_maps_def ts_def)
  have v: "valid_start s ts" using assms(2) by (simp add: ts_def)
  note overflow = overflow_of_start [of self s, folded ts_def, OF ts v]
  show ?thesis
  proof (cases "outside_default ts s")
    case True
    then have "extended ts" using outside_extended [OF ts v] by simp
    from extension_flip_correct [OF this ext v True] obtain ext' where e:
      "extension_flip_tick_array_bit ext s ts = Ok ext'" "wf_extension ext'" "be_pool_id ext' = be_pool_id ext"
      "\<And>s'. extension_has ext' ts s' \<longleftrightarrow> (if s' = s then \<not> extension_has ext ts s' else extension_has ext ts s')"
      by blast
    have "flip_tick_array_bit D self (Some account) s = Ok (self, Some (account\<lparr>ea_load := Ok ext'\<rparr>))"
      using overflow True assms(3,4,5) e(1) by (simp add: flip_tick_array_bit_def ts_def)
    moreover have has: "pool_has self ext' s' \<longleftrightarrow> (if s' = s then \<not> pool_has self ext s' else pool_has self ext s')" for s'
      using e(4) True map_has_inside [of _ ts s] by (auto simp: pool_has_def ts_def)
    moreover have "wf_pool_maps self ext'"
      using valid v ts bm e(2) has unfolding wf_pool_maps_def ts_def by metis
    ultimately show ?thesis
      using True e(3) by (intro exI [of _ "ps_tick_array_bitmap self"] exI [of _ ext']) (simp add: ts_def)
  next
    case False
    obtain bm where b: "flip_tick_array_bit_internal self s = Ok (self\<lparr>ps_tick_array_bitmap := bm\<rparr>)" "wf_bit_map bm"
      "\<And>s'. map_has bm ts s' \<longleftrightarrow> (if s' = s then \<not> map_has (ps_tick_array_bitmap self) ts s'
         else map_has (ps_tick_array_bitmap self) ts s')"
      using default_flip [OF assms(1,2)] False by (auto simp: ts_def)
    let ?self = "self\<lparr>ps_tick_array_bitmap := bm\<rparr>"
    have "account\<lparr>ea_load := Ok ext\<rparr> = account" using assms(5) by simp
    then have "flip_tick_array_bit D self (Some account) s = Ok (?self, Some (account\<lparr>ea_load := Ok ext\<rparr>))"
      using overflow False b(1) by (simp add: flip_tick_array_bit_def ts_def)
    moreover have has: "pool_has ?self ext s' \<longleftrightarrow> (if s' = s then \<not> pool_has self ext s' else pool_has self ext s')" for s'
      using b(3) False by (auto simp: pool_has_def ts_def extension_has_def)
    moreover have "wf_pool_maps ?self ext"
      using valid v ts ext b(2) has by (auto simp: wf_pool_maps_def ts_def split: if_splits)
    ultimately show ?thesis
      using False by (intro exI [of _ bm] exI [of _ ext]) (simp add: ts_def)
  qed
qed

definition sample_pda :: pda where
  "sample_pda = \<lparr>pda_pool = \<lambda>c a b bump. Ok (c + a + b + 1), pda_bitmap_extension = \<lambda>p. p + 1,
     pda_tick_array = \<lambda>p s. p + 2 + nat (s + 500000), pda_position = \<lambda>m. m + 3,
     pda_protocol_position = \<lambda>p l u. p + 4, pda_observation = \<lambda>p. p + 5\<rparr>"

theorem flip_toggles_one_array_witness:
  "\<exists>bm ext'. flip_tick_array_bit sample_pda sample_pool
       (Some \<lparr>ea_key = 2, ea_load = Ok default_bitmap_extension\<rparr>) 0 =
     Ok (sample_pool\<lparr>ps_tick_array_bitmap := bm\<rparr>, Some \<lparr>ea_key = 2, ea_load = Ok ext'\<rparr>)
   \<and> \<not> pool_has (sample_pool\<lparr>ps_tick_array_bitmap := bm\<rparr>) ext' 0"
proof -
  have "valid_start 0 (ps_tick_spacing sample_pool)"
    using sample_pool_wf sample_pool_has by (simp add: wf_pool_maps_def)
  moreover have "pool_key sample_pda sample_pool = Ok 1"
    by (simp add: pool_key_def sample_pda_def sample_pool_def default_pool_def default_pubkey_def)
  ultimately obtain bm ext' where "flip_tick_array_bit sample_pda sample_pool
       (Some \<lparr>ea_key = 2, ea_load = Ok default_bitmap_extension\<rparr>) 0 =
     Ok (sample_pool\<lparr>ps_tick_array_bitmap := bm\<rparr>, Some \<lparr>ea_key = 2, ea_load = Ok ext'\<rparr>)"
    "pool_has (sample_pool\<lparr>ps_tick_array_bitmap := bm\<rparr>) ext' 0 \<longleftrightarrow>
      \<not> pool_has sample_pool default_bitmap_extension 0"
    using flip_toggles_one_array [OF sample_pool_wf, of 0 sample_pda 1
        "\<lparr>ea_key = 2, ea_load = Ok default_bitmap_extension\<rparr>"]
    by (auto simp: sample_pda_def)
  then show ?thesis
    using sample_pool_has by blast
qed

end
