(* ===== verification/Position_Properties.thy ===== *)
theory Position_Properties
  imports Withdraw Ledger Pool_Search
begin

text \<open>
  What the instructions on positions do as a whole: to the liquidity of position, range and pool,
  and to the balances of owner and vaults.
\<close>

section \<open>What a change of liquidity does\<close>

text \<open>The maps of the pool are the only thing that the count of ticks of an array touches in it.\<close>

definition differs_in_map :: "pool_state \<Rightarrow> pool_state \<Rightarrow> bool" where
  "differs_in_map p q \<longleftrightarrow> q\<lparr>ps_tick_array_bitmap := ps_tick_array_bitmap p\<rparr> = p"

lemma differs_in_map_refl [simp]: "differs_in_map p p"
  by (simp add: differs_in_map_def)

lemma differs_in_map_trans: "differs_in_map p q \<Longrightarrow> differs_in_map q r \<Longrightarrow> differs_in_map p r"
  unfolding differs_in_map_def by (cases p; cases q; cases r) auto

lemma differs_in_map_sel:
  assumes "differs_in_map p q"
  shows "ps_liquidity q = ps_liquidity p" "ps_sqrt_price_x64 q = ps_sqrt_price_x64 p" "ps_tick_current q = ps_tick_current p"
    "ps_total_fees_token_0 q = ps_total_fees_token_0 p" "ps_total_fees_token_1 q = ps_total_fees_token_1 p"
    "ps_total_fees_claimed_token_0 q = ps_total_fees_claimed_token_0 p"
    "ps_total_fees_claimed_token_1 q = ps_total_fees_claimed_token_1 p"
  using assms unfolding differs_in_map_def by (cases p; cases q; simp)+

lemma flip_array_OkD:
  assumes "flip_array D start st = Ok st'"
  shows "differs_in_map (dp_pool st) (dp_pool st')" "dp_position st' = dp_position st" "dp_tokens st' = dp_tokens st"
proof -
  obtain p e where f: "flip_tick_array_bit D (dp_pool st) (dp_extension st) start = Ok (p, e)"
    and st': "st' = st\<lparr>dp_pool := p, dp_extension := e\<rparr>"
    using assms by (auto simp: flip_array_def res_inv)
  have "p = dp_pool st \<or> (\<exists>b. p = (dp_pool st)\<lparr>ps_tick_array_bitmap := b\<rparr>)"
    using f by (auto simp: flip_tick_array_bit_def flip_tick_array_bit_internal_def res_inv Let_def split: if_splits)
  then show "differs_in_map (dp_pool st) (dp_pool st')" "dp_position st' = dp_position st" "dp_tokens st' = dp_tokens st"
    by (auto simp: st' differs_in_map_def)
qed

lemma store_tick_OkD:
  assumes "store_tick AL k t T st = Ok st'"
  shows "dp_pool st' = dp_pool st" "dp_position st' = dp_position st" "dp_tokens st' = dp_tokens st"
  using assms by (auto simp: store_tick_def res_inv)

lemma count_tick_OkD:
  assumes "count_new_tick AL D k st = Ok st' \<or> count_cleared_tick AL D k st = Ok st'"
  shows "differs_in_map (dp_pool st) (dp_pool st')" "dp_position st' = dp_position st" "dp_tokens st' = dp_tokens st"
proof -
  obtain A start where "st' = st\<lparr>dp_tick_arrays := store_account k A (dp_tick_arrays st)\<rparr>
      \<or> flip_array D start (st\<lparr>dp_tick_arrays := store_account k A (dp_tick_arrays st)\<rparr>) = Ok st'"
    using assms by (auto simp: count_new_tick_def count_cleared_tick_def Let_def res_inv split: if_splits)
  then have "differs_in_map (dp_pool st) (dp_pool st') \<and> dp_position st' = dp_position st \<and> dp_tokens st' = dp_tokens st"
  proof
    assume "flip_array D start (st\<lparr>dp_tick_arrays := store_account k A (dp_tick_arrays st)\<rparr>) = Ok st'"
    from flip_array_OkD [OF this] show ?thesis by simp
  qed simp
  then show "differs_in_map (dp_pool st) (dp_pool st')" "dp_position st' = dp_position st" "dp_tokens st' = dp_tokens st"
    by simp_all
qed

lemma i128_of_u128_eq_Ok: "i128_of_u128 x = Ok y \<longleftrightarrow> x < 2 ^ 127 \<and> y = int x"
  by (auto simp: i128_of_u128_def)

lemma modify_position_effect:
  assumes "modify_position U d p pos lo up now = Ok ((a0, a1, fl, fu), p', pos', lo', up')" "pp_liquidity pos < 2 ^ 128" "d \<noteq> 0"
  shows "get_delta_amounts_signed U (ps_tick_current p) (ps_sqrt_price_x64 p) (pp_tick_lower_index pos')
      (pp_tick_upper_index pos') d = Ok (a0, a1)"
    "int (pp_liquidity pos') = int (pp_liquidity pos) + d"
    "\<exists>rs l. p' = p\<lparr>ps_reward_infos := rs, ps_liquidity := l\<rparr> \<and>
      (if pp_tick_lower_index pos' \<le> ps_tick_current p \<and> ps_tick_current p < pp_tick_upper_index pos'
       then add_delta (ps_liquidity p) d = Ok l else l = ps_liquidity p)"
proof -
  obtain q where u: "update_position U d p pos lo up now = Ok (fl, fu, q, pos', lo', up')"
    and r: "get_delta_amounts_signed U (ps_tick_current q) (ps_sqrt_price_x64 q) (ts_tick lo') (ts_tick up') d = Ok (a0, a1)"
      "if ts_tick lo' \<le> ps_tick_current q \<and> ps_tick_current q < ts_tick up'
       then \<exists>l. add_delta (ps_liquidity q) d = Ok l \<and> p' = q\<lparr>ps_liquidity := l\<rparr> else p' = q"
    using modify_position_OkD [OF assms(1)] assms(3) by auto
  obtain rs lo1 up1 g0 g1 rg where rew: "update_reward_infos U p now = Ok (rs, q)"
    and pos: "protocol_position_update U pos (ts_tick lo1) (ts_tick up1) d g0 g1 rg = Ok pos'"
    and res: "lo' = (if d < 0 \<and> fl then tick_clear lo1 else lo1)" "up' = (if d < 0 \<and> fu then tick_clear up1 else up1)"
    using u assms(3) by (auto simp: update_position_def Let_def res_inv)
  have q: "q = p\<lparr>ps_reward_infos := rs\<rparr>"
    using update_reward_infos_OkD [OF rew] .
  note pD = protocol_position_update_OkD [OF pos assms(2)]
  have t: "ts_tick lo' = pp_tick_lower_index pos'" "ts_tick up' = pp_tick_upper_index pos'"
    by (simp_all add: pD res tick_clear_def)
  show "get_delta_amounts_signed U (ps_tick_current p) (ps_sqrt_price_x64 p) (pp_tick_lower_index pos')
      (pp_tick_upper_index pos') d = Ok (a0, a1)" "int (pp_liquidity pos') = int (pp_liquidity pos) + d"
    using r(1) pD(1) by (simp_all add: t q)
  have same: "p\<lparr>ps_reward_infos := rs\<rparr> = p\<lparr>ps_reward_infos := rs, ps_liquidity := ps_liquidity p\<rparr>"
    by (cases p) simp
  show "\<exists>rs l. p' = p\<lparr>ps_reward_infos := rs, ps_liquidity := l\<rparr> \<and>
      (if pp_tick_lower_index pos' \<le> ps_tick_current p \<and> ps_tick_current p < pp_tick_upper_index pos'
       then add_delta (ps_liquidity p) d = Ok l else l = ps_liquidity p)"
  proof (cases "pp_tick_lower_index pos' \<le> ps_tick_current p \<and> ps_tick_current p < pp_tick_upper_index pos'")
    case True
    then show ?thesis using r(2) by (auto simp: t q)
  next
    case False
    then have "p' = p\<lparr>ps_reward_infos := rs\<rparr>" using r(2) by (auto simp: t q)
    then show ?thesis
      unfolding if_not_P [OF False] using same by metis
  qed
qed

text \<open>
  The liquidity of a position, of its range and of the pool: before and after a change of the
  position by \<open>d\<close>, which is worth the amounts \<open>n0\<close> and \<open>n1\<close> at the price of the pool.
\<close>

definition range_changed ::
  "uint_lib \<Rightarrow> int \<Rightarrow> nat \<Rightarrow> nat \<Rightarrow> pool_state \<Rightarrow> pool_state \<Rightarrow> protocol_position \<Rightarrow> protocol_position \<Rightarrow> bool" where
  "range_changed U d n0 n1 p p' pos pos' \<longleftrightarrow>
     get_delta_amounts_signed U (ps_tick_current p) (ps_sqrt_price_x64 p) (pp_tick_lower_index pos')
       (pp_tick_upper_index pos') d = Ok (n0, n1)
     \<and> int (pp_liquidity pos') = int (pp_liquidity pos) + d
     \<and> int (ps_liquidity p') = int (ps_liquidity p)
         + (if pp_tick_lower_index pos' \<le> ps_tick_current p \<and> ps_tick_current p < pp_tick_upper_index pos' then d else 0)
     \<and> ps_sqrt_price_x64 p' = ps_sqrt_price_x64 p \<and> ps_tick_current p' = ps_tick_current p"

lemma modify_position_range_changed:
  assumes "modify_position U d p pos lo up now = Ok ((n0, n1, fl, fu), p', pos', lo', up')" "d \<noteq> 0"
    and "pp_liquidity pos < 2 ^ 128" "ps_liquidity p < 2 ^ 128" "differs_in_map p' p''"
  shows "range_changed U d n0 n1 p p'' pos pos'" "ps_total_fees_token_0 p'' = ps_total_fees_token_0 p"
    "ps_total_fees_token_1 p'' = ps_total_fees_token_1 p"
    "ps_total_fees_claimed_token_0 p'' = ps_total_fees_claimed_token_0 p"
    "ps_total_fees_claimed_token_1 p'' = ps_total_fees_claimed_token_1 p"
proof -
  note e = modify_position_effect [OF assms(1,3,2)]
  obtain rs l where p': "p' = p\<lparr>ps_reward_infos := rs, ps_liquidity := l\<rparr>"
    and l: "if pp_tick_lower_index pos' \<le> ps_tick_current p \<and> ps_tick_current p < pp_tick_upper_index pos'
       then add_delta (ps_liquidity p) d = Ok l else l = ps_liquidity p"
    using e(3) by blast
  note s = differs_in_map_sel [OF assms(5)]
  have "int l = int (ps_liquidity p)
         + (if pp_tick_lower_index pos' \<le> ps_tick_current p \<and> ps_tick_current p < pp_tick_upper_index pos' then d else 0)"
    using l assms(4) by (auto simp: add_delta_eq_Ok_iff split: if_splits)
  then show "range_changed U d n0 n1 p p'' pos pos'"
    using e(1,2) by (simp add: range_changed_def s p')
  show "ps_total_fees_token_0 p'' = ps_total_fees_token_0 p" "ps_total_fees_token_1 p'' = ps_total_fees_token_1 p"
    "ps_total_fees_claimed_token_0 p'' = ps_total_fees_claimed_token_0 p"
    "ps_total_fees_claimed_token_1 p'' = ps_total_fees_claimed_token_1 p"
    by (simp_all add: s p')
qed

section \<open>Deposits\<close>

lemma add_to_range_OkD:
  assumes "add_to_range U D now lo up L i j st = Ok ((n0, n1), st')"
    and "pp_liquidity (dp_position st) < 2 ^ 128" "ps_liquidity (dp_pool st) < 2 ^ 128"
  shows "0 < L" "range_changed U (int L) n0 n1 (dp_pool st) (dp_pool st') (dp_position st) (dp_position st')"
    "dp_tokens st' = dp_tokens st"
proof -
  obtain T1 T2 fl fu p pos T1' T2' s1 s2 s3 where L: "0 < L"
    and m: "modify_position U (int L) (dp_pool st) (dp_position st) T1 T2 now = Ok ((n0, n1, fl, fu), p, pos, T1', T2')"
    and s1: "store_tick account_load_methods lo i T1' (st\<lparr>dp_pool := p, dp_position := pos\<rparr>) = Ok s1"
    and s2: "store_tick account_load_methods up j T2' s1 = Ok s2"
    and s3: "(if fl then count_new_tick account_load_methods D lo s2 else Ok s2) = Ok s3"
    and s4: "(if fu then count_new_tick account_load_methods D up s3 else Ok s3) = Ok st'"
    using assms(1) by (auto simp: add_to_range_def Let_def res_inv i128_of_u128_eq_Ok)
  note s1 = store_tick_OkD [OF s1] and s2 = store_tick_OkD [OF s2]
  have s3: "differs_in_map (dp_pool s2) (dp_pool s3)" "dp_position s3 = dp_position s2" "dp_tokens s3 = dp_tokens s2"
    using s3 count_tick_OkD [OF disjI1] by (auto split: if_splits)
  have s4: "differs_in_map (dp_pool s3) (dp_pool st')" "dp_position st' = dp_position s3" "dp_tokens st' = dp_tokens s3"
    using s4 count_tick_OkD [OF disjI1] by (auto split: if_splits)
  have "differs_in_map p (dp_pool st')"
    using differs_in_map_trans [OF s3(1) s4(1)] by (simp add: s1 s2)
  from modify_position_range_changed(1) [OF m _ assms(2,3) this] L
  show "0 < L" "range_changed U (int L) n0 n1 (dp_pool st) (dp_pool st') (dp_position st) (dp_position st')"
    "dp_tokens st' = dp_tokens st"
    by (simp_all add: s1 s2 s3 s4)
qed

text \<open>The balances around a deposit: what the two accounts pay and what the vaults receive of it.\<close>

definition distinct_deposit :: "deposit_accounts \<Rightarrow> bool" where
  "distinct_deposit A \<longleftrightarrow> distinct [tk_key (da_token_account_0 A), tk_key (da_token_account_1 A),
     tk_key (da_token_vault_0 A), tk_key (da_token_vault_1 A)]"

definition deposited ::
  "deposit_accounts \<Rightarrow> nat \<Rightarrow> nat \<Rightarrow> nat \<Rightarrow> nat \<Rightarrow> (pubkey \<Rightarrow> nat) \<Rightarrow> (pubkey \<Rightarrow> nat) \<Rightarrow> bool" where
  "deposited A x0 f0 x1 f1 b b' \<longleftrightarrow> f0 \<le> x0 \<and> f1 \<le> x1
     \<and> x0 \<le> b (tk_key (da_token_account_0 A)) \<and> x1 \<le> b (tk_key (da_token_account_1 A))
     \<and> b' = b(tk_key (da_token_account_0 A) := b (tk_key (da_token_account_0 A)) - x0,
              tk_key (da_token_vault_0 A) := b (tk_key (da_token_vault_0 A)) + (x0 - f0),
              tk_key (da_token_account_1 A) := b (tk_key (da_token_account_1 A)) - x1,
              tk_key (da_token_vault_1 A) := b (tk_key (da_token_vault_1 A)) + (x1 - f1))"

lemma deposit_fee_None [simp]: "deposit_fee T None n = Ok 0"
  by (simp add: deposit_fee_def)

context token_programs
begin

lemma pay_deposit_OkD:
  assumes "pay_deposit T A m0 m1 n0 n1 s = Ok (fees, s')" "distinct_deposit A"
  shows "\<exists>x0 f0 x1 f1. deposited A x0 f0 x1 f1 (balance s) (balance s')
     \<and> n0 \<le> x0 \<and> x0 \<le> m0 \<and> n1 \<le> x1 \<and> x1 \<le> m1
     \<and> (da_token_program_2022 A = None \<longrightarrow> f0 = 0 \<and> f1 = 0)"
proof -
  obtain e0 e1 s1 where le: "n0 + e0 \<le> m0" "n1 + e1 \<le> m1"
    and t0: "transfer_from_user_to_pool_vault T (da_payer A) (da_token_account_0 A) (da_token_vault_0 A)
              (da_vault_0_mint A) (da_token_program A) (da_token_program_2022 A) (n0 + e0) s = Ok s1"
    and t1: "transfer_from_user_to_pool_vault T (da_payer A) (da_token_account_1 A) (da_token_vault_1 A)
              (da_vault_1_mint A) (da_token_program A) (da_token_program_2022 A) (n1 + e1) s1 = Ok s'"
    using assms(1) by (auto simp: pay_deposit_def res_inv)
  have d: "tk_key (da_token_account_0 A) \<noteq> tk_key (da_token_vault_0 A)" "tk_key (da_token_account_1 A) \<noteq> tk_key (da_token_vault_1 A)"
    "tk_key (da_token_account_0 A) \<noteq> tk_key (da_token_account_1 A)" "tk_key (da_token_vault_0 A) \<noteq> tk_key (da_token_account_1 A)"
    "tk_key (da_token_account_0 A) \<noteq> tk_key (da_token_vault_1 A)" "tk_key (da_token_vault_0 A) \<noteq> tk_key (da_token_vault_1 A)"
    using assms(2) by (auto simp: distinct_deposit_def)
  from user_to_vault_OkD [OF t0 d(1)] obtain f0 where 0: "f0 \<le> n0 + e0 \<and> n0 + e0 \<le> balance s (tk_key (da_token_account_0 A))
    \<and> balance s1 = (balance s)(tk_key (da_token_account_0 A) := balance s (tk_key (da_token_account_0 A)) - (n0 + e0),
       tk_key (da_token_vault_0 A) := balance s (tk_key (da_token_vault_0 A)) + (n0 + e0 - f0))
    \<and> (da_vault_0_mint A = None \<or> da_token_program_2022 A = None \<longrightarrow> f0 = 0)" by (elim exE)
  then have 0: "f0 \<le> n0 + e0" "n0 + e0 \<le> balance s (tk_key (da_token_account_0 A))"
    "balance s1 = (balance s)(tk_key (da_token_account_0 A) := balance s (tk_key (da_token_account_0 A)) - (n0 + e0),
       tk_key (da_token_vault_0 A) := balance s (tk_key (da_token_vault_0 A)) + (n0 + e0 - f0))"
    "da_token_program_2022 A = None \<longrightarrow> f0 = 0" by simp_all
  from user_to_vault_OkD [OF t1 d(2)] obtain f1 where 1: "f1 \<le> n1 + e1 \<and> n1 + e1 \<le> balance s1 (tk_key (da_token_account_1 A))
    \<and> balance s' = (balance s1)(tk_key (da_token_account_1 A) := balance s1 (tk_key (da_token_account_1 A)) - (n1 + e1),
       tk_key (da_token_vault_1 A) := balance s1 (tk_key (da_token_vault_1 A)) + (n1 + e1 - f1))
    \<and> (da_vault_1_mint A = None \<or> da_token_program_2022 A = None \<longrightarrow> f1 = 0)" by (elim exE)
  then have 1: "f1 \<le> n1 + e1" "n1 + e1 \<le> balance s1 (tk_key (da_token_account_1 A))"
    "balance s' = (balance s1)(tk_key (da_token_account_1 A) := balance s1 (tk_key (da_token_account_1 A)) - (n1 + e1),
       tk_key (da_token_vault_1 A) := balance s1 (tk_key (da_token_vault_1 A)) + (n1 + e1 - f1))"
    "da_token_program_2022 A = None \<longrightarrow> f1 = 0" by simp_all
  have "deposited A (n0 + e0) f0 (n1 + e1) f1 (balance s) (balance s')"
    unfolding deposited_def using 0(1,2) 1(1,2) d by (simp add: 0(3) 1(3))
  with le 0(4) 1(4) show ?thesis
    by (intro exI [of _ "n0 + e0"] exI [of _ f0] exI [of _ "n1 + e1"] exI [of _ f1]) auto
qed

lemma add_liquidity_OkD:
  assumes "add_liquidity U T D now A lo up L m0 m1 i j base st = Ok (amounts, L', st')"
    and "L \<noteq> 0 \<or> base \<noteq> None" "distinct_deposit A"
    and "pp_liquidity (dp_position st) < 2 ^ 128" "ps_liquidity (dp_pool st) < 2 ^ 128"
  shows "0 < L'" "L \<noteq> 0 \<Longrightarrow> L' = L"
    "\<exists>n0 n1 x0 f0 x1 f1. range_changed U (int L') n0 n1 (dp_pool st) (dp_pool st') (dp_position st) (dp_position st')
     \<and> deposited A x0 f0 x1 f1 (balance (dp_tokens st)) (balance (dp_tokens st'))
     \<and> n0 \<le> x0 \<and> x0 \<le> m0 \<and> n1 \<le> x1 \<and> x1 \<le> m1
     \<and> (da_token_program_2022 A = None \<longrightarrow> f0 = 0 \<and> f1 = 0)"
proof -
  obtain n0 n1 st1 e0 e1 s where L: "L \<noteq> 0 \<longrightarrow> L' = L"
    and a: "add_to_range U D now lo up L' i j st = Ok ((n0, n1), st1)"
    and p: "pay_deposit T A m0 m1 n0 n1 (dp_tokens st1) = Ok ((e0, e1), s)" and st': "st' = st1\<lparr>dp_tokens := s\<rparr>"
    using assms(1,2) by (cases "L = 0") (auto simp: add_liquidity_def res_inv)
  note r = add_to_range_OkD [OF a assms(4,5)]
  show "0 < L'" by (rule r(1))
  show "L \<noteq> 0 \<Longrightarrow> L' = L" using L by simp
  show "\<exists>n0 n1 x0 f0 x1 f1. range_changed U (int L') n0 n1 (dp_pool st) (dp_pool st') (dp_position st) (dp_position st')
     \<and> deposited A x0 f0 x1 f1 (balance (dp_tokens st)) (balance (dp_tokens st'))
     \<and> n0 \<le> x0 \<and> x0 \<le> m0 \<and> n1 \<le> x1 \<and> x1 \<le> m1
     \<and> (da_token_program_2022 A = None \<longrightarrow> f0 = 0 \<and> f1 = 0)"
  proof -
    obtain x0 f0 x1 f1 where "deposited A x0 f0 x1 f1 (balance (dp_tokens st1)) (balance s)"
      "n0 \<le> x0" "x0 \<le> m0" "n1 \<le> x1" "x1 \<le> m1" "da_token_program_2022 A = None \<longrightarrow> f0 = 0 \<and> f1 = 0"
      using pay_deposit_OkD [OF p assms(3)] by (elim exE conjE) (rule that)
    then show ?thesis
      using r(2) by (intro exI [of _ n0] exI [of _ n1] exI [of _ x0] exI [of _ f0] exI [of _ x1] exI [of _ f1]) (simp add: st' r(3))
  qed
qed

end

lemma collect_growth_liquidity: "collect_growth U personal protocol = Ok personal' \<Longrightarrow> pe_liquidity personal' = pe_liquidity personal"
  by (auto simp: collect_growth_def update_rewards_def Let_def res_inv)

lemma increase_liquidity_OkE:
  assumes "increase_liquidity U T D now A loader personal lo up rem L m0 m1 base st = Ok (personal', st')"
  obtains ext lower upper L' amounts where
    "add_liquidity U T D now A lower upper L m0 m1 (pe_tick_lower_index personal) (pe_tick_upper_index personal) base
       (st\<lparr>dp_extension := ext\<rparr>) = Ok (amounts, L', st')"
    "pe_liquidity personal' = pe_liquidity personal + L'" "pe_liquidity personal' < 2 ^ 128"
  using assms collect_growth_liquidity by (auto simp: increase_liquidity_def Let_def res_inv)

section \<open>Withdrawals\<close>

lemma burn_liquidity_OkD:
  assumes "burn_liquidity U AL D now lo up L st = Ok ((n0, n1), st')" "0 < L"
    and "pp_liquidity (dp_position st) < 2 ^ 128" "ps_liquidity (dp_pool st) < 2 ^ 128"
  shows "range_changed U (- int L) n0 n1 (dp_pool st) (dp_pool st') (dp_position st) (dp_position st')"
    "dp_tokens st' = dp_tokens st"
    "ps_total_fees_token_0 (dp_pool st') = ps_total_fees_token_0 (dp_pool st)"
    "ps_total_fees_token_1 (dp_pool st') = ps_total_fees_token_1 (dp_pool st)"
    "ps_total_fees_claimed_token_0 (dp_pool st') = ps_total_fees_claimed_token_0 (dp_pool st)"
    "ps_total_fees_claimed_token_1 (dp_pool st') = ps_total_fees_claimed_token_1 (dp_pool st)"
proof -
  obtain T1 T2 fl fu p pos T1' T2' s1 s2 s3 i j where
    m: "modify_position U (- int L) (dp_pool st) (dp_position st) T1 T2 now = Ok ((n0, n1, fl, fu), p, pos, T1', T2')"
    and s1: "store_tick AL lo i T1' (st\<lparr>dp_pool := p, dp_position := pos\<rparr>) = Ok s1"
    and s2: "store_tick AL up j T2' s1 = Ok s2"
    and s3: "(if fl then count_cleared_tick AL D lo s2 else Ok s2) = Ok s3"
    and s4: "(if fu then count_cleared_tick AL D up s3 else Ok s3) = Ok st'"
    using assms(1) by (auto simp: burn_liquidity_def Let_def res_inv i128_of_u128_eq_Ok)
  note s1 = store_tick_OkD [OF s1] and s2 = store_tick_OkD [OF s2]
  have s3: "differs_in_map (dp_pool s2) (dp_pool s3)" "dp_position s3 = dp_position s2" "dp_tokens s3 = dp_tokens s2"
    using s3 count_tick_OkD [OF disjI2] by (auto split: if_splits)
  have s4: "differs_in_map (dp_pool s3) (dp_pool st')" "dp_position st' = dp_position s3" "dp_tokens st' = dp_tokens s3"
    using s4 count_tick_OkD [OF disjI2] by (auto split: if_splits)
  have "differs_in_map p (dp_pool st')"
    using differs_in_map_trans [OF s3(1) s4(1)] by (simp add: s1 s2)
  from modify_position_range_changed [OF m _ assms(3,4) this] assms(2)
  show "range_changed U (- int L) n0 n1 (dp_pool st) (dp_pool st') (dp_position st) (dp_position st')"
    "dp_tokens st' = dp_tokens st"
    "ps_total_fees_token_0 (dp_pool st') = ps_total_fees_token_0 (dp_pool st)"
    "ps_total_fees_token_1 (dp_pool st') = ps_total_fees_token_1 (dp_pool st)"
    "ps_total_fees_claimed_token_0 (dp_pool st') = ps_total_fees_claimed_token_0 (dp_pool st)"
    "ps_total_fees_claimed_token_1 (dp_pool st') = ps_total_fees_claimed_token_1 (dp_pool st)"
    by (simp_all add: s1 s2 s3 s4)
qed

text \<open>The collection of rewards touches the rewards only.\<close>

definition differs_in_rewards :: "pool_state \<Rightarrow> pool_state \<Rightarrow> bool" where
  "differs_in_rewards p q \<longleftrightarrow> q\<lparr>ps_reward_infos := ps_reward_infos p\<rparr> = p"

lemma differs_in_rewards_refl [simp]: "differs_in_rewards p p"
  by (simp add: differs_in_rewards_def)

lemma differs_in_rewards_trans: "differs_in_rewards p q \<Longrightarrow> differs_in_rewards q r \<Longrightarrow> differs_in_rewards p r"
  unfolding differs_in_rewards_def by (cases p; cases q; cases r) auto

lemma collect_reward_OkD:
  assumes "collect_reward T loader tp tp22 i vault recipient mint personal pool s = Ok (n, personal', pool', s')"
  shows "differs_in_rewards pool pool'" "pe_liquidity personal' = pe_liquidity personal"
  using assms by (auto simp: collect_reward_def Let_def res_inv add_reward_clamed_def differs_in_rewards_def split: if_splits)

lemma collect_rewards_loop_OkD:
  "collect_rewards_loop T loader tp tp22 need i n accounts amounts personal pool s = Ok (amounts', personal', pool', s') \<Longrightarrow>
   differs_in_rewards pool pool' \<and> pe_liquidity personal' = pe_liquidity personal"
proof (induction n arbitrary: i accounts amounts personal pool s)
  case (Suc n)
  then obtain vault recipient mint accounts' m personal1 pool1 s1 where
    1: "collect_reward T loader tp tp22 i vault recipient mint personal pool s = Ok (m, personal1, pool1, s1)"
    and 2: "collect_rewards_loop T loader tp tp22 need (Suc i) n accounts' (amounts[i := m]) personal1 pool1 s1
      = Ok (amounts', personal', pool', s')"
    by (auto simp: res_inv)
  show ?case
    using collect_reward_OkD [OF 1] Suc.IH [OF 2] differs_in_rewards_trans by auto
qed simp

lemma collect_rewards_OkD:
  assumes "collect_rewards T loader accounts tp tp22 need personal pool s = Ok (amounts', personal', pool', s')"
  shows "differs_in_rewards pool pool'" "pe_liquidity personal' = pe_liquidity personal"
    "\<not> get_status_by_bit pool CollectReward \<or> accounts = [] \<Longrightarrow> s' = s"
proof -
  consider "personal' = personal" "pool' = pool" "s' = s"
    | n amounts where "collect_rewards_loop T loader tp tp22 need 0 n accounts amounts personal pool s = Ok (amounts', personal', pool', s')"
      "n = length accounts div (if need then 3 else 2)" "get_status_by_bit pool CollectReward"
    using assms by (auto simp: collect_rewards_def Let_def res_inv split: if_splits)
  then show "differs_in_rewards pool pool'" "pe_liquidity personal' = pe_liquidity personal"
    "\<not> get_status_by_bit pool CollectReward \<or> accounts = [] \<Longrightarrow> s' = s"
    by (cases; auto dest: collect_rewards_loop_OkD)+
qed

lemma claim_fees_OkD:
  assumes "claim_fees personal pool = Ok ((o0, o1), personal', pool')"
  shows "pe_liquidity personal' = pe_liquidity personal"
    "ps_total_fees_claimed_token_0 pool' = ps_total_fees_claimed_token_0 pool + o0"
    "ps_total_fees_claimed_token_1 pool' = ps_total_fees_claimed_token_1 pool + o1"
    "o0 = 0 \<and> o1 = 0 \<or> ps_total_fees_claimed_token_0 pool' \<le> ps_total_fees_token_0 pool
       \<and> ps_total_fees_claimed_token_1 pool' \<le> ps_total_fees_token_1 pool"
    "\<exists>c0 c1. pool' = pool\<lparr>ps_total_fees_claimed_token_0 := c0, ps_total_fees_claimed_token_1 := c1\<rparr>"
    "o0 = (if get_status_by_bit pool CollectFee then pe_token_fees_owed_0 personal else 0)"
    "o1 = (if get_status_by_bit pool CollectFee then pe_token_fees_owed_1 personal else 0)"
proof -
  have same: "pool = pool\<lparr>ps_total_fees_claimed_token_0 := ps_total_fees_claimed_token_0 pool,
      ps_total_fees_claimed_token_1 := ps_total_fees_claimed_token_1 pool\<rparr>"
    by (cases pool) simp
  show "pe_liquidity personal' = pe_liquidity personal"
    "ps_total_fees_claimed_token_0 pool' = ps_total_fees_claimed_token_0 pool + o0"
    "ps_total_fees_claimed_token_1 pool' = ps_total_fees_claimed_token_1 pool + o1"
    "o0 = 0 \<and> o1 = 0 \<or> ps_total_fees_claimed_token_0 pool' \<le> ps_total_fees_token_0 pool
       \<and> ps_total_fees_claimed_token_1 pool' \<le> ps_total_fees_token_1 pool"
    "o0 = (if get_status_by_bit pool CollectFee then pe_token_fees_owed_0 personal else 0)"
    "o1 = (if get_status_by_bit pool CollectFee then pe_token_fees_owed_1 personal else 0)"
    using assms by (auto simp: claim_fees_def Let_def res_inv split: if_splits)
  show "\<exists>c0 c1. pool' = pool\<lparr>ps_total_fees_claimed_token_0 := c0, ps_total_fees_claimed_token_1 := c1\<rparr>"
  proof (cases "get_status_by_bit pool CollectFee")
    case True
    then show ?thesis using assms by (auto simp: claim_fees_def Let_def res_inv)
  next
    case False
    then have "pool' = pool" using assms by (simp add: claim_fees_def)
    then show ?thesis using same by metis
  qed
qed

text \<open>The balances around a withdrawal, before the rewards.\<close>

definition distinct_withdrawal :: "withdraw_accounts \<Rightarrow> bool" where
  "distinct_withdrawal W \<longleftrightarrow> distinct [tk_key (wa_token_vault_0 W), tk_key (wa_token_vault_1 W),
     tk_key (wa_recipient_token_account_0 W), tk_key (wa_recipient_token_account_1 W)]"

definition paid_out ::
  "withdraw_accounts \<Rightarrow> nat \<Rightarrow> nat \<Rightarrow> nat \<Rightarrow> nat \<Rightarrow> (pubkey \<Rightarrow> nat) \<Rightarrow> (pubkey \<Rightarrow> nat) \<Rightarrow> bool" where
  "paid_out W x0 f0 x1 f1 b b' \<longleftrightarrow> f0 \<le> x0 \<and> f1 \<le> x1
     \<and> x0 \<le> b (tk_key (wa_token_vault_0 W)) \<and> x1 \<le> b (tk_key (wa_token_vault_1 W))
     \<and> b' = b(tk_key (wa_token_vault_0 W) := b (tk_key (wa_token_vault_0 W)) - x0,
              tk_key (wa_recipient_token_account_0 W) := b (tk_key (wa_recipient_token_account_0 W)) + (x0 - f0),
              tk_key (wa_token_vault_1 W) := b (tk_key (wa_token_vault_1 W)) - x1,
              tk_key (wa_recipient_token_account_1 W) := b (tk_key (wa_recipient_token_account_1 W)) + (x1 - f1))"

context token_programs
begin

lemma pay_withdrawal_OkD:
  assumes "pay_withdrawal T W loader L m0 m1 (n0, o0, n1, o1) s = Ok s'" "distinct_withdrawal W"
  shows "\<exists>f0 f1. paid_out W (n0 + o0) f0 (n1 + o1) f1 (balance s) (balance s')
     \<and> (0 < L \<longrightarrow> m0 \<le> n0 \<and> m1 \<le> n1) \<and> (wa_token_program_2022 W = None \<longrightarrow> f0 = 0 \<and> f1 = 0)"
proof -
  obtain s1 e0 e1 where min: "0 < L \<longrightarrow> m0 \<le> n0 - e0 \<and> m1 \<le> n1 - e1"
    and t0: "transfer_from_pool_vault_to_user T loader (wa_token_vault_0 W)
               (wa_recipient_token_account_0 W) (wa_vault_0_mint W) (wa_token_program W)
               (wa_token_program_2022 W) (n0 + o0) s = Ok s1"
    and t1: "transfer_from_pool_vault_to_user T loader (wa_token_vault_1 W)
        (wa_recipient_token_account_1 W) (wa_vault_1_mint W) (wa_token_program W)
        (wa_token_program_2022 W) (n1 + o1) s1 = Ok s'"
    using assms(1) by (cases "0 < L") (auto simp: pay_withdrawal_def res_inv)
  define v0 v1 r0 r1 where "v0 = tk_key (wa_token_vault_0 W)" and "v1 = tk_key (wa_token_vault_1 W)"
    and "r0 = tk_key (wa_recipient_token_account_0 W)" and "r1 = tk_key (wa_recipient_token_account_1 W)"
  have d: "v0 \<noteq> r0" "v1 \<noteq> r1" "v0 \<noteq> v1" "r0 \<noteq> v1" "v0 \<noteq> r1" "r0 \<noteq> r1"
    using assms(2) by (auto simp: distinct_withdrawal_def v0_def v1_def r0_def r1_def)
  from vault_to_user_OkD [OF t0, folded v0_def r0_def, OF d(1)] obtain f0 where 0: "f0 \<le> n0 + o0 \<and> n0 + o0 \<le> balance s v0
    \<and> balance s1 = (balance s)(v0 := balance s v0 - (n0 + o0), r0 := balance s r0 + (n0 + o0 - f0))
    \<and> (wa_vault_0_mint W = None \<or> wa_token_program_2022 W = None \<longrightarrow> f0 = 0)"
    by (elim exE)
  from vault_to_user_OkD [OF t1, folded v1_def r1_def, OF d(2)] obtain f1 where 1: "f1 \<le> n1 + o1 \<and> n1 + o1 \<le> balance s1 v1
    \<and> balance s' = (balance s1)(v1 := balance s1 v1 - (n1 + o1), r1 := balance s1 r1 + (n1 + o1 - f1))
    \<and> (wa_vault_1_mint W = None \<or> wa_token_program_2022 W = None \<longrightarrow> f1 = 0)"
    by (elim exE)
  have "paid_out W (n0 + o0) f0 (n1 + o1) f1 (balance s) (balance s')"
    using 0 1 d unfolding paid_out_def v0_def [symmetric] v1_def [symmetric] r0_def [symmetric] r1_def [symmetric] by simp
  moreover have "0 < L \<longrightarrow> m0 \<le> n0 \<and> m1 \<le> n1" using min by auto
  moreover have "wa_token_program_2022 W = None \<longrightarrow> f0 = 0 \<and> f1 = 0"
    using 0 [THEN conjunct2, THEN conjunct2, THEN conjunct2] 1 [THEN conjunct2, THEN conjunct2, THEN conjunct2] by blast
  ultimately show ?thesis
    by - (intro exI [of _ f0] exI [of _ f1] conjI; assumption)
qed

end

lemma decrease_liquidity_OkE:
  assumes "decrease_liquidity U T AL D now W loader personal lo up rem L m0 m1 st = Ok (rewards, personal', st')"
  obtains ext n0 o0 n1 o1 personal1 st1 s1 pool1 rest where
    "decrease_liquidity_and_update_position U AL D now personal lo up L (st\<lparr>dp_extension := ext\<rparr>)
       = Ok ((n0, o0, n1, o1), personal1, st1)"
    "pay_withdrawal T W loader L m0 m1 (n0, o0, n1, o1) (dp_tokens st1) = Ok s1"
    "pool1 = dp_pool st1 \<or> pool1 = set_status_by_bit (dp_pool st1) CollectFee Disable"
    "collect_rewards T loader rest (wa_token_program W) (wa_token_program_2022 W) (wa_token_program_2022 W \<noteq> None)
       personal1 pool1 s1 = Ok (rewards, personal', dp_pool st', dp_tokens st')"
    "dp_position st' = dp_position st1" "L \<le> pe_liquidity personal" "rem = [] \<Longrightarrow> rest = []"
proof -
  have "\<exists>ext n0 o0 n1 o1 personal1 st1 s1 pool1 rest pool s.
    decrease_liquidity_and_update_position U AL D now personal lo up L (st\<lparr>dp_extension := ext\<rparr>)
       = Ok ((n0, o0, n1, o1), personal1, st1)
    \<and> pay_withdrawal T W loader L m0 m1 (n0, o0, n1, o1) (dp_tokens st1) = Ok s1
    \<and> check_unclaimed_fees_and_vault T (wa_token_vault_0 W) (wa_token_vault_1 W) s1 (dp_pool st1) = Ok pool1
    \<and> collect_rewards T loader rest (wa_token_program W) (wa_token_program_2022 W) (wa_token_program_2022 W \<noteq> None)
       personal1 pool1 s1 = Ok (rewards, personal', pool, s)
    \<and> st' = st1\<lparr>dp_pool := pool, dp_tokens := s\<rparr> \<and> L \<le> pe_liquidity personal \<and> (rem = [] \<longrightarrow> rest = [])"
  proof -
    have split: "(case split_remaining k xs e of (a, b) \<Rightarrow> F a b) = F (fst (split_remaining k xs e)) (snd (split_remaining k xs e))"
      for k xs e and F :: "remaining_account option \<Rightarrow> remaining_account list \<Rightarrow> (u64 list \<times> personal_position \<times> 'a deposit_state) res"
      by (simp add: case_prod_beta)
    obtain key personal1 amounts st1 s1 pool1 pool s where
      "decrease_liquidity_and_update_position U AL D now personal lo up L
         (st\<lparr>dp_extension := map_option as_extension_account (fst (split_remaining (pda_bitmap_extension D key) rem None))\<rparr>)
         = Ok (amounts, personal1, st1)"
      "pay_withdrawal T W loader L m0 m1 amounts (dp_tokens st1) = Ok s1"
      "check_unclaimed_fees_and_vault T (wa_token_vault_0 W) (wa_token_vault_1 W) s1 (dp_pool st1) = Ok pool1"
      "collect_rewards T loader (snd (split_remaining (pda_bitmap_extension D key) rem None)) (wa_token_program W)
         (wa_token_program_2022 W) (wa_token_program_2022 W \<noteq> None) personal1 pool1 s1 = Ok (rewards, personal', pool, s)"
      "st' = st1\<lparr>dp_pool := pool, dp_tokens := s\<rparr>" "L \<le> pe_liquidity personal"
      using assms unfolding decrease_liquidity_def Let_def split by (auto simp: res_inv simp del: not_None_eq)
    moreover have "rem = [] \<longrightarrow> snd (split_remaining (pda_bitmap_extension D key) rem None) = []" by simp
    ultimately show ?thesis by (cases amounts) blast
  qed
  then obtain ext n0 o0 n1 o1 personal1 st1 s1 pool1 rest pool s where
    r: "decrease_liquidity_and_update_position U AL D now personal lo up L (st\<lparr>dp_extension := ext\<rparr>)
       = Ok ((n0, o0, n1, o1), personal1, st1)"
      "pay_withdrawal T W loader L m0 m1 (n0, o0, n1, o1) (dp_tokens st1) = Ok s1"
    and c: "check_unclaimed_fees_and_vault T (wa_token_vault_0 W) (wa_token_vault_1 W) s1 (dp_pool st1) = Ok pool1"
    and w: "collect_rewards T loader rest (wa_token_program W) (wa_token_program_2022 W) (wa_token_program_2022 W \<noteq> None)
       personal1 pool1 s1 = Ok (rewards, personal', pool, s)"
    and st': "st' = st1\<lparr>dp_pool := pool, dp_tokens := s\<rparr>" and L: "L \<le> pe_liquidity personal"
    and none: "rem = [] \<longrightarrow> rest = []"
    by (elim exE conjE)
  have "pool1 = dp_pool st1 \<or> pool1 = set_status_by_bit (dp_pool st1) CollectFee Disable"
    using c by (auto simp: check_unclaimed_fees_and_vault_def res_inv split: if_splits)
  then show ?thesis
    using w by (intro that [OF r, of pool1 rest]) (simp_all add: st' L none)
qed

lemma differs_in_rewards_sel:
  assumes "differs_in_rewards p q"
  shows "ps_liquidity q = ps_liquidity p" "ps_sqrt_price_x64 q = ps_sqrt_price_x64 p" "ps_tick_current q = ps_tick_current p"
    "ps_total_fees_token_0 q = ps_total_fees_token_0 p" "ps_total_fees_token_1 q = ps_total_fees_token_1 p"
    "ps_total_fees_claimed_token_0 q = ps_total_fees_claimed_token_0 p"
    "ps_total_fees_claimed_token_1 q = ps_total_fees_claimed_token_1 p"
  using assms unfolding differs_in_rewards_def by (cases p; cases q; simp)+

text \<open>The fees claimed by a withdrawal, against the fees that swaps have collected.\<close>

definition fees_claimed :: "nat \<Rightarrow> nat \<Rightarrow> pool_state \<Rightarrow> pool_state \<Rightarrow> bool" where
  "fees_claimed o0 o1 p p' \<longleftrightarrow>
     ps_total_fees_token_0 p' = ps_total_fees_token_0 p \<and> ps_total_fees_token_1 p' = ps_total_fees_token_1 p
     \<and> ps_total_fees_claimed_token_0 p' = ps_total_fees_claimed_token_0 p + o0
     \<and> ps_total_fees_claimed_token_1 p' = ps_total_fees_claimed_token_1 p + o1
     \<and> (o0 = 0 \<and> o1 = 0 \<or> ps_total_fees_claimed_token_0 p' \<le> ps_total_fees_token_0 p'
         \<and> ps_total_fees_claimed_token_1 p' \<le> ps_total_fees_token_1 p')"

lemma withdraw_update_OkD:
  assumes "decrease_liquidity_and_update_position U AL D now personal lo up L st = Ok ((n0, o0, n1, o1), personal', st')"
    and "get_status_by_bit (dp_pool st) DecreaseLiquidity" "0 < L"
    and "pp_liquidity (dp_position st) < 2 ^ 128" "ps_liquidity (dp_pool st) < 2 ^ 128"
  shows "range_changed U (- int L) n0 n1 (dp_pool st) (dp_pool st') (dp_position st) (dp_position st')"
    "fees_claimed o0 o1 (dp_pool st) (dp_pool st')" "pe_liquidity personal' + L = pe_liquidity personal"
    "dp_tokens st' = dp_tokens st"
proof -
  obtain st1 personal1 pool where b: "burn_liquidity U AL D now lo up L st = Ok ((n0, n1), st1)"
    and g: "collect_growth U personal (dp_position st1) = Ok personal1" "L \<le> pe_liquidity personal1"
    and c: "claim_fees (personal1\<lparr>pe_liquidity := pe_liquidity personal1 - L\<rparr>) (dp_pool st1) = Ok ((o0, o1), personal', pool)"
    and st': "st' = st1\<lparr>dp_pool := pool\<rparr>"
    using assms(1,2) by (auto simp: decrease_liquidity_and_update_position_def res_inv)
  note b = burn_liquidity_OkD [OF b assms(3-5)]
  note c = claim_fees_OkD [OF c]
  obtain c0 c1 where pool: "pool = (dp_pool st1)\<lparr>ps_total_fees_claimed_token_0 := c0, ps_total_fees_claimed_token_1 := c1\<rparr>"
    using c(5) by blast
  show "range_changed U (- int L) n0 n1 (dp_pool st) (dp_pool st') (dp_position st) (dp_position st')"
    using b(1) by (simp add: range_changed_def st' pool)
  show "fees_claimed o0 o1 (dp_pool st) (dp_pool st')"
    using b(3-6) c(2-4) unfolding fees_claimed_def st' by (simp add: pool)
  show "pe_liquidity personal' + L = pe_liquidity personal"
    using c(1) g(2) collect_growth_liquidity [OF g(1)] by simp
  show "dp_tokens st' = dp_tokens st" by (simp add: st' b(2))
qed

context token_programs
begin

lemma decrease_liquidity_OkD:
  assumes "decrease_liquidity U T AL D now W loader personal lo up rem L m0 m1 st = Ok (rewards, personal', st')"
    and "get_status_by_bit (dp_pool st) DecreaseLiquidity" "0 < L" "distinct_withdrawal W"
    and "pp_liquidity (dp_position st) < 2 ^ 128" "ps_liquidity (dp_pool st) < 2 ^ 128"
  shows "\<exists>n0 n1 o0 o1 f0 f1 s. range_changed U (- int L) n0 n1 (dp_pool st) (dp_pool st') (dp_position st) (dp_position st')
     \<and> pe_liquidity personal' + L = pe_liquidity personal \<and> m0 \<le> n0 \<and> m1 \<le> n1
     \<and> fees_claimed o0 o1 (dp_pool st) (dp_pool st')
     \<and> paid_out W (n0 + o0) f0 (n1 + o1) f1 (balance (dp_tokens st)) (balance s)
     \<and> (wa_token_program_2022 W = None \<longrightarrow> f0 = 0 \<and> f1 = 0) \<and> (rem = [] \<longrightarrow> dp_tokens st' = s)"
proof -
  obtain ext n0 o0 n1 o1 personal1 st1 s1 pool1 rest where
    d: "decrease_liquidity_and_update_position U AL D now personal lo up L (st\<lparr>dp_extension := ext\<rparr>)
       = Ok ((n0, o0, n1, o1), personal1, st1)"
    and p: "pay_withdrawal T W loader L m0 m1 (n0, o0, n1, o1) (dp_tokens st1) = Ok s1"
    and pool1: "pool1 = dp_pool st1 \<or> pool1 = set_status_by_bit (dp_pool st1) CollectFee Disable"
    and r: "collect_rewards T loader rest (wa_token_program W) (wa_token_program_2022 W) (wa_token_program_2022 W \<noteq> None)
       personal1 pool1 s1 = Ok (rewards, personal', dp_pool st', dp_tokens st')"
    and pos: "dp_position st' = dp_position st1" and none: "rem = [] \<Longrightarrow> rest = []"
    by (rule decrease_liquidity_OkE [OF assms(1)]) blast
  have u: "range_changed U (- int L) n0 n1 (dp_pool st) (dp_pool st1) (dp_position st) (dp_position st1)"
    "fees_claimed o0 o1 (dp_pool st) (dp_pool st1)" "pe_liquidity personal1 + L = pe_liquidity personal"
    "dp_tokens st1 = dp_tokens st"
    using withdraw_update_OkD [OF d] assms(2,3,5,6) by simp_all
  note rD = collect_rewards_OkD [OF r]
  have sel: "ps_liquidity pool1 = ps_liquidity (dp_pool st1)" "ps_sqrt_price_x64 pool1 = ps_sqrt_price_x64 (dp_pool st1)"
    "ps_tick_current pool1 = ps_tick_current (dp_pool st1)"
    "ps_total_fees_token_0 pool1 = ps_total_fees_token_0 (dp_pool st1)"
    "ps_total_fees_token_1 pool1 = ps_total_fees_token_1 (dp_pool st1)"
    "ps_total_fees_claimed_token_0 pool1 = ps_total_fees_claimed_token_0 (dp_pool st1)"
    "ps_total_fees_claimed_token_1 pool1 = ps_total_fees_claimed_token_1 (dp_pool st1)"
    using pool1 by (auto simp: set_status_by_bit_def Let_def)
  note sel = differs_in_rewards_sel [OF rD(1), unfolded sel]
  have changed: "range_changed U (- int L) n0 n1 (dp_pool st) (dp_pool st') (dp_position st) (dp_position st')"
    "fees_claimed o0 o1 (dp_pool st) (dp_pool st')"
    using u(1,2) unfolding range_changed_def fees_claimed_def sel pos by blast+
  from pay_withdrawal_OkD [OF p assms(4), unfolded u(4)] obtain f0 f1 where
    f: "paid_out W (n0 + o0) f0 (n1 + o1) f1 (balance (dp_tokens st)) (balance s1)
      \<and> (0 < L \<longrightarrow> m0 \<le> n0 \<and> m1 \<le> n1) \<and> (wa_token_program_2022 W = None \<longrightarrow> f0 = 0 \<and> f1 = 0)"
    by (elim exE)
  have m: "m0 \<le> n0" "m1 \<le> n1"
    using f [THEN conjunct2, THEN conjunct1] assms(3) by simp_all
  have l: "pe_liquidity personal' + L = pe_liquidity personal"
    using u(3) rD(2) by simp
  have none: "rem = [] \<longrightarrow> dp_tokens st' = s1"
    using rD(3) none by blast
  show ?thesis
    by (intro exI [of _ n0] exI [of _ n1] exI [of _ o0] exI [of _ o1] exI [of _ f0] exI [of _ f1] exI [of _ s1] conjI
        changed l m none f [THEN conjunct1] f [THEN conjunct2, THEN conjunct2])
qed

end

section \<open>Deposit against withdrawal\<close>

context uint_crate
begin

lemma signed_amount_0_round:
  assumes "get_delta_amount_0_signed U a b (int L) = Ok x" "get_delta_amount_0_signed U a b (- int L) = Ok y" "0 < L" "L < 2 ^ 127"
  shows "y \<le> x" "x \<le> y + 1"
proof -
  have L: "L < 2 ^ 128" using assms(4) by simp
  have "get_delta_amount_0_unsigned U a b L True = Ok x" "get_delta_amount_0_unsigned U a b L False = Ok y"
    using assms by (auto simp: get_delta_amount_0_signed_def res_inv chk_i_eq_Ok_iff)
  from get_delta_amount_0_unsigned_OkD [OF L this(1)] get_delta_amount_0_unsigned_OkD [OF L this(2)]
  show "y \<le> x" "x \<le> y + 1"
    using amount_rounding(1,2) [of a b L] by auto
qed

lemma signed_amount_1_round:
  assumes "get_delta_amount_1_signed U a b (int L) = Ok x" "get_delta_amount_1_signed U a b (- int L) = Ok y" "0 < L"
    "L < 2 ^ 127" "a < 2 ^ 128" "b < 2 ^ 128"
  shows "y \<le> x" "x \<le> y + 1"
proof -
  have L: "L < 2 ^ 128" using assms(4) by simp
  have "get_delta_amount_1_unsigned U a b L True = Ok x" "get_delta_amount_1_unsigned U a b L False = Ok y"
    using assms by (auto simp: get_delta_amount_1_signed_def res_inv chk_i_eq_Ok_iff)
  then show "y \<le> x" "x \<le> y + 1"
    using amount_rounding [of a b L]
    by (auto simp: get_delta_amount_1_unsigned_eq [OF assms(5,6) L] split: if_splits)
qed

end

context uint_crate
begin

lemma tick_price_small: "get_sqrt_price_at_tick U t = Ok p \<Longrightarrow> p < 2 ^ 128"
  using get_sqrt_price_at_tick_OkD [of t p] price_at_bounds [of t] by (simp add: MAX_SQRT_PRICE_X64_def)

lemma delta_amounts_round:
  assumes i: "get_delta_amounts_signed U t p l u (int L) = Ok (a0, a1)" and o: "get_delta_amounts_signed U t p l u (- int L) = Ok (b0, b1)"
    and L: "0 < L" "L < 2 ^ 127" and p: "p < 2 ^ 128"
  shows "b0 \<le> a0 \<and> a0 \<le> b0 + 1 \<and> b1 \<le> a1 \<and> a1 \<le> b1 + 1"
proof -
  consider "t < l" | "l \<le> t" "t < u" | "l \<le> t" "u \<le> t" by linarith
  then show ?thesis
  proof cases
    case 1
    then obtain pl pu where "get_delta_amount_0_signed U pl pu (int L) = Ok a0" "get_delta_amount_0_signed U pl pu (- int L) = Ok b0"
      "a1 = 0" "b1 = 0"
      using i o by (auto simp: get_delta_amounts_signed_def res_inv)
    then show ?thesis using signed_amount_0_round L by simp
  next
    case 2
    then obtain pl pu where "get_delta_amount_0_signed U p pu (int L) = Ok a0" "get_delta_amount_0_signed U p pu (- int L) = Ok b0"
      "get_delta_amount_1_signed U pl p (int L) = Ok a1" "get_delta_amount_1_signed U pl p (- int L) = Ok b1"
      "get_sqrt_price_at_tick U l = Ok pl"
      using i o by (auto simp: get_delta_amounts_signed_def res_inv)
    then show ?thesis using signed_amount_0_round signed_amount_1_round L p tick_price_small by meson
  next
    case 3
    then obtain pl pu where "get_delta_amount_1_signed U pl pu (int L) = Ok a1" "get_delta_amount_1_signed U pl pu (- int L) = Ok b1"
      "get_sqrt_price_at_tick U l = Ok pl" "get_sqrt_price_at_tick U u = Ok pu" "a0 = 0" "b0 = 0"
      using i o by (auto simp: get_delta_amounts_signed_def res_inv)
    then show ?thesis using signed_amount_1_round [of pl pu L a1 b1] L tick_price_small by simp
  qed
qed

end

section \<open>A sample\<close>

text \<open>A position on the ticks 0 to 10 that holds all the liquidity of its pool, with the price at tick 0.\<close>

definition range_pool :: pool_state where
  "range_pool = sample_pool\<lparr>ps_token_vault_0 := 50, ps_token_vault_1 := 51, ps_sqrt_price_x64 := 2 ^ 64,
     ps_liquidity := 1000000000, ps_status := 8, ps_total_fees_token_0 := 90\<rparr>"

definition range_tick :: "i32 \<Rightarrow> int \<Rightarrow> tick_state" where
  "range_tick t net = default_tick_state\<lparr>ts_tick := t, ts_liquidity_net := net, ts_liquidity_gross := 1000000000\<rparr>"

definition range_array :: tick_array where
  "range_array = default_tick_array\<lparr>ta_pool_id := 1, ta_initialized_tick_count := 2,
     ta_ticks := (replicate 60 default_tick_state)[0 := range_tick 0 1000000000, 1 := range_tick 10 (- 1000000000)]\<rparr>"

definition range_arrays :: "tick_array accounts" where
  "range_arrays = (\<lambda>k. \<lparr>ai_owner = program_id, ai_is_writable = True, ai_lamports = 1,
     ai_data = (if k = 60 then Typed_Data range_array else Short_Data)\<rparr>)"

definition range_position :: protocol_position where
  "range_position = default_protocol_position\<lparr>pp_pool_id := 1, pp_tick_upper_index := 10, pp_liquidity := 1000000000\<rparr>"

definition range_personal :: personal_position where
  "range_personal = default_personal_position\<lparr>pe_pool_id := 1, pe_tick_upper_index := 10, pe_liquidity := 1000000000,
     pe_token_fees_owed_0 := 7\<rparr>"

definition range_tokens :: token_table where
  "range_tokens = (\<lambda>k. \<lparr>tk_key = k, tk_program = 1, tk_mint = (if k = 70 \<or> k = 50 then 7 else 8),
     tk_owner = (if k = 70 \<or> k = 71 then 100 else 1), tk_amount = 20000\<rparr>)"

definition range_state :: "token_table deposit_state" where
  "range_state = \<lparr>dp_pool = range_pool, dp_position = range_position, dp_tick_arrays = range_arrays,
     dp_extension = None, dp_tokens = range_tokens\<rparr>"

definition range_deposit :: deposit_accounts where
  "range_deposit = \<lparr>da_payer = 100, da_token_account_0 = range_tokens 70, da_token_account_1 = range_tokens 71,
     da_token_vault_0 = range_tokens 50, da_token_vault_1 = range_tokens 51, da_token_program_2022 = None,
     da_token_program = 1, da_vault_0_mint = None, da_vault_1_mint = None\<rparr>"

definition range_withdrawal :: withdraw_accounts where
  "range_withdrawal = \<lparr>wa_token_vault_0 = range_tokens 50, wa_token_vault_1 = range_tokens 51,
     wa_recipient_token_account_0 = range_tokens 70, wa_recipient_token_account_1 = range_tokens 71,
     wa_token_program = 1, wa_token_program_2022 = None, wa_vault_0_mint = None, wa_vault_1_mint = None\<rparr>"

lemma range_amounts:
  "get_delta_amounts_signed uint_ref 0 (2 ^ 64) 0 10 1000000 = Ok (500, 0)"
  "get_delta_amounts_signed uint_ref 0 (2 ^ 64) 0 10 (- 1000000) = Ok (499, 0)"
proof -
  have 10: "price_at 10 = 18455969290605287889"
    by (simp add: price_at_def ratio_of_def factors_def factor_table_def first_factor_def)
  have "price_at 0 = 2 ^ 64"
    by (simp add: price_at_def ratio_of_0)
  then have p: "get_sqrt_price_at_tick uint_ref 0 = Ok (2 ^ 64)" "get_sqrt_price_at_tick uint_ref 10 = Ok 18455969290605287889"
    using uint_ref.get_sqrt_price_at_tick_Ok [of 0] uint_ref.get_sqrt_price_at_tick_Ok [of 10] 10
    by (simp_all add: MIN_TICK_def MAX_TICK_def)
  show "get_delta_amounts_signed uint_ref 0 (2 ^ 64) 0 10 1000000 = Ok (500, 0)"
    "get_delta_amounts_signed uint_ref 0 (2 ^ 64) 0 10 (- 1000000) = Ok (499, 0)"
    by (simp_all add: get_delta_amounts_signed_def p get_delta_amount_0_signed_def get_delta_amount_1_signed_def
        uint_ref.get_delta_amount_0_unsigned_eq uint_ref.get_delta_amount_1_unsigned_eq amount_0_of_def amount_1_of_def cdiv_def
        chk_i_def)
qed

lemma range_update:
  assumes "d = 1000000 \<or> d = - 1000000"
  shows "\<exists>p r l u. update_position uint_ref d range_pool range_position (range_tick 0 1000000000) (range_tick 10 (- 1000000000)) 5
       = Ok (False, False, p, r, l, u)
     \<and> ps_tick_current p = 0 \<and> ps_sqrt_price_x64 p = 2 ^ 64 \<and> ps_liquidity p = 1000000000 \<and> ts_tick l = 0 \<and> ts_tick u = 10
     \<and> p = range_pool\<lparr>ps_reward_infos := ps_reward_infos p\<rparr>
     \<and> pp_tick_lower_index r = 0 \<and> pp_tick_upper_index r = 10 \<and> pp_pool_id r = 1
     \<and> pp_fee_growth_inside_0_last_x64 r = 0 \<and> pp_fee_growth_inside_1_last_x64 r = 0 \<and> pp_reward_growth_inside r = [0, 0, 0]"
  using assms by (elim disjE; simp add: update_position_def update_reward_infos_def range_pool_def sample_pool_def range_tick_def range_position_def
      default_pool_def update_reward_info_def new_reward_info_def reward_initialized_def default_pubkey_def REWARD_NUM_def
      numeral_3_eq_3 tick_update_def default_tick_state_def Let_def add_delta_def native_eval chk_i_def unwrap_i128_def get_reward_growths_def
      get_fee_growth_inside_def get_reward_growths_inside_def reward_growth_inside_def
      protocol_position_update_def default_protocol_position_def protocol_tokens_owed_def uint_ref.mul_div_floor_u128_eq
      fits_def Q64_def uint_ref.to_underflow_u64_eq
      update_reward_growths_inside_def
      MIN_TICK_def MAX_TICK_def; (rule exI)?; simp?)

lemma range_modify:
  assumes "(d, n) = (1000000, 500) \<or> (d, n) = (- 1000000, 499)"
  shows "\<exists>p r l u. modify_position uint_ref d range_pool range_position (range_tick 0 1000000000) (range_tick 10 (- 1000000000)) 5
       = Ok ((n, 0, False, False), p, r, l, u)
     \<and> ts_tick l = 0 \<and> ts_tick u = 10 \<and> pp_tick_lower_index r = 0 \<and> pp_tick_upper_index r = 10 \<and> pp_pool_id r = 1
     \<and> pp_fee_growth_inside_0_last_x64 r = 0 \<and> pp_fee_growth_inside_1_last_x64 r = 0 \<and> pp_reward_growth_inside r = [0, 0, 0]
     \<and> p = range_pool\<lparr>ps_reward_infos := ps_reward_infos p, ps_liquidity := ps_liquidity p\<rparr>"
proof -
  have d: "d = 1000000 \<or> d = - 1000000" using assms by auto
  obtain p r l u where u: "update_position uint_ref d range_pool range_position (range_tick 0 1000000000) (range_tick 10 (- 1000000000)) 5
       = Ok (False, False, p, r, l, u)"
     "ps_tick_current p = 0" "ps_sqrt_price_x64 p = 2 ^ 64" "ps_liquidity p = 1000000000" "ts_tick l = 0" "ts_tick u = 10"
     and p: "p = range_pool\<lparr>ps_reward_infos := ps_reward_infos p\<rparr>"
     and r: "pp_tick_lower_index r = 0" "pp_tick_upper_index r = 10" "pp_pool_id r = 1"
     "pp_fee_growth_inside_0_last_x64 r = 0" "pp_fee_growth_inside_1_last_x64 r = 0" "pp_reward_growth_inside r = [0, 0, 0]"
    using range_update [OF d] by blast
  have a: "get_delta_amounts_signed uint_ref 0 (2 ^ 64) 0 10 d = Ok (n, 0)"
    using assms range_amounts by auto
  have "\<exists>k. add_delta 1000000000 d = Ok k"
    using d by (auto simp: add_delta_def native_eval chk_i_def)
  then obtain k where k: "add_delta 1000000000 d = Ok k" by blast
  have "modify_position uint_ref d range_pool range_position (range_tick 0 1000000000) (range_tick 10 (- 1000000000)) 5
       = Ok ((n, 0, False, False), p\<lparr>ps_liquidity := k\<rparr>, r, l, u)"
    using d a k unfolding modify_position_def by (simp add: u) auto
  moreover have "p\<lparr>ps_liquidity := k\<rparr> = range_pool\<lparr>ps_reward_infos := ps_reward_infos (p\<lparr>ps_liquidity := k\<rparr>),
      ps_liquidity := ps_liquidity (p\<lparr>ps_liquidity := k\<rparr>)\<rparr>"
    using p by (cases p) simp
  ultimately show ?thesis
    using u r by (intro exI [of _ "p\<lparr>ps_liquidity := k\<rparr>"] exI [of _ r] exI [of _ l] exI [of _ u]) simp
qed

text \<open>The steps on the tick arrays of the sample.\<close>

lemma range_offsets:
  "ta_start_tick_index A = 0 \<Longrightarrow> get_tick_offset_in_array A 0 10 = Ok 0"
  "ta_start_tick_index A = 0 \<Longrightarrow> get_tick_offset_in_array A 10 10 = Ok 1"
  by (simp_all add: get_tick_offset_in_array_eq moderate_def spacing_ok_def array_start_def)

definition range_stored :: "'s deposit_state \<Rightarrow> bool" where
  "range_stored st \<longleftrightarrow> ps_tick_spacing (dp_pool st) = 10 \<and> ai_is_writable (dp_tick_arrays st 60)
     \<and> (\<exists>A. ai_data (dp_tick_arrays st 60) = Typed_Data A \<and> ta_start_tick_index A = 0 \<and> length (ta_ticks A) = 60)"

lemma range_store_tick:
  assumes "range_stored st" "i = 0 \<or> i = 10"
  shows "\<exists>accs. store_tick account_load_methods 60 i T st = Ok (st\<lparr>dp_tick_arrays := accs\<rparr>)
     \<and> range_stored (st\<lparr>dp_tick_arrays := accs\<rparr>)"
proof -
  obtain A where A: "ai_data (dp_tick_arrays st 60) = Typed_Data A" "ta_start_tick_index A = 0" "length (ta_ticks A) = 60"
    and w: "ai_is_writable (dp_tick_arrays st 60)" "ps_tick_spacing (dp_pool st) = 10"
    using assms(1) by (auto simp: range_stored_def)
  have "\<exists>A'. update_tick_state A i 10 T = Ok A' \<and> ta_start_tick_index A' = 0 \<and> length (ta_ticks A') = 60"
    using assms(2) A by (auto simp: update_tick_state_def range_offsets)
  then obtain A' where A': "update_tick_state A i 10 T = Ok A'" "ta_start_tick_index A' = 0" "length (ta_ticks A') = 60"
    by blast
  have "store_tick account_load_methods 60 i T st = Ok (st\<lparr>dp_tick_arrays := store_account 60 A' (dp_tick_arrays st)\<rparr>)"
    using A w A'(1) by (simp add: store_tick_def account_load_methods_def account_load_mut_def)
  moreover have "range_stored (st\<lparr>dp_tick_arrays := store_account 60 A' (dp_tick_arrays st)\<rparr>)"
    using w A'(2,3) by (simp add: range_stored_def store_account_def)
  ultimately show ?thesis by blast
qed

lemma range_state_facts:
  "dp_pool range_state = range_pool" "dp_position range_state = range_position" "dp_tokens range_state = range_tokens"
  "dp_tick_arrays range_state = range_arrays" "ps_tick_spacing range_pool = 10" "pool_key sample_pda range_pool = Ok 1"
  "account_load range_arrays 60 = Ok range_array" "account_load_mut range_arrays 60 = Ok range_array"
  "ta_pool_id range_array = 1" "ta_start_tick_index range_array = 0" "length (ta_ticks range_array) = 60"
  "ta_ticks range_array ! 0 = range_tick 0 1000000000" "ta_ticks range_array ! 1 = range_tick 10 (- 1000000000)"
  "range_stored range_state"
  by (simp_all add: range_state_def range_pool_def sample_pool_def default_pool_def pool_key_def sample_pda_def default_pubkey_def
      account_load_def account_load_mut_def range_arrays_def range_array_def default_tick_array_def range_stored_def)

lemma range_ticks:
  "load_tick account_load_methods 60 0 (range_state\<lparr>dp_extension := e\<rparr>) = Ok (range_tick 0 1000000000)"
  "load_tick account_load_methods 60 10 (range_state\<lparr>dp_extension := e\<rparr>) = Ok (range_tick 10 (- 1000000000))"
  "check_array_of_pool account_load_methods sample_pda 60 (range_state\<lparr>dp_extension := e\<rparr>) = Ok ()"
  using range_state_facts(12,13)
  by (simp_all add: load_tick_def check_array_of_pool_def account_load_methods_def range_state_facts get_tick_state_def range_offsets)

text \<open>What the two handlers do to the sample before anything is paid.\<close>

lemma range_stores:
  assumes "ps_tick_spacing p = 10"
  shows "\<exists>accs s1. store_tick account_load_methods 60 0 T1 (range_state\<lparr>dp_extension := e, dp_pool := p, dp_position := r\<rparr>) = Ok s1
     \<and> store_tick account_load_methods 60 10 T2 s1 = Ok (range_state\<lparr>dp_extension := e, dp_pool := p, dp_position := r, dp_tick_arrays := accs\<rparr>)"
proof -
  define st where "st = range_state\<lparr>dp_extension := e, dp_pool := p, dp_position := r\<rparr>"
  have "range_stored st"
    using range_state_facts(14) assms by (simp add: range_stored_def st_def)
  from range_store_tick [OF this, of 0 T1] obtain a1 where
    1: "store_tick account_load_methods 60 0 T1 st = Ok (st\<lparr>dp_tick_arrays := a1\<rparr>)" "range_stored (st\<lparr>dp_tick_arrays := a1\<rparr>)"
    by auto
  from range_store_tick [OF 1(2), of 10 T2] obtain a2 where
    "store_tick account_load_methods 60 10 T2 (st\<lparr>dp_tick_arrays := a1\<rparr>) = Ok (st\<lparr>dp_tick_arrays := a2\<rparr>)"
    by auto
  with 1(1) show ?thesis unfolding st_def by auto
qed

lemma range_add:
  "\<exists>p r accs. add_to_range uint_ref sample_pda 5 60 60 1000000 0 10 (range_state\<lparr>dp_extension := e\<rparr>)
     = Ok ((500, 0), range_state\<lparr>dp_extension := e, dp_pool := p, dp_position := r, dp_tick_arrays := accs\<rparr>)
   \<and> pp_fee_growth_inside_0_last_x64 r = 0 \<and> pp_fee_growth_inside_1_last_x64 r = 0 \<and> pp_reward_growth_inside r = [0, 0, 0]"
proof -
  obtain p r l u where m: "modify_position uint_ref 1000000 range_pool range_position (range_tick 0 1000000000) (range_tick 10 (- 1000000000)) 5
       = Ok ((500, 0, False, False), p, r, l, u)"
     and g: "pp_fee_growth_inside_0_last_x64 r = 0" "pp_fee_growth_inside_1_last_x64 r = 0" "pp_reward_growth_inside r = [0, 0, 0]"
     and p: "p = range_pool\<lparr>ps_reward_infos := ps_reward_infos p, ps_liquidity := ps_liquidity p\<rparr>"
    using range_modify [of 1000000 500] by auto
  have "ps_tick_spacing p = 10" by (subst p) (simp add: range_state_facts)
  from range_stores [OF this, of l r e u] obtain accs s1 where
    s: "store_tick account_load_methods 60 0 l (range_state\<lparr>dp_extension := e, dp_pool := p, dp_position := r\<rparr>) = Ok s1"
     "store_tick account_load_methods 60 10 u s1 = Ok (range_state\<lparr>dp_extension := e, dp_pool := p, dp_position := r, dp_tick_arrays := accs\<rparr>)"
    by blast
  have n: "name_tick 0 (range_tick 0 1000000000) = range_tick 0 1000000000" "name_tick 10 (range_tick 10 (- 1000000000)) = range_tick 10 (- 1000000000)"
    by (simp_all add: name_tick_def range_tick_def default_tick_state_def)
  show ?thesis
    using m s g by (simp add: add_to_range_def range_ticks n i128_of_u128_def range_state_facts Let_def) blast
qed

lemma range_burn:
  "\<exists>p r accs. burn_liquidity uint_ref account_load_methods sample_pda 5 60 60 1000000 (range_state\<lparr>dp_extension := e\<rparr>)
     = Ok ((499, 0), range_state\<lparr>dp_extension := e, dp_pool := p, dp_position := r, dp_tick_arrays := accs\<rparr>)
   \<and> pp_fee_growth_inside_0_last_x64 r = 0 \<and> pp_fee_growth_inside_1_last_x64 r = 0 \<and> pp_reward_growth_inside r = [0, 0, 0]
   \<and> p = range_pool\<lparr>ps_reward_infos := ps_reward_infos p, ps_liquidity := ps_liquidity p\<rparr>"
proof -
  obtain p r l u where m: "modify_position uint_ref (- 1000000) range_pool range_position (range_tick 0 1000000000) (range_tick 10 (- 1000000000)) 5
       = Ok ((499, 0, False, False), p, r, l, u)"
     and g: "pp_tick_lower_index r = 0" "pp_tick_upper_index r = 10"
       "pp_fee_growth_inside_0_last_x64 r = 0" "pp_fee_growth_inside_1_last_x64 r = 0" "pp_reward_growth_inside r = [0, 0, 0]"
     and p: "p = range_pool\<lparr>ps_reward_infos := ps_reward_infos p, ps_liquidity := ps_liquidity p\<rparr>"
    using range_modify [of "- 1000000" 499] by auto
  have "ps_tick_spacing p = 10" by (subst p) (simp add: range_state_facts)
  from range_stores [OF this, of l r e u] obtain accs s1 where
    s: "store_tick account_load_methods 60 0 l (range_state\<lparr>dp_extension := e, dp_pool := p, dp_position := r\<rparr>) = Ok s1"
     "store_tick account_load_methods 60 10 u s1 = Ok (range_state\<lparr>dp_extension := e, dp_pool := p, dp_position := r, dp_tick_arrays := accs\<rparr>)"
    by blast
  have i: "pp_tick_lower_index range_position = 0" "pp_tick_upper_index range_position = 10"
    by (simp_all add: range_position_def default_protocol_position_def)
  show ?thesis
    using m s g p by (simp add: burn_liquidity_def range_ticks i i128_of_u128_def range_state_facts Let_def) blast
qed

lemma range_growth:
  assumes "pp_fee_growth_inside_0_last_x64 r = 0" "pp_fee_growth_inside_1_last_x64 r = 0" "pp_reward_growth_inside r = [0, 0, 0]"
  shows "\<exists>personal. collect_growth uint_ref range_personal r = Ok personal \<and> pe_liquidity personal = 1000000000
    \<and> pe_token_fees_owed_0 personal = 7 \<and> pe_token_fees_owed_1 personal = 0"
  using assms
  by (simp add: collect_growth_def calculate_latest_token_fees_def update_rewards_def update_reward_def range_personal_def
      default_personal_position_def uint_ref.mul_div_eqs fits_def Q64_def uint_ref.to_underflow_u64_eq Let_def
      REWARD_NUM_def numeral_3_eq_3 wrapping_sub_def checked_add_def)

lemma range_no_overflow: "is_overflow_default_tickarray_bitmap range_pool [0, 10] = Ok False"
  "is_overflow_default_tickarray_bitmap range_pool [0, 0] = Ok False"
  by (simp_all add: is_overflow_default_tickarray_bitmap_def tick_array_start_index_range_def range_state_facts
      get_array_start_index_eq moderate_def spacing_ok_def array_start_def max_tick_eq tick_count_eq MIN_TICK_def MAX_TICK_def Let_def)

lemma range_increase:
  "\<exists>r. increase_liquidity uint_ref token_ref sample_pda 5 range_deposit 1 range_personal 60 60 [] 1000000 600 0 None range_state = Ok r"
proof -
  have o: "ai_owner (range_arrays 60) = program_id" "ai_data (range_arrays 60) = Typed_Data range_array"
    by (simp_all add: range_arrays_def)
  have i: "pe_tick_lower_index range_personal = 0" "pe_tick_upper_index range_personal = 10" "pe_liquidity range_personal = 1000000000"
    by (simp_all add: range_personal_def default_personal_position_def)
  have s: "get_status_by_bit range_pool OpenPositionOrIncreaseLiquidity"
    by (simp add: get_status_by_bit_def range_pool_def sample_pool_def default_pool_def)
  obtain p r accs where a: "add_to_range uint_ref sample_pda 5 60 60 1000000 0 10 (range_state\<lparr>dp_extension := None\<rparr>)
     = Ok ((500, 0), range_state\<lparr>dp_extension := None, dp_pool := p, dp_position := r, dp_tick_arrays := accs\<rparr>)"
    and g: "pp_fee_growth_inside_0_last_x64 r = 0" "pp_fee_growth_inside_1_last_x64 r = 0" "pp_reward_growth_inside r = [0, 0, 0]"
    using range_add by blast
  have "\<exists>s. pay_deposit token_ref range_deposit 600 0 500 0 range_tokens = Ok ((0, 0), s)"
    by (simp add: pay_deposit_def range_deposit_def transfer_from_user_to_pool_vault_def token_ref_def move_tokens_def range_tokens_def Let_def
      chk_add_def)
  then obtain s1 where pay: "pay_deposit token_ref range_deposit 600 0 500 0 range_tokens = Ok ((0, 0), s1)" by blast
  obtain personal where c: "collect_growth uint_ref range_personal r = Ok personal" "pe_liquidity personal = 1000000000"
    using range_growth [OF g] by blast
  show ?thesis
    by (simp add: increase_liquidity_def range_state_facts s i range_no_overflow account_try_from_def o extension_if_used_def
      add_liquidity_def a pay c Let_def checked_add_def)
qed

lemma range_decrease:
  "\<exists>r. decrease_liquidity uint_ref token_ref account_load_methods sample_pda 5 range_withdrawal 1 range_personal 60 60 [] 1000000 450 0
     range_state = Ok r"
proof -
  have i: "pe_liquidity range_personal = 1000000000"
    by (simp add: range_personal_def)
  have s: "get_status_by_bit range_pool DecreaseLiquidity"
    by (simp add: get_status_by_bit_def range_pool_def sample_pool_def default_pool_def)
  obtain p r accs where a: "burn_liquidity uint_ref account_load_methods sample_pda 5 60 60 1000000 (range_state\<lparr>dp_extension := None\<rparr>)
     = Ok ((499, 0), range_state\<lparr>dp_extension := None, dp_pool := p, dp_position := r, dp_tick_arrays := accs\<rparr>)"
    and g: "pp_fee_growth_inside_0_last_x64 r = 0" "pp_fee_growth_inside_1_last_x64 r = 0" "pp_reward_growth_inside r = [0, 0, 0]"
    and p: "p = range_pool\<lparr>ps_reward_infos := ps_reward_infos p, ps_liquidity := ps_liquidity p\<rparr>"
    using range_burn by blast
  obtain personal where c: "collect_growth uint_ref range_personal r = Ok personal" "pe_liquidity personal = 1000000000"
    "pe_token_fees_owed_0 personal = 7" "pe_token_fees_owed_1 personal = 0"
    using range_growth [OF g] by blast
  have ps: "ps_status p = 8" "ps_total_fees_token_0 p = 90" "ps_total_fees_token_1 p = 0" "ps_total_fees_claimed_token_0 p = 0"
    "ps_total_fees_claimed_token_1 p = 0"
    by (subst p, simp add: range_pool_def sample_pool_def default_pool_def)+
  define q where "q = p\<lparr>ps_total_fees_claimed_token_0 := 7, ps_total_fees_claimed_token_1 := 0\<rparr>"
  define personal' where "personal' = personal\<lparr>pe_liquidity := 999000000, pe_token_fees_owed_0 := 0, pe_token_fees_owed_1 := 0\<rparr>"
  have claim: "claim_fees (personal\<lparr>pe_liquidity := 999000000\<rparr>) p = Ok ((7, 0), personal', q)"
    by (simp add: claim_fees_def get_status_by_bit_def ps c chk_sub_def checked_add_def q_def personal'_def)
  have "\<exists>s. pay_withdrawal token_ref range_withdrawal 1 1000000 450 0 (499, 7, 0, 0) range_tokens = Ok s
    \<and> tk_amount (s 50) = 19494 \<and> tk_amount (s 51) = 20000"
    by (simp add: pay_withdrawal_def range_withdrawal_def withdraw_fee_def transfer_from_pool_vault_to_user_def token_ref_def
      move_tokens_def range_tokens_def Let_def chk_add_def chk_sub_def)
  then obtain s1 where pay: "pay_withdrawal token_ref range_withdrawal 1 1000000 450 0 (499, 7, 0, 0) range_tokens = Ok s1"
    and b: "tk_amount (s1 50) = 19494" "tk_amount (s1 51) = 20000" by blast
  have v: "tk_key (wa_token_vault_0 range_withdrawal) = 50" "tk_key (wa_token_vault_1 range_withdrawal) = 51"
    by (simp_all add: range_withdrawal_def range_tokens_def)
  have check: "check_unclaimed_fees_and_vault token_ref (wa_token_vault_0 range_withdrawal) (wa_token_vault_1 range_withdrawal) s1 q = Ok q"
    by (simp add: check_unclaimed_fees_and_vault_def reload_def token_ref_def v b q_def ps checked_sub_def)
  have rewards: "collect_rewards T loader rest tp tp22 need personal' q s1 = Ok (replicate REWARD_NUM 0, personal', q, s1)"
    for T :: "token_table token_lib" and loader rest tp tp22 need
    by (simp add: collect_rewards_def get_status_by_bit_def q_def ps)
  have upd: "decrease_liquidity_and_update_position uint_ref account_load_methods sample_pda 5 range_personal 60 60 1000000
      (range_state\<lparr>dp_extension := None\<rparr>) = Ok ((499, 7, 0, 0), personal',
        range_state\<lparr>dp_extension := None, dp_pool := q, dp_position := r, dp_tick_arrays := accs\<rparr>)"
    by (simp add: decrease_liquidity_and_update_position_def range_state_facts s a c checked_sub_def claim)
  show ?thesis
    by (simp add: decrease_liquidity_def i s range_state_facts account_load_methods_def range_no_overflow upd [unfolded account_load_methods_def]
      pay check rewards del: One_nat_def)
qed

section \<open>Properties\<close>

text \<open>
  C3. Adding liquidity costs no more than the owner allows and gives exactly what is paid for.
  When \<open>increase_liquidity\<close> succeeds, the position, the range of its pool and, if the current
  tick is in the range, the pool gain the same positive liquidity, the one asked for if one was;
  price and tick of the pool stay.  The owner's two accounts pay at least the worth of this
  liquidity, rounded up, and at most the two maxima; the vaults receive it less what the token
  itself withholds, which is nothing for the older token program; no other balance changes.
\<close>

theorem increase_liquidity_charges_within_maxima:
  assumes "token_programs T balance" "distinct_deposit A" "liquidity \<noteq> 0 \<or> base_flag \<noteq> None"
    and "pp_liquidity (dp_position st) < 2 ^ 128" "ps_liquidity (dp_pool st) < 2 ^ 128"
    and "increase_liquidity U T D now A loader personal lower upper remaining liquidity amount_0_max amount_1_max base_flag st
      = Ok (personal', st')"
  shows "\<exists>L n0 n1 x0 f0 x1 f1. 0 < L \<and> (liquidity \<noteq> 0 \<longrightarrow> L = liquidity)
    \<and> pe_liquidity personal' = pe_liquidity personal + L
    \<and> range_changed U (int L) n0 n1 (dp_pool st) (dp_pool st') (dp_position st) (dp_position st')
    \<and> n0 \<le> x0 \<and> x0 \<le> amount_0_max \<and> n1 \<le> x1 \<and> x1 \<le> amount_1_max
    \<and> deposited A x0 f0 x1 f1 (balance (dp_tokens st)) (balance (dp_tokens st'))
    \<and> (da_token_program_2022 A = None \<longrightarrow> f0 = 0 \<and> f1 = 0)"
proof -
  obtain ext lo up L amounts where
    a: "add_liquidity U T D now A lo up liquidity amount_0_max amount_1_max (pe_tick_lower_index personal)
       (pe_tick_upper_index personal) base_flag (st\<lparr>dp_extension := ext\<rparr>) = Ok (amounts, L, st')"
    and L: "pe_liquidity personal' = pe_liquidity personal + L"
    by (rule increase_liquidity_OkE [OF assms(6)])
  have st: "dp_pool (st\<lparr>dp_extension := ext\<rparr>) = dp_pool st" "dp_position (st\<lparr>dp_extension := ext\<rparr>) = dp_position st"
    "dp_tokens (st\<lparr>dp_extension := ext\<rparr>) = dp_tokens st" by simp_all
  note d = token_programs.add_liquidity_OkD [OF assms(1) a assms(3,2), unfolded st, OF assms(4,5)]
  from d(3) obtain n0 n1 x0 f0 x1 f1 where
    "range_changed U (int L) n0 n1 (dp_pool st) (dp_pool st') (dp_position st) (dp_position st')
     \<and> deposited A x0 f0 x1 f1 (balance (dp_tokens st)) (balance (dp_tokens st'))
     \<and> n0 \<le> x0 \<and> x0 \<le> amount_0_max \<and> n1 \<le> x1 \<and> x1 \<le> amount_1_max
     \<and> (da_token_program_2022 A = None \<longrightarrow> f0 = 0 \<and> f1 = 0)"
    by (elim exE)
  moreover have "liquidity \<noteq> 0 \<longrightarrow> L = liquidity" using d(2) by blast
  ultimately show ?thesis
    using d(1) L
    by - (intro exI [of _ L] exI [of _ n0] exI [of _ n1] exI [of _ x0] exI [of _ f0] exI [of _ x1] exI [of _ f1] conjI;
        (elim conjE)?, assumption)
qed

theorem increase_liquidity_charges_within_maxima_witness:
  "\<exists>personal st. increase_liquidity uint_ref token_ref sample_pda 5 range_deposit 1 range_personal 60 60 [] 1000000 600 0 None range_state
      = Ok (personal, st)
    \<and> pe_liquidity personal = 1001000000
    \<and> (\<exists>x \<le> 600. table_balance (dp_tokens st) 70 = table_balance range_tokens 70 - x)"
proof -
  obtain personal st where r: "increase_liquidity uint_ref token_ref sample_pda 5 range_deposit 1 range_personal 60 60 [] 1000000 600 0 None range_state
      = Ok (personal, st)"
    using range_increase by auto
  have d: "distinct_deposit range_deposit"
    by (simp add: distinct_deposit_def range_deposit_def range_tokens_def)
  have b: "(1000000 :: nat) \<noteq> 0 \<or> (None :: bool option) \<noteq> None" "pp_liquidity (dp_position range_state) < 2 ^ 128"
    "ps_liquidity (dp_pool range_state) < 2 ^ 128"
    by (simp_all add: range_state_facts range_position_def range_pool_def)
  have k: "tk_key (da_token_account_0 range_deposit) = 70" "tk_key (da_token_account_1 range_deposit) = 71"
    "tk_key (da_token_vault_0 range_deposit) = 50" "tk_key (da_token_vault_1 range_deposit) = 51"
    by (simp_all add: range_deposit_def range_tokens_def)
  obtain L x0 f0 x1 f1 where L: "L = 1000000" "pe_liquidity personal = pe_liquidity range_personal + L" and x: "x0 \<le> 600"
    and dep: "deposited range_deposit x0 f0 x1 f1 (table_balance (dp_tokens range_state)) (table_balance (dp_tokens st))"
    using increase_liquidity_charges_within_maxima [OF token_programs_ref d b r] by auto
  have "table_balance (dp_tokens st) 70 = table_balance range_tokens 70 - x0"
    using dep by (simp add: deposited_def k range_state_facts)
  then show ?thesis
    using r L x by (auto simp: range_personal_def)
qed

text \<open>
  C2. Withdrawing pays at least what the owner demands.  When \<open>decrease_liquidity\<close> succeeds on a
  pool that allows it, position, range and pool (if the current tick is in the range) lose the
  same liquidity, at unchanged price and tick.  The vaults pay the worth of this liquidity,
  rounded down and not below the two minima, and the fees that the position is owed, which
  together with all fees claimed before stay within the fees that the pool has collected; the
  recipients get it less what the tokens withhold.  Rewards come after that, from their own
  vaults.
\<close>

theorem decrease_liquidity_pays_minima_and_covered_fees:
  assumes "token_programs T balance" "distinct_withdrawal W" "0 < liquidity" "get_status_by_bit (dp_pool st) DecreaseLiquidity"
    and "pp_liquidity (dp_position st) < 2 ^ 128" "ps_liquidity (dp_pool st) < 2 ^ 128"
    and "decrease_liquidity U T AL D now W loader personal lower upper remaining liquidity amount_0_min amount_1_min st
      = Ok (rewards, personal', st')"
  shows "\<exists>n0 n1 o0 o1 f0 f1 s. range_changed U (- int liquidity) n0 n1 (dp_pool st) (dp_pool st') (dp_position st) (dp_position st')
     \<and> pe_liquidity personal' + liquidity = pe_liquidity personal \<and> amount_0_min \<le> n0 \<and> amount_1_min \<le> n1
     \<and> fees_claimed o0 o1 (dp_pool st) (dp_pool st')
     \<and> paid_out W (n0 + o0) f0 (n1 + o1) f1 (balance (dp_tokens st)) (balance s)
     \<and> (wa_token_program_2022 W = None \<longrightarrow> f0 = 0 \<and> f1 = 0) \<and> (remaining = [] \<longrightarrow> dp_tokens st' = s)"
  by (rule token_programs.decrease_liquidity_OkD [OF assms(1,7,4,3,2,5,6)])

theorem decrease_liquidity_pays_minima_and_covered_fees_witness:
  "\<exists>rewards personal st. decrease_liquidity uint_ref token_ref account_load_methods sample_pda 5 range_withdrawal 1 range_personal 60 60 []
      1000000 450 0 range_state = Ok (rewards, personal, st)
    \<and> pe_liquidity personal = 999000000
    \<and> (\<exists>n. 450 \<le> n \<and> table_balance (dp_tokens st) 70 = table_balance range_tokens 70 + n)"
proof -
  obtain rewards personal st where r: "decrease_liquidity uint_ref token_ref account_load_methods sample_pda 5 range_withdrawal 1 range_personal
      60 60 [] 1000000 450 0 range_state = Ok (rewards, personal, st)"
    using range_decrease by auto
  have d: "distinct_withdrawal range_withdrawal"
    by (simp add: distinct_withdrawal_def range_withdrawal_def range_tokens_def)
  have b: "0 < (1000000 :: nat)" "get_status_by_bit (dp_pool range_state) DecreaseLiquidity"
    "pp_liquidity (dp_position range_state) < 2 ^ 128" "ps_liquidity (dp_pool range_state) < 2 ^ 128"
    by (simp_all add: range_state_facts range_position_def range_pool_def sample_pool_def get_status_by_bit_def)
  have k: "tk_key (wa_recipient_token_account_0 range_withdrawal) = 70" "tk_key (wa_recipient_token_account_1 range_withdrawal) = 71"
    "tk_key (wa_token_vault_0 range_withdrawal) = 50" "tk_key (wa_token_vault_1 range_withdrawal) = 51" "wa_token_program_2022 range_withdrawal = None"
    by (simp_all add: range_withdrawal_def range_tokens_def)
  obtain n0 n1 o0 o1 s where L: "pe_liquidity personal + 1000000 = pe_liquidity range_personal" and n: "450 \<le> n0"
    and s: "paid_out range_withdrawal (n0 + o0) 0 (n1 + o1) 0 (table_balance (dp_tokens range_state)) (table_balance s)" "dp_tokens st = s"
    using decrease_liquidity_pays_minima_and_covered_fees [OF token_programs_ref d b r] k(5) by auto
  have "table_balance (dp_tokens st) 70 = table_balance range_tokens 70 + (n0 + o0)"
    using s by (simp add: paid_out_def k range_state_facts)
  moreover have "pe_liquidity personal = 999000000" using L by (simp add: range_personal_def)
  moreover have "450 \<le> n0 + o0" using n by simp
  ultimately show ?thesis using r by blast
qed

text \<open>
  C10. Rounding never pays the owner.  A liquidity that is added to a range and later taken out of
  it, at the same price and tick of the pool, gives back of each token at most what it cost and
  at most one unit less.
\<close>

theorem withdrawal_returns_deposit_within_one:
  assumes "uint_crate U" "0 < L" "L < 2 ^ 127" "ps_sqrt_price_x64 p < 2 ^ 128" "pp_liquidity pos < 2 ^ 128" "pp_liquidity pos1 < 2 ^ 128"
    and "modify_position U (int L) p pos lower upper now = Ok ((n0, n1, fl, fu), p', pos', lower', upper')"
    and "modify_position U (- int L) q pos1 lower1 upper1 later = Ok ((k0, k1, gl, gu), q', pos1', lower1', upper1')"
    and "ps_tick_current q = ps_tick_current p'" "ps_sqrt_price_x64 q = ps_sqrt_price_x64 p'"
    and "pp_tick_lower_index pos1' = pp_tick_lower_index pos'" "pp_tick_upper_index pos1' = pp_tick_upper_index pos'"
  shows "k0 \<le> n0 \<and> n0 \<le> k0 + 1 \<and> k1 \<le> n1 \<and> n1 \<le> k1 + 1"
proof -
  have d: "int L \<noteq> 0" "- int L \<noteq> 0" using assms(2) by simp_all
  note i = modify_position_effect [OF assms(7,5) d(1)] and o = modify_position_effect [OF assms(8,6) d(2)]
  have "ps_tick_current p' = ps_tick_current p" "ps_sqrt_price_x64 p' = ps_sqrt_price_x64 p"
    using i(3) by auto
  then have "get_delta_amounts_signed U (ps_tick_current p) (ps_sqrt_price_x64 p) (pp_tick_lower_index pos')
      (pp_tick_upper_index pos') (- int L) = Ok (k0, k1)"
    using o(1) by (simp add: assms(9-12))
  from uint_crate.delta_amounts_round [OF assms(1) i(1) this assms(2-4)] show ?thesis .
qed

theorem withdrawal_returns_deposit_within_one_witness:
  "\<exists>n0 n1 k0 k1 r r'. modify_position uint_ref 1000000 range_pool range_position (range_tick 0 1000000000) (range_tick 10 (- 1000000000)) 5
      = Ok ((n0, n1, False, False), r)
    \<and> modify_position uint_ref (- 1000000) range_pool range_position (range_tick 0 1000000000) (range_tick 10 (- 1000000000)) 5
      = Ok ((k0, k1, False, False), r')
    \<and> k0 \<le> n0 \<and> n0 \<le> k0 + 1"
proof -
  obtain p r l u where m: "modify_position uint_ref 1000000 range_pool range_position (range_tick 0 1000000000) (range_tick 10 (- 1000000000)) 5
       = Ok ((500, 0, False, False), p, r, l, u)" "pp_tick_lower_index r = 0" "pp_tick_upper_index r = 10"
     and p: "p = range_pool\<lparr>ps_reward_infos := ps_reward_infos p, ps_liquidity := ps_liquidity p\<rparr>"
    using range_modify [of 1000000 500] by auto
  obtain p2 r2 l2 u2 where m2: "modify_position uint_ref (- 1000000) range_pool range_position (range_tick 0 1000000000) (range_tick 10 (- 1000000000)) 5
       = Ok ((499, 0, False, False), p2, r2, l2, u2)" "pp_tick_lower_index r2 = 0" "pp_tick_upper_index r2 = 10"
    using range_modify [of "- 1000000" 499] by auto
  have same: "ps_tick_current range_pool = ps_tick_current p" "ps_sqrt_price_x64 range_pool = ps_sqrt_price_x64 p"
    by (subst p, simp)+
  have i: "modify_position uint_ref (int 1000000) range_pool range_position (range_tick 0 1000000000) (range_tick 10 (- 1000000000)) 5
       = Ok ((500, 0, False, False), p, r, l, u)"
    and o: "modify_position uint_ref (- int 1000000) range_pool range_position (range_tick 0 1000000000) (range_tick 10 (- 1000000000)) 5
       = Ok ((499, 0, False, False), p2, r2, l2, u2)"
    using m(1) m2(1) by simp_all
  have b: "0 < (1000000 :: nat)" "(1000000 :: nat) < 2 ^ 127" "ps_sqrt_price_x64 range_pool < 2 ^ 128" "pp_liquidity range_position < 2 ^ 128"
    by (simp_all add: range_pool_def range_position_def)
  have "(499 :: nat) \<le> 500 \<and> 500 \<le> 499 + (1 :: nat) \<and> 0 \<le> (0 :: nat) \<and> 0 \<le> 0 + (1 :: nat)"
    by (rule withdrawal_returns_deposit_within_one [OF uint_crate_ref b(1,2,3,4,4) i o same]) (simp_all add: m m2)
  then show ?thesis
    using m(1) m2(1) by auto
qed

end
