(* ===== verification/Pool_Rewards.thy ===== *)
theory Pool_Rewards
  imports Pool
begin

text \<open>
  What the reward operations of \<open>states/pool.rs\<close> promise: an update of a reward distributes to
  the liquidity of the pool no more than it records as emitted, moves the reward through its
  states, and cannot be made to pay more by updating more often.
\<close>

section \<open>One update of one reward\<close>

lemma div_add_bounds: "a div k + b div k \<le> (a + b) div k" "(a + b) div k \<le> a div k + b div k + (1::nat)"
proof -
  have "(a mod k + b mod k) div k \<le> 1"
  proof (cases "k = 0")
    case False
    then have "a mod k + b mod k < 2 * k"
      using mod_less_divisor [of k a] mod_less_divisor [of k b] by linarith
    then show ?thesis using False by (simp add: div_less_iff_less_mult less_Suc_eq_le flip: less_Suc_eq_le)
  qed simp
  then show "a div k + b div k \<le> (a + b) div k" "(a + b) div k \<le> a div k + b div k + 1"
    by (simp_all add: div_add1_eq [of a b k])
qed

lemma cdiv_add_bounds:
  assumes "0 < k"
  shows "cdiv (a + b) k \<le> cdiv a k + cdiv b k" "cdiv a k + cdiv b k \<le> cdiv (a + b) k + 1"
proof -
  show "cdiv (a + b) k \<le> cdiv a k + cdiv b k"
    unfolding cdiv_le_iff [OF assms] add_mult_distrib using cdiv_mult_ge [OF assms] by (rule add_mono) (rule cdiv_mult_ge [OF assms])
  have lt: "cdiv x k * k < x + k" for x
    using less_cdiv_iff [OF assms, of "cdiv x k - 1" x] assms by (cases "cdiv x k") auto
  have "(cdiv a k + cdiv b k) * k < (cdiv (a + b) k + 2) * k"
    using lt [of a] lt [of b] cdiv_mult_ge [OF assms, of "a + b"] by (simp add: add_mult_distrib)
  then have "cdiv a k + cdiv b k < cdiv (a + b) k + 2"
    by (simp only: mult_less_cancel2)
  then show "cdiv a k + cdiv b k \<le> cdiv (a + b) k + 1"
    by simp
qed

text \<open>The values of a reward record are values of their types.\<close>

definition wf_reward :: "reward_info \<Rightarrow> bool" where
  "wf_reward r \<longleftrightarrow> ri_end_time r < 2 ^ 64 \<and> ri_last_update_time r < 2 ^ 64
     \<and> ri_emissions_per_second_x64 r < 2 ^ 128 \<and> ri_reward_total_emissioned r < 2 ^ 64
     \<and> ri_reward_growth_global_x64 r < 2 ^ 128"

text \<open>An update that does something: the reward is set up and its time has come.\<close>

definition reward_due :: "reward_info \<Rightarrow> u64 \<Rightarrow> bool" where
  "reward_due r now \<longleftrightarrow> reward_initialized r \<and> ri_open_time r < now"

definition reward_clock :: "reward_info \<Rightarrow> u64 \<Rightarrow> u64" where
  "reward_clock r now = min now (ri_end_time r)"

text \<open>What the emissions amount to from the last update to \<open>now\<close>, in Q64.64.\<close>

definition emitted_x64 :: "reward_info \<Rightarrow> u64 \<Rightarrow> nat" where
  "emitted_x64 r now = (reward_clock r now - ri_last_update_time r) * ri_emissions_per_second_x64 r"

context uint_crate
begin

lemma accrue_reward_OkD:
  assumes "accrue_reward U L t r = Ok r'" "wf_reward r" "t < 2 ^ 64"
  defines "e \<equiv> (t - ri_last_update_time r) * ri_emissions_per_second_x64 r"
  shows "if L = 0 then r' = r
    else ri_last_update_time r \<le> t
      \<and> r' = r\<lparr>ri_reward_growth_global_x64 := ri_reward_growth_global_x64 r + e div L,
               ri_reward_total_emissioned := ri_reward_total_emissioned r + cdiv e (2 ^ 64)\<rparr>
      \<and> ri_reward_growth_global_x64 r + e div L < 2 ^ 128
      \<and> ri_reward_total_emissioned r + cdiv e (2 ^ 64) < 2 ^ 64"
proof (cases "L = 0")
  case True
  with assms show ?thesis by (simp add: accrue_reward_def)
next
  case False
  have "t - ri_last_update_time r < 2 ^ 128" "ri_emissions_per_second_x64 r < 2 ^ 128"
    using assms(2,3) by (auto simp: wf_reward_def)
  with False assms(1) show ?thesis
    by (auto simp: accrue_reward_def res_inv checked_sub_def checked_add_def mul_div_floor_u256_eq
        mul_div_ceil_u128_eq e_def fits_def split: if_splits)
qed

end

definition updated_reward :: "u128 \<Rightarrow> u64 \<Rightarrow> reward_info \<Rightarrow> reward_info" where
  "updated_reward L now r =
     (let t = reward_clock r now; e = (if L = 0 then 0 else emitted_x64 r now) in
      r\<lparr>ri_reward_growth_global_x64 := ri_reward_growth_global_x64 r + e div L,
        ri_reward_total_emissioned := ri_reward_total_emissioned r + cdiv e (2 ^ 64),
        ri_last_update_time := t,
        ri_reward_state := (if t < ri_end_time r then 2 else 3)\<rparr>)"

context uint_crate
begin

lemma update_reward_info_OkD:
  assumes "update_reward_info U L now r = Ok r'" "wf_reward r" "now < 2 ^ 64"
  shows "wf_reward r' \<and> (if reward_due r now
    then r' = updated_reward L now r \<and> (L = 0 \<or> ri_last_update_time r \<le> reward_clock r now)
    else r' = r)"
proof (cases "reward_due r now")
  case False
  with assms show ?thesis
    by (auto simp: update_reward_info_def reward_due_def Let_def split: if_splits)
next
  case True
  define t where "t = reward_clock r now"
  have t: "t = min now (ri_end_time r)" "t < 2 ^ 64" "t \<le> ri_end_time r"
    using assms(3) by (auto simp: t_def reward_clock_def)
  have due: "reward_initialized r" "\<not> now \<le> ri_open_time r"
    using True by (auto simp: reward_due_def)
  from assms(1) obtain q where q: "accrue_reward U L t r = Ok q"
    and r': "r' = (let q = q\<lparr>ri_last_update_time := t\<rparr> in
      if t \<ge> ri_open_time q \<and> t < ri_end_time q then q\<lparr>ri_reward_state := reward_state_as_u8 Opening\<rparr>
      else if t = ri_end_time q then q\<lparr>ri_reward_state := reward_state_as_u8 Ended\<rparr> else q)"
    using due by (auto simp: update_reward_info_def Let_def res_inv t(1) [symmetric])
  have state: "t < ri_end_time r \<Longrightarrow> ri_open_time r \<le> t" "\<not> t < ri_end_time r \<Longrightarrow> t = ri_end_time r"
    using due t by auto
  note acc = accrue_reward_OkD [OF q assms(2) t(2)]
  have ends: "ri_open_time q = ri_open_time r" "ri_end_time q = ri_end_time r"
    using acc by (auto split: if_splits)
  have r'': "r' = q\<lparr>ri_last_update_time := t, ri_reward_state := (if t < ri_end_time r then 2 else 3)\<rparr>"
    using state by (cases "t < ri_end_time r") (simp_all add: r' ends)
  have "r' = updated_reward L now r \<and> (L = 0 \<or> ri_last_update_time r \<le> reward_clock r now)"
  proof (cases "L = 0")
    case True
    then have "q = r" using acc by simp
    with True show ?thesis by (simp add: r'' updated_reward_def t_def)
  next
    case False
    then show ?thesis
      using acc unfolding r'' updated_reward_def emitted_x64_def t_def [symmetric] Let_def by simp
  qed
  moreover have "wf_reward r'"
    using acc t assms(2) unfolding r'' by (auto simp: wf_reward_def Let_def split: if_splits)
  ultimately show ?thesis using True by simp
qed

end

section \<open>Properties\<close>

text \<open>
  C39. An update of a reward that is not due changes nothing.  A due one advances its clock to
  the present or to the end of the reward, whichever is first, opens or ends it accordingly,
  and adds the emissions of the elapsed time: to the growth per liquidity rounded down, to the
  emitted total rounded up, so that what the liquidity of the pool can claim from the growth
  never exceeds what is recorded as emitted.  Without liquidity the time passes and nothing is
  emitted.
\<close>

theorem reward_update_is_covered:
  assumes "uint_crate U" "wf_reward r" "now < 2 ^ 64" "update_reward_info U L now r = Ok r'"
  shows "if \<not> reward_initialized r \<or> now \<le> ri_open_time r then r' = r
    else ri_last_update_time r' = min now (ri_end_time r)
      \<and> ri_reward_state r' = reward_state_as_u8 (if now < ri_end_time r then Opening else Ended)
      \<and> ri_reward_claimed r' = ri_reward_claimed r
      \<and> ri_reward_growth_global_x64 r \<le> ri_reward_growth_global_x64 r'
      \<and> (let growth = ri_reward_growth_global_x64 r' - ri_reward_growth_global_x64 r;
             emitted = ri_reward_total_emissioned r' - ri_reward_total_emissioned r;
             e = (ri_last_update_time r' - ri_last_update_time r) * ri_emissions_per_second_x64 r in
         if L = 0 then growth = 0 \<and> emitted = 0
         else growth * L \<le> e \<and> e < (growth + 1) * L \<and> e \<le> emitted * 2 ^ 64 \<and> emitted * 2 ^ 64 < e + 2 ^ 64
           \<and> growth * L \<le> emitted * 2 ^ 64)"
proof (cases "reward_due r now")
  case False
  with uint_crate.update_reward_info_OkD [OF assms(1,4,2,3)] show ?thesis
    by (auto simp: reward_due_def)
next
  case True
  define e where "e = emitted_x64 r now"
  have r': "r' = updated_reward L now r"
    using uint_crate.update_reward_info_OkD [OF assms(1,4,2,3)] True by simp
  have e: "(ri_last_update_time r' - ri_last_update_time r) * ri_emissions_per_second_x64 r = e"
    by (simp add: r' updated_reward_def Let_def e_def emitted_x64_def)
  have bounds: "e div L * L \<le> e" "e < (e div L + 1) * L" "e \<le> cdiv e (2 ^ 64) * 2 ^ 64"
    "cdiv e (2 ^ 64) * 2 ^ 64 < e + 2 ^ 64" "e div L * L \<le> cdiv e (2 ^ 64) * 2 ^ 64" if "L \<noteq> 0"
  proof -
    show "e div L * L \<le> e" by simp
    show "e < (e div L + 1) * L"
      using that dividend_less_div_times [of L e] by (simp add: algebra_simps)
    show c: "e \<le> cdiv e (2 ^ 64) * 2 ^ 64" by (intro cdiv_mult_ge) simp
    show "e div L * L \<le> cdiv e (2 ^ 64) * 2 ^ 64"
      by (rule order_trans [OF div_times_less_eq_dividend c])
    show "cdiv e (2 ^ 64) * 2 ^ 64 < e + 2 ^ 64"
      using less_cdiv_iff [of "2 ^ 64" "cdiv e (2 ^ 64) - 1" e] by (cases "cdiv e (2 ^ 64)") auto
  qed
  have "ri_last_update_time r' = min now (ri_end_time r)"
    "ri_reward_state r' = reward_state_as_u8 (if now < ri_end_time r then Opening else Ended)"
    "ri_reward_claimed r' = ri_reward_claimed r"
    "ri_reward_growth_global_x64 r \<le> ri_reward_growth_global_x64 r'"
    by (auto simp: r' updated_reward_def Let_def reward_clock_def)
  moreover have "ri_reward_growth_global_x64 r' - ri_reward_growth_global_x64 r = (if L = 0 then 0 else e div L)"
    "ri_reward_total_emissioned r' - ri_reward_total_emissioned r = (if L = 0 then 0 else cdiv e (2 ^ 64))"
    by (auto simp: r' updated_reward_def Let_def e_def)
  ultimately show ?thesis
    using True bounds unfolding Let_def e by (auto simp: reward_due_def)
qed


definition sample_reward :: reward_info where
  "sample_reward = (new_reward_info 9)\<lparr>ri_token_mint := 5, ri_end_time := 1000,
     ri_last_update_time := 100, ri_emissions_per_second_x64 := 3 * 2 ^ 64 + 1\<rparr>"

lemma sample_reward_wf: "wf_reward sample_reward"
  by (simp add: wf_reward_def sample_reward_def new_reward_info_def)

lemma sample_reward_update:
  "update_reward_info uint_ref 7 200 sample_reward =
     Ok (sample_reward\<lparr>ri_last_update_time := 200, ri_reward_state := 2,
       ri_reward_growth_global_x64 := (300 * 2 ^ 64 + 100) div 7, ri_reward_total_emissioned := 301\<rparr>)"
  by (simp add: update_reward_info_def accrue_reward_def sample_reward_def new_reward_info_def
      reward_initialized_def default_pubkey_def checked_sub_def checked_add_def
      uint_ref.mul_div_floor_u256_eq uint_ref.mul_div_ceil_u128_eq fits_def cdiv_def)

theorem reward_update_is_covered_witness:
  "\<exists>r'. update_reward_info uint_ref 7 200 sample_reward = Ok r' \<and> ri_reward_state r' = 2
     \<and> (ri_reward_growth_global_x64 r' - ri_reward_growth_global_x64 sample_reward) * 7
       \<le> (ri_reward_total_emissioned r' - ri_reward_total_emissioned sample_reward) * 2 ^ 64"
proof -
  obtain r' where r': "update_reward_info uint_ref 7 200 sample_reward = Ok r'"
    using sample_reward_update by blast
  have "reward_initialized sample_reward" "ri_open_time sample_reward = 0" "ri_end_time sample_reward = 1000"
    by (simp_all add: sample_reward_def reward_initialized_def default_pubkey_def new_reward_info_def)
  with reward_update_is_covered [OF uint_crate_ref sample_reward_wf _ r'] r' show ?thesis
    by (auto simp: Let_def)
qed

text \<open>
  Updating a reward more often never makes it pay more: an update at an intermediate time
  followed by one at a later time ends with the same clock and state as the later update
  alone, with a growth that is at most one unit smaller and an emitted total that is at most
  one token larger; in particular a second update at the same time changes no number.
\<close>

theorem reward_updates_split:
  assumes "uint_crate U" "wf_reward r" "s \<le> t" "t < 2 ^ 64"
    and "reward_due r s"
    and "update_reward_info U L s r = Ok r1" "update_reward_info U L t r1 = Ok r2"
    and "update_reward_info U L t r = Ok d"
  shows "ri_last_update_time r2 = ri_last_update_time d \<and> ri_reward_state r2 = ri_reward_state d
    \<and> ri_reward_growth_global_x64 r2 \<le> ri_reward_growth_global_x64 d
    \<and> ri_reward_growth_global_x64 d \<le> ri_reward_growth_global_x64 r2 + 1
    \<and> ri_reward_total_emissioned d \<le> ri_reward_total_emissioned r2
    \<and> ri_reward_total_emissioned r2 \<le> ri_reward_total_emissioned d + 1
    \<and> (s = t \<longrightarrow> r2 = r1 \<and> r1 = d)"
proof -
  note upd = uint_crate.update_reward_info_OkD [OF assms(1)]
  have s: "s < 2 ^ 64" using assms(3,4) by simp
  note u1 = upd [OF assms(6,2) s] and d = upd [OF assms(8,2,4)]
  have due: "reward_due r t" using assms(3,5) by (auto simp: reward_due_def)
  have r1: "r1 = updated_reward L s r" "wf_reward r1" using u1 assms(5) by auto
  then have due1: "reward_due r1 t"
    using due by (simp add: reward_due_def updated_reward_def Let_def reward_initialized_def)
  note u2 = upd [OF assms(7) r1(2) assms(4)]
  define c where "c = reward_clock r"
  have clock: "reward_clock r1 = c" "c s \<le> c t" "ri_last_update_time r1 = c s"
    using assms(3) by (auto simp: r1 updated_reward_def Let_def c_def reward_clock_def)
  define e1 e2 where "e1 = (if L = 0 then 0 else (c s - ri_last_update_time r) * ri_emissions_per_second_x64 r)"
    and "e2 = (if L = 0 then 0 else (c t - c s) * ri_emissions_per_second_x64 r)"
  have e: "(if L = 0 then 0 else (c t - ri_last_update_time r) * ri_emissions_per_second_x64 r) = e1 + e2"
  proof (cases "L = 0")
    case False
    then have "ri_last_update_time r \<le> c s" using u1 assms(5) by (simp add: c_def)
    then have "c t - ri_last_update_time r = (c s - ri_last_update_time r) + (c t - c s)"
      using clock(2) by simp
    then show ?thesis using False by (simp only: e1_def e2_def add_mult_distrib if_False)
  qed (simp add: e1_def e2_def)
  have d': "d = r\<lparr>ri_reward_growth_global_x64 := ri_reward_growth_global_x64 r + (e1 + e2) div L,
      ri_reward_total_emissioned := ri_reward_total_emissioned r + cdiv (e1 + e2) (2 ^ 64),
      ri_last_update_time := c t, ri_reward_state := (if c t < ri_end_time r then 2 else 3)\<rparr>"
    using d due e unfolding updated_reward_def emitted_x64_def c_def [symmetric] Let_def by simp
  have r1': "r1 = r\<lparr>ri_reward_growth_global_x64 := ri_reward_growth_global_x64 r + e1 div L,
      ri_reward_total_emissioned := ri_reward_total_emissioned r + cdiv e1 (2 ^ 64),
      ri_last_update_time := c s, ri_reward_state := (if c s < ri_end_time r then 2 else 3)\<rparr>"
    unfolding r1(1) updated_reward_def emitted_x64_def c_def [symmetric] Let_def e1_def by simp
  have em: "ri_emissions_per_second_x64 r1 = ri_emissions_per_second_x64 r" by (simp add: r1')
  have r2'': "r2 = r1\<lparr>ri_reward_growth_global_x64 := ri_reward_growth_global_x64 r1 + e2 div L,
      ri_reward_total_emissioned := ri_reward_total_emissioned r1 + cdiv e2 (2 ^ 64),
      ri_last_update_time := c t, ri_reward_state := (if c t < ri_end_time r1 then 2 else 3)\<rparr>"
    using u2 due1 unfolding updated_reward_def emitted_x64_def clock em Let_def e2_def by simp
  have r2': "r2 = r\<lparr>ri_reward_growth_global_x64 := ri_reward_growth_global_x64 r + e1 div L + e2 div L,
      ri_reward_total_emissioned := ri_reward_total_emissioned r + cdiv e1 (2 ^ 64) + cdiv e2 (2 ^ 64),
      ri_last_update_time := c t, ri_reward_state := (if c t < ri_end_time r then 2 else 3)\<rparr>"
    unfolding r2'' r1' by simp
  have div: "e1 div L + e2 div L \<le> (e1 + e2) div L" "(e1 + e2) div L \<le> e1 div L + e2 div L + 1"
    by (rule div_add_bounds)+
  have ceil: "cdiv (e1 + e2) k \<le> cdiv e1 k + cdiv e2 k" "cdiv e1 k + cdiv e2 k \<le> cdiv (e1 + e2) k + 1"
    if "0 < k" for k
    using that by (rule cdiv_add_bounds)+
  have same: "e2 = 0" if "s = t" using that by (simp add: e2_def)
  show ?thesis
    using div ceil [of "2 ^ 64"] same unfolding r1' r2' d' by simp
qed


theorem reward_updates_split_witness:
  "\<exists>r1 r2 d. update_reward_info uint_ref 7 150 sample_reward = Ok r1
     \<and> update_reward_info uint_ref 7 200 r1 = Ok r2 \<and> update_reward_info uint_ref 7 200 sample_reward = Ok d
     \<and> ri_reward_growth_global_x64 r2 \<le> ri_reward_growth_global_x64 d
     \<and> ri_reward_total_emissioned d < ri_reward_total_emissioned r2"
proof -
  note eval = update_reward_info_def accrue_reward_def sample_reward_def new_reward_info_def
      reward_initialized_def default_pubkey_def checked_sub_def checked_add_def
      uint_ref.mul_div_floor_u256_eq uint_ref.mul_div_ceil_u128_eq fits_def cdiv_def
  have "\<exists>r1. update_reward_info uint_ref 7 150 sample_reward = Ok r1 \<and>
      (\<exists>r2. update_reward_info uint_ref 7 200 r1 = Ok r2 \<and> ri_reward_total_emissioned r2 = 302)"
    by (simp add: eval)
  then obtain r1 r2 where r: "update_reward_info uint_ref 7 150 sample_reward = Ok r1"
    "update_reward_info uint_ref 7 200 r1 = Ok r2" "ri_reward_total_emissioned r2 = 302" by blast
  obtain d where d: "update_reward_info uint_ref 7 200 sample_reward = Ok d" "ri_reward_total_emissioned d = 301"
    using sample_reward_update by simp
  have "reward_due sample_reward 150"
    by (simp add: reward_due_def sample_reward_def new_reward_info_def reward_initialized_def default_pubkey_def)
  with reward_updates_split [OF uint_crate_ref sample_reward_wf _ _ _ r(1,2) d(1)] r d show ?thesis
    by auto
qed

section \<open>Setting up rewards\<close>

lemma position_Some: "position P xs = Some k \<longleftrightarrow> k < length xs \<and> P (xs ! k) \<and> (\<forall>i < k. \<not> P (xs ! i))"
proof (induction xs arbitrary: k)
  case (Cons x xs)
  show ?case
  proof (cases "P x")
    case True
    then show ?thesis by (cases k) auto
  next
    case False
    then show ?thesis using Cons.IH by (cases k) (auto simp: less_Suc_eq_0_disj)
  qed
qed simp

text \<open>The rewards in use are the first ones, and no two of them pay the same token.\<close>

definition rewards_in_order :: "pool_state \<Rightarrow> bool" where
  "rewards_in_order p \<longleftrightarrow> length (ps_reward_infos p) = REWARD_NUM
     \<and> (\<forall>i j. i \<le> j \<and> j < REWARD_NUM \<and> reward_initialized (ps_reward_infos p ! j)
          \<longrightarrow> reward_initialized (ps_reward_infos p ! i))
     \<and> (\<forall>i j. i < j \<and> j < REWARD_NUM \<and> reward_initialized (ps_reward_infos p ! j)
          \<longrightarrow> ri_token_mint (ps_reward_infos p ! i) \<noteq> ri_token_mint (ps_reward_infos p ! j))"

text \<open>
  Setting up a reward keeps the rewards in order: it takes the first free slot, refuses a
  token that another reward of the pool already pays and a fourth reward, leaves the other
  slots and the rest of the pool alone, and gives the last slot only to the administrator or an
  operation owner; in the second slot, when neither pool token is a reward yet, only a pool
  token or a whitelisted token is accepted.
\<close>

theorem initialize_reward_keeps_order:
  assumes "rewards_in_order p" "token_mint \<noteq> default_pubkey"
    and "pool_initialize_reward p open_time end_time rate token_mint vault authority ops = Ok p'"
  shows "rewards_in_order p' \<and> (\<exists>k < REWARD_NUM.
      \<not> reward_initialized (ps_reward_infos p ! k) \<and> reward_initialized (ps_reward_infos p' ! k)
      \<and> (\<forall>i < k. reward_initialized (ps_reward_infos p ! i) \<and> ri_token_mint (ps_reward_infos p ! i) \<noteq> token_mint)
      \<and> (\<forall>i < REWARD_NUM. i \<noteq> k \<longrightarrow> ps_reward_infos p' ! i = ps_reward_infos p ! i)
      \<and> p' = p\<lparr>ps_reward_infos := ps_reward_infos p'\<rparr>
      \<and> (k = 2 \<longrightarrow> authority = admin_id \<or> validate_operation_owner ops authority)
      \<and> (k = 1 \<and> ri_token_mint (ps_reward_infos p ! 0) \<notin> {ps_token_mint_0 p, ps_token_mint_1 p}
            \<and> default_pubkey \<notin> {ps_token_mint_0 p, ps_token_mint_1 p}
          \<longrightarrow> token_mint \<in> {ps_token_mint_0 p, ps_token_mint_1 p} \<union> set (os_whitelist_mints ops)))"
proof -
  let ?rs = "ps_reward_infos p"
  obtain k where pos: "position (\<lambda>r. \<not> reward_initialized r) ?rs = Some k"
    using assms(3) by (auto simp: pool_initialize_reward_def Let_def split: option.splits)
  have len: "length ?rs = REWARD_NUM" using assms(1) by (simp add: rewards_in_order_def)
  have k: "k < REWARD_NUM" "\<not> reward_initialized (?rs ! k)" "\<And>i. i < k \<Longrightarrow> reward_initialized (?rs ! i)"
    using pos unfolding position_Some len by auto
  define r where "r = (?rs ! k)\<lparr>ri_last_update_time := open_time, ri_open_time := open_time,
      ri_end_time := end_time, ri_emissions_per_second_x64 := rate, ri_token_mint := token_mint,
      ri_token_vault := vault, ri_authority := authority\<rparr>"
  from assms(3) k pos have fresh: "token_mint \<notin> ri_token_mint ` set ?rs"
    and p': "p' = p\<lparr>ps_reward_infos := ?rs[k := r]\<rparr>"
    and guard: "k = 1 \<Longrightarrow> ps_token_mint_0 p \<notin> ri_token_mint ` set ?rs \<Longrightarrow> ps_token_mint_1 p \<notin> ri_token_mint ` set ?rs
      \<Longrightarrow> token_mint \<in> {ps_token_mint_0 p, ps_token_mint_1 p} \<union> set (os_whitelist_mints ops)"
      "k = 2 \<Longrightarrow> authority = admin_id \<or> validate_operation_owner ops authority"
    by (auto simp: pool_initialize_reward_def Let_def res_inv r_def REWARD_NUM_def split: if_splits)
  have init: "reward_initialized r" using assms(2) by (simp add: r_def reward_initialized_def)
  have later: "\<not> reward_initialized (?rs ! j)" if "k \<le> j" "j < REWARD_NUM" for j
    using assms(1) k(2) that by (auto simp: rewards_in_order_def)
  have mint: "ri_token_mint (?rs ! i) \<noteq> token_mint" if "i < REWARD_NUM" for i
    using fresh that len by auto
  have nth: "?rs[k := r] ! i = (if i = k then r else ?rs ! i)" if "i < REWARD_NUM" for i
    using that len by simp
  have order: "rewards_in_order p'"
    unfolding rewards_in_order_def
  proof (intro conjI allI impI)
    show "length (ps_reward_infos p') = REWARD_NUM" using len by (simp add: p')
  next
    fix i j assume "i \<le> j \<and> j < REWARD_NUM \<and> reward_initialized (ps_reward_infos p' ! j)"
    then show "reward_initialized (ps_reward_infos p' ! i)"
      using later [of j] k init by (auto simp: p' nth split: if_splits) (metis linorder_neqE_nat not_le order_le_less_trans)
  next
    fix i j assume ij: "i < j \<and> j < REWARD_NUM \<and> reward_initialized (ps_reward_infos p' ! j)"
    then have "j \<le> k" using later [of j] by (cases "k \<le> j") (auto simp: p' nth split: if_splits)
    moreover have "ri_token_mint r = token_mint" by (simp add: r_def)
    ultimately show "ri_token_mint (ps_reward_infos p' ! i) \<noteq> ri_token_mint (ps_reward_infos p' ! j)"
      using ij mint assms(1) k by (auto simp: p' nth rewards_in_order_def)
  qed
  have second: "token_mint \<in> {ps_token_mint_0 p, ps_token_mint_1 p} \<union> set (os_whitelist_mints ops)"
    if "k = 1" "ri_token_mint (?rs ! 0) \<notin> {ps_token_mint_0 p, ps_token_mint_1 p}"
      "default_pubkey \<notin> {ps_token_mint_0 p, ps_token_mint_1 p}"
  proof (rule guard(1) [OF that(1)])
    have "ri_token_mint (?rs ! i) \<notin> {ps_token_mint_0 p, ps_token_mint_1 p}" if "i < REWARD_NUM" for i
      using that \<open>k = 1\<close> later [of i] \<open>ri_token_mint (?rs ! 0) \<notin> _\<close> \<open>default_pubkey \<notin> _\<close>
      by (cases "i = 0") (auto simp: reward_initialized_def)
    then show "ps_token_mint_0 p \<notin> ri_token_mint ` set ?rs" "ps_token_mint_1 p \<notin> ri_token_mint ` set ?rs"
      using len by (auto simp: in_set_conv_nth) (metis insertI1 insertI2)+
  qed
  show ?thesis
  proof (intro conjI exI [of _ k] order)
    show "k < REWARD_NUM" "\<not> reward_initialized (?rs ! k)" by (fact k)+
    show "reward_initialized (ps_reward_infos p' ! k)" using init k(1) len by (simp add: p')
  qed (use k mint guard(2) second in \<open>auto simp: p' nth\<close>)
qed


theorem initialize_reward_keeps_order_witness:
  "\<exists>p'. pool_initialize_reward (default_pool\<lparr>ps_token_mint_0 := 3, ps_token_mint_1 := 4\<rparr>) 10 20 5 7 8 9
       (operation_initialize \<lparr>os_bump = 0, os_operation_owners = [], os_whitelist_mints = []\<rparr> 0) = Ok p'
     \<and> rewards_in_order p'"
proof -
  let ?p = "default_pool\<lparr>ps_token_mint_0 := 3, ps_token_mint_1 := 4\<rparr>"
  let ?o = "operation_initialize \<lparr>os_bump = 0, os_operation_owners = [], os_whitelist_mints = []\<rparr> 0"
  have free: "\<not> reward_initialized (new_reward_info default_pubkey)"
    by (simp add: reward_initialized_def new_reward_info_def)
  have order: "rewards_in_order ?p"
    using free by (auto simp: rewards_in_order_def default_pool_def)
  have "\<exists>p'. pool_initialize_reward ?p 10 20 5 7 8 9 ?o = Ok p'"
    using free by (simp add: pool_initialize_reward_def default_pool_def REWARD_NUM_def Let_def
        numeral_3_eq_3 new_reward_info_def default_pubkey_def)
  then obtain p' where p': "pool_initialize_reward ?p 10 20 5 7 8 9 ?o = Ok p'" by blast
  with initialize_reward_keeps_order [OF order _ p'] show ?thesis
    by (auto simp: default_pubkey_def)
qed

section \<open>Status bits\<close>

lemma and_single_bit: "(x::nat) AND (1 * 2 ^ k mod 2 ^ 8) = 0 \<longleftrightarrow> \<not> bit x k" if "k < 8"
proof -
  have "1 * 2 ^ k mod 2 ^ 8 = (2 ^ k :: nat)"
    using that by (simp only: mult_1 mod_less power_strict_increasing_iff)
  then show ?thesis using and_exp_eq(1) [of x k] by (simp del: bot_nat_0.not_eq_extremum neq0_conv) blast
qed

lemma status_bit_less: "status_bit_as_u8 b < 8" "status_bit_as_u8 b = status_bit_as_u8 b' \<longleftrightarrow> b = b'"
  by (cases b; cases b'; simp)+

lemma get_status_eq: "get_status_by_bit p b \<longleftrightarrow> \<not> bit (ps_status p) (status_bit_as_u8 b)"
  by (simp add: get_status_by_bit_def Let_def and_single_bit [OF status_bit_less(1), simplified])

text \<open>
  The status bits are independent switches: after a bit is set to enabled or disabled it
  reads back as that, every other bit reads as before, and nothing else of the pool changes.
\<close>

theorem status_bits_roundtrip:
  "get_status_by_bit (set_status_by_bit p b flag) b' =
     (if b' = b then flag = Enable else get_status_by_bit p b')
   \<and> set_status_by_bit p b flag = p\<lparr>ps_status := ps_status (set_status_by_bit p b flag)\<rparr>"
proof -
  let ?k = "status_bit_as_u8 b" and ?j = "status_bit_as_u8 b'"
  have one: "1 * 2 ^ ?k mod 2 ^ 8 = (2 ^ ?k :: nat)"
    using status_bit_less(1) [of b] by (simp only: mult_1 mod_less power_strict_increasing_iff)
  have "bit (255 :: nat) ?j"
    by (cases b') (simp_all add: bit_nat_def)
  then have "bit (ps_status (set_status_by_bit p b flag)) ?j \<longleftrightarrow>
      (if b' = b then flag = Disable else bit (ps_status p) ?j)"
    unfolding set_status_by_bit_def Let_def one
    by (auto simp: bit_or_iff bit_and_iff bit_xor_iff bit_exp_iff status_bit_less(2))
  moreover have "flag = Enable \<longleftrightarrow> flag \<noteq> Disable"
    by (cases flag) simp_all
  moreover have "set_status_by_bit p b flag = p\<lparr>ps_status := ps_status (set_status_by_bit p b flag)\<rparr>"
    by (simp add: set_status_by_bit_def Let_def)
  ultimately show ?thesis
    by (simp add: get_status_eq)
qed

end
