(* ===== verification/Liveness.thy ===== *)
theory Liveness
  imports Position_Properties Pool_Rewards
begin

text \<open>
  Liquidity can be taken out: the conditions under which \<open>modify_position\<close> with a negative delta
  succeeds, and the invariant of the growth accumulators that they rest on.
\<close>

section \<open>Growth outside a tick is never above the growth of the pool\<close>

definition growth_within :: "u128 \<Rightarrow> u128 \<Rightarrow> reward_info list \<Rightarrow> tick_state \<Rightarrow> bool" where
  "growth_within g0 g1 rs T \<longleftrightarrow>
     ts_fee_growth_outside_0_x64 T \<le> g0 \<and> ts_fee_growth_outside_1_x64 T \<le> g1
     \<and> list_all2 (\<lambda>r x. x \<le> ri_reward_growth_global_x64 r) rs (ts_reward_growths_outside_x64 T)"

text \<open>The accumulators of the pool only grow.\<close>

definition rewards_grown :: "reward_info list \<Rightarrow> reward_info list \<Rightarrow> bool" where
  "rewards_grown = list_all2 (\<lambda>r r'. ri_reward_growth_global_x64 r \<le> ri_reward_growth_global_x64 r')"

lemma growth_within_mono:
  assumes "growth_within g0 g1 rs T" "g0 \<le> h0" "g1 \<le> h1" "rewards_grown rs rs'"
  shows "growth_within h0 h1 rs' T"
proof -
  have "list_all2 (\<lambda>r x. x \<le> ri_reward_growth_global_x64 r) rs' (ts_reward_growths_outside_x64 T)"
    using assms(1,4) unfolding growth_within_def rewards_grown_def list_all2_conv_all_nth
    by (metis order_trans)
  with assms show ?thesis by (auto simp: growth_within_def)
qed

lemma update_reward_info_grows:
  "update_reward_info U liq t r = Ok r' \<Longrightarrow> ri_reward_growth_global_x64 r \<le> ri_reward_growth_global_x64 r'"
  by (auto simp: update_reward_info_def accrue_reward_def Let_def checked_add_def res_inv split: if_splits)

lemma update_reward_infos_grow:
  assumes "update_reward_infos U p t = Ok (rs, q)"
  shows "rewards_grown (ps_reward_infos p) rs"
proof -
  have "update_reward_infos_loop U liq t rs0 = Ok rs1 \<Longrightarrow> rewards_grown rs0 rs1" for liq rs0 rs1
    by (induction rs0 arbitrary: rs1) (auto simp: rewards_grown_def res_inv update_reward_info_grows)
  with assms show ?thesis by (auto simp: update_reward_infos_def res_inv)
qed

text \<open>The operations on a tick keep the invariant.\<close>

lemma growth_within_tick_update:
  assumes "growth_within g0 g1 rs T" "ts_liquidity_gross T < 2 ^ 128" "tick_update T cur d g0 g1 upper rs = Ok (f, T')"
  shows "growth_within g0 g1 rs T'"
proof (cases "ts_liquidity_gross T = 0 \<and> ts_tick T \<le> cur")
  case True
  have "list_all2 (\<lambda>r x. x \<le> ri_reward_growth_global_x64 r) rs (get_reward_growths rs)"
    by (auto simp: get_reward_growths_def list_all2_conv_all_nth)
  with tick_update_OkD(6) [OF assms(2,3) True] show ?thesis by (simp add: growth_within_def)
next
  case False
  with tick_update_OkD(7) [OF assms(2,3)] assms(1) show ?thesis by (simp add: growth_within_def)
qed

lemma growth_within_tick_clear:
  assumes "growth_within g0 g1 rs T" "length rs = REWARD_NUM"
  shows "growth_within g0 g1 rs (tick_clear T)"
  using assms by (auto simp: growth_within_def tick_clear_def list_all2_conv_all_nth)

lemma cross_rewards_within:
  assumes "list_all2 (\<lambda>r x. x \<le> ri_reward_growth_global_x64 r) rs gs"
  shows "\<exists>hs. cross_rewards rs gs = Ok hs \<and> list_all2 (\<lambda>r x. x \<le> ri_reward_growth_global_x64 r) rs hs"
  using assms by (induction rs gs rule: list_all2_induct) (auto simp: checked_sub_def)

lemma tick_cross_succeeds:
  assumes "growth_within g0 g1 rs T"
  shows "\<exists>T'. tick_cross T g0 g1 rs = Ok (ts_liquidity_net T, T') \<and> growth_within g0 g1 rs T'"
proof -
  obtain hs where hs: "cross_rewards rs (ts_reward_growths_outside_x64 T) = Ok hs"
    "list_all2 (\<lambda>r x. x \<le> ri_reward_growth_global_x64 r) rs hs"
    using cross_rewards_within assms by (auto simp: growth_within_def)
  then show ?thesis
    using assms by (simp add: tick_cross_def growth_within_def checked_sub_def)
qed

section \<open>The growth inside a range is defined\<close>

lemma fee_growth_inside_succeeds:
  "growth_within g0 g1 rs lower \<Longrightarrow> growth_within g0 g1 rs upper \<Longrightarrow>
   \<exists>x y. get_fee_growth_inside lower upper cur g0 g1 = Ok (x, y) \<and> x < 2 ^ 128 \<and> y < 2 ^ 128"
  unfolding get_fee_growth_inside_eq growth_within_def inside_value_def
  by (auto simp: nat_less_iff)

lemma reward_growths_inside_succeed:
  assumes "growth_within g0 g1 rs lower" "growth_within g0 g1 rs upper"
  shows "\<exists>gs. get_reward_growths_inside lower upper cur rs = Ok gs"
proof -
  have "\<exists>gs. reward_growths_inside_loop l u cur rs xs ys = Ok gs"
    if "list_all2 (\<lambda>r x. x \<le> ri_reward_growth_global_x64 r) rs xs"
      "list_all2 (\<lambda>r x. x \<le> ri_reward_growth_global_x64 r) rs ys" for l u xs ys
    using that
  proof (induction rs xs arbitrary: ys rule: list_all2_induct)
    case (Cons r rs x xs)
    then obtain y zs where "ys = y # zs" "y \<le> ri_reward_growth_global_x64 r"
      "list_all2 (\<lambda>r x. x \<le> ri_reward_growth_global_x64 r) rs zs"
      by (auto simp: list_all2_Cons1)
    moreover obtain gs where "reward_growths_inside_loop l u cur rs xs zs = Ok gs"
      using Cons.IH calculation(3) by blast
    ultimately show ?case
      using Cons.hyps by (simp add: reward_growth_inside_eq Let_def)
  qed simp
  with assms show ?thesis
    by (simp add: get_reward_growths_inside_def growth_within_def)
qed

lemma fee_growth_inside_frame [simp]:
  "get_fee_growth_inside (T\<lparr>ts_liquidity_gross := a, ts_liquidity_net := b\<rparr>)
     (T'\<lparr>ts_liquidity_gross := c, ts_liquidity_net := d\<rparr>) cur g0 g1 = get_fee_growth_inside T T' cur g0 g1"
  by (simp add: get_fee_growth_inside_eq)

section \<open>The worth of a little liquidity fits\<close>

lemma delta_amounts_small:
  assumes "uint_crate U" "0 < n" "n < 2 ^ 32" "l \<in> ticks" "u \<in> ticks"
    and "MIN_SQRT_PRICE_X64 \<le> P" "P \<le> MAX_SQRT_PRICE_X64"
  shows "\<exists>a0 a1. get_delta_amounts_signed U cur P l u (- int n) = Ok (a0, a1)"
proof -
  have one: "\<exists>x. get_delta_amount_1_signed U a b (- int n) = Ok x"
    and zero: "\<exists>x. get_delta_amount_0_signed U a b (- int n) = Ok x"
    if ab: "MIN_SQRT_PRICE_X64 \<le> a" "a \<le> MAX_SQRT_PRICE_X64" "MIN_SQRT_PRICE_X64 \<le> b" "b \<le> MAX_SQRT_PRICE_X64" for a b
  proof -
    define lo hi where "lo = min a b" and "hi = max a b"
    have lohi: "2 ^ 32 \<le> lo" "hi < 2 ^ 96" "lo \<le> hi" "0 < lo" "0 < hi"
      using ab by (auto simp: lo_def hi_def MIN_SQRT_PRICE_X64_def MAX_SQRT_PRICE_X64_def)
    have d: "hi - lo < 2 ^ 96" using lohi by simp
    have chk: "chk_i 128 (int n) = Ok (int n)" using assms(3) by (simp add: chk_i_def)
    have "n * (hi - lo) < 2 ^ 32 * 2 ^ 96"
      by (rule mult_strict_mono) (use assms(3) d lohi in auto)
    then have "amount_1_of a b n False < 2 ^ 64"
      by (simp add: amount_1_of_def Let_def lo_def [symmetric] hi_def [symmetric] div_less_iff_less_mult)
    then show "\<exists>x. get_delta_amount_1_signed U a b (- int n) = Ok x"
      using assms ab chk uint_crate.get_delta_amount_1_unsigned_eq [OF assms(1), of a b n False]
      by (simp add: get_delta_amount_1_signed_def MAX_SQRT_PRICE_X64_def)
    define N where "N = n * 2 ^ 64 * (hi - lo)"
    have "N \<le> n * 2 ^ 64 * hi" by (simp add: N_def)
    then have "N div hi \<le> n * 2 ^ 64" using lohi by (metis div_le_mono nonzero_mult_div_cancel_right less_irrefl)
    moreover have "n * 2 ^ 64 < 2 ^ 64 * 2 ^ 32" using assms(3) by simp
    ultimately have q: "N div hi < 2 ^ 64 * 2 ^ 32" by (rule order_le_less_trans)
    have "2 ^ 64 * 2 ^ 32 \<le> (2 ^ 64 * lo :: nat)" using lohi by simp
    with q have "N div hi < 2 ^ 64 * lo" by (rule order_less_le_trans)
    then have "N div hi div lo < 2 ^ 64" using lohi by (simp add: div_less_iff_less_mult)
    moreover have "amount_0_of a b n False = N div hi div lo"
      by (simp only: amount_0_of_def Let_def lo_def [symmetric] hi_def [symmetric] N_def [symmetric] if_False
          div_mult2_eq [symmetric] mult.commute [of lo hi])
    ultimately have am: "amount_0_of a b n False < 2 ^ 64" by simp
    have "n * 2 ^ 64 * (hi - lo) < (2 ^ 32 * 2 ^ 64) * 2 ^ 96"
      by (rule mult_strict_mono) (use assms(3) d in auto)
    then have "N < 2 ^ 256" by (simp add: N_def)
    moreover have "N div hi < 2 ^ 128" using q by simp
    moreover have "n < 2 ^ 128" using assms(3) by simp
    ultimately have "get_delta_amount_0_unsigned U a b n False = Ok (amount_0_of a b n False)"
      using am lohi(4) unfolding uint_crate.get_delta_amount_0_unsigned_eq [OF assms(1) \<open>n < 2 ^ 128\<close>]
        lo_def [symmetric] hi_def [symmetric] N_def [symmetric] by simp
    then show "\<exists>x. get_delta_amount_0_signed U a b (- int n) = Ok x"
      using assms(2) chk by (simp add: get_delta_amount_0_signed_def)
  qed
  have t: "get_sqrt_price_at_tick U l = Ok (price_at l)" "get_sqrt_price_at_tick U u = Ok (price_at u)"
    using assms(1,4,5) by (simp_all add: uint_crate.get_sqrt_price_at_tick_Ok ticks_def)
  have b: "MIN_SQRT_PRICE_X64 \<le> price_at l" "price_at l \<le> MAX_SQRT_PRICE_X64"
    "MIN_SQRT_PRICE_X64 \<le> price_at u" "price_at u \<le> MAX_SQRT_PRICE_X64"
    using assms(4,5) price_at_bounds by (simp_all add: ticks_def)
  show ?thesis
    using one [OF b] zero [OF b] one [OF b(1,2) assms(6,7)] zero [OF assms(6,7) b(3,4)]
    by (auto simp: get_delta_amounts_signed_def t)
qed

section \<open>Taking liquidity out\<close>

text \<open>The fees that a range accrues fit into the counters of its position.\<close>

definition fees_fit :: "protocol_position \<Rightarrow> u128 \<Rightarrow> u128 \<Rightarrow> bool" where
  "fees_fit pos x y \<longleftrightarrow>
     pp_token_fees_owed_0 pos + (x - pp_fee_growth_inside_0_last_x64 pos) * pp_liquidity pos div 2 ^ 64 < 2 ^ 64
     \<and> pp_token_fees_owed_1 pos + (y - pp_fee_growth_inside_1_last_x64 pos) * pp_liquidity pos div 2 ^ 64 < 2 ^ 64"

lemma tokens_owed_succeeds:
  assumes "uint_crate U" "x < 2 ^ 128" "liq < 2 ^ 128" "owed + (x - g) * liq div 2 ^ 64 < 2 ^ 64"
  shows "\<exists>m. protocol_tokens_owed U x g liq = Ok m \<and> owed + m < 2 ^ 64"
proof -
  define d where "d = x - g"
  have d: "d < 2 ^ 128" using assms(2) by (simp add: d_def less_imp_diff_less)
  have "mul_div_floor_u128 U d liq Q64 = Ok (fits 128 (d * liq div Q64))"
    using uint_crate.mul_div_floor_u128_eq [OF assms(1) d assms(3), of Q64] by (simp add: Q64_def)
  moreover have "owed + d * liq div Q64 < 2 ^ 64" using assms(4) by (simp add: d_def Q64_def)
  moreover have "saturating_sub x g = d" by (simp add: d_def saturating_sub_def)
  ultimately show ?thesis
    by (auto simp: protocol_tokens_owed_def fits_def uint_crate.to_underflow_u64_eq [OF assms(1)])
qed

lemma protocol_position_update_succeeds:
  assumes "uint_crate U" "l \<in> ticks" "u \<in> ticks" "0 < n" "n \<le> pp_liquidity pos" "n < 2 ^ 127" "pp_liquidity pos < 2 ^ 128"
    and "x < 2 ^ 128" "y < 2 ^ 128" "fees_fit pos x y"
  shows "\<exists>pos'. protocol_position_update U pos l u (- int n) x y gs = Ok pos'"
proof -
  obtain m0 m1 where m: "protocol_tokens_owed U x (pp_fee_growth_inside_0_last_x64 pos) (pp_liquidity pos) = Ok m0"
    "pp_token_fees_owed_0 pos + m0 < 2 ^ 64"
    "protocol_tokens_owed U y (pp_fee_growth_inside_1_last_x64 pos) (pp_liquidity pos) = Ok m1"
    "pp_token_fees_owed_1 pos + m1 < 2 ^ 64"
    using tokens_owed_succeeds [OF assms(1,8,7)] tokens_owed_succeeds [OF assms(1,9,7)] assms(10)
    unfolding fees_fit_def by metis
  have "add_delta (pp_liquidity pos) (- int n) = Ok (pp_liquidity pos - n)"
    using assms(5,6,7) by (simp add: add_delta_eq_Ok_iff)
  then show ?thesis
    using assms(2,3,4) m by (simp add: protocol_position_update_def ticks_def checked_add_def Let_def)
qed

lemma tick_update_succeeds:
  assumes "0 < n" "n \<le> ts_liquidity_gross T" "n < 2 ^ 127" "ts_liquidity_gross T < 2 ^ 128"
    and "\<bar>if upper then ts_liquidity_net T + int n else ts_liquidity_net T - int n\<bar> < 2 ^ 127"
  shows "tick_update T cur (- int n) g0 g1 upper rs = Ok (n = ts_liquidity_gross T,
    T\<lparr>ts_liquidity_gross := ts_liquidity_gross T - n,
      ts_liquidity_net := (if upper then ts_liquidity_net T + int n else ts_liquidity_net T - int n)\<rparr>)"
proof -
  have "add_delta (ts_liquidity_gross T) (- int n) = Ok (ts_liquidity_gross T - n)"
    using assms(2,3,4) by (simp add: add_delta_eq_Ok_iff)
  then show ?thesis
    using assms(1,2,5) unfolding tick_update_eq by (auto simp: unwrap_i128_def chk_i_def)
qed

section \<open>Updating the rewards once more\<close>

lemma update_reward_info_again:
  assumes "uint_crate U" "wf_reward r" "now < 2 ^ 64" "update_reward_info U liq now r = Ok r'" "liq' < 2 ^ 128"
  shows "\<exists>r''. update_reward_info U liq' now r' = Ok r'' \<and> ri_reward_growth_global_x64 r'' = ri_reward_growth_global_x64 r'"
proof (cases "reward_due r now")
  case False
  then have "r' = r" "\<not> reward_initialized r' \<or> now \<le> ri_open_time r'"
    using uint_crate.update_reward_info_OkD [OF assms(1,4,2,3)] by (auto simp: reward_due_def)
  then show ?thesis by (auto simp: update_reward_info_def)
next
  case True
  have wf: "wf_reward r'" and r': "r' = updated_reward liq now r"
    using uint_crate.update_reward_info_OkD [OF assms(1,4,2,3)] True by auto
  have f: "ri_last_update_time r' = min now (ri_end_time r')" "reward_initialized r'" "\<not> now \<le> ri_open_time r'"
    using True by (auto simp: r' updated_reward_def Let_def reward_clock_def reward_due_def reward_initialized_def)
  have "mul_div_floor_u256 U 0 (ri_emissions_per_second_x64 r') liq' = Ok (Some 0)" if "liq' \<noteq> 0"
    using assms(5) wf that uint_crate.mul_div_floor_u256_eq [OF assms(1), where x = 0 and num = "ri_emissions_per_second_x64 r'" and denom = liq']
    by (simp add: fits_def wf_reward_def)
  moreover have "mul_div_ceil_u128 U 0 (ri_emissions_per_second_x64 r') Q64 = Ok (Some 0)"
    using wf uint_crate.mul_div_ceil_u128_eq [OF assms(1), of 0 "ri_emissions_per_second_x64 r'" Q64]
    by (simp add: fits_def wf_reward_def Q64_def)
  moreover have "ri_reward_growth_global_x64 r' < 2 ^ 128" "ri_reward_total_emissioned r' < 2 ^ 64"
    using wf by (simp_all add: wf_reward_def)
  ultimately have "\<exists>i. accrue_reward U liq' (min now (ri_end_time r')) r' = Ok i
      \<and> ri_reward_growth_global_x64 i = ri_reward_growth_global_x64 r'"
    using f(1) by (auto simp: accrue_reward_def checked_sub_def checked_add_def
        uint_crate.u_as_u128 [OF assms(1)] uint_crate.u_as_u64 [OF assms(1)])
  then show ?thesis
    using f(2,3) by (auto simp: update_reward_info_def Let_def)
qed

lemma update_reward_infos_again:
  assumes "uint_crate U" "list_all wf_reward (ps_reward_infos p)" "now < 2 ^ 64" "update_reward_infos U p now = Ok (rs, q)"
    and "liq < 2 ^ 128"
  shows "list_all wf_reward rs"
    and "\<exists>rs'. update_reward_infos_loop U liq now rs = Ok rs'
      \<and> map ri_reward_growth_global_x64 rs' = map ri_reward_growth_global_x64 rs"
proof -
  have "list_all wf_reward rs1 \<and> (\<exists>rs2. update_reward_infos_loop U liq now rs1 = Ok rs2
      \<and> map ri_reward_growth_global_x64 rs2 = map ri_reward_growth_global_x64 rs1)"
    if "update_reward_infos_loop U l0 now rs0 = Ok rs1" "list_all wf_reward rs0" for l0 rs0 rs1
    using that
  proof (induction rs0 arbitrary: rs1)
    case (Cons r rs0)
    then obtain r' rs' where r: "update_reward_info U l0 now r = Ok r'" "update_reward_infos_loop U l0 now rs0 = Ok rs'"
      "rs1 = r' # rs'" by (auto simp: res_inv)
    from Cons.IH [OF r(2)] Cons.prems obtain rs2 where rs2: "list_all wf_reward rs'"
      "update_reward_infos_loop U liq now rs' = Ok rs2"
      "map ri_reward_growth_global_x64 rs2 = map ri_reward_growth_global_x64 rs'" by auto
    have "wf_reward r" using Cons.prems by simp
    from update_reward_info_again [OF assms(1) this assms(3) r(1) assms(5)] obtain r2 where
      r2: "update_reward_info U liq now r' = Ok r2" "ri_reward_growth_global_x64 r2 = ri_reward_growth_global_x64 r'" by blast
    have "wf_reward r'"
      using uint_crate.update_reward_info_OkD [OF assms(1) r(1) \<open>wf_reward r\<close> assms(3)] by blast
    with r2 rs2 show ?case by (simp add: r(3))
  qed simp
  moreover obtain l0 where "update_reward_infos_loop U l0 now (ps_reward_infos p) = Ok rs"
    using assms(4) by (auto simp: update_reward_infos_def res_inv)
  ultimately show "list_all wf_reward rs" "\<exists>rs'. update_reward_infos_loop U liq now rs = Ok rs'
      \<and> map ri_reward_growth_global_x64 rs' = map ri_reward_growth_global_x64 rs"
    using assms(2) by blast+
qed

section \<open>One withdrawal\<close>

text \<open>
  The ledger is represented, the accumulators are in order, the rewards can be updated at this time
  and the fees fit.
\<close>

definition range_ready ::
  "uint_lib \<Rightarrow> u64 \<Rightarrow> ledger \<Rightarrow> int \<Rightarrow> int \<Rightarrow> pool_state \<Rightarrow> protocol_position \<Rightarrow> tick_state \<Rightarrow> tick_state \<Rightarrow> bool" where
  "range_ready U now L l u p pos lower upper \<longleftrightarrow>
     wf_ledger L \<and> l \<in> ticks \<and> u \<in> ticks \<and> l < u \<and> gross_at L l < 2 ^ 127 \<and> gross_at L u < 2 ^ 127
     \<and> tick_represents L l lower \<and> tick_represents L u upper \<and> pool_represents L p \<and> pp_liquidity pos = L (l, u)
     \<and> ps_liquidity p < 2 ^ 128 \<and> MIN_SQRT_PRICE_X64 \<le> ps_sqrt_price_x64 p \<and> ps_sqrt_price_x64 p \<le> MAX_SQRT_PRICE_X64
     \<and> growth_within (ps_fee_growth_global_0_x64 p) (ps_fee_growth_global_1_x64 p) (ps_reward_infos p) lower
     \<and> growth_within (ps_fee_growth_global_0_x64 p) (ps_fee_growth_global_1_x64 p) (ps_reward_infos p) upper
     \<and> length (ps_reward_infos p) = REWARD_NUM \<and> list_all wf_reward (ps_reward_infos p)
     \<and> is_Ok (update_reward_infos U p now)
     \<and> (\<forall>x y. get_fee_growth_inside lower upper (ps_tick_current p) (ps_fee_growth_global_0_x64 p)
          (ps_fee_growth_global_1_x64 p) = Ok (x, y) \<longrightarrow> fees_fit pos x y)"

lemma ledger_entry_le:
  assumes "l \<in> ticks" "u \<in> ticks"
  shows "L (l, u) \<le> starting_at L l" "L (l, u) \<le> ending_at L u"
    "l \<le> t \<Longrightarrow> t < u \<Longrightarrow> L (l, u) \<le> active_at L t"
proof -
  show "L (l, u) \<le> starting_at L l" "L (l, u) \<le> ending_at L u"
    using assms by (auto simp: starting_at_def ending_at_def intro!: member_le_sum)
  assume "l \<le> t" "t < u"
  then show "L (l, u) \<le> active_at L t"
    unfolding active_at_def
    using assms member_le_sum [of "(l, u)" "ticks \<times> ticks" "\<lambda>(l, u). if l \<le> t \<and> t < u then L (l, u) else 0"]
    by auto
qed

lemma update_position_withdraws:
  assumes "uint_crate U" "range_ready U now L l u p pos lower upper" "0 < n" "n \<le> L (l, u)"
  obtains rs pos' x y gs lo1 up1 where "update_reward_infos U p now = Ok (rs, p\<lparr>ps_reward_infos := rs\<rparr>)"
    "lo1 = lower\<lparr>ts_liquidity_gross := ts_liquidity_gross lower - n, ts_liquidity_net := ts_liquidity_net lower - int n\<rparr>"
    "up1 = upper\<lparr>ts_liquidity_gross := ts_liquidity_gross upper - n, ts_liquidity_net := ts_liquidity_net upper + int n\<rparr>"
    "get_fee_growth_inside lower upper (ps_tick_current p) (ps_fee_growth_global_0_x64 p)
       (ps_fee_growth_global_1_x64 p) = Ok (x, y)"
    "protocol_position_update U pos l u (- int n) x y gs = Ok pos'"
    "update_position U (- int n) p pos lower upper now =
       Ok (n = gross_at L l, n = gross_at L u, p\<lparr>ps_reward_infos := rs\<rparr>, pos',
           if n = gross_at L l then tick_clear lo1 else lo1, if n = gross_at L u then tick_clear up1 else up1)"
proof -
  note r = assms(2) [unfolded range_ready_def]
  have lo: "ts_tick lower = l" "ts_liquidity_gross lower = gross_at L l" "ts_liquidity_net lower = net_at L l"
    and up: "ts_tick upper = u" "ts_liquidity_gross upper = gross_at L u" "ts_liquidity_net upper = net_at L u"
    using r by (auto simp: tick_represents_def)
  note le = ledger_entry_le [where l = l and u = u and L = L]
  have n: "n \<le> starting_at L l" "n \<le> ending_at L u" "n < 2 ^ 127"
    using le(1,2) r assms(4) by (auto simp: gross_at_def)
  obtain rs q where q: "update_reward_infos U p now = Ok (rs, q)"
    using r by (auto simp: is_Ok_iff)
  have rew: "update_reward_infos U p now = Ok (rs, p\<lparr>ps_reward_infos := rs\<rparr>)"
    using q update_reward_infos_OkD [OF q] by simp
  define g0 g1 where "g0 = ps_fee_growth_global_0_x64 p" and "g1 = ps_fee_growth_global_1_x64 p"
  have within: "growth_within g0 g1 rs lower" "growth_within g0 g1 rs upper"
    using r growth_within_mono [OF _ _ _ update_reward_infos_grow [OF q]] by (auto simp: g0_def g1_def)
  define lo1 where "lo1 = lower\<lparr>ts_liquidity_gross := ts_liquidity_gross lower - n, ts_liquidity_net := ts_liquidity_net lower - int n\<rparr>"
  define up1 where "up1 = upper\<lparr>ts_liquidity_gross := ts_liquidity_gross upper - n, ts_liquidity_net := ts_liquidity_net upper + int n\<rparr>"
  have t: "tick_update lower c (- int n) g0 g1 False rs = Ok (n = gross_at L l, lo1)"
    "tick_update upper c (- int n) g0 g1 True rs = Ok (n = gross_at L u, up1)" for c
    using tick_update_succeeds [of n lower False c g0 g1 rs] tick_update_succeeds [of n upper True c g0 g1 rs] assms(3) n r
    by (auto simp: lo up lo1_def up1_def gross_at_def net_at_def)
  have same: "ts_tick lo1 = l" "ts_tick up1 = u" "growth_within g0 g1 rs lo1" "growth_within g0 g1 rs up1"
    "get_fee_growth_inside lo1 up1 c g0 g1 = get_fee_growth_inside lower upper c g0 g1" for c
    using within lo(1) up(1) by (simp_all add: lo1_def up1_def growth_within_def)
  obtain x y where xy: "get_fee_growth_inside lower upper (ps_tick_current p) g0 g1 = Ok (x, y)" "x < 2 ^ 128" "y < 2 ^ 128"
    using fee_growth_inside_succeeds [OF within] by blast
  obtain gs where gs: "get_reward_growths_inside lo1 up1 (ps_tick_current p) rs = Ok gs"
    using reward_growths_inside_succeed [OF same(3,4)] by blast
  have "fees_fit pos x y" "pp_liquidity pos < 2 ^ 128" "n \<le> pp_liquidity pos"
    using r xy(1) assms(4) le(1) by (auto simp: g0_def g1_def gross_at_def)
  with protocol_position_update_succeeds [OF assms(1) _ _ assms(3) _ n(3)] r xy(2,3) obtain pos' where
    pos': "protocol_position_update U pos l u (- int n) x y gs = Ok pos'" by blast
  have "update_position U (- int n) p pos lower upper now =
       Ok (n = gross_at L l, n = gross_at L u, p\<lparr>ps_reward_infos := rs\<rparr>, pos',
           if n = gross_at L l then tick_clear lo1 else lo1, if n = gross_at L u then tick_clear up1 else up1)"
    using assms(3) by (simp add: update_position_def rew t same xy gs pos' g0_def [symmetric] g1_def [symmetric] Let_def)
  from that [OF rew lo1_def up1_def xy(1) [unfolded g0_def g1_def] pos' this] show thesis .
qed

lemma withdrawal_succeeds:
  assumes "uint_crate U" "range_ready U now L l u p pos lower upper" "0 < n" "n \<le> L (l, u)"
    and "get_delta_amounts_signed U (ps_tick_current p) (ps_sqrt_price_x64 p) l u (- int n) = Ok (a0, a1)"
  shows "\<exists>fl fu p' pos' lower' upper'.
    modify_position U (- int n) p pos lower upper now = Ok ((a0, a1, fl, fu), p', pos', lower', upper')"
proof -
  note r = assms(2) [unfolded range_ready_def]
  obtain rs pos' x y gs lo1 up1 where
    lo1: "lo1 = lower\<lparr>ts_liquidity_gross := ts_liquidity_gross lower - n, ts_liquidity_net := ts_liquidity_net lower - int n\<rparr>"
    and up1: "up1 = upper\<lparr>ts_liquidity_gross := ts_liquidity_gross upper - n, ts_liquidity_net := ts_liquidity_net upper + int n\<rparr>"
    and upd: "update_position U (- int n) p pos lower upper now =
       Ok (n = gross_at L l, n = gross_at L u, p\<lparr>ps_reward_infos := rs\<rparr>, pos',
           if n = gross_at L l then tick_clear lo1 else lo1, if n = gross_at L u then tick_clear up1 else up1)"
    by (rule update_position_withdraws [OF assms(1-4)])
  define lo' up' where "lo' = (if n = gross_at L l then tick_clear lo1 else lo1)"
    and "up' = (if n = gross_at L u then tick_clear up1 else up1)"
  have ids: "ts_tick lo' = l" "ts_tick up' = u"
    using r by (simp_all add: lo'_def up'_def lo1 up1 tick_clear_def tick_represents_def)
  have "\<exists>l'. add_delta (ps_liquidity p) (- int n) = Ok l'" if "l \<le> ps_tick_current p" "ps_tick_current p < u"
  proof -
    have "n \<le> ps_liquidity p" "n < 2 ^ 127"
      using ledger_entry_le(1,3) [where l = l and u = u and L = L] r assms(4) that
      by (fastforce simp: pool_represents_def gross_at_def)+
    then have "add_delta (ps_liquidity p) (- int n) = Ok (ps_liquidity p - n)"
      using r by (auto simp: add_delta_eq_Ok_iff of_nat_diff less_imp_diff_less)
    then show ?thesis by blast
  qed
  then show ?thesis
    using assms(3,5) by (simp add: modify_position_def upd lo'_def [symmetric] up'_def [symmetric] ids) fastforce
qed

lemma protocol_position_after:
  assumes "protocol_position_update U pos l u d x y gs = Ok pos'" "fees_fit pos x y" "pp_liquidity pos < 2 ^ 128"
  shows "pp_fee_growth_inside_0_last_x64 pos' = x" "pp_fee_growth_inside_1_last_x64 pos' = y"
    "pp_token_fees_owed_0 pos' < 2 ^ 64" "pp_token_fees_owed_1 pos' < 2 ^ 64"
proof -
  show "pp_fee_growth_inside_0_last_x64 pos' = x" "pp_fee_growth_inside_1_last_x64 pos' = y"
    by (rule protocol_position_update_OkD [OF assms(1,3)])+
  have "pp_token_fees_owed_0 pos < 2 ^ 64" "pp_token_fees_owed_1 pos < 2 ^ 64"
    using assms(2) by (simp_all add: fees_fit_def)
  with assms(1) show "pp_token_fees_owed_0 pos' < 2 ^ 64" "pp_token_fees_owed_1 pos' < 2 ^ 64"
    by (auto simp: protocol_position_update_def Let_def res_inv checked_add_def
        update_reward_growths_inside_def split: if_splits)
qed

text \<open>A withdrawal leaves the range ready for the next one at the same time.\<close>

lemma withdrawal_keeps_ready:
  assumes "uint_crate U" "range_ready U now L l u p pos lower upper" "0 < n" "n \<le> L (l, u)" "now < 2 ^ 64"
    and "modify_position U (- int n) p pos lower upper now = Ok ((a0, a1, fl, fu), p', pos', lower', upper')"
  shows "range_ready U now (L((l, u) := L (l, u) - n)) l u p' pos' lower' upper'"
proof -
  have R: "wf_ledger L" "l \<in> ticks" "u \<in> ticks" "l < u" "gross_at L l < 2 ^ 127" "gross_at L u < 2 ^ 127"
    "tick_represents L l lower" "tick_represents L u upper" "pool_represents L p" "pp_liquidity pos = L (l, u)"
    "ps_liquidity p < 2 ^ 128" "MIN_SQRT_PRICE_X64 \<le> ps_sqrt_price_x64 p" "ps_sqrt_price_x64 p \<le> MAX_SQRT_PRICE_X64"
    and W: "growth_within (ps_fee_growth_global_0_x64 p) (ps_fee_growth_global_1_x64 p) (ps_reward_infos p) lower"
    "growth_within (ps_fee_growth_global_0_x64 p) (ps_fee_growth_global_1_x64 p) (ps_reward_infos p) upper"
    "length (ps_reward_infos p) = REWARD_NUM" "list_all wf_reward (ps_reward_infos p)"
    and F: "\<And>x y. get_fee_growth_inside lower upper (ps_tick_current p) (ps_fee_growth_global_0_x64 p)
      (ps_fee_growth_global_1_x64 p) = Ok (x, y) \<Longrightarrow> fees_fit pos x y"
    using assms(2) unfolding range_ready_def by blast+
  obtain rs pos1 x y gs lo1 up1 where rew: "update_reward_infos U p now = Ok (rs, p\<lparr>ps_reward_infos := rs\<rparr>)"
    and lo1: "lo1 = lower\<lparr>ts_liquidity_gross := ts_liquidity_gross lower - n, ts_liquidity_net := ts_liquidity_net lower - int n\<rparr>"
    and up1: "up1 = upper\<lparr>ts_liquidity_gross := ts_liquidity_gross upper - n, ts_liquidity_net := ts_liquidity_net upper + int n\<rparr>"
    and xy: "get_fee_growth_inside lower upper (ps_tick_current p) (ps_fee_growth_global_0_x64 p)
       (ps_fee_growth_global_1_x64 p) = Ok (x, y)"
    and pos1: "protocol_position_update U pos l u (- int n) x y gs = Ok pos1"
    and upd: "update_position U (- int n) p pos lower upper now =
       Ok (n = gross_at L l, n = gross_at L u, p\<lparr>ps_reward_infos := rs\<rparr>, pos1,
           if n = gross_at L l then tick_clear lo1 else lo1, if n = gross_at L u then tick_clear up1 else up1)"
    by (rule update_position_withdraws [OF assms(1-4)])
  from modify_position_OkD [OF assms(6)] upd assms(3) have
    st: "pos' = pos1" "lower' = (if n = gross_at L l then tick_clear lo1 else lo1)"
      "upper' = (if n = gross_at L u then tick_clear up1 else up1)"
    and p': "p' = p\<lparr>ps_reward_infos := rs\<rparr> \<or> (\<exists>z. add_delta (ps_liquidity p) (- int n) = Ok z \<and> p' = p\<lparr>ps_reward_infos := rs, ps_liquidity := z\<rparr>)"
    by (auto split: if_splits)
  define L' where "L' = L((l, u) := L (l, u) - n)"
  have small: "gross_at L l < 2 ^ 128" "gross_at L u < 2 ^ 128" using R(5,6) by simp_all
  have led: "wf_ledger L'" "tick_represents L' l lower'" "tick_represents L' u upper'" "pool_represents L' p'"
    "pp_liquidity pos' = L' (l, u)" "ps_tick_current p' = ps_tick_current p" "ps_sqrt_price_x64 p' = ps_sqrt_price_x64 p"
    using modify_position_ledger [OF R(1,4,7-10) small R(11,2,3) assms(6)] assms(4)
    by (simp_all add: Let_def L'_def nat_diff_distrib)
  have fields: "ps_reward_infos p' = rs" "ps_fee_growth_global_0_x64 p' = ps_fee_growth_global_0_x64 p"
    "ps_fee_growth_global_1_x64 p' = ps_fee_growth_global_1_x64 p"
    using p' by auto
  have liq: "ps_liquidity p' < 2 ^ 128" using p' R(11) by (auto simp: add_delta_eq_Ok_iff)
  have len: "length rs = REWARD_NUM"
    using update_reward_infos_grow [OF rew] W(3) by (auto simp: rewards_grown_def dest: list_all2_lengthD)
  have gross: "gross_at L' l \<le> gross_at L l" "gross_at L' u \<le> gross_at L u"
    using led(2,3) st(2,3) R(7,8) by (auto simp: tick_represents_def lo1 up1 tick_clear_def split: if_splits)
  have within: "growth_within (ps_fee_growth_global_0_x64 p) (ps_fee_growth_global_1_x64 p) rs T"
    if "growth_within (ps_fee_growth_global_0_x64 p) (ps_fee_growth_global_1_x64 p) (ps_reward_infos p) T" for T
    by (rule growth_within_mono [OF that order_refl order_refl update_reward_infos_grow [OF rew]])
  have lo1': "growth_within (ps_fee_growth_global_0_x64 p) (ps_fee_growth_global_1_x64 p) rs lo1"
    and up1': "growth_within (ps_fee_growth_global_0_x64 p) (ps_fee_growth_global_1_x64 p) rs up1"
    using within [OF W(1)] within [OF W(2)] by (simp_all add: lo1 up1 growth_within_def)
  then have ticks': "growth_within (ps_fee_growth_global_0_x64 p) (ps_fee_growth_global_1_x64 p) rs lower'"
    "growth_within (ps_fee_growth_global_0_x64 p) (ps_fee_growth_global_1_x64 p) rs upper'"
    using growth_within_tick_clear [OF _ len] by (auto simp: st)
  note again = update_reward_infos_again [OF assms(1) W(4) assms(5) rew liq]
  have "is_Ok (update_reward_infos U p' now)"
    using again(2) by (auto simp: update_reward_infos_def fields is_Ok_iff)
  moreover have "fees_fit pos' x' y'"
    if "get_fee_growth_inside lower' upper' (ps_tick_current p) (ps_fee_growth_global_0_x64 p)
      (ps_fee_growth_global_1_x64 p) = Ok (x', y')" for x' y'
  proof -
    have posliq: "pp_liquidity pos < 2 ^ 128"
      using R(2,3,5,10) ledger_entry_le(1) [where l = l and u = u and L = L] by (simp add: gross_at_def)
    have "fees_fit pos x y" using F xy by blast
    note after = protocol_position_after [OF pos1 this posliq]
    show ?thesis
    proof (cases "L' (l, u) = 0")
      case True
      then show ?thesis using after led(5) by (simp add: fees_fit_def st(1))
    next
      case False
      have "n < gross_at L l" "n < gross_at L u"
        using False ledger_entry_le(1,2) [where l = l and u = u and L = L] R(2,3) assms(4) by (auto simp: L'_def gross_at_def)
      then have "x' = x" "y' = y"
        using that xy by (simp_all add: st lo1 up1)
      then show ?thesis using after by (simp add: fees_fit_def st(1))
    qed
  qed
  ultimately show ?thesis
    using R led gross liq len again(1) ticks'
    unfolding range_ready_def L'_def [symmetric] fields by simp
qed

section \<open>A position can be emptied\<close>

text \<open>Withdrawals one after the other.\<close>

fun withdrawals ::
  "uint_lib \<Rightarrow> u64 \<Rightarrow> nat list \<Rightarrow> pool_state \<Rightarrow> protocol_position \<Rightarrow> tick_state \<Rightarrow> tick_state \<Rightarrow>
   (pool_state \<times> protocol_position \<times> tick_state \<times> tick_state) res" where
  "withdrawals U now [] p pos lower upper = Ok (p, pos, lower, upper)"
| "withdrawals U now (n # ns) p pos lower upper =
     rbind (modify_position U (- int n) p pos lower upper now) (\<lambda>(_, p, pos, lower, upper).
     withdrawals U now ns p pos lower upper)"

lemma withdrawals_empty_range:
  assumes "uint_crate U" "range_ready U now L l u p pos lower upper" "now < 2 ^ 64" "0 < k" "k < 2 ^ 32"
  shows "\<exists>ns p' pos' lower' upper'. withdrawals U now ns p pos lower upper = Ok (p', pos', lower', upper')
    \<and> sum_list ns = L (l, u) \<and> (\<forall>n \<in> set ns. n \<le> k)
    \<and> range_ready U now (L((l, u) := 0)) l u p' pos' lower' upper'"
  using assms(2)
proof (induction "L (l, u)" arbitrary: L p pos lower upper rule: less_induct)
  case less
  show ?case
  proof (cases "L (l, u) = 0")
    case True
    then have "L((l, u) := 0) = L" by auto
    with less.prems True show ?thesis
      by (intro exI [of _ "[]"]) auto
  next
    case False
    define n where "n = min (L (l, u)) k"
    have n: "0 < n" "n \<le> L (l, u)" "n \<le> k" "n < 2 ^ 32" using False assms(4,5) by (auto simp: n_def)
    note r = less.prems [unfolded range_ready_def]
    obtain a0 a1 where a: "get_delta_amounts_signed U (ps_tick_current p) (ps_sqrt_price_x64 p) l u (- int n) = Ok (a0, a1)"
      using delta_amounts_small [OF assms(1) n(1,4)] r by blast
    obtain fl fu p' pos' lower' upper' where
      m: "modify_position U (- int n) p pos lower upper now = Ok ((a0, a1, fl, fu), p', pos', lower', upper')"
      using withdrawal_succeeds [OF assms(1) less.prems n(1,2) a] by blast
    note r' = withdrawal_keeps_ready [OF assms(1) less.prems n(1,2) assms(3) m]
    have "(L((l, u) := L (l, u) - n)) (l, u) < L (l, u)" using n by simp
    from less.hyps [OF this r'] obtain ns q pos'' lower'' upper'' where
      ns: "withdrawals U now ns p' pos' lower' upper' = Ok (q, pos'', lower'', upper'')"
      "sum_list ns = L (l, u) - n" "\<forall>n \<in> set ns. n \<le> k"
      "range_ready U now (L((l, u) := 0)) l u q pos'' lower'' upper''"
      by auto
    have "withdrawals U now (n # ns) p pos lower upper = Ok (q, pos'', lower'', upper'')"
      using m ns(1) by simp
    moreover have "sum_list (n # ns) = L (l, u)" "\<forall>m \<in> set (n # ns). m \<le> k" using ns(2,3) n by auto
    ultimately show ?thesis using ns(4) by blast
  qed
qed

section \<open>A sample\<close>

definition sample_full_ledger :: ledger where
  "sample_full_ledger = empty_ledger((MIN_TICK, MAX_TICK) := 1000)"

definition sample_full_pool :: pool_state where
  "sample_full_pool = sample_range_pool\<lparr>ps_liquidity := 1000\<rparr>"

definition sample_full_position :: protocol_position where
  "sample_full_position = default_protocol_position\<lparr>pp_liquidity := 1000\<rparr>"

definition sample_full_tick :: "int \<Rightarrow> int \<Rightarrow> tick_state" where
  "sample_full_tick t net = default_tick_state\<lparr>ts_tick := t, ts_liquidity_gross := 1000, ts_liquidity_net := net\<rparr>"

lemma sample_full_ledger_facts:
  "wf_ledger sample_full_ledger" "gross_at sample_full_ledger MIN_TICK = 1000" "gross_at sample_full_ledger MAX_TICK = 1000"
  "net_at sample_full_ledger MIN_TICK = 1000" "net_at sample_full_ledger MAX_TICK = - 1000" "active_at sample_full_ledger 0 = 1000"
  "sample_full_ledger (MIN_TICK, MAX_TICK) = 1000"
proof -
  have t: "MIN_TICK \<in> ticks" "MAX_TICK \<in> ticks" "MIN_TICK < MAX_TICK" "MIN_TICK \<le> 0" "0 < MAX_TICK" "MIN_TICK \<noteq> MAX_TICK"
    by (simp_all add: ticks_def MIN_TICK_def MAX_TICK_def)
  note c = change_range [OF empty_ledger_wf(1) t(1-3), of 1000, folded sample_full_ledger_def]
  have z: "starting_at empty_ledger t = 0" "ending_at empty_ledger t = 0" "active_at empty_ledger t = 0"
    "empty_ledger r = 0" for t r
    using empty_ledger_wf(2,4) [of t] by (simp_all add: gross_at_def empty_ledger_def)
  show "wf_ledger sample_full_ledger" by (rule c(1))
  show "gross_at sample_full_ledger MIN_TICK = 1000" "gross_at sample_full_ledger MAX_TICK = 1000"
    "net_at sample_full_ledger MIN_TICK = 1000" "net_at sample_full_ledger MAX_TICK = - 1000" "active_at sample_full_ledger 0 = 1000"
  proof -
    have "starting_at sample_full_ledger t = (if t = MIN_TICK then 1000 else 0)"
      "ending_at sample_full_ledger t = (if t = MAX_TICK then 1000 else 0)"
      "active_at sample_full_ledger t = (if MIN_TICK \<le> t \<and> t < MAX_TICK then 1000 else 0)" for t
      using c(2-4) [of t] by (auto simp: z split: if_splits)
    with t(4-6) show "gross_at sample_full_ledger MIN_TICK = 1000" "gross_at sample_full_ledger MAX_TICK = 1000"
      "net_at sample_full_ledger MIN_TICK = 1000" "net_at sample_full_ledger MAX_TICK = - 1000"
      "active_at sample_full_ledger 0 = 1000"
      by (simp_all add: gross_at_def net_at_def)
  qed
  show "sample_full_ledger (MIN_TICK, MAX_TICK) = 1000" by (simp add: sample_full_ledger_def)
qed

lemma sample_range_ready:
  "range_ready uint_ref 5 sample_full_ledger MIN_TICK MAX_TICK sample_full_pool sample_full_position
     (sample_full_tick MIN_TICK 1000) (sample_full_tick MAX_TICK (- 1000))"
proof -
  have t: "MIN_TICK \<in> ticks" "MAX_TICK \<in> ticks" "MIN_TICK < MAX_TICK"
    by (simp_all add: ticks_def MIN_TICK_def MAX_TICK_def)
  have p: "ps_tick_current sample_full_pool = 0" "ps_sqrt_price_x64 sample_full_pool = 2 ^ 64" "ps_liquidity sample_full_pool = 1000"
    "ps_fee_growth_global_0_x64 sample_full_pool = 0" "ps_fee_growth_global_1_x64 sample_full_pool = 0"
    "ps_reward_infos sample_full_pool = replicate 3 (new_reward_info default_pubkey)"
    by (simp_all add: sample_full_pool_def sample_range_pool_def default_pool_def REWARD_NUM_def)
  have tk: "ts_tick (sample_full_tick t n) = t" "ts_liquidity_gross (sample_full_tick t n) = 1000"
    "ts_liquidity_net (sample_full_tick t n) = n" "growth_within 0 0 (replicate 3 (new_reward_info default_pubkey)) (sample_full_tick t n)" for t n
    by (simp_all add: sample_full_tick_def growth_within_def default_tick_state_def REWARD_NUM_def numeral_3_eq_3)
  have up: "is_Ok (update_reward_infos uint_ref sample_full_pool 5)"
    by (simp add: update_reward_infos_def p numeral_3_eq_3 update_reward_info_def reward_initialized_def new_reward_info_def)
  have pos: "pp_liquidity sample_full_position = 1000" "pp_token_fees_owed_0 sample_full_position = 0" "pp_token_fees_owed_1 sample_full_position = 0"
    by (simp_all add: sample_full_position_def default_protocol_position_def)
  have fit: "fees_fit sample_full_position x y" if "get_fee_growth_inside (sample_full_tick MIN_TICK 1000) (sample_full_tick MAX_TICK (- 1000)) 0 0 0 = Ok (x, y)" for x y
    using that by (auto simp: get_fee_growth_inside_eq inside_value_def sample_full_tick_def default_tick_state_def fees_fit_def
        sample_full_position_def default_protocol_position_def MIN_TICK_def MAX_TICK_def split: if_splits)
  have wf: "list_all wf_reward (replicate 3 (new_reward_info default_pubkey))"
    by (simp add: numeral_3_eq_3 wf_reward_def new_reward_info_def)
  show ?thesis
    unfolding range_ready_def p using t up fit wf
    by (simp add: sample_full_ledger_facts tick_represents_def pool_represents_def tk p pos
        MIN_SQRT_PRICE_X64_def MAX_SQRT_PRICE_X64_def REWARD_NUM_def)
qed

section \<open>Properties\<close>

text \<open>
  C7. Liquidity is never locked in.  When the two ticks, the position and the pool represent a
  ledger, the growth recorded outside the ticks is not above the growth of the pool (which crossing and
  updating a tick keep), the rewards can be brought up to date and the fees fit their counters
  (\<open>range_ready\<close>), then taking out any part of the range's liquidity whose worth fits the amount
  types succeeds, every part below \<open>2 ^ 32\<close> has such a worth, and withdrawals one after the other, each
  of at most a given size, empty the range.
\<close>

theorem liquidity_can_be_withdrawn:
  assumes "uint_crate U" "range_ready U now L l u p pos lower upper" "now < 2 ^ 64" "0 < k" "k < 2 ^ 32"
  shows "(\<forall>n a0 a1. 0 < n \<and> n \<le> L (l, u) \<and>
      get_delta_amounts_signed U (ps_tick_current p) (ps_sqrt_price_x64 p) l u (- int n) = Ok (a0, a1) \<longrightarrow>
      (\<exists>fl fu p' pos' lower' upper'.
        modify_position U (- int n) p pos lower upper now = Ok ((a0, a1, fl, fu), p', pos', lower', upper')))
    \<and> (\<forall>n. 0 < n \<and> n < 2 ^ 32 \<longrightarrow>
      is_Ok (get_delta_amounts_signed U (ps_tick_current p) (ps_sqrt_price_x64 p) l u (- int n)))
    \<and> (\<exists>ns p' pos' lower' upper'. withdrawals U now ns p pos lower upper = Ok (p', pos', lower', upper')
      \<and> sum_list ns = L (l, u) \<and> (\<forall>n \<in> set ns. n \<le> k) \<and> pp_liquidity pos' = 0
      \<and> pool_represents (L((l, u) := 0)) p')"
proof (intro conjI allI impI)
  fix n a0 a1
  assume "0 < n \<and> n \<le> L (l, u) \<and>
      get_delta_amounts_signed U (ps_tick_current p) (ps_sqrt_price_x64 p) l u (- int n) = Ok (a0, a1)"
  with withdrawal_succeeds [OF assms(1,2)] show "\<exists>fl fu p' pos' lower' upper'.
      modify_position U (- int n) p pos lower upper now = Ok ((a0, a1, fl, fu), p', pos', lower', upper')"
    by blast
next
  fix n :: nat
  assume "0 < n \<and> n < 2 ^ 32"
  moreover have "l \<in> ticks" "u \<in> ticks" "MIN_SQRT_PRICE_X64 \<le> ps_sqrt_price_x64 p" "ps_sqrt_price_x64 p \<le> MAX_SQRT_PRICE_X64"
    using assms(2) by (auto simp: range_ready_def)
  ultimately show "is_Ok (get_delta_amounts_signed U (ps_tick_current p) (ps_sqrt_price_x64 p) l u (- int n))"
    using delta_amounts_small [OF assms(1), of n l u] by (auto simp: is_Ok_iff)
next
  from withdrawals_empty_range [OF assms] obtain ns p' pos' lower' upper' where
    w: "withdrawals U now ns p pos lower upper = Ok (p', pos', lower', upper')" "sum_list ns = L (l, u)" "\<forall>n \<in> set ns. n \<le> k"
    and r: "range_ready U now (L((l, u) := 0)) l u p' pos' lower' upper'" by blast
  have "pp_liquidity pos' = 0" "pool_represents (L((l, u) := 0)) p'"
    using r by (auto simp: range_ready_def)
  with w show "\<exists>ns p' pos' lower' upper'. withdrawals U now ns p pos lower upper = Ok (p', pos', lower', upper')
      \<and> sum_list ns = L (l, u) \<and> (\<forall>n \<in> set ns. n \<le> k) \<and> pp_liquidity pos' = 0
      \<and> pool_represents (L((l, u) := 0)) p'" by blast
qed

theorem liquidity_can_be_withdrawn_witness:
  "\<exists>ns p' pos' lower' upper'. withdrawals uint_ref 5 ns sample_full_pool sample_full_position
     (sample_full_tick MIN_TICK 1000) (sample_full_tick MAX_TICK (- 1000)) = Ok (p', pos', lower', upper')
   \<and> sum_list ns = 1000 \<and> (\<forall>n \<in> set ns. n \<le> 300) \<and> pp_liquidity pos' = 0"
  using conjunct2 [OF conjunct2 [OF liquidity_can_be_withdrawn [OF uint_crate_ref sample_range_ready, of 300]]]
  unfolding sample_full_ledger_facts(7) by simp blast

end
