(* ===== verification/Reward_Payouts.thy ===== *)
theory Reward_Payouts
  imports Withdraw
begin

text \<open>
  The rewards that are paid when a position is changed (\<open>collect_rewards\<close> of
  \<open>instructions/decrease_liquidity.rs\<close>): what the position, the pool and the token accounts show
  after the loop over the rewards, against what was owed and what was emitted.
\<close>

section \<open>The accounts of a reward\<close>

text \<open>A group is a vault, a recipient and, for the newer token program, the mint.\<close>

definition group_size :: "bool \<Rightarrow> nat" where
  "group_size need_reward_mint = (if need_reward_mint then 3 else 2)"

definition group_vault :: "bool \<Rightarrow> remaining_account list \<Rightarrow> nat \<Rightarrow> token_account res" where
  "group_vault need_reward_mint accounts i = ra_token_account (accounts ! (group_size need_reward_mint * i))"

definition group_recipient :: "bool \<Rightarrow> remaining_account list \<Rightarrow> nat \<Rightarrow> token_account res" where
  "group_recipient need_reward_mint accounts i = ra_token_account (accounts ! (group_size need_reward_mint * i + 1))"

fun key_of :: "token_account res \<Rightarrow> pubkey option" where
  "key_of (Ok a) = Some (tk_key a)"
| "key_of _ = None"

definition vault_key :: "pool_state \<Rightarrow> nat \<Rightarrow> pubkey" where
  "vault_key pool i = ri_token_vault (ps_reward_infos pool ! i)"

text \<open>How many groups there are, and that no vault is its own recipient.\<close>

definition reward_groups :: "bool \<Rightarrow> remaining_account list \<Rightarrow> nat" where
  "reward_groups need_reward_mint accounts = length accounts div group_size need_reward_mint"

definition recipients_apart :: "bool \<Rightarrow> remaining_account list \<Rightarrow> pool_state \<Rightarrow> bool" where
  "recipients_apart need_reward_mint accounts pool \<longleftrightarrow>
     list_all (\<lambda>i. key_of (group_recipient need_reward_mint accounts i) \<noteq> Some (vault_key pool i))
       [0..<reward_groups need_reward_mint accounts]"

lemma next_reward_group_OkD:
  assumes "next_reward_group need (drop (group_size need * i) accounts) = Ok ((vault, recipient, mint), accounts')"
  shows "group_vault need accounts i = Ok vault" "group_recipient need accounts i = Ok recipient"
    "accounts' = drop (group_size need * Suc i) accounts" "\<not> need \<Longrightarrow> mint = None"
proof -
  have next_OkD: "k < length accounts \<and> a = accounts ! k \<and> rest = drop (Suc k) accounts"
    if "next_account (drop k accounts) = Ok (a, rest)" for k a rest
  proof -
    have "k < length accounts" using that by (cases "k < length accounts") auto
    with that show ?thesis by (simp add: Cons_nth_drop_Suc [symmetric])
  qed
  show "group_vault need accounts i = Ok vault" "group_recipient need accounts i = Ok recipient"
    "accounts' = drop (group_size need * Suc i) accounts" "\<not> need \<Longrightarrow> mint = None"
    using assms
    by (auto simp: next_reward_group_def group_vault_def group_recipient_def group_size_def res_inv Suc3_eq_add_3 add.commute
        split: if_splits dest!: next_OkD)
qed

section \<open>One reward\<close>

text \<open>The counters after a payment: of the position, and of the pool.\<close>

definition owed_less :: "nat \<Rightarrow> position_reward_info \<Rightarrow> position_reward_info" where
  "owed_less n r = r\<lparr>pr_reward_amount_owed := pr_reward_amount_owed r - n\<rparr>"

definition claimed_more :: "nat \<Rightarrow> reward_info \<Rightarrow> reward_info" where
  "claimed_more n r = r\<lparr>ri_reward_claimed := ri_reward_claimed r + n\<rparr>"

definition reward_payment :: "token_account \<Rightarrow> personal_position \<Rightarrow> nat \<Rightarrow> nat" where
  "reward_payment vault personal i = min (pr_reward_amount_owed (pe_reward_infos personal ! i)) (tk_amount vault)"

definition within_emissions :: "personal_position \<Rightarrow> pool_state \<Rightarrow> nat \<Rightarrow> bool" where
  "within_emissions personal pool i \<longleftrightarrow>
     ri_reward_claimed (ps_reward_infos pool ! i) + pr_reward_amount_owed (pe_reward_infos personal ! i)
       \<le> ri_reward_total_emissioned (ps_reward_infos pool ! i)"

lemma neutral_payment [simp]: "owed_less 0 r = r" "claimed_more 0 q = q"
  by (simp_all add: owed_less_def claimed_more_def)

lemma collect_reward_paid:
  assumes "collect_reward T loader tp tp22 i vault recipient mint personal pool s = Ok (n, personal', pool', s')"
  shows "i < REWARD_NUM" "tk_key vault = vault_key pool i" "tk_mint vault = tk_mint recipient"
    "n = reward_payment vault personal i" "0 < pr_reward_amount_owed (pe_reward_infos personal ! i) \<Longrightarrow> within_emissions personal pool i"
    "personal' = personal\<lparr>pe_reward_infos := (pe_reward_infos personal)[i := owed_less n (pe_reward_infos personal ! i)]\<rparr>"
    "pool' = pool\<lparr>ps_reward_infos := (ps_reward_infos pool)[i := claimed_more n (ps_reward_infos pool ! i)]\<rparr>"
    "transfer_from_pool_vault_to_user T loader vault recipient mint tp tp22 n s = Ok s'"
proof -
  have "i < REWARD_NUM \<and> tk_key vault = vault_key pool i \<and> tk_mint vault = tk_mint recipient"
    using assms by (auto simp: collect_reward_def Let_def res_inv vault_key_def)
  moreover have "n = reward_payment vault personal i
    \<and> (0 < pr_reward_amount_owed (pe_reward_infos personal ! i) \<longrightarrow> within_emissions personal pool i)
    \<and> personal' = personal\<lparr>pe_reward_infos := (pe_reward_infos personal)[i := owed_less n (pe_reward_infos personal ! i)]\<rparr>
    \<and> pool' = pool\<lparr>ps_reward_infos := (ps_reward_infos pool)[i := claimed_more n (ps_reward_infos pool ! i)]\<rparr>
    \<and> transfer_from_pool_vault_to_user T loader vault recipient mint tp tp22 n s = Ok s'"
  proof (cases "n = 0")
    case True
    with assms show ?thesis
      by (auto simp: collect_reward_def Let_def res_inv check_unclaimed_reward_def checked_sub_def reward_payment_def
          within_emissions_def transfer_from_pool_vault_to_user_def split: if_splits)
  next
    case False
    with assms show ?thesis
      by (auto simp: collect_reward_def Let_def res_inv add_reward_clamed_def check_unclaimed_reward_def checked_add_def
          checked_sub_def reward_payment_def within_emissions_def owed_less_def claimed_more_def split: if_splits)
  qed
  ultimately show "i < REWARD_NUM" "tk_key vault = vault_key pool i" "tk_mint vault = tk_mint recipient"
    "n = reward_payment vault personal i" "0 < pr_reward_amount_owed (pe_reward_infos personal ! i) \<Longrightarrow> within_emissions personal pool i"
    "personal' = personal\<lparr>pe_reward_infos := (pe_reward_infos personal)[i := owed_less n (pe_reward_infos personal ! i)]\<rparr>"
    "pool' = pool\<lparr>ps_reward_infos := (ps_reward_infos pool)[i := claimed_more n (ps_reward_infos pool ! i)]\<rparr>"
    "transfer_from_pool_vault_to_user T loader vault recipient mint tp tp22 n s = Ok s'"
    by blast+
qed

section \<open>All rewards\<close>

text \<open>
  A reward whose group was read: the vault is the one of the reward, the recipient holds its token,
  what is owed and the contents of the vault bound the payment, and nothing is paid on a claim that
  the emissions do not cover.
\<close>

definition reward_paid ::
  "bool \<Rightarrow> remaining_account list \<Rightarrow> personal_position \<Rightarrow> pool_state \<Rightarrow> nat \<Rightarrow> nat \<Rightarrow> bool" where
  "reward_paid need accounts personal pool i n \<longleftrightarrow>
     (case (group_vault need accounts i, group_recipient need accounts i) of
        (Ok vault, Ok recipient) \<Rightarrow>
          tk_key vault = vault_key pool i \<and> tk_mint vault = tk_mint recipient
          \<and> n = reward_payment vault personal i
          \<and> (pr_reward_amount_owed (pe_reward_infos personal ! i) = 0 \<or> within_emissions personal pool i)
      | _ \<Rightarrow> False)"

lemma reward_paid_bounds:
  "reward_paid need accounts personal pool i n \<Longrightarrow> n \<le> pr_reward_amount_owed (pe_reward_infos personal ! i)
     \<and> (0 < n \<longrightarrow> within_emissions personal pool i)"
  by (auto simp: reward_paid_def reward_payment_def split: res.splits)

text \<open>What the vaults paid from a key, and to a key.\<close>

definition paid_from :: "pool_state \<Rightarrow> nat list \<Rightarrow> nat set \<Rightarrow> pubkey \<Rightarrow> nat" where
  "paid_from pool amounts I k = (\<Sum>i\<in>I. if vault_key pool i = k then amounts ! i else 0)"

definition paid_to :: "bool \<Rightarrow> remaining_account list \<Rightarrow> nat list \<Rightarrow> nat set \<Rightarrow> pubkey \<Rightarrow> nat" where
  "paid_to need accounts amounts I k =
     (\<Sum>i\<in>I. if key_of (group_recipient need accounts i) = Some k then amounts ! i else 0)"

definition owed_after :: "nat list \<Rightarrow> nat set \<Rightarrow> position_reward_info list \<Rightarrow> position_reward_info list" where
  "owed_after amounts I rs = map (\<lambda>j. if j \<in> I then owed_less (amounts ! j) (rs ! j) else rs ! j) [0..<length rs]"

definition claimed_after :: "nat list \<Rightarrow> nat set \<Rightarrow> reward_info list \<Rightarrow> reward_info list" where
  "claimed_after amounts I rs = map (\<lambda>j. if j \<in> I then claimed_more (amounts ! j) (rs ! j) else rs ! j) [0..<length rs]"

lemma owed_after_step:
  "owed_after amounts {Suc i..<j} (rs[i := owed_less (amounts ! i) (rs ! i)]) = owed_after amounts {i..<j} rs" if "i < j"
  using that by (auto simp: owed_after_def nth_list_update not_less_eq_eq intro!: map_cong dest!: le_antisym)

lemma claimed_after_step:
  "claimed_after amounts {Suc i..<j} (rs[i := claimed_more (amounts ! i) (rs ! i)]) = claimed_after amounts {i..<j} rs" if "i < j"
  using that by (auto simp: claimed_after_def nth_list_update not_less_eq_eq intro!: map_cong dest!: le_antisym)

lemma after_nothing [simp]: "owed_after amounts {} rs = rs" "claimed_after amounts {} rs' = rs'"
  by (simp_all add: owed_after_def claimed_after_def map_nth)

lemma reward_paid_cong:
  "pe_reward_infos personal' ! j = pe_reward_infos personal ! j \<Longrightarrow> ps_reward_infos pool' ! j = ps_reward_infos pool ! j \<Longrightarrow>
   reward_paid need accounts personal' pool' j = reward_paid need accounts personal pool j"
  by (simp add: reward_paid_def fun_eq_iff vault_key_def reward_payment_def within_emissions_def split: res.split)

text \<open>The loop over the groups from the \<open>i\<close>-th on.\<close>

lemma collect_rewards_loop_paid:
  "collect_rewards_loop T loader tp tp22 need i n (drop (group_size need * i) accounts) amounts personal pool s
     = Ok (amounts', personal', pool', s') \<Longrightarrow>
   length amounts = REWARD_NUM \<Longrightarrow>
   length amounts' = REWARD_NUM \<and> (n = 0 \<or> i + n \<le> REWARD_NUM)
   \<and> (\<forall>j. i \<le> j \<and> j < i + n \<longrightarrow> reward_paid need accounts personal pool j (amounts' ! j))
   \<and> (\<forall>j. j < i \<or> i + n \<le> j \<longrightarrow> amounts' ! j = amounts ! j)
   \<and> personal' = personal\<lparr>pe_reward_infos := owed_after amounts' {i..<i + n} (pe_reward_infos personal)\<rparr>
   \<and> pool' = pool\<lparr>ps_reward_infos := claimed_after amounts' {i..<i + n} (ps_reward_infos pool)\<rparr>"
proof (induction n arbitrary: i amounts personal pool s)
  case (Suc n)
  obtain vault recipient mint rest m personal1 pool1 s1 where
    g: "next_reward_group need (drop (group_size need * i) accounts) = Ok ((vault, recipient, mint), rest)"
    and c: "collect_reward T loader tp tp22 i vault recipient mint personal pool s = Ok (m, personal1, pool1, s1)"
    and l: "collect_rewards_loop T loader tp tp22 need (Suc i) n rest (amounts[i := m]) personal1 pool1 s1
      = Ok (amounts', personal', pool', s')"
    using Suc.prems(1) by (auto simp: res_inv)
  note g = next_reward_group_OkD [OF g] and c = collect_reward_paid [OF c]
  have "length (amounts[i := m]) = REWARD_NUM" using Suc.prems(2) by simp
  note IH = Suc.IH [OF l [unfolded g(3)] this]
  have m: "amounts' ! i = m" using IH c(1) Suc.prems(2) by simp
  have paid: "reward_paid need accounts personal pool i m"
    using g c(2-5) by (auto simp: reward_paid_def)
  have other: "reward_paid need accounts personal1 pool1 j = reward_paid need accounts personal pool j" if "i < j" for j
    using that by (intro reward_paid_cong) (simp_all add: c(6,7))
  have "reward_paid need accounts personal pool j (amounts' ! j)" if "i \<le> j" "j < i + Suc n" for j
  proof (cases "j = i")
    case False
    with that have "Suc i \<le> j" "j < Suc i + n" by simp_all
    with IH have "reward_paid need accounts personal1 pool1 j (amounts' ! j)" by blast
    with other [of j] \<open>Suc i \<le> j\<close> show ?thesis by simp
  qed (use paid m in simp)
  moreover have "amounts' ! j = amounts ! j" if "j < i \<or> i + Suc n \<le> j" for j
    using IH that by auto
  moreover have "owed_after amounts' {Suc i..<Suc (i + n)} (rs[i := owed_less m (rs ! i)]) = owed_after amounts' {i..<Suc (i + n)} rs"
    "claimed_after amounts' {Suc i..<Suc (i + n)} (qs[i := claimed_more m (qs ! i)]) = claimed_after amounts' {i..<Suc (i + n)} qs"
    for rs qs
    using owed_after_step [of i "Suc (i + n)" amounts' rs] claimed_after_step [of i "Suc (i + n)" amounts' qs] by (simp_all add: m)
  moreover have "i + Suc n \<le> REWARD_NUM" using IH c(1) by auto
  ultimately show ?case
    using IH by (simp add: c(6,7))
qed auto

context token_programs
begin

text \<open>Every step takes its payment from its vault, and no more reaches its recipient.\<close>

lemma collect_rewards_loop_balances:
  "collect_rewards_loop T loader tp tp22 need i n (drop (group_size need * i) accounts) amounts personal pool s
     = Ok (amounts', personal', pool', s') \<Longrightarrow>
   length amounts = REWARD_NUM \<Longrightarrow>
   \<forall>j. i \<le> j \<and> j < i + n \<longrightarrow> key_of (group_recipient need accounts j) \<noteq> Some (vault_key pool j) \<Longrightarrow>
   balance s' k + paid_from pool amounts' {i..<i + n} k \<le> balance s k + paid_to need accounts amounts' {i..<i + n} k
   \<and> balance s k \<le> balance s' k + paid_from pool amounts' {i..<i + n} k
   \<and> (tp22 = None \<longrightarrow>
        balance s' k + paid_from pool amounts' {i..<i + n} k = balance s k + paid_to need accounts amounts' {i..<i + n} k)"
proof (induction n arbitrary: i amounts personal pool s)
  case 0
  then show ?case by (simp add: paid_from_def paid_to_def)
next
  case (Suc n)
  obtain vault recipient mint rest m personal1 pool1 s1 where
    g: "next_reward_group need (drop (group_size need * i) accounts) = Ok ((vault, recipient, mint), rest)"
    and c: "collect_reward T loader tp tp22 i vault recipient mint personal pool s = Ok (m, personal1, pool1, s1)"
    and l: "collect_rewards_loop T loader tp tp22 need (Suc i) n rest (amounts[i := m]) personal1 pool1 s1
      = Ok (amounts', personal', pool', s')"
    using Suc.prems(1) by (auto simp: res_inv)
  note g = next_reward_group_OkD [OF g] and c = collect_reward_paid [OF c]
  have len: "length (amounts[i := m]) = REWARD_NUM" using Suc.prems(2) by simp
  have m: "amounts' ! i = m"
    using collect_rewards_loop_paid [OF l [unfolded g(3)] len] c(1) Suc.prems(2) by simp
  have keys: "vault_key pool1 = vault_key pool"
  proof
    fix j show "vault_key pool1 j = vault_key pool j"
      by (cases "i < length (ps_reward_infos pool)"; cases "i = j") (simp_all add: c(7) vault_key_def claimed_more_def list_update_beyond not_less)
  qed
  have "tk_key vault \<noteq> tk_key recipient"
    using Suc.prems(3) g(2) c(2) by auto
  from vault_to_user_OkD [OF c(8) this] obtain fee where fee: "fee \<le> m" "m \<le> balance s (tk_key vault)"
      "balance s1 = (balance s)(tk_key vault := balance s (tk_key vault) - m,
         tk_key recipient := balance s (tk_key recipient) + (m - fee))" "tp22 = None \<longrightarrow> fee = 0"
    by blast
  have "{i..<i + Suc n} = insert i {Suc i..<Suc i + n}" by auto
  then have sums: "paid_from pool amounts' {i..<i + Suc n} k
        = (if tk_key vault = k then m else 0) + paid_from pool amounts' {Suc i..<Suc i + n} k"
      "paid_to need accounts amounts' {i..<i + Suc n} k
        = (if tk_key recipient = k then m else 0) + paid_to need accounts amounts' {Suc i..<Suc i + n} k"
    using g(2) by (simp_all add: paid_from_def paid_to_def m c(2))
  have from1: "paid_from pool1 = paid_from pool"
    by (simp add: paid_from_def keys fun_eq_iff)
  have "\<forall>j. Suc i \<le> j \<and> j < Suc i + n \<longrightarrow> key_of (group_recipient need accounts j) \<noteq> Some (vault_key pool1 j)"
    using Suc.prems(3) by (simp add: keys)
  note IH = Suc.IH [OF l [unfolded g(3)] len this, unfolded from1]
  define x where "x = paid_from pool amounts' {Suc i..<Suc i + n} k"
  define y where "y = paid_to need accounts amounts' {Suc i..<Suc i + n} k"
  have s1: "balance s1 k = (if k = tk_key recipient then balance s k + (m - fee)
      else if k = tk_key vault then balance s k - m else balance s k)"
    by (simp add: fee(3))
  show ?case
    using IH fee(1,2,4) \<open>tk_key vault \<noteq> tk_key recipient\<close>
    unfolding sums x_def [symmetric] y_def [symmetric] s1 by (cases "k = tk_key vault"; cases "k = tk_key recipient") auto
qed

end

section \<open>Properties\<close>

lemma count_initialized_le: "count_initialized rs \<le> length rs"
  by (induction rs) auto

lemma collect_rewards_paid:
  assumes "token_programs T balance"
    and "collect_rewards T loader accounts tp tp22 need personal pool s = Ok (amounts, personal', pool', s')"
    and "length (pe_reward_infos personal) = REWARD_NUM" "length (ps_reward_infos pool) = REWARD_NUM"
    and "recipients_apart need accounts pool" "get_status_by_bit pool CollectReward"
  shows "reward_groups need accounts = count_initialized (ps_reward_infos pool)"
    "\<forall>i < REWARD_NUM. if i < reward_groups need accounts then reward_paid need accounts personal pool i (amounts ! i) else amounts ! i = 0"
    "length amounts = REWARD_NUM"
    "personal' = personal\<lparr>pe_reward_infos := map2 owed_less amounts (pe_reward_infos personal)\<rparr>"
    "pool' = pool\<lparr>ps_reward_infos := map2 claimed_more amounts (ps_reward_infos pool)\<rparr>"
    "\<forall>k. balance s' k + paid_from pool amounts {..<REWARD_NUM} k \<le> balance s k + paid_to need accounts amounts {..<REWARD_NUM} k
       \<and> balance s k \<le> balance s' k + paid_from pool amounts {..<REWARD_NUM} k
       \<and> (tp22 = None \<longrightarrow>
            balance s' k + paid_from pool amounts {..<REWARD_NUM} k = balance s k + paid_to need accounts amounts {..<REWARD_NUM} k)"
proof -
  define n where "n = reward_groups need accounts"
  have n: "n = count_initialized (ps_reward_infos pool)"
    and l: "collect_rewards_loop T loader tp tp22 need 0 n (drop (group_size need * 0) accounts) (replicate REWARD_NUM 0) personal pool s
      = Ok (amounts, personal', pool', s')"
    using assms(2,6) unfolding n_def reward_groups_def group_size_def
    by (auto simp: collect_rewards_def check_required_accounts_length_def Let_def res_inv split: if_splits)
  note paid = collect_rewards_loop_paid [OF l, simplified]
  have le: "n \<le> REWARD_NUM" using n count_initialized_le [of "ps_reward_infos pool"] assms(4) by simp
  have zero: "amounts ! j = 0" if "n \<le> j" "j < REWARD_NUM" for j
    using paid that by simp
  show "reward_groups need accounts = count_initialized (ps_reward_infos pool)" "length amounts = REWARD_NUM"
    using n paid by (simp_all add: n_def)
  show "\<forall>i < REWARD_NUM. if i < reward_groups need accounts then reward_paid need accounts personal pool i (amounts ! i) else amounts ! i = 0"
    using paid zero by (simp add: n_def)
  have "owed_after amounts {0..<n} rs = map2 owed_less amounts rs" "claimed_after amounts {0..<n} qs = map2 claimed_more amounts qs"
    if "length rs = REWARD_NUM" "length qs = REWARD_NUM" for rs qs
    using that paid zero by (auto simp: owed_after_def claimed_after_def not_less intro!: nth_equalityI)
  with paid assms(3,4) show "personal' = personal\<lparr>pe_reward_infos := map2 owed_less amounts (pe_reward_infos personal)\<rparr>"
    "pool' = pool\<lparr>ps_reward_infos := map2 claimed_more amounts (ps_reward_infos pool)\<rparr>"
    by simp_all
  have sums: "paid_from pool amounts {..<REWARD_NUM} = paid_from pool amounts {0..<0 + n}"
    "paid_to need accounts amounts {..<REWARD_NUM} = paid_to need accounts amounts {0..<0 + n}"
    unfolding paid_from_def paid_to_def using le zero by (auto intro!: ext sum.mono_neutral_right)
  have "\<forall>j. 0 \<le> j \<and> j < 0 + n \<longrightarrow> key_of (group_recipient need accounts j) \<noteq> Some (vault_key pool j)"
    using assms(5) by (simp add: recipients_apart_def n_def list_all_iff)
  from token_programs.collect_rewards_loop_balances [OF assms(1) l length_replicate this]
  show "\<forall>k. balance s' k + paid_from pool amounts {..<REWARD_NUM} k \<le> balance s k + paid_to need accounts amounts {..<REWARD_NUM} k
       \<and> balance s k \<le> balance s' k + paid_from pool amounts {..<REWARD_NUM} k
       \<and> (tp22 = None \<longrightarrow>
            balance s' k + paid_from pool amounts {..<REWARD_NUM} k = balance s k + paid_to need accounts amounts {..<REWARD_NUM} k)"
    unfolding sums by blast
qed

text \<open>
  C40. Rewards are paid out only as far as they were emitted.  When the collection of rewards is
  enabled, as many groups of accounts are read as the pool has rewards.  Each names the vault of its
  reward and a recipient for the same token; it pays the smaller of what the position is owed and
  what the vault account shows, and only if the emissions of the reward that are not yet claimed
  cover everything that is owed.  What is paid is taken off the position and added to the claimed
  total of the pool, which then is within the emitted total, and nothing else of the two changes.
  On the token accounts, provided that no recipient is the vault of its own group, a key loses at
  most what was paid from it as a vault and gains at most what was paid to it as a recipient, and
  exactly that where the newer token program, which may charge a fee, is not given; so every token
  account that is neither a vault nor a recipient keeps its balance.  When the collection is
  disabled, nothing is paid and nothing changes.
\<close>

theorem rewards_paid_within_emissions:
  assumes "token_programs T balance"
    and "collect_rewards T loader accounts tp tp22 need personal pool s = Ok (amounts, personal', pool', s')"
    and "length (pe_reward_infos personal) = REWARD_NUM" "length (ps_reward_infos pool) = REWARD_NUM"
    and "recipients_apart need accounts pool"
  shows "if get_status_by_bit pool CollectReward then
      reward_groups need accounts = count_initialized (ps_reward_infos pool)
      \<and> (\<forall>i < REWARD_NUM. if i < reward_groups need accounts then reward_paid need accounts personal pool i (amounts ! i)
           else amounts ! i = 0)
      \<and> (\<forall>i < REWARD_NUM. let owed = pr_reward_amount_owed (pe_reward_infos personal ! i);
             owed' = pr_reward_amount_owed (pe_reward_infos personal' ! i);
             claimed = ri_reward_claimed (ps_reward_infos pool ! i);
             claimed' = ri_reward_claimed (ps_reward_infos pool' ! i) in
           owed' + amounts ! i = owed \<and> claimed' = claimed + amounts ! i
           \<and> (0 < amounts ! i \<longrightarrow> claimed' \<le> ri_reward_total_emissioned (ps_reward_infos pool' ! i)))
      \<and> personal' = personal\<lparr>pe_reward_infos := map2 owed_less amounts (pe_reward_infos personal)\<rparr>
      \<and> pool' = pool\<lparr>ps_reward_infos := map2 claimed_more amounts (ps_reward_infos pool)\<rparr>
      \<and> (\<forall>k. let out = paid_from pool amounts {..<REWARD_NUM} k; inc = paid_to need accounts amounts {..<REWARD_NUM} k in
           balance s k \<le> balance s' k + out \<and> balance s' k + out \<le> balance s k + inc
           \<and> (tp22 = None \<longrightarrow> balance s' k + out = balance s k + inc))
    else amounts = replicate REWARD_NUM 0 \<and> personal' = personal \<and> pool' = pool \<and> s' = s"
proof (cases "get_status_by_bit pool CollectReward")
  case True
  note paid = collect_rewards_paid [OF assms True]
  have "pr_reward_amount_owed (pe_reward_infos personal' ! i) + amounts ! i = pr_reward_amount_owed (pe_reward_infos personal ! i)
      \<and> ri_reward_claimed (ps_reward_infos pool' ! i) = ri_reward_claimed (ps_reward_infos pool ! i) + amounts ! i
      \<and> (0 < amounts ! i \<longrightarrow> ri_reward_claimed (ps_reward_infos pool' ! i) \<le> ri_reward_total_emissioned (ps_reward_infos pool' ! i))"
    if i: "i < REWARD_NUM" for i
  proof -
    have "amounts ! i \<le> pr_reward_amount_owed (pe_reward_infos personal ! i)
        \<and> (0 < amounts ! i \<longrightarrow> within_emissions personal pool i)"
      using paid(2) [rule_format, OF i] by (auto dest: reward_paid_bounds split: if_splits)
    with i paid(3) assms(3,4) show ?thesis
      by (auto simp: paid(4,5) owed_less_def claimed_more_def within_emissions_def)
  qed
  with True paid show ?thesis by (simp only: if_True Let_def) blast
next
  case False
  with assms(2) show ?thesis by (simp add: collect_rewards_def Let_def)
qed

text \<open>Two rewards: one vault holds less than is owed, the other pays all of it.\<close>

definition reward_tokens :: token_table where
  "reward_tokens k = \<lparr>tk_key = k, tk_program = 2, tk_mint = (if k < 82 then 5 else 6),
     tk_owner = (if k = 80 \<or> k = 82 then 1 else 100), tk_amount = (if k = 80 then 30 else if k = 82 then 100 else 4)\<rparr>"

definition reward_account :: "pubkey \<Rightarrow> remaining_account" where
  "reward_account k = \<lparr>ra_key = k, ra_extension = Panic, ra_token_account = Ok (reward_tokens k),
     ra_mint = Ok \<lparr>mint_key = k, mint_decimals = 6, mint_program = 2\<rparr>\<rparr>"

definition reward_accounts :: "remaining_account list" where
  "reward_accounts = map reward_account [80, 81, 5, 82, 83, 6]"

definition paying_reward :: "pubkey \<Rightarrow> pubkey \<Rightarrow> nat \<Rightarrow> nat \<Rightarrow> reward_info" where
  "paying_reward mint vault emitted claimed = (new_reward_info default_pubkey)\<lparr>ri_token_mint := mint, ri_token_vault := vault,
     ri_reward_total_emissioned := emitted, ri_reward_claimed := claimed\<rparr>"

definition reward_pool :: pool_state where
  "reward_pool = default_pool\<lparr>ps_reward_infos :=
     [paying_reward 5 80 100 20, paying_reward 6 82 10 3, new_reward_info default_pubkey]\<rparr>"

definition reward_position :: personal_position where
  "reward_position = default_personal_position\<lparr>pe_reward_infos :=
     map (\<lambda>n. \<lparr>pr_growth_inside_last_x64 = 0, pr_reward_amount_owed = n\<rparr>) [50, 7, 0]\<rparr>"

lemma reward_samples:
  "length (pe_reward_infos reward_position) = REWARD_NUM" "length (ps_reward_infos reward_pool) = REWARD_NUM"
  "reward_groups True reward_accounts = 2" "get_status_by_bit reward_pool CollectReward"
  by (simp_all add: reward_position_def reward_pool_def REWARD_NUM_def reward_groups_def group_size_def
      reward_accounts_def get_status_by_bit_def default_pool_def)

lemma reward_samples_apart: "recipients_apart True reward_accounts reward_pool"
proof -
  have "[0..<2] = [0, 1 :: nat]" by (simp add: upt_rec)
  then show ?thesis
    unfolding recipients_apart_def reward_samples(3)
    by (simp add: group_recipient_def group_size_def reward_accounts_def reward_account_def reward_tokens_def vault_key_def
        reward_pool_def paying_reward_def)
qed

theorem rewards_paid_within_emissions_witness:
  "\<exists>personal' pool' s'. collect_rewards token_ref 1 reward_accounts 1 (Some 2) True reward_position reward_pool reward_tokens
       = Ok ([30, 7, 0], personal', pool', s')
     \<and> map pr_reward_amount_owed (pe_reward_infos personal') = [20, 0, 0]
     \<and> map ri_reward_claimed (ps_reward_infos pool') = [50, 10, 0]
     \<and> table_balance s' 80 = 0 \<and> table_balance s' 82 = 93 \<and> table_balance s' 81 \<le> 34"
proof -
  have infos: "ps_reward_infos reward_pool = [paying_reward 5 80 100 20, paying_reward 6 82 10 3, new_reward_info default_pubkey]"
    "count_initialized (ps_reward_infos reward_pool) = 2"
    by (simp_all add: reward_pool_def paying_reward_def reward_initialized_def new_reward_info_def default_pubkey_def)
  have owed: "pe_reward_infos reward_position = map (\<lambda>n. \<lparr>pr_growth_inside_last_x64 = 0, pr_reward_amount_owed = n\<rparr>) [50, 7, 0]"
    by (simp add: reward_position_def)
  have steps: "collect_rewards_loop T loader tp tp22 need i 2 accounts amounts personal pool s
      = collect_rewards_loop T loader tp tp22 need i (Suc (Suc 0)) accounts amounts personal pool s"
    for T :: "token_table token_lib" and loader tp tp22 need i accounts amounts personal pool s
    by (simp add: numeral_2_eq_2)
  have list: "(replicate 3 0)[0 := 30, Suc 0 := 7] = [30, 7, 0 :: nat]"
    by (simp add: numeral_3_eq_3)
  have "\<exists>personal' pool' s'. collect_rewards token_ref 1 reward_accounts 1 (Some 2) True reward_position reward_pool reward_tokens
       = Ok ([30, 7, 0], personal', pool', s')"
    unfolding collect_rewards_def Let_def
    by (simp add: reward_samples(4) check_required_accounts_length_def infos steps list paying_reward_def
        new_reward_info_def default_pubkey_def reward_initialized_def reward_accounts_def reward_account_def next_reward_group_def collect_reward_def reward_tokens_def owed REWARD_NUM_def check_unclaimed_reward_def add_reward_clamed_def
        checked_add_def checked_sub_def transfer_from_pool_vault_to_user_def token_ref_def move_tokens_def Let_def
        del: One_nat_def)
  then obtain personal' pool' s' where
    c: "collect_rewards token_ref 1 reward_accounts 1 (Some 2) True reward_position reward_pool reward_tokens
       = Ok ([30, 7, 0], personal', pool', s')" by blast
  note p = rewards_paid_within_emissions [OF token_programs_ref c reward_samples(1,2) reward_samples_apart]
  have sums: "paid_from reward_pool [30, 7, 0] {..<REWARD_NUM} = (\<lambda>k. (if k = 80 then 30 else 0) + (if k = 82 then 7 else 0))"
    "paid_to True reward_accounts [30, 7, 0] {..<REWARD_NUM} = (\<lambda>k. (if k = 81 then 30 else 0) + (if k = 83 then 7 else 0))"
    by (auto simp: paid_from_def paid_to_def REWARD_NUM_def lessThan_Suc numeral_3_eq_3 vault_key_def infos paying_reward_def
        new_reward_info_def group_recipient_def group_size_def reward_accounts_def reward_account_def reward_tokens_def)
  have "table_balance s' k + (paid_from reward_pool [30, 7, 0] {..<REWARD_NUM} k)
      \<le> table_balance reward_tokens k + paid_to True reward_accounts [30, 7, 0] {..<REWARD_NUM} k
     \<and> table_balance reward_tokens k \<le> table_balance s' k + paid_from reward_pool [30, 7, 0] {..<REWARD_NUM} k" for k
    using p by (simp add: reward_samples(4) Let_def)
  from this [of 80] this [of 81] this [of 82]
  have "table_balance s' 80 = 0" "table_balance s' 82 = 93" "table_balance s' 81 \<le> 34"
    by (simp_all add: sums) (simp_all add: table_balance_def reward_tokens_def)
  moreover have "map pr_reward_amount_owed (pe_reward_infos personal') = [20, 0, 0]"
    "map ri_reward_claimed (ps_reward_infos pool') = [50, 10, 0]"
    using p by (simp_all add: reward_samples(4) owed infos owed_less_def claimed_more_def paying_reward_def new_reward_info_def)
  ultimately show ?thesis using c by (intro exI conjI)
qed

end
