(* ===== verification/Oracle.thy ===== *)
theory Oracle
  imports Full_Math
begin

text \<open>
  \<open>states/oracle.rs\<close>: a ring of the last thousand observations of the price, each with the
  running sum of price times time.  The account that holds the ring is created by another
  program; loading it is in \<open>Account_Load\<close>.
\<close>

type_synonym i64 = int

section \<open>The ring\<close>

definition OBSERVATION_NUM :: usize where
  "OBSERVATION_NUM = 1000"

record observation =
  ob_block_timestamp :: u32
  ob_sqrt_price_x64 :: u128
  ob_cumulative_time_price_x64 :: u128

definition default_observation :: observation where
  "default_observation =
     \<lparr>ob_block_timestamp = 0, ob_sqrt_price_x64 = 0, ob_cumulative_time_price_x64 = 0\<rparr>"

record observation_state =
  obs_initialized :: bool
  obs_pool_id :: pubkey
  obs_observations :: "observation list"

definition default_observation_state :: observation_state where
  "default_observation_state =
     \<lparr>obs_initialized = False, obs_pool_id = default_pubkey,
      obs_observations = replicate OBSERVATION_NUM default_observation\<rparr>"

definition observation_initialize :: "observation_state \<Rightarrow> pubkey \<Rightarrow> observation_state res" where
  "observation_initialize self pool_id =
     rbind (require (obs_initialized self = False) RequireEqViolated) (\<lambda>_.
     rbind (require (obs_pool_id self = default_pubkey) RequireKeysEqViolated) (\<lambda>_.
     Ok (self\<lparr>obs_pool_id := pool_id\<rparr>)))"

text \<open>An element of the array, which panics out of range.\<close>

definition observation_at :: "observation_state \<Rightarrow> u16 \<Rightarrow> observation res" where
  "observation_at self i = (if i < length (obs_observations self) then Ok (obs_observations self ! i) else Panic)"

definition update_check ::
  "uint_lib \<Rightarrow> observation_state \<Rightarrow> u32 \<Rightarrow> u128 \<Rightarrow> u16 \<Rightarrow> u32 \<Rightarrow> (observation_state \<times> u16 option) res"
where
  "update_check U self block_timestamp sqrt_price_x64 observation_index observation_update_duration =
     (if \<not> obs_initialized self then
        rbind (observation_at self observation_index) (\<lambda>elem.
        Ok (self\<lparr>obs_initialized := True,
                 obs_observations := (obs_observations self)[observation_index :=
                   elem\<lparr>ob_block_timestamp := block_timestamp, ob_sqrt_price_x64 := sqrt_price_x64,
                     ob_cumulative_time_price_x64 := 0\<rparr>]\<rparr>,
            Some observation_index))
      else
        rbind (observation_at self observation_index) (\<lambda>observation.
        let delta_time = saturating_sub block_timestamp (ob_block_timestamp observation) in
        if delta_time < observation_update_duration \<or> sqrt_price_x64 = ob_sqrt_price_x64 observation
        then Ok (self, None)
        else
          rbind (mul_div_floor_u128 U sqrt_price_x64 sqrt_price_x64 Q64) (\<lambda>p.
          rbind (unwrap p) (\<lambda>cur_price_x64.
          rbind (u_as_u128 U cur_price_x64) (\<lambda>cur_price_x64.
          rbind (unwrap (checked_mul 128 cur_price_x64 delta_time)) (\<lambda>delta_price_x64.
          rbind (if observation_index = OBSERVATION_NUM - 1 then Ok 0
                 else chk_add 16 observation_index 1) (\<lambda>next_observation_index.
          rbind (observation_at self next_observation_index) (\<lambda>elem.
          Ok (self\<lparr>obs_observations := (obs_observations self)[next_observation_index :=
                elem\<lparr>ob_block_timestamp := block_timestamp, ob_sqrt_price_x64 := sqrt_price_x64,
                  ob_cumulative_time_price_x64 :=
                    wrapping_add 128 (ob_cumulative_time_price_x64 observation) delta_price_x64\<rparr>]\<rparr>,
              Some next_observation_index)))))))))"

text \<open>\<open>Clock::get().unwrap().unix_timestamp as u32\<close>\<close>

definition block_timestamp :: "i64 \<Rightarrow> u32" where
  "block_timestamp unix_timestamp = nat (unix_timestamp mod 2 ^ 32)"


section \<open>The history that the ring holds\<close>

text \<open>
  The abstract state is the list of all observations, the latest first; the ring holds the last
  thousand of them, ending at its index.
\<close>

definition ring_holds :: "observation_state \<Rightarrow> u16 \<Rightarrow> observation list \<Rightarrow> bool" where
  "ring_holds s i hist \<longleftrightarrow> obs_initialized s \<and> length (obs_observations s) = OBSERVATION_NUM
     \<and> i < OBSERVATION_NUM \<and> hist \<noteq> []
     \<and> (\<forall>k < min OBSERVATION_NUM (length hist).
          obs_observations s ! ((i + OBSERVATION_NUM - k) mod OBSERVATION_NUM) = hist ! k)"

lemma ring_holds_latest: "ring_holds s i (h # hist) \<Longrightarrow> obs_observations s ! i = h"
  by (auto simp: ring_holds_def OBSERVATION_NUM_def)

lemma ring_push:
  assumes "ring_holds s i hist"
  defines "j \<equiv> (i + 1) mod OBSERVATION_NUM"
  shows "ring_holds (s\<lparr>obs_observations := (obs_observations s)[j := e]\<rparr>) j (e # hist)"
proof -
  note r = assms(1) [unfolded ring_holds_def]
  have j: "j < OBSERVATION_NUM" "i < OBSERVATION_NUM"
    using r by (auto simp: j_def OBSERVATION_NUM_def)
  have "(obs_observations s)[j := e] ! ((j + OBSERVATION_NUM - k) mod OBSERVATION_NUM) = (e # hist) ! k"
    if k: "k < min OBSERVATION_NUM (length (e # hist))" for k
  proof (cases k)
    case 0
    then show ?thesis using j r by simp
  next
    case (Suc m)
    then have m: "m < min OBSERVATION_NUM (length hist)" "Suc m < OBSERVATION_NUM"
      using k by auto
    have eq: "(j + OBSERVATION_NUM - Suc m) mod OBSERVATION_NUM = (i + OBSERVATION_NUM - m) mod OBSERVATION_NUM"
    proof (cases "i + 1 = OBSERVATION_NUM")
      case True
      then have "j + OBSERVATION_NUM - Suc m = i - m" "i + OBSERVATION_NUM - m = (i - m) + OBSERVATION_NUM"
        using m(2) by (auto simp: j_def)
      then show ?thesis by simp
    next
      case False
      then have "j = i + 1" using j(2) by (simp add: j_def)
      then show ?thesis by simp
    qed
    have "(j + OBSERVATION_NUM - Suc m) mod OBSERVATION_NUM \<noteq> j"
    proof (cases "Suc m \<le> j")
      case True
      then have "j + OBSERVATION_NUM - Suc m = (j - Suc m) + OBSERVATION_NUM" by simp
      then have "(j + OBSERVATION_NUM - Suc m) mod OBSERVATION_NUM = (j - Suc m) mod OBSERVATION_NUM"
        by (simp only: mod_add_self2)
      also have "\<dots> = j - Suc m" using True j by simp
      finally show ?thesis using True by simp
    next
      case False
      then have "j + OBSERVATION_NUM - Suc m < OBSERVATION_NUM" "j < j + OBSERVATION_NUM - Suc m"
        using m(2) by auto
      then show ?thesis by simp
    qed
    with r m(1) show ?thesis by (simp add: Suc eq)
  qed
  with r j show ?thesis
    by (simp add: ring_holds_def)
qed

text \<open>What an observation made at \<open>t\<close> with this price adds to the history.\<close>

definition next_observation :: "observation \<Rightarrow> u32 \<Rightarrow> u128 \<Rightarrow> observation" where
  "next_observation prev t price = \<lparr>ob_block_timestamp = t, ob_sqrt_price_x64 = price,
     ob_cumulative_time_price_x64 =
       (ob_cumulative_time_price_x64 prev + price * price div 2 ^ 64 * (t - ob_block_timestamp prev)) mod 2 ^ 128\<rparr>"


lemma update_check_eq:
  fixes t :: nat
  assumes U: "uint_crate U" and "price < 2 ^ 128" "dur < 2 ^ 32" and ring: "ring_holds s i (latest # older)"
  defines "d \<equiv> t - ob_block_timestamp latest" and "p \<equiv> price * price div 2 ^ 64"
    and "j \<equiv> (i + 1) mod OBSERVATION_NUM"
  shows "update_check U s t price i dur =
    (if d < dur \<or> price = ob_sqrt_price_x64 latest then Ok (s, None)
     else if p < 2 ^ 128 \<and> p * d < 2 ^ 128
     then Ok (s\<lparr>obs_observations := (obs_observations s)[j := next_observation latest t price]\<rparr>, Some j)
     else Panic)"
proof -
  have i: "i < OBSERVATION_NUM" "length (obs_observations s) = OBSERVATION_NUM" "obs_initialized s"
    using ring by (auto simp: ring_holds_def)
  have at_i: "observation_at s i = Ok latest"
    using i ring_holds_latest [OF ring] by (simp add: observation_at_def)
  have sat: "saturating_sub t (ob_block_timestamp latest) = d"
    by (auto simp: saturating_sub_def d_def)
  have div: "mul_div_floor_u128 U price price Q64 = Ok (fits 128 p)"
    using uint_crate.mul_div_floor_u128_eq [OF assms(1,2,2), of "2 ^ 64"] by (simp add: p_def)
  have cast: "u_as_u128 U p = Ok p" if "p < 2 ^ 128"
    using that uint_crate.u_as_u128 [OF U] by simp
  have j: "(if i = OBSERVATION_NUM - 1 then Ok 0 else chk_add 16 i 1) = Ok j" "j < OBSERVATION_NUM"
    using i(1) by (auto simp: j_def OBSERVATION_NUM_def chk_add_def)
  obtain e where at_j: "observation_at s j = Ok e"
    using j(2) i(2) by (simp add: observation_at_def)
  have e: "e\<lparr>ob_block_timestamp := t, ob_sqrt_price_x64 := price, ob_cumulative_time_price_x64 :=
      wrapping_add 128 (ob_cumulative_time_price_x64 latest) (p * d)\<rparr> = next_observation latest t price"
    by (simp add: next_observation_def wrapping_add_def p_def d_def)
  show ?thesis
  proof (cases "p < 2 ^ 128")
    case True
    with i(3) show ?thesis
      unfolding update_check_def Let_def at_i rbind.simps sat div j(1) e [symmetric]
      by (simp add: fits_def cast checked_mul_def at_j)
  next
    case False
    with i(3) show ?thesis
      unfolding update_check_def Let_def at_i rbind.simps sat div by (simp add: fits_def)
  qed
qed

section \<open>Properties\<close>

text \<open>
  C37. The ring of observations implements a history: a first update starts it; a later one
  leaves it alone while the latest observation is too recent or has the same price, and
  otherwise adds exactly one observation whose cumulative price is the previous one plus
  price times elapsed time, the oldest of a thousand being overwritten.  It panics exactly
  when that price, or that product, leaves 128 bits.
\<close>

theorem update_check_refines_history:
  assumes "uint_crate U" "price < 2 ^ 128" "dur < 2 ^ 32"
    and "if obs_initialized s then ring_holds s i (latest # older) else
      length (obs_observations s) = OBSERVATION_NUM \<and> i < OBSERVATION_NUM"
  shows "if \<not> obs_initialized s then
      \<exists>s'. update_check U s t price i dur = Ok (s', Some i) \<and> ring_holds s' i [\<lparr>ob_block_timestamp = t,
        ob_sqrt_price_x64 = price, ob_cumulative_time_price_x64 = 0\<rparr>]
    else if t - ob_block_timestamp latest < dur \<or> price = ob_sqrt_price_x64 latest then
      update_check U s t price i dur = Ok (s, None)
    else if 2 ^ 128 \<le> price * price div 2 ^ 64
      \<or> 2 ^ 128 \<le> price * price div 2 ^ 64 * (t - ob_block_timestamp latest) then
      update_check U s t price i dur = Panic
    else \<exists>s' j. update_check U s t price i dur = Ok (s', Some j) \<and> obs_pool_id s' = obs_pool_id s
      \<and> ring_holds s' j (next_observation latest t price # latest # older)"
proof (cases "obs_initialized s")
  case False
  then show ?thesis
    using assms(4) by (simp add: update_check_def observation_at_def ring_holds_def OBSERVATION_NUM_def)
next
  case True
  then have ring: "ring_holds s i (latest # older)" using assms(4) by simp
  show ?thesis
    using True ring_push [OF ring, of "next_observation latest t price"]
    unfolding update_check_eq [OF assms(1-3) ring] by (auto simp: not_le not_less)
qed


definition sample_ring :: observation_state where
  "sample_ring = \<lparr>obs_initialized = True, obs_pool_id = 1, obs_observations =
     \<lparr>ob_block_timestamp = 100, ob_sqrt_price_x64 = 2 ^ 64, ob_cumulative_time_price_x64 = 7\<rparr>
       # replicate 999 default_observation\<rparr>"

lemma sample_ring_holds: "ring_holds sample_ring 0
    [\<lparr>ob_block_timestamp = 100, ob_sqrt_price_x64 = 2 ^ 64, ob_cumulative_time_price_x64 = 7\<rparr>]"
  by (simp add: ring_holds_def sample_ring_def OBSERVATION_NUM_def)

theorem update_check_refines_history_witness:
  "\<exists>s' j. update_check uint_ref sample_ring 120 (2 ^ 65) 0 15 = Ok (s', Some j)
     \<and> ring_holds s' j [\<lparr>ob_block_timestamp = 120, ob_sqrt_price_x64 = 2 ^ 65,
          ob_cumulative_time_price_x64 = 7 + 20 * 2 ^ 66\<rparr>,
         \<lparr>ob_block_timestamp = 100, ob_sqrt_price_x64 = 2 ^ 64, ob_cumulative_time_price_x64 = 7\<rparr>]"
proof -
  have init: "obs_initialized sample_ring" by (simp add: sample_ring_def)
  show ?thesis
    using update_check_refines_history [OF uint_crate_ref, of "2 ^ 65" 15 sample_ring 0
        "\<lparr>ob_block_timestamp = 100, ob_sqrt_price_x64 = 2 ^ 64, ob_cumulative_time_price_x64 = 7\<rparr>" "[]" 120]
      sample_ring_holds init
    by (auto simp: next_observation_def)
qed


end
