(* ===== verification/Swap_Core.thy ===== *)
theory Swap_Core
  imports Swap_Math Oracle Pool
begin

text \<open>
  \<open>swap_internal\<close> of \<open>instructions/swap.rs\<close>: a swap walks over the tick arrays of a pool, one step
  of constant liquidity at a time, until the amount is used up or the price limit is reached.
  The loop is a partial function: \<open>None\<close> is a loop that does not end, and \<open>Swap_Bounds\<close> proves
  that it always ends.
\<close>

section \<open>State\<close>

record swap_state =
  sw_amount_specified_remaining :: u64
  sw_amount_calculated :: u64
  sw_sqrt_price_x64 :: u128
  sw_tick :: i32
  sw_fee_growth_global_x64 :: u128
  sw_fee_amount :: u64
  sw_protocol_fee :: u64
  sw_fund_fee :: u64
  sw_liquidity :: u128

record step_computations =
  sc_sqrt_price_start_x64 :: u128
  sc_tick_next :: i32
  sc_initialized :: bool
  sc_sqrt_price_next_x64 :: u128
  sc_amount_in :: u64
  sc_amount_out :: u64
  sc_fee_amount :: u64

definition default_step_computations :: step_computations where
  "default_step_computations =
     \<lparr>sc_sqrt_price_start_x64 = 0, sc_tick_next = 0, sc_initialized = False,
      sc_sqrt_price_next_x64 = 0, sc_amount_in = 0, sc_amount_out = 0, sc_fee_amount = 0\<rparr>"

text \<open>The variables of \<open>swap_internal\<close> that its loop only reads.\<close>

record swap_env =
  se_amm_config :: amm_config
  se_pool_state :: pool_state
  se_tickarray_bitmap_extension :: "bitmap_extension option"
  se_sqrt_price_limit_x64 :: u128
  se_zero_for_one :: bool
  se_is_base_input :: bool
  se_updated_reward_infos :: "reward_info list"

text \<open>
  The variables that it changes.  An array that \<open>pop_front\<close> has taken off the queue and that is
  no longer the current one keeps what was written to it: these arrays are \<open>sv_passed\<close>.
\<close>

record swap_vars =
  sv_state :: swap_state
  sv_passed :: "tick_array list"
  sv_tick_array_current :: tick_array
  sv_tick_array_states :: "tick_array list"
  sv_is_match_pool_current_tick_array :: bool
  sv_current_vaild_tick_array_start_index :: i32

section \<open>Finding the next tick\<close>

text \<open>The loop that looks for the first tick array: as many turns as the queue is long.\<close>

fun find_first_tick_array ::
  "i32 \<Rightarrow> tick_array list \<Rightarrow> tick_array \<Rightarrow> tick_array list \<Rightarrow>
   tick_array list \<times> tick_array \<times> tick_array list" where
  "find_first_tick_array start_index passed current [] = (passed, current, [])"
| "find_first_tick_array start_index passed current (a # states) =
     (if ta_start_tick_index current = start_index then (passed, current, a # states)
      else find_first_tick_array start_index (passed @ [current]) a states)"

definition pop_first_tick_array ::
  "i32 \<Rightarrow> tick_array list \<Rightarrow> (tick_array list \<times> tick_array \<times> tick_array list) res" where
  "pop_first_tick_array start_index tick_array_states =
     (case tick_array_states of
        [] \<Rightarrow> Panic
      | current # states \<Rightarrow> Ok (find_first_tick_array start_index [] current states))"

text \<open>The loop that advances to the next tick array in use.\<close>

fun pop_tick_arrays ::
  "pda \<Rightarrow> pool_state \<Rightarrow> i32 \<Rightarrow> tick_array list \<Rightarrow> tick_array \<Rightarrow> tick_array list \<Rightarrow>
   (tick_array list \<times> tick_array \<times> tick_array list) res" where
  "pop_tick_arrays D pool start_index passed current [] =
     (if ta_start_tick_index current = start_index then Ok (passed, current, [])
      else Err (Code NotEnoughTickArrayAccount))"
| "pop_tick_arrays D pool start_index passed current (a # states) =
     (if ta_start_tick_index current = start_index then Ok (passed, current, a # states)
      else
        rbind (pool_key D pool) (\<lambda>key.
        rbind (require (ta_pool_id a = key) RequireKeysEqViolated) (\<lambda>_.
        pop_tick_arrays D pool start_index (passed @ [current]) a states)))"

definition next_tick_in_array :: "swap_env \<Rightarrow> swap_vars \<Rightarrow> (tick_state \<times> swap_vars) res" where
  "next_tick_in_array env v =
     (let tick_array_current = sv_tick_array_current v in
      rbind (next_initialized_tick tick_array_current (sw_tick (sv_state v))
               (ps_tick_spacing (se_pool_state env)) (se_zero_for_one env)) (\<lambda>found.
      case found of
        Some i \<Rightarrow> Ok (ta_ticks tick_array_current ! i, v)
      | None \<Rightarrow>
          if \<not> sv_is_match_pool_current_tick_array v then
            rbind (first_initialized_tick tick_array_current (se_zero_for_one env)) (\<lambda>i.
            Ok (ta_ticks tick_array_current ! i, v\<lparr>sv_is_match_pool_current_tick_array := True\<rparr>))
          else Ok (default_tick_state, v)))"

definition next_tick_in_next_array :: "pda \<Rightarrow> swap_env \<Rightarrow> swap_vars \<Rightarrow> (tick_state \<times> swap_vars) res" where
  "next_tick_in_next_array D env v =
     rbind (pool_next_initialized_tick_array_start_index (se_pool_state env)
              (se_tickarray_bitmap_extension env) (sv_current_vaild_tick_array_start_index v)
              (se_zero_for_one env)) (\<lambda>next_initialized_tickarray_index.
     rbind (require (next_initialized_tickarray_index \<noteq> None) (Code LiquidityInsufficient)) (\<lambda>_.
     rbind (unwrap next_initialized_tickarray_index) (\<lambda>index.
     rbind (pop_tick_arrays D (se_pool_state env) index (sv_passed v) (sv_tick_array_current v)
              (sv_tick_array_states v)) (\<lambda>(passed, current, states).
     rbind (first_initialized_tick current (se_zero_for_one env)) (\<lambda>i.
     Ok (ta_ticks current ! i,
         v\<lparr>sv_passed := passed, sv_tick_array_current := current, sv_tick_array_states := states,
           sv_current_vaild_tick_array_start_index := index\<rparr>))))))"

definition find_next_tick :: "pda \<Rightarrow> swap_env \<Rightarrow> swap_vars \<Rightarrow> (tick_state \<times> swap_vars) res" where
  "find_next_tick D env v =
     rbind (next_tick_in_array env v) (\<lambda>(next_tick, v).
     if \<not> tick_is_initialized next_tick then next_tick_in_next_array D env v
     else Ok (next_tick, v))"

section \<open>One step\<close>

text \<open>The price of the next tick and the price that this step aims at, with the checks on both.\<close>

definition swap_step_start :: "uint_lib \<Rightarrow> swap_env \<Rightarrow> swap_state \<Rightarrow> tick_state \<Rightarrow> (step_computations \<times> u128) res"
where
  "swap_step_start U env state next_tick =
     (let step = default_step_computations\<lparr>sc_sqrt_price_start_x64 := sw_sqrt_price_x64 state,
                   sc_tick_next := ts_tick next_tick,
                   sc_initialized := tick_is_initialized next_tick\<rparr>;
          step = (if sc_tick_next step < MIN_TICK then step\<lparr>sc_tick_next := MIN_TICK\<rparr>
                  else if sc_tick_next step > MAX_TICK then step\<lparr>sc_tick_next := MAX_TICK\<rparr>
                  else step) in
      rbind (get_sqrt_price_at_tick U (sc_tick_next step)) (\<lambda>price.
      let step = step\<lparr>sc_sqrt_price_next_x64 := price\<rparr>;
          zero_for_one = se_zero_for_one env;
          limit = se_sqrt_price_limit_x64 env;
          target_price =
            (if (zero_for_one \<and> sc_sqrt_price_next_x64 step < limit)
                \<or> (\<not> zero_for_one \<and> sc_sqrt_price_next_x64 step > limit)
             then limit else sc_sqrt_price_next_x64 step) in
      rbind (if zero_for_one then
               rbind (require (sw_tick state \<ge> sc_tick_next step) RequireGteViolated) (\<lambda>_.
               rbind (require (sc_sqrt_price_start_x64 step \<ge> sc_sqrt_price_next_x64 step)
                        RequireGteViolated) (\<lambda>_.
               require (sc_sqrt_price_start_x64 step \<ge> target_price) RequireGteViolated))
             else
               rbind (require (sc_tick_next step > sw_tick state) RequireGtViolated) (\<lambda>_.
               rbind (require (sc_sqrt_price_next_x64 step \<ge> sc_sqrt_price_start_x64 step)
                        RequireGteViolated) (\<lambda>_.
               require (target_price \<ge> sc_sqrt_price_start_x64 step) RequireGteViolated))) (\<lambda>_.
      Ok (step, target_price))))"

text \<open>The move of the price, and what it takes from the amounts.\<close>

definition swap_step_move ::
  "uint_lib \<Rightarrow> swap_env \<Rightarrow> u128 \<Rightarrow> swap_state \<Rightarrow> step_computations \<Rightarrow> (swap_state \<times> step_computations) res"
where
  "swap_step_move U env target_price state step =
     rbind (compute_swap_step U (sc_sqrt_price_start_x64 step) target_price (sw_liquidity state)
              (sw_amount_specified_remaining state) (ac_trade_fee_rate (se_amm_config env))
              (se_is_base_input env) (se_zero_for_one env)) (\<lambda>swap_step.
     rbind (if se_zero_for_one env
            then require (ss_sqrt_price_next_x64 swap_step \<ge> target_price) RequireGteViolated
            else require (target_price \<ge> ss_sqrt_price_next_x64 swap_step) RequireGteViolated) (\<lambda>_.
     let state = state\<lparr>sw_sqrt_price_x64 := ss_sqrt_price_next_x64 swap_step\<rparr>;
         step = step\<lparr>sc_amount_in := ss_amount_in swap_step, sc_amount_out := ss_amount_out swap_step,
                     sc_fee_amount := ss_fee_amount swap_step\<rparr> in
     if se_is_base_input env then
       rbind (chk_add 64 (sc_amount_in step) (sc_fee_amount step)) (\<lambda>paid.
       rbind (unwrap (checked_sub (sw_amount_specified_remaining state) paid)) (\<lambda>remaining.
       rbind (unwrap (checked_add 64 (sw_amount_calculated state) (sc_amount_out step))) (\<lambda>calculated.
       Ok (state\<lparr>sw_amount_specified_remaining := remaining, sw_amount_calculated := calculated\<rparr>, step))))
     else
       rbind (unwrap (checked_sub (sw_amount_specified_remaining state) (sc_amount_out step))) (\<lambda>remaining.
       rbind (chk_add 64 (sc_amount_in step) (sc_fee_amount step)) (\<lambda>paid.
       rbind (unwrap (checked_add 64 (sw_amount_calculated state) paid)) (\<lambda>calculated.
       Ok (state\<lparr>sw_amount_specified_remaining := remaining, sw_amount_calculated := calculated\<rparr>, step))))))"

text \<open>The share of a fee at a rate, computed in \<open>U128\<close>.\<close>

definition fee_share :: "uint_lib \<Rightarrow> u64 \<Rightarrow> u32 \<Rightarrow> u64 res" where
  "fee_share U step_fee_amount rate =
     rbind (unwrap (u_checked_mul U 128 step_fee_amount rate)) (\<lambda>x.
     rbind (unwrap (u_checked_div U 128 x FEE_RATE_DENOMINATOR_VALUE)) (\<lambda>x.
     u_as_u64 U x))"

text \<open>
  The two blocks that take the protocol's and the fund's share out of the fee, and the block that
  adds the rest to the growth of the fees per unit of liquidity.
\<close>

definition take_fee_share ::
  "uint_lib \<Rightarrow> u64 \<Rightarrow> u32 \<Rightarrow> u64 \<Rightarrow> step_computations \<Rightarrow> (u64 \<times> step_computations) res" where
  "take_fee_share U step_fee_amount rate fee_total step =
     (if rate > 0 then
        rbind (fee_share U step_fee_amount rate) (\<lambda>delta.
        rbind (unwrap (checked_sub (sc_fee_amount step) delta)) (\<lambda>rest.
        rbind (unwrap (checked_add 64 fee_total delta)) (\<lambda>fee_total.
        Ok (fee_total, step\<lparr>sc_fee_amount := rest\<rparr>))))
      else Ok (fee_total, step))"

definition grow_fees :: "uint_lib \<Rightarrow> swap_state \<Rightarrow> step_computations \<Rightarrow> swap_state res" where
  "grow_fees U state step =
     (if sw_liquidity state > 0 then
        rbind (mul_div_floor_u128 U (sc_fee_amount step) Q64 (sw_liquidity state)) (\<lambda>m.
        rbind (unwrap m) (\<lambda>d.
        rbind (u_as_u128 U d) (\<lambda>delta.
        rbind (unwrap (checked_add 128 (sw_fee_growth_global_x64 state) delta)) (\<lambda>growth.
        rbind (unwrap (checked_add 64 (sw_fee_amount state) (sc_fee_amount step))) (\<lambda>fee.
        Ok (state\<lparr>sw_fee_growth_global_x64 := growth, sw_fee_amount := fee\<rparr>))))))
      else Ok state)"

definition swap_step_fees ::
  "uint_lib \<Rightarrow> swap_env \<Rightarrow> swap_state \<Rightarrow> step_computations \<Rightarrow> (swap_state \<times> step_computations) res" where
  "swap_step_fees U env state step =
     (let step_fee_amount = sc_fee_amount step; amm_config = se_amm_config env in
      rbind (take_fee_share U step_fee_amount (ac_protocol_fee_rate amm_config)
               (sw_protocol_fee state) step) (\<lambda>(fee, step).
      let state = state\<lparr>sw_protocol_fee := fee\<rparr> in
      rbind (take_fee_share U step_fee_amount (ac_fund_fee_rate amm_config)
               (sw_fund_fee state) step) (\<lambda>(fee, step).
      let state = state\<lparr>sw_fund_fee := fee\<rparr> in
      rbind (grow_fees U state step) (\<lambda>state. Ok (state, step)))))"

text \<open>Crossing the tick that the step has reached, or the tick of the new price.\<close>

definition cross_next_tick ::
  "swap_env \<Rightarrow> tick_state \<Rightarrow> swap_state \<Rightarrow> tick_array \<Rightarrow> (swap_state \<times> tick_array) res" where
  "cross_next_tick env next_tick state tick_array_current =
     (let zero_for_one = se_zero_for_one env; pool_state = se_pool_state env in
      rbind (tick_cross next_tick
               (if zero_for_one then sw_fee_growth_global_x64 state
                else ps_fee_growth_global_0_x64 pool_state)
               (if zero_for_one then ps_fee_growth_global_1_x64 pool_state
                else sw_fee_growth_global_x64 state)
               (se_updated_reward_infos env)) (\<lambda>(liquidity_net, next_tick).
      rbind (update_tick_state tick_array_current (ts_tick next_tick)
               (ps_tick_spacing pool_state) next_tick) (\<lambda>tick_array_current.
      rbind (if zero_for_one then chk_i 128 (- liquidity_net) else Ok liquidity_net) (\<lambda>liquidity_net.
      rbind (add_delta (sw_liquidity state) liquidity_net) (\<lambda>liquidity.
      Ok (state\<lparr>sw_liquidity := liquidity\<rparr>, tick_array_current))))))"

definition swap_step_shift ::
  "uint_lib \<Rightarrow> swap_env \<Rightarrow> tick_state \<Rightarrow> swap_state \<Rightarrow> step_computations \<Rightarrow> tick_array \<Rightarrow> (swap_state \<times> tick_array) res"
where
  "swap_step_shift U env next_tick state step tick_array_current =
     (if sw_sqrt_price_x64 state = sc_sqrt_price_next_x64 step then
        rbind (if sc_initialized step
               then cross_next_tick env next_tick state tick_array_current
               else Ok (state, tick_array_current)) (\<lambda>(state, tick_array_current).
        rbind (if se_zero_for_one env then chk_i 32 (sc_tick_next step - 1)
               else Ok (sc_tick_next step)) (\<lambda>tick.
        Ok (state\<lparr>sw_tick := tick\<rparr>, tick_array_current)))
      else if sw_sqrt_price_x64 state \<noteq> sc_sqrt_price_start_x64 step then
        rbind (get_tick_at_sqrt_price U (sw_sqrt_price_x64 state)) (\<lambda>tick.
        Ok (state\<lparr>sw_tick := tick\<rparr>, tick_array_current))
      else Ok (state, tick_array_current))"

text \<open>One turn of the loop, and the loop.\<close>

definition swap_loop_body :: "uint_lib \<Rightarrow> pda \<Rightarrow> swap_env \<Rightarrow> swap_vars \<Rightarrow> swap_vars res" where
  "swap_loop_body U D env v =
     rbind (find_next_tick D env v) (\<lambda>(next_tick, v).
     rbind (swap_step_start U env (sv_state v) next_tick) (\<lambda>(step, target_price).
     rbind (swap_step_move U env target_price (sv_state v) step) (\<lambda>(state, step).
     rbind (swap_step_fees U env state step) (\<lambda>(state, step).
     rbind (swap_step_shift U env next_tick state step (sv_tick_array_current v))
       (\<lambda>(state, tick_array_current).
     Ok (v\<lparr>sv_state := state, sv_tick_array_current := tick_array_current\<rparr>))))))"

definition swap_continues :: "swap_env \<Rightarrow> swap_vars \<Rightarrow> bool" where
  "swap_continues env v \<longleftrightarrow>
     sw_amount_specified_remaining (sv_state v) \<noteq> 0
     \<and> sw_sqrt_price_x64 (sv_state v) \<noteq> se_sqrt_price_limit_x64 env"

partial_function (option) swap_loop ::
  "uint_lib \<Rightarrow> pda \<Rightarrow> swap_env \<Rightarrow> swap_vars \<Rightarrow> swap_vars res option" where
  "swap_loop U D env v =
     (if swap_continues env v then
        (case swap_loop_body U D env v of
           Ok v' \<Rightarrow> swap_loop U D env v'
         | Err e \<Rightarrow> Some (Err e)
         | Panic \<Rightarrow> Some Panic)
      else Some (Ok v))"

text \<open>Sequencing with computations that may not end.\<close>

primrec obind :: "'a res option \<Rightarrow> ('a \<Rightarrow> 'b res option) \<Rightarrow> 'b res option" where
  "obind None f = None"
| "obind (Some m) f = (case m of Ok x \<Rightarrow> f x | Err e \<Rightarrow> Some (Err e) | Panic \<Rightarrow> Some Panic)"

section \<open>The whole swap\<close>

text \<open>Everything before the loop.\<close>

definition swap_begin ::
  "uint_lib \<Rightarrow> pda \<Rightarrow> amm_config \<Rightarrow> pool_state \<Rightarrow> tick_array list \<Rightarrow> observation_state \<Rightarrow>
   bitmap_extension option \<Rightarrow> u64 \<Rightarrow> u128 \<Rightarrow> bool \<Rightarrow> bool \<Rightarrow> u32 \<Rightarrow> (swap_env \<times> swap_vars) res" where
  "swap_begin U D amm_config pool_state tick_array_states observation_state
      tickarray_bitmap_extension amount_specified sqrt_price_limit_x64 zero_for_one is_base_input
      timestamp =
     rbind (require (amount_specified \<noteq> 0) (Code InvaildSwapAmountSpecified)) (\<lambda>_.
     rbind (require (get_status_by_bit pool_state pool_status_bit_index.Swap) (Code NotApproved)) (\<lambda>_.
     rbind (require
              (if zero_for_one then
                 sqrt_price_limit_x64 < ps_sqrt_price_x64 pool_state
                 \<and> sqrt_price_limit_x64 > MIN_SQRT_PRICE_X64
               else
                 sqrt_price_limit_x64 > ps_sqrt_price_x64 pool_state
                 \<and> sqrt_price_limit_x64 < MAX_SQRT_PRICE_X64) (Code SqrtPriceLimitOverflow)) (\<lambda>_.
     rbind (update_reward_infos U pool_state timestamp) (\<lambda>(updated_reward_infos, pool_state).
     let state = \<lparr>sw_amount_specified_remaining = amount_specified, sw_amount_calculated = 0,
                  sw_sqrt_price_x64 = ps_sqrt_price_x64 pool_state,
                  sw_tick = ps_tick_current pool_state,
                  sw_fee_growth_global_x64 =
                    (if zero_for_one then ps_fee_growth_global_0_x64 pool_state
                     else ps_fee_growth_global_1_x64 pool_state),
                  sw_fee_amount = 0, sw_protocol_fee = 0, sw_fund_fee = 0,
                  sw_liquidity = ps_liquidity pool_state\<rparr> in
     rbind (pool_key D pool_state) (\<lambda>key.
     rbind (require (obs_pool_id observation_state = key) RequireKeysEqViolated) (\<lambda>_.
     rbind (get_first_initialized_tick_array pool_state tickarray_bitmap_extension zero_for_one)
       (\<lambda>(is_match, first_vaild_tick_array_start_index).
     rbind (pop_first_tick_array first_vaild_tick_array_start_index tick_array_states)
       (\<lambda>(passed, current, states).
     rbind (require (ta_pool_id current = key) RequireKeysEqViolated) (\<lambda>_.
     rbind (require (ta_start_tick_index current = first_vaild_tick_array_start_index)
              (Code InvalidFirstTickArrayAccount)) (\<lambda>_.
     Ok (\<lparr>se_amm_config = amm_config, se_pool_state = pool_state,
          se_tickarray_bitmap_extension = tickarray_bitmap_extension,
          se_sqrt_price_limit_x64 = sqrt_price_limit_x64, se_zero_for_one = zero_for_one,
          se_is_base_input = is_base_input, se_updated_reward_infos = updated_reward_infos\<rparr>,
         \<lparr>sv_state = state, sv_passed = passed, sv_tick_array_current = current,
          sv_tick_array_states = states, sv_is_match_pool_current_tick_array = is_match,
          sv_current_vaild_tick_array_start_index = first_vaild_tick_array_start_index\<rparr>)))))))))))"

text \<open>What a swap adds to the fees and to the volume of the pool.\<close>

definition add_swap_totals :: "bool \<Rightarrow> swap_state \<Rightarrow> u64 \<Rightarrow> u64 \<Rightarrow> pool_state \<Rightarrow> pool_state res" where
  "add_swap_totals zero_for_one state amount_0 amount_1 pool_state =
     (if zero_for_one then
        rbind (unwrap (checked_add 64 (ps_total_fees_token_0 pool_state) (sw_fee_amount state))) (\<lambda>total.
        rbind (if sw_protocol_fee state > 0
               then unwrap (checked_add 64 (ps_protocol_fees_token_0 pool_state) (sw_protocol_fee state))
               else Ok (ps_protocol_fees_token_0 pool_state)) (\<lambda>protocol.
        rbind (if sw_fund_fee state > 0
               then unwrap (checked_add 64 (ps_fund_fees_token_0 pool_state) (sw_fund_fee state))
               else Ok (ps_fund_fees_token_0 pool_state)) (\<lambda>fund.
        rbind (unwrap (checked_add 128 (ps_swap_in_amount_token_0 pool_state) amount_0)) (\<lambda>swap_in.
        rbind (unwrap (checked_add 128 (ps_swap_out_amount_token_1 pool_state) amount_1)) (\<lambda>swap_out.
        Ok (pool_state\<lparr>ps_fee_growth_global_0_x64 := sw_fee_growth_global_x64 state,
              ps_total_fees_token_0 := total, ps_protocol_fees_token_0 := protocol,
              ps_fund_fees_token_0 := fund, ps_swap_in_amount_token_0 := swap_in,
              ps_swap_out_amount_token_1 := swap_out\<rparr>))))))
      else
        rbind (unwrap (checked_add 64 (ps_total_fees_token_1 pool_state) (sw_fee_amount state))) (\<lambda>total.
        rbind (if sw_protocol_fee state > 0
               then unwrap (checked_add 64 (ps_protocol_fees_token_1 pool_state) (sw_protocol_fee state))
               else Ok (ps_protocol_fees_token_1 pool_state)) (\<lambda>protocol.
        rbind (if sw_fund_fee state > 0
               then unwrap (checked_add 64 (ps_fund_fees_token_1 pool_state) (sw_fund_fee state))
               else Ok (ps_fund_fees_token_1 pool_state)) (\<lambda>fund.
        rbind (unwrap (checked_add 128 (ps_swap_in_amount_token_1 pool_state) amount_1)) (\<lambda>swap_in.
        rbind (unwrap (checked_add 128 (ps_swap_out_amount_token_0 pool_state) amount_0)) (\<lambda>swap_out.
        Ok (pool_state\<lparr>ps_fee_growth_global_1_x64 := sw_fee_growth_global_x64 state,
              ps_total_fees_token_1 := total, ps_protocol_fees_token_1 := protocol,
              ps_fund_fees_token_1 := fund, ps_swap_in_amount_token_1 := swap_in,
              ps_swap_out_amount_token_0 := swap_out\<rparr>)))))))"

text \<open>The price, tick and liquidity that the loop has reached go to the pool.\<close>

definition commit_price :: "swap_state \<Rightarrow> u16 option \<Rightarrow> pool_state \<Rightarrow> pool_state" where
  "commit_price state next_observation_index pool_state =
     (let liquidity_start = ps_liquidity pool_state;
          pool_state = (if sw_tick state \<noteq> ps_tick_current pool_state
                        then pool_state\<lparr>ps_tick_current := sw_tick state\<rparr> else pool_state);
          pool_state = (case next_observation_index of
              Some index \<Rightarrow> pool_state\<lparr>ps_observation_index := index\<rparr> | None \<Rightarrow> pool_state);
          pool_state = pool_state\<lparr>ps_sqrt_price_x64 := sw_sqrt_price_x64 state\<rparr> in
      if liquidity_start \<noteq> sw_liquidity state
      then pool_state\<lparr>ps_liquidity := sw_liquidity state\<rparr> else pool_state)"

text \<open>Everything after the loop: the results go to the pool and to the oracle.\<close>

definition swap_end ::
  "uint_lib \<Rightarrow> swap_env \<Rightarrow> swap_state \<Rightarrow> observation_state \<Rightarrow> u64 \<Rightarrow> u32 \<Rightarrow>
   ((u64 \<times> u64) \<times> pool_state \<times> observation_state) res" where
  "swap_end U env state observation_state amount_specified timestamp =
     (let pool_state = se_pool_state env; zero_for_one = se_zero_for_one env in
      rbind (unwrap_result (update_check U observation_state timestamp
               (ps_sqrt_price_x64 pool_state) (ps_observation_index pool_state)
               (ps_observation_update_duration pool_state))) (\<lambda>(observation_state, next_observation_index).
      let pool_state = commit_price state next_observation_index pool_state in
      rbind (unwrap (checked_sub amount_specified (sw_amount_specified_remaining state))) (\<lambda>amount_used.
      let (amount_0, amount_1) =
            (if zero_for_one = se_is_base_input env
             then (amount_used, sw_amount_calculated state)
             else (sw_amount_calculated state, amount_used)) in
      rbind (add_swap_totals zero_for_one state amount_0 amount_1 pool_state) (\<lambda>pool_state.
      Ok ((amount_0, amount_1), pool_state, observation_state)))))"

text \<open>The queue of arrays comes back as the arrays that were passed in, in their order.\<close>

definition swap_arrays :: "swap_vars \<Rightarrow> tick_array list" where
  "swap_arrays v = sv_passed v @ sv_tick_array_current v # sv_tick_array_states v"

definition swap_internal ::
  "uint_lib \<Rightarrow> pda \<Rightarrow> amm_config \<Rightarrow> pool_state \<Rightarrow> tick_array list \<Rightarrow> observation_state \<Rightarrow>
   bitmap_extension option \<Rightarrow> u64 \<Rightarrow> u128 \<Rightarrow> bool \<Rightarrow> bool \<Rightarrow> u32 \<Rightarrow>
   ((u64 \<times> u64) \<times> pool_state \<times> tick_array list \<times> observation_state) res option" where
  "swap_internal U D amm_config pool_state tick_array_states observation_state
      tickarray_bitmap_extension amount_specified sqrt_price_limit_x64 zero_for_one is_base_input
      timestamp =
     obind (Some (swap_begin U D amm_config pool_state tick_array_states observation_state
              tickarray_bitmap_extension amount_specified sqrt_price_limit_x64 zero_for_one
              is_base_input timestamp)) (\<lambda>(env, v).
     obind (swap_loop U D env v) (\<lambda>v.
     Some (rbind (swap_end U env (sv_state v) observation_state amount_specified timestamp)
       (\<lambda>(amounts, pool_state, observation_state).
     Ok (amounts, pool_state, swap_arrays v, observation_state)))))"

end
