(* ===== verification/Swap_Instructions.thy ===== *)
theory Swap_Instructions
  imports Withdraw Swap_Core
begin

text \<open>
  The instructions that swap: \<open>exact_internal\<close> and \<open>swap\<close> of \<open>instructions/swap.rs\<close>,
  \<open>exact_internal_v2\<close> and \<open>swap_v2\<close> of \<open>instructions/swap_v2.rs\<close>, and the route over several
  pools of \<open>instructions/swap_router_base_in.rs\<close>.  They gather the tick arrays from the remaining
  accounts, run \<open>swap_internal\<close>, and move the tokens.
\<close>

section \<open>Gathering the tick arrays\<close>

text \<open>
  Every remaining account is the extension of the pool or a tick array.  An array stays borrowed
  while the swap runs, so an account that comes twice cannot be borrowed again.
\<close>

fun gather_tick_arrays ::
  "tick_array accounts \<Rightarrow> pubkey \<Rightarrow> pubkey list \<Rightarrow> bitmap_extension option \<Rightarrow> remaining_account list \<Rightarrow>
   (bitmap_extension option \<times> (pubkey \<times> tick_array) list) res" where
  "gather_tick_arrays accs extension_key borrowed extension [] = Ok (extension, [])"
| "gather_tick_arrays accs extension_key borrowed extension (account_info # remaining_accounts) =
     (if ra_key account_info = extension_key then
        rbind (ra_extension account_info) (\<lambda>ext.
        gather_tick_arrays accs extension_key borrowed (Some ext) remaining_accounts)
      else if ra_key account_info \<in> set borrowed then Err AccountBorrowFailed
      else
        rbind (load_data_mut accs (ra_key account_info)) (\<lambda>tick_array.
        rbind (gather_tick_arrays accs extension_key (ra_key account_info # borrowed) extension
                 remaining_accounts) (\<lambda>(extension, arrays).
        Ok (extension, (ra_key account_info, tick_array) # arrays))))"

fun store_tick_arrays :: "pubkey list \<Rightarrow> tick_array list \<Rightarrow> tick_array accounts \<Rightarrow> tick_array accounts" where
  "store_tick_arrays (k # ks) (a # arrays) accs = store_account k a (store_tick_arrays ks arrays accs)"
| "store_tick_arrays ks arrays accs = accs"

section \<open>The swap on the pool\<close>

record swap_accounts =
  sa_signer :: pubkey
  sa_input_token_account :: token_account
  sa_output_token_account :: token_account
  sa_input_vault :: token_account
  sa_output_vault :: token_account
  sa_token_program :: pubkey
  sa_amm_config :: amm_config
  sa_pool_state :: pubkey

text \<open>What a swap changes.\<close>

record 's swap_world =
  sx_pool :: pool_state
  sx_observation :: observation_state
  sx_tick_arrays :: "tick_array accounts"
  sx_tokens :: 's

definition timestamp_as_u64 :: "int \<Rightarrow> u64" where
  "timestamp_as_u64 unix_timestamp = nat (unix_timestamp mod 2 ^ 64)"

definition check_swap_vaults :: "swap_accounts \<Rightarrow> pool_state \<Rightarrow> bool \<Rightarrow> unit res" where
  "check_swap_vaults A pool zero_for_one =
     require (if zero_for_one then
                tk_key (sa_input_vault A) = ps_token_vault_0 pool
                \<and> tk_key (sa_output_vault A) = ps_token_vault_1 pool
              else
                tk_key (sa_input_vault A) = ps_token_vault_1 pool
                \<and> tk_key (sa_output_vault A) = ps_token_vault_0 pool) (Code InvalidInputPoolVault)"

definition price_limit :: "u128 \<Rightarrow> bool \<Rightarrow> u128" where
  "price_limit sqrt_price_limit_x64 zero_for_one =
     (if sqrt_price_limit_x64 = 0 then
        (if zero_for_one then MIN_SQRT_PRICE_X64 + 1 else MAX_SQRT_PRICE_X64 - 1)
      else sqrt_price_limit_x64)"

text \<open>
  The block of \<open>exact_internal\<close> and \<open>exact_internal_v2\<close> that holds the pool: \<open>first_arrays\<close> are
  the arrays taken from the fixed accounts, one in the first version and none in the second.
\<close>

definition swap_on_pool ::
  "uint_lib \<Rightarrow> pda \<Rightarrow> int \<Rightarrow> swap_accounts \<Rightarrow> (pubkey \<times> tick_array) list res \<Rightarrow> remaining_account list \<Rightarrow>
   u64 \<Rightarrow> u128 \<Rightarrow> bool \<Rightarrow> 's swap_world \<Rightarrow> ((u64 \<times> u64 \<times> bool) \<times> 's swap_world) res option" where
  "swap_on_pool U D unix_timestamp A first_arrays remaining_accounts amount_specified
      sqrt_price_limit_x64 is_base_input w =
     (let pool_state = sx_pool w;
          zero_for_one = (tk_mint (sa_input_vault A) = ps_token_mint_0 pool_state) in
      obind (Some
        (rbind (require (timestamp_as_u64 unix_timestamp > ps_open_time pool_state) RequireGtViolated) (\<lambda>_.
         rbind (check_swap_vaults A pool_state zero_for_one) (\<lambda>_.
         rbind first_arrays (\<lambda>first.
         rbind (pool_key D pool_state) (\<lambda>key.
         rbind (gather_tick_arrays (sx_tick_arrays w) (pda_bitmap_extension D key) (map fst first) None
                  remaining_accounts) (\<lambda>(extension, arrays).
         Ok (extension, first @ arrays)))))))) (\<lambda>(extension, arrays).
      obind (swap_internal U D (sa_amm_config A) pool_state (map snd arrays) (sx_observation w) extension
               amount_specified (price_limit sqrt_price_limit_x64 zero_for_one) zero_for_one
               is_base_input (block_timestamp unix_timestamp))
        (\<lambda>((amount_0, amount_1), pool_state, tick_arrays, observation).
      Some (rbind (require (amount_0 \<noteq> 0 \<and> amount_1 \<noteq> 0) (Code TooSmallInputOrOutputAmount)) (\<lambda>_.
        Ok ((amount_0, amount_1, zero_for_one),
            w\<lparr>sx_pool := pool_state, sx_observation := observation,
              sx_tick_arrays := store_tick_arrays (map fst arrays) tick_arrays (sx_tick_arrays w)\<rparr>))))))"

section \<open>The first version\<close>

text \<open>One token goes in, the other out; a vault that would be emptied freezes the pool.\<close>

definition settle_swap ::
  "'s token_lib \<Rightarrow> swap_accounts \<Rightarrow> u64 \<Rightarrow> u64 \<Rightarrow> bool \<Rightarrow> pool_state \<Rightarrow> 's \<Rightarrow> (pool_state \<times> 's) res" where
  "settle_swap T A amount_0 amount_1 zero_for_one pool_state s =
     (let (token_account_0, token_account_1, vault_0, vault_1) =
            (if zero_for_one then
               (sa_input_token_account A, sa_output_token_account A, sa_input_vault A, sa_output_vault A)
             else
               (sa_output_token_account A, sa_input_token_account A, sa_output_vault A, sa_input_vault A)) in
      if zero_for_one then
        rbind (transfer_from_user_to_pool_vault T (sa_signer A) token_account_0 vault_0 None
                 (sa_token_program A) None amount_0 s) (\<lambda>s.
        let pool_state = (if tk_amount vault_1 \<le> amount_1 then set_status pool_state 255 else pool_state) in
        rbind (transfer_from_pool_vault_to_user T (sa_pool_state A) vault_1 token_account_1 None
                 (sa_token_program A) None amount_1 s) (\<lambda>s.
        Ok (pool_state, s)))
      else
        rbind (transfer_from_user_to_pool_vault T (sa_signer A) token_account_1 vault_1 None
                 (sa_token_program A) None amount_1 s) (\<lambda>s.
        let pool_state = (if tk_amount vault_0 \<le> amount_0 then set_status pool_state 255 else pool_state) in
        rbind (transfer_from_pool_vault_to_user T (sa_pool_state A) vault_0 token_account_0 None
                 (sa_token_program A) None amount_0 s) (\<lambda>s.
        Ok (pool_state, s))))"

text \<open>The price moved in the direction of the swap.\<close>

definition check_price_moved :: "bool \<Rightarrow> u128 \<Rightarrow> u128 \<Rightarrow> unit res" where
  "check_price_moved zero_for_one swap_price_before sqrt_price_x64 =
     (if zero_for_one then require (swap_price_before > sqrt_price_x64) RequireGtViolated
      else require (sqrt_price_x64 > swap_price_before) RequireGtViolated)"

definition exact_internal ::
  "uint_lib \<Rightarrow> 's token_lib \<Rightarrow> tick_array account_loader \<Rightarrow> pda \<Rightarrow> int \<Rightarrow> swap_accounts \<Rightarrow> pubkey \<Rightarrow>
   remaining_account list \<Rightarrow> u64 \<Rightarrow> u128 \<Rightarrow> bool \<Rightarrow> 's swap_world \<Rightarrow> (u64 \<times> 's swap_world) res option" where
  "exact_internal U T AL D unix_timestamp A tick_array_state remaining_accounts amount_specified
      sqrt_price_limit_x64 is_base_input w =
     (let input_balance_before = tk_amount (sa_input_vault A);
          output_balance_before = tk_amount (sa_output_vault A);
          swap_price_before = ps_sqrt_price_x64 (sx_pool w) in
      obind (swap_on_pool U D unix_timestamp A
               (rbind (al_load_mut AL (sx_tick_arrays w) tick_array_state)
                  (\<lambda>tick_array. Ok [(tick_array_state, tick_array)]))
               remaining_accounts amount_specified sqrt_price_limit_x64 is_base_input w)
        (\<lambda>((amount_0, amount_1, zero_for_one), w).
      Some
        (rbind (settle_swap T A amount_0 amount_1 zero_for_one (sx_pool w) (sx_tokens w)) (\<lambda>(pool_state, s).
         rbind (reload T s (sa_output_vault A)) (\<lambda>output_vault.
         rbind (reload T s (sa_input_vault A)) (\<lambda>input_vault.
         rbind (check_price_moved zero_for_one swap_price_before (ps_sqrt_price_x64 pool_state)) (\<lambda>_.
         rbind (if is_base_input
                then unwrap (checked_sub output_balance_before (tk_amount output_vault))
                else unwrap (checked_sub (tk_amount input_vault) input_balance_before)) (\<lambda>amount.
         Ok (amount, w\<lparr>sx_pool := pool_state, sx_tokens := s\<rparr>)))))))))"

text \<open>What the caller accepts: at least that much out, or at most that much in.\<close>

definition check_threshold :: "bool \<Rightarrow> u64 \<Rightarrow> u64 \<Rightarrow> unit res" where
  "check_threshold is_base_input amount other_amount_threshold =
     (if is_base_input then require (amount \<ge> other_amount_threshold) (Code TooLittleOutputReceived)
      else require (amount \<le> other_amount_threshold) (Code TooMuchInputPaid))"

text \<open>The constraints of the accounts, and the instruction.\<close>

definition check_swap_accounts ::
  "tick_array account_loader \<Rightarrow> swap_accounts \<Rightarrow> pubkey \<Rightarrow> pubkey \<Rightarrow> pubkey \<Rightarrow> 's swap_world \<Rightarrow> unit res" where
  "check_swap_accounts AL A amm_config_key observation_key tick_array w =
     rbind (require (amm_config_key = ps_amm_config (sx_pool w)) ConstraintAddress) (\<lambda>_.
     rbind (require (tk_program (sa_input_token_account A) = sa_token_program A) ConstraintTokenTokenProgram) (\<lambda>_.
     rbind (require (tk_program (sa_output_token_account A) = sa_token_program A) ConstraintTokenTokenProgram) (\<lambda>_.
     rbind (require (tk_program (sa_input_vault A) = sa_token_program A) ConstraintTokenTokenProgram) (\<lambda>_.
     rbind (require (tk_program (sa_output_vault A) = sa_token_program A) ConstraintTokenTokenProgram) (\<lambda>_.
     rbind (require (observation_key = ps_observation_key (sx_pool w)) ConstraintAddress) (\<lambda>_.
     rbind (al_load AL (sx_tick_arrays w) tick_array) (\<lambda>arr.
     require (ta_pool_id arr = sa_pool_state A) ConstraintRaw)))))))"

definition swap ::
  "uint_lib \<Rightarrow> 's token_lib \<Rightarrow> tick_array account_loader \<Rightarrow> pda \<Rightarrow> int \<Rightarrow> swap_accounts \<Rightarrow> pubkey \<Rightarrow> pubkey \<Rightarrow>
   pubkey \<Rightarrow> remaining_account list \<Rightarrow> u64 \<Rightarrow> u64 \<Rightarrow> u128 \<Rightarrow> bool \<Rightarrow> 's swap_world \<Rightarrow> 's swap_world res option"
where
  "swap U T AL D unix_timestamp A amm_config_key observation_key tick_array remaining_accounts amount
      other_amount_threshold sqrt_price_limit_x64 is_base_input w =
     obind (Some (check_swap_accounts AL A amm_config_key observation_key tick_array w)) (\<lambda>_.
     obind (exact_internal U T AL D unix_timestamp A tick_array remaining_accounts amount
              sqrt_price_limit_x64 is_base_input w) (\<lambda>(amount, w).
     Some (rbind (check_threshold is_base_input amount other_amount_threshold) (\<lambda>_. Ok w))))"

section \<open>The second version\<close>

text \<open>The accounts that the second version has in addition.\<close>

record swap_accounts_v2 = swap_accounts +
  sa_token_program_2022 :: pubkey
  sa_input_vault_mint :: mint_account
  sa_output_vault_mint :: mint_account

definition settle_swap_v2 ::
  "'s token_lib \<Rightarrow> swap_accounts_v2 \<Rightarrow> u64 \<Rightarrow> u64 \<Rightarrow> bool \<Rightarrow> pool_state \<Rightarrow> 's \<Rightarrow> (pool_state \<times> 's) res" where
  "settle_swap_v2 T A amount_0 amount_1 zero_for_one pool_state s =
     (let (token_account_0, token_account_1, vault_0, vault_1, vault_0_mint, vault_1_mint) =
            (if zero_for_one then
               (sa_input_token_account A, sa_output_token_account A, sa_input_vault A, sa_output_vault A,
                sa_input_vault_mint A, sa_output_vault_mint A)
             else
               (sa_output_token_account A, sa_input_token_account A, sa_output_vault A, sa_input_vault A,
                sa_output_vault_mint A, sa_input_vault_mint A)) in
      if zero_for_one then
        rbind (unwrap_result (get_transfer_inverse_fee T vault_0_mint amount_0)) (\<lambda>transfer_fee_0.
        rbind (unwrap_result (get_transfer_fee T vault_1_mint amount_1)) (\<lambda>transfer_fee_1.
        rbind (unwrap (checked_sub amount_1 transfer_fee_1)) (\<lambda>_.
        rbind (chk_add 64 amount_0 transfer_fee_0) (\<lambda>transfer_amount_0.
        let transfer_amount_1 = amount_1 in
        rbind (transfer_from_user_to_pool_vault T (sa_signer A) token_account_0 vault_0 (Some vault_0_mint)
                 (sa_token_program A) (Some (sa_token_program_2022 A)) transfer_amount_0 s) (\<lambda>s.
        let pool_state = (if tk_amount vault_1 \<le> transfer_amount_1 then set_status pool_state 255
                          else pool_state) in
        rbind (transfer_from_pool_vault_to_user T (sa_pool_state A) vault_1 token_account_1
                 (Some vault_1_mint) (sa_token_program A) (Some (sa_token_program_2022 A))
                 transfer_amount_1 s) (\<lambda>s.
        Ok (pool_state, s)))))))
      else
        rbind (unwrap_result (get_transfer_fee T vault_0_mint amount_0)) (\<lambda>transfer_fee_0.
        rbind (unwrap_result (get_transfer_inverse_fee T vault_1_mint amount_1)) (\<lambda>transfer_fee_1.
        rbind (unwrap (checked_sub amount_0 transfer_fee_0)) (\<lambda>_.
        let transfer_amount_0 = amount_0 in
        rbind (chk_add 64 amount_1 transfer_fee_1) (\<lambda>transfer_amount_1.
        rbind (transfer_from_user_to_pool_vault T (sa_signer A) token_account_1 vault_1 (Some vault_1_mint)
                 (sa_token_program A) (Some (sa_token_program_2022 A)) transfer_amount_1 s) (\<lambda>s.
        let pool_state = (if tk_amount vault_0 \<le> transfer_amount_0 then set_status pool_state 255
                          else pool_state) in
        rbind (transfer_from_pool_vault_to_user T (sa_pool_state A) vault_0 token_account_0
                 (Some vault_0_mint) (sa_token_program A) (Some (sa_token_program_2022 A))
                 transfer_amount_0 s) (\<lambda>s.
        Ok (pool_state, s))))))))"

text \<open>The amount that the pool sees: an input less the fee of its token, an output with it.\<close>

definition amount_in_pool :: "'s token_lib \<Rightarrow> swap_accounts_v2 \<Rightarrow> u64 \<Rightarrow> bool \<Rightarrow> u64 res" where
  "amount_in_pool T A amount_specified is_base_input =
     (if is_base_input then
        rbind (unwrap_result (get_transfer_fee T (sa_input_vault_mint A) amount_specified)) (\<lambda>transfer_fee.
        chk_sub amount_specified transfer_fee)
      else
        rbind (unwrap_result (get_transfer_inverse_fee T (sa_output_vault_mint A) amount_specified))
          (\<lambda>transfer_fee.
        chk_add 64 amount_specified transfer_fee))"

definition exact_internal_v2 ::
  "uint_lib \<Rightarrow> 's token_lib \<Rightarrow> pda \<Rightarrow> int \<Rightarrow> swap_accounts_v2 \<Rightarrow> remaining_account list \<Rightarrow> u64 \<Rightarrow> u128 \<Rightarrow> bool \<Rightarrow>
   's swap_world \<Rightarrow> (u64 \<times> 's swap_world) res option" where
  "exact_internal_v2 U T D unix_timestamp A remaining_accounts amount_specified sqrt_price_limit_x64
      is_base_input w =
     (let input_balance_before = tk_amount (sa_input_token_account A);
          output_balance_before = tk_amount (sa_output_token_account A);
          swap_price_before = ps_sqrt_price_x64 (sx_pool w) in
      obind (Some (amount_in_pool T A amount_specified is_base_input)) (\<lambda>amount_specified.
      obind (swap_on_pool U D unix_timestamp (swap_accounts.truncate A) (Ok []) remaining_accounts
               amount_specified sqrt_price_limit_x64 is_base_input w)
        (\<lambda>((amount_0, amount_1, zero_for_one), w).
      Some
        (rbind (settle_swap_v2 T A amount_0 amount_1 zero_for_one (sx_pool w) (sx_tokens w)) (\<lambda>(pool_state, s).
         rbind (reload T s (sa_output_token_account A)) (\<lambda>output_token_account.
         rbind (reload T s (sa_input_token_account A)) (\<lambda>input_token_account.
         rbind (check_price_moved zero_for_one swap_price_before (ps_sqrt_price_x64 pool_state)) (\<lambda>_.
         rbind (if is_base_input
                then unwrap (checked_sub (tk_amount output_token_account) output_balance_before)
                else unwrap (checked_sub input_balance_before (tk_amount input_token_account))) (\<lambda>amount.
         Ok (amount, w\<lparr>sx_pool := pool_state, sx_tokens := s\<rparr>))))))))))"

definition check_swap_accounts_v2 ::
  "swap_accounts_v2 \<Rightarrow> pubkey \<Rightarrow> pubkey \<Rightarrow> 's swap_world \<Rightarrow> unit res" where
  "check_swap_accounts_v2 A amm_config_key observation_key w =
     rbind (require (amm_config_key = ps_amm_config (sx_pool w)) ConstraintAddress) (\<lambda>_.
     rbind (require (observation_key = ps_observation_key (sx_pool w)) ConstraintAddress) (\<lambda>_.
     rbind (require (mint_key (sa_input_vault_mint A) = tk_mint (sa_input_vault A)) ConstraintAddress) (\<lambda>_.
     require (mint_key (sa_output_vault_mint A) = tk_mint (sa_output_vault A)) ConstraintAddress)))"

definition swap_v2 ::
  "uint_lib \<Rightarrow> 's token_lib \<Rightarrow> pda \<Rightarrow> int \<Rightarrow> swap_accounts_v2 \<Rightarrow> pubkey \<Rightarrow> pubkey \<Rightarrow> remaining_account list \<Rightarrow>
   u64 \<Rightarrow> u64 \<Rightarrow> u128 \<Rightarrow> bool \<Rightarrow> 's swap_world \<Rightarrow> 's swap_world res option" where
  "swap_v2 U T D unix_timestamp A amm_config_key observation_key remaining_accounts amount
      other_amount_threshold sqrt_price_limit_x64 is_base_input w =
     obind (Some (check_swap_accounts_v2 A amm_config_key observation_key w)) (\<lambda>_.
     obind (exact_internal_v2 U T D unix_timestamp A remaining_accounts amount sqrt_price_limit_x64
              is_base_input w) (\<lambda>(amount_result, w).
     Some (rbind (check_threshold is_base_input amount_result other_amount_threshold) (\<lambda>_. Ok w))))"

end
