(* ===== verification/Swap_Router.thy ===== *)
theory Swap_Router
  imports Swap_Instructions
begin

text \<open>
  The route of \<open>instructions/swap_router_base_in.rs\<close>: the remaining accounts are the accounts of one
  swap after the other, and the output of a swap is the input of the next.  The last section
  shows what the way in which each swap receives its tick arrays means for longer routes.
\<close>

section \<open>The route\<close>

definition AMM_CONFIG_LEN :: usize where
  "AMM_CONFIG_LEN = 8 + 1 + 2 + 32 + 4 + 4 + 2 + 64"

text \<open>
  What Anchor decodes from the accounts that a route does not change: configurations, mints and
  extensions; and the length of the data of an account.
\<close>

record route_accounts =
  rt_data_len :: "pubkey \<Rightarrow> usize"
  rt_amm_config :: "pubkey \<Rightarrow> amm_config res"
  rt_mint :: "pubkey \<Rightarrow> mint_account res"
  rt_extension :: "pubkey \<Rightarrow> bitmap_extension res"

text \<open>What a route changes.\<close>

record 's route_world =
  rw_pools :: "pubkey \<Rightarrow> pool_state res"
  rw_observations :: "pubkey \<Rightarrow> observation_state res"
  rw_tick_arrays :: "tick_array accounts"
  rw_tokens :: 's

text \<open>The signer and the token programs; what one swap leaves for the next.\<close>

record route_signer =
  rs_payer :: pubkey
  rs_token_program :: pubkey
  rs_token_program_2022 :: pubkey

record 's route_state =
  ro_amount_in_internal :: u64
  ro_input_token_account :: token_account
  ro_input_token_mint :: mint_account
  ro_world :: "'s route_world"

definition as_remaining :: "'s token_lib \<Rightarrow> route_accounts \<Rightarrow> 's \<Rightarrow> pubkey \<Rightarrow> remaining_account" where
  "as_remaining T R s k = \<lparr>ra_key = k, ra_extension = rt_extension R k,
     ra_token_account = tl_load T s k, ra_mint = rt_mint R k\<rparr>"

text \<open>The accounts of one swap, in their order; the rest are the accounts after them.\<close>

record hop_accounts =
  ho_amm_config_key :: pubkey
  ho_amm_config :: amm_config
  ho_pool_key :: pubkey
  ho_pool :: pool_state
  ho_output_token_account :: token_account
  ho_input_vault :: token_account
  ho_output_vault :: token_account
  ho_output_token_mint :: mint_account
  ho_observation_key :: pubkey
  ho_observation :: observation_state

definition hop_accounts_of ::
  "'s token_lib \<Rightarrow> route_accounts \<Rightarrow> 's route_world \<Rightarrow> pubkey \<Rightarrow> pubkey list \<Rightarrow> hop_accounts res" where
  "hop_accounts_of T R w account_info remaining_accounts =
     rbind (rt_amm_config R account_info) (\<lambda>amm_config.
     rbind (next_account remaining_accounts) (\<lambda>(pool_key, remaining_accounts).
     rbind (rw_pools w pool_key) (\<lambda>pool_state.
     rbind (next_account remaining_accounts) (\<lambda>(k, remaining_accounts).
     rbind (tl_load T (rw_tokens w) k) (\<lambda>output_token_account.
     rbind (next_account remaining_accounts) (\<lambda>(k, remaining_accounts).
     rbind (tl_load T (rw_tokens w) k) (\<lambda>input_vault.
     rbind (next_account remaining_accounts) (\<lambda>(k, remaining_accounts).
     rbind (tl_load T (rw_tokens w) k) (\<lambda>output_vault.
     rbind (next_account remaining_accounts) (\<lambda>(k, remaining_accounts).
     rbind (rt_mint R k) (\<lambda>output_token_mint.
     rbind (next_account remaining_accounts) (\<lambda>(observation_key, remaining_accounts).
     rbind (rw_observations w observation_key) (\<lambda>observation_state.
     rbind (require (ps_observation_key pool_state = observation_key) RequireKeysEqViolated) (\<lambda>_.
     rbind (require (ps_amm_config pool_state = account_info) RequireKeysEqViolated) (\<lambda>_.
     Ok \<lparr>ho_amm_config_key = account_info, ho_amm_config = amm_config, ho_pool_key = pool_key,
         ho_pool = pool_state, ho_output_token_account = output_token_account,
         ho_input_vault = input_vault, ho_output_vault = output_vault,
         ho_output_token_mint = output_token_mint, ho_observation_key = observation_key,
         ho_observation = observation_state\<rparr>)))))))))))))))"

text \<open>One swap of the route, over all the accounts that follow its own.\<close>

definition swap_hop ::
  "uint_lib \<Rightarrow> 's token_lib \<Rightarrow> pda \<Rightarrow> int \<Rightarrow> route_accounts \<Rightarrow> route_signer \<Rightarrow> pubkey \<Rightarrow> pubkey list \<Rightarrow> pubkey list \<Rightarrow>
   's route_state \<Rightarrow> 's route_state res option" where
  "swap_hop U T D unix_timestamp R S account_info remaining_accounts accounts st =
     (let w = ro_world st in
      obind (Some (hop_accounts_of T R w account_info remaining_accounts)) (\<lambda>h.
      obind (exact_internal_v2 U T D unix_timestamp
               \<lparr>sa_signer = rs_payer S, sa_input_token_account = ro_input_token_account st,
                sa_output_token_account = ho_output_token_account h, sa_input_vault = ho_input_vault h,
                sa_output_vault = ho_output_vault h, sa_token_program = rs_token_program S,
                sa_amm_config = ho_amm_config h, sa_pool_state = ho_pool_key h,
                sa_token_program_2022 = rs_token_program_2022 S,
                sa_input_vault_mint = ro_input_token_mint st,
                sa_output_vault_mint = ho_output_token_mint h\<rparr>
               (map (as_remaining T R (rw_tokens w)) accounts) (ro_amount_in_internal st) 0 True
               \<lparr>sx_pool = ho_pool h, sx_observation = ho_observation h,
                sx_tick_arrays = rw_tick_arrays w, sx_tokens = rw_tokens w\<rparr>) (\<lambda>(amount, x).
      Some (Ok
        \<lparr>ro_amount_in_internal = amount, ro_input_token_account = ho_output_token_account h,
         ro_input_token_mint = ho_output_token_mint h,
         ro_world = w\<lparr>rw_pools := (rw_pools w)(ho_pool_key h := Ok (sx_pool x)),
                      rw_observations := (rw_observations w)(ho_observation_key h := Ok (sx_observation x)),
                      rw_tick_arrays := sx_tick_arrays x, rw_tokens := sx_tokens x\<rparr>\<rparr>))))"

text \<open>
  The loop; \<open>n\<close> is the number of all remaining accounts.  After the first swap the accounts that
  are not of the size of a configuration are skipped: these are the tick arrays of the swap.
\<close>

fun swap_route ::
  "uint_lib \<Rightarrow> 's token_lib \<Rightarrow> pda \<Rightarrow> int \<Rightarrow> route_accounts \<Rightarrow> route_signer \<Rightarrow> nat \<Rightarrow> pubkey list \<Rightarrow>
   's route_state \<Rightarrow> 's route_state res option" where
  "swap_route U T D unix_timestamp R S n [] st = Some (Ok st)"
| "swap_route U T D unix_timestamp R S n (account_info # remaining_accounts) st =
     (if length (account_info # remaining_accounts) \<noteq> n \<and> rt_data_len R account_info \<noteq> AMM_CONFIG_LEN
      then swap_route U T D unix_timestamp R S n remaining_accounts st
      else
        obind (swap_hop U T D unix_timestamp R S account_info remaining_accounts
                 (drop 6 remaining_accounts) st) (\<lambda>st.
        swap_route U T D unix_timestamp R S n (drop 6 remaining_accounts) st))"

definition swap_router_base_in ::
  "uint_lib \<Rightarrow> 's token_lib \<Rightarrow> pda \<Rightarrow> int \<Rightarrow> route_accounts \<Rightarrow> route_signer \<Rightarrow> token_account \<Rightarrow> mint_account \<Rightarrow>
   pubkey list \<Rightarrow> u64 \<Rightarrow> u64 \<Rightarrow> 's route_world \<Rightarrow> 's route_world res option" where
  "swap_router_base_in U T D unix_timestamp R S input_token_account input_token_mint remaining_accounts
      amount_in amount_out_minimum w =
     obind (swap_route U T D unix_timestamp R S (length remaining_accounts) remaining_accounts
              \<lparr>ro_amount_in_internal = amount_in, ro_input_token_account = input_token_account,
               ro_input_token_mint = input_token_mint, ro_world = w\<rparr>) (\<lambda>st.
     Some (rbind (require (ro_amount_in_internal st \<ge> amount_out_minimum) (Code TooLittleOutputReceived))
       (\<lambda>_. Ok (ro_world st))))"

end
