(* ===== verification/Tick_Log.thy ===== *)
theory Tick_Log
  imports Tick_Math Complex_Main
begin

text \<open>
  The tick of a price: \<open>get_tick_at_sqrt_price\<close> computes a binary logarithm with sixteen
  fractional bits, turns it into a logarithm to the base \<open>sqrt(1.0001)\<close>, and decides between the
  two ticks that the error leaves.  The prices of the ticks are close to powers of that base, so
  the result is the greatest tick whose price is not above the given one.  The constants are
  checked by squaring the base with interval arithmetic.
\<close>

section \<open>Logarithms near one\<close>

lemma ln_2_ge_half: "1 / 2 \<le> ln (2 :: real)"
  using ln_le_minus_one [of "1 / 2"] by (simp add: ln_div)

lemma log2_one_plus: "0 \<le> x \<Longrightarrow> log 2 (1 + x) \<le> 2 * x"
proof -
  assume x: "0 \<le> (x::real)"
  have "log 2 (1 + x) = ln (1 + x) / ln 2" by (simp add: log_def)
  also have "\<dots> \<le> x / ln 2"
    using ln_add_one_self_le_self [OF x] by (intro divide_right_mono) auto
  also have "\<dots> \<le> x / (1 / 2)"
    using ln_2_ge_half x by (intro divide_left_mono) auto
  finally show ?thesis by simp
qed

lemma log2_one_minus: "0 \<le> x \<Longrightarrow> x \<le> 1 / 2 \<Longrightarrow> - (4 * x) \<le> log 2 (1 - x)"
proof -
  assume x: "0 \<le> (x::real)" "x \<le> 1 / 2"
  have "x * x \<le> x * (1 / 2)" using x by (intro mult_left_mono) auto
  then have "- (2 * x) \<le> - x - 2 * x\<^sup>2" by (simp add: power2_eq_square)
  also have "\<dots> \<le> ln (1 - x)" using x by (rule ln_one_minus_pos_lower_bound)
  finally have "- (2 * x) / ln 2 \<le> log 2 (1 - x)"
    unfolding log_def by (intro divide_right_mono) auto
  moreover have "2 * x / ln 2 \<le> 2 * x / (1 / 2)"
    using ln_2_ge_half x by (intro divide_left_mono) auto
  ultimately show ?thesis by simp
qed

text \<open>Rounding a number that is not below \<open>m\<close> down by at most \<open>k\<close>.\<close>

lemma log2_rounded:
  assumes "m \<le> q" "q - k \<le> y" "y \<le> q" "0 < m" "0 \<le> k" "2 * k \<le> m"
  shows "log 2 q - 4 * (k / m) \<le> log 2 y" "log 2 y \<le> log 2 q"
proof -
  have q: "0 < q" "0 < y" using assms by linarith+
  define x where "x = k / m"
  have x: "0 \<le> x" "x \<le> 1 / 2" using assms by (simp_all add: x_def)
  have "k / q \<le> x" unfolding x_def using assms by (intro divide_left_mono) auto
  then have "q * (1 - x) \<le> q * (1 - k / q)" using q by simp
  also have "\<dots> = q - k" using q by (simp add: field_simps)
  finally have "q * (1 - x) \<le> y" using assms(2) by linarith
  then have "log 2 (q * (1 - x)) \<le> log 2 y"
    using q x by (subst log_le_cancel_iff) (auto intro: mult_pos_pos)
  moreover have "log 2 (q * (1 - x)) = log 2 q + log 2 (1 - x)"
    using q x by (intro log_mult_pos) auto
  ultimately show "log 2 q - 4 * (k / m) \<le> log 2 y"
    using log2_one_minus [OF x] by (simp add: x_def)
  show "log 2 y \<le> log 2 q" using assms q by simp
qed

section \<open>The base, squared with intervals\<close>

definition rho :: real where
  "rho = sqrt (10000 / 10001)"

definition kappa :: real where
  "kappa = - log 2 rho"

lemma rho_pos: "0 < rho"
  by (simp add: rho_def)

definition rho_norm :: "nat \<Rightarrow> nat \<Rightarrow> nat \<Rightarrow> nat \<times> nat \<times> nat" where
  "rho_norm l h e =
     (if 2 ^ 127 \<le> l then (l div 2 ^ 64, h div 2 ^ 64 + 1, 2 * e)
      else (l div 2 ^ 63, h div 2 ^ 63 + 1, 2 * e + 1))"

definition rho_step :: "nat \<times> nat \<times> nat \<Rightarrow> nat \<times> nat \<times> nat" where
  "rho_step = (\<lambda>(lo, hi, e). rho_norm (lo * lo) (hi * hi) e)"

text \<open>\<open>rho ^ 2 ^ k\<close> lies between \<open>lo\<close> and \<open>hi\<close>, scaled by \<open>2 ^ (64 + e)\<close>.\<close>

definition encloses :: "nat \<Rightarrow> nat \<times> nat \<times> nat \<Rightarrow> bool" where
  "encloses k = (\<lambda>(lo, hi, e). 2 ^ 63 \<le> lo \<and> real lo \<le> rho ^ (2 ^ k) * 2 ^ (64 + e)
     \<and> rho ^ (2 ^ k) * 2 ^ (64 + e) \<le> real hi)"

lemma encloses_step:
  assumes "encloses k s"
  shows "encloses (Suc k) (rho_step s)"
proof -
  obtain lo hi e where s: "s = (lo, hi, e)" by (cases s)
  define R where "R = rho ^ (2 ^ k) * 2 ^ (64 + e)"
  have R: "2 ^ 63 \<le> lo" "real lo \<le> R" "R \<le> real hi" "0 \<le> R"
    using assms rho_pos by (auto simp: encloses_def s R_def)
  define q where "q = (if 2 ^ 127 \<le> lo * lo then 64 else 63 :: nat)"
  define e' where "e' = (if 2 ^ 127 \<le> lo * lo then 2 * e else 2 * e + 1)"
  have step: "rho_step s = (lo * lo div 2 ^ q, hi * hi div 2 ^ q + 1, e')"
    by (simp add: rho_step_def rho_norm_def s q_def e'_def)
  have eq: "64 + e' + q = (64 + e) + (64 + e)"
    by (simp add: e'_def q_def)
  have "rho ^ (2 ^ Suc k) = rho ^ (2 ^ k) * rho ^ (2 ^ k)"
    by (simp add: power_add [symmetric] mult_2)
  moreover have "(2::real) ^ (64 + e') * 2 ^ q = 2 ^ (64 + e) * 2 ^ (64 + e)"
    by (simp only: power_add [symmetric] eq)
  ultimately have "rho ^ (2 ^ Suc k) * 2 ^ (64 + e') * 2 ^ q
      = (rho ^ (2 ^ k) * rho ^ (2 ^ k)) * (2 ^ (64 + e) * 2 ^ (64 + e))"
    by (simp only: mult.assoc)
  also have "\<dots> = R * R"
    unfolding R_def by (simp only: mult_ac)
  finally have "rho ^ (2 ^ Suc k) * 2 ^ (64 + e') * 2 ^ q = R * R" .
  then have val: "rho ^ (2 ^ Suc k) * 2 ^ (64 + e') = R * R / 2 ^ q"
    by (simp add: field_simps)
  have "real lo * real lo \<le> R * R" "R * R \<le> real hi * real hi"
    using R by (auto intro: mult_mono)
  then have sq: "real (lo * lo) / 2 ^ q \<le> R * R / 2 ^ q" "R * R / 2 ^ q \<le> real (hi * hi) / 2 ^ q"
    by (simp_all add: divide_right_mono)
  have "real (lo * lo div 2 ^ q) \<le> real (lo * lo) / 2 ^ q"
    using real_div_bounds(1) [of "lo * lo" "2 ^ q"] by simp
  moreover have "real (hi * hi) / 2 ^ q \<le> real (hi * hi div 2 ^ q + 1)"
    using real_div_bounds(2) [of "hi * hi" "2 ^ q"] by simp
  moreover have "2 ^ 63 \<le> lo * lo div 2 ^ q"
  proof -
    have "2 ^ 63 * 2 ^ 63 \<le> lo * lo" using R(1) by (intro mult_le_mono) auto
    then have "2 ^ 63 * 2 ^ q \<le> lo * lo" by (simp add: q_def)
    then show ?thesis by (simp add: less_eq_div_iff_mult_less_eq)
  qed
  ultimately show ?thesis
    using sq unfolding step encloses_def by (simp only: val prod.case) (intro conjI TrueI; linarith)
qed

definition rho_start :: "nat \<times> nat \<times> nat" where
  "rho_start = (18445821805675392311, 18445821805675392312, 0)"

lemma encloses_start: "encloses 0 rho_start"
proof -
  have "real 18445821805675392311 \<le> rho * 2 ^ 64"
    "rho * 2 ^ 64 \<le> real 18445821805675392312"
  proof -
    have "(18445821805675392311 / 2 ^ 64)\<^sup>2 \<le> (10000 / 10001 :: real)" by (simp add: power2_eq_square)
    then have "18445821805675392311 / 2 ^ 64 \<le> rho" unfolding rho_def by (rule real_le_rsqrt)
    then show "real 18445821805675392311 \<le> rho * 2 ^ 64" by simp
    have "(10000 / 10001 :: real) \<le> (18445821805675392312 / 2 ^ 64)\<^sup>2" by (simp add: power2_eq_square)
    then have "rho \<le> 18445821805675392312 / 2 ^ 64" unfolding rho_def by (rule real_le_lsqrt [rotated -1]) simp_all
    then show "rho * 2 ^ 64 \<le> real 18445821805675392312" by simp
  qed
  then show ?thesis by (simp add: encloses_def rho_start_def)
qed

fun rho_iter :: "nat \<Rightarrow> nat \<times> nat \<times> nat \<Rightarrow> nat \<times> nat \<times> nat" where
  "rho_iter 0 s = s"
| "rho_iter (Suc n) s = rho_iter n (rho_step s)"

lemma encloses_iter: "encloses k s \<Longrightarrow> encloses (k + n) (rho_iter n s)"
proof (induction n arbitrary: k s)
  case (Suc n)
  from Suc.IH [OF encloses_step [OF Suc.prems]] show ?case by simp
qed simp


section \<open>The factors and the base\<close>

fun table_ok :: "nat \<times> nat \<times> nat \<Rightarrow> nat list \<Rightarrow> bool" where
  "table_ok s [] \<longleftrightarrow> True"
| "table_ok s (m # ms) \<longleftrightarrow>
     (case s of (lo, hi, e) \<Rightarrow> m * 2 ^ (e + 34) \<le> lo * (2 ^ 34 + 1)
        \<and> hi * (2 ^ 34 - 1) \<le> m * 2 ^ (e + 34))
     \<and> table_ok (rho_step s) ms"

fun near :: "nat \<Rightarrow> nat list \<Rightarrow> bool" where
  "near k [] \<longleftrightarrow> True"
| "near k (m # ms) \<longleftrightarrow> 0 < m \<and> \<bar>log 2 (real m / 2 ^ 64) + kappa * 2 ^ k\<bar> \<le> 1 / 2 ^ 32 \<and> near (Suc k) ms"

lemma log_rho_power: "log 2 (rho ^ (2 ^ k)) = - (kappa * 2 ^ k)"
  using rho_pos by (simp add: log_nat_power kappa_def)

lemma near_of_table:
  "encloses k s \<Longrightarrow> table_ok s ms \<Longrightarrow> near k ms"
proof (induction ms arbitrary: k s)
  case (Cons m ms)
  obtain lo hi e where s: "s = (lo, hi, e)" by (cases s)
  define P where "P = rho ^ (2 ^ k)"
  define Q :: real where "Q = real m / 2 ^ 64"
  define x :: real where "x = 1 / 2 ^ 34"
  have P: "0 < P" using rho_pos by (simp add: P_def)
  have enc: "2 ^ 63 \<le> lo" "real lo \<le> P * 2 ^ (64 + e)" "P * 2 ^ (64 + e) \<le> real hi"
    using Cons.prems by (auto simp: encloses_def s P_def)
  have tab: "m * 2 ^ (e + 34) \<le> lo * (2 ^ 34 + 1)" "hi * (2 ^ 34 - 1) \<le> m * 2 ^ (e + 34)"
    using Cons.prems by (simp_all add: s)
  have m: "0 < m"
  proof (rule ccontr)
    assume "\<not> 0 < m"
    then have "hi = 0" using tab(2) by simp
    then show False using enc P by (simp add: not_le [symmetric])
  qed
  define S :: real where "S = 2 ^ (64 + e)"
  have S: "0 < S" "real m * 2 ^ (e + 34) = Q * S * 2 ^ 34"
    by (simp_all add: S_def Q_def power_add)
  have "real (m * 2 ^ (e + 34)) \<le> real (lo * (2 ^ 34 + 1))" "real (hi * (2 ^ 34 - 1)) \<le> real (m * 2 ^ (e + 34))"
    using tab by (simp_all only: of_nat_le_iff)
  then have t: "Q * S \<le> real lo * (1 + x)" "real hi * (1 - x) \<le> Q * S"
    using S(2) by (simp_all add: x_def field_simps)
  have "real lo * (1 + x) \<le> P * S * (1 + x)" "P * S * (1 - x) \<le> real hi * (1 - x)"
    using enc by (auto simp: S_def x_def intro: mult_right_mono)
  with t have "Q * S \<le> P * (1 + x) * S" "P * (1 - x) * S \<le> Q * S"
    by (simp_all add: mult_ac)
  then have Q: "Q \<le> P * (1 + x)" "P * (1 - x) \<le> Q"
    using S(1) by (simp_all add: mult_le_cancel_right)
  have Q0: "0 < Q" using m by (simp add: Q_def)
  have xx: "0 \<le> x" "x \<le> 1 / 2" "0 < 1 - x" by (simp_all add: x_def)
  have "log 2 Q \<le> log 2 (P * (1 + x))" "log 2 (P * (1 - x)) \<le> log 2 Q"
    using Q Q0 P xx by (simp_all add: mult_pos_pos)
  then have "log 2 Q \<le> log 2 P + log 2 (1 + x)" "log 2 P + log 2 (1 - x) \<le> log 2 Q"
    using P xx by (simp_all add: log_mult_pos)
  then have "\<bar>log 2 Q + kappa * 2 ^ k\<bar> \<le> 4 * x"
    using log2_one_plus [OF xx(1)] log2_one_minus [OF xx(1,2)] log_rho_power [of k] xx(1)
    unfolding P_def by linarith
  moreover have "4 * x = 1 / 2 ^ 32" by (simp add: x_def)
  moreover have "near (Suc k) ms"
    using Cons.IH [OF encloses_step [OF Cons.prems(1)]] Cons.prems(2) by simp
  ultimately show ?case using m by (simp add: Q_def)
qed simp

lemma near_factors: "near 0 factors"
  by (rule near_of_table [OF encloses_start])
    (simp add: factors_def factor_table_def first_factor_def rho_start_def rho_step_def rho_norm_def)

lemma log_exact:
  "near k ms \<Longrightarrow> n < 2 ^ length ms \<Longrightarrow>
   \<bar>log 2 (exact ms n) + kappa * 2 ^ k * real n\<bar> \<le> real (length ms) / 2 ^ 32"
proof (induction ms arbitrary: k n)
  case (Cons m ms)
  define E where "E = exact ms (n div 2)"
  have IH: "\<bar>log 2 E + kappa * 2 ^ Suc k * real (n div 2)\<bar> \<le> real (length ms) / 2 ^ 32"
    using Cons.IH [of "Suc k" "n div 2"] Cons.prems by (simp add: E_def less_mult_imp_div_less)
  have E: "0 < E"
    unfolding E_def using Cons.prems(1)
  proof (induction ms arbitrary: k m n)
    case (Cons m' ms)
    show ?case using Cons.prems Cons.IH [of "Suc k" m' "n div 2"] by auto
  qed simp
  show ?case
  proof (cases "odd n")
    case False
    then have "real n = 2 * real (n div 2)" by auto
    then show ?thesis using False IH by (simp add: E_def [symmetric] mult_ac add_divide_distrib)
  next
    case True
    then have n: "real n = 2 * real (n div 2) + 1" by (auto elim!: oddE)
    have "log 2 (real m / 2 ^ 64 * E) = log 2 (real m / 2 ^ 64) + log 2 E"
      using Cons.prems(1) E by (intro log_mult_pos) auto
    then have "log 2 (exact (m # ms) n) + kappa * 2 ^ k * real n =
      (log 2 (real m / 2 ^ 64) + kappa * 2 ^ k) + (log 2 E + kappa * 2 ^ Suc k * real (n div 2))"
      using True n by (simp add: E_def algebra_simps)
    moreover have "\<bar>log 2 (real m / 2 ^ 64) + kappa * 2 ^ k\<bar> \<le> 1 / 2 ^ 32"
      using Cons.prems(1) by (simp only: near.simps)
    moreover have "real (length (m # ms)) / 2 ^ 32 = 1 / 2 ^ 32 + real (length ms) / 2 ^ 32"
      by (simp only: list.size of_nat_add of_nat_1 add_divide_distrib)
    ultimately show ?thesis
      using IH by linarith
  qed
qed simp


text \<open>The logarithm of the base, from the exponent after 41 squarings.\<close>

lemma kappa_of_encloses:
  assumes "encloses k (lo, hi, e)" "hi \<le> 2 ^ 65"
  shows "kappa * 2 ^ k \<le> real e + 1" "real e - 1 \<le> kappa * 2 ^ k"
proof -
  define P where "P = rho ^ (2 ^ k)"
  have P: "0 < P" using rho_pos by (simp add: P_def)
  have enc: "2 ^ 63 \<le> lo" "real lo \<le> P * 2 ^ (64 + e)" "P * 2 ^ (64 + e) \<le> real hi"
    using assms(1) by (auto simp: encloses_def P_def)
  have lp: "log 2 (P * 2 ^ (64 + e)) = 64 + real e - kappa * 2 ^ k"
    using P log_rho_power [of k] by (simp add: log_mult_pos P_def log_nat_power del: power_add)
  have "real (2 ^ 63) \<le> real lo" "real hi \<le> real (2 ^ 65)"
    using enc(1) assms(2) by (simp_all only: of_nat_le_iff)
  then have "2 ^ 63 \<le> P * 2 ^ (64 + e)" "P * 2 ^ (64 + e) \<le> 2 ^ 65"
    using enc by simp_all
  then have "log 2 (2 ^ 63) \<le> log 2 (P * 2 ^ (64 + e))" "log 2 (P * 2 ^ (64 + e)) \<le> log 2 (2 ^ 65)"
    using P by (simp_all del: power_add)
  moreover have "log 2 (2 ^ 63) = 63" "log 2 (2 ^ 65) = 65"
    by (simp_all only: log_nat_power) simp_all
  ultimately show "kappa * 2 ^ k \<le> real e + 1" "real e - 1 \<le> kappa * 2 ^ k"
    unfolding lp by linarith+
qed

lemma rho_iter_numeral: "rho_iter (numeral n) s = rho_iter (pred_numeral n) (rho_step s)"
  by (simp add: numeral_eq_Suc)

lemma rho_iter_41: "rho_iter 41 rho_start = (12971071298131219773, 12971074406293175095, 158618066)"
  by (simp add: rho_iter_numeral rho_start_def rho_step_def rho_norm_def)

lemma kappa_bounds: "158618065 \<le> kappa * 2 ^ 41" "kappa * 2 ^ 41 \<le> 158618067"
  using kappa_of_encloses [OF encloses_iter [OF encloses_start, of 41, unfolded rho_iter_41 add_0]]
  by simp_all

lemma log2_literals:
  "log 2 18446744073709551616 = 64" "log 2 340282366920938463463374607431768211456 = 128"
  "log 2 9223372036854775808 = 63"
proof -
  have "log 2 (2 ^ n) = real n" for n
    by (simp add: log_nat_power)
  from this [of 64] this [of 128] this [of 63]
  show "log 2 18446744073709551616 = 64" "log 2 340282366920938463463374607431768211456 = 128"
    "log 2 9223372036854775808 = 63"
    by simp_all
qed

text \<open>The price of a tick and the power of the base.\<close>

lemma price_at_log:
  assumes "MIN_TICK \<le> t" "t \<le> MAX_TICK"
  shows "\<bar>log 2 (real (price_at t) / 2 ^ 64) - kappa * real_of_int t\<bar> \<le> 1 / 2 ^ 25"
proof -
  define n where "n = nat \<bar>t\<bar>"
  have n: "n \<le> 443636" "real n = \<bar>real_of_int t\<bar>"
    using assms by (simp_all add: n_def MIN_TICK_def MAX_TICK_def)
  define E where "E = exact factors n"
  have E: "0 < E" "\<bar>log 2 E + kappa * real n\<bar> \<le> 19 / 2 ^ 32"
    using log_exact [OF near_factors, of n] n exact_factors_pos [of n] by (simp_all add: E_def length_factors)
  define R where "R = real (ratio_of n)"
  have R: "2 ^ 64 * E - 19 \<le> R" "R \<le> 2 ^ 64 * E" "2 ^ 32 \<le> R"
    using ratio_of_exact [of n] ratio_of_bounds(1) [OF n(1)] by (simp_all add: R_def E_def MIN_SQRT_PRICE_X64_def)
  have "2 ^ 32 \<le> 2 ^ 64 * E" using R by linarith
  then have "log 2 (2 ^ 64 * E) - 4 * (19 / 2 ^ 32) \<le> log 2 R" "log 2 R \<le> log 2 (2 ^ 64 * E)"
    using log2_rounded [of "2 ^ 32" "2 ^ 64 * E" 19 R] R by simp_all
  moreover have "log 2 (2 ^ 64 * E) = 64 + log 2 E"
    using E by (simp add: log_mult_pos log2_literals)
  ultimately have LR: "\<bar>log 2 R - 64 + kappa * real n\<bar> \<le> 95 / 2 ^ 32"
    using E(2) unfolding abs_le_iff by linarith
  have small: "x \<le> 95 / 2 ^ 32 \<Longrightarrow> x \<le> 1 / 2 ^ 25" for x :: real
    by simp
  show ?thesis
  proof (cases "0 < t")
    case False
    then have "real (price_at t) = R" "real_of_int t = - real n"
      using n by (simp_all add: price_at_def R_def n_def)
    moreover have "log 2 (R / 2 ^ 64) = log 2 R - 64"
      using R by (simp add: log_divide_pos log2_literals)
    ultimately have "log 2 (real (price_at t) / 2 ^ 64) - kappa * real_of_int t = log 2 R - 64 + kappa * real n"
      by simp
    then show ?thesis using LR small by (simp only:)
  next
    case True
    define P where "P = real (price_at t)"
    have P: "P = real ((2 ^ 128 - 1) div ratio_of n)" "real_of_int t = real n"
      using True n by (simp_all add: price_at_def P_def n_def)
    have R64: "R \<le> 2 ^ 64"
      using ratio_of_bounds(2) [OF n(1)] by (simp add: R_def flip: of_nat_le_iff)
    define q where "q = 2 ^ 128 / R"
    have q: "2 ^ 64 \<le> q"
      using R(3) R64 by (simp add: q_def field_simps)
    have "real (2 ^ 128 - 1 :: nat) = 2 ^ 128 - 1" by simp
    then have "P \<le> (2 ^ 128 - 1) / R" "(2 ^ 128 - 1) / R - 1 \<le> P"
      using real_div_bounds [of "2 ^ 128 - 1" "ratio_of n"] by (simp_all only: P(1) R_def)
    moreover have "(2 ^ 128 - 1) / R = q - 1 / R" "1 / R \<le> 1" "0 \<le> 1 / R"
      using R(3) by (simp_all add: q_def diff_divide_distrib)
    ultimately have Pq: "P \<le> q" "q - 2 \<le> P" by linarith+
    have "log 2 q - 4 * (2 / 2 ^ 64) \<le> log 2 P" "log 2 P \<le> log 2 q"
      using log2_rounded [of "2 ^ 64" q 2 P] Pq q by simp_all
    moreover have "log 2 q = 128 - log 2 R"
      using R by (simp add: q_def log_divide_pos log2_literals)
    moreover have "log 2 (P / 2 ^ 64) = log 2 P - 64"
      using Pq q by (simp add: log_divide_pos log2_literals)
    moreover have "95 / 2 ^ 32 + 4 * (2 / 2 ^ 64) \<le> (1 / 2 ^ 25 :: real)"
      by simp
    ultimately show ?thesis
      using LR unfolding P_def [symmetric] P(2) abs_le_iff by (intro conjI; linarith)
  qed
qed


section \<open>The logarithm of the code\<close>

text \<open>One squaring: the normalised square, and its logarithm.\<close>

lemma square_step:
  assumes "2 ^ 63 \<le> r" "r < 2 ^ 64"
  defines "b \<equiv> r * r div 2 ^ 127" and "r' \<equiv> r * r div 2 ^ (63 + r * r div 2 ^ 127)"
  shows "r * r < 2 ^ 128" "b = 0 \<or> b = 1" "2 ^ 63 \<le> r'" "r' < 2 ^ 64"
    "2 * log 2 (real r) - 63 - real b - 1 / 2 ^ 61 \<le> log 2 (real r')" "log 2 (real r') \<le> 2 * log 2 (real r) - 63 - real b"
proof -
  have "r * r < 2 ^ 64 * 2 ^ 64" using assms(2) by (intro mult_strict_mono) auto
  then show lt: "r * r < 2 ^ 128" by simp
  have "2 ^ 63 * 2 ^ 63 \<le> r * r" using assms(1) by (intro mult_le_mono)
  then have ge: "2 ^ 126 \<le> r * r" by simp
  have "b < 2" using lt unfolding b_def by (intro less_mult_imp_div_less) simp
  then show b: "b = 0 \<or> b = 1" by auto
  have r': "r' = r * r div 2 ^ (63 + b)" by (simp only: r'_def b_def)
  define s :: nat where "s = 63 + b"
  have range: "2 ^ 63 * 2 ^ s \<le> r * r \<and> r * r < 2 ^ 64 * 2 ^ s"
  proof (cases "b = 0")
    case True
    then have "r * r < 2 ^ 127" unfolding b_def by (simp only: div_eq_0_iff) simp
    with True ge show ?thesis by (simp add: s_def)
  next
    case False
    then have one: "b = 1" using b by simp
    then have "1 * 2 ^ 127 \<le> r * r" unfolding b_def by (metis div_times_less_eq_dividend)
    with one lt show ?thesis by (simp add: s_def)
  qed
  then show r'63: "2 ^ 63 \<le> r'"
    unfolding r' s_def [symmetric] by (simp add: less_eq_div_iff_mult_less_eq)
  show "r' < 2 ^ 64"
    unfolding r' s_def [symmetric] using range by (intro less_mult_imp_div_less) simp
  define q where "q = real (r * r) / 2 ^ s"
  have q: "real r' \<le> q" "q - 1 \<le> real r'"
    using real_div_bounds [of "r * r" "2 ^ s"] by (simp_all add: r' s_def [symmetric] q_def)
  have "real (2 ^ 63 * 2 ^ s) \<le> real (r * r)" using range by (simp only: of_nat_le_iff)
  then have "2 ^ 63 \<le> q" by (simp add: q_def field_simps)
  from log2_rounded [OF this q(2,1)]
  have "log 2 q - 4 * (1 / 2 ^ 63) \<le> log 2 (real r')" "log 2 (real r') \<le> log 2 q" by simp_all
  moreover have "log 2 q = 2 * log 2 (real r) - real s"
    using assms(1) by (simp add: q_def log_divide_pos log_mult_pos log_nat_power)
  moreover have "real s = 63 + real b" by (simp add: s_def)
  moreover have err: "4 * (1 / 2 ^ 63) = (1 / 2 ^ 61 :: real)" by simp
  ultimately have "2 * log 2 (real r) - 63 - real b - 1 / 2 ^ 61 \<le> log 2 (real r') \<and>
    log 2 (real r') \<le> 2 * log 2 (real r) - 63 - real b"
    using err by (intro conjI; linarith)
  then show "2 * log 2 (real r) - 63 - real b - 1 / 2 ^ 61 \<le> log 2 (real r')" "log 2 (real r') \<le> 2 * log 2 (real r) - 63 - real b"
    by simp_all
qed

lemma log2_loop_log:
  assumes "n \<le> 16" "2 ^ 63 \<le> r" "r < 2 ^ 64" "0 \<le> fr" "fr + 2 * 2 ^ (47 + n) \<le> 2 ^ 64"
  shows "\<exists>f. log2_loop (2 ^ (47 + n)) (16 - n) r fr = Ok f \<and> fr \<le> f \<and> f < 2 ^ 64 \<and>
     real_of_int (f - fr) \<le> (log 2 (real r) - 63) * 2 ^ (48 + n) \<and>
     (log 2 (real r) - 63) * 2 ^ (48 + n) \<le> real_of_int (f - fr) + 2 ^ 48 + real n * 2 ^ 3"
  using assms
proof (induction n arbitrary: r fr)
  case 0
  have "log 2 (2 ^ 63) \<le> log 2 (real r)" "log 2 (real r) \<le> log 2 (2 ^ 64)"
    using 0 by (subst log_le_cancel_iff; simp flip: of_nat_le_iff of_nat_less_iff)+
  then show ?case using 0 by (subst log2_loop.simps) (simp add: BIT_PRECISION_def log2_literals)
next
  case (Suc n)
  note sq = square_step [OF Suc.prems(2,3)]
  define b where "b = r * r div 2 ^ 127"
  define r' where "r' = r * r div 2 ^ (63 + b)"
  define fr' where "fr' = fr + 2 ^ (47 + Suc n) * int b"
  have b: "b = 0 \<or> b = 1" using sq(2) by (simp only: b_def)
  have pw: "(2::int) ^ (48 + n) = 2 * 2 ^ (47 + n)"
    by (simp flip: power_Suc)
  have big: "(2::int) ^ (47 + Suc n) \<le> 2 ^ 63"
    using Suc.prems(1) by (intro power_increasing) auto
  have fr': "0 \<le> fr'" "fr' + 2 * 2 ^ (47 + n) \<le> 2 ^ 64" "fr \<le> fr'" "fr' \<le> 2 ^ 64"
    using b Suc.prems(4,5) zero_less_power [of "2 :: int" "47 + n"] by (auto simp: fr'_def pw simp del: zero_less_power)
  have eq: "log2_loop (2 ^ (47 + Suc n)) (16 - Suc n) r fr = log2_loop (2 ^ (47 + n)) (16 - n) r' fr'"
  proof -
    have "(2::int) ^ (47 + Suc n) div 2 = 2 ^ (47 + n)" by (simp add: pw)
    moreover have "chk_mul 128 r r = Ok (r * r)" using sq(1) by (simp add: chk_mul_def)
    moreover have "chk_i 128 (2 ^ (47 + Suc n) * int b) = Ok (2 ^ (47 + Suc n) * int b)"
      using b big zero_less_power [of "2 :: int" "48 + n"] by (auto simp: chk_i_def simp del: zero_less_power)
    moreover have "chk_i 128 fr' = Ok fr'" using fr' by (simp add: chk_i_def)
    moreover have "16 - Suc n < BIT_PRECISION" "16 - Suc n + 1 = 16 - n" using Suc.prems(1) by (simp_all add: BIT_PRECISION_def)
    moreover have "(0::int) < 2 ^ (47 + Suc n)" by simp
    ultimately show ?thesis
      by (subst log2_loop.simps) (simp only: Let_def rbind.simps b_def [symmetric] r'_def [symmetric] fr'_def [symmetric] simp_thms if_True)
  qed
  obtain f where f: "log2_loop (2 ^ (47 + n)) (16 - n) r' fr' = Ok f" "fr' \<le> f" "f < 2 ^ 64"
    "real_of_int (f - fr') \<le> (log 2 (real r') - 63) * 2 ^ (48 + n)"
    "(log 2 (real r') - 63) * 2 ^ (48 + n) \<le> real_of_int (f - fr') + 2 ^ 48 + real n * 2 ^ 3"
    using Suc.IH [of r' fr'] Suc.prems(1) sq(3,4) fr' by (auto simp: b_def r'_def)
  define l l' K where "l = log 2 (real r) - 63" and "l' = log 2 (real r') - 63" and "K = (2::real) ^ (48 + n)"
  have ll: "2 * l - real b - 1 / 2 ^ 61 \<le> l'" "l' \<le> 2 * l - real b"
    using sq(5,6) [folded b_def, folded r'_def] by (simp_all add: l_def l'_def)
  have K: "0 < K" "K \<le> 2 ^ 63" "(2::real) ^ (48 + Suc n) = 2 * K"
  proof -
    have "(2::real) ^ (48 + n) \<le> 2 ^ 63" using Suc.prems(1) by (intro power_increasing) auto
    then show "0 < K" "K \<le> 2 ^ 63" "(2::real) ^ (48 + Suc n) = 2 * K"
      by (simp_all only: K_def add_Suc_right power_Suc) simp
  qed
  have d: "real_of_int (f - fr) = real_of_int (f - fr') + K * real b"
    by (simp add: fr'_def K_def)
  have "l' * K \<le> (2 * l - real b) * K" "(2 * l - real b - 1 / 2 ^ 61) * K \<le> l' * K"
    using K(1) ll by (simp_all add: mult_right_mono)
  moreover have "K / 2 ^ 61 \<le> 8" using K(2) by simp
  ultimately have "real_of_int (f - fr) \<le> l * (2 * K)" "l * (2 * K) \<le> real_of_int (f - fr) + 2 ^ 48 + real (Suc n) * 2 ^ 3"
    using f(4,5) unfolding d l'_def [symmetric] K_def [symmetric] by (simp_all add: algebra_simps)
  then show ?case
    using eq f(1-3) fr'(3) unfolding l_def K(3) by auto
qed


lemma bit_length_bounds: "0 < n \<Longrightarrow> 2 ^ (bit_length n - 1) \<le> n \<and> n < 2 ^ bit_length n \<and> 0 < bit_length n"
proof (induction n rule: bit_length.induct)
  case (1 n)
  show ?case
  proof (cases "n = 1")
    case True
    then show ?thesis by (simp add: bit_length.simps)
  next
    case False
    then have "0 < n div 2" using 1(2) by auto
    then have IH: "2 ^ (bit_length (n div 2) - 1) \<le> n div 2" "n div 2 < 2 ^ bit_length (n div 2)" "0 < bit_length (n div 2)"
      using 1 by auto
    obtain k where k: "bit_length (n div 2) = Suc k" using IH(3) by (cases "bit_length (n div 2)") auto
    have "bit_length n = Suc (Suc k)" using 1(2) k by (subst bit_length.simps) simp
    then show ?thesis using IH k by auto
  qed
qed

text \<open>The first value of \<open>r\<close>: the leading 64 bits of the price.\<close>

lemma leading_bits:
  assumes "2 ^ m \<le> p" "p < 2 ^ (m + 1)" "m < 128"
  defines "r \<equiv> (if m \<ge> 64 then p div 2 ^ (m - 63) else p * 2 ^ (63 - m) mod 2 ^ 128)"
  shows "2 ^ 63 \<le> r" "r < 2 ^ 64" "log 2 (real p) - real m - 1 / 2 ^ 61 \<le> log 2 (real r) - 63"
    "log 2 (real r) - 63 \<le> log 2 (real p) - real m"
proof -
  have p: "0 < p" using assms(1) by (metis less_le_trans zero_less_numeral zero_less_power)
  have err: "4 * (1 / 2 ^ 63) = (1 / 2 ^ 61 :: real)" by simp
  have "2 ^ 63 \<le> r \<and> r < 2 ^ 64 \<and> log 2 (real p) - real m - 1 / 2 ^ 61 \<le> log 2 (real r) - 63 \<and>
    log 2 (real r) - 63 \<le> log 2 (real p) - real m"
  proof (cases "m \<ge> 64")
    case True
    define s where "s = m - 63"
    have m: "m = 63 + s" using True by (simp add: s_def)
    have r: "r = p div 2 ^ s" using True by (simp add: r_def s_def)
    have range: "2 ^ 63 * 2 ^ s \<le> p" "p < 2 ^ 64 * 2 ^ s"
      using assms(1,2) by (simp_all add: m power_add)
    have "2 ^ 63 \<le> r" unfolding r using range(1) by (simp add: less_eq_div_iff_mult_less_eq)
    moreover have "r < 2 ^ 64" unfolding r using range(2) by (rule less_mult_imp_div_less)
    moreover define q where "q = real p / 2 ^ s"
    have q: "real r \<le> q" "q - 1 \<le> real r"
      using real_div_bounds [of p "2 ^ s"] by (simp_all add: r q_def)
    have "real (2 ^ 63 * 2 ^ s) \<le> real p" using range(1) by (simp only: of_nat_le_iff)
    then have "2 ^ 63 \<le> q" by (simp add: q_def field_simps)
    from log2_rounded [OF this q(2,1)]
    have "log 2 q - 4 * (1 / 2 ^ 63) \<le> log 2 (real r)" "log 2 (real r) \<le> log 2 q" by simp_all
    moreover have "log 2 q = log 2 (real p) - real s"
      using p by (simp add: q_def log_divide_pos log_nat_power)
    moreover have "real m = 63 + real s" by (simp add: m)
    ultimately show ?thesis using err by (intro conjI; linarith)
  next
    case False
    define s where "s = 63 - m"
    have m: "63 = m + s" using False by (simp add: s_def)
    have range: "2 ^ 63 \<le> p * 2 ^ s" "p * 2 ^ s < 2 ^ 64"
    proof -
      have "2 ^ m * 2 ^ s \<le> p * 2 ^ s" using assms(1) by (rule mult_le_mono1)
      then show "2 ^ 63 \<le> p * 2 ^ s" unfolding m power_add .
      have "p * 2 ^ s < 2 ^ (m + 1) * 2 ^ s" using assms(2) by simp
      also have "\<dots> = 2 * 2 ^ (m + s)" by (simp add: power_add)
      also have "\<dots> = 2 ^ 64" unfolding m [symmetric] by simp
      finally show "p * 2 ^ s < 2 ^ 64" .
    qed
    have r: "r = p * 2 ^ s" using False range(2) by (simp add: r_def s_def [symmetric])
    have "log 2 (real r) = log 2 (real p) + real s"
      using p by (simp add: r log_mult_pos log_nat_power)
    moreover have "63 = real m + real s" using m by (metis of_nat_add of_nat_numeral)
    moreover have "(0::real) \<le> 1 / 2 ^ 61" by simp
    ultimately show ?thesis using range unfolding r by (intro conjI; linarith)
  qed
  then show "2 ^ 63 \<le> r" "r < 2 ^ 64" "log 2 (real p) - real m - 1 / 2 ^ 61 \<le> log 2 (real r) - 63"
    "log 2 (real r) - 63 \<le> log 2 (real p) - real m"
    by simp_all
qed


text \<open>The scaled logarithm, and what multiplying by the constant of the code does to it.\<close>

lemma scaled_tick:
  fixes x :: int and l :: real
  assumes X: "real_of_int x / 4294967296 \<le> l" "l \<le> real_of_int x / 4294967296 + 16 / 1000000"
    and range: "\<bar>real_of_int x / 4294967296\<bar> \<le> 33"
  defines "y \<equiv> x * 59543866431248"
  shows "kappa * real_of_int ((y - 184467440737095516) div 2 ^ 64) + 1 / 2 ^ 25 \<le> l"
    "l + 1 / 2 ^ 25 < kappa * (real_of_int ((y + 15793534762490258745) div 2 ^ 64) + 1)"
proof -
  define W :: real where "W = 18446744073709551616"
  define X where "X = real_of_int x / 4294967296"
  define c where "c = kappa * 59543866431248 / 4294967296"
  have kb: "158618065 / 2199023255552 \<le> kappa" "kappa \<le> 158618067 / 2199023255552"
    using kappa_bounds by simp_all
  have c: "1 - 1 / 100000000 \<le> c" "c \<le> 1 + 1 / 100000000"
    using kb by (simp_all add: c_def)
  have y: "kappa * (real_of_int y / W) = c * X"
    by (simp add: y_def c_def X_def W_def)
  have "\<bar>(c - 1) * X\<bar> \<le> 1 / 100000000 * 33"
  proof -
    have "\<bar>c - 1\<bar> \<le> 1 / 100000000" using c unfolding abs_le_iff by (intro conjI; linarith)
    then show ?thesis unfolding abs_mult using range by (intro mult_mono) (simp_all add: X_def)
  qed
  moreover have "(c - 1) * X = kappa * (real_of_int y / W) - X"
    unfolding y by (simp add: algebra_simps)
  ultimately have cX: "X - 33 / 100000000 \<le> kappa * (real_of_int y / W)" "kappa * (real_of_int y / W) \<le> X + 33 / 100000000"
    by linarith+
  have fl: "real_of_int (a div 2 ^ 64) \<le> real_of_int a / W" "real_of_int a / W \<le> real_of_int (a div 2 ^ 64) + 1" for a
  proof -
    have "real_of_int (a div 2 ^ 64) = of_int \<lfloor>real_of_int a / W\<rfloor>"
      using floor_divide_of_int_eq [of a "2 ^ 64", where 'a = real] by (simp add: W_def)
    then show "real_of_int (a div 2 ^ 64) \<le> real_of_int a / W" "real_of_int a / W \<le> real_of_int (a div 2 ^ 64) + 1"
      by linarith+
  qed
  have k0: "0 \<le> kappa" using kb by linarith
  have "kappa * real_of_int ((y - 184467440737095516) div 2 ^ 64) \<le> kappa * (real_of_int (y - 184467440737095516) / W)"
    using fl(1) k0 by (intro mult_left_mono)
  also have "\<dots> = kappa * (real_of_int y / W) - kappa * (184467440737095516 / W)"
    by (simp add: diff_divide_distrib right_diff_distrib)
  finally have lo: "kappa * real_of_int ((y - 184467440737095516) div 2 ^ 64)
      \<le> kappa * (real_of_int y / W) - kappa * (184467440737095516 / W)" .
  have "158618065 / 2199023255552 * (99 / 10000) \<le> kappa * (184467440737095516 / W)"
    using kb k0 by (intro mult_mono) (simp_all add: W_def)
  then show "kappa * real_of_int ((y - 184467440737095516) div 2 ^ 64) + 1 / 2 ^ 25 \<le> l"
    using lo cX(2) X(1) unfolding X_def [symmetric] by simp
  have "kappa * (real_of_int (y + 15793534762490258745) / W) \<le> kappa * (real_of_int ((y + 15793534762490258745) div 2 ^ 64) + 1)"
    using fl(2) k0 by (intro mult_left_mono)
  moreover have "kappa * (real_of_int (y + 15793534762490258745) / W)
      = kappa * (real_of_int y / W) + kappa * (15793534762490258745 / W)"
    by (simp add: add_divide_distrib distrib_left)
  moreover have "158618065 / 2199023255552 * (85 / 100) \<le> kappa * (15793534762490258745 / W)"
    using kb k0 by (intro mult_mono) (simp_all add: W_def)
  ultimately show "l + 1 / 2 ^ 25 < kappa * (real_of_int ((y + 15793534762490258745) div 2 ^ 64) + 1)"
    using cX(1) X(2) unfolding X_def [symmetric] by simp
qed


text \<open>Everything up to the choice between the two candidates.\<close>

lemma get_tick_candidates:
  assumes p: "MIN_SQRT_PRICE_X64 \<le> p" "p < MAX_SQRT_PRICE_X64"
  defines "l \<equiv> log 2 (real p / 2 ^ 64)"
  obtains low high where
    "get_tick_at_sqrt_price U p = (if low = high then Ok low
       else rbind (unwrap_result (get_sqrt_price_at_tick U high)) (\<lambda>q. if q \<le> p then Ok high else Ok low))"
    "kappa * real_of_int low + 1 / 2 ^ 25 \<le> l" "l + 1 / 2 ^ 25 < kappa * (real_of_int high + 1)"
    "low \<le> high" "high \<le> low + 1"
proof -
  define m where "m = bit_length p - 1"
  have p0: "0 < p" using p by (simp add: MIN_SQRT_PRICE_X64_def)
  have m: "2 ^ m \<le> p" "p < 2 ^ (m + 1)" "bit_length p = m + 1"
    using bit_length_bounds [OF p0] by (auto simp: m_def)
  have pm: "(2::nat) ^ 32 < 2 ^ (m + 1)" "(2::nat) ^ m < 2 ^ 96"
    using m p by (auto simp: MIN_SQRT_PRICE_X64_def MAX_SQRT_PRICE_X64_def)
  have "32 < m + 1" "m < 96"
    using power_less_imp_less_exp [OF _ pm(1)] power_less_imp_less_exp [OF _ pm(2)] by simp_all
  then have mr: "32 \<le> m" "m < 96"
    by simp_all
  define r where "r = (if m \<ge> 64 then p div 2 ^ (m - 63) else p * 2 ^ (63 - m) mod 2 ^ 128)"
  have "m < 128" using mr by simp
  note rb = leading_bits [OF m(1,2) this, folded r_def]
  obtain f where f: "log2_loop 0x8000000000000000 0 r 0 = Ok f" "0 \<le> f" "f < 2 ^ 64"
    "real_of_int f \<le> (log 2 (real r) - 63) * 2 ^ 64" "(log 2 (real r) - 63) * 2 ^ 64 \<le> real_of_int f + 2 ^ 48 + 128"
    using log2_loop_log [of 16 r 0] rb(1,2) by auto
  define g x y where "g = f div 2 ^ 32" and "x = (int m - 64) * 2 ^ 32 + f div 2 ^ 32" and "y = x * 59543866431248"
  have g: "0 \<le> g" "g < 2 ^ 32" "g * 2 ^ 32 \<le> f" "f < (g + 1) * 2 ^ 32"
    using f(2,3) by (auto simp: g_def)
  have xr: "- 137438953472 \<le> x" "x \<le> 137438953472"
    using g mr by (simp_all add: x_def g_def [symmetric])
  define low high where "low = (y - 184467440737095516) div 2 ^ 64" and "high = (y + 15793534762490258745) div 2 ^ 64"
  have yr: "- 8183677213345116000000000 \<le> y" "y \<le> 8183677213345116000000000"
    using xr by (simp_all add: y_def)
  have lr: "- 500000 \<le> low" "low \<le> 500000" "- 500000 \<le> high" "high \<le> 500000"
    using yr by (simp_all add: low_def high_def)
  have eq: "get_tick_at_sqrt_price U p = (if low = high then Ok low
       else rbind (unwrap_result (get_sqrt_price_at_tick U high)) (\<lambda>q. if q \<le> p then Ok high else Ok low))"
  proof -
    have 1: "chk_sub 128 (leading_zeros 128 p) = Ok (m + 1)" "chk_sub (m + 1) 1 = Ok m"
      using mr by (simp_all add: leading_zeros_def m(3) chk_sub_def)
    have 2: "chk_i 128 (int m - 64) = Ok (int m - 64)" using mr by (simp add: chk_i_def)
    have 3: "chk_i 128 x = Ok x" "chk_i 128 y = Ok y" "chk_i 128 (y - 184467440737095516) = Ok (y - 184467440737095516)"
      "chk_i 128 (y + 15793534762490258745) = Ok (y + 15793534762490258745)"
      using xr yr by (simp_all add: chk_i_def)
    have 4: "as_i32 low = low" "as_i32 high = high" using lr by (simp_all add: as_i32_def)
    have 5: "require (p \<ge> MIN_SQRT_PRICE_X64 \<and> p < MAX_SQRT_PRICE_X64) (Code SqrtPriceX64) = Ok ()" using p by simp
    show ?thesis
      unfolding get_tick_at_sqrt_price_def Let_def 5 1 rbind.simps 2 r_def [symmetric] f(1)
        x_def [symmetric] 3 y_def [symmetric] low_def [symmetric] high_def [symmetric] 4 ..
  qed
  have lp: "log 2 (real p) = l + 64"
    using p0 by (simp add: l_def log_divide_pos log2_literals)
  have X: "real_of_int x / 4294967296 = real m - 64 + real_of_int g / 4294967296"
    by (simp add: x_def g_def add_divide_distrib diff_divide_distrib)
  have "real_of_int (g * 2 ^ 32) \<le> real_of_int f" "real_of_int f \<le> real_of_int ((g + 1) * 2 ^ 32)"
    using g(3,4) by (simp_all only: of_int_le_iff less_imp_le)
  then have "real_of_int g / 4294967296 \<le> log 2 (real r) - 63"
    "log 2 (real r) - 63 \<le> real_of_int g / 4294967296 + 156 / 10000000"
    using f(4,5) by simp_all
  moreover have "(1 / 2 ^ 61 :: real) \<le> 1 / 10000000" by simp
  ultimately have X1: "real_of_int x / 4294967296 \<le> l" "l \<le> real_of_int x / 4294967296 + 16 / 1000000"
    using rb(3,4) unfolding lp X by linarith+
  have X2: "\<bar>real_of_int x / 4294967296\<bar> \<le> 33"
    using xr by (simp add: abs_le_iff)
  note st = scaled_tick [OF X1 X2, folded y_def, folded low_def high_def]
  have "low \<le> high"
    unfolding low_def high_def by (intro zdiv_mono1) simp_all
  moreover have "high \<le> low + 1"
  proof -
    have "(y + 15793534762490258745) div 2 ^ 64 \<le> (y - 184467440737095516 + 2 ^ 64) div 2 ^ 64"
      by (intro zdiv_mono1) simp_all
    then show ?thesis by (simp add: low_def high_def)
  qed
  ultimately show thesis
    using that [OF eq] st by blast
qed

context uint_crate
begin

lemma get_tick_at_sqrt_price_correct:
  assumes p: "MIN_SQRT_PRICE_X64 \<le> p" "p < MAX_SQRT_PRICE_X64"
  shows "\<exists>t. get_tick_at_sqrt_price U p = Ok t \<and> MIN_TICK \<le> t \<and> t < MAX_TICK \<and> price_at t \<le> p \<and> p < price_at (t + 1)"
proof -
  define l where "l = log 2 (real p / 2 ^ 64)"
  obtain low high where
    eq: "get_tick_at_sqrt_price U p = (if low = high then Ok low
       else rbind (unwrap_result (get_sqrt_price_at_tick U high)) (\<lambda>q. if q \<le> p then Ok high else Ok low))"
    and lo: "kappa * real_of_int low + 1 / 2 ^ 25 \<le> l" and hi: "l + 1 / 2 ^ 25 < kappa * (real_of_int high + 1)"
    and lh: "low \<le> high" "high \<le> low + 1"
    using get_tick_candidates [OF p, folded l_def] by blast
  have k0: "0 \<le> kappa" using kappa_bounds(1) by simp
  have p0: "0 < p" using p by (simp add: MIN_SQRT_PRICE_X64_def)
  have mm: "MIN_TICK < MAX_TICK" by (simp add: MIN_TICK_def MAX_TICK_def)
  have below: "price_at t \<le> p" if "MIN_TICK \<le> t" "t \<le> MAX_TICK" "t \<le> low" for t
  proof -
    have "kappa * real_of_int t \<le> kappa * real_of_int low" using k0 that by (intro mult_left_mono) simp_all
    then have "log 2 (real (price_at t) / 2 ^ 64) \<le> l" using price_at_log [OF that(1,2)] lo by linarith
    moreover have "0 < price_at t" using price_at_bounds [OF that(1,2)] by (simp add: MIN_SQRT_PRICE_X64_def)
    ultimately show ?thesis using p0 by (simp add: l_def)
  qed
  have above: "p < price_at t" if "MIN_TICK \<le> t" "t \<le> MAX_TICK" "high + 1 \<le> t" for t
  proof -
    have "kappa * (real_of_int high + 1) \<le> kappa * real_of_int t" using k0 that by (intro mult_left_mono) simp_all
    then have "l < log 2 (real (price_at t) / 2 ^ 64)" using price_at_log [OF that(1,2)] hi by linarith
    moreover have "0 < price_at t" using price_at_bounds [OF that(1,2)] by (simp add: MIN_SQRT_PRICE_X64_def)
    ultimately show ?thesis using p0 by (simp add: l_def)
  qed
  have low_max: "low < MAX_TICK"
    using below [of MAX_TICK] p(2) mm by (force simp: price_at_MAX_TICK)
  have high_min: "MIN_TICK \<le> high"
    using above [of MIN_TICK] p(1) mm by (force simp: price_at_MIN_TICK)
  show ?thesis
  proof (cases "low = high")
    case True
    then show ?thesis
      using eq below [of low] above [of "low + 1"] low_max high_min by auto
  next
    case False
    then have h: "high = low + 1" using lh by simp
    then have hm: "high \<le> MAX_TICK" using low_max by simp
    have eq': "get_tick_at_sqrt_price U p = (if price_at high \<le> p then Ok high else Ok low)"
      using eq False get_sqrt_price_at_tick_Ok [OF high_min hm] by simp
    show ?thesis
    proof (cases "price_at high \<le> p")
      case True
      then have "high < MAX_TICK" using p(2) hm price_at_MAX_TICK by (cases "high = MAX_TICK") auto
      then show ?thesis using True eq' above [of "high + 1"] high_min by auto
    next
      case False
      then have "MIN_TICK \<le> low" using p(1) high_min h price_at_MIN_TICK by (cases "high = MIN_TICK") auto
      then show ?thesis using False eq' below [of low] low_max h by auto
    qed
  qed
qed

lemma get_tick_at_sqrt_price_eq:
  assumes "MIN_TICK \<le> t" "t < MAX_TICK" "price_at t \<le> p" "p < price_at (t + 1)"
  shows "get_tick_at_sqrt_price U p = Ok t"
proof -
  have "MIN_SQRT_PRICE_X64 \<le> p" "p < MAX_SQRT_PRICE_X64"
    using price_at_bounds(1) [of t] price_at_bounds(2) [of "t + 1"] assms by auto
  then obtain s where s: "get_tick_at_sqrt_price U p = Ok s" "MIN_TICK \<le> s" "s < MAX_TICK" "price_at s \<le> p" "p < price_at (s + 1)"
    using get_tick_at_sqrt_price_correct by blast
  have "\<not> s < t" "\<not> t < s"
    using price_at_mono [of "s + 1" t] price_at_mono [of "t + 1" s] s assms by auto
  then show ?thesis using s(1) by simp
qed

end

section \<open>Properties\<close>

text \<open>
  C9. \<open>get_tick_at_sqrt_price\<close> inverts \<open>get_sqrt_price_at_tick\<close>: for a price in range it returns
  the tick whose price is not above the given one while the price of the next tick is; the price
  of a tick leads back to the tick; a price out of range is refused.
\<close>

theorem get_tick_at_sqrt_price_inverts:
  assumes "uint_crate U"
  shows "(if MIN_SQRT_PRICE_X64 \<le> p \<and> p < MAX_SQRT_PRICE_X64
      then \<exists>t a b. get_tick_at_sqrt_price U p = Ok t \<and> get_sqrt_price_at_tick U t = Ok a
        \<and> get_sqrt_price_at_tick U (t + 1) = Ok b \<and> a \<le> p \<and> p < b
      else get_tick_at_sqrt_price U p = Err (Code SqrtPriceX64))
    \<and> (get_sqrt_price_at_tick U t = Ok q \<longrightarrow> t < MAX_TICK \<longrightarrow> get_tick_at_sqrt_price U q = Ok t)"
proof (intro conjI impI)
  show "if MIN_SQRT_PRICE_X64 \<le> p \<and> p < MAX_SQRT_PRICE_X64
      then \<exists>t a b. get_tick_at_sqrt_price U p = Ok t \<and> get_sqrt_price_at_tick U t = Ok a
        \<and> get_sqrt_price_at_tick U (t + 1) = Ok b \<and> a \<le> p \<and> p < b
      else get_tick_at_sqrt_price U p = Err (Code SqrtPriceX64)"
    using uint_crate.get_tick_at_sqrt_price_correct [OF assms, of p] uint_crate.get_sqrt_price_at_tick_Ok [OF assms]
    by (auto simp: get_tick_at_sqrt_price_def)
next
  assume q: "get_sqrt_price_at_tick U t = Ok q" and t: "t < MAX_TICK"
  from uint_crate.get_sqrt_price_at_tick_OkD [OF assms q]
  have "MIN_TICK \<le> t" "q = price_at t" by simp_all
  then show "get_tick_at_sqrt_price U q = Ok t"
    using uint_crate.get_tick_at_sqrt_price_eq [OF assms, of t q] price_at_step [of t] t by simp
qed

theorem get_tick_at_sqrt_price_inverts_witness:
  "(\<exists>q. get_sqrt_price_at_tick uint_ref (- 250000) = Ok q \<and> get_tick_at_sqrt_price uint_ref q = Ok (- 250000))
    \<and> get_tick_at_sqrt_price uint_ref 5 = Err (Code SqrtPriceX64)"
proof -
  obtain q where "get_sqrt_price_at_tick uint_ref (- 250000) = Ok q"
    using uint_ref.get_sqrt_price_at_tick_Ok [of "- 250000"] by (auto simp: MIN_TICK_def MAX_TICK_def)
  then show ?thesis
    using get_tick_at_sqrt_price_inverts [OF uint_crate_ref, of 5 "- 250000" q]
    by (simp add: MAX_TICK_def MIN_TICK_def MIN_SQRT_PRICE_X64_def)
qed

end
