(* ===== verification/Swap_Bounds.thy ===== *)
theory Swap_Bounds
  imports Swap_Core Pool_Search Tick_Log
begin

text \<open>
  What every turn of the swap loop does: it moves the price towards the limit, uses up the
  amount or moves the tick, and never more than what is left.  From this the loop ends and a
  swap respects what was asked for.
\<close>

section \<open>The pieces of one turn\<close>

lemma pop_tick_arrays_OkD:
  "pop_tick_arrays D pool start passed current states = Ok (p, c, s) \<Longrightarrow>
   p @ c # s = passed @ current # states \<and> ta_start_tick_index c = start"
proof (induction states arbitrary: passed current)
  case Nil
  then show ?case by (auto split: if_splits)
next
  case (Cons a states)
  then show ?case
    by (cases "ta_start_tick_index current = start") (auto simp: res_inv)
qed

lemma find_first_tick_array_split:
  "find_first_tick_array start passed current states = (p, c, s) \<Longrightarrow> p @ c # s = passed @ current # states"
  by (induction states arbitrary: passed current) (auto split: if_splits)

lemma pop_first_tick_array_OkD:
  "pop_first_tick_array start arrays = Ok (p, c, s) \<Longrightarrow> p @ c # s = arrays"
  by (auto simp: pop_first_tick_array_def dest: find_first_tick_array_split split: list.splits)

lemma find_next_tick_OkD:
  assumes "find_next_tick D env v = Ok (t, v')"
  shows "sv_state v' = sv_state v" "swap_arrays v' = swap_arrays v"
    "sv_passed v = sv_passed v' \<or> sv_passed v @ [sv_tick_array_current v] @ sv_tick_array_states v
      = sv_passed v' @ [sv_tick_array_current v'] @ sv_tick_array_states v'"
  using assms pop_tick_arrays_OkD
  by (fastforce simp: find_next_tick_def next_tick_in_array_def next_tick_in_next_array_def res_inv Let_def
      swap_arrays_def split: if_splits option.splits prod.splits)+

context uint_crate
begin

lemma swap_step_start_OkD:
  assumes "swap_step_start U env state t = Ok (step, target)"
  defines "n \<equiv> max MIN_TICK (min MAX_TICK (ts_tick t))"
  shows "step = default_step_computations\<lparr>sc_sqrt_price_start_x64 := sw_sqrt_price_x64 state, sc_tick_next := n,
      sc_initialized := tick_is_initialized t, sc_sqrt_price_next_x64 := price_at n\<rparr>"
    "target = (if se_zero_for_one env then max (price_at n) (se_sqrt_price_limit_x64 env)
      else min (price_at n) (se_sqrt_price_limit_x64 env))"
    "if se_zero_for_one env then n \<le> sw_tick state \<and> price_at n \<le> sw_sqrt_price_x64 state \<and> target \<le> sw_sqrt_price_x64 state
     else sw_tick state < n \<and> sw_sqrt_price_x64 state \<le> price_at n \<and> sw_sqrt_price_x64 state \<le> target"
    "MIN_TICK \<le> n" "n \<le> MAX_TICK"
proof -
  have mm: "MIN_TICK \<le> MAX_TICK" by (simp add: MIN_TICK_def MAX_TICK_def)
  show n: "MIN_TICK \<le> n" "n \<le> MAX_TICK" using mm by (auto simp: n_def)
  define s where "s = default_step_computations\<lparr>sc_sqrt_price_start_x64 := sw_sqrt_price_x64 state,
    sc_tick_next := ts_tick t, sc_initialized := tick_is_initialized t\<rparr>"
  define z lim where "z = se_zero_for_one env" and "lim = se_sqrt_price_limit_x64 env"
  define P where "P = price_at n"
  have c: "(if sc_tick_next s < MIN_TICK then s\<lparr>sc_tick_next := MIN_TICK\<rparr>
      else if sc_tick_next s > MAX_TICK then s\<lparr>sc_tick_next := MAX_TICK\<rparr> else s) = s\<lparr>sc_tick_next := n\<rparr>"
    using mm by (auto simp: n_def min_def max_def s_def)
  have ok: "rbind (if z then rbind (require (sw_tick state \<ge> n) RequireGteViolated) (\<lambda>_.
        rbind (require (sw_sqrt_price_x64 state \<ge> P) RequireGteViolated) (\<lambda>_.
        require (sw_sqrt_price_x64 state \<ge> (if z \<and> P < lim \<or> \<not> z \<and> P > lim then lim else P)) RequireGteViolated))
      else rbind (require (n > sw_tick state) RequireGtViolated) (\<lambda>_.
        rbind (require (P \<ge> sw_sqrt_price_x64 state) RequireGteViolated) (\<lambda>_.
        require ((if z \<and> P < lim \<or> \<not> z \<and> P > lim then lim else P) \<ge> sw_sqrt_price_x64 state) RequireGteViolated)))
      (\<lambda>_. Ok (s\<lparr>sc_tick_next := n, sc_sqrt_price_next_x64 := P\<rparr>, if z \<and> P < lim \<or> \<not> z \<and> P > lim then lim else P))
    = Ok (step, target)"
    using assms(1) unfolding swap_step_start_def Let_def s_def [symmetric] c z_def lim_def P_def
    by (simp add: get_sqrt_price_at_tick_Ok [OF n] s_def cong del: rbind_weak_cong if_weak_cong)
  have r: "step = s\<lparr>sc_tick_next := n, sc_sqrt_price_next_x64 := P\<rparr>" "target = (if z then max P lim else min P lim)"
    "if z then n \<le> sw_tick state \<and> P \<le> sw_sqrt_price_x64 state \<and> target \<le> sw_sqrt_price_x64 state
     else sw_tick state < n \<and> sw_sqrt_price_x64 state \<le> P \<and> sw_sqrt_price_x64 state \<le> target"
    using ok by (cases z; simp add: res_inv max_def min_def not_less; fastforce)+
  show "step = default_step_computations\<lparr>sc_sqrt_price_start_x64 := sw_sqrt_price_x64 state, sc_tick_next := n,
      sc_initialized := tick_is_initialized t, sc_sqrt_price_next_x64 := price_at n\<rparr>"
    using r(1) by (simp add: s_def P_def)
  show "target = (if se_zero_for_one env then max (price_at n) (se_sqrt_price_limit_x64 env)
      else min (price_at n) (se_sqrt_price_limit_x64 env))"
    using r(2) unfolding z_def lim_def P_def .
  show "if se_zero_for_one env then n \<le> sw_tick state \<and> price_at n \<le> sw_sqrt_price_x64 state \<and> target \<le> sw_sqrt_price_x64 state
     else sw_tick state < n \<and> sw_sqrt_price_x64 state \<le> price_at n \<and> sw_sqrt_price_x64 state \<le> target"
    using r(3) unfolding z_def P_def .
qed

lemma swap_step_move_OkD:
  assumes "swap_step_move U env target state step = Ok (state', step')"
  obtains s where
    "compute_swap_step U (sc_sqrt_price_start_x64 step) target (sw_liquidity state)
       (sw_amount_specified_remaining state) (ac_trade_fee_rate (se_amm_config env))
       (se_is_base_input env) (se_zero_for_one env) = Ok s"
    "step' = step\<lparr>sc_amount_in := ss_amount_in s, sc_amount_out := ss_amount_out s, sc_fee_amount := ss_fee_amount s\<rparr>"
    "let used = (if se_is_base_input env then ss_amount_in s + ss_fee_amount s else ss_amount_out s);
         got = (if se_is_base_input env then ss_amount_out s else ss_amount_in s + ss_fee_amount s) in
     used \<le> sw_amount_specified_remaining state \<and> sw_amount_calculated state + got < 2 ^ 64 \<and>
     ss_amount_in s + ss_fee_amount s < 2 ^ 64 \<and>
     state' = state\<lparr>sw_sqrt_price_x64 := ss_sqrt_price_next_x64 s,
       sw_amount_specified_remaining := sw_amount_specified_remaining state - used,
       sw_amount_calculated := sw_amount_calculated state + got\<rparr>"
  using assms by (auto simp: swap_step_move_def Let_def res_inv split: if_splits)

lemma fee_share_OkD: "fee_share U fee rate = Ok x \<Longrightarrow> x = fee * rate div FEE_RATE_DENOMINATOR_VALUE \<and> x < 2 ^ 64"
  by (auto simp: fee_share_def res_inv FEE_RATE_DENOMINATOR_VALUE_def split: if_splits)

lemma take_fee_share_OkD:
  assumes "take_fee_share U fee rate tot step = Ok (tot', step')"
  defines "d \<equiv> fee * rate div FEE_RATE_DENOMINATOR_VALUE"
  shows "d \<le> sc_fee_amount step" "tot' = tot + d" "step' = step\<lparr>sc_fee_amount := sc_fee_amount step - d\<rparr>"
  using assms(1) unfolding d_def
  by (auto simp: take_fee_share_def res_inv split: if_splits dest!: fee_share_OkD)

lemma grow_fees_OkD:
  assumes "grow_fees U state step = Ok state'" "sc_fee_amount step < 2 ^ 64" "sw_liquidity state < 2 ^ 128"
  defines "L \<equiv> sw_liquidity state"
  shows "state' = state\<lparr>
      sw_fee_growth_global_x64 := sw_fee_growth_global_x64 state + (if 0 < L then sc_fee_amount step * 2 ^ 64 div L else 0),
      sw_fee_amount := sw_fee_amount state + (if 0 < L then sc_fee_amount step else 0)\<rparr>"
  using assms(1-3) unfolding L_def
  by (auto simp: grow_fees_def mul_div_floor_u128_eq Q64_def res_inv fits_def split: if_splits)

lemma swap_step_fees_OkD:
  assumes "swap_step_fees U env state step = Ok (state', step')"
    and "sc_fee_amount step < 2 ^ 64" "sw_liquidity state < 2 ^ 128"
  defines "fee \<equiv> sc_fee_amount step"
    and "dp \<equiv> sc_fee_amount step * ac_protocol_fee_rate (se_amm_config env) div FEE_RATE_DENOMINATOR_VALUE"
    and "df \<equiv> sc_fee_amount step * ac_fund_fee_rate (se_amm_config env) div FEE_RATE_DENOMINATOR_VALUE"
    and "L \<equiv> sw_liquidity state"
  shows "dp + df \<le> fee" "step' = step\<lparr>sc_fee_amount := fee - dp - df\<rparr>"
    "state' = state\<lparr>sw_protocol_fee := sw_protocol_fee state + dp, sw_fund_fee := sw_fund_fee state + df,
       sw_fee_growth_global_x64 := sw_fee_growth_global_x64 state + (if 0 < L then (fee - dp - df) * 2 ^ 64 div L else 0),
       sw_fee_amount := sw_fee_amount state + (if 0 < L then fee - dp - df else 0)\<rparr>"
proof -
  obtain p t1 f t2 where
    1: "take_fee_share U fee (ac_protocol_fee_rate (se_amm_config env)) (sw_protocol_fee state) step = Ok (p, t1)"
    and 2: "take_fee_share U fee (ac_fund_fee_rate (se_amm_config env)) (sw_fund_fee state) t1 = Ok (f, t2)"
    and 3: "grow_fees U (state\<lparr>sw_protocol_fee := p, sw_fund_fee := f\<rparr>) t2 = Ok state'" and t2: "step' = t2"
    using assms(1) by (auto simp: swap_step_fees_def Let_def res_inv fee_def)
  have d: "fee * ac_protocol_fee_rate (se_amm_config env) div FEE_RATE_DENOMINATOR_VALUE = dp"
    "fee * ac_fund_fee_rate (se_amm_config env) div FEE_RATE_DENOMINATOR_VALUE = df"
    by (simp_all add: dp_def df_def fee_def)
  have r1: "dp \<le> fee" "p = sw_protocol_fee state + dp" "t1 = step\<lparr>sc_fee_amount := fee - dp\<rparr>"
    using take_fee_share_OkD [OF 1] unfolding d by (simp_all add: fee_def)
  have r2: "df \<le> fee - dp" "f = sw_fund_fee state + df" "t2 = step\<lparr>sc_fee_amount := fee - dp - df\<rparr>"
    using take_fee_share_OkD [OF 2] unfolding d r1(3) by simp_all
  show "dp + df \<le> fee" "step' = step\<lparr>sc_fee_amount := fee - dp - df\<rparr>"
    using r1(1) r2 by (simp_all add: t2)
  have "sc_fee_amount t2 < 2 ^ 64" using assms(2) r2(3) by (simp add: fee_def)
  from grow_fees_OkD [OF 3 this] assms(3)
  show "state' = state\<lparr>sw_protocol_fee := sw_protocol_fee state + dp, sw_fund_fee := sw_fund_fee state + df,
       sw_fee_growth_global_x64 := sw_fee_growth_global_x64 state + (if 0 < L then (fee - dp - df) * 2 ^ 64 div L else 0),
       sw_fee_amount := sw_fee_amount state + (if 0 < L then fee - dp - df else 0)\<rparr>"
    by (simp add: L_def r1(2) r2(2,3))
qed

lemma swap_step_shift_OkD:
  assumes "swap_step_shift U env t state step arr = Ok (state', arr')" "sw_liquidity state < 2 ^ 128"
  shows "\<exists>tick L. state' = state\<lparr>sw_tick := tick, sw_liquidity := L\<rparr> \<and> L < 2 ^ 128 \<and>
     (sw_sqrt_price_x64 state = sc_sqrt_price_next_x64 step \<longrightarrow>
        tick = (if se_zero_for_one env then sc_tick_next step - 1 else sc_tick_next step))"
proof -
  have cross: "\<exists>L. s = state\<lparr>sw_liquidity := L\<rparr> \<and> L < 2 ^ 128" if "cross_next_tick env t state arr = Ok (s, a)" for s a
    using that assms(2) by (auto simp: cross_next_tick_def Let_def res_inv add_delta_eq_Ok_iff)
  have self: "state\<lparr>sw_liquidity := sw_liquidity state\<rparr> = state"
    and tself: "state\<lparr>sw_tick := sw_tick state\<rparr> = state"
    by (cases state; simp)+
  show ?thesis
  proof (cases "sw_sqrt_price_x64 state = sc_sqrt_price_next_x64 step")
    case True
    obtain s a tick where "s = state \<or> cross_next_tick env t state arr = Ok (s, a)"
      "tick = (if se_zero_for_one env then sc_tick_next step - 1 else sc_tick_next step)" "state' = s\<lparr>sw_tick := tick\<rparr>"
      using assms(1) True by (auto simp: swap_step_shift_def res_inv chk_i_eq_Ok_iff split: if_splits)
    then obtain L where "s = state\<lparr>sw_liquidity := L\<rparr>" "L < 2 ^ 128"
      using cross assms(2) self by metis
    then show ?thesis
      using \<open>state' = _\<close> \<open>tick = _\<close> by (intro exI [of _ tick] exI [of _ L]) simp
  next
    case False
    then have "state' = state \<or> (\<exists>tick. state' = state\<lparr>sw_tick := tick\<rparr>)"
      using assms(1) by (auto simp: swap_step_shift_def res_inv split: if_splits)
    then obtain tick where "state' = state\<lparr>sw_tick := tick\<rparr>"
      using tself by metis
    then have "state' = state\<lparr>sw_tick := tick, sw_liquidity := sw_liquidity state\<rparr>"
      by (cases state) simp
    then show ?thesis
      using False assms(2) by blast
  qed
qed


text \<open>Without liquidity a step moves nothing and costs nothing; the fee is at least the rate.\<close>

lemma step_of_no_liquidity: "step_in_of z c n 0 = 0" "step_out_of z c n 0 = 0"
  by (simp_all add: step_in_of_def step_out_of_def amount_0_of_def amount_1_of_def)

lemma compute_swap_step_fee:
  assumes bounds: "c < 2 ^ 128" "t < 2 ^ 128" "L < 2 ^ 128" "rem < 2 ^ 64"
    and f: "f < FEE_RATE_DENOMINATOR_VALUE"
    and t: "0 < t" "price_between z c t t"
    and ok: "compute_swap_step U c t L rem f base z = Ok s"
  shows "(ss_amount_in s + ss_fee_amount s) * f \<le> ss_fee_amount s * FEE_RATE_DENOMINATOR_VALUE"
    "L = 0 \<Longrightarrow> ss_fee_amount s = 0"
proof -
  define D where "D = FEE_RATE_DENOMINATOR_VALUE"
  from ok obtain s1 where s1: "swap_step_target U c t L rem f base z = Ok s1"
    by (auto simp: compute_swap_step_def res_inv)
  note r = compute_swap_step_OkD [OF assms]
  have n1: "ss_sqrt_price_next_x64 s1 = ss_sqrt_price_next_x64 s"
    using ok s1 by (auto simp: compute_swap_step_def swap_step_amounts_def swap_step_fee_def Let_def res_inv split: if_splits)
  define n where "n = ss_sqrt_price_next_x64 s"
  define x where "x = ss_amount_in s"
  define e where "e = ss_fee_amount s"
  have f': "f \<le> D" "0 < D - f" using f by (simp_all add: D_def)
  have mul: "(x + e) * f \<le> e * D" if "x * f \<le> e * (D - f)"
  proof -
    have "e * (D - f) + e * f = e * D"
      using f'(1) by (simp add: distrib_left [symmetric])
    then show ?thesis using that by (simp add: distrib_right)
  qed
  have "(x + e) * f \<le> e * D"
  proof (cases "\<not> base \<or> n = t")
    case True
    then have "e = cdiv (x * f) (D - f)"
      using r(7) by (auto simp: e_def x_def D_def n_def)
    then show ?thesis using cdiv_mult_ge [OF f'(2), of "x * f"] mul by simp
  next
    case False
    then have xe: "x + e = rem" using r(5) by (auto simp: e_def x_def n_def)
    have "x \<le> rem * (D - f) div D"
      using swap_step_target_OkD(2) [OF bounds f t s1] False r(2) n1 by (auto simp: x_def D_def n_def)
    then have "x * D \<le> rem * (D - f)"
      using f' by (simp add: less_eq_div_iff_mult_less_eq)
    moreover have "rem * (D - f) = rem * D - rem * f" by (simp add: diff_mult_distrib2)
    moreover have "rem * f \<le> rem * D" using f' by simp
    moreover have "x * D + e * D = rem * D" using xe by (simp add: distrib_right [symmetric])
    ultimately show ?thesis unfolding xe by linarith
  qed
  then show "(ss_amount_in s + ss_fee_amount s) * f \<le> ss_fee_amount s * FEE_RATE_DENOMINATOR_VALUE"
    by (simp add: x_def e_def D_def)
  show "ss_fee_amount s = 0" if "L = 0"
  proof (cases "\<not> base \<or> n = t")
    case True
    with r(2,7) that show ?thesis by (auto simp: step_of_no_liquidity n_def)
  next
    case False
    then have b: base "n \<noteq> t" by auto
    have "ss_amount_in s1 = 0"
      using swap_step_target_OkD(2) [OF bounds f t s1 b(1)] that by (simp add: step_of_no_liquidity)
    then have "ss_sqrt_price_next_x64 s1 = t"
      using s1 b(1) by (auto simp: swap_step_target_def default_swap_step_def res_inv split: if_splits)
    with n1 b(2) show ?thesis by (simp add: n_def)
  qed
qed

end

section \<open>One turn, as a whole\<close>

text \<open>The hypotheses on the inputs of the loop, and what a run of any number of turns guarantees.\<close>

definition env_ok :: "swap_env \<Rightarrow> bool" where
  "env_ok env \<longleftrightarrow> ac_trade_fee_rate (se_amm_config env) < FEE_RATE_DENOMINATOR_VALUE
     \<and> MIN_SQRT_PRICE_X64 < se_sqrt_price_limit_x64 env \<and> se_sqrt_price_limit_x64 env < MAX_SQRT_PRICE_X64"

definition state_ok :: "swap_env \<Rightarrow> swap_state \<Rightarrow> bool" where
  "state_ok env s \<longleftrightarrow> sw_sqrt_price_x64 s < 2 ^ 128 \<and> sw_liquidity s < 2 ^ 128
     \<and> sw_amount_specified_remaining s < 2 ^ 64
     \<and> (if se_zero_for_one env then se_sqrt_price_limit_x64 env \<le> sw_sqrt_price_x64 s
        else sw_sqrt_price_x64 s \<le> se_sqrt_price_limit_x64 env)"

definition fees_taken :: "swap_state \<Rightarrow> int" where
  "fees_taken s = int (sw_fee_amount s) + int (sw_protocol_fee s) + int (sw_fund_fee s)"

definition amount_used :: "swap_state \<Rightarrow> swap_state \<Rightarrow> int" where
  "amount_used s s' = int (sw_amount_specified_remaining s) - int (sw_amount_specified_remaining s')"

definition amount_got :: "swap_state \<Rightarrow> swap_state \<Rightarrow> int" where
  "amount_got s s' = int (sw_amount_calculated s') - int (sw_amount_calculated s)"

definition fees_between :: "swap_state \<Rightarrow> swap_state \<Rightarrow> int" where
  "fees_between s s' = fees_taken s' - fees_taken s"

definition protocol_between :: "swap_state \<Rightarrow> swap_state \<Rightarrow> int" where
  "protocol_between s s' = int (sw_protocol_fee s') - int (sw_protocol_fee s)"

definition fund_between :: "swap_state \<Rightarrow> swap_state \<Rightarrow> int" where
  "fund_between s s' = int (sw_fund_fee s') - int (sw_fund_fee s)"

definition input_between :: "swap_env \<Rightarrow> swap_state \<Rightarrow> swap_state \<Rightarrow> int" where
  "input_between env s s' = (if se_is_base_input env then amount_used s s' else amount_got s s')"

definition progress :: "swap_env \<Rightarrow> swap_state \<Rightarrow> swap_state \<Rightarrow> bool" where
  "progress env s s' \<longleftrightarrow>
     price_between (se_zero_for_one env) (sw_sqrt_price_x64 s) (sw_sqrt_price_x64 s') (se_sqrt_price_limit_x64 env)
     \<and> 0 \<le> amount_used s s' \<and> 0 \<le> amount_got s s'
     \<and> sw_fee_growth_global_x64 s \<le> sw_fee_growth_global_x64 s'
     \<and> 0 \<le> protocol_between s s' \<and> 0 \<le> fund_between s s'
     \<and> protocol_between s s' + fund_between s s' \<le> fees_between s s'
     \<and> fees_between s s' \<le> input_between env s s'
     \<and> input_between env s s' * int (ac_trade_fee_rate (se_amm_config env))
         \<le> fees_between s s' * int FEE_RATE_DENOMINATOR_VALUE
     \<and> protocol_between s s' * int FEE_RATE_DENOMINATOR_VALUE
         \<le> fees_between s s' * int (ac_protocol_fee_rate (se_amm_config env))
     \<and> fund_between s s' * int FEE_RATE_DENOMINATOR_VALUE
         \<le> fees_between s s' * int (ac_fund_fee_rate (se_amm_config env))"

lemma between_additive:
  "amount_used s s'' = amount_used s s' + amount_used s' s''" "amount_got s s'' = amount_got s s' + amount_got s' s''"
  "fees_between s s'' = fees_between s s' + fees_between s' s''"
  "protocol_between s s'' = protocol_between s s' + protocol_between s' s''"
  "fund_between s s'' = fund_between s s' + fund_between s' s''"
  "input_between env s s'' = input_between env s s' + input_between env s' s''"
  by (simp_all add: amount_used_def amount_got_def fees_between_def protocol_between_def fund_between_def input_between_def)

lemmas between_defs = amount_used_def amount_got_def fees_between_def protocol_between_def fund_between_def
  input_between_def fees_taken_def

lemma progress_refl: "state_ok env s \<Longrightarrow> progress env s s"
  by (auto simp: progress_def state_ok_def price_between_def between_defs)

lemma scaled_sum: "a * f \<le> x * D \<Longrightarrow> b * f \<le> y * D \<Longrightarrow> (a + b) * f \<le> (x + y) * (D :: int)"
  by (simp add: distrib_right)

lemma progress_trans:
  assumes "progress env s s'" "progress env s' s''"
  shows "progress env s s''"
proof -
  have price: "price_between (se_zero_for_one env) (sw_sqrt_price_x64 s) (sw_sqrt_price_x64 s'') (se_sqrt_price_limit_x64 env)"
    using assms by (auto simp: progress_def price_between_def split: if_splits)
  note p = assms [unfolded progress_def]
  show ?thesis
    unfolding progress_def between_additive(1-5) [of s s'' s'] between_additive(6) [of env s s'' s']
    using p price by (intro conjI scaled_sum) linarith+
qed

definition ticks_left :: "bool \<Rightarrow> i32 \<Rightarrow> nat" where
  "ticks_left zero_for_one t = (if zero_for_one then nat (t - MIN_TICK + 1) else nat (MAX_TICK - t))"

lemma swap_loop_body_OkE:
  assumes "swap_loop_body U D env v = Ok v'"
  obtains t v1 step target s1 step1 s2 step2 s3 arr where
    "find_next_tick D env v = Ok (t, v1)"
    "swap_step_start U env (sv_state v1) t = Ok (step, target)"
    "swap_step_move U env target (sv_state v1) step = Ok (s1, step1)"
    "swap_step_fees U env s1 step1 = Ok (s2, step2)"
    "swap_step_shift U env t s2 step2 (sv_tick_array_current v1) = Ok (s3, arr)"
    "v' = v1\<lparr>sv_state := s3, sv_tick_array_current := arr\<rparr>"
  using assms by (auto simp: swap_loop_body_def res_inv)

context uint_crate
begin

lemma swap_loop_body_OkD:
  assumes e: "env_ok env" and s: "state_ok env (sv_state v)" and ok: "swap_loop_body U D env v = Ok v'"
  shows "state_ok env (sv_state v')" "progress env (sv_state v) (sv_state v')"
    "swap_continues env v' \<Longrightarrow>
       ticks_left (se_zero_for_one env) (sw_tick (sv_state v')) < ticks_left (se_zero_for_one env) (sw_tick (sv_state v))"
proof -
  define z base where "z = se_zero_for_one env" and "base = se_is_base_input env"
  define s0 lim where "s0 = sv_state v" and "lim = se_sqrt_price_limit_x64 env"
  obtain t v1 step target s1 step1 s2 step2 s3 arr where
    find: "find_next_tick D env v = Ok (t, v1)"
    and start: "swap_step_start U env (sv_state v1) t = Ok (step, target)"
    and move: "swap_step_move U env target (sv_state v1) step = Ok (s1, step1)"
    and fees: "swap_step_fees U env s1 step1 = Ok (s2, step2)"
    and shift: "swap_step_shift U env t s2 step2 (sv_tick_array_current v1) = Ok (s3, arr)"
    and v': "v' = v1\<lparr>sv_state := s3, sv_tick_array_current := arr\<rparr>"
    by (rule swap_loop_body_OkE [OF ok])
  have "sv_state v1 = s0"
    using find_next_tick_OkD(1) [OF find] by (simp add: s0_def)
  note start = start [unfolded this] and move = move [unfolded this]
  define n where "n = max MIN_TICK (min MAX_TICK (ts_tick t))"
  note st = swap_step_start_OkD [OF start, folded n_def z_def lim_def]
  have ok0: "sw_sqrt_price_x64 s0 < 2 ^ 128" "sw_liquidity s0 < 2 ^ 128" "sw_amount_specified_remaining s0 < 2 ^ 64"
    and lim0: "if z then lim \<le> sw_sqrt_price_x64 s0 else sw_sqrt_price_x64 s0 \<le> lim"
    using s by (auto simp: state_ok_def s0_def z_def lim_def)
  have rate: "ac_trade_fee_rate (se_amm_config env) < FEE_RATE_DENOMINATOR_VALUE" and lim: "0 < lim" "lim < 2 ^ 128"
    using e by (auto simp: env_ok_def lim_def MIN_SQRT_PRICE_X64_def MAX_SQRT_PRICE_X64_def)
  have pn: "0 < price_at n" "price_at n < 2 ^ 128"
    using price_at_bounds [OF st(4,5)] by (auto simp: MIN_SQRT_PRICE_X64_def MAX_SQRT_PRICE_X64_def)
  have target: "0 < target" "target < 2 ^ 128" "price_between z (sw_sqrt_price_x64 s0) target target"
    using st(2,3) lim pn lim0 by (auto simp: price_between_def max_def min_def split: if_splits)
  obtain c where
    c: "compute_swap_step U (sw_sqrt_price_x64 s0) target (sw_liquidity s0) (sw_amount_specified_remaining s0)
       (ac_trade_fee_rate (se_amm_config env)) base z = Ok c"
    and step1: "step1 = step\<lparr>sc_amount_in := ss_amount_in c, sc_amount_out := ss_amount_out c, sc_fee_amount := ss_fee_amount c\<rparr>"
    and s1: "let used = (if base then ss_amount_in c + ss_fee_amount c else ss_amount_out c);
         got = (if base then ss_amount_out c else ss_amount_in c + ss_fee_amount c) in
     used \<le> sw_amount_specified_remaining s0 \<and> sw_amount_calculated s0 + got < 2 ^ 64 \<and>
     ss_amount_in c + ss_fee_amount c < 2 ^ 64 \<and>
     s1 = s0\<lparr>sw_sqrt_price_x64 := ss_sqrt_price_next_x64 c,
       sw_amount_specified_remaining := sw_amount_specified_remaining s0 - used,
       sw_amount_calculated := sw_amount_calculated s0 + got\<rparr>"
    by (rule swap_step_move_OkD [OF move]) (simp add: st(1) z_def base_def)
  define p n' x y e where "p = sw_sqrt_price_x64 s0" and "n' = ss_sqrt_price_next_x64 c"
    and "x = ss_amount_in c" and "y = ss_amount_out c" and "e = ss_fee_amount c"
  note r = compute_swap_step_OkD [OF ok0(1) target(2) ok0(2,3) rate target(1,3) c, folded p_def n'_def x_def y_def e_def]
  note rf = compute_swap_step_fee [OF ok0(1) target(2) ok0(2,3) rate target(1,3) c, folded x_def y_def e_def]
  define used got where "used = (if base then x + e else y)" and "got = (if base then y else x + e)"
  have s1': "used \<le> sw_amount_specified_remaining s0" "x + e < 2 ^ 64"
    "s1 = s0\<lparr>sw_sqrt_price_x64 := n', sw_amount_specified_remaining := sw_amount_specified_remaining s0 - used,
       sw_amount_calculated := sw_amount_calculated s0 + got\<rparr>"
    using s1 unfolding Let_def used_def got_def x_def y_def e_def n'_def by blast+
  have step1': "sc_fee_amount step1 = e" "sc_sqrt_price_next_x64 step1 = price_at n" "sc_tick_next step1 = n"
    by (simp_all add: step1 e_def st(1))
  define dp df where "dp = e * ac_protocol_fee_rate (se_amm_config env) div FEE_RATE_DENOMINATOR_VALUE"
    and "df = e * ac_fund_fee_rate (se_amm_config env) div FEE_RATE_DENOMINATOR_VALUE"
  define L0 where "L0 = sw_liquidity s0"
  have "sc_fee_amount step1 < 2 ^ 64" "sw_liquidity s1 < 2 ^ 128"
    using s1'(2) ok0(2) by (simp_all add: step1' s1'(3))
  note f = swap_step_fees_OkD [OF fees this, unfolded step1'(1), folded dp_def df_def]
  have s2: "s2 = s1\<lparr>sw_protocol_fee := sw_protocol_fee s0 + dp, sw_fund_fee := sw_fund_fee s0 + df,
       sw_fee_growth_global_x64 := sw_fee_growth_global_x64 s0 + (if 0 < L0 then (e - dp - df) * 2 ^ 64 div L0 else 0),
       sw_fee_amount := sw_fee_amount s0 + (if 0 < L0 then e - dp - df else 0)\<rparr>"
    using f(3) by (simp add: s1'(3) L0_def)
  have "sw_liquidity s2 < 2 ^ 128"
    using ok0(2) by (simp add: s2 s1'(3))
  from swap_step_shift_OkD [OF shift this] obtain tick L where
    s3: "s3 = s2\<lparr>sw_tick := tick, sw_liquidity := L\<rparr>" "L < 2 ^ 128"
    and tick: "n' = price_at n \<Longrightarrow> tick = (if z then n - 1 else n)"
    by (auto simp: s2 s1'(3) f(2) step1' z_def)
  have between: "price_between z p n' lim"
    using r(1) st(2) by (auto simp: price_between_def max_def min_def split: if_splits)
  have price: "n' < 2 ^ 128"
    using between lim(2) ok0(1) by (auto simp: price_between_def p_def split: if_splits)
  have s': "sv_state v' = s3" by (simp add: v')
  show "state_ok env (sv_state v')"
    using between price s3(2) ok0(3) unfolding s'
    by (auto simp: state_ok_def s3 s2 s1'(3) price_between_def z_def lim_def)
  have "e = 0" if "L0 = 0" using rf(2) that by (simp add: L0_def)
  then have fees: "fees_between s0 s3 = int e" "protocol_between s0 s3 = int dp" "fund_between s0 s3 = int df"
    using f(1) by (auto simp: between_defs s3(1) s2 s1'(3) dp_def df_def)
  have amounts: "amount_used s0 s3 = int used" "amount_got s0 s3 = int got" "input_between env s0 s3 = int (x + e)"
    using s1'(1) by (auto simp: between_defs s3(1) s2 s1'(3) used_def got_def base_def)
  have share: "int (e * k div FEE_RATE_DENOMINATOR_VALUE) * int FEE_RATE_DENOMINATOR_VALUE \<le> int e * int k" for k
    unfolding of_nat_mult [symmetric] of_nat_le_iff by (rule div_times_less_eq_dividend)
  have rate': "int (x + e) * int (ac_trade_fee_rate (se_amm_config env)) \<le> int e * int FEE_RATE_DENOMINATOR_VALUE"
    using rf(1) unfolding of_nat_mult [symmetric] of_nat_le_iff .
  show "progress env (sv_state v) (sv_state v')"
    unfolding s' progress_def s0_def [symmetric] fees amounts
    using between f(1) share [of "ac_protocol_fee_rate (se_amm_config env)"] share [of "ac_fund_fee_rate (se_amm_config env)"] rate'
    unfolding z_def lim_def p_def dp_def [symmetric] df_def [symmetric] by (simp add: s3(1) s2 s1'(3))
  show "ticks_left (se_zero_for_one env) (sw_tick (sv_state v')) < ticks_left (se_zero_for_one env) (sw_tick (sv_state v))"
    if cont: "swap_continues env v'"
  proof -
    have rest: "used < sw_amount_specified_remaining s0" "n' \<noteq> lim"
      using cont s1'(1) by (auto simp: swap_continues_def s' s3(1) s2 s1'(3) lim_def)
    have "n' = target"
      using r(5,6) rest(1) by (auto simp: used_def split: if_splits)
    with rest(2) st(2) have "n' = price_at n"
      by (auto simp: max_def min_def split: if_splits)
    then have "tick = (if z then n - 1 else n)" by (rule tick)
    then show ?thesis
      using st(3,4,5) unfolding s' s0_def [symmetric] by (auto simp: ticks_left_def s3(1) z_def split: if_splits)
  qed
qed


text \<open>The loop: it ends, and what holds for one turn holds for all of it.\<close>

lemma swap_loop_ends:
  assumes "env_ok env" "state_ok env (sv_state v)"
  shows "\<exists>r. swap_loop U D env v = Some r \<and> (\<forall>v'. r = Ok v' \<longrightarrow>
     progress env (sv_state v) (sv_state v') \<and> \<not> swap_continues env v')"
  using assms(2)
proof (induction "ticks_left (se_zero_for_one env) (sw_tick (sv_state v))" arbitrary: v rule: less_induct)
  case less
  show ?case
  proof (cases "swap_continues env v")
    case False
    then show ?thesis
      using less.prems progress_refl by (subst swap_loop.simps) simp
  next
    case True
    show ?thesis
    proof (cases "swap_loop_body U D env v")
      case (Ok v')
      note b = swap_loop_body_OkD [OF assms(1) less.prems Ok]
      show ?thesis
      proof (cases "swap_continues env v'")
        case False
        then have "swap_loop U D env v' = Some (Ok v')"
          by (subst swap_loop.simps) simp
        then show ?thesis
          using True Ok b(2) False by (subst swap_loop.simps) simp
      next
        case cont: True
        from less.hyps [OF b(3) [OF cont] b(1)] show ?thesis
          using True Ok progress_trans [OF b(2)] by (subst swap_loop.simps) auto
      qed
    qed (use True in \<open>subst swap_loop.simps, simp\<close>)+
  qed
qed

end

section \<open>Before and after the loop\<close>

lemma swap_begin_OkD:
  assumes "swap_begin U D c p arrays obs ext amount plim z base now = Ok (env, v)"
  shows "se_amm_config env = c" "se_sqrt_price_limit_x64 env = plim" "se_zero_for_one env = z" "se_is_base_input env = base"
    "\<exists>infos. se_pool_state env = p\<lparr>ps_reward_infos := infos\<rparr> \<and> update_reward_infos U p now = Ok (infos, p\<lparr>ps_reward_infos := infos\<rparr>)"
    "sv_state v = \<lparr>sw_amount_specified_remaining = amount, sw_amount_calculated = 0,
       sw_sqrt_price_x64 = ps_sqrt_price_x64 p, sw_tick = ps_tick_current p,
       sw_fee_growth_global_x64 = (if z then ps_fee_growth_global_0_x64 p else ps_fee_growth_global_1_x64 p),
       sw_fee_amount = 0, sw_protocol_fee = 0, sw_fund_fee = 0, sw_liquidity = ps_liquidity p\<rparr>"
    "if z then MIN_SQRT_PRICE_X64 < plim \<and> plim < ps_sqrt_price_x64 p else ps_sqrt_price_x64 p < plim \<and> plim < MAX_SQRT_PRICE_X64"
    "amount \<noteq> 0" "get_status_by_bit p pool_status_bit_index.Swap" "swap_arrays v = arrays"
 
proof -
  obtain infos q m start passed current rest where
    g: "amount \<noteq> 0" "get_status_by_bit p pool_status_bit_index.Swap"
      "if z then plim < ps_sqrt_price_x64 p \<and> plim > MIN_SQRT_PRICE_X64 else plim > ps_sqrt_price_x64 p \<and> plim < MAX_SQRT_PRICE_X64"
    and u: "update_reward_infos U p now = Ok (infos, q)"
    and arr: "pop_first_tick_array start arrays = Ok (passed, current, rest)"
    and out: "env = \<lparr>se_amm_config = c, se_pool_state = q, se_tickarray_bitmap_extension = ext,
          se_sqrt_price_limit_x64 = plim, se_zero_for_one = z, se_is_base_input = base, se_updated_reward_infos = infos\<rparr>"
      "v = \<lparr>sv_state = \<lparr>sw_amount_specified_remaining = amount, sw_amount_calculated = 0,
                  sw_sqrt_price_x64 = ps_sqrt_price_x64 q, sw_tick = ps_tick_current q,
                  sw_fee_growth_global_x64 = (if z then ps_fee_growth_global_0_x64 q else ps_fee_growth_global_1_x64 q),
                  sw_fee_amount = 0, sw_protocol_fee = 0, sw_fund_fee = 0, sw_liquidity = ps_liquidity q\<rparr>,
          sv_passed = passed, sv_tick_array_current = current,
          sv_tick_array_states = rest, sv_is_match_pool_current_tick_array = m,
          sv_current_vaild_tick_array_start_index = start\<rparr>"
    using assms unfolding swap_begin_def
    by (auto simp: res_inv Let_def)
  have q: "q = p\<lparr>ps_reward_infos := infos\<rparr>"
    using u by (auto simp: update_reward_infos_def res_inv)
  have "swap_arrays v = arrays"
    using pop_first_tick_array_OkD [OF arr] by (simp add: swap_arrays_def out)
  with g u q out show "se_amm_config env = c" "se_sqrt_price_limit_x64 env = plim" "se_zero_for_one env = z" "se_is_base_input env = base"
    "\<exists>infos. se_pool_state env = p\<lparr>ps_reward_infos := infos\<rparr> \<and> update_reward_infos U p now = Ok (infos, p\<lparr>ps_reward_infos := infos\<rparr>)"
    "sv_state v = \<lparr>sw_amount_specified_remaining = amount, sw_amount_calculated = 0,
       sw_sqrt_price_x64 = ps_sqrt_price_x64 p, sw_tick = ps_tick_current p,
       sw_fee_growth_global_x64 = (if z then ps_fee_growth_global_0_x64 p else ps_fee_growth_global_1_x64 p),
       sw_fee_amount = 0, sw_protocol_fee = 0, sw_fund_fee = 0, sw_liquidity = ps_liquidity p\<rparr>"
    "if z then MIN_SQRT_PRICE_X64 < plim \<and> plim < ps_sqrt_price_x64 p else ps_sqrt_price_x64 p < plim \<and> plim < MAX_SQRT_PRICE_X64"
    "amount \<noteq> 0" "get_status_by_bit p pool_status_bit_index.Swap" "swap_arrays v = arrays"
    by (auto split: if_splits)
qed

text \<open>The accounts of the input token of a swap, and of the output token.\<close>

definition fee_growth_of :: "bool \<Rightarrow> pool_state \<Rightarrow> u128" where
  "fee_growth_of token_0 p = (if token_0 then ps_fee_growth_global_0_x64 p else ps_fee_growth_global_1_x64 p)"

definition total_fees_of :: "bool \<Rightarrow> pool_state \<Rightarrow> u64" where
  "total_fees_of token_0 p = (if token_0 then ps_total_fees_token_0 p else ps_total_fees_token_1 p)"

definition protocol_fees_of :: "bool \<Rightarrow> pool_state \<Rightarrow> u64" where
  "protocol_fees_of token_0 p = (if token_0 then ps_protocol_fees_token_0 p else ps_protocol_fees_token_1 p)"

definition fund_fees_of :: "bool \<Rightarrow> pool_state \<Rightarrow> u64" where
  "fund_fees_of token_0 p = (if token_0 then ps_fund_fees_token_0 p else ps_fund_fees_token_1 p)"

definition swap_in_of :: "bool \<Rightarrow> pool_state \<Rightarrow> u128" where
  "swap_in_of token_0 p = (if token_0 then ps_swap_in_amount_token_0 p else ps_swap_in_amount_token_1 p)"

definition swap_out_of :: "bool \<Rightarrow> pool_state \<Rightarrow> u128" where
  "swap_out_of token_0 p = (if token_0 then ps_swap_out_amount_token_0 p else ps_swap_out_amount_token_1 p)"

lemmas side_defs = fee_growth_of_def total_fees_of_def protocol_fees_of_def fund_fees_of_def swap_in_of_def swap_out_of_def

lemma commit_price_eq:
  "\<exists>i. commit_price s nx p = p\<lparr>ps_tick_current := sw_tick s, ps_observation_index := i,
     ps_sqrt_price_x64 := sw_sqrt_price_x64 s, ps_liquidity := sw_liquidity s\<rparr>"
  by (cases p; cases nx) (auto simp: commit_price_def Let_def)

lemma add_swap_totals_OkD:
  assumes "add_swap_totals z s a0 a1 p = Ok p'"
  shows "p' = (if z then p\<lparr>ps_fee_growth_global_0_x64 := sw_fee_growth_global_x64 s,
         ps_total_fees_token_0 := ps_total_fees_token_0 p + sw_fee_amount s,
         ps_protocol_fees_token_0 := ps_protocol_fees_token_0 p + sw_protocol_fee s,
         ps_fund_fees_token_0 := ps_fund_fees_token_0 p + sw_fund_fee s,
         ps_swap_in_amount_token_0 := ps_swap_in_amount_token_0 p + a0,
         ps_swap_out_amount_token_1 := ps_swap_out_amount_token_1 p + a1\<rparr>
       else p\<lparr>ps_fee_growth_global_1_x64 := sw_fee_growth_global_x64 s,
         ps_total_fees_token_1 := ps_total_fees_token_1 p + sw_fee_amount s,
         ps_protocol_fees_token_1 := ps_protocol_fees_token_1 p + sw_protocol_fee s,
         ps_fund_fees_token_1 := ps_fund_fees_token_1 p + sw_fund_fee s,
         ps_swap_in_amount_token_1 := ps_swap_in_amount_token_1 p + a1,
         ps_swap_out_amount_token_0 := ps_swap_out_amount_token_0 p + a0\<rparr>)"
  using assms by (cases z) (auto simp: add_swap_totals_def res_inv split: if_splits)

lemma swap_end_OkD:
  assumes "swap_end U env s obs amount now = Ok ((a0, a1), p', obs')"
  defines "p \<equiv> se_pool_state env" and "z \<equiv> se_zero_for_one env" and "base \<equiv> se_is_base_input env"
    and "input \<equiv> (if se_is_base_input env then amount - sw_amount_specified_remaining s else sw_amount_calculated s)"
    and "output \<equiv> (if se_is_base_input env then sw_amount_calculated s else amount - sw_amount_specified_remaining s)"
  shows "(a0, a1) = (if z then (input, output) else (output, input))"
    "sw_amount_specified_remaining s \<le> amount"
    "ps_sqrt_price_x64 p' = sw_sqrt_price_x64 s" "ps_liquidity p' = sw_liquidity s" "ps_tick_current p' = sw_tick s"
    "fee_growth_of z p' = sw_fee_growth_global_x64 s" "total_fees_of z p' = total_fees_of z p + sw_fee_amount s"
    "protocol_fees_of z p' = protocol_fees_of z p + sw_protocol_fee s"
    "fund_fees_of z p' = fund_fees_of z p + sw_fund_fee s"
    "swap_in_of z p' = swap_in_of z p + input" "swap_out_of (\<not> z) p' = swap_out_of (\<not> z) p + output"
    "fee_growth_of (\<not> z) p' = fee_growth_of (\<not> z) p \<and> total_fees_of (\<not> z) p' = total_fees_of (\<not> z) p
      \<and> protocol_fees_of (\<not> z) p' = protocol_fees_of (\<not> z) p \<and> fund_fees_of (\<not> z) p' = fund_fees_of (\<not> z) p
      \<and> swap_in_of (\<not> z) p' = swap_in_of (\<not> z) p \<and> swap_out_of z p' = swap_out_of z p"
    "ps_tick_array_bitmap p' = ps_tick_array_bitmap p \<and> ps_status p' = ps_status p \<and> ps_owner p' = ps_owner p
      \<and> ps_token_vault_0 p' = ps_token_vault_0 p \<and> ps_token_vault_1 p' = ps_token_vault_1 p
      \<and> ps_tick_spacing p' = ps_tick_spacing p \<and> ps_reward_infos p' = ps_reward_infos p \<and> ps_amm_config p' = ps_amm_config p"
proof -
  obtain nx where
    le: "sw_amount_specified_remaining s \<le> amount"
    and a: "(a0, a1) = (if z = base then (amount - sw_amount_specified_remaining s, sw_amount_calculated s)
      else (sw_amount_calculated s, amount - sw_amount_specified_remaining s))"
    and t: "add_swap_totals z s a0 a1 (commit_price s nx p) = Ok p'"
    using assms(1) unfolding p_def z_def base_def
    by (auto simp: swap_end_def Let_def res_inv split: if_splits)
  define q where "q = commit_price s nx p"
  obtain i where q: "q = p\<lparr>ps_tick_current := sw_tick s, ps_observation_index := i, ps_sqrt_price_x64 := sw_sqrt_price_x64 s,
        ps_liquidity := sw_liquidity s\<rparr>"
    using commit_price_eq unfolding q_def by blast
  have "(a0, a1) = (if z then (input, output) else (output, input))"
    using a by (auto simp: input_def output_def base_def)
  moreover note add_swap_totals_OkD [OF t [folded q_def]] q le
  ultimately show "(a0, a1) = (if z then (input, output) else (output, input))"
    "sw_amount_specified_remaining s \<le> amount"
    "ps_sqrt_price_x64 p' = sw_sqrt_price_x64 s" "ps_liquidity p' = sw_liquidity s" "ps_tick_current p' = sw_tick s"
    "fee_growth_of z p' = sw_fee_growth_global_x64 s" "total_fees_of z p' = total_fees_of z p + sw_fee_amount s"
    "protocol_fees_of z p' = protocol_fees_of z p + sw_protocol_fee s"
    "fund_fees_of z p' = fund_fees_of z p + sw_fund_fee s"
    "swap_in_of z p' = swap_in_of z p + input" "swap_out_of (\<not> z) p' = swap_out_of (\<not> z) p + output"
    "fee_growth_of (\<not> z) p' = fee_growth_of (\<not> z) p \<and> total_fees_of (\<not> z) p' = total_fees_of (\<not> z) p
      \<and> protocol_fees_of (\<not> z) p' = protocol_fees_of (\<not> z) p \<and> fund_fees_of (\<not> z) p' = fund_fees_of (\<not> z) p
      \<and> swap_in_of (\<not> z) p' = swap_in_of (\<not> z) p \<and> swap_out_of z p' = swap_out_of z p"
    "ps_tick_array_bitmap p' = ps_tick_array_bitmap p \<and> ps_status p' = ps_status p \<and> ps_owner p' = ps_owner p
      \<and> ps_token_vault_0 p' = ps_token_vault_0 p \<and> ps_token_vault_1 p' = ps_token_vault_1 p
      \<and> ps_tick_spacing p' = ps_tick_spacing p \<and> ps_reward_infos p' = ps_reward_infos p \<and> ps_amm_config p' = ps_amm_config p"
    by (cases z; simp add: side_defs)+
qed


section \<open>The whole swap\<close>

lemma obind_Some_eq: "obind (Some m) f = Some (Ok y) \<longleftrightarrow> (\<exists>x. m = Ok x \<and> f x = Some (Ok y))"
  by (cases m) auto

lemma swap_internal_OkE:
  assumes "swap_internal U D c p arrays obs ext amount plim z base now = Some (Ok (amounts, p', arrays', obs'))"
  obtains env v v' where
    "swap_begin U D c p arrays obs ext amount plim z base now = Ok (env, v)"
    "swap_loop U D env v = Some (Ok v')"
    "swap_end U env (sv_state v') obs amount now = Ok (amounts, p', obs')"
    "arrays' = swap_arrays v'"
proof -
  obtain env v where b: "swap_begin U D c p arrays obs ext amount plim z base now = Ok (env, v)"
    and r: "obind (swap_loop U D env v) (\<lambda>v.
       Some (rbind (swap_end U env (sv_state v) obs amount now) (\<lambda>(amounts, pool_state, observation_state).
       Ok (amounts, pool_state, swap_arrays v, observation_state)))) = Some (Ok (amounts, p', arrays', obs'))"
    using assms unfolding swap_internal_def obind_Some_eq by auto
  obtain m where m: "swap_loop U D env v = Some m"
    using r by (cases "swap_loop U D env v") auto
  obtain v' where "m = Ok v'" "swap_end U env (sv_state v') obs amount now = Ok (amounts, p', obs')" "arrays' = swap_arrays v'"
    using r unfolding m obind_Some_eq by (auto simp: res_inv)
  with m show ?thesis
    by (intro that [OF b, of v']) simp_all
qed

context uint_crate
begin

lemma swap_begin_ok:
  assumes "swap_begin U D c p arrays obs ext amount plim z base now = Ok (env, v)"
    and "ac_trade_fee_rate c < FEE_RATE_DENOMINATOR_VALUE" "amount < 2 ^ 64"
    and "MIN_SQRT_PRICE_X64 \<le> ps_sqrt_price_x64 p" "ps_sqrt_price_x64 p \<le> MAX_SQRT_PRICE_X64" "ps_liquidity p < 2 ^ 128"
  shows "env_ok env" "state_ok env (sv_state v)"
proof -
  note b = swap_begin_OkD [OF assms(1)]
  have "MAX_SQRT_PRICE_X64 < 2 ^ 128" by (simp add: MAX_SQRT_PRICE_X64_def)
  then show "env_ok env" "state_ok env (sv_state v)"
    using assms(2-6) b(7) unfolding env_ok_def state_ok_def b(1-4,6) by (cases z; simp)+
qed

end

section \<open>A sample\<close>

definition swap_sample_tick :: tick_state where
  "swap_sample_tick = default_tick_state\<lparr>ts_tick := 10, ts_liquidity_net := - 1000000000, ts_liquidity_gross := 1000000000\<rparr>"

definition swap_sample_array :: tick_array where
  "swap_sample_array = default_tick_array\<lparr>ta_pool_id := 1, ta_ticks := (replicate 60 default_tick_state)[1 := swap_sample_tick]\<rparr>"

definition swap_sample_pool :: pool_state where
  "swap_sample_pool = sample_pool\<lparr>ps_token_vault_0 := 50, ps_token_vault_1 := 51,
     ps_sqrt_price_x64 := 2 ^ 64, ps_liquidity := 1000000000\<rparr>"

definition swap_sample_config :: amm_config where
  "swap_sample_config = default_amm_config\<lparr>ac_trade_fee_rate := 2500, ac_protocol_fee_rate := 120000, ac_fund_fee_rate := 40000\<rparr>"

definition swap_sample_observation :: observation_state where
  "swap_sample_observation = default_observation_state\<lparr>obs_pool_id := 1\<rparr>"

definition swap_sample_env :: "bitmap_extension option \<Rightarrow> u128 \<Rightarrow> swap_env" where
  "swap_sample_env ext limit = \<lparr>se_amm_config = swap_sample_config, se_pool_state = swap_sample_pool,
     se_tickarray_bitmap_extension = ext, se_sqrt_price_limit_x64 = limit, se_zero_for_one = False,
     se_is_base_input = True, se_updated_reward_infos = ps_reward_infos swap_sample_pool\<rparr>"

definition swap_sample_vars :: "swap_vars" where
  "swap_sample_vars = \<lparr>sv_state = \<lparr>sw_amount_specified_remaining = 10000, sw_amount_calculated = 0,
       sw_sqrt_price_x64 = 2 ^ 64, sw_tick = 0, sw_fee_growth_global_x64 = 0, sw_fee_amount = 0,
       sw_protocol_fee = 0, sw_fund_fee = 0, sw_liquidity = 1000000000\<rparr>,
     sv_passed = [], sv_tick_array_current = swap_sample_array, sv_tick_array_states = [],
     sv_is_match_pool_current_tick_array = True, sv_current_vaild_tick_array_start_index = 0\<rparr>"

lemma sample_first: "get_first_initialized_tick_array swap_sample_pool ext False = Ok (True, 0)"
proof -
  have ts: "spacing_ok 10" by (simp add: spacing_ok_def)
  have v: "valid_start 0 10"
    using array_start_bounds(1) [OF ts, of MIN_TICK] by (simp add: valid_start_def MIN_TICK_def MAX_TICK_def)
  have pool: "ps_tick_spacing swap_sample_pool = 10" "ps_tick_current swap_sample_pool = 0"
    "ps_tick_array_bitmap swap_sample_pool = bn_shl (bn_one 16) 512"
    by (simp_all add: swap_sample_pool_def sample_pool_def default_pool_def)
  have "is_overflow_default_tickarray_bitmap swap_sample_pool [0] = Ok (outside_default 10 0)"
    using overflow_of_start [of swap_sample_pool 0] ts v by (simp add: pool)
  moreover have "\<not> outside_default 10 0"
    by (simp add: outside_default_def max_tick_eq tick_count_eq)
  moreover have "check_current_tick_array_is_initialized (bn_shl (bn_one 16) 512) 0 10 = Ok (True, 0)"
    by (subst check_current_eq) (auto simp: ts wf_bit_map_def bn_words_shl bn_words_one MIN_TICK_def MAX_TICK_def
        max_tick_eq tick_count_eq map_has_iff bn_test_one_shl array_start_def)
  ultimately show ?thesis
    by (simp add: get_first_initialized_tick_array_def pool)
qed

lemma sample_begin:
  assumes "18455969290605287889 \<le> limit" "limit < MAX_SQRT_PRICE_X64"
  shows "swap_begin uint_ref sample_pda swap_sample_config swap_sample_pool [swap_sample_array] swap_sample_observation ext 10000
     limit False True 5 = Ok (swap_sample_env ext limit, swap_sample_vars)"
proof -
  have "update_reward_infos uint_ref swap_sample_pool 5 = Ok (ps_reward_infos swap_sample_pool, swap_sample_pool)"
    by (simp add: update_reward_infos_def swap_sample_pool_def sample_pool_def default_pool_def update_reward_info_def
        new_reward_info_def reward_initialized_def default_pubkey_def REWARD_NUM_def numeral_3_eq_3)
  moreover have "pool_key sample_pda swap_sample_pool = Ok 1"
    by (simp add: swap_sample_pool_def sample_pool_def default_pool_def pool_key_def sample_pda_def default_pubkey_def)
  moreover note sample_first [of ext]
  ultimately show ?thesis
   using assms by (simp add: swap_begin_def swap_sample_env_def swap_sample_vars_def Let_def) (simp add: get_status_by_bit_def swap_sample_pool_def sample_pool_def default_pool_def swap_sample_observation_def swap_sample_array_def MAX_SQRT_PRICE_X64_def pop_first_tick_array_def default_tick_array_def default_observation_state_def)
qed


lemma sample_next_tick: "next_initialized_tick swap_sample_array 0 10 False = Ok (Some 1)"
proof -
  have "get_array_start_index 0 10 = Ok 0"
    by (simp add: get_array_start_index_eq moderate_def spacing_ok_def array_start_def)
  then show ?thesis
    by (simp add: next_initialized_tick_def swap_sample_array_def default_tick_array_def i_div_def scan_up.simps
      TICK_ARRAY_SIZE_USIZE_def swap_sample_tick_def tick_is_initialized_def)
qed

lemma sample_find:
  "find_next_tick sample_pda (swap_sample_env ext limit) swap_sample_vars = Ok (swap_sample_tick, swap_sample_vars)"
proof -
  have "ps_tick_spacing swap_sample_pool = 10"
    by (simp add: swap_sample_pool_def sample_pool_def default_pool_def)
  moreover have "ta_ticks swap_sample_array ! 1 = swap_sample_tick" "tick_is_initialized swap_sample_tick"
    by (simp_all add: swap_sample_array_def default_tick_array_def swap_sample_tick_def tick_is_initialized_def)
  ultimately show ?thesis
    using sample_next_tick by (simp add: find_next_tick_def next_tick_in_array_def swap_sample_env_def swap_sample_vars_def)
qed

lemma sample_price_10: "price_at 10 = 18455969290605287889"
  by (simp add: price_at_def ratio_of_def factors_def factor_table_def first_factor_def)

lemma sample_step:
  "\<exists>c. compute_swap_step uint_ref (2 ^ 64) 18455969290605287889 1000000000 10000 2500 True False = Ok c
    \<and> ss_amount_in c = 9975 \<and> ss_fee_amount c = 25 \<and> ss_sqrt_price_next_x64 c = 18446928079981686868 \<and> ss_amount_out c = 9974"
    by (simp add: compute_swap_step_def swap_step_target_def swap_step_amounts_def swap_step_fee_def
        FEE_RATE_DENOMINATOR_VALUE_def chk_sub_def Let_def default_swap_step_def uint_ref.mul_div_eqs
        fits_def uint_ref.get_delta_amount_1_unsigned_eq uint_ref.get_delta_amount_0_unsigned_eq
        amount_1_of_def amount_0_of_def cdiv_def checked_sub_def
        get_next_sqrt_price_from_input_def uint_ref.next_price_1_add_eq)

lemma sample_tick_of_price: "get_tick_at_sqrt_price uint_ref 18446928079981686868 = Ok 0"
  by (rule uint_ref.get_tick_at_sqrt_price_eq)
    (simp_all add: MIN_TICK_def MAX_TICK_def price_at_def ratio_of_0 ratio_of_def factors_def factor_table_def first_factor_def)

lemma sample_body:
  assumes "18455969290605287889 \<le> limit"
  shows "\<exists>v'. swap_loop_body uint_ref sample_pda (swap_sample_env ext limit) swap_sample_vars = Ok v'
     \<and> sv_state v' = (sv_state swap_sample_vars)\<lparr>sw_amount_specified_remaining := 0, sw_amount_calculated := 9974,
       sw_sqrt_price_x64 := 18446928079981686868, sw_tick := 0, sw_protocol_fee := 3, sw_fund_fee := 1, sw_fee_amount := 21,
       sw_fee_growth_global_x64 := 21 * 2 ^ 64 div 1000000000\<rparr>"
proof -
  define st where "st = default_step_computations\<lparr>sc_sqrt_price_start_x64 := 2 ^ 64, sc_tick_next := 10, sc_initialized := True,
    sc_sqrt_price_next_x64 := 18455969290605287889\<rparr>"
  have start: "swap_step_start uint_ref (swap_sample_env ext limit) (sv_state swap_sample_vars) swap_sample_tick = Ok (st, 18455969290605287889)"
    using assms by (simp add: swap_step_start_def swap_sample_env_def swap_sample_vars_def swap_sample_tick_def Let_def default_step_def
      MIN_TICK_def MAX_TICK_def uint_ref.get_sqrt_price_at_tick_Ok sample_price_10 tick_is_initialized_def st_def)
  obtain c where c: "compute_swap_step uint_ref (2 ^ 64) 18455969290605287889 1000000000 10000 2500 True False = Ok c"
    "ss_amount_in c = 9975" "ss_fee_amount c = 25" "ss_sqrt_price_next_x64 c = 18446928079981686868" "ss_amount_out c = 9974"
    using sample_step by blast
  define s1 where "s1 = (sv_state swap_sample_vars)\<lparr>sw_amount_specified_remaining := 0, sw_amount_calculated := 9974,
       sw_sqrt_price_x64 := 18446928079981686868\<rparr>"
  define st1 where "st1 = st\<lparr>sc_amount_in := 9975, sc_amount_out := 9974, sc_fee_amount := 25\<rparr>"
  have move: "swap_step_move uint_ref (swap_sample_env ext limit) 18455969290605287889 (sv_state swap_sample_vars) st = Ok (s1, st1)"
    using c by (simp add: swap_step_move_def swap_sample_env_def swap_sample_vars_def st_def st1_def s1_def
      default_step_computations_def swap_sample_config_def Let_def chk_add_def checked_sub_def checked_add_def)
  define s2 where "s2 = s1\<lparr>sw_protocol_fee := 3, sw_fund_fee := 1, sw_fee_amount := 21,
       sw_fee_growth_global_x64 := 21 * 2 ^ 64 div 1000000000\<rparr>"
  have fees: "swap_step_fees uint_ref (swap_sample_env ext limit) s1 st1 = Ok (s2, st1\<lparr>sc_fee_amount := 21\<rparr>)"
    by (simp add: swap_step_fees_def take_fee_share_def fee_share_def grow_fees_def swap_sample_env_def swap_sample_vars_def
      s1_def s2_def st1_def st_def default_step_computations_def swap_sample_config_def FEE_RATE_DENOMINATOR_VALUE_def
      checked_sub_def checked_add_def uint_ref.mul_div_floor_u128_eq Q64_def fits_def)
  have "swap_step_shift uint_ref (swap_sample_env ext limit) swap_sample_tick s2 (st1\<lparr>sc_fee_amount := 21\<rparr>) swap_sample_array
      = Ok (s2\<lparr>sw_tick := 0\<rparr>, swap_sample_array)"
    by (simp add: swap_step_shift_def s2_def s1_def st1_def st_def default_step_computations_def sample_tick_of_price)
  moreover have "sv_tick_array_current swap_sample_vars = swap_sample_array"
    by (simp add: swap_sample_vars_def)
  ultimately show ?thesis
    by (simp add: swap_loop_body_def sample_find start move fees) (simp add: s2_def s1_def)
qed

lemma sample_swap:
  assumes "18455969290605287889 \<le> limit" "limit < MAX_SQRT_PRICE_X64"
  shows "\<exists>p arrays obs. swap_internal uint_ref sample_pda swap_sample_config swap_sample_pool [swap_sample_array]
     swap_sample_observation ext 10000 limit False True 5 = Some (Ok ((9974, 10000), p, arrays, obs))
   \<and> ps_sqrt_price_x64 p = 18446928079981686868"
proof -
  obtain v' where v': "swap_loop_body uint_ref sample_pda (swap_sample_env ext limit) swap_sample_vars = Ok v'"
    "sv_state v' = (sv_state swap_sample_vars)\<lparr>sw_amount_specified_remaining := 0, sw_amount_calculated := 9974,
       sw_sqrt_price_x64 := 18446928079981686868, sw_tick := 0, sw_protocol_fee := 3, sw_fund_fee := 1, sw_fee_amount := 21,
       sw_fee_growth_global_x64 := 21 * 2 ^ 64 div 1000000000\<rparr>"
    using sample_body [OF assms(1)] by blast
  have limit: "2 ^ 64 \<noteq> limit"
    using assms(1) by auto
  have "swap_continues (swap_sample_env ext limit) swap_sample_vars" "\<not> swap_continues (swap_sample_env ext limit) v'"
    by (simp_all add: swap_continues_def v'(2)) (use limit in \<open>simp add: swap_sample_env_def swap_sample_vars_def\<close>)
  then have loop: "swap_loop uint_ref sample_pda (swap_sample_env ext limit) swap_sample_vars = Some (Ok v')"
    using v'(1) by (subst swap_loop.simps, simp, subst swap_loop.simps, simp)
  have "observation_at swap_sample_observation 0 = Ok default_observation"
    by (simp add: observation_at_def swap_sample_observation_def default_observation_state_def OBSERVATION_NUM_def)
  then obtain obs where "update_check uint_ref swap_sample_observation 5 (2 ^ 64) 0 0 = Ok (obs, Some 0)"
    by (simp add: update_check_def) (simp add: swap_sample_observation_def default_observation_state_def)
  then have "\<exists>p obs. swap_end uint_ref (swap_sample_env ext limit) (sv_state v') swap_sample_observation 10000 5 = Ok ((9974, 10000), p, obs)
     \<and> ps_sqrt_price_x64 p = 18446928079981686868"
    by (simp add: swap_end_def v'(2) swap_sample_env_def swap_sample_vars_def swap_sample_pool_def sample_pool_def default_pool_def
      commit_price_def add_swap_totals_def checked_sub_def checked_add_def Let_def)
  then show ?thesis
    unfolding swap_internal_def sample_begin [OF assms] by (auto simp: loop)
qed

section \<open>What a swap did\<close>

text \<open>The request of a swap and what it did to the pool.\<close>

definition swap_request_met ::
  "amm_config \<Rightarrow> u64 \<Rightarrow> u128 \<Rightarrow> bool \<Rightarrow> bool \<Rightarrow> u64 \<Rightarrow> u64 \<Rightarrow> pool_state \<Rightarrow> pool_state \<Rightarrow> bool" where
  "swap_request_met c amount plim z base a0 a1 p p' \<longleftrightarrow> (
     let input = int (if z then a0 else a1); output = int (if z then a1 else a0);
       specified = (if base then input else output);
       charged = int (total_fees_of z p') - int (total_fees_of z p) + (int (protocol_fees_of z p') - int (protocol_fees_of z p))
         + (int (fund_fees_of z p') - int (fund_fees_of z p)); D = int FEE_RATE_DENOMINATOR_VALUE in
     price_between z (ps_sqrt_price_x64 p) (ps_sqrt_price_x64 p') plim
     \<and> specified \<le> int amount \<and> (specified = int amount \<or> ps_sqrt_price_x64 p' = plim)
     \<and> charged \<le> input \<and> input * int (ac_trade_fee_rate c) \<le> charged * D
     \<and> (int (protocol_fees_of z p') - int (protocol_fees_of z p)) * D \<le> charged * int (ac_protocol_fee_rate c)
     \<and> (int (fund_fees_of z p') - int (fund_fees_of z p)) * D \<le> charged * int (ac_fund_fee_rate c)
     \<and> fee_growth_of z p \<le> fee_growth_of z p'
     \<and> int (swap_in_of z p') = int (swap_in_of z p) + input \<and> int (swap_out_of (\<not> z) p') = int (swap_out_of (\<not> z) p) + output
     \<and> fee_growth_of (\<not> z) p' = fee_growth_of (\<not> z) p \<and> total_fees_of (\<not> z) p' = total_fees_of (\<not> z) p
     \<and> protocol_fees_of (\<not> z) p' = protocol_fees_of (\<not> z) p \<and> fund_fees_of (\<not> z) p' = fund_fees_of (\<not> z) p
     \<and> ps_tick_array_bitmap p' = ps_tick_array_bitmap p \<and> ps_status p' = ps_status p)"

lemma swap_internal_request_met:
  assumes "uint_crate U" "ac_trade_fee_rate c < FEE_RATE_DENOMINATOR_VALUE" "amount < 2 ^ 64"
    and "MIN_SQRT_PRICE_X64 \<le> ps_sqrt_price_x64 p" "ps_sqrt_price_x64 p \<le> MAX_SQRT_PRICE_X64" "ps_liquidity p < 2 ^ 128"
    and "swap_internal U D c p arrays obs ext amount plim z base now = Some (Ok ((a0, a1), p', arrays', obs'))"
  shows "swap_request_met c amount plim z base a0 a1 p p'"
proof -
  obtain env v v' where b: "swap_begin U D c p arrays obs ext amount plim z base now = Ok (env, v)"
    and l: "swap_loop U D env v = Some (Ok v')" and e: "swap_end U env (sv_state v') obs amount now = Ok ((a0, a1), p', obs')"
    by (rule swap_internal_OkE [OF assms(7)])
  note bD = swap_begin_OkD [OF b]
  note ok = uint_crate.swap_begin_ok [OF assms(1) b assms(2-6)]
  have pr: "progress env (sv_state v) (sv_state v')" "\<not> swap_continues env v'"
    using uint_crate.swap_loop_ends [OF assms(1) ok, of D] l by auto
  note eD = swap_end_OkD [OF e, unfolded bD(3,4)]
  obtain infos where pool: "se_pool_state env = p\<lparr>ps_reward_infos := infos\<rparr>" using bD(5) by blast
  have same: "total_fees_of t (se_pool_state env) = total_fees_of t p" "protocol_fees_of t (se_pool_state env) = protocol_fees_of t p"
    "fund_fees_of t (se_pool_state env) = fund_fees_of t p" "fee_growth_of t (se_pool_state env) = fee_growth_of t p"
    "swap_in_of t (se_pool_state env) = swap_in_of t p" "swap_out_of t (se_pool_state env) = swap_out_of t p"
    "ps_tick_array_bitmap (se_pool_state env) = ps_tick_array_bitmap p" "ps_status (se_pool_state env) = ps_status p" for t
    by (simp_all add: pool side_defs)
  note eD = eD [unfolded same]
  have amounts: "(if z then a0 else a1) = (if base then amount - sw_amount_specified_remaining (sv_state v') else sw_amount_calculated (sv_state v'))"
    "(if z then a1 else a0) = (if base then sw_amount_calculated (sv_state v') else amount - sw_amount_specified_remaining (sv_state v'))"
    using eD(1) by (auto split: if_splits)
  have between: "input_between env (sv_state v) (sv_state v') = int (if z then a0 else a1)"
    "fees_between (sv_state v) (sv_state v') = int (total_fees_of z p') - int (total_fees_of z p)
       + (int (protocol_fees_of z p') - int (protocol_fees_of z p)) + (int (fund_fees_of z p') - int (fund_fees_of z p))"
    "protocol_between (sv_state v) (sv_state v') = int (protocol_fees_of z p') - int (protocol_fees_of z p)"
    "fund_between (sv_state v) (sv_state v') = int (fund_fees_of z p') - int (fund_fees_of z p)"
    unfolding amounts between_defs bD(3,4,6) eD(7,8,9) using eD(2) by simp_all
  have specified: "(if base then int (if z then a0 else a1) else int (if z then a1 else a0))
      = int amount - int (sw_amount_specified_remaining (sv_state v'))"
    unfolding amounts using eD(2) by simp
  have stop: "sw_amount_specified_remaining (sv_state v') = 0 \<or> sw_sqrt_price_x64 (sv_state v') = plim"
    using pr(2) by (auto simp: swap_continues_def bD(2))
  have "sw_fee_growth_global_x64 (sv_state v) \<le> sw_fee_growth_global_x64 (sv_state v')"
    using pr(1) unfolding progress_def by blast
  then have grow: "fee_growth_of z p \<le> fee_growth_of z p'"
    unfolding eD(6) bD(6) by (simp add: fee_growth_of_def)
  have price: "price_between z (ps_sqrt_price_x64 p) (ps_sqrt_price_x64 p') plim"
    using pr(1) by (simp add: progress_def bD(2,3,6) eD(3))
  note fees = pr(1) [unfolded progress_def between bD(1)]
  show ?thesis
    unfolding swap_request_met_def Let_def specified
    using stop grow price fees eD(3,10-13) amounts by (intro conjI) auto
qed

section \<open>Properties\<close>

text \<open>
  C8. Every swap ends: whatever tick arrays, bitmap extension, oracle account, limit and
  direction are passed, \<open>swap_internal\<close> returns a result or an error, because every turn of the
  loop uses up the amount, reaches the limit, or moves the tick on by at least one.
\<close>

theorem swap_internal_terminates:
  assumes "uint_crate U" "ac_trade_fee_rate c < FEE_RATE_DENOMINATOR_VALUE" "amount < 2 ^ 64"
    and "MIN_SQRT_PRICE_X64 \<le> ps_sqrt_price_x64 p" "ps_sqrt_price_x64 p \<le> MAX_SQRT_PRICE_X64" "ps_liquidity p < 2 ^ 128"
  shows "\<exists>r. swap_internal U D c p arrays obs ext amount plim z base now = Some r"
proof (cases "swap_begin U D c p arrays obs ext amount plim z base now")
  case (Ok x)
  obtain env v where x: "x = (env, v)" by (cases x)
  note ok = uint_crate.swap_begin_ok [OF assms(1) Ok [unfolded x] assms(2-6)]
  obtain r where "swap_loop U D env v = Some r"
    using uint_crate.swap_loop_ends [OF assms(1) ok] by blast
  then show ?thesis
    using Ok by (cases r) (simp_all add: swap_internal_def x)
qed (simp_all add: swap_internal_def)

theorem swap_internal_terminates_witness:
  "\<exists>r. swap_internal uint_ref sample_pda swap_sample_config swap_sample_pool [swap_sample_array]
     swap_sample_observation None 7 4295048017 True False 5 = Some r"
  by (rule swap_internal_terminates [OF uint_crate_ref])
    (simp_all add: swap_sample_config_def FEE_RATE_DENOMINATOR_VALUE_def swap_sample_pool_def
      MIN_SQRT_PRICE_X64_def MAX_SQRT_PRICE_X64_def)

text \<open>
  C1. A swap that returns did what was asked for.  The price has moved towards the limit and not
  past it.  The specified amount is used up, unless the limit was reached, and never exceeded.
  The input contains a fee of at least the trade fee rate, out of which protocol and fund get at
  most their rates; all of it is booked on the side of the input token, the volumes grow by
  exactly the two amounts, and the accounts of the output token stay.
\<close>

theorem swap_internal_respects_request:
  assumes "uint_crate U" "ac_trade_fee_rate c < FEE_RATE_DENOMINATOR_VALUE" "amount < 2 ^ 64"
    and "MIN_SQRT_PRICE_X64 \<le> ps_sqrt_price_x64 p" "ps_sqrt_price_x64 p \<le> MAX_SQRT_PRICE_X64" "ps_liquidity p < 2 ^ 128"
    and "swap_internal U D c p arrays obs ext amount plim z base now = Some (Ok ((a0, a1), p', arrays', obs'))"
  shows "let input = int (if z then a0 else a1); output = int (if z then a1 else a0);
       specified = (if base then input else output);
       charged = int (total_fees_of z p') - int (total_fees_of z p) + (int (protocol_fees_of z p') - int (protocol_fees_of z p))
         + (int (fund_fees_of z p') - int (fund_fees_of z p)); D = int FEE_RATE_DENOMINATOR_VALUE in
     price_between z (ps_sqrt_price_x64 p) (ps_sqrt_price_x64 p') plim
     \<and> specified \<le> int amount \<and> (specified = int amount \<or> ps_sqrt_price_x64 p' = plim)
     \<and> charged \<le> input \<and> input * int (ac_trade_fee_rate c) \<le> charged * D
     \<and> (int (protocol_fees_of z p') - int (protocol_fees_of z p)) * D \<le> charged * int (ac_protocol_fee_rate c)
     \<and> (int (fund_fees_of z p') - int (fund_fees_of z p)) * D \<le> charged * int (ac_fund_fee_rate c)
     \<and> fee_growth_of z p \<le> fee_growth_of z p'
     \<and> int (swap_in_of z p') = int (swap_in_of z p) + input \<and> int (swap_out_of (\<not> z) p') = int (swap_out_of (\<not> z) p) + output
     \<and> fee_growth_of (\<not> z) p' = fee_growth_of (\<not> z) p \<and> total_fees_of (\<not> z) p' = total_fees_of (\<not> z) p
     \<and> protocol_fees_of (\<not> z) p' = protocol_fees_of (\<not> z) p \<and> fund_fees_of (\<not> z) p' = fund_fees_of (\<not> z) p
     \<and> ps_tick_array_bitmap p' = ps_tick_array_bitmap p \<and> ps_status p' = ps_status p"
  using swap_internal_request_met [OF assms] unfolding swap_request_met_def .

theorem swap_internal_respects_request_witness:
  "\<exists>p arrays obs. swap_internal uint_ref sample_pda swap_sample_config swap_sample_pool [swap_sample_array]
     swap_sample_observation None 10000 (2 ^ 65) False True 5 = Some (Ok ((9974, 10000), p, arrays, obs))
   \<and> 2 ^ 64 \<le> ps_sqrt_price_x64 p \<and> ps_swap_in_amount_token_1 p = 10000"
proof -
  obtain p arrays obs where r: "swap_internal uint_ref sample_pda swap_sample_config swap_sample_pool [swap_sample_array]
     swap_sample_observation None 10000 (2 ^ 65) False True 5 = Some (Ok ((9974, 10000), p, arrays, obs))"
    using sample_swap [of "2 ^ 65" None] by (auto simp: MAX_SQRT_PRICE_X64_def)
  have c: "ac_trade_fee_rate swap_sample_config < FEE_RATE_DENOMINATOR_VALUE" "(10000::nat) < 2 ^ 64"
    by (simp_all add: swap_sample_config_def FEE_RATE_DENOMINATOR_VALUE_def)
  have s: "ps_sqrt_price_x64 swap_sample_pool = 2 ^ 64" "ps_liquidity swap_sample_pool = 1000000000"
    "ps_swap_in_amount_token_1 swap_sample_pool = 0"
    by (simp_all add: swap_sample_pool_def sample_pool_def default_pool_def)
  have b: "MIN_SQRT_PRICE_X64 \<le> ps_sqrt_price_x64 swap_sample_pool" "ps_sqrt_price_x64 swap_sample_pool \<le> MAX_SQRT_PRICE_X64"
    "ps_liquidity swap_sample_pool < 2 ^ 128"
    by (simp_all add: s MIN_SQRT_PRICE_X64_def MAX_SQRT_PRICE_X64_def)
  show ?thesis
    using swap_internal_respects_request [OF uint_crate_ref c b r] r
    by (auto simp: Let_def price_between_def swap_in_of_def s)
qed

end
