(* ===== verification/Swap_Properties.thy ===== *)
theory Swap_Properties
  imports Swap_Router Swap_Bounds
begin

text \<open>
  What a user of the swap instructions is promised: the tokens that move, the bounds that the
  caller set, and how far a route goes.
\<close>

section \<open>Inversion\<close>

lemma obind_eq_iff: "obind m f = Some (Ok y) \<longleftrightarrow> (\<exists>x. m = Some (Ok x) \<and> f x = Some (Ok y))"
  by (cases m) (auto split: res.splits)

lemma swap_on_pool_OkE:
  assumes "swap_on_pool U D t A first rem amount limit base w = Some (Ok ((a0, a1, z), w'))"
  obtains ext arrays pool tas obs where
    "z = (tk_mint (sa_input_vault A) = ps_token_mint_0 (sx_pool w))"
    "check_swap_vaults A (sx_pool w) z = Ok ()" "a0 \<noteq> 0" "a1 \<noteq> 0"
    "\<exists>key firsts more. pool_key D (sx_pool w) = Ok key \<and> first = Ok firsts \<and> arrays = firsts @ more
       \<and> gather_tick_arrays (sx_tick_arrays w) (pda_bitmap_extension D key) (map fst firsts) None rem = Ok (ext, more)"
    "swap_internal U D (sa_amm_config A) (sx_pool w) (map snd arrays) (sx_observation w) ext amount
       (price_limit limit z) z base (block_timestamp t) = Some (Ok ((a0, a1), pool, tas, obs))"
    "w' = w\<lparr>sx_pool := pool, sx_observation := obs,
       sx_tick_arrays := store_tick_arrays (map fst arrays) tas (sx_tick_arrays w)\<rparr>"
  using assms unfolding swap_on_pool_def Let_def by (auto simp: res_inv obind_eq_iff simp del: obind.simps)

lemma settle_swap_eq:
  "settle_swap T A a0 a1 z pool s =
    (let a_in = (if z then a0 else a1); a_out = (if z then a1 else a0) in
     rbind (transfer_from_user_to_pool_vault T (sa_signer A) (sa_input_token_account A) (sa_input_vault A) None
              (sa_token_program A) None a_in s) (\<lambda>s.
     rbind (transfer_from_pool_vault_to_user T (sa_pool_state A) (sa_output_vault A) (sa_output_token_account A) None
              (sa_token_program A) None a_out s) (\<lambda>s.
     Ok (if tk_amount (sa_output_vault A) \<le> a_out then set_status pool 255 else pool, s))))"
  by (cases z) (simp_all add: settle_swap_def Let_def cong del: rbind_weak_cong if_weak_cong)

text \<open>The four token accounts of a swap are different.\<close>

definition distinct_accounts :: "'a swap_accounts_scheme \<Rightarrow> bool" where
  "distinct_accounts A \<longleftrightarrow> distinct [tk_key (sa_input_token_account A), tk_key (sa_output_token_account A),
     tk_key (sa_input_vault A), tk_key (sa_output_vault A)]"

text \<open>The user pays \<open>a_in\<close> to the one vault and gets \<open>a_out\<close> from the other.\<close>

definition exchanged :: "'a swap_accounts_scheme \<Rightarrow> nat \<Rightarrow> nat \<Rightarrow> (pubkey \<Rightarrow> nat) \<Rightarrow> (pubkey \<Rightarrow> nat) \<Rightarrow> bool" where
  "exchanged A a_in a_out b b' \<longleftrightarrow>
     a_in \<le> b (tk_key (sa_input_token_account A)) \<and> a_out \<le> b (tk_key (sa_output_vault A))
     \<and> b' = b(tk_key (sa_input_token_account A) := b (tk_key (sa_input_token_account A)) - a_in,
              tk_key (sa_input_vault A) := b (tk_key (sa_input_vault A)) + a_in,
              tk_key (sa_output_vault A) := b (tk_key (sa_output_vault A)) - a_out,
              tk_key (sa_output_token_account A) := b (tk_key (sa_output_token_account A)) + a_out)"

context token_programs
begin

lemma settle_swap_OkD:
  assumes "settle_swap T A a0 a1 z pool s = Ok (pool', s')" "distinct_accounts A"
  shows "exchanged A (if z then a0 else a1) (if z then a1 else a0) (balance s) (balance s')"
    "pool' = (if tk_amount (sa_output_vault A) \<le> (if z then a1 else a0) then set_status pool 255 else pool)"
proof -
  define a_in a_out where "a_in = (if z then a0 else a1)" and "a_out = (if z then a1 else a0)"
  obtain s1 where t1: "transfer_from_user_to_pool_vault T (sa_signer A) (sa_input_token_account A) (sa_input_vault A) None
              (sa_token_program A) None a_in s = Ok s1"
    and t2: "transfer_from_pool_vault_to_user T (sa_pool_state A) (sa_output_vault A) (sa_output_token_account A) None
              (sa_token_program A) None a_out s1 = Ok s'"
    and p: "pool' = (if tk_amount (sa_output_vault A) \<le> a_out then set_status pool 255 else pool)"
    using assms(1) unfolding settle_swap_eq Let_def a_in_def [symmetric] a_out_def [symmetric] by (auto simp: res_inv)
  show "exchanged A (if z then a0 else a1) (if z then a1 else a0) (balance s) (balance s')"
    using user_to_vault_OkD [OF t1] vault_to_user_OkD [OF t2] assms(2)
    unfolding exchanged_def a_in_def [symmetric] a_out_def [symmetric] distinct_accounts_def by auto
  show "pool' = (if tk_amount (sa_output_vault A) \<le> (if z then a1 else a0) then set_status pool 255 else pool)"
    using p by (simp add: a_out_def)
qed

end

lemma request_met_amounts:
  assumes "swap_request_met c amount plim z base a0 a1 p p'"
  shows "price_between z (ps_sqrt_price_x64 p) (ps_sqrt_price_x64 p') plim"
    "(if base then (if z then a0 else a1) else (if z then a1 else a0)) \<le> amount"
  using assms by (auto simp: swap_request_met_def Let_def split: if_splits)

lemma swap_OkE:
  assumes "swap U T AL D t A ck obk ta rem amount thr limit base w = Some (Ok w')"
  obtains first w1 a0 a1 z pool s inp outp where
    "swap_on_pool U D t A first rem amount limit base w = Some (Ok ((a0, a1, z), w1))"
    "settle_swap T A a0 a1 z (sx_pool w1) (sx_tokens w1) = Ok (pool, s)"
    "w' = w1\<lparr>sx_pool := pool, sx_tokens := s\<rparr>"
    "check_price_moved z (ps_sqrt_price_x64 (sx_pool w)) (ps_sqrt_price_x64 pool) = Ok ()"
    "reload T s (sa_input_vault A) = Ok inp" "reload T s (sa_output_vault A) = Ok outp"
    "if base then tk_amount outp \<le> tk_amount (sa_output_vault A) \<and> thr \<le> tk_amount (sa_output_vault A) - tk_amount outp
     else tk_amount (sa_input_vault A) \<le> tk_amount inp \<and> tk_amount inp - tk_amount (sa_input_vault A) \<le> thr"
proof -
  obtain r w2 where e: "exact_internal U T AL D t A ta rem amount limit base w = Some (Ok (r, w2))"
    and c: "check_threshold base r thr = Ok ()" "w' = w2"
    using assms unfolding swap_def by (auto simp: res_inv obind_eq_iff simp del: obind.simps)
  obtain first a0 a1 z w1 where sp: "swap_on_pool U D t A first rem amount limit base w = Some (Ok ((a0, a1, z), w1))"
    and rest: "rbind (settle_swap T A a0 a1 z (sx_pool w1) (sx_tokens w1)) (\<lambda>(pool_state, s).
         rbind (reload T s (sa_output_vault A)) (\<lambda>output_vault.
         rbind (reload T s (sa_input_vault A)) (\<lambda>input_vault.
         rbind (check_price_moved z (ps_sqrt_price_x64 (sx_pool w)) (ps_sqrt_price_x64 pool_state)) (\<lambda>_.
         rbind (if base
                then unwrap (checked_sub (tk_amount (sa_output_vault A)) (tk_amount output_vault))
                else unwrap (checked_sub (tk_amount input_vault) (tk_amount (sa_input_vault A)))) (\<lambda>amount.
         Ok (amount, w1\<lparr>sx_pool := pool_state, sx_tokens := s\<rparr>)))))) = Ok (r, w2)"
    using e unfolding exact_internal_def Let_def by (auto simp: obind_eq_iff simp del: obind.simps)
  obtain pool s inp outp where "settle_swap T A a0 a1 z (sx_pool w1) (sx_tokens w1) = Ok (pool, s)"
    "reload T s (sa_input_vault A) = Ok inp" "reload T s (sa_output_vault A) = Ok outp"
    "check_price_moved z (ps_sqrt_price_x64 (sx_pool w)) (ps_sqrt_price_x64 pool) = Ok ()"
    "w2 = w1\<lparr>sx_pool := pool, sx_tokens := s\<rparr>"
    "(if base then unwrap (checked_sub (tk_amount (sa_output_vault A)) (tk_amount outp))
      else unwrap (checked_sub (tk_amount inp) (tk_amount (sa_input_vault A)))) = Ok r"
    using rest by (auto simp: res_inv)
  then show ?thesis
    using c by (intro that [OF sp, of pool s inp outp]) (auto simp: check_threshold_def split: if_splits)
qed

lemma gather_tick_arrays_OkD:
  "gather_tick_arrays accs key borrowed ext rem = Ok (ext', arrays) \<Longrightarrow> r \<in> set rem \<Longrightarrow>
   (\<exists>e. ra_extension r = Ok e) \<or> (\<exists>a. ai_data (accs (ra_key r)) = Typed_Data a)"
  by (induction accs key borrowed ext rem arbitrary: ext' arrays rule: gather_tick_arrays.induct)
    (auto simp: res_inv load_data_mut_eq_Ok_iff split: if_splits)

lemma exact_internal_v2_OkE:
  assumes "exact_internal_v2 U T D t A rem amount limit base w = Some (Ok (r, w'))"
  obtains first n a0 a1 z w1 pool s where
    "amount_in_pool T A amount base = Ok n"
    "swap_on_pool U D t (swap_accounts.truncate A) (Ok []) rem n limit base w = Some (Ok ((a0, a1, z), w1))"
    "settle_swap_v2 T A a0 a1 z (sx_pool w1) (sx_tokens w1) = Ok (pool, s)"
    "w' = w1\<lparr>sx_pool := pool, sx_tokens := s\<rparr>"
    "\<exists>acc. reload T s (if base then sa_output_token_account A else sa_input_token_account A) = Ok acc
       \<and> (if base then tk_amount (sa_output_token_account A) \<le> tk_amount acc \<and> r = tk_amount acc - tk_amount (sa_output_token_account A)
          else tk_amount acc \<le> tk_amount (sa_input_token_account A) \<and> r = tk_amount (sa_input_token_account A) - tk_amount acc)"
  using assms unfolding exact_internal_v2_def Let_def
  by (auto simp: res_inv obind_eq_iff simp del: obind.simps split: if_splits)

text \<open>A swap of a route has read every account after its own as an extension or a tick array.\<close>

lemma swap_hop_OkD:
  assumes "swap_hop U T D t R S k ks accounts st = Some (Ok st')"
  shows "\<exists>c. rt_amm_config R k = Ok c"
    "j \<in> set accounts \<Longrightarrow> (\<exists>e. rt_extension R j = Ok e) \<or> (\<exists>a. ai_data (rw_tick_arrays (ro_world st) j) = Typed_Data a)"
proof -
  obtain h A limit w where h: "hop_accounts_of T R (ro_world st) k ks = Ok h"
    and "\<exists>r. exact_internal_v2 U T D t A (map (as_remaining T R (rw_tokens (ro_world st))) accounts)
       (ro_amount_in_internal st) 0 True
       \<lparr>sx_pool = ho_pool h, sx_observation = ho_observation h,
         sx_tick_arrays = rw_tick_arrays (ro_world st), sx_tokens = rw_tokens (ro_world st)\<rparr> = Some (Ok r)"
    using assms unfolding swap_hop_def Let_def
    by (auto simp: obind_eq_iff simp del: obind.simps)
  then obtain r w' where e: "exact_internal_v2 U T D t A (map (as_remaining T R (rw_tokens (ro_world st))) accounts)
       (ro_amount_in_internal st) 0 True
       \<lparr>sx_pool = ho_pool h, sx_observation = ho_observation h,
         sx_tick_arrays = rw_tick_arrays (ro_world st), sx_tokens = rw_tokens (ro_world st)\<rparr> = Some (Ok (r, w'))"
    by auto
  show "\<exists>c. rt_amm_config R k = Ok c"
    using h by (auto simp: hop_accounts_of_def res_inv)
  assume j: "j \<in> set accounts"
  obtain n a0 a1 z w1 where "swap_on_pool U D t (swap_accounts.truncate A) (Ok []) (map (as_remaining T R (rw_tokens (ro_world st))) accounts)
      n 0 True \<lparr>sx_pool = ho_pool h, sx_observation = ho_observation h,
         sx_tick_arrays = rw_tick_arrays (ro_world st), sx_tokens = rw_tokens (ro_world st)\<rparr> = Some (Ok ((a0, a1, z), w1))"
    by (rule exact_internal_v2_OkE [OF e])
  then obtain key ext more where "gather_tick_arrays (rw_tick_arrays (ro_world st)) key []
      None (map (as_remaining T R (rw_tokens (ro_world st))) accounts) = Ok (ext, more)"
    by (rule swap_on_pool_OkE) auto
  from gather_tick_arrays_OkD [OF this, of "as_remaining T R (rw_tokens (ro_world st)) j"]
  show "(\<exists>e. rt_extension R j = Ok e) \<or> (\<exists>a. ai_data (rw_tick_arrays (ro_world st) j) = Typed_Data a)"
    using j by (simp add: as_remaining_def)
qed

lemma swap_route_skips:
  "(\<forall>j \<in> set ks. \<forall>c. rt_amm_config R j \<noteq> Ok c) \<Longrightarrow> length ks < n \<Longrightarrow>
   swap_route U T D t R S n ks st = Some (Ok st') \<Longrightarrow> st' = st"
proof (induction ks)
  case (Cons k ks)
  show ?case
  proof (cases "rt_data_len R k = AMM_CONFIG_LEN")
    case True
    then have "obind (swap_hop U T D t R S k ks (drop 6 ks) st)
        (swap_route U T D t R S n (drop 6 ks)) = Some (Ok st')"
      using Cons.prems(3) by (simp only: swap_route.simps simp_thms if_False)
    then obtain st1 where "swap_hop U T D t R S k ks (drop 6 ks) st = Some (Ok st1)"
      unfolding obind_eq_iff by blast
    from swap_hop_OkD(1) [OF this] show ?thesis
      using Cons.prems(1) by simp
  next
    case False
    then show ?thesis using Cons by auto
  qed
qed simp

section \<open>Properties\<close>

text \<open>
  C5. A swap through \<open>swap\<close> that succeeds moves exactly two amounts: the user pays the one to the
  vault of the input token and receives the other from the vault of the output token, nothing
  else moves, and both are positive.  With a fixed input the user pays no more than the amount
  and receives at least the threshold; with a fixed output the user receives no more than the
  amount and pays at most the threshold.  The two vaults are those of the pool, one on each side,
  and the price of the pool moves strictly in the direction of the trade, not past the limit.
\<close>

theorem swap_settles_as_promised:
  assumes "token_programs T balance" "uint_crate U" "distinct_accounts A"
    and "tk_amount (sa_input_vault A) = balance (sx_tokens w) (tk_key (sa_input_vault A))"
    and "tk_amount (sa_output_vault A) = balance (sx_tokens w) (tk_key (sa_output_vault A))"
    and "ac_trade_fee_rate (sa_amm_config A) < FEE_RATE_DENOMINATOR_VALUE" "amount < 2 ^ 64"
    and "MIN_SQRT_PRICE_X64 \<le> ps_sqrt_price_x64 (sx_pool w)" "ps_sqrt_price_x64 (sx_pool w) \<le> MAX_SQRT_PRICE_X64"
    and "ps_liquidity (sx_pool w) < 2 ^ 128"
    and "swap U T AL D t A amm_config_key observation_key tick_array remaining amount threshold limit base w = Some (Ok w')"
  shows "\<exists>a_in a_out. exchanged A a_in a_out (balance (sx_tokens w)) (balance (sx_tokens w'))
      \<and> 0 < a_in \<and> 0 < a_out
      \<and> (if base then a_in \<le> amount \<and> threshold \<le> a_out else a_out \<le> amount \<and> a_in \<le> threshold)
      \<and> {tk_key (sa_input_vault A), tk_key (sa_output_vault A)}
          = {ps_token_vault_0 (sx_pool w), ps_token_vault_1 (sx_pool w)}
      \<and> (let z = (tk_mint (sa_input_vault A) = ps_token_mint_0 (sx_pool w));
             before = ps_sqrt_price_x64 (sx_pool w); after = ps_sqrt_price_x64 (sx_pool w') in
         if z then price_limit limit z \<le> after \<and> after < before
         else before < after \<and> after \<le> price_limit limit z)"
proof -
  obtain first w1 a0 a1 z pool s inp outp where
    sp: "swap_on_pool U D t A first remaining amount limit base w = Some (Ok ((a0, a1, z), w1))"
    and se: "settle_swap T A a0 a1 z (sx_pool w1) (sx_tokens w1) = Ok (pool, s)"
    and w': "w' = w1\<lparr>sx_pool := pool, sx_tokens := s\<rparr>"
    and moved: "check_price_moved z (ps_sqrt_price_x64 (sx_pool w)) (ps_sqrt_price_x64 pool) = Ok ()"
    and inp: "reload T s (sa_input_vault A) = Ok inp" and outp: "reload T s (sa_output_vault A) = Ok outp"
    and thr: "if base then tk_amount outp \<le> tk_amount (sa_output_vault A) \<and> threshold \<le> tk_amount (sa_output_vault A) - tk_amount outp
     else tk_amount (sa_input_vault A) \<le> tk_amount inp \<and> tk_amount inp - tk_amount (sa_input_vault A) \<le> threshold"
    by (rule swap_OkE [OF assms(11)])
  obtain ext arrays p1 tas obs where
    z: "z = (tk_mint (sa_input_vault A) = ps_token_mint_0 (sx_pool w))" "check_swap_vaults A (sx_pool w) z = Ok ()"
    and pos: "a0 \<noteq> 0" "a1 \<noteq> 0"
    and si: "swap_internal U D (sa_amm_config A) (sx_pool w) (map snd arrays) (sx_observation w) ext amount
       (price_limit limit z) z base (block_timestamp t) = Some (Ok ((a0, a1), p1, tas, obs))"
    and w1: "w1 = w\<lparr>sx_pool := p1, sx_observation := obs,
       sx_tick_arrays := store_tick_arrays (map fst arrays) tas (sx_tick_arrays w)\<rparr>"
    by (rule swap_on_pool_OkE [OF sp]) blast
  define a_in a_out where "a_in = (if z then a0 else a1)" and "a_out = (if z then a1 else a0)"
  note ex = token_programs.settle_swap_OkD [OF assms(1) se assms(3), folded a_in_def a_out_def]
  have s: "sx_tokens w1 = sx_tokens w" "sx_pool w1 = p1" "sx_tokens w' = s" "sx_pool w' = pool"
    by (simp_all add: w1 w')
  note met = request_met_amounts [OF swap_internal_request_met [OF assms(2,6,7,8,9,10) si]]
  have "tk_amount inp = balance s (tk_key (sa_input_vault A))" "tk_amount outp = balance s (tk_key (sa_output_vault A))"
    using token_programs.reload_OkD [OF assms(1)] inp outp by auto
  then have b: "tk_amount inp = tk_amount (sa_input_vault A) + a_in" "tk_amount outp = tk_amount (sa_output_vault A) - a_out"
    "a_out \<le> tk_amount (sa_output_vault A)"
    using ex(1) assms(3) unfolding assms(4,5) exchanged_def distinct_accounts_def s by auto
  have price: "ps_sqrt_price_x64 pool = ps_sqrt_price_x64 p1"
    by (simp add: ex(2) s set_status_def)
  have "let before = ps_sqrt_price_x64 (sx_pool w); after = ps_sqrt_price_x64 (sx_pool w') in
         if z then price_limit limit z \<le> after \<and> after < before
         else before < after \<and> after \<le> price_limit limit z"
    using met(1) moved unfolding s price by (auto simp: check_price_moved_def price_between_def split: if_splits)
  moreover have "if base then a_in \<le> amount \<and> threshold \<le> a_out else a_out \<le> amount \<and> a_in \<le> threshold"
    using met(2) thr b by (auto simp: a_in_def a_out_def split: if_splits)
  moreover have "{tk_key (sa_input_vault A), tk_key (sa_output_vault A)}
          = {ps_token_vault_0 (sx_pool w), ps_token_vault_1 (sx_pool w)}"
    using z(2) by (auto simp: check_swap_vaults_def split: if_splits)
  moreover have "0 < a_in" "0 < a_out"
    using pos by (simp_all add: a_in_def a_out_def)
  ultimately show ?thesis
    using ex(1) unfolding s z(1) [symmetric] Let_def by blast
qed


definition sample_arrays :: "tick_array accounts" where
  "sample_arrays = (\<lambda>k. \<lparr>ai_owner = program_id, ai_is_writable = True, ai_lamports = 1,
     ai_data = (if k = 60 then Typed_Data swap_sample_array else Short_Data)\<rparr>)"

definition sample_tokens :: token_table where
  "sample_tokens = (\<lambda>k. \<lparr>tk_key = k, tk_program = 1, tk_mint = (if k = 70 \<or> k = 51 then 7 else 8),
     tk_owner = (if k = 70 \<or> k = 71 then 100 else 1), tk_amount = (if k = 71 then 0 else 20000)\<rparr>)"

definition sample_swap_accounts :: swap_accounts where
  "sample_swap_accounts = \<lparr>sa_signer = 100, sa_input_token_account = sample_tokens 70,
     sa_output_token_account = sample_tokens 71, sa_input_vault = sample_tokens 51,
     sa_output_vault = sample_tokens 50, sa_token_program = 1, sa_amm_config = swap_sample_config,
     sa_pool_state = 1\<rparr>"

definition sample_world :: "token_table swap_world" where
  "sample_world = \<lparr>sx_pool = swap_sample_pool, sx_observation = swap_sample_observation,
     sx_tick_arrays = sample_arrays, sx_tokens = sample_tokens\<rparr>"

lemma sample_pool_facts:
  "ps_token_mint_0 swap_sample_pool = 0" "ps_open_time swap_sample_pool = 0" "ps_amm_config swap_sample_pool = 0"
  "ps_token_vault_0 swap_sample_pool = 50" "ps_token_vault_1 swap_sample_pool = 51" "ps_observation_key swap_sample_pool = 0"
  "ps_sqrt_price_x64 swap_sample_pool = 18446744073709551616" "pool_key sample_pda swap_sample_pool = Ok 1"
  by (simp_all add: swap_sample_pool_def sample_pool_def default_pool_def default_pubkey_def pool_key_def sample_pda_def)

lemma sample_array_facts:
  "load_data_mut sample_arrays 60 = Ok swap_sample_array" "ta_pool_id swap_sample_array = 1"
  "al_load account_load_methods sample_arrays 60 = Ok swap_sample_array"
  "al_load_mut account_load_methods sample_arrays 60 = Ok swap_sample_array"
  by (simp_all add: account_load_methods_def sample_arrays_def account_load_def account_load_mut_def
      load_data_mut_def swap_sample_array_def)

lemma sample_token_facts:
  "tk_key (sample_tokens k) = k" "tk_mint (sample_tokens 51) = 7" "tk_program (sample_tokens k) = 1"
  "tk_mint (sample_tokens 70) = 7" "tk_mint (sample_tokens 50) = 8" "tk_mint (sample_tokens 71) = 8"
  "tk_owner (sample_tokens 70) = 100" "tk_owner (sample_tokens 50) = 1" "tk_amount (sample_tokens 71) = 0"
  "tk_amount (sample_tokens 70) = 20000" "tk_amount (sample_tokens 51) = 20000" "tk_amount (sample_tokens 50) = 20000"
  "(sample_tokens k)\<lparr>tk_key := k\<rparr> = sample_tokens k"
  by (simp_all add: sample_tokens_def)

lemma sample_account_facts:
  "sa_input_vault sample_swap_accounts = sample_tokens 51" "sa_output_vault sample_swap_accounts = sample_tokens 50"
  "sa_input_token_account sample_swap_accounts = sample_tokens 70" "sa_output_token_account sample_swap_accounts = sample_tokens 71"
  "sa_token_program sample_swap_accounts = 1" "sa_signer sample_swap_accounts = 100" "sa_pool_state sample_swap_accounts = 1"
  "sa_amm_config sample_swap_accounts = swap_sample_config"
  by (simp_all add: sample_swap_accounts_def)

lemmas sample_facts = sample_pool_facts sample_array_facts sample_token_facts sample_account_facts

lemma sample_world_facts:
  "sx_pool sample_world = swap_sample_pool" "sx_tokens sample_world = sample_tokens"
  "sx_tick_arrays sample_world = sample_arrays" "sx_observation sample_world = swap_sample_observation"
  by (simp_all add: sample_world_def)

text \<open>The sample swap on the pool, with the tick array given either way.\<close>

lemma sample_swap_on_pool:
  assumes "18455969290605287889 \<le> price_limit limit False" "price_limit limit False < MAX_SQRT_PRICE_X64"
    and "first = Ok [(60, swap_sample_array)] \<and> rem = [] \<or> first = Ok [] \<and> map ra_key rem = [60]"
  shows "\<exists>p w. swap_on_pool uint_ref sample_pda 5 sample_swap_accounts first rem 10000 limit True sample_world
     = Some (Ok ((9974, 10000, False), w)) \<and> sx_pool w = p \<and> sx_tokens w = sample_tokens
     \<and> ps_sqrt_price_x64 p = 18446928079981686868"
proof -
  obtain p arrays obs where r: "swap_internal uint_ref sample_pda swap_sample_config swap_sample_pool [swap_sample_array]
     swap_sample_observation None 10000 (price_limit limit False) False True 5 = Some (Ok ((9974, 10000), p, arrays, obs))"
    and price: "ps_sqrt_price_x64 p = 18446928079981686868"
    using sample_swap [OF assms(1,2), of None] by blast
  have t: "block_timestamp 5 = 5" "timestamp_as_u64 5 = 5"
    by (simp_all add: block_timestamp_def timestamp_as_u64_def)
  have "pda_bitmap_extension sample_pda 1 = 2"
    by (simp add: sample_pda_def)
  then have "\<exists>firsts more. first = Ok firsts
      \<and> gather_tick_arrays sample_arrays (pda_bitmap_extension sample_pda 1) (map fst firsts) None rem = Ok (None, more)
      \<and> firsts @ more = [(60, swap_sample_array)]"
    using assms(3) by (auto simp: sample_facts)
  then obtain firsts more where g: "first = Ok firsts" "firsts @ more = [(60, swap_sample_array)]"
    "gather_tick_arrays sample_arrays (pda_bitmap_extension sample_pda 1) (map fst firsts) None rem = Ok (None, more)"
    by blast
  show ?thesis
    by (simp add: swap_on_pool_def sample_world_facts sample_facts check_swap_vaults_def t g r price del: One_nat_def)
qed

lemma sample_swap_runs:
  "\<exists>w'. swap uint_ref token_ref account_load_methods sample_pda 5 sample_swap_accounts 0 0 60 [] 10000 9900
     (2 ^ 65) True sample_world = Some (Ok w')"
proof -
  define lim where "lim = (2::nat) ^ 65"
  have "18455969290605287889 \<le> price_limit lim False" "price_limit lim False < MAX_SQRT_PRICE_X64"
    by (simp_all add: price_limit_def lim_def MAX_SQRT_PRICE_X64_def)
  from sample_swap_on_pool [OF this, of "Ok [(60, swap_sample_array)]" "[]"]
  obtain p w where o: "swap_on_pool uint_ref sample_pda 5 sample_swap_accounts (Ok [(60, swap_sample_array)]) [] 10000 lim True sample_world
     = Some (Ok ((9974, 10000, False), w))" and w: "sx_pool w = p" "sx_tokens w = sample_tokens" and price: "ps_sqrt_price_x64 p = 18446928079981686868"
    by blast
  have "\<exists>s. settle_swap token_ref sample_swap_accounts 9974 10000 False p sample_tokens = Ok (p, s)
     \<and> tk_amount (s 50) = 10026 \<and> tk_amount (s 51) = 30000"
    by (simp add: settle_swap_eq sample_facts transfer_from_user_to_pool_vault_def transfer_from_pool_vault_to_user_def token_ref_def
        move_tokens_def Let_def)
  then obtain s where s: "settle_swap token_ref sample_swap_accounts 9974 10000 False p sample_tokens = Ok (p, s)"
    "tk_amount (s 50) = 10026" "tk_amount (s 51) = 30000"
    by blast
  moreover have "reload token_ref s (sample_tokens k) = Ok ((s k)\<lparr>tk_key := k\<rparr>)" for k
    by (simp add: reload_def token_ref_def sample_facts)
  ultimately have "\<exists>w'. exact_internal uint_ref token_ref account_load_methods sample_pda 5 sample_swap_accounts 60 [] 10000 lim True
     sample_world = Some (Ok (9974, w'))"
    using s by (simp add: exact_internal_def sample_world_facts sample_facts o w check_price_moved_def price checked_sub_def)
  then show ?thesis
    unfolding lim_def [symmetric]
    by (auto simp: swap_def check_swap_accounts_def sample_facts check_threshold_def sample_world_facts)
qed

theorem swap_settles_as_promised_witness:
  "\<exists>w' a_in a_out. swap uint_ref token_ref account_load_methods sample_pda 5 sample_swap_accounts 0 0 60 [] 10000 9900
     (2 ^ 65) True sample_world = Some (Ok w') \<and> a_in \<le> 10000 \<and> 9900 \<le> a_out
   \<and> exchanged sample_swap_accounts a_in a_out (table_balance sample_tokens) (table_balance (sx_tokens w'))"
proof -
  obtain w' where r: "swap uint_ref token_ref account_load_methods sample_pda 5 sample_swap_accounts 0 0 60 [] 10000 9900
     (2 ^ 65) True sample_world = Some (Ok w')"
    using sample_swap_runs by blast
  have "distinct_accounts sample_swap_accounts"
    by (simp add: distinct_accounts_def sample_swap_accounts_def sample_tokens_def)
  moreover have "tk_amount (sa_input_vault sample_swap_accounts) = table_balance (sx_tokens sample_world) (tk_key (sa_input_vault sample_swap_accounts))"
    "tk_amount (sa_output_vault sample_swap_accounts) = table_balance (sx_tokens sample_world) (tk_key (sa_output_vault sample_swap_accounts))"
    by (simp_all add: table_balance_def sample_world_def sample_swap_accounts_def sample_tokens_def)
  moreover have "ac_trade_fee_rate (sa_amm_config sample_swap_accounts) < FEE_RATE_DENOMINATOR_VALUE" "(10000::nat) < 2 ^ 64"
    "MIN_SQRT_PRICE_X64 \<le> ps_sqrt_price_x64 (sx_pool sample_world)" "ps_sqrt_price_x64 (sx_pool sample_world) \<le> MAX_SQRT_PRICE_X64"
    "ps_liquidity (sx_pool sample_world) < 2 ^ 128"
    by (simp_all add: sample_world_def sample_swap_accounts_def swap_sample_config_def FEE_RATE_DENOMINATOR_VALUE_def
        swap_sample_pool_def sample_pool_def default_pool_def MIN_SQRT_PRICE_X64_def MAX_SQRT_PRICE_X64_def)
  ultimately have "\<exists>a_in a_out. exchanged sample_swap_accounts a_in a_out (table_balance (sx_tokens sample_world)) (table_balance (sx_tokens w'))
      \<and> a_in \<le> 10000 \<and> 9900 \<le> a_out"
    using swap_settles_as_promised [OF token_programs_ref uint_crate_ref _ _ _ _ _ _ _ _ r] by auto
  moreover have "sx_tokens sample_world = sample_tokens"
    by (simp add: sample_world_def)
  ultimately show ?thesis using r by auto
qed


text \<open>The same swap through the second version, on mints of the older token program.\<close>

definition sample_mint :: "pubkey \<Rightarrow> mint_account" where
  "sample_mint k = \<lparr>mint_key = k, mint_decimals = 6, mint_program = 1\<rparr>"

definition sample_swap_accounts_v2 :: swap_accounts_v2 where
  "sample_swap_accounts_v2 = \<lparr>sa_signer = 100, sa_input_token_account = sample_tokens 70,
     sa_output_token_account = sample_tokens 71, sa_input_vault = sample_tokens 51,
     sa_output_vault = sample_tokens 50, sa_token_program = 1, sa_amm_config = swap_sample_config,
     sa_pool_state = 1, sa_token_program_2022 = 2, sa_input_vault_mint = sample_mint 7,
     sa_output_vault_mint = sample_mint 8\<rparr>"

lemma sample_v2_facts:
  "sa_input_vault sample_swap_accounts_v2 = sample_tokens 51" "sa_output_vault sample_swap_accounts_v2 = sample_tokens 50"
  "sa_input_token_account sample_swap_accounts_v2 = sample_tokens 70" "sa_output_token_account sample_swap_accounts_v2 = sample_tokens 71"
  "sa_token_program sample_swap_accounts_v2 = 1" "sa_signer sample_swap_accounts_v2 = 100" "sa_pool_state sample_swap_accounts_v2 = 1"
  "sa_token_program_2022 sample_swap_accounts_v2 = 2" "sa_input_vault_mint sample_swap_accounts_v2 = sample_mint 7"
  "sa_output_vault_mint sample_swap_accounts_v2 = sample_mint 8" "swap_accounts.truncate sample_swap_accounts_v2 = sample_swap_accounts"
  "mint_key (sample_mint k) = k" "mint_program (sample_mint k) = 1"
  by (simp_all add: sample_swap_accounts_v2_def sample_swap_accounts_def sample_mint_def swap_accounts.defs)

lemma sample_no_fee: "get_transfer_fee token_ref (sample_mint k) n = Ok 0" "get_transfer_inverse_fee token_ref (sample_mint k) n = Ok 0"
  by (simp_all add: get_transfer_fee_def get_transfer_inverse_fee_def sample_v2_facts token_ref_def)

lemma sample_v2_runs:
  assumes "map ra_key rem = [60]"
  shows "\<exists>w. exact_internal_v2 uint_ref token_ref sample_pda 5 sample_swap_accounts_v2 rem 10000 0 True sample_world
     = Some (Ok (9974, w))"
proof -
  have "18455969290605287889 \<le> price_limit 0 False" "price_limit 0 False < MAX_SQRT_PRICE_X64"
    by (simp_all add: price_limit_def MAX_SQRT_PRICE_X64_def)
  from sample_swap_on_pool [OF this, of "Ok []" rem] assms
  obtain p w where o: "swap_on_pool uint_ref sample_pda 5 sample_swap_accounts (Ok []) rem 10000 0 True sample_world
     = Some (Ok ((9974, 10000, False), w))" and w: "sx_pool w = p" "sx_tokens w = sample_tokens" and price: "ps_sqrt_price_x64 p = 18446928079981686868"
    by blast
  have "\<exists>s. settle_swap_v2 token_ref sample_swap_accounts_v2 9974 10000 False p sample_tokens = Ok (p, s)
     \<and> tk_amount (s 70) = 10000 \<and> tk_amount (s 71) = 9974"
    by (simp add: settle_swap_v2_def sample_facts sample_v2_facts sample_no_fee checked_sub_def chk_add_def)
      (simp add: transfer_from_user_to_pool_vault_def transfer_from_pool_vault_to_user_def token_ref_def
        move_tokens_def Let_def sample_facts sample_v2_facts)
  then obtain s where s: "settle_swap_v2 token_ref sample_swap_accounts_v2 9974 10000 False p sample_tokens = Ok (p, s)"
    "tk_amount (s 70) = 10000" "tk_amount (s 71) = 9974"
    by blast
  have "reload token_ref s (sample_tokens k) = Ok ((s k)\<lparr>tk_key := k\<rparr>)" for k
    by (simp add: reload_def token_ref_def sample_facts)
  then show ?thesis
    using s by (simp add: exact_internal_v2_def sample_world_facts sample_facts sample_v2_facts amount_in_pool_def
        sample_no_fee chk_sub_def o w check_price_moved_def price checked_sub_def)
qed

definition sample_route :: route_accounts where
  "sample_route = \<lparr>rt_data_len = (\<lambda>k. if k = 0 then AMM_CONFIG_LEN else 165),
     rt_amm_config = (\<lambda>k. if k = 0 then Ok swap_sample_config else Err AccountDiscriminatorMismatch),
     rt_mint = (\<lambda>k. if k = 7 \<or> k = 8 then Ok (sample_mint k) else Err AccountDiscriminatorMismatch),
     rt_extension = (\<lambda>k. Err AccountDiscriminatorMismatch)\<rparr>"

definition sample_route_world :: "token_table route_world" where
  "sample_route_world = \<lparr>rw_pools = (\<lambda>k. if k = 1 then Ok swap_sample_pool else Err AccountDiscriminatorMismatch),
     rw_observations = (\<lambda>k. if k = 0 then Ok swap_sample_observation else Err AccountDiscriminatorMismatch),
     rw_tick_arrays = sample_arrays, rw_tokens = sample_tokens\<rparr>"

text \<open>
  C11. The newer version protects the user's own balance: when \<open>swap_v2\<close> succeeds with a fixed input,
  the user's account of the output token holds at least the threshold more than when it was
  read, whatever fees the token charges on transfers; with a fixed output, the account of the
  input token holds at most the threshold less.
\<close>

theorem swap_v2_respects_threshold:
  assumes "token_programs T balance"
    and "tk_amount (sa_output_token_account A) = balance (sx_tokens w) (tk_key (sa_output_token_account A))"
    and "tk_amount (sa_input_token_account A) = balance (sx_tokens w) (tk_key (sa_input_token_account A))"
    and "swap_v2 U T D t A amm_config_key observation_key remaining amount threshold limit base w = Some (Ok w')"
  shows "let output = tk_key (sa_output_token_account A); input = tk_key (sa_input_token_account A) in
    if base then balance (sx_tokens w) output + threshold \<le> balance (sx_tokens w') output
    else balance (sx_tokens w) input \<le> balance (sx_tokens w') input + threshold"
proof -
  obtain r where e: "exact_internal_v2 U T D t A remaining amount limit base w = Some (Ok (r, w'))"
    and c: "check_threshold base r threshold = Ok ()"
    using assms(4) unfolding swap_v2_def by (auto simp: res_inv obind_eq_iff simp del: obind.simps)
  obtain acc where "reload T (sx_tokens w') (if base then sa_output_token_account A else sa_input_token_account A) = Ok acc"
    and acc: "if base then tk_amount (sa_output_token_account A) \<le> tk_amount acc \<and> r = tk_amount acc - tk_amount (sa_output_token_account A)
       else tk_amount acc \<le> tk_amount (sa_input_token_account A) \<and> r = tk_amount (sa_input_token_account A) - tk_amount acc"
    by (rule exact_internal_v2_OkE [OF e]) auto
  from token_programs.reload_OkD [OF assms(1) this(1)] show ?thesis
    using acc c unfolding Let_def assms(2,3) by (auto simp: check_threshold_def assms(2,3) split: if_splits)
qed

theorem swap_v2_respects_threshold_witness:
  "\<exists>w'. swap_v2 uint_ref token_ref sample_pda 5 sample_swap_accounts_v2 0 0
       [as_remaining token_ref sample_route sample_tokens 60] 10000 9900 0 True sample_world = Some (Ok w')
     \<and> 9900 \<le> table_balance (sx_tokens w') 71"
proof -
  define rem where "rem = [as_remaining token_ref sample_route sample_tokens 60]"
  have "map ra_key rem = [60]"
    by (simp add: rem_def as_remaining_def)
  then obtain w' where r: "swap_v2 uint_ref token_ref sample_pda 5 sample_swap_accounts_v2 0 0 rem 10000 9900 0 True sample_world
      = Some (Ok w')"
    using sample_v2_runs [of rem]
    by (auto simp: swap_v2_def check_swap_accounts_v2_def check_threshold_def sample_world_facts sample_facts sample_v2_facts)
  have "tk_amount (sa_output_token_account sample_swap_accounts_v2)
      = table_balance (sx_tokens sample_world) (tk_key (sa_output_token_account sample_swap_accounts_v2))"
    "tk_amount (sa_input_token_account sample_swap_accounts_v2)
      = table_balance (sx_tokens sample_world) (tk_key (sa_input_token_account sample_swap_accounts_v2))"
    by (simp_all add: table_balance_def sample_world_facts sample_facts sample_v2_facts)
  from swap_v2_respects_threshold [OF token_programs_ref this r]
  have "9900 \<le> table_balance (sx_tokens w') 71"
    by (simp add: Let_def sample_facts sample_v2_facts)
  then show ?thesis
    using r unfolding rem_def by blast
qed

text \<open>
  C12. A route swaps once.  Every swap of a route takes all the accounts that follow its own as
  its tick arrays, so a route that succeeds has no second configuration among them: it is its
  first swap alone, and the minimum output is checked against that swap.  The hypothesis is that
  Anchor tells configurations, extensions and tick arrays apart by their discriminators.
\<close>

theorem route_has_one_swap:
  assumes "\<And>j c. rt_amm_config R j = Ok c \<Longrightarrow>
      (\<forall>e. rt_extension R j \<noteq> Ok e) \<and> (\<forall>a. ai_data (rw_tick_arrays w j) \<noteq> Typed_Data a)"
    and "swap_router_base_in U T D t R S input input_mint (k # ks) amount_in amount_out_minimum w = Some (Ok w')"
  shows "(\<forall>j \<in> set (drop 6 ks). \<forall>c. rt_amm_config R j \<noteq> Ok c)
    \<and> (\<exists>st. swap_hop U T D t R S k ks (drop 6 ks)
           \<lparr>ro_amount_in_internal = amount_in, ro_input_token_account = input,
            ro_input_token_mint = input_mint, ro_world = w\<rparr> = Some (Ok st)
         \<and> w' = ro_world st \<and> amount_out_minimum \<le> ro_amount_in_internal st)"
proof -
  define st0 where "st0 = \<lparr>ro_amount_in_internal = amount_in, ro_input_token_account = input,
            ro_input_token_mint = input_mint, ro_world = w\<rparr>"
  obtain st1 st where hop: "swap_hop U T D t R S k ks (drop 6 ks) st0 = Some (Ok st1)"
    and rest: "swap_route U T D t R S (length (k # ks)) (drop 6 ks) st1 = Some (Ok st)"
    and st: "w' = ro_world st" "amount_out_minimum \<le> ro_amount_in_internal st"
    using assms(2) unfolding swap_router_base_in_def st0_def [symmetric]
    by (auto simp: obind_eq_iff res_inv simp del: obind.simps)
  have no: "\<forall>j \<in> set (drop 6 ks). \<forall>c. rt_amm_config R j \<noteq> Ok c"
    using swap_hop_OkD(2) [OF hop] assms(1) by (force simp: st0_def)
  then have "st = st1"
    using swap_route_skips [OF no _ rest] by simp
  then show ?thesis
    using no hop st unfolding st0_def by blast
qed

theorem route_has_one_swap_witness:
  "\<exists>w'. swap_router_base_in uint_ref token_ref sample_pda 5 sample_route
        \<lparr>rs_payer = 100, rs_token_program = 1, rs_token_program_2022 = 2\<rparr> (sample_tokens 70) (sample_mint 7)
        [0, 1, 71, 51, 50, 8, 0, 60] 10000 9900 sample_route_world = Some (Ok w')
     \<and> (\<forall>c. rt_amm_config sample_route 60 \<noteq> Ok c)"
proof -
  have h: "hop_accounts_of token_ref sample_route sample_route_world 0 [1, 71, 51, 50, 8, 0, 60]
      = Ok \<lparr>ho_amm_config_key = 0, ho_amm_config = swap_sample_config, ho_pool_key = 1, ho_pool = swap_sample_pool,
          ho_output_token_account = sample_tokens 71, ho_input_vault = sample_tokens 51,
          ho_output_vault = sample_tokens 50, ho_output_token_mint = sample_mint 8, ho_observation_key = 0,
          ho_observation = swap_sample_observation\<rparr>"
    by (simp add: hop_accounts_of_def sample_route_def sample_route_world_def sample_facts token_ref_def)
  have world: "rw_tokens sample_route_world = sample_tokens" "rw_tick_arrays sample_route_world = sample_arrays"
    by (simp_all add: sample_route_world_def)
  define rem where "rem = [as_remaining token_ref sample_route sample_tokens 60]"
  have "map ra_key rem = [60]"
    by (simp add: rem_def as_remaining_def)
  from sample_v2_runs [OF this] obtain w where e: "exact_internal_v2 uint_ref token_ref sample_pda 5 sample_swap_accounts_v2 rem 10000 0 True sample_world
     = Some (Ok (9974, w))"
    by (elim exE)
  have "\<exists>st. swap_hop uint_ref token_ref sample_pda 5 sample_route
        \<lparr>rs_payer = 100, rs_token_program = 1, rs_token_program_2022 = 2\<rparr> 0 [1, 71, 51, 50, 8, 0, 60] [60]
        \<lparr>ro_amount_in_internal = 10000, ro_input_token_account = sample_tokens 70,
         ro_input_token_mint = sample_mint 7, ro_world = sample_route_world\<rparr> = Some (Ok st)
      \<and> ro_amount_in_internal st = 9974"
    using e by (simp add: swap_hop_def h sample_swap_accounts_v2_def rem_def sample_world_def world del: One_nat_def)
  then obtain w' where r: "swap_router_base_in uint_ref token_ref sample_pda 5 sample_route
        \<lparr>rs_payer = 100, rs_token_program = 1, rs_token_program_2022 = 2\<rparr> (sample_tokens 70) (sample_mint 7)
        [0, 1, 71, 51, 50, 8, 0, 60] 10000 9900 sample_route_world = Some (Ok w')"
    by (auto simp: swap_router_base_in_def sample_route_def AMM_CONFIG_LEN_def)
  have "(\<forall>e. rt_extension sample_route j \<noteq> Ok e) \<and> (\<forall>a. ai_data (rw_tick_arrays sample_route_world j) \<noteq> Typed_Data a)"
    if "rt_amm_config sample_route j = Ok c" for j c
    using that by (auto simp: sample_route_def sample_route_world_def sample_arrays_def split: if_splits)
  from route_has_one_swap [OF this r] r show ?thesis
    by simp
qed

end
