(* ===== verification/Swap_Invariant.thy ===== *)
theory Swap_Invariant
  imports Swap_Bounds
begin

text \<open>
  What every swap keeps of a pool: the current tick is the tick of the price, and every counter
  stays within its machine integer.
\<close>

section \<open>The tick after a turn\<close>

text \<open>The shares of a fee touch neither price nor tick, and nothing of the step but the fee.\<close>

lemma swap_step_fees_frame:
  assumes "swap_step_fees U env s step = Ok (s', step')"
  shows "\<exists>p f g k. s' = s\<lparr>sw_protocol_fee := p, sw_fund_fee := f, sw_fee_growth_global_x64 := g, sw_fee_amount := k\<rparr>"
    "\<exists>k. step' = step\<lparr>sc_fee_amount := k\<rparr>"
proof -
  have t: "\<exists>k. t' = t\<lparr>sc_fee_amount := k\<rparr>" if "take_fee_share U fee rate n t = Ok (n', t')" for fee rate n t n' t'
  proof -
    have "t = t\<lparr>sc_fee_amount := sc_fee_amount t\<rparr>" by (cases t) simp
    moreover have "t' = t \<or> (\<exists>k. t' = t\<lparr>sc_fee_amount := k\<rparr>)"
      using that by (auto simp: take_fee_share_def res_inv split: if_splits)
    ultimately show ?thesis by metis
  qed
  have g: "\<exists>g k. r' = r\<lparr>sw_fee_growth_global_x64 := g, sw_fee_amount := k\<rparr>" if "grow_fees U r t = Ok r'" for r t r'
  proof -
    have "r = r\<lparr>sw_fee_growth_global_x64 := sw_fee_growth_global_x64 r, sw_fee_amount := sw_fee_amount r\<rparr>" by (cases r) simp
    moreover have "r' = r \<or> (\<exists>g k. r' = r\<lparr>sw_fee_growth_global_x64 := g, sw_fee_amount := k\<rparr>)"
      using that by (auto simp: grow_fees_def res_inv split: if_splits)
    ultimately show ?thesis by metis
  qed
  obtain p t1 f where
    1: "take_fee_share U (sc_fee_amount step) (ac_protocol_fee_rate (se_amm_config env)) (sw_protocol_fee s) step = Ok (p, t1)"
    and 2: "take_fee_share U (sc_fee_amount step) (ac_fund_fee_rate (se_amm_config env)) (sw_fund_fee s) t1 = Ok (f, step')"
    and 3: "grow_fees U (s\<lparr>sw_protocol_fee := p, sw_fund_fee := f\<rparr>) step' = Ok s'"
    using assms by (auto simp: swap_step_fees_def Let_def res_inv)
  show "\<exists>p f g k. s' = s\<lparr>sw_protocol_fee := p, sw_fund_fee := f, sw_fee_growth_global_x64 := g, sw_fee_amount := k\<rparr>"
    using g [OF 3] by blast
  show "\<exists>k. step' = step\<lparr>sc_fee_amount := k\<rparr>"
    using t [OF 1] t [OF 2] by auto
qed

context uint_crate
begin

text \<open>A turn ends on the price of a tick, or takes the tick from the price, or moves neither.\<close>

lemma swap_loop_body_tick:
  assumes "swap_loop_body U D env v = Ok v'"
  obtains
    (at) n where "MIN_TICK \<le> n" "n \<le> MAX_TICK" "sw_sqrt_price_x64 (sv_state v') = price_at n"
      "sw_tick (sv_state v') = (if se_zero_for_one env then n - 1 else n)"
      "if se_zero_for_one env then n \<le> sw_tick (sv_state v) else sw_tick (sv_state v) < n"
  | (between) "get_tick_at_sqrt_price U (sw_sqrt_price_x64 (sv_state v')) = Ok (sw_tick (sv_state v'))"
  | (stay) "sw_tick (sv_state v') = sw_tick (sv_state v)" "sw_sqrt_price_x64 (sv_state v') = sw_sqrt_price_x64 (sv_state v)"
proof -
  obtain t v1 step target s1 step1 s2 step2 s3 arr where
    find: "find_next_tick D env v = Ok (t, v1)"
    and start: "swap_step_start U env (sv_state v1) t = Ok (step, target)"
    and move: "swap_step_move U env target (sv_state v1) step = Ok (s1, step1)"
    and fees: "swap_step_fees U env s1 step1 = Ok (s2, step2)"
    and shift: "swap_step_shift U env t s2 step2 (sv_tick_array_current v1) = Ok (s3, arr)"
    and v': "v' = v1\<lparr>sv_state := s3, sv_tick_array_current := arr\<rparr>"
    by (rule swap_loop_body_OkE [OF assms])
  define n where "n = max MIN_TICK (min MAX_TICK (ts_tick t))"
  note st = swap_step_start_OkD [OF start, folded n_def]
  have v1: "sv_state v1 = sv_state v" by (rule find_next_tick_OkD(1) [OF find])
  have s1: "sw_tick s1 = sw_tick (sv_state v)" "sc_sqrt_price_next_x64 step1 = price_at n" "sc_tick_next step1 = n"
    "sc_sqrt_price_start_x64 step1 = sw_sqrt_price_x64 (sv_state v)"
    by (rule swap_step_move_OkD [OF move]; simp add: Let_def v1 st(1))+
  have f: "sw_tick s2 = sw_tick s1" "sw_sqrt_price_x64 s2 = sw_sqrt_price_x64 s1"
    "sc_sqrt_price_next_x64 step2 = sc_sqrt_price_next_x64 step1" "sc_tick_next step2 = sc_tick_next step1"
    "sc_sqrt_price_start_x64 step2 = sc_sqrt_price_start_x64 step1"
    using swap_step_fees_frame [OF fees] by auto
  have same: "sw_sqrt_price_x64 s = sw_sqrt_price_x64 s2" if "cross_next_tick env t s2 a = Ok (s, b)" for s a b
    using that by (auto simp: cross_next_tick_def res_inv Let_def)
  have p3: "sw_sqrt_price_x64 s3 = sw_sqrt_price_x64 s2"
    using shift same by (auto simp: swap_step_shift_def res_inv split: if_splits)
  have tick2: "sw_tick s2 = sw_tick (sv_state v)"
    using f(1) s1(1) by simp
  consider (at') "sw_sqrt_price_x64 s3 = price_at n" "sw_tick s3 = (if se_zero_for_one env then n - 1 else n)"
    | (between') "get_tick_at_sqrt_price U (sw_sqrt_price_x64 s3) = Ok (sw_tick s3)"
    | (stay') "sw_tick s3 = sw_tick s2" "sw_sqrt_price_x64 s3 = sw_sqrt_price_x64 (sv_state v)"
    using shift p3 unfolding swap_step_shift_def f(2-5) s1(2-4) by (auto simp: res_inv chk_i_eq_Ok_iff split: if_splits)
  then show ?thesis
  proof cases
    case at'
    then show ?thesis using at [of n] st(3,4,5) by (simp add: v' v1 split: if_splits)
  next
    case between'
    then show ?thesis using between by (simp add: v')
  next
    case stay'
    then show ?thesis using stay tick2 by (simp add: v')
  qed
qed

end

section \<open>The tick of the price\<close>

definition tick_of_price :: "i32 \<Rightarrow> u128 \<Rightarrow> bool" where
  "tick_of_price t p \<longleftrightarrow> MIN_TICK \<le> t \<and> t < MAX_TICK \<and> price_at t \<le> p \<and> p \<le> price_at (t + 1)"

text \<open>The tick is known but for the price of a tick itself, which belongs to either side of it.\<close>

lemma tick_of_price_cases:
  assumes "tick_of_price t p" "tick_of_price s p"
  shows "t = s \<or> t = s + 1 \<and> p = price_at t \<or> s = t + 1 \<and> p = price_at s"
proof -
  have lt: "u \<le> w + 1 \<and> (w < u \<longrightarrow> p = price_at u)" if "tick_of_price u p" "tick_of_price w p" for u w
  proof -
    have b: "MIN_TICK \<le> w" "w < MAX_TICK" "MIN_TICK \<le> u" "u < MAX_TICK" "price_at u \<le> p" "p \<le> price_at (w + 1)"
      using that by (auto simp: tick_of_price_def)
    then have le: "u \<le> w + 1" using price_at_strict_mono [of "w + 1" u] by force
    moreover have "p = price_at u" if "w < u"
    proof -
      have "u = w + 1" using le that by simp
      with b show ?thesis by simp
    qed
    ultimately show ?thesis by simp
  qed
  from lt [OF assms] lt [OF assms(2,1)] show ?thesis by force
qed

context uint_crate
begin

lemma swap_loop_body_keeps_tick:
  assumes e: "env_ok env" and s: "state_ok env (sv_state v)" and ok: "swap_loop_body U D env v = Ok v'"
    and i: "tick_of_price (sw_tick (sv_state v)) (sw_sqrt_price_x64 (sv_state v))"
  shows "tick_of_price (sw_tick (sv_state v')) (sw_sqrt_price_x64 (sv_state v'))"
proof -
  define p where "p = sw_sqrt_price_x64 (sv_state v')"
  have inside: "MIN_SQRT_PRICE_X64 \<le> sw_sqrt_price_x64 (sv_state v)" "sw_sqrt_price_x64 (sv_state v) \<le> MAX_SQRT_PRICE_X64"
    using i price_at_bounds [of "sw_tick (sv_state v)"] price_at_bounds [of "sw_tick (sv_state v) + 1"]
    by (auto simp: tick_of_price_def)
  have z: "MIN_SQRT_PRICE_X64 < p" "p \<le> MAX_SQRT_PRICE_X64" if "se_zero_for_one env"
    using swap_loop_body_OkD(2) [OF e s ok] e inside that
    by (auto simp: progress_def price_between_def env_ok_def p_def)
  have o: "MIN_SQRT_PRICE_X64 \<le> p" "p < MAX_SQRT_PRICE_X64" if "\<not> se_zero_for_one env"
    using swap_loop_body_OkD(2) [OF e s ok] e inside that
    by (auto simp: progress_def price_between_def env_ok_def p_def)
  from ok show ?thesis
  proof (cases rule: swap_loop_body_tick)
    case (at n)
    show ?thesis
    proof (cases "se_zero_for_one env")
      case True
      have "n \<noteq> MIN_TICK" using z(1) [OF True] at(3) by (auto simp: p_def price_at_MIN_TICK)
      with at True price_at_mono [of "n - 1" n] show ?thesis
        by (simp add: tick_of_price_def)
    next
      case False
      have "n \<noteq> MAX_TICK" using o(2) [OF False] at(3) by (auto simp: p_def price_at_MAX_TICK)
      with at False price_at_mono [of n "n + 1"] show ?thesis
        by (simp add: tick_of_price_def)
    qed
  next
    case between
    then have "p \<noteq> MAX_SQRT_PRICE_X64"
      by (auto simp: p_def get_tick_at_sqrt_price_def)
    with z o have "MIN_SQRT_PRICE_X64 \<le> p" "p < MAX_SQRT_PRICE_X64"
      by (cases "se_zero_for_one env"; force)+
    from get_tick_at_sqrt_price_correct [OF this] between show ?thesis
      by (auto simp: tick_of_price_def p_def)
  next
    case stay
    with i show ?thesis by simp
  qed
qed

text \<open>What every turn keeps, the loop keeps.\<close>

lemma swap_loop_invariant:
  assumes e: "env_ok env"
    and step: "\<And>v v'. P v \<Longrightarrow> state_ok env (sv_state v) \<Longrightarrow> swap_loop_body U D env v = Ok v' \<Longrightarrow> P v'"
  shows "swap_loop U D env v = Some (Ok v') \<Longrightarrow> state_ok env (sv_state v) \<Longrightarrow> P v \<Longrightarrow> P v' \<and> state_ok env (sv_state v')"
proof (induction "ticks_left (se_zero_for_one env) (sw_tick (sv_state v))" arbitrary: v rule: less_induct)
  case less
  show ?case
  proof (cases "swap_continues env v")
    case False
    with less.prems show ?thesis by (subst (asm) swap_loop.simps) simp
  next
    case True
    with less.prems(1) obtain w where body: "swap_loop_body U D env v = Ok w" and rest: "swap_loop U D env w = Some (Ok v')"
      by (subst (asm) swap_loop.simps) (auto split: res.splits)
    note b = swap_loop_body_OkD [OF e less.prems(2) body]
    have P: "P w" by (rule step [OF less.prems(3,2) body])
    show ?thesis
    proof (cases "swap_continues env w")
      case True
      from less.hyps [OF b(3) [OF True] rest b(1) P] show ?thesis .
    next
      case False
      with rest have "v' = w" by (subst (asm) swap_loop.simps) simp
      with P b(1) show ?thesis by simp
    qed
  qed
qed

text \<open>The growth of the fees stays in its 128 bits.\<close>

lemma swap_loop_body_keeps_growth:
  assumes "swap_loop_body U D env v = Ok v'" "sw_fee_growth_global_x64 (sv_state v) < 2 ^ 128"
  shows "sw_fee_growth_global_x64 (sv_state v') < 2 ^ 128"
proof -
  obtain t v1 step target s1 step1 s2 step2 s3 arr where
    find: "find_next_tick D env v = Ok (t, v1)"
    and move: "swap_step_move U env target (sv_state v1) step = Ok (s1, step1)"
    and fees: "swap_step_fees U env s1 step1 = Ok (s2, step2)"
    and shift: "swap_step_shift U env t s2 step2 (sv_tick_array_current v1) = Ok (s3, arr)"
    and v': "v' = v1\<lparr>sv_state := s3, sv_tick_array_current := arr\<rparr>"
    by (rule swap_loop_body_OkE [OF assms(1)])
  have "sw_fee_growth_global_x64 s1 = sw_fee_growth_global_x64 (sv_state v)"
    by (rule swap_step_move_OkD [OF move]) (simp add: Let_def find_next_tick_OkD(1) [OF find])
  moreover have "sw_fee_growth_global_x64 s2 = sw_fee_growth_global_x64 s1 \<or> sw_fee_growth_global_x64 s2 < 2 ^ 128"
    using fees by (auto simp: swap_step_fees_def grow_fees_def res_inv Let_def split: if_splits)
  moreover have "sw_fee_growth_global_x64 s3 = sw_fee_growth_global_x64 s2"
    using shift by (auto simp: swap_step_shift_def cross_next_tick_def res_inv Let_def split: if_splits)
  ultimately show ?thesis
    using assms(2) by (auto simp: v')
qed

end

section \<open>What a swap keeps of the pool\<close>

text \<open>
  The tick is the tick of the price and every counter of the pool is within its integer type:
  \<open>u128\<close> for liquidity, growths and volumes, \<open>u64\<close> for the fees.
\<close>

definition pool_well_formed :: "pool_state \<Rightarrow> bool" where
  "pool_well_formed p \<longleftrightarrow> tick_of_price (ps_tick_current p) (ps_sqrt_price_x64 p) \<and> ps_liquidity p < 2 ^ 128
     \<and> (\<forall>z. fee_growth_of z p < 2 ^ 128 \<and> total_fees_of z p < 2 ^ 64 \<and> protocol_fees_of z p < 2 ^ 64
          \<and> fund_fees_of z p < 2 ^ 64 \<and> swap_in_of z p < 2 ^ 128 \<and> swap_out_of z p < 2 ^ 128)"

lemma add_swap_totals_counters:
  assumes "add_swap_totals z s a0 a1 p = Ok p'"
  shows "total_fees_of z p' < 2 ^ 64" "protocol_fees_of z p < 2 ^ 64 \<Longrightarrow> protocol_fees_of z p' < 2 ^ 64"
    "fund_fees_of z p < 2 ^ 64 \<Longrightarrow> fund_fees_of z p' < 2 ^ 64"
    "swap_in_of z p' < 2 ^ 128" "swap_out_of (\<not> z) p' < 2 ^ 128"
  using assms by (cases z; auto simp: add_swap_totals_def res_inv side_defs split: if_splits)+

lemma swap_end_counters:
  assumes "swap_end U env s obs amount now = Ok (amounts, p', obs')"
  defines "p \<equiv> se_pool_state env" and "z \<equiv> se_zero_for_one env"
  shows "total_fees_of z p' < 2 ^ 64" "protocol_fees_of z p < 2 ^ 64 \<Longrightarrow> protocol_fees_of z p' < 2 ^ 64"
    "fund_fees_of z p < 2 ^ 64 \<Longrightarrow> fund_fees_of z p' < 2 ^ 64"
    "swap_in_of z p' < 2 ^ 128" "swap_out_of (\<not> z) p' < 2 ^ 128"
proof -
  obtain a0 a1 nx where t: "add_swap_totals z s a0 a1 (commit_price s nx p) = Ok p'"
    using assms(1) unfolding p_def z_def by (auto simp: swap_end_def Let_def res_inv split: if_splits)
  have "protocol_fees_of z (commit_price s nx p) = protocol_fees_of z p" "fund_fees_of z (commit_price s nx p) = fund_fees_of z p"
    using commit_price_eq [of s nx p] by (auto simp: side_defs)
  with add_swap_totals_counters [OF t]
  show "total_fees_of z p' < 2 ^ 64" "protocol_fees_of z p < 2 ^ 64 \<Longrightarrow> protocol_fees_of z p' < 2 ^ 64"
    "fund_fees_of z p < 2 ^ 64 \<Longrightarrow> fund_fees_of z p' < 2 ^ 64"
    "swap_in_of z p' < 2 ^ 128" "swap_out_of (\<not> z) p' < 2 ^ 128" by simp_all
qed

lemma swap_internal_well_formed:
  assumes U: "uint_crate U" and c: "ac_trade_fee_rate c < FEE_RATE_DENOMINATOR_VALUE" and amount: "amount < 2 ^ 64"
    and p: "pool_well_formed p"
    and ok: "swap_internal U D c p arrays obs ext amount plim z base now = Some (Ok (amounts, p', arrays', obs'))"
  shows "pool_well_formed p'"
proof -
  obtain env v v' where b: "swap_begin U D c p arrays obs ext amount plim z base now = Ok (env, v)"
    and l: "swap_loop U D env v = Some (Ok v')"
    and e: "swap_end U env (sv_state v') obs amount now = Ok (amounts, p', obs')"
    by (rule swap_internal_OkE [OF ok])
  obtain a0 a1 where e': "swap_end U env (sv_state v') obs amount now = Ok ((a0, a1), p', obs')"
    using e by (cases amounts) simp
  have t: "tick_of_price (ps_tick_current p) (ps_sqrt_price_x64 p)" and L: "ps_liquidity p < 2 ^ 128"
    using p by (simp_all add: pool_well_formed_def)
  then have "MIN_SQRT_PRICE_X64 \<le> ps_sqrt_price_x64 p" "ps_sqrt_price_x64 p \<le> MAX_SQRT_PRICE_X64"
    using price_at_bounds [of "ps_tick_current p"] price_at_bounds [of "ps_tick_current p + 1"] by (auto simp: tick_of_price_def)
  note start = uint_crate.swap_begin_ok [OF U b c amount this L]
  note bD = swap_begin_OkD [OF b]
  define P where "P v \<longleftrightarrow> tick_of_price (sw_tick (sv_state v)) (sw_sqrt_price_x64 (sv_state v))
    \<and> sw_fee_growth_global_x64 (sv_state v) < 2 ^ 128" for v :: swap_vars
  have "P v"
    using p by (auto simp: P_def bD(6) t pool_well_formed_def fee_growth_of_def dest: spec [of _ True] spec [of _ False])
  with uint_crate.swap_loop_invariant [OF U start(1), of P, OF _ l start(2)]
  have "P v'" and s: "state_ok env (sv_state v')"
    using uint_crate.swap_loop_body_keeps_tick [OF U start(1)] uint_crate.swap_loop_body_keeps_growth [OF U]
    unfolding P_def by blast+
  obtain infos where pool: "se_pool_state env = p\<lparr>ps_reward_infos := infos\<rparr>" using bD(5) by blast
  have same: "fee_growth_of y (se_pool_state env) = fee_growth_of y p" "total_fees_of y (se_pool_state env) = total_fees_of y p"
    "protocol_fees_of y (se_pool_state env) = protocol_fees_of y p" "fund_fees_of y (se_pool_state env) = fund_fees_of y p"
    "swap_in_of y (se_pool_state env) = swap_in_of y p" "swap_out_of y (se_pool_state env) = swap_out_of y p" for y
    by (simp_all add: pool side_defs)
  note eD = swap_end_OkD [OF e', unfolded bD(3) same] and count = swap_end_counters [OF e, unfolded bD(3) same]
  have typed: "fee_growth_of y p < 2 ^ 128 \<and> total_fees_of y p < 2 ^ 64 \<and> protocol_fees_of y p < 2 ^ 64
      \<and> fund_fees_of y p < 2 ^ 64 \<and> swap_in_of y p < 2 ^ 128 \<and> swap_out_of y p < 2 ^ 128" for y
    using p unfolding pool_well_formed_def by blast
  have in_side: "fee_growth_of z p' < 2 ^ 128" "swap_out_of z p' < 2 ^ 128" "swap_in_of (\<not> z) p' < 2 ^ 128"
    using \<open>P v'\<close> eD(6,12) typed [of z] typed [of "\<not> z"] by (simp_all add: P_def)
  have "fee_growth_of y p' < 2 ^ 128 \<and> total_fees_of y p' < 2 ^ 64 \<and> protocol_fees_of y p' < 2 ^ 64
      \<and> fund_fees_of y p' < 2 ^ 64 \<and> swap_in_of y p' < 2 ^ 128 \<and> swap_out_of y p' < 2 ^ 128" for y
  proof (cases "y = z")
    case True
    then show ?thesis using in_side count typed [of z] by simp
  next
    case False
    then have "y = (\<not> z)" by simp
    then show ?thesis using in_side count(5) eD(12) typed [of "\<not> z"] by simp
  qed
  with \<open>P v'\<close> s show ?thesis
    by (simp add: pool_well_formed_def P_def state_ok_def eD(3,4,5))
qed

section \<open>Properties\<close>

text \<open>
  C4. A swap keeps the pool well-formed: from a pool whose tick is the tick of its price and
  whose counters are within their integer types, a swap that succeeds reaches such a pool, after
  any number of ticks crossed in either direction, with every counter still in its type.
\<close>

theorem swap_keeps_pool_well_formed:
  assumes "uint_crate U" "ac_trade_fee_rate c < FEE_RATE_DENOMINATOR_VALUE" "amount < 2 ^ 64"
    and "pool_well_formed p"
    and "swap_internal U D c p arrays obs ext amount plim z base now = Some (Ok (amounts, p', arrays', obs'))"
  shows "pool_well_formed p'"
  by (rule swap_internal_well_formed [OF assms])

theorem swap_keeps_pool_well_formed_witness:
  "\<exists>p arrays obs. swap_internal uint_ref sample_pda swap_sample_config swap_sample_pool [swap_sample_array]
     swap_sample_observation None 10000 (2 ^ 65) False True 5 = Some (Ok ((9974, 10000), p, arrays, obs))
   \<and> pool_well_formed p"
proof -
  obtain p arrays obs where r: "swap_internal uint_ref sample_pda swap_sample_config swap_sample_pool [swap_sample_array]
     swap_sample_observation None 10000 (2 ^ 65) False True 5 = Some (Ok ((9974, 10000), p, arrays, obs))"
    using sample_swap [of "2 ^ 65" None] by (auto simp: MAX_SQRT_PRICE_X64_def)
  have c: "ac_trade_fee_rate swap_sample_config < FEE_RATE_DENOMINATOR_VALUE" "(10000::nat) < 2 ^ 64"
    by (simp_all add: swap_sample_config_def FEE_RATE_DENOMINATOR_VALUE_def)
  have s: "ps_sqrt_price_x64 swap_sample_pool = price_at 0" "ps_tick_current swap_sample_pool = 0"
    by (simp_all add: price_at_def ratio_of_0 swap_sample_pool_def sample_pool_def default_pool_def)
  have "pool_well_formed swap_sample_pool"
    using price_at_mono [of 0 1]
    by (simp add: pool_well_formed_def tick_of_price_def s MIN_TICK_def MAX_TICK_def side_defs)
      (simp add: swap_sample_pool_def sample_pool_def default_pool_def)
  from swap_keeps_pool_well_formed [OF uint_crate_ref c this r] r show ?thesis
    by blast
qed

end
