(* ===== verification/Pool_Instructions.thy ===== *)
theory Pool_Instructions
  imports Withdraw Oracle
begin

text \<open>
  The instructions on a pool besides positions and swaps: its creation
  (\<open>instructions/create_pool.rs\<close>), its rewards (\<open>initialize_reward.rs\<close>, \<open>set_reward_params.rs\<close>,
  \<open>update_reward_info.rs\<close>, \<open>collect_remaining_rewards.rs\<close>), and what the administrator does
  (\<open>instructions/admin\<close>: the collection of fees, the status, the owner of the rewards).
\<close>

section \<open>Creating a pool\<close>

definition OBSERVATION_LEN :: usize where
  "OBSERVATION_LEN = 4 + 16 + 16 + 16"

definition OBSERVATION_STATE_LEN :: usize where
  "OBSERVATION_STATE_LEN = 8 + 1 + 32 + OBSERVATION_LEN * OBSERVATION_NUM + 16 * 5"

text \<open>The account of the observations exists before; \<open>data_len\<close> is the length of its data.\<close>

definition observation_load_init_mut ::
  "usize \<Rightarrow> observation_state accounts \<Rightarrow> pubkey \<Rightarrow> (observation_state \<times> observation_state accounts) res" where
  "observation_load_init_mut data_len accs k =
     (if ai_owner (accs k) \<noteq> program_id then Err AccountOwnedByWrongProgram
      else if \<not> ai_is_writable (accs k) then Err AccountNotMutable
      else
        rbind (require (data_len = OBSERVATION_STATE_LEN) RequireEqViolated) (\<lambda>_.
        case ai_data (accs k) of
          Short_Data \<Rightarrow> Panic
        | Blank_Data x \<Rightarrow> Ok (x, store_account k x accs)
        | Other_Data \<Rightarrow> Err AccountDiscriminatorAlreadySet
        | Typed_Data x \<Rightarrow> Err AccountDiscriminatorAlreadySet))"

definition observation_account_initialize ::
  "usize \<Rightarrow> observation_state accounts \<Rightarrow> pubkey \<Rightarrow> pubkey \<Rightarrow> observation_state accounts res" where
  "observation_account_initialize data_len accs k pool_id =
     rbind (observation_load_init_mut data_len accs k) (\<lambda>(observation_state, accs).
     rbind (observation_initialize observation_state pool_id) (\<lambda>observation_state.
     Ok (store_account k observation_state accs)))"

text \<open>
  Anchor creates the accounts of the pool, of its vaults and of its extension; the first two
  constraints are on the mints.  The result is the pool, its extension and the observations.
\<close>

definition create_pool ::
  "uint_lib \<Rightarrow> 's token_lib \<Rightarrow> pubkey \<Rightarrow> pubkey \<Rightarrow> amm_config \<Rightarrow> pubkey \<Rightarrow> u8 \<Rightarrow> mint_account \<Rightarrow> mint_account \<Rightarrow>
   pubkey \<Rightarrow> pubkey \<Rightarrow> pubkey \<Rightarrow> pubkey \<Rightarrow> pubkey \<Rightarrow> usize \<Rightarrow> u128 \<Rightarrow> u64 \<Rightarrow> observation_state accounts \<Rightarrow>
   (pool_state \<times> bitmap_extension \<times> observation_state accounts) res" where
  "create_pool U T pool_creator amm_config_key amm_config pool_id bump token_mint_0 token_mint_1
      token_vault_0 token_vault_1 token_program_0 token_program_1 observation_key data_len
      sqrt_price_x64 open_time accs =
     rbind (require (mint_key token_mint_0 < mint_key token_mint_1) ConstraintRaw) (\<lambda>_.
     rbind (require (mint_program token_mint_0 = token_program_0) ConstraintMintTokenProgram) (\<lambda>_.
     rbind (require (mint_program token_mint_1 = token_program_1) ConstraintMintTokenProgram) (\<lambda>_.
     rbind (unwrap_result (is_supported_mint T token_mint_0)) (\<lambda>supported_0.
     rbind (if supported_0 then unwrap_result (is_supported_mint T token_mint_1) else Ok False) (\<lambda>supported.
     rbind (require supported (Code NotSupportMint)) (\<lambda>_.
     rbind (get_tick_at_sqrt_price U sqrt_price_x64) (\<lambda>tick.
     rbind (observation_account_initialize data_len accs observation_key pool_id) (\<lambda>accs.
     rbind (pool_initialize default_pool bump sqrt_price_x64 open_time tick pool_creator
              token_vault_0 token_vault_1 amm_config_key amm_config (mint.truncate token_mint_0)
              (mint.truncate token_mint_1) observation_key) (\<lambda>pool_state.
     Ok (pool_state, bitmap_extension_initialize default_bitmap_extension pool_id, accs))))))))))"

section \<open>Status and owner\<close>

definition update_pool_status :: "pubkey \<Rightarrow> u8 \<Rightarrow> pool_state \<Rightarrow> pool_state res" where
  "update_pool_status authority status pool_state =
     rbind (require (authority = admin_id) ConstraintAddress) (\<lambda>_.
     rbind (require (255 \<ge> status) RequireGteViolated) (\<lambda>_.
     Ok (set_status pool_state status)))"

definition transfer_reward_owner :: "pubkey \<Rightarrow> pubkey \<Rightarrow> pool_state \<Rightarrow> pool_state res" where
  "transfer_reward_owner authority new_owner pool_state =
     rbind (require (authority = admin_id) (Code NotApproved)) (\<lambda>_.
     Ok (pool_state\<lparr>ps_reward_infos := map (\<lambda>r. r\<lparr>ri_authority := new_owner\<rparr>) (ps_reward_infos pool_state),
                    ps_owner := new_owner\<rparr>))"

section \<open>The fees of the protocol and of the fund\<close>

text \<open>The constraints of both instructions after the one on the signer.\<close>

definition check_collect_accounts :: "withdraw_accounts \<Rightarrow> mint_account \<Rightarrow> mint_account \<Rightarrow> pubkey \<Rightarrow> pool_state \<Rightarrow> unit res" where
  "check_collect_accounts W vault_0_mint vault_1_mint amm_config_key pool_state =
     rbind (require (amm_config_key = ps_amm_config pool_state) ConstraintAddress) (\<lambda>_.
     rbind (require (tk_key (wa_token_vault_0 W) = ps_token_vault_0 pool_state) ConstraintRaw) (\<lambda>_.
     rbind (require (tk_key (wa_token_vault_1 W) = ps_token_vault_1 pool_state) ConstraintRaw) (\<lambda>_.
     rbind (require (mint_key vault_0_mint = tk_mint (wa_token_vault_0 W)) ConstraintAddress) (\<lambda>_.
     require (mint_key vault_1_mint = tk_mint (wa_token_vault_1 W)) ConstraintAddress))))"

text \<open>What both instructions do after the amounts are taken off the pool's account of its fees.\<close>

definition pay_collected ::
  "'s token_lib \<Rightarrow> withdraw_accounts \<Rightarrow> pubkey \<Rightarrow> pubkey \<Rightarrow> mint_account \<Rightarrow> mint_account \<Rightarrow> u64 \<Rightarrow> u64 \<Rightarrow>
   pool_state \<Rightarrow> 's \<Rightarrow> (pool_state \<times> 's) res" where
  "pay_collected T W pool_state_loader token_program_2022 vault_0_mint vault_1_mint amount_0 amount_1
      pool_state s =
     rbind (transfer_from_pool_vault_to_user T pool_state_loader (wa_token_vault_0 W)
              (wa_recipient_token_account_0 W) (Some vault_0_mint) (wa_token_program W)
              (Some token_program_2022) amount_0 s) (\<lambda>s.
     rbind (transfer_from_pool_vault_to_user T pool_state_loader (wa_token_vault_1 W)
              (wa_recipient_token_account_1 W) (Some vault_1_mint) (wa_token_program W)
              (Some token_program_2022) amount_1 s) (\<lambda>s.
     rbind (check_unclaimed_fees_and_vault T (wa_token_vault_0 W) (wa_token_vault_1 W) s pool_state)
       (\<lambda>pool_state. Ok (pool_state, s))))"

definition collect_protocol_fee ::
  "'s token_lib \<Rightarrow> withdraw_accounts \<Rightarrow> pubkey \<Rightarrow> pubkey \<Rightarrow> amm_config \<Rightarrow> pubkey \<Rightarrow> pubkey \<Rightarrow> mint_account \<Rightarrow>
   mint_account \<Rightarrow> u64 \<Rightarrow> u64 \<Rightarrow> pool_state \<Rightarrow> 's \<Rightarrow> (pool_state \<times> 's) res" where
  "collect_protocol_fee T W owner amm_config_key amm_config pool_state_loader token_program_2022
      vault_0_mint vault_1_mint amount_0_requested amount_1_requested pool_state s =
     rbind (require (owner = ac_owner amm_config \<or> owner = admin_id) (Code NotApproved)) (\<lambda>_.
     rbind (check_collect_accounts W vault_0_mint vault_1_mint amm_config_key pool_state) (\<lambda>_.
     let amount_0 = min amount_0_requested (ps_protocol_fees_token_0 pool_state);
         amount_1 = min amount_1_requested (ps_protocol_fees_token_1 pool_state) in
     rbind (unwrap (checked_sub (ps_protocol_fees_token_0 pool_state) amount_0)) (\<lambda>rest_0.
     rbind (unwrap (checked_sub (ps_protocol_fees_token_1 pool_state) amount_1)) (\<lambda>rest_1.
     pay_collected T W pool_state_loader token_program_2022 vault_0_mint vault_1_mint amount_0 amount_1
       (pool_state\<lparr>ps_protocol_fees_token_0 := rest_0, ps_protocol_fees_token_1 := rest_1\<rparr>) s))))"

definition collect_fund_fee ::
  "'s token_lib \<Rightarrow> withdraw_accounts \<Rightarrow> pubkey \<Rightarrow> pubkey \<Rightarrow> amm_config \<Rightarrow> pubkey \<Rightarrow> pubkey \<Rightarrow> mint_account \<Rightarrow>
   mint_account \<Rightarrow> u64 \<Rightarrow> u64 \<Rightarrow> pool_state \<Rightarrow> 's \<Rightarrow> (pool_state \<times> 's) res" where
  "collect_fund_fee T W owner amm_config_key amm_config pool_state_loader token_program_2022
      vault_0_mint vault_1_mint amount_0_requested amount_1_requested pool_state s =
     rbind (require (owner = ac_fund_owner amm_config \<or> owner = admin_id) (Code NotApproved)) (\<lambda>_.
     rbind (check_collect_accounts W vault_0_mint vault_1_mint amm_config_key pool_state) (\<lambda>_.
     let amount_0 = min amount_0_requested (ps_fund_fees_token_0 pool_state);
         amount_1 = min amount_1_requested (ps_fund_fees_token_1 pool_state) in
     rbind (unwrap (checked_sub (ps_fund_fees_token_0 pool_state) amount_0)) (\<lambda>rest_0.
     rbind (unwrap (checked_sub (ps_fund_fees_token_1 pool_state) amount_1)) (\<lambda>rest_1.
     pay_collected T W pool_state_loader token_program_2022 vault_0_mint vault_1_mint amount_0 amount_1
       (pool_state\<lparr>ps_fund_fees_token_0 := rest_0, ps_fund_fees_token_1 := rest_1\<rparr>) s))))"

end
