(* ===== verification/Reward_Instructions.thy ===== *)
theory Reward_Instructions
  imports Pool_Instructions
begin

text \<open>
  The instructions on the rewards of a pool: \<open>initialize_reward.rs\<close>, \<open>set_reward_params.rs\<close>,
  \<open>update_reward_info.rs\<close> and \<open>collect_remaining_rewards.rs\<close> of \<open>instructions\<close>.
\<close>

section \<open>Starting a reward\<close>

record initialize_reward_param =
  ip_open_time :: u64
  ip_end_time :: u64
  ip_emissions_per_second_x64 :: u128

text \<open>A period between the two limits.\<close>

definition initialize_reward_check :: "initialize_reward_param \<Rightarrow> u64 \<Rightarrow> unit res" where
  "initialize_reward_check self curr_timestamp =
     (if ip_open_time self \<ge> ip_end_time self \<or> ip_open_time self < curr_timestamp
         \<or> ip_end_time self < curr_timestamp \<or> ip_emissions_per_second_x64 self = 0
      then Err (Code InvalidRewardInitParam)
      else
        rbind (unwrap (checked_sub (ip_end_time self) (ip_open_time self))) (\<lambda>time_delta.
        if time_delta < MIN_REWARD_PERIOD \<or> time_delta > MAX_REWARD_PERIOD
        then Err (Code InvalidRewardPeriod) else Ok ()))"

text \<open>The products of a time and an emission rate, which the code computes in 256 bits.\<close>

definition emission_ceil :: "uint_lib \<Rightarrow> u64 \<Rightarrow> u128 \<Rightarrow> u64 res" where
  "emission_ceil U time emissions_per_second_x64 =
     rbind (mul_div_ceil_u256 U time emissions_per_second_x64 Q64) (\<lambda>m.
     rbind (unwrap m) (\<lambda>amount. u_as_u64 U amount))"

definition emission_floor :: "uint_lib \<Rightarrow> u64 \<Rightarrow> u128 \<Rightarrow> u64 res" where
  "emission_floor U time emissions_per_second_x64 =
     rbind (mul_div_floor_u256 U time emissions_per_second_x64 Q64) (\<lambda>m.
     rbind (unwrap m) (\<lambda>amount. u_as_u64 U amount))"

text \<open>
  The vault of the reward is created by Anchor; the constraints are the mint of the funder's
  account and the address of the configuration.
\<close>

definition initialize_reward ::
  "uint_lib \<Rightarrow> 's token_lib \<Rightarrow> u64 \<Rightarrow> pubkey \<Rightarrow> token_account \<Rightarrow> pubkey \<Rightarrow> operation_state \<Rightarrow> mint_account \<Rightarrow>
   token_account \<Rightarrow> pubkey \<Rightarrow> initialize_reward_param \<Rightarrow> pool_state \<Rightarrow> 's \<Rightarrow> (pool_state \<times> 's) res" where
  "initialize_reward U T timestamp reward_funder funder_token_account amm_config_key operation_state
      reward_token_mint reward_token_vault reward_token_program param pool_state s =
     rbind (require (tk_mint funder_token_account = mint_key reward_token_mint) ConstraintTokenMint) (\<lambda>_.
     rbind (require (amm_config_key = ps_amm_config pool_state) ConstraintAddress) (\<lambda>_.
     rbind (unwrap_result (is_supported_mint T reward_token_mint)) (\<lambda>supported.
     rbind (require supported (Code NotSupportMint)) (\<lambda>_.
     rbind (require (reward_funder = admin_id \<or> reward_funder = ps_owner pool_state
              \<or> validate_operation_owner operation_state reward_funder) (Code NotApproved)) (\<lambda>_.
     rbind (initialize_reward_check param timestamp) (\<lambda>_.
     rbind (chk_sub (ip_end_time param) (ip_open_time param)) (\<lambda>period.
     rbind (emission_ceil U period (ip_emissions_per_second_x64 param)) (\<lambda>reward_amount.
     rbind (unwrap_result (get_transfer_inverse_fee T reward_token_mint reward_amount)) (\<lambda>fee.
     rbind (unwrap (checked_add 64 reward_amount fee)) (\<lambda>reward_amount_with_transfer_fee.
     rbind (require (tk_amount funder_token_account \<ge> reward_amount_with_transfer_fee)
              RequireGteViolated) (\<lambda>_.
     rbind (pool_initialize_reward pool_state (ip_open_time param) (ip_end_time param)
              (ip_emissions_per_second_x64 param) (mint_key reward_token_mint)
              (tk_key reward_token_vault) reward_funder operation_state) (\<lambda>pool_state.
     rbind (transfer_from_user_to_pool_vault T reward_funder funder_token_account reward_token_vault
              (Some reward_token_mint) reward_token_program (Some reward_token_program)
              reward_amount_with_transfer_fee s) (\<lambda>s.
     Ok (pool_state, s))))))))))))))"

section \<open>Changing a reward\<close>

text \<open>The emission is over: a new period starts.\<close>

definition restart_emission :: "u128 \<Rightarrow> u64 \<Rightarrow> u64 \<Rightarrow> reward_info \<Rightarrow> reward_info" where
  "restart_emission emissions_per_second_x64 open_time end_time reward_info =
     reward_info\<lparr>ri_open_time := open_time, ri_last_update_time := open_time,
       ri_end_time := end_time, ri_emissions_per_second_x64 := emissions_per_second_x64\<rparr>"

definition normal_update ::
  "uint_lib \<Rightarrow> reward_info \<Rightarrow> u64 \<Rightarrow> u128 \<Rightarrow> u64 \<Rightarrow> u64 \<Rightarrow> (u64 \<times> reward_info) res" where
  "normal_update U reward_info current_timestamp emissions_per_second_x64 open_time end_time =
     (if ri_last_update_time reward_info = ri_end_time reward_info then
        rbind (unwrap (checked_sub end_time open_time)) (\<lambda>time_delta.
        if time_delta < MIN_REWARD_PERIOD \<or> time_delta > MAX_REWARD_PERIOD
        then Err (Code InvalidRewardPeriod)
        else
          rbind (emission_ceil U time_delta emissions_per_second_x64) (\<lambda>reward_amount.
          Ok (reward_amount, restart_emission emissions_per_second_x64 open_time end_time reward_info)))
      else
        rbind (unwrap (checked_sub (ri_end_time reward_info) current_timestamp)) (\<lambda>left_reward_time.
        rbind (unwrap (checked_sub end_time (ri_end_time reward_info))) (\<lambda>extend_period.
        if extend_period < MIN_REWARD_PERIOD \<or> extend_period > MAX_REWARD_PERIOD
        then Err (Code NotApproveUpdateRewardEmissiones)
        else
          rbind (if emissions_per_second_x64 < ri_emissions_per_second_x64 reward_info
                 then require (INCREASE_EMISSIONES_PERIOD > left_reward_time) RequireGtViolated
                 else Ok ()) (\<lambda>_.
          let emission_diff_x64 =
                saturating_sub emissions_per_second_x64 (ri_emissions_per_second_x64 reward_info) in
          rbind (emission_floor U left_reward_time emission_diff_x64) (\<lambda>reward_amount.
          let reward_info = reward_info\<lparr>ri_emissions_per_second_x64 := emissions_per_second_x64\<rparr> in
          if extend_period > 0 then
            rbind (emission_floor U extend_period (ri_emissions_per_second_x64 reward_info))
              (\<lambda>reward_amount_diff.
            rbind (unwrap (checked_add 64 reward_amount reward_amount_diff)) (\<lambda>reward_amount.
            Ok (reward_amount, reward_info\<lparr>ri_end_time := end_time\<rparr>)))
          else Ok (reward_amount, reward_info))))))"

definition admin_update ::
  "uint_lib \<Rightarrow> reward_info \<Rightarrow> u64 \<Rightarrow> u128 \<Rightarrow> u64 \<Rightarrow> u64 \<Rightarrow> (u64 \<times> reward_info) res" where
  "admin_update U reward_info current_timestamp emissions_per_second_x64 open_time end_time =
     (if ri_last_update_time reward_info = ri_end_time reward_info
         \<or> ri_open_time reward_info > current_timestamp then
        rbind (unwrap (checked_sub end_time open_time)) (\<lambda>time_delta.
        if time_delta = 0 then Err (Code InvalidRewardPeriod)
        else
          rbind (emission_ceil U time_delta emissions_per_second_x64) (\<lambda>reward_amount.
          Ok (reward_amount, restart_emission emissions_per_second_x64 open_time end_time reward_info)))
      else
        rbind (unwrap (checked_sub (ri_end_time reward_info) current_timestamp)) (\<lambda>left_reward_time.
        let extend_period = saturating_sub end_time (ri_end_time reward_info);
            emission_diff_x64 =
              saturating_sub emissions_per_second_x64 (ri_emissions_per_second_x64 reward_info) in
        rbind (emission_floor U left_reward_time emission_diff_x64) (\<lambda>reward_amount.
        let reward_info = reward_info\<lparr>ri_emissions_per_second_x64 := emissions_per_second_x64\<rparr> in
        rbind (emission_floor U extend_period (ri_emissions_per_second_x64 reward_info))
          (\<lambda>reward_amount_diff.
        rbind (unwrap (checked_add 64 reward_amount reward_amount_diff)) (\<lambda>reward_amount.
        Ok (reward_amount, reward_info\<lparr>ri_end_time := end_time\<rparr>))))))"

text \<open>\<open>u64::try_from(clock.unix_timestamp).unwrap()\<close>.\<close>

definition timestamp_u64 :: "int \<Rightarrow> u64 res" where
  "timestamp_u64 unix_timestamp = (if unix_timestamp < 0 then Panic else Ok (nat unix_timestamp))"

text \<open>The additional tokens of a changed reward go to its vault.\<close>

definition fund_reward ::
  "'s token_lib \<Rightarrow> pubkey \<Rightarrow> remaining_account list \<Rightarrow> pubkey \<Rightarrow> pubkey \<Rightarrow> reward_info \<Rightarrow> u64 \<Rightarrow> 's \<Rightarrow> 's res"
where
  "fund_reward T authority remaining_accounts token_program token_program_2022 reward_info reward_amount s =
     rbind (next_account remaining_accounts) (\<lambda>(a, accounts).
     rbind (ra_token_account a) (\<lambda>reward_token_vault.
     rbind (next_account accounts) (\<lambda>(a, accounts).
     rbind (ra_token_account a) (\<lambda>authority_token_account.
     rbind (next_account accounts) (\<lambda>(a, accounts).
     rbind (ra_mint a) (\<lambda>reward_vault_mint.
     rbind (require (tk_mint reward_token_vault = tk_mint authority_token_account) RequireKeysEqViolated) (\<lambda>_.
     rbind (require (tk_key reward_token_vault = ri_token_vault reward_info) RequireKeysEqViolated) (\<lambda>_.
     transfer_from_user_to_pool_vault T authority authority_token_account reward_token_vault
       (Some reward_vault_mint) token_program (Some token_program_2022) reward_amount s))))))))"

definition set_reward_params ::
  "uint_lib \<Rightarrow> 's token_lib \<Rightarrow> int \<Rightarrow> pubkey \<Rightarrow> pubkey \<Rightarrow> operation_state \<Rightarrow> pubkey \<Rightarrow> pubkey \<Rightarrow>
   remaining_account list \<Rightarrow> u8 \<Rightarrow> u128 \<Rightarrow> u64 \<Rightarrow> u64 \<Rightarrow> pool_state \<Rightarrow> 's \<Rightarrow> (pool_state \<times> 's) res" where
  "set_reward_params U T unix_timestamp authority amm_config_key operation_state token_program
      token_program_2022 remaining_accounts reward_index emissions_per_second_x64 open_time end_time
      pool_state s =
     rbind (require (amm_config_key = ps_amm_config pool_state) ConstraintAddress) (\<lambda>_.
     rbind (assertion (reward_index < REWARD_NUM)) (\<lambda>_.
     rbind (require (end_time > open_time) RequireGtViolated) (\<lambda>_.
     rbind (require (emissions_per_second_x64 > 0) RequireGtViolated) (\<lambda>_.
     let admin_keys = os_operation_owners operation_state;
         admin_operator = (authority \<in> set admin_keys \<and> authority \<noteq> default_pubkey) in
     rbind (timestamp_u64 unix_timestamp) (\<lambda>current_timestamp.
     rbind (require (open_time > current_timestamp) RequireGtViolated) (\<lambda>_.
     rbind (if \<not> admin_operator then require (authority = ps_owner pool_state) RequireKeysEqViolated
            else Ok ()) (\<lambda>_.
     rbind (update_reward_infos U pool_state current_timestamp) (\<lambda>(_, pool_state).
     let reward_info = ps_reward_infos pool_state ! reward_index in
     rbind (require (reward_initialized reward_info) (Code UnInitializedRewardInfo)) (\<lambda>_.
     rbind (if admin_operator then
              unwrap_result (admin_update U reward_info current_timestamp emissions_per_second_x64
                open_time end_time)
            else
              rbind (require (current_timestamp > ri_open_time reward_info) (Code NotApproved)) (\<lambda>_.
              unwrap_result (normal_update U reward_info current_timestamp emissions_per_second_x64
                open_time end_time))) (\<lambda>(reward_amount, reward_info).
     let pool_state = pool_state\<lparr>ps_reward_infos :=
           (ps_reward_infos pool_state)[reward_index := reward_info]\<rparr> in
     rbind (if reward_amount > 0 then
              fund_reward T authority remaining_accounts token_program token_program_2022 reward_info
                reward_amount s
            else Ok s) (\<lambda>s.
     Ok (pool_state, s))))))))))))"

section \<open>Updating and emptying\<close>

definition update_reward_infos_instruction :: "uint_lib \<Rightarrow> int \<Rightarrow> pool_state \<Rightarrow> pool_state res" where
  "update_reward_infos_instruction U unix_timestamp pool_state =
     rbind (timestamp_u64 unix_timestamp) (\<lambda>timestamp.
     rbind (update_reward_infos U pool_state timestamp) (\<lambda>(_, pool_state). Ok pool_state))"

definition get_remaining_reward_amount ::
  "uint_lib \<Rightarrow> int \<Rightarrow> token_account \<Rightarrow> pubkey \<Rightarrow> u8 \<Rightarrow> pool_state \<Rightarrow> (u64 \<times> pool_state) res" where
  "get_remaining_reward_amount U unix_timestamp reward_token_vault reward_funder reward_index pool_state =
     rbind (timestamp_u64 unix_timestamp) (\<lambda>current_timestamp.
     rbind (update_reward_infos U pool_state current_timestamp) (\<lambda>(_, pool_state).
     rbind (assertion (reward_index < length (ps_reward_infos pool_state))) (\<lambda>_.
     let reward_info = ps_reward_infos pool_state ! reward_index in
     rbind (require (reward_initialized reward_info) (Code UnInitializedRewardInfo)) (\<lambda>_.
     rbind (require (ri_last_update_time reward_info = ri_end_time reward_info) (Code NotApproved)) (\<lambda>_.
     rbind (require (reward_funder = ps_owner pool_state) RequireKeysEqViolated) (\<lambda>_.
     rbind (require (tk_key reward_token_vault = ri_token_vault reward_info) RequireKeysEqViolated) (\<lambda>_.
     rbind (unwrap (checked_sub (ri_reward_total_emissioned reward_info) (ri_reward_claimed reward_info)))
       (\<lambda>unclaimed.
     rbind (unwrap (checked_sub (tk_amount reward_token_vault) unclaimed)) (\<lambda>amount_remaining.
     Ok (amount_remaining, pool_state))))))))))"

definition collect_remaining_rewards ::
  "uint_lib \<Rightarrow> 's token_lib \<Rightarrow> int \<Rightarrow> pubkey \<Rightarrow> token_account \<Rightarrow> pubkey \<Rightarrow> token_account \<Rightarrow> mint_account \<Rightarrow>
   pubkey \<Rightarrow> pubkey \<Rightarrow> u8 \<Rightarrow> pool_state \<Rightarrow> 's \<Rightarrow> (pool_state \<times> 's) res" where
  "collect_remaining_rewards U T unix_timestamp reward_funder funder_token_account pool_state_loader
      reward_token_vault reward_vault_mint token_program token_program_2022 reward_index pool_state s =
     rbind (require (mint_key reward_vault_mint = tk_mint reward_token_vault) ConstraintAddress) (\<lambda>_.
     rbind (require (token_program = tl_token_id T) ConstraintAddress) (\<lambda>_.
     rbind (get_remaining_reward_amount U unix_timestamp reward_token_vault reward_funder reward_index
              pool_state) (\<lambda>(amount_remaining, pool_state).
     rbind (transfer_from_pool_vault_to_user T pool_state_loader reward_token_vault funder_token_account
              (Some reward_vault_mint) token_program (Some token_program_2022) amount_remaining s) (\<lambda>s.
     Ok (pool_state, s)))))"

end
