(* ===== verification/Pool_Lifecycle.thy ===== *)
theory Pool_Lifecycle
  imports Position_Properties Swap_Properties Swap_Invariant Reward_Instructions
begin

text \<open>
  The life of a pool: what every instruction of the program keeps of it, and what therefore holds
  of every pool after any sequence of instructions, in any order and by any callers.
\<close>

section \<open>What the instructions other than swaps keep\<close>

definition claimed_fees_of :: "bool \<Rightarrow> pool_state \<Rightarrow> u64" where
  "claimed_fees_of token_0 p = (if token_0 then ps_total_fees_claimed_token_0 p else ps_total_fees_claimed_token_1 p)"

text \<open>No more of a reward is claimed than was emitted.\<close>

definition reward_covered :: "reward_info \<Rightarrow> bool" where
  "reward_covered r \<longleftrightarrow> ri_reward_claimed r \<le> ri_reward_total_emissioned r"

definition rewards_covered :: "pool_state \<Rightarrow> bool" where
  "rewards_covered p \<longleftrightarrow> length (ps_reward_infos p) = REWARD_NUM \<and> (\<forall>r \<in> set (ps_reward_infos p). reward_covered r)"

text \<open>What is fixed when the pool is created.\<close>

definition pool_identity :: "pool_state \<Rightarrow> pubkey \<times> pubkey \<times> pubkey \<times> pubkey \<times> pubkey \<times> pubkey \<times> u16" where
  "pool_identity p = (ps_amm_config p, ps_token_mint_0 p, ps_token_mint_1 p, ps_token_vault_0 p, ps_token_vault_1 p,
     ps_observation_key p, ps_tick_spacing p)"

text \<open>
  Price, tick, growths, volumes and collected fees stay; fees of protocol and fund are only taken
  out; the liquidity stays a \<open>u128\<close>; claims stay covered.
\<close>

definition side_kept :: "bool \<Rightarrow> pool_state \<Rightarrow> pool_state \<Rightarrow> bool" where
  "side_kept z p q \<longleftrightarrow> fee_growth_of z q = fee_growth_of z p \<and> total_fees_of z q = total_fees_of z p
     \<and> protocol_fees_of z q \<le> protocol_fees_of z p \<and> fund_fees_of z q \<le> fund_fees_of z p
     \<and> swap_in_of z q = swap_in_of z p \<and> swap_out_of z q = swap_out_of z p
     \<and> (claimed_fees_of z p \<le> total_fees_of z p \<longrightarrow> claimed_fees_of z q \<le> total_fees_of z q)"

definition pool_kept :: "pool_state \<Rightarrow> pool_state \<Rightarrow> bool" where
  "pool_kept p q \<longleftrightarrow> pool_identity q = pool_identity p
     \<and> ps_tick_current q = ps_tick_current p \<and> ps_sqrt_price_x64 q = ps_sqrt_price_x64 p
     \<and> (ps_liquidity p < 2 ^ 128 \<longrightarrow> ps_liquidity q < 2 ^ 128)
     \<and> side_kept True p q \<and> side_kept False p q \<and> (rewards_covered p \<longrightarrow> rewards_covered q)"

lemmas kept_defs = pool_kept_def pool_identity_def side_kept_def side_defs claimed_fees_of_def rewards_covered_def

lemma side_kept_trans: "side_kept z p q \<Longrightarrow> side_kept z q r \<Longrightarrow> side_kept z p r"
  unfolding side_kept_def by auto

lemma kept_refl [simp]: "pool_kept p p"
  by (simp add: pool_kept_def side_kept_def)

lemma kept_trans [trans]: "pool_kept p q \<Longrightarrow> pool_kept q r \<Longrightarrow> pool_kept p r"
  unfolding pool_kept_def using side_kept_trans by auto

lemma kept_map: "differs_in_map p q \<Longrightarrow> pool_kept p q"
  unfolding differs_in_map_def by (cases p; cases q) (simp add: kept_defs)

lemma kept_status: "pool_kept p (p\<lparr>ps_status := x\<rparr>)" "pool_kept p (set_status p x)" "pool_kept p (set_status_by_bit p b f)"
  by (simp_all add: kept_defs set_status_def set_status_by_bit_def Let_def)

text \<open>New rewards that are covered if the old ones are, with a new liquidity.\<close>

lemma kept_rewards:
  assumes "length rs = length (ps_reward_infos p)"
    and "\<forall>r \<in> set (ps_reward_infos p). reward_covered r \<Longrightarrow> \<forall>r \<in> set rs. reward_covered r"
  shows "pool_kept p (p\<lparr>ps_reward_infos := rs\<rparr>)"
  using assms by (simp add: kept_defs)

lemma update_reward_infos_loop_covered:
  "update_reward_infos_loop U L t rs = Ok rs' \<Longrightarrow>
   length rs' = length rs \<and> ((\<forall>r \<in> set rs. reward_covered r) \<longrightarrow> (\<forall>r \<in> set rs'. reward_covered r))"
proof (induction rs arbitrary: rs')
  case (Cons r rs)
  then obtain r' rs1 where r: "update_reward_info U L t r = Ok r'" and rs: "update_reward_infos_loop U L t rs = Ok rs1"
    and rs': "rs' = r' # rs1"
    by (auto simp: res_inv)
  have "reward_covered r \<Longrightarrow> reward_covered r'"
    using r by (auto simp: update_reward_info_def accrue_reward_def reward_covered_def Let_def res_inv split: if_splits)
  with Cons.IH [OF rs] show ?case by (simp add: rs')
qed simp

lemma update_reward_infos_kept: "update_reward_infos U p t = Ok (rs, q) \<Longrightarrow> pool_kept p q"
  by (auto simp: update_reward_infos_def res_inv dest!: update_reward_infos_loop_covered intro!: kept_rewards)

text \<open>A change of the liquidity, with the rewards up to date before it.\<close>

lemma update_position_kept:
  "update_position U d p pos lo up t = Ok (fl, fu, q, r) \<Longrightarrow> pool_kept p q"
  by (cases "d = 0") (auto simp: update_position_def Let_def res_inv split: prod.splits dest!: update_reward_infos_kept)

lemma add_delta_kept: "add_delta (ps_liquidity p) d = Ok l \<Longrightarrow> pool_kept p (p\<lparr>ps_liquidity := l\<rparr>)"
  by (cases "ps_liquidity p < 2 ^ 128") (auto simp: kept_defs add_delta_eq_Ok_iff)

lemma modify_position_kept:
  assumes "modify_position U d p pos lo up t = Ok (a, p', r)"
  shows "pool_kept p p'"
proof -
  obtain fl fu q r' where u: "update_position U d p pos lo up t = Ok (fl, fu, q, r')"
    and p': "p' = q \<or> (\<exists>l. add_delta (ps_liquidity q) d = Ok l \<and> p' = q\<lparr>ps_liquidity := l\<rparr>)"
    using assms by (auto simp: modify_position_def Let_def res_inv split: if_splits prod.splits)
  show ?thesis
    using p' add_delta_kept kept_trans [OF update_position_kept [OF u]] update_position_kept [OF u] by blast
qed

section \<open>Positions\<close>

lemma add_to_range_kept:
  assumes "add_to_range U D now lo up L i j st = Ok (amounts, st')"
  shows "pool_kept (dp_pool st) (dp_pool st')"
proof -
  obtain T1 T2 a fl fu p pos T1' T2' s1 s2 s3 where
    m: "modify_position U (int L) (dp_pool st) (dp_position st) T1 T2 now = Ok (a, p, pos, T1', T2')"
    and s1: "store_tick account_load_methods lo i T1' (st\<lparr>dp_pool := p, dp_position := pos\<rparr>) = Ok s1"
    and s2: "store_tick account_load_methods up j T2' s1 = Ok s2"
    and s3: "(if fl then count_new_tick account_load_methods D lo s2 else Ok s2) = Ok s3"
    and s4: "(if fu then count_new_tick account_load_methods D up s3 else Ok s3) = Ok st'"
    using assms by (auto simp: add_to_range_def Let_def res_inv i128_of_u128_eq_Ok)
  have "pool_kept (dp_pool s2) (dp_pool s3)" "pool_kept (dp_pool s3) (dp_pool st')"
    using s3 s4 count_tick_OkD(1) [OF disjI1] kept_map by (force split: if_splits)+
  then show ?thesis
    using modify_position_kept [OF m] store_tick_OkD(1) [OF s1] store_tick_OkD(1) [OF s2] kept_trans by simp
qed

lemma add_liquidity_kept:
  "add_liquidity U T D now A lo up L m0 m1 i j base st = Ok (amounts, L', st') \<Longrightarrow> pool_kept (dp_pool st) (dp_pool st')"
  by (auto simp: add_liquidity_def res_inv split: if_splits dest!: add_to_range_kept)

lemma increase_liquidity_kept:
  assumes "increase_liquidity U T D now A loader personal lo up rem L m0 m1 base st = Ok (personal', st')"
  shows "pool_kept (dp_pool st) (dp_pool st')"
proof -
  obtain ext lower upper L' amounts where
    "add_liquidity U T D now A lower upper L m0 m1 (pe_tick_lower_index personal) (pe_tick_upper_index personal) base
       (st\<lparr>dp_extension := ext\<rparr>) = Ok (amounts, L', st')"
    by (rule increase_liquidity_OkE [OF assms])
  from add_liquidity_kept [OF this] show ?thesis by simp
qed

lemma open_position_kept:
  assumes "open_position U T S D now A N loader ta_lo ta_up personal rem b1 b2 L m0 m1 i j si sj meta base st = Ok (personal', st')"
  shows "pool_kept (dp_pool st) (dp_pool st')"
  using assms unfolding open_position_def Let_def
  by (auto simp: res_inv split: if_splits dest!: add_liquidity_kept)

lemma burn_liquidity_kept:
  assumes "burn_liquidity U AL D now lo up L st = Ok (amounts, st')"
  shows "pool_kept (dp_pool st) (dp_pool st')"
proof -
  obtain T1 T2 a fl fu p pos T1' T2' s1 s2 s3 i j where
    m: "modify_position U (- int L) (dp_pool st) (dp_position st) T1 T2 now = Ok (a, p, pos, T1', T2')"
    and s1: "store_tick AL lo i T1' (st\<lparr>dp_pool := p, dp_position := pos\<rparr>) = Ok s1"
    and s2: "store_tick AL up j T2' s1 = Ok s2"
    and s3: "(if fl then count_cleared_tick AL D lo s2 else Ok s2) = Ok s3"
    and s4: "(if fu then count_cleared_tick AL D up s3 else Ok s3) = Ok st'"
    using assms by (auto simp: burn_liquidity_def Let_def res_inv i128_of_u128_eq_Ok)
  have "pool_kept (dp_pool s2) (dp_pool s3)" "pool_kept (dp_pool s3) (dp_pool st')"
    using s3 s4 count_tick_OkD(1) [OF disjI2] kept_map by (force split: if_splits)+
  then show ?thesis
    using modify_position_kept [OF m] store_tick_OkD(1) [OF s1] store_tick_OkD(1) [OF s2] kept_trans by simp
qed

lemma claim_fees_kept:
  "claim_fees personal pool = Ok (owed, personal', pool') \<Longrightarrow> pool_kept pool pool'"
  by (auto simp: claim_fees_def Let_def res_inv kept_defs split: if_splits)

lemma add_reward_clamed_kept:
  assumes "check_unclaimed_reward pool i owed = Ok ()" "n \<le> owed" "add_reward_clamed pool i n = Ok pool'"
  shows "pool_kept pool pool'"
  using assms
  by (auto simp: check_unclaimed_reward_def add_reward_clamed_def Let_def res_inv reward_covered_def
      intro!: kept_rewards dest!: subsetD [OF set_update_subset_insert])

lemma collect_reward_kept:
  assumes "collect_reward T loader tp tp22 i vault recipient mint personal pool s = Ok (n, personal', pool', s')"
  shows "pool_kept pool pool'"
  using assms add_reward_clamed_kept [of pool i] unfolding collect_reward_def Let_def
  by (auto simp: res_inv split: if_splits)

lemma collect_rewards_loop_kept:
  "collect_rewards_loop T loader tp tp22 need i n accounts amounts personal pool s = Ok (amounts', personal', pool', s') \<Longrightarrow>
   pool_kept pool pool'"
proof (induction n arbitrary: i accounts amounts personal pool s)
  case (Suc n)
  then obtain vault recipient mint accounts' m personal1 pool1 s1 where
    1: "collect_reward T loader tp tp22 i vault recipient mint personal pool s = Ok (m, personal1, pool1, s1)"
    and 2: "collect_rewards_loop T loader tp tp22 need (Suc i) n accounts' (amounts[i := m]) personal1 pool1 s1
      = Ok (amounts', personal', pool', s')"
    by (auto simp: res_inv)
  show ?case
    using collect_reward_kept [OF 1] Suc.IH [OF 2] by (rule kept_trans)
qed simp

lemma collect_rewards_kept:
  "collect_rewards T loader accounts tp tp22 need personal pool s = Ok (amounts, personal', pool', s') \<Longrightarrow> pool_kept pool pool'"
  by (auto simp: collect_rewards_def Let_def res_inv split: if_splits dest: collect_rewards_loop_kept)

lemma decrease_and_update_kept:
  "decrease_liquidity_and_update_position U AL D now personal lo up L st = Ok (amounts, personal', st') \<Longrightarrow>
   pool_kept (dp_pool st) (dp_pool st')"
  by (auto simp: decrease_liquidity_and_update_position_def res_inv split: if_splits
      dest!: burn_liquidity_kept claim_fees_kept intro: kept_trans)

lemma decrease_liquidity_kept:
  assumes "decrease_liquidity U T AL D now W loader personal lo up rem L m0 m1 st = Ok (rewards, personal', st')"
  shows "pool_kept (dp_pool st) (dp_pool st')"
proof -
  obtain ext n0 o0 n1 o1 personal1 st1 s1 pool1 rest where
    d: "decrease_liquidity_and_update_position U AL D now personal lo up L (st\<lparr>dp_extension := ext\<rparr>)
       = Ok ((n0, o0, n1, o1), personal1, st1)"
    and pool1: "pool1 = dp_pool st1 \<or> pool1 = set_status_by_bit (dp_pool st1) CollectFee Disable"
    and r: "collect_rewards T loader rest (wa_token_program W) (wa_token_program_2022 W) (wa_token_program_2022 W \<noteq> None)
       personal1 pool1 s1 = Ok (rewards, personal', dp_pool st', dp_tokens st')"
    by (rule decrease_liquidity_OkE [OF assms]) blast
  have "pool_kept (dp_pool st) (dp_pool st1)"
    using decrease_and_update_kept [OF d] by simp
  also have "pool_kept (dp_pool st1) pool1"
    using pool1 kept_status(3) by auto
  also have "pool_kept pool1 (dp_pool st')"
    by (rule collect_rewards_kept [OF r])
  finally show ?thesis .
qed

section \<open>Administration and rewards\<close>

lemma update_pool_status_kept: "update_pool_status k x p = Ok p' \<Longrightarrow> pool_kept p p'"
  by (auto simp: update_pool_status_def res_inv kept_status)

lemma transfer_reward_owner_kept: "transfer_reward_owner k k' p = Ok p' \<Longrightarrow> pool_kept p p'"
  by (auto simp: transfer_reward_owner_def res_inv kept_defs reward_covered_def)

lemma check_unclaimed_kept: "check_unclaimed_fees_and_vault T v0 v1 s p = Ok p' \<Longrightarrow> pool_kept p p'"
  by (auto simp: check_unclaimed_fees_and_vault_def res_inv kept_status split: if_splits)

lemma pay_collected_kept: "pay_collected T W loader tp22 m0 m1 a0 a1 p s = Ok (p', s') \<Longrightarrow> pool_kept p p'"
  by (auto simp: pay_collected_def res_inv dest!: check_unclaimed_kept)

lemma kept_fees_taken:
  "r0 \<le> ps_protocol_fees_token_0 p \<Longrightarrow> r1 \<le> ps_protocol_fees_token_1 p \<Longrightarrow>
   pool_kept p (p\<lparr>ps_protocol_fees_token_0 := r0, ps_protocol_fees_token_1 := r1\<rparr>)"
  "r0 \<le> ps_fund_fees_token_0 p \<Longrightarrow> r1 \<le> ps_fund_fees_token_1 p \<Longrightarrow>
   pool_kept p (p\<lparr>ps_fund_fees_token_0 := r0, ps_fund_fees_token_1 := r1\<rparr>)"
  by (simp_all add: kept_defs)

lemma collect_fees_kept:
  "collect_protocol_fee T W k ck c loader tp22 m0 m1 a0 a1 p s = Ok (p', s') \<Longrightarrow> pool_kept p p'"
  "collect_fund_fee T W k ck c loader tp22 m0 m1 a0 a1 p s = Ok (p', s') \<Longrightarrow> pool_kept p p'"
  by (auto simp: collect_protocol_fee_def collect_fund_fee_def Let_def res_inv dest!: pay_collected_kept
      elim!: kept_trans [rotated] intro!: kept_fees_taken)

text \<open>One reward is replaced by one with the same two totals.\<close>

lemma kept_reward_at:
  assumes "ri_reward_claimed r = ri_reward_claimed (ps_reward_infos p ! i)"
    and "ri_reward_total_emissioned r = ri_reward_total_emissioned (ps_reward_infos p ! i)"
  shows "pool_kept p (p\<lparr>ps_reward_infos := (ps_reward_infos p)[i := r]\<rparr>)"
proof (cases "i < length (ps_reward_infos p)")
  case True
  then have "ps_reward_infos p ! i \<in> set (ps_reward_infos p)" by simp
  then show ?thesis
    using assms by (intro kept_rewards) (auto simp: reward_covered_def dest!: subsetD [OF set_update_subset_insert])
next
  case False
  then show ?thesis by (intro kept_rewards) (simp_all add: list_update_beyond)
qed

lemma initialize_reward_kept:
  "initialize_reward U T t k acc ck os m vault tp param p s = Ok (p', s') \<Longrightarrow> pool_kept p p'"
  by (auto simp: initialize_reward_def pool_initialize_reward_def Let_def res_inv intro!: kept_reward_at
      split: option.splits if_splits)

lemma reward_update_totals:
  assumes "admin_update U r t e op en = Ok (n, r') \<or> normal_update U r t e op en = Ok (n, r')"
  shows "ri_reward_claimed r' = ri_reward_claimed r" "ri_reward_total_emissioned r' = ri_reward_total_emissioned r"
  using assms by (auto simp: admin_update_def normal_update_def restart_emission_def Let_def res_inv split: if_splits)

lemma set_reward_params_kept:
  assumes "set_reward_params U T t k ck os tp tp22 rem i e op en p s = Ok (p', s')"
  shows "pool_kept p p'"
proof -
  obtain now rs q n r where u: "update_reward_infos U p now = Ok (rs, q)"
    and r: "admin_update U (ps_reward_infos q ! i) now e op en = Ok (n, r) \<or> normal_update U (ps_reward_infos q ! i) now e op en = Ok (n, r)"
    and p': "p' = q\<lparr>ps_reward_infos := (ps_reward_infos q)[i := r]\<rparr>"
    using assms by (auto simp: set_reward_params_def Let_def res_inv split: if_splits; blast)
  from kept_reward_at [OF reward_update_totals [OF r]] have "pool_kept q p'" by (simp add: p')
  with update_reward_infos_kept [OF u] show ?thesis by (rule kept_trans)
qed

lemma update_reward_infos_instruction_kept: "update_reward_infos_instruction U t p = Ok p' \<Longrightarrow> pool_kept p p'"
  by (auto simp: update_reward_infos_instruction_def res_inv dest: update_reward_infos_kept)

lemma collect_remaining_rewards_kept:
  "collect_remaining_rewards U T t k acc loader vault m tp tp22 i p s = Ok (p', s') \<Longrightarrow> pool_kept p p'"
  by (auto simp: collect_remaining_rewards_def get_remaining_reward_amount_def Let_def res_inv dest: update_reward_infos_kept)

section \<open>Swaps\<close>

definition pool_sound :: "pool_state \<Rightarrow> bool" where
  "pool_sound p \<longleftrightarrow> pool_well_formed p \<and> ps_token_mint_0 p < ps_token_mint_1 p
     \<and> (\<forall>z. claimed_fees_of z p \<le> total_fees_of z p) \<and> rewards_covered p"

lemma kept_sound:
  assumes "pool_kept p q" "pool_sound p"
  shows "pool_sound q"
proof -
  have side: "side_kept z p q" for z using assms(1) by (cases z) (simp_all add: pool_kept_def)
  have "pool_well_formed q"
    using assms side unfolding pool_sound_def pool_well_formed_def pool_kept_def side_kept_def
    by (metis le_less_trans)
  moreover have "claimed_fees_of z q \<le> total_fees_of z q" for z
    using side [of z] assms(2) by (simp add: side_kept_def pool_sound_def)
  ultimately show ?thesis
    using assms by (simp add: pool_sound_def pool_kept_def pool_identity_def)
qed

lemma swap_internal_sound:
  assumes U: "uint_crate U" and c: "config_reachable c" and amount: "amount < 2 ^ 64" and p: "pool_sound p"
    and ok: "swap_internal U D c p arrays obs ext amount limit z base now = Some (Ok (amounts, p', arrays', obs'))"
  shows "pool_sound p'" "pool_identity p' = pool_identity p"
proof -
  have c: "ac_trade_fee_rate c < FEE_RATE_DENOMINATOR_VALUE"
    using config_reachable_rates [OF c] by (simp add: rates_ok_def FEE_RATE_DENOMINATOR_VALUE_def)
  have wf: "pool_well_formed p" using p by (simp add: pool_sound_def)
  obtain env v and v' :: swap_vars where b: "swap_begin U D c p arrays obs ext amount limit z base now = Ok (env, v)"
    and e: "swap_end U env (sv_state v') obs amount now = Ok (amounts, p', obs')"
    by (rule swap_internal_OkE [OF ok])
  obtain infos where pool: "se_pool_state env = p\<lparr>ps_reward_infos := infos\<rparr>" "update_reward_infos U p now = Ok (infos, p\<lparr>ps_reward_infos := infos\<rparr>)"
    using swap_begin_OkD(5) [OF b] by blast
  obtain a0 a1 nx where t: "add_swap_totals (se_zero_for_one env) (sv_state v') a0 a1 (commit_price (sv_state v') nx (se_pool_state env)) = Ok p'"
    using e by (auto simp: swap_end_def Let_def res_inv split: if_splits)
  obtain i where c: "commit_price (sv_state v') nx (se_pool_state env) = p\<lparr>ps_reward_infos := infos, ps_tick_current := sw_tick (sv_state v'),
      ps_observation_index := i, ps_sqrt_price_x64 := sw_sqrt_price_x64 (sv_state v'), ps_liquidity := sw_liquidity (sv_state v')\<rparr>"
    using commit_price_eq [of "sv_state v'" nx "se_pool_state env"] by (auto simp: pool(1))
  note p' = add_swap_totals_OkD [OF t [unfolded c]]
  show id: "pool_identity p' = pool_identity p"
    by (simp add: p' pool_identity_def)
  have "claimed_fees_of y p' = claimed_fees_of y p" "total_fees_of y p \<le> total_fees_of y p'" for y
    by (simp_all add: p' claimed_fees_of_def total_fees_of_def)
  then have "claimed_fees_of y p' \<le> total_fees_of y p'" for y
    using p by (metis pool_sound_def order_trans)
  moreover have "rewards_covered p'"
    using update_reward_infos_kept [OF pool(2)] p by (simp add: p' pool_kept_def pool_sound_def rewards_covered_def)
  ultimately show "pool_sound p'"
    using swap_internal_well_formed [OF U \<open>ac_trade_fee_rate c < FEE_RATE_DENOMINATOR_VALUE\<close> amount wf ok] p id by (simp add: pool_sound_def pool_identity_def)
qed

lemma settle_kept:
  "settle_swap T A a0 a1 z p s = Ok (p', s') \<Longrightarrow> pool_kept p p'"
  "settle_swap_v2 T B a0 a1 z p s = Ok (p', s') \<Longrightarrow> pool_kept p p'"
  by (auto simp: settle_swap_def settle_swap_v2_def Let_def res_inv kept_status split: if_splits)

text \<open>The block of the two versions that holds the pool, and what follows it.\<close>

lemma swap_on_pool_sound:
  assumes "uint_crate U" "config_reachable (sa_amm_config A)" "amount < 2 ^ 64" "pool_sound (sx_pool w)"
    and ok: "swap_on_pool U D t A first rem amount limit base w = Some (Ok ((a0, a1, z), w'))"
  shows "pool_sound (sx_pool w')" "pool_identity (sx_pool w') = pool_identity (sx_pool w)"
proof -
  obtain ext arrays pool tas obs where
    s: "swap_internal U D (sa_amm_config A) (sx_pool w) arrays (sx_observation w) ext amount
       (price_limit limit z) z base (block_timestamp t) = Some (Ok ((a0, a1), pool, tas, obs))"
    and w': "sx_pool w' = pool"
    by (rule swap_on_pool_OkE [OF ok]) simp
  from swap_internal_sound [OF assms(1-4) s] w'
  show "pool_sound (sx_pool w')" "pool_identity (sx_pool w') = pool_identity (sx_pool w)" by simp_all
qed

lemma swap_sound:
  assumes "uint_crate U" "config_reachable (sa_amm_config A)" "amount < 2 ^ 64" "pool_sound (sx_pool w)"
    and "swap U T AL D t A ck ok ta rem amount thr limit base w = Some (Ok w')"
  shows "pool_sound (sx_pool w')" "pool_identity (sx_pool w') = pool_identity (sx_pool w)"
proof -
  obtain first a0 a1 z w1 pool s where
    1: "swap_on_pool U D t A first rem amount limit base w = Some (Ok ((a0, a1, z), w1))"
    and 2: "settle_swap T A a0 a1 z (sx_pool w1) (sx_tokens w1) = Ok (pool, s)" and w': "sx_pool w' = pool"
    using assms(5) unfolding swap_def exact_internal_def Let_def
    by (auto simp: res_inv obind_eq_iff simp del: obind.simps)
  note sp = swap_on_pool_sound [OF assms(1-4) 1] and k = settle_kept(1) [OF 2]
  show "pool_sound (sx_pool w')" "pool_identity (sx_pool w') = pool_identity (sx_pool w)"
    using kept_sound [OF k sp(1)] k sp(2) by (simp_all add: w' pool_kept_def)
qed

lemma exact_internal_v2_sound:
  assumes "uint_crate U" "config_reachable (sa_amm_config A)" "amount < 2 ^ 64" "pool_sound (sx_pool w)"
    and ok: "exact_internal_v2 U T D t A rem amount limit base w = Some (Ok (r, w'))"
  shows "pool_sound (sx_pool w')" "pool_identity (sx_pool w') = pool_identity (sx_pool w)"
proof -
  obtain n a0 a1 z w1 pool s where n: "amount_in_pool T A amount base = Ok n"
    and 1: "swap_on_pool U D t (swap_accounts.truncate A) (Ok []) rem n limit base w = Some (Ok ((a0, a1, z), w1))"
    and 2: "settle_swap_v2 T A a0 a1 z (sx_pool w1) (sx_tokens w1) = Ok (pool, s)" and w': "sx_pool w' = pool"
    by (rule exact_internal_v2_OkE [OF ok]) (rule that, simp_all)
  have "n < 2 ^ 64"
    using n assms(3) by (auto simp: amount_in_pool_def res_inv split: if_splits)
  moreover have "config_reachable (sa_amm_config (swap_accounts.truncate A))"
    using assms(2) by (simp add: swap_accounts.truncate_def)
  ultimately have sp: "pool_sound (sx_pool w1)" "pool_identity (sx_pool w1) = pool_identity (sx_pool w)"
    using swap_on_pool_sound [OF assms(1) _ _ assms(4) 1] by simp_all
  note k = settle_kept(2) [OF 2]
  show "pool_sound (sx_pool w')" "pool_identity (sx_pool w') = pool_identity (sx_pool w)"
    using kept_sound [OF k sp(1)] k sp(2) by (simp_all add: w' pool_kept_def)
qed

lemma swap_v2_sound:
  assumes "uint_crate U" "config_reachable (sa_amm_config A)" "amount < 2 ^ 64" "pool_sound (sx_pool w)"
    and "swap_v2 U T D t A ck ok rem amount thr limit base w = Some (Ok w')"
  shows "pool_sound (sx_pool w')" "pool_identity (sx_pool w') = pool_identity (sx_pool w)"
  using exact_internal_v2_sound [OF assms(1-4)] assms(5)
  by (auto simp: swap_v2_def res_inv obind_eq_iff simp del: obind.simps)

text \<open>One swap of a route: it changes one pool, and keeps that sound.\<close>

lemma swap_hop_sound:
  assumes "uint_crate U" "\<And>k c. rt_amm_config R k = Ok c \<Longrightarrow> config_reachable c" "ro_amount_in_internal st < 2 ^ 64"
    and "rw_pools (ro_world st) k = Ok p" "rw_pools (ro_world st') k = Ok p'" "pool_sound p"
    and hop: "swap_hop U T D t R S c ks accounts st = Some (Ok st')"
  shows "pool_sound p' \<and> pool_identity p' = pool_identity p"
proof -
  obtain h r x where h: "hop_accounts_of T R (ro_world st) c ks = Ok h"
    and e: "exact_internal_v2 U T D t
               \<lparr>sa_signer = rs_payer S, sa_input_token_account = ro_input_token_account st,
                sa_output_token_account = ho_output_token_account h, sa_input_vault = ho_input_vault h,
                sa_output_vault = ho_output_vault h, sa_token_program = rs_token_program S,
                sa_amm_config = ho_amm_config h, sa_pool_state = ho_pool_key h,
                sa_token_program_2022 = rs_token_program_2022 S,
                sa_input_vault_mint = ro_input_token_mint st,
                sa_output_vault_mint = ho_output_token_mint h\<rparr>
               (map (as_remaining T R (rw_tokens (ro_world st))) accounts) (ro_amount_in_internal st) 0 True
               \<lparr>sx_pool = ho_pool h, sx_observation = ho_observation h,
                sx_tick_arrays = rw_tick_arrays (ro_world st), sx_tokens = rw_tokens (ro_world st)\<rparr> = Some (Ok (r, x))"
    and p': "rw_pools (ro_world st') = (rw_pools (ro_world st))(ho_pool_key h := Ok (sx_pool x))"
    using hop unfolding swap_hop_def Let_def by (auto simp: obind_eq_iff simp del: obind.simps)
  show ?thesis
  proof (cases "k = ho_pool_key h")
    case True
    have "rt_amm_config R c = Ok (ho_amm_config h)" "rw_pools (ro_world st) (ho_pool_key h) = Ok (ho_pool h)"
      using h by (auto simp: hop_accounts_of_def res_inv)
    then have c: "config_reachable (ho_amm_config h)" and p: "ho_pool h = p"
      using assms(2,4) True by auto
    from exact_internal_v2_sound [OF assms(1) _ assms(3) _ e] c assms(5,6) True show ?thesis
      by (simp add: p p')
  next
    case False
    then show ?thesis using assms(4-6) p' by simp
  qed
qed

section \<open>Every sequence of instructions\<close>

text \<open>
  One instruction on one pool.  The other accounts are whatever the caller passes, except that a
  swap uses a configuration that the program has made and an amount that is a \<open>u64\<close>.  A route is
  a sequence of its swaps.
\<close>

inductive pool_step :: "uint_lib \<Rightarrow> 's token_lib \<Rightarrow> pda \<Rightarrow> pool_state \<Rightarrow> pool_state \<Rightarrow> bool" for U T D where
  open_v1: "open_position_v1 U T S D t A N loader pp_key lo up rem b1 b2 i j si sj L m0 m1 st = Ok (personal', st') \<Longrightarrow>
    pool_step U T D (dp_pool st) (dp_pool st')"
| open_v2: "open_position_v2 U T S D t A tp22 mint0 mint1 N loader pp_key lo up rem b1 b2 i j si sj L m0 m1 meta base st
      = Ok (personal', st') \<Longrightarrow> pool_step U T D (dp_pool st) (dp_pool st')"
| increase_v1: "increase_liquidity_v1 U T D t A nft loader pp_key personal lo up rem L m0 m1 st = Ok (personal', st') \<Longrightarrow>
    pool_step U T D (dp_pool st) (dp_pool st')"
| increase_v2: "increase_liquidity_v2 U T D t A tp22 mint0 mint1 nft loader pp_key personal lo up rem L m0 m1 base st
      = Ok (personal', st') \<Longrightarrow> pool_step U T D (dp_pool st) (dp_pool st')"
| decrease_v1: "decrease_liquidity_v1 U T AL D t owner nft W loader pp_key personal lo up rem L m0 m1 st
      = Ok (rewards, personal', st') \<Longrightarrow> pool_step U T D (dp_pool st) (dp_pool st')"
| decrease_v2: "decrease_liquidity_v2 U T AL D t owner nft W tp22 mint0 mint1 loader pp_key personal lo up rem L m0 m1 st
      = Ok (rewards, personal', st') \<Longrightarrow> pool_step U T D (dp_pool st) (dp_pool st')"
| swapped: "swap U T AL D now A config_key observation_key tick_array rem amount threshold limit base w = Some (Ok w') \<Longrightarrow>
    config_reachable (sa_amm_config A) \<Longrightarrow> amount < 2 ^ 64 \<Longrightarrow> pool_step U T D (sx_pool w) (sx_pool w')"
| swapped_v2: "swap_v2 U T D now B config_key observation_key rem amount threshold limit base w = Some (Ok w') \<Longrightarrow>
    config_reachable (sa_amm_config B) \<Longrightarrow> amount < 2 ^ 64 \<Longrightarrow> pool_step U T D (sx_pool w) (sx_pool w')"
| routed: "swap_hop U T D now R S' c ks accounts rst = Some (Ok rst') \<Longrightarrow> (\<And>k c. rt_amm_config R k = Ok c \<Longrightarrow> config_reachable c) \<Longrightarrow>
    ro_amount_in_internal rst < 2 ^ 64 \<Longrightarrow> rw_pools (ro_world rst) k = Ok p \<Longrightarrow> rw_pools (ro_world rst') k = Ok p' \<Longrightarrow>
    pool_step U T D p p'"
| status: "update_pool_status authority status p = Ok p' \<Longrightarrow> pool_step U T D p p'"
| owner: "transfer_reward_owner authority new_owner p = Ok p' \<Longrightarrow> pool_step U T D p p'"
| protocol_fee: "collect_protocol_fee T W owner config_key config loader tp22' v0 v1 r0 r1 p s = Ok (p', s') \<Longrightarrow> pool_step U T D p p'"
| fund_fee: "collect_fund_fee T W owner config_key config loader tp22' v0 v1 r0 r1 p s = Ok (p', s') \<Longrightarrow> pool_step U T D p p'"
| reward_init: "initialize_reward U T t funder account config_key ops mint vault program param p s = Ok (p', s') \<Longrightarrow> pool_step U T D p p'"
| reward_params: "set_reward_params U T now authority config_key ops program tp22' rem' index emissions open_time end_time p s = Ok (p', s') \<Longrightarrow>
    pool_step U T D p p'"
| reward_update: "update_reward_infos_instruction U now p = Ok p' \<Longrightarrow> pool_step U T D p p'"
| reward_remaining: "collect_remaining_rewards U T now funder account loader vault mint program tp22' index p s = Ok (p', s') \<Longrightarrow>
    pool_step U T D p p'"

inductive pool_reachable :: "uint_lib \<Rightarrow> 's token_lib \<Rightarrow> pda \<Rightarrow> pool_state \<Rightarrow> bool" for U T D where
  created: "create_pool U T creator config_key config pool_id bump mint0 mint1 vault0 vault1 program0 program1
      observation_key len price open_time accs = Ok (p, extension, accs') \<Longrightarrow> pool_reachable U T D p"
| stepped: "pool_reachable U T D p \<Longrightarrow> pool_step U T D p q \<Longrightarrow> pool_reachable U T D q"

lemma pool_step_sound:
  assumes "uint_crate U" "pool_sound p" "pool_step U T D p q"
  shows "pool_sound q \<and> pool_identity q = pool_identity p"
proof -
  have kept: "pool_sound q \<and> pool_identity q = pool_identity p" if "pool_kept p q"
    using kept_sound [OF that assms(2)] that by (simp add: pool_kept_def)
  from assms(3) show ?thesis
  proof cases
    case open_v1
    then show ?thesis using kept by (auto simp: open_position_v1_def res_inv dest: open_position_kept)
  next
    case open_v2
    then show ?thesis using kept by (auto simp: open_position_v2_def res_inv dest: open_position_kept)
  next
    case increase_v1
    then show ?thesis using kept by (auto simp: increase_liquidity_v1_def res_inv dest: increase_liquidity_kept)
  next
    case increase_v2
    then show ?thesis using kept by (auto simp: increase_liquidity_v2_def res_inv dest: increase_liquidity_kept)
  next
    case decrease_v1
    then show ?thesis using kept by (auto simp: decrease_liquidity_v1_def res_inv dest: decrease_liquidity_kept)
  next
    case decrease_v2
    then show ?thesis using kept by (auto simp: decrease_liquidity_v2_def res_inv dest: decrease_liquidity_kept)
  next
    case swapped
    with swap_sound [OF assms(1) swapped(4,5) _ swapped(3)] assms(2) show ?thesis by simp
  next
    case swapped_v2
    with swap_v2_sound [OF assms(1) swapped_v2(4,5) _ swapped_v2(3)] assms(2) show ?thesis by simp
  next
    case routed
    from swap_hop_sound [OF assms(1) routed(2-5) assms(2) routed(1)] show ?thesis .
  qed (auto intro!: kept dest: update_pool_status_kept transfer_reward_owner_kept collect_fees_kept
      initialize_reward_kept set_reward_params_kept update_reward_infos_instruction_kept collect_remaining_rewards_kept)
qed

lemma create_pool_sound:
  assumes "uint_crate U"
    and "create_pool U T creator config_key config pool_id bump mint0 mint1 vault0 vault1 program0 program1
      observation_key len price open_time accs = Ok (p, extension, accs')"
  shows "pool_sound p"
proof -
  obtain tick where t: "get_tick_at_sqrt_price U price = Ok tick" and m: "mint_key mint0 < mint_key mint1"
    and p: "pool_initialize default_pool bump price open_time tick creator vault0 vault1 config_key config
       (mint.truncate mint0) (mint.truncate mint1) observation_key = Ok p"
    using assms(2) by (auto simp: create_pool_def res_inv split: if_splits)
  have "MIN_SQRT_PRICE_X64 \<le> price" "price < MAX_SQRT_PRICE_X64"
    using t by (auto simp: get_tick_at_sqrt_price_def res_inv)
  from uint_crate.get_tick_at_sqrt_price_correct [OF assms(1) this] t have "tick_of_price tick price"
    by (auto simp: tick_of_price_def)
  then show ?thesis
    using m p by (auto simp: pool_initialize_def pool_sound_def pool_well_formed_def side_defs claimed_fees_of_def
        rewards_covered_def reward_covered_def new_reward_info_def mint.truncate_def)
qed

lemma pool_reachable_sound:
  assumes "uint_crate U" "pool_reachable U T D p"
  shows "pool_sound p"
  using assms(2)
proof induction
  case created
  then show ?case by (rule create_pool_sound [OF assms(1)])
next
  case stepped
  from pool_step_sound [OF assms(1) stepped.IH stepped.hyps(2)] show ?case by simp
qed

section \<open>Properties\<close>

text \<open>
  C6. Every pool stays sound for life.  After \<open>create_pool\<close> and any sequence of instructions (positions
  opened, increased and decreased, swaps of both versions and of routes, administration, rewards),
  by any callers and with any other accounts, the tick of the pool is the tick of its price, every
  counter is within its integer type, the mints are in order, the fees claimed by positions are
  covered by the fees collected, and no more of a reward is claimed than was emitted; and
  no instruction changes the configuration, mints, vaults, oracle or tick spacing of the pool.
\<close>

theorem reachable_pools_stay_sound:
  assumes "uint_crate U" "pool_reachable U T D p"
  shows "pool_well_formed p \<and> ps_token_mint_0 p < ps_token_mint_1 p
    \<and> ps_total_fees_claimed_token_0 p \<le> ps_total_fees_token_0 p
    \<and> ps_total_fees_claimed_token_1 p \<le> ps_total_fees_token_1 p
    \<and> (\<forall>r \<in> set (ps_reward_infos p). ri_reward_claimed r \<le> ri_reward_total_emissioned r)
    \<and> (pool_step U T D p q \<longrightarrow> pool_identity q = pool_identity p)"
proof -
  have s: "pool_sound p" by (rule pool_reachable_sound [OF assms])
  then have "claimed_fees_of z p \<le> total_fees_of z p" for z by (simp add: pool_sound_def)
  from this [of True] this [of False] s pool_step_sound [OF assms(1) s] show ?thesis
    by (auto simp: pool_sound_def claimed_fees_of_def total_fees_of_def rewards_covered_def reward_covered_def)
qed

definition new_observation_account :: "observation_state accounts" where
  "new_observation_account k = \<lparr>ai_owner = program_id, ai_is_writable = True, ai_lamports = 0, ai_data = Blank_Data default_observation_state\<rparr>"

theorem reachable_pools_stay_sound_witness:
  "\<exists>p q. pool_reachable uint_ref token_ref sample_pda p \<and> pool_step uint_ref token_ref sample_pda p q
     \<and> ps_status q = 16 \<and> pool_well_formed q \<and> pool_identity q = pool_identity p"
proof -
  obtain p e accs where c: "create_pool uint_ref token_ref 9 0 default_amm_config 1 255 (sample_mint 7) (sample_mint 8)
      50 51 1 1 60 OBSERVATION_STATE_LEN 18446928079981686868 0 new_observation_account = Ok (p, e, accs)"
    by (simp add: create_pool_def sample_mint_def is_supported_mint_def token_ref_def sample_tick_of_price
        observation_account_initialize_def observation_load_init_mut_def new_observation_account_def
        observation_initialize_def default_observation_state_def pool_initialize_def)
  define q where "q = set_status p 16"
  have r: "pool_reachable uint_ref token_ref sample_pda p"
    by (rule created [OF c])
  have s: "pool_step uint_ref token_ref sample_pda p q"
    by (rule pool_step.status [of admin_id 16]) (simp add: update_pool_status_def q_def)
  show ?thesis
    using r s reachable_pools_stay_sound [OF uint_crate_ref r, of q] reachable_pools_stay_sound [OF uint_crate_ref stepped [OF r s]]
    by (intro exI [of _ p] exI [of _ q]) (simp add: q_def set_status_def)
qed

end
