(* ===== verification/Client_Swap.thy ===== *)
theory Client_Swap
  imports Swap_Core Token_Util
begin

text \<open>
  The part of the command line client that computes: \<open>src/client/src/instructions/utils.rs\<close> and
  the collection of tick arrays in \<open>src/client/src/main.rs\<close>.  Before it sends a swap, the client
  runs the swap on the accounts it has read, without the shares of protocol and fund, to find
  the amount to expect and the tick arrays to pass.  Its errors are strings; conversions through
  \<open>f64\<close> are not modelled.
\<close>

section \<open>Ticks and fees of a token\<close>

definition tick_with_spacing :: "i32 \<Rightarrow> i32 \<Rightarrow> i32 res" where
  "tick_with_spacing tick tick_spacing =
     rbind (i_div 32 tick tick_spacing) (\<lambda>compressed.
     rbind (if tick < 0 then
              rbind (i_rem tick tick_spacing) (\<lambda>r.
              if r \<noteq> 0 then chk_i 32 (compressed - 1) else Ok compressed)
            else Ok compressed) (\<lambda>compressed.
     chk_i 32 (compressed * tick_spacing)))"

text \<open>The two functions on the state of a mint take the epoch before the amount.\<close>

definition client_get_transfer_inverse_fee :: "u16 \<Rightarrow> mint_view \<Rightarrow> u64 \<Rightarrow> u64 \<Rightarrow> u64 res" where
  "client_get_transfer_inverse_fee max_fee_basis_points account_state epoch post_fee_amount =
     (case mv_transfer_fee_config account_state of
        Some transfer_fee_config \<Rightarrow>
          let transfer_fee = tfc_get_epoch_fee transfer_fee_config epoch in
          if tf_transfer_fee_basis_points transfer_fee = max_fee_basis_points
          then Ok (tf_maximum_fee transfer_fee)
          else unwrap (tfc_calculate_inverse_epoch_fee transfer_fee_config epoch post_fee_amount)
      | None \<Rightarrow> Ok 0)"

definition client_get_transfer_fee :: "mint_view \<Rightarrow> u64 \<Rightarrow> u64 \<Rightarrow> u64 res" where
  "client_get_transfer_fee account_state epoch pre_fee_amount =
     (case mv_transfer_fee_config account_state of
        Some transfer_fee_config \<Rightarrow>
          unwrap (tfc_calculate_epoch_fee transfer_fee_config epoch pre_fee_amount)
      | None \<Rightarrow> Ok 0)"

text \<open>
  The remote calls that the client makes: several accounts at once, each with its owner and what
  its data unpacks to, and the epoch.
\<close>

record rpc_mint =
  rm_owner :: pubkey
  rm_state :: "mint_view res"

record rpc_client =
  rpc_get_mints :: "pubkey list \<Rightarrow> rpc_mint option list res"
  rpc_get_tick_arrays :: "pubkey list \<Rightarrow> tick_array res option list res"
  rpc_epoch :: "u64 res"

record transfer_fee_info =
  tfi_mint :: pubkey
  tfi_owner :: pubkey
  tfi_transfer_fee :: u64

definition index_at :: "'a list \<Rightarrow> nat \<Rightarrow> 'a res" where
  "index_at xs i = (if i < length xs then Ok (xs ! i) else Panic)"

text \<open>The two mints of a pool, read at once; both functions do this.\<close>

definition load_pool_mints ::
  "rpc_client \<Rightarrow> pubkey \<Rightarrow> pubkey \<Rightarrow> (u64 \<times> (pubkey \<times> mint_view) \<times> (pubkey \<times> mint_view)) res" where
  "load_pool_mints R token_mint_0 token_mint_1 =
     rbind (unwrap_result (rpc_get_mints R [token_mint_0, token_mint_1])) (\<lambda>rsps.
     rbind (unwrap_result (rpc_epoch R)) (\<lambda>epoch.
     rbind (index_at rsps 0) (\<lambda>rsp_0.
     rbind (unwrap rsp_0) (\<lambda>mint0_account.
     rbind (index_at rsps 1) (\<lambda>rsp_1.
     rbind (unwrap rsp_1) (\<lambda>mint1_account.
     rbind (unwrap_result (rm_state mint0_account)) (\<lambda>mint0_state.
     rbind (unwrap_result (rm_state mint1_account)) (\<lambda>mint1_state.
     Ok (epoch, (rm_owner mint0_account, mint0_state), (rm_owner mint1_account, mint1_state))))))))))"

text \<open>Both callers pass the amount before the epoch.\<close>

definition get_pool_mints_inverse_fee ::
  "u16 \<Rightarrow> rpc_client \<Rightarrow> pubkey \<Rightarrow> pubkey \<Rightarrow> u64 \<Rightarrow> u64 \<Rightarrow> (transfer_fee_info \<times> transfer_fee_info) res" where
  "get_pool_mints_inverse_fee max_fee_basis_points R token_mint_0 token_mint_1 post_fee_amount_0
      post_fee_amount_1 =
     rbind (load_pool_mints R token_mint_0 token_mint_1)
       (\<lambda>(epoch, (mint0_owner, mint0_state), (mint1_owner, mint1_state)).
     rbind (client_get_transfer_inverse_fee max_fee_basis_points mint0_state post_fee_amount_0 epoch) (\<lambda>fee_0.
     rbind (client_get_transfer_inverse_fee max_fee_basis_points mint1_state post_fee_amount_1 epoch) (\<lambda>fee_1.
     Ok (\<lparr>tfi_mint = token_mint_0, tfi_owner = mint0_owner, tfi_transfer_fee = fee_0\<rparr>,
         \<lparr>tfi_mint = token_mint_1, tfi_owner = mint1_owner, tfi_transfer_fee = fee_1\<rparr>))))"

definition get_pool_mints_transfer_fee ::
  "rpc_client \<Rightarrow> pubkey \<Rightarrow> pubkey \<Rightarrow> u64 \<Rightarrow> u64 \<Rightarrow> (transfer_fee_info \<times> transfer_fee_info) res" where
  "get_pool_mints_transfer_fee R token_mint_0 token_mint_1 pre_fee_amount_0 pre_fee_amount_1 =
     rbind (load_pool_mints R token_mint_0 token_mint_1)
       (\<lambda>(epoch, (mint0_owner, mint0_state), (mint1_owner, mint1_state)).
     rbind (client_get_transfer_fee mint0_state pre_fee_amount_0 epoch) (\<lambda>fee_0.
     rbind (client_get_transfer_fee mint1_state pre_fee_amount_1 epoch) (\<lambda>fee_1.
     Ok (\<lparr>tfi_mint = token_mint_0, tfi_owner = mint0_owner, tfi_transfer_fee = fee_0\<rparr>,
         \<lparr>tfi_mint = token_mint_1, tfi_owner = mint1_owner, tfi_transfer_fee = fee_1\<rparr>))))"

section \<open>The tick arrays to read\<close>

text \<open>The keys after the first: at most \<open>n\<close>, each the next array in use after the one before.\<close>

fun next_tick_array_keys ::
  "pda \<Rightarrow> pubkey \<Rightarrow> pool_state \<Rightarrow> bitmap_extension \<Rightarrow> bool \<Rightarrow> nat \<Rightarrow> i32 \<Rightarrow> pubkey list res" where
  "next_tick_array_keys D pool_id pool_state extension zero_for_one 0 start_index = Ok []"
| "next_tick_array_keys D pool_id pool_state extension zero_for_one (Suc n) start_index =
     rbind (unwrap_result (pool_next_initialized_tick_array_start_index pool_state (Some extension)
              start_index zero_for_one)) (\<lambda>next_tick_array_index.
     case next_tick_array_index of
       None \<Rightarrow> Ok []
     | Some index \<Rightarrow>
         rbind (next_tick_array_keys D pool_id pool_state extension zero_for_one n index) (\<lambda>keys.
         Ok (pda_tick_array D pool_id index # keys)))"

fun deserialize_tick_arrays :: "tick_array res option list \<Rightarrow> tick_array list res" where
  "deserialize_tick_arrays [] = Ok []"
| "deserialize_tick_arrays (tick_array # rsps) =
     rbind (unwrap tick_array) (\<lambda>account.
     rbind (unwrap_result account) (\<lambda>tick_array_state.
     rbind (deserialize_tick_arrays rsps) (\<lambda>tick_arrays.
     Ok (tick_array_state # tick_arrays))))"

definition load_cur_and_next_five_tick_array ::
  "rpc_client \<Rightarrow> pda \<Rightarrow> pubkey option \<Rightarrow> pool_state \<Rightarrow> bitmap_extension \<Rightarrow> bool \<Rightarrow> tick_array list res" where
  "load_cur_and_next_five_tick_array R D pool_id_account pool_state extension zero_for_one =
     rbind (unwrap_result (get_first_initialized_tick_array pool_state (Some extension) zero_for_one))
       (\<lambda>(_, current_vaild_tick_array_start_index).
     rbind (unwrap pool_id_account) (\<lambda>pool_id.
     rbind (next_tick_array_keys D pool_id pool_state extension zero_for_one 5
              current_vaild_tick_array_start_index) (\<lambda>keys.
     rbind (unwrap_result (rpc_get_tick_arrays R
              (pda_tick_array D pool_id current_vaild_tick_array_start_index # keys))) (\<lambda>tick_array_rsps.
     deserialize_tick_arrays tick_array_rsps))))"

section \<open>The swap that the client computes\<close>

record client_swap_state =
  cw_amount_specified_remaining :: u64
  cw_amount_calculated :: u64
  cw_sqrt_price_x64 :: u128
  cw_tick :: i32
  cw_liquidity :: u128

text \<open>The fixed arguments of \<open>swap_compute\<close>, with its price limit settled.\<close>

record client_swap_env =
  ce_zero_for_one :: bool
  ce_is_base_input :: bool
  ce_fee :: u32
  ce_sqrt_price_limit_x64 :: u128
  ce_current_vaild_tick_array_start_index :: i32
  ce_pool_state :: pool_state
  ce_tickarray_bitmap_extension :: bitmap_extension

record client_swap_vars =
  cv_state :: client_swap_state
  cv_tick_array_current :: tick_array
  cv_tick_arrays :: "tick_array list"
  cv_tick_match_current_tick_array :: bool
  cv_tick_array_start_index_vec :: "i32 list"

definition client_tick_in_array :: "client_swap_env \<Rightarrow> client_swap_vars \<Rightarrow> (tick_state \<times> client_swap_vars) res" where
  "client_tick_in_array env v =
     (let tick_array_current = cv_tick_array_current v in
      rbind (unwrap_result (next_initialized_tick tick_array_current (cw_tick (cv_state v))
               (ps_tick_spacing (ce_pool_state env)) (ce_zero_for_one env))) (\<lambda>found.
      case found of
        Some i \<Rightarrow> Ok (ta_ticks tick_array_current ! i, v)
      | None \<Rightarrow>
          if \<not> cv_tick_match_current_tick_array v then
            rbind (unwrap_result (first_initialized_tick tick_array_current (ce_zero_for_one env))) (\<lambda>i.
            Ok (ta_ticks tick_array_current ! i, v\<lparr>cv_tick_match_current_tick_array := True\<rparr>))
          else Ok (default_tick_state, v)))"

text \<open>
  The next array.  The search starts at the array that the swap started with, every time: the
  \<open>let\<close> in the loop of the source shadows the variable and does not assign it.
\<close>

definition client_tick_in_next_array :: "client_swap_env \<Rightarrow> client_swap_vars \<Rightarrow> (tick_state \<times> client_swap_vars) res" where
  "client_tick_in_next_array env v =
     rbind (unwrap_result (pool_next_initialized_tick_array_start_index (ce_pool_state env)
              (Some (ce_tickarray_bitmap_extension env)) (ce_current_vaild_tick_array_start_index env)
              (ce_zero_for_one env))) (\<lambda>start_index.
     case cv_tick_arrays v of
       [] \<Rightarrow> Panic
     | tick_array_current # tick_arrays \<Rightarrow>
         rbind (require (start_index \<noteq> None) (Message ''tick array start tick index out of range limit'')) (\<lambda>_.
         rbind (unwrap start_index) (\<lambda>index.
         rbind (require (ta_start_tick_index tick_array_current = index)
                  (Message ''tick array start tick index does not match'')) (\<lambda>_.
         rbind (unwrap_result (first_initialized_tick tick_array_current (ce_zero_for_one env))) (\<lambda>i.
         Ok (ta_ticks tick_array_current ! i,
             v\<lparr>cv_tick_array_current := tick_array_current, cv_tick_arrays := tick_arrays,
               cv_tick_array_start_index_vec :=
                 cv_tick_array_start_index_vec v @ [ta_start_tick_index tick_array_current]\<rparr>))))))"

definition client_next_tick :: "client_swap_env \<Rightarrow> client_swap_vars \<Rightarrow> (tick_state \<times> client_swap_vars) res" where
  "client_next_tick env v =
     rbind (client_tick_in_array env v) (\<lambda>(next_tick, v).
     if \<not> tick_is_initialized next_tick then client_tick_in_next_array env v else Ok (next_tick, v))"

text \<open>The move of the price, and the amounts.\<close>

definition client_step ::
  "uint_lib \<Rightarrow> client_swap_env \<Rightarrow> client_swap_state \<Rightarrow> tick_state \<Rightarrow> client_swap_state res" where
  "client_step U env state next_tick =
     (let z = ce_zero_for_one env;
          start_price = cw_sqrt_price_x64 state;
          tick_next = (if ts_tick next_tick < MIN_TICK then MIN_TICK
                       else if ts_tick next_tick > MAX_TICK then MAX_TICK else ts_tick next_tick) in
      rbind (unwrap_result (get_sqrt_price_at_tick U tick_next)) (\<lambda>next_price.
      let target_price =
            (if (z \<and> next_price < ce_sqrt_price_limit_x64 env)
                \<or> (\<not> z \<and> next_price > ce_sqrt_price_limit_x64 env)
             then ce_sqrt_price_limit_x64 env else next_price) in
      rbind (compute_swap_step U start_price target_price (cw_liquidity state)
               (cw_amount_specified_remaining state) (ce_fee env) (ce_is_base_input env) z) (\<lambda>swap_step.
      let state = state\<lparr>cw_sqrt_price_x64 := ss_sqrt_price_next_x64 swap_step\<rparr> in
      rbind (if ce_is_base_input env then
               rbind (chk_add 64 (ss_amount_in swap_step) (ss_fee_amount swap_step)) (\<lambda>paid.
               rbind (unwrap (checked_sub (cw_amount_specified_remaining state) paid)) (\<lambda>remaining.
               rbind (unwrap (checked_add 64 (cw_amount_calculated state) (ss_amount_out swap_step))) (\<lambda>calculated.
               Ok (state\<lparr>cw_amount_specified_remaining := remaining, cw_amount_calculated := calculated\<rparr>))))
             else
               rbind (unwrap (checked_sub (cw_amount_specified_remaining state) (ss_amount_out swap_step))) (\<lambda>remaining.
               rbind (chk_add 64 (ss_amount_in swap_step) (ss_fee_amount swap_step)) (\<lambda>paid.
               rbind (unwrap (checked_add 64 (cw_amount_calculated state) paid)) (\<lambda>calculated.
               Ok (state\<lparr>cw_amount_specified_remaining := remaining, cw_amount_calculated := calculated\<rparr>))))) (\<lambda>state.
      if cw_sqrt_price_x64 state = next_price then
        rbind (if tick_is_initialized next_tick then
                 rbind (if z then chk_i 128 (- ts_liquidity_net next_tick)
                        else Ok (ts_liquidity_net next_tick)) (\<lambda>liquidity_net.
                 rbind (unwrap_result (add_delta (cw_liquidity state) liquidity_net)) (\<lambda>liquidity.
                 Ok (state\<lparr>cw_liquidity := liquidity\<rparr>)))
               else Ok state) (\<lambda>state.
        rbind (if z then chk_i 32 (tick_next - 1) else Ok tick_next) (\<lambda>tick.
        Ok (state\<lparr>cw_tick := tick\<rparr>)))
      else if cw_sqrt_price_x64 state \<noteq> start_price then
        rbind (unwrap_result (get_tick_at_sqrt_price U (cw_sqrt_price_x64 state))) (\<lambda>tick.
        Ok (state\<lparr>cw_tick := tick\<rparr>))
      else Ok state))))"

definition client_continues :: "client_swap_env \<Rightarrow> client_swap_vars \<Rightarrow> bool" where
  "client_continues env v \<longleftrightarrow>
     cw_amount_specified_remaining (cv_state v) \<noteq> 0
     \<and> cw_sqrt_price_x64 (cv_state v) \<noteq> ce_sqrt_price_limit_x64 env
     \<and> cw_tick (cv_state v) < MAX_TICK \<and> cw_tick (cv_state v) > MIN_TICK"

text \<open>The loop ends with an error when it is entered for the twelfth time.\<close>

function client_swap_loop :: "uint_lib \<Rightarrow> client_swap_env \<Rightarrow> nat \<Rightarrow> client_swap_vars \<Rightarrow> client_swap_vars res" where
  "client_swap_loop U env loop_count v =
     (if \<not> client_continues env v then Ok v
      else if loop_count > 10 then Err (Message ''loop_count limit'')
      else
        rbind (client_next_tick env v) (\<lambda>(next_tick, v).
        rbind (client_step U env (cv_state v) next_tick) (\<lambda>state.
        client_swap_loop U env (loop_count + 1) (v\<lparr>cv_state := state\<rparr>))))"
  by pat_completeness auto
termination
  by (relation "measure (\<lambda>(U, env, loop_count, v). 11 - loop_count)") auto

declare client_swap_loop.simps [simp del]

text \<open>The checks before the loop, then the loop.\<close>

definition client_check_limit :: "bool \<Rightarrow> u128 \<Rightarrow> pool_state \<Rightarrow> unit res" where
  "client_check_limit zero_for_one sqrt_price_limit_x64 pool_state =
     (if zero_for_one then
        if sqrt_price_limit_x64 < MIN_SQRT_PRICE_X64
        then Err (Message ''sqrt_price_limit_x64 must greater than MIN_SQRT_PRICE_X64'')
        else if sqrt_price_limit_x64 \<ge> ps_sqrt_price_x64 pool_state
        then Err (Message ''sqrt_price_limit_x64 must smaller than current'') else Ok ()
      else
        if sqrt_price_limit_x64 > MAX_SQRT_PRICE_X64
        then Err (Message ''sqrt_price_limit_x64 must smaller than MAX_SQRT_PRICE_X64'')
        else if sqrt_price_limit_x64 \<le> ps_sqrt_price_x64 pool_state
        then Err (Message ''sqrt_price_limit_x64 must greater than current'') else Ok ())"

definition swap_compute ::
  "uint_lib \<Rightarrow> bool \<Rightarrow> bool \<Rightarrow> bool \<Rightarrow> u32 \<Rightarrow> u64 \<Rightarrow> i32 \<Rightarrow> u128 \<Rightarrow> pool_state \<Rightarrow> bitmap_extension \<Rightarrow>
   tick_array list \<Rightarrow> (u64 \<times> i32 list) res" where
  "swap_compute U zero_for_one is_base_input is_pool_current_tick_array fee amount_specified
      current_vaild_tick_array_start_index sqrt_price_limit_x64 pool_state tickarray_bitmap_extension
      tick_arrays =
     rbind (require (amount_specified \<noteq> 0) (Message ''amountSpecified must not be 0'')) (\<lambda>_.
     let sqrt_price_limit_x64 =
           (if sqrt_price_limit_x64 = 0 then
              (if zero_for_one then MIN_SQRT_PRICE_X64 + 1 else MAX_SQRT_PRICE_X64 - 1)
            else sqrt_price_limit_x64) in
     rbind (client_check_limit zero_for_one sqrt_price_limit_x64 pool_state) (\<lambda>_.
     case tick_arrays of
       [] \<Rightarrow> Panic
     | tick_array_current # tick_arrays \<Rightarrow>
         rbind (require (ta_start_tick_index tick_array_current = current_vaild_tick_array_start_index)
                  (Message ''tick array start tick index does not match'')) (\<lambda>_.
         rbind (client_swap_loop U
             \<lparr>ce_zero_for_one = zero_for_one, ce_is_base_input = is_base_input, ce_fee = fee,
              ce_sqrt_price_limit_x64 = sqrt_price_limit_x64,
              ce_current_vaild_tick_array_start_index = current_vaild_tick_array_start_index,
              ce_pool_state = pool_state, ce_tickarray_bitmap_extension = tickarray_bitmap_extension\<rparr> 0
             \<lparr>cv_state = \<lparr>cw_amount_specified_remaining = amount_specified, cw_amount_calculated = 0,
                cw_sqrt_price_x64 = ps_sqrt_price_x64 pool_state, cw_tick = ps_tick_current pool_state,
                cw_liquidity = ps_liquidity pool_state\<rparr>,
              cv_tick_array_current = tick_array_current, cv_tick_arrays = tick_arrays,
              cv_tick_match_current_tick_array = is_pool_current_tick_array,
              cv_tick_array_start_index_vec = [ta_start_tick_index tick_array_current]\<rparr>) (\<lambda>v.
         Ok (cw_amount_calculated (cv_state v), cv_tick_array_start_index_vec v)))))"

definition get_out_put_amount_and_remaining_accounts ::
  "uint_lib \<Rightarrow> u64 \<Rightarrow> u128 option \<Rightarrow> bool \<Rightarrow> bool \<Rightarrow> amm_config \<Rightarrow> pool_state \<Rightarrow> bitmap_extension \<Rightarrow>
   tick_array list \<Rightarrow> (u64 \<times> i32 list) res" where
  "get_out_put_amount_and_remaining_accounts U input_amount sqrt_price_limit_x64 zero_for_one
      is_base_input pool_config pool_state tickarray_bitmap_extension tick_arrays =
     rbind (unwrap_result (get_first_initialized_tick_array pool_state
              (Some tickarray_bitmap_extension) zero_for_one))
       (\<lambda>(is_pool_current_tick_array, current_vaild_tick_array_start_index).
     swap_compute U zero_for_one is_base_input is_pool_current_tick_array
       (ac_trade_fee_rate pool_config) input_amount current_vaild_tick_array_start_index
       (case sqrt_price_limit_x64 of None \<Rightarrow> 0 | Some limit \<Rightarrow> limit) pool_state
       tickarray_bitmap_extension tick_arrays)"

end
