(* ===== verification/Client_Properties.thy ===== *)
theory Client_Properties
  imports Client_Swap Swap_Invariant
begin

text \<open>
  The swap that the client computes against the swap of the program: turn by turn they are in
  step, as long as the client does not give up.
\<close>

section \<open>Ticks without their growth\<close>

text \<open>The client never writes to a tick; the program changes only the growth outside of it.\<close>

definition tick_core :: "tick_state \<Rightarrow> i32 \<times> i128 \<times> u128" where
  "tick_core t = (ts_tick t, ts_liquidity_net t, ts_liquidity_gross t)"

definition same_ticks :: "tick_array \<Rightarrow> tick_array \<Rightarrow> bool" where
  "same_ticks A B \<longleftrightarrow> ta_start_tick_index A = ta_start_tick_index B
     \<and> map tick_core (ta_ticks A) = map tick_core (ta_ticks B)"

definition placed :: "nat \<Rightarrow> tick_array \<Rightarrow> bool" where
  "placed ts A \<longleftrightarrow> length (ta_ticks A) = 60 \<and> valid_start (ta_start_tick_index A) ts
    \<and> (\<forall>i < 60. tick_is_initialized (ta_ticks A ! i) \<longrightarrow>
        ts_tick (ta_ticks A ! i) = ta_start_tick_index A + int i * int ts)"

lemma same_ticks_refl [simp]: "same_ticks A A"
  by (simp add: same_ticks_def)

lemma core_nth:
  assumes "map tick_core xs = map tick_core ys" "i < length xs"
  shows "tick_core (xs ! i) = tick_core (ys ! i)"
  using assms by (metis length_map nth_map)

lemma initialized_core: "tick_core s = tick_core t \<Longrightarrow> tick_is_initialized s = tick_is_initialized t"
  by (simp add: tick_core_def tick_is_initialized_def)

lemma initialized_nth:
  "map tick_core xs = map tick_core ys \<Longrightarrow> i < length xs \<Longrightarrow> tick_is_initialized (xs ! i) = tick_is_initialized (ys ! i)"
  by (rule initialized_core) (rule core_nth)

lemma scan_down_core:
  "map tick_core xs = map tick_core ys \<Longrightarrow> n \<le> length xs \<Longrightarrow> scan_down xs n = scan_down ys n"
proof (induction n)
  case (Suc n)
  then show ?case using initialized_nth [of xs ys n] by simp
qed simp

lemma scan_up_core:
  "map tick_core xs = map tick_core ys \<Longrightarrow> length xs = 60 \<Longrightarrow> scan_up xs n = scan_up ys n"
proof (induction xs n rule: scan_up.induct)
  case (1 xs n)
  then show ?case
    using initialized_nth [of xs ys n] by (subst (1 2) scan_up.simps) (simp add: TICK_ARRAY_SIZE_USIZE_def)
qed

lemma first_tick_core:
  assumes "same_ticks A B" "length (ta_ticks A) = 60"
  shows "first_initialized_tick A z = first_initialized_tick B z"
  using assms scan_down_core [of "ta_ticks A" "ta_ticks B" 60] scan_up_core [of "ta_ticks A" "ta_ticks B" 0]
  by (simp add: first_initialized_tick_def same_ticks_def TICK_ARRAY_SIZE_def)

lemma next_tick_core:
  assumes "same_ticks A B" "length (ta_ticks A) = 60" "moderate t" "spacing_ok ts"
  shows "next_initialized_tick A t ts z = next_initialized_tick B t ts z"
proof (cases "array_start t ts = ta_start_tick_index A")
  case True
  note o = array_offset(1,2) [OF assms(4), of t]
  have "nat ((t - array_start t ts) div int ts + 1) \<le> length (ta_ticks A)"
    using o assms(2) by simp
  with assms(1,2) show ?thesis
    using moderate_offset [OF assms(3,4)] scan_down_core [of "ta_ticks A" "ta_ticks B"]
      scan_up_core [of "ta_ticks A" "ta_ticks B"]
    by (simp add: next_initialized_tick_def get_array_start_index_eq [OF assms(3,4)] same_ticks_def True [symmetric])
next
  case False
  then show ?thesis
    using assms(1) by (simp add: next_initialized_tick_def get_array_start_index_eq [OF assms(3,4)] same_ticks_def)
qed

lemma found_in_array:
  assumes "next_initialized_tick A t ts z = Ok (Some i)" "moderate t" "spacing_ok ts"
  shows "i < 60" "tick_is_initialized (ta_ticks A ! i)"
proof -
  note o = array_offset(1,2) [OF assms(3), of t]
  have s: "array_start t ts = ta_start_tick_index A"
    using assms(1) by (auto simp: next_initialized_tick_def get_array_start_index_eq [OF assms(2,3)] split: if_splits)
  then have "(if z then scan_down (ta_ticks A) (nat ((t - array_start t ts) div int ts + 1))
      else scan_up (ta_ticks A) (nat ((t - array_start t ts) div int ts + 1))) = Some i"
    using assms(1) moderate_offset [OF assms(2,3)]
    by (simp add: next_initialized_tick_def get_array_start_index_eq [OF assms(2,3)] split: if_splits)
  then show "i < 60" "tick_is_initialized (ta_ticks A ! i)"
    using o by (auto simp: scan_down_eq_Some_iff scan_up_eq_Some_iff split: if_splits)
qed

lemma first_in_array:
  assumes "first_initialized_tick A z = Ok i"
  shows "i < 60" "tick_is_initialized (ta_ticks A ! i)"
  using assms by (auto simp: first_initialized_tick_def TICK_ARRAY_SIZE_def scan_down_eq_Some_iff scan_up_eq_Some_iff
      split: if_splits option.splits)

text \<open>What the program writes back after a crossing goes to the place that the tick came from.\<close>

lemma update_keeps_core:
  assumes up: "update_tick_state A (ts_tick t') ts t' = Ok A'" and p: "placed ts A" "spacing_ok ts"
    and i: "i < 60" "tick_is_initialized (ta_ticks A ! i)" and t: "tick_core t' = tick_core (ta_ticks A ! i)"
    and m: "moderate (ts_tick t')"
  shows "same_ticks A' A"
proof -
  have pos: "ts_tick t' = ta_start_tick_index A + int i * int ts"
    using p i t by (simp add: placed_def tick_core_def)
  have ts: "0 < int ts" using p(2) by (simp add: spacing_ok_def)
  have "get_tick_offset_in_array A (ts_tick t') ts = Ok (nat ((ts_tick t' - ta_start_tick_index A) div int ts))"
    using up by (auto simp: update_tick_state_def res_inv get_tick_offset_in_array_eq [OF m p(2)] split: if_splits)
  moreover have "nat ((ts_tick t' - ta_start_tick_index A) div int ts) = i"
    using ts by (simp add: pos)
  ultimately have "get_tick_offset_in_array A (ts_tick t') ts = Ok i"
    by simp
  then have "A' = A\<lparr>ta_ticks := (ta_ticks A)[i := t']\<rparr>"
    using up by (auto simp: update_tick_state_def split: if_splits)
  moreover have "map tick_core ((ta_ticks A)[i := t']) = map tick_core (ta_ticks A)"
    using i p t by (simp add: map_update placed_def list_update_same_conv)
  ultimately show ?thesis
    by (simp add: same_ticks_def)
qed

section \<open>One turn\<close>

text \<open>What the client keeps of the state of a swap.\<close>

definition client_view :: "swap_state \<Rightarrow> client_swap_state" where
  "client_view s = \<lparr>cw_amount_specified_remaining = sw_amount_specified_remaining s,
     cw_amount_calculated = sw_amount_calculated s, cw_sqrt_price_x64 = sw_sqrt_price_x64 s,
     cw_tick = sw_tick s, cw_liquidity = sw_liquidity s\<rparr>"

definition same_request :: "swap_env \<Rightarrow> client_swap_env \<Rightarrow> bool" where
  "same_request env ce \<longleftrightarrow> ce_zero_for_one ce = se_zero_for_one env \<and> ce_is_base_input ce = se_is_base_input env
     \<and> ce_fee ce = ac_trade_fee_rate (se_amm_config env)
     \<and> ce_sqrt_price_limit_x64 ce = se_sqrt_price_limit_x64 env
     \<and> (\<exists>infos. se_pool_state env = (ce_pool_state ce)\<lparr>ps_reward_infos := infos\<rparr>)
     \<and> se_tickarray_bitmap_extension env = Some (ce_tickarray_bitmap_extension ce)"

lemma fees_keep_view:
  assumes "swap_step_fees U env s step = Ok (s', step')"
  shows "client_view s' = client_view s" "sc_sqrt_price_next_x64 step' = sc_sqrt_price_next_x64 step"
    "sc_tick_next step' = sc_tick_next step" "sc_initialized step' = sc_initialized step"
    "sc_sqrt_price_start_x64 step' = sc_sqrt_price_start_x64 step"
proof -
  have t: "sc_sqrt_price_next_x64 t' = sc_sqrt_price_next_x64 t \<and> sc_tick_next t' = sc_tick_next t
      \<and> sc_initialized t' = sc_initialized t \<and> sc_sqrt_price_start_x64 t' = sc_sqrt_price_start_x64 t"
    if "take_fee_share U fee rate n t = Ok (n', t')" for fee rate n t n' t'
    using that by (auto simp: take_fee_share_def res_inv split: if_splits)
  have g: "client_view r' = client_view r" if "grow_fees U r t = Ok r'" for r t r'
    using that by (auto simp: grow_fees_def res_inv client_view_def split: if_splits)
  obtain p t1 f where
    1: "take_fee_share U (sc_fee_amount step) (ac_protocol_fee_rate (se_amm_config env)) (sw_protocol_fee s) step = Ok (p, t1)"
    and 2: "take_fee_share U (sc_fee_amount step) (ac_fund_fee_rate (se_amm_config env)) (sw_fund_fee s) t1 = Ok (f, step')"
    and 3: "grow_fees U (s\<lparr>sw_protocol_fee := p, sw_fund_fee := f\<rparr>) step' = Ok s'"
    using assms by (auto simp: swap_step_fees_def Let_def res_inv)
  show "client_view s' = client_view s"
    using g [OF 3] by (simp add: client_view_def)
  show "sc_sqrt_price_next_x64 step' = sc_sqrt_price_next_x64 step" "sc_tick_next step' = sc_tick_next step"
    "sc_initialized step' = sc_initialized step" "sc_sqrt_price_start_x64 step' = sc_sqrt_price_start_x64 step"
    using t [OF 1] t [OF 2] by simp_all
qed

lemma client_step_core:
  assumes "tick_core t = tick_core t'"
  shows "client_step U ce s t = client_step U ce s t'"
proof -
  have "ts_tick t = ts_tick t'" "ts_liquidity_net t = ts_liquidity_net t'"
    using assms by (simp_all add: tick_core_def)
  then show ?thesis
    unfolding client_step_def initialized_core [OF assms] by (simp only:)
qed

context uint_crate
begin

text \<open>The client's step does to its view of the state what the four stages of the program do.\<close>

lemma client_step_follows:
  assumes r: "same_request env ce"
    and start: "swap_step_start U env s t = Ok (step, target)"
    and move: "swap_step_move U env target s step = Ok (s1, step1)"
    and fees: "swap_step_fees U env s1 step1 = Ok (s2, step2)"
    and shift: "swap_step_shift U env t s2 step2 arr = Ok (s3, arr')"
  shows "client_step U ce (client_view s) t = Ok (client_view s3)"
proof -
  define n where "n = max MIN_TICK (min MAX_TICK (ts_tick t))"
  note st = swap_step_start_OkD [OF start, folded n_def]
  have z: "ce_zero_for_one ce = se_zero_for_one env" "ce_is_base_input ce = se_is_base_input env"
    "ce_fee ce = ac_trade_fee_rate (se_amm_config env)" "ce_sqrt_price_limit_x64 ce = se_sqrt_price_limit_x64 env"
    using r by (auto simp: same_request_def)
  have clamp: "(if ts_tick t < MIN_TICK then MIN_TICK else if ts_tick t > MAX_TICK then MAX_TICK else ts_tick t) = n"
    by (auto simp: n_def MIN_TICK_def MAX_TICK_def)
  have target: "(if se_zero_for_one env \<and> price_at n < se_sqrt_price_limit_x64 env
        \<or> \<not> se_zero_for_one env \<and> price_at n > se_sqrt_price_limit_x64 env
      then se_sqrt_price_limit_x64 env else price_at n) = target"
    using st(2) by (auto simp: max_def min_def)
  obtain c where c: "compute_swap_step U (sw_sqrt_price_x64 s) target (sw_liquidity s)
       (sw_amount_specified_remaining s) (ac_trade_fee_rate (se_amm_config env))
       (se_is_base_input env) (se_zero_for_one env) = Ok c"
    and step1: "step1 = step\<lparr>sc_amount_in := ss_amount_in c, sc_amount_out := ss_amount_out c, sc_fee_amount := ss_fee_amount c\<rparr>"
    and s1: "let used = (if se_is_base_input env then ss_amount_in c + ss_fee_amount c else ss_amount_out c);
         got = (if se_is_base_input env then ss_amount_out c else ss_amount_in c + ss_fee_amount c) in
     used \<le> sw_amount_specified_remaining s \<and> sw_amount_calculated s + got < 2 ^ 64 \<and>
     ss_amount_in c + ss_fee_amount c < 2 ^ 64 \<and>
     s1 = s\<lparr>sw_sqrt_price_x64 := ss_sqrt_price_next_x64 c,
       sw_amount_specified_remaining := sw_amount_specified_remaining s - used,
       sw_amount_calculated := sw_amount_calculated s + got\<rparr>"
    by (rule swap_step_move_OkD [OF move]) (simp add: st(1))
  note f = fees_keep_view [OF fees]
  have step2: "sc_sqrt_price_next_x64 step2 = price_at n" "sc_tick_next step2 = n"
    "sc_initialized step2 = tick_is_initialized t" "sc_sqrt_price_start_x64 step2 = sw_sqrt_price_x64 s"
    by (simp_all add: f step1 st(1))
  define v where "v = client_view s1"
  have v2: "client_view s2 = v" by (simp add: f v_def)
  then have p2: "sw_sqrt_price_x64 s2 = cw_sqrt_price_x64 v" "sw_liquidity s2 = cw_liquidity v"
    by (auto simp: client_view_def)
  have view_tick: "client_view (s2\<lparr>sw_tick := k\<rparr>) = v\<lparr>cw_tick := k\<rparr>" for k
    using v2 by (auto simp: client_view_def)
  have view_cross: "client_view (q\<lparr>sw_tick := k\<rparr>) = v\<lparr>cw_liquidity := L, cw_tick := k\<rparr>"
    if "q = s2\<lparr>sw_liquidity := L\<rparr>" for k L q
    using v2 that by (auto simp: client_view_def)
  have view_same: "v = client_view q" if "s2 = q" for q
    using v2 that by simp
  have rest: "(if cw_sqrt_price_x64 v = price_at n then
        rbind (if tick_is_initialized t then
                 rbind (if se_zero_for_one env then chk_i 128 (- ts_liquidity_net t) else Ok (ts_liquidity_net t)) (\<lambda>liquidity_net.
                 rbind (unwrap_result (add_delta (cw_liquidity v) liquidity_net)) (\<lambda>liquidity.
                 Ok (v\<lparr>cw_liquidity := liquidity\<rparr>)))
               else Ok v) (\<lambda>state.
        rbind (if se_zero_for_one env then chk_i 32 (n - 1) else Ok n) (\<lambda>tick.
        Ok (state\<lparr>cw_tick := tick\<rparr>)))
      else if cw_sqrt_price_x64 v \<noteq> sw_sqrt_price_x64 s then
        rbind (unwrap_result (get_tick_at_sqrt_price U (cw_sqrt_price_x64 v))) (\<lambda>tick.
        Ok (v\<lparr>cw_tick := tick\<rparr>))
      else Ok v) = Ok (client_view s3)"
    using shift unfolding swap_step_shift_def step2 p2 cross_next_tick_def Let_def
    by (auto simp: res_inv v2 view_tick view_cross intro: view_same dest!: tick_cross_OkD(1) split: if_splits)
  have v: "v = \<lparr>cw_amount_specified_remaining = sw_amount_specified_remaining s
        - (if se_is_base_input env then ss_amount_in c + ss_fee_amount c else ss_amount_out c),
      cw_amount_calculated = sw_amount_calculated s
        + (if se_is_base_input env then ss_amount_out c else ss_amount_in c + ss_fee_amount c),
      cw_sqrt_price_x64 = ss_sqrt_price_next_x64 c, cw_tick = sw_tick s, cw_liquidity = sw_liquidity s\<rparr>"
    using s1 by (simp add: v_def client_view_def Let_def)
  have amounts: "rbind (if se_is_base_input env then
               rbind (chk_add 64 (ss_amount_in c) (ss_fee_amount c)) (\<lambda>paid.
               rbind (unwrap (checked_sub (sw_amount_specified_remaining s) paid)) (\<lambda>remaining.
               rbind (unwrap (checked_add 64 (sw_amount_calculated s) (ss_amount_out c))) (\<lambda>calculated.
               Ok ((client_view s)\<lparr>cw_sqrt_price_x64 := ss_sqrt_price_next_x64 c,
                 cw_amount_specified_remaining := remaining, cw_amount_calculated := calculated\<rparr>))))
             else
               rbind (unwrap (checked_sub (sw_amount_specified_remaining s) (ss_amount_out c))) (\<lambda>remaining.
               rbind (chk_add 64 (ss_amount_in c) (ss_fee_amount c)) (\<lambda>paid.
               rbind (unwrap (checked_add 64 (sw_amount_calculated s) paid)) (\<lambda>calculated.
               Ok ((client_view s)\<lparr>cw_sqrt_price_x64 := ss_sqrt_price_next_x64 c,
                 cw_amount_specified_remaining := remaining, cw_amount_calculated := calculated\<rparr>))))) k = k v"
    for k :: "client_swap_state \<Rightarrow> client_swap_state res"
    using s1 unfolding v
    by (cases "se_is_base_input env"; simp add: Let_def chk_add_def checked_sub_def checked_add_def client_view_def)
  have sel: "cw_sqrt_price_x64 (client_view s) = sw_sqrt_price_x64 s" "cw_liquidity (client_view s) = sw_liquidity s"
    "cw_amount_specified_remaining (client_view s) = sw_amount_specified_remaining s"
    "cw_amount_calculated (client_view s) = sw_amount_calculated s"
    "cw_amount_specified_remaining ((client_view s)\<lparr>cw_sqrt_price_x64 := q\<rparr>) = sw_amount_specified_remaining s"
    "cw_amount_calculated ((client_view s)\<lparr>cw_sqrt_price_x64 := q\<rparr>) = sw_amount_calculated s" for q
    by (simp_all add: client_view_def)
  have price: "unwrap_result (get_sqrt_price_at_tick U n) = Ok (price_at n)"
    by (simp add: get_sqrt_price_at_tick_Ok [OF st(4,5)])
  show ?thesis
    unfolding client_step_def Let_def z clamp price rbind.simps target sel c amounts
    by (rule rest)
qed

end

section \<open>In step\<close>

text \<open>
  The search for the next array does not read the rewards, which the program has updated by
  then and the client has not.
\<close>

lemma pool_next_loop_rewards:
  "pool_next_loop (p\<lparr>ps_reward_infos := infos\<rparr>) ext t z = pool_next_loop p ext t z"
proof (induction p ext t z rule: pool_next_loop.induct)
  case (1 p ext t z)
  define first where "first = next_initialized_tick_array_start_index (ps_tick_array_bitmap p) t (ps_tick_spacing p) z"
  define second where "second e s = next_initialized_tick_array_from_one_bitmap e s (ps_tick_spacing p) z" for e s
  have go_on: "pool_next_loop (p\<lparr>ps_reward_infos := infos\<rparr>) (Some e) u z = pool_next_loop p (Some e) u z"
    if "first = Ok (False, s)" "ext = Some e" "second e s = Ok (False, u)" "\<not> (u < MIN_TICK \<or> u > MAX_TICK)" for s e u
    using 1 that unfolding first_def second_def by blast
  show ?case
    by (subst (1 2) pool_next_loop.simps)
      (cases first; cases ext; auto simp: first_def [symmetric] second_def [symmetric]
        intro!: rbind_fundef_cong go_on split: prod.splits if_splits)
qed

lemma search_without_rewards:
  "pool_next_initialized_tick_array_start_index (p\<lparr>ps_reward_infos := infos\<rparr>) ext t z
     = pool_next_initialized_tick_array_start_index p ext t z"
  "get_first_initialized_tick_array (p\<lparr>ps_reward_infos := infos\<rparr>) ext z = get_first_initialized_tick_array p ext z"
  by (simp_all add: pool_next_initialized_tick_array_start_index_def pool_next_loop_rewards
      get_first_initialized_tick_array_def is_overflow_default_tickarray_bitmap_def
      tick_array_start_index_range_def cong del: rbind_weak_cong if_weak_cong)

text \<open>
  Where the swap of the program and that of the client are: the same state, as far as the client
  keeps it, the same queue, and arrays that differ in growth only.  The client looks for the next
  array from the first one each time, so it is there or one further.
\<close>

definition in_step :: "client_swap_env \<Rightarrow> swap_vars \<Rightarrow> client_swap_vars \<Rightarrow> bool" where
  "in_step ce v cv \<longleftrightarrow> cv_state cv = client_view (sv_state v)
     \<and> same_ticks (sv_tick_array_current v) (cv_tick_array_current cv)
     \<and> cv_tick_arrays cv = sv_tick_array_states v
     \<and> cv_tick_match_current_tick_array cv = sv_is_match_pool_current_tick_array v
     \<and> (\<forall>A \<in> set (cv_tick_array_current cv # cv_tick_arrays cv). placed (ps_tick_spacing (ce_pool_state ce)) A)
     \<and> distinct (map ta_start_tick_index (cv_tick_array_current cv # cv_tick_arrays cv))
     \<and> (sv_current_vaild_tick_array_start_index v = ce_current_vaild_tick_array_start_index ce
        \<or> pool_next_initialized_tick_array_start_index (ce_pool_state ce) (Some (ce_tickarray_bitmap_extension ce))
            (ce_current_vaild_tick_array_start_index ce) (ce_zero_for_one ce)
          = Ok (Some (ta_start_tick_index (cv_tick_array_current cv))))"

lemma placed_core:
  assumes "same_ticks A B" "placed ts B"
  shows "placed ts A"
proof -
  have len: "length (ta_ticks A) = 60"
    using assms map_eq_imp_length_eq [of tick_core "ta_ticks A" tick_core "ta_ticks B"]
    by (simp add: same_ticks_def placed_def)
  have "tick_core (ta_ticks A ! i) = tick_core (ta_ticks B ! i)" if "i < 60" for i
    using assms(1) len that by (auto simp: same_ticks_def intro: core_nth)
  then have "tick_is_initialized (ta_ticks A ! i) = tick_is_initialized (ta_ticks B ! i)
      \<and> ts_tick (ta_ticks A ! i) = ts_tick (ta_ticks B ! i)" if "i < 60" for i
    using initialized_core [of "ta_ticks A ! i" "ta_ticks B ! i"] that by (simp add: tick_core_def)
  with assms len show ?thesis
    by (simp add: placed_def same_ticks_def)
qed

lemma same_ticks_nth:
  assumes "same_ticks A B" "placed ts A" "i < 60"
  shows "tick_core (ta_ticks A ! i) = tick_core (ta_ticks B ! i)"
  using assms by (auto simp: same_ticks_def placed_def intro: core_nth)

lemma placed_moderate:
  assumes "placed ts A" "spacing_ok ts" "i < 60" "tick_is_initialized (ta_ticks A ! i)"
  shows "moderate (ts_tick (ta_ticks A ! i))"
proof -
  have s: "valid_start (ta_start_tick_index A) ts" and t: "ts_tick (ta_ticks A ! i) = ta_start_tick_index A + int i * int ts"
    using assms by (auto simp: placed_def)
  define k where "k = int i * int ts"
  have "k \<le> 59 * int ts" "0 \<le> k" "int ts < 65536"
    using assms(2,3) mult_right_mono [of "int i" 59 "int ts"] by (auto simp: spacing_ok_def k_def)
  then show ?thesis
    using valid_start_bounds [OF assms(2) s] unfolding t k_def [symmetric]
    by (simp add: moderate_def tick_count_eq MIN_TICK_def MAX_TICK_def)
qed

lemma in_step_env:
  assumes "same_request env ce"
  shows "ps_tick_spacing (se_pool_state env) = ps_tick_spacing (ce_pool_state ce)" "se_zero_for_one env = ce_zero_for_one ce"
    "pool_next_initialized_tick_array_start_index (se_pool_state env) (se_tickarray_bitmap_extension env) t z
      = pool_next_initialized_tick_array_start_index (ce_pool_state ce) (Some (ce_tickarray_bitmap_extension ce)) t z"
  using assms by (auto simp: same_request_def search_without_rewards)

lemma in_array_agrees:
  assumes r: "same_request env ce" and R: "in_step ce v cv"
    and ts: "spacing_ok (ps_tick_spacing (ce_pool_state ce))" and m: "moderate (sw_tick (sv_state v))"
    and P: "next_tick_in_array env v = Ok (t, v1)" and C: "client_tick_in_array ce cv = Ok (t', cv1)"
  shows "in_step ce v1 cv1" "tick_core t = tick_core t'"
    "tick_is_initialized t \<Longrightarrow> \<exists>i < 60. t = ta_ticks (sv_tick_array_current v1) ! i"
proof -
  define A B where "A = sv_tick_array_current v" and "B = cv_tick_array_current cv"
  note e = in_step_env [OF r]
  have same: "same_ticks A B" and pB: "placed (ps_tick_spacing (ce_pool_state ce)) B"
    and t: "cw_tick (cv_state cv) = sw_tick (sv_state v)"
    and flag: "cv_tick_match_current_tick_array cv = sv_is_match_pool_current_tick_array v"
    using R by (auto simp: in_step_def A_def B_def client_view_def)
  note pA = placed_core [OF same pB]
  then have len: "length (ta_ticks A) = 60" by (simp add: placed_def)
  note nxt = next_tick_core [OF same len m ts, of "ce_zero_for_one ce"] and first = first_tick_core [OF same len, of "ce_zero_for_one ce"]
  obtain found where f: "next_initialized_tick A (sw_tick (sv_state v)) (ps_tick_spacing (ce_pool_state ce)) (ce_zero_for_one ce) = Ok found"
    and P': "(case found of Some i \<Rightarrow> Ok (ta_ticks A ! i, v) | None \<Rightarrow>
          if \<not> sv_is_match_pool_current_tick_array v then
            rbind (first_initialized_tick A (ce_zero_for_one ce)) (\<lambda>i. Ok (ta_ticks A ! i, v\<lparr>sv_is_match_pool_current_tick_array := True\<rparr>))
          else Ok (default_tick_state, v)) = Ok (t, v1)"
    using P unfolding next_tick_in_array_def Let_def e A_def [symmetric] by (auto simp: res_inv)
  have C': "(case found of Some i \<Rightarrow> Ok (ta_ticks B ! i, cv) | None \<Rightarrow>
          if \<not> sv_is_match_pool_current_tick_array v then
            rbind (unwrap_result (first_initialized_tick B (ce_zero_for_one ce))) (\<lambda>i. Ok (ta_ticks B ! i, cv\<lparr>cv_tick_match_current_tick_array := True\<rparr>))
          else Ok (default_tick_state, cv)) = Ok (t', cv1)"
    using C unfolding client_tick_in_array_def Let_def B_def [symmetric] t nxt [symmetric] f flag by simp
  consider (tick) i where "found = Some i" | (first) i where "found = None" "\<not> sv_is_match_pool_current_tick_array v" "first_initialized_tick A (ce_zero_for_one ce) = Ok i"
    | (none) "found = None" "sv_is_match_pool_current_tick_array v"
    using P' by (cases found) (auto simp: res_inv split: if_splits)
  then have "in_step ce v1 cv1 \<and> tick_core t = tick_core t' \<and> (tick_is_initialized t \<longrightarrow> (\<exists>i < 60. t = ta_ticks (sv_tick_array_current v1) ! i))"
  proof cases
    case tick
    then have "i < 60" using found_in_array f m ts by blast
    then show ?thesis
      using tick P' C' R same_ticks_nth [OF same pA, of i] by (auto simp: A_def)
  next
    case first
    have "first_initialized_tick B (ce_zero_for_one ce) = Ok i"
      using first(3) first_tick_core [OF same len] by simp
    then show ?thesis
      using first P' C' R same_ticks_nth [OF same pA, of i] first_in_array(1) [OF first(3)] by (auto simp: A_def in_step_def)
  next
    case none
    then show ?thesis
      using P' C' R by (auto simp: default_tick_state_def tick_is_initialized_def)
  qed
  then show "in_step ce v1 cv1" "tick_core t = tick_core t'"
    "tick_is_initialized t \<Longrightarrow> \<exists>i < 60. t = ta_ticks (sv_tick_array_current v1) ! i"
    by blast+
qed

lemma in_next_array_agrees:
  assumes r: "same_request env ce" and R: "in_step ce v cv"
    and P: "next_tick_in_next_array D env v = Ok (t, v1)" and C: "client_tick_in_next_array ce cv = Ok (t', cv1)"
  shows "in_step ce v1 cv1" "t = t'" "tick_is_initialized t" "\<exists>i < 60. t = ta_ticks (sv_tick_array_current v1) ! i"
    "sv_state v1 = sv_state v"
proof -
  note e = in_step_env [OF r]
  obtain index a rest i where nxt: "pool_next_initialized_tick_array_start_index (ce_pool_state ce) (Some (ce_tickarray_bitmap_extension ce))
      (ce_current_vaild_tick_array_start_index ce) (ce_zero_for_one ce) = Ok (Some index)"
    and queue: "cv_tick_arrays cv = a # rest" and start: "ta_start_tick_index a = index"
    and i: "first_initialized_tick a (ce_zero_for_one ce) = Ok i" "t' = ta_ticks a ! i"
    and cv1: "cv1 = cv\<lparr>cv_tick_array_current := a, cv_tick_arrays := rest,
        cv_tick_array_start_index_vec := cv_tick_array_start_index_vec cv @ [ta_start_tick_index a]\<rparr>"
    using C by (cases "cv_tick_arrays cv") (auto simp: client_tick_in_next_array_def res_inv)
  have other: "ta_start_tick_index (cv_tick_array_current cv) \<noteq> index"
    using R queue start by (auto simp: in_step_def)
  then have valid: "sv_current_vaild_tick_array_start_index v = ce_current_vaild_tick_array_start_index ce"
    using R nxt by (auto simp: in_step_def)
  have cur: "ta_start_tick_index (sv_tick_array_current v) \<noteq> index" and sq: "sv_tick_array_states v = a # rest"
    using R other queue by (auto simp: in_step_def same_ticks_def)
  have pop: "pop_tick_arrays D q index passed a rest = Ok (passed, a, rest)" for q passed
    using start by (cases rest) simp_all
  obtain passed where v1: "v1 = v\<lparr>sv_passed := passed, sv_tick_array_current := a, sv_tick_array_states := rest,
        sv_current_vaild_tick_array_start_index := index\<rparr>" and t: "t = ta_ticks a ! i"
    using P unfolding next_tick_in_next_array_def e valid sq by (auto simp: res_inv nxt cur pop i)
  show "in_step ce v1 cv1"
    using R queue nxt start unfolding in_step_def v1 cv1 by (auto simp: sq)
  show "t = t'" "tick_is_initialized t" "\<exists>i < 60. t = ta_ticks (sv_tick_array_current v1) ! i" "sv_state v1 = sv_state v"
    using i first_in_array [OF i(1)] by (auto simp: t v1)
qed

lemma find_agrees:
  assumes r: "same_request env ce" and R: "in_step ce v cv"
    and ts: "spacing_ok (ps_tick_spacing (ce_pool_state ce))" and m: "moderate (sw_tick (sv_state v))"
    and P: "find_next_tick D env v = Ok (t, v1)" and C: "client_next_tick ce cv = Ok (t', cv1)"
  shows "in_step ce v1 cv1" "tick_core t = tick_core t'" "tick_is_initialized t"
    "\<exists>i < 60. t = ta_ticks (sv_tick_array_current v1) ! i"
proof -
  obtain t0 v0 where p0: "next_tick_in_array env v = Ok (t0, v0)"
    and P': "(if \<not> tick_is_initialized t0 then next_tick_in_next_array D env v0 else Ok (t0, v0)) = Ok (t, v1)"
    using P by (auto simp: find_next_tick_def res_inv)
  obtain t0' cv0 where c0: "client_tick_in_array ce cv = Ok (t0', cv0)"
    and C': "(if \<not> tick_is_initialized t0' then client_tick_in_next_array ce cv0 else Ok (t0', cv0)) = Ok (t', cv1)"
    using C by (auto simp: client_next_tick_def res_inv)
  note here = in_array_agrees [OF r R ts m p0 c0]
  have "in_step ce v1 cv1 \<and> tick_core t = tick_core t' \<and> tick_is_initialized t \<and> (\<exists>i < 60. t = ta_ticks (sv_tick_array_current v1) ! i)"
  proof (cases "tick_is_initialized t0")
    case True
    then show ?thesis
      using here P' C' initialized_core [OF here(2)] by auto
  next
    case False
    then have "next_tick_in_next_array D env v0 = Ok (t, v1)" "client_tick_in_next_array ce cv0 = Ok (t', cv1)"
      using P' C' initialized_core [OF here(2)] by auto
    from in_next_array_agrees [OF r here(1) this] show ?thesis by simp
  qed
  then show "in_step ce v1 cv1" "tick_core t = tick_core t'" "tick_is_initialized t"
    "\<exists>i < 60. t = ta_ticks (sv_tick_array_current v1) ! i"
    by blast+
qed

context uint_crate
begin

lemma turn_in_step:
  assumes r: "same_request env ce" and R: "in_step ce v cv"
    and ts: "spacing_ok (ps_tick_spacing (ce_pool_state ce))" and m: "moderate (sw_tick (sv_state v))"
    and P: "swap_loop_body U D env v = Ok v'"
    and C: "client_next_tick ce cv = Ok (t', cv1)" "client_step U ce (cv_state cv1) t' = Ok state"
  shows "in_step ce v' (cv1\<lparr>cv_state := state\<rparr>)"
proof -
  obtain t v1 step target s1 step1 s2 step2 s3 arr where
    find: "find_next_tick D env v = Ok (t, v1)"
    and start: "swap_step_start U env (sv_state v1) t = Ok (step, target)"
    and move: "swap_step_move U env target (sv_state v1) step = Ok (s1, step1)"
    and fees: "swap_step_fees U env s1 step1 = Ok (s2, step2)"
    and shift: "swap_step_shift U env t s2 step2 (sv_tick_array_current v1) = Ok (s3, arr)"
    and v': "v' = v1\<lparr>sv_state := s3, sv_tick_array_current := arr\<rparr>"
    by (rule swap_loop_body_OkE [OF P])
  note f = find_agrees [OF r R ts m find C(1)]
  have "cv_state cv1 = client_view (sv_state v1)"
    using f(1) by (simp add: in_step_def)
  then have state: "state = client_view s3"
    using C(2) client_step_follows [OF r start move fees shift] client_step_core [OF f(2)] by simp
  obtain i where i: "i < 60" "t = ta_ticks (sv_tick_array_current v1) ! i"
    using f(4) by blast
  have p: "placed (ps_tick_spacing (ce_pool_state ce)) (sv_tick_array_current v1)"
    using f(1) placed_core by (auto simp: in_step_def)
  have "same_ticks arr (sv_tick_array_current v1)"
  proof (cases "\<exists>n t1 q. tick_cross t (fst q) (snd q) (se_updated_reward_infos env) = Ok (n, t1)
      \<and> update_tick_state (sv_tick_array_current v1) (ts_tick t1) (ps_tick_spacing (se_pool_state env)) t1 = Ok arr")
    case True
    then obtain n t1 q where c: "tick_cross t (fst q) (snd q) (se_updated_reward_infos env) = Ok (n, t1)"
      and up: "update_tick_state (sv_tick_array_current v1) (ts_tick t1) (ps_tick_spacing (ce_pool_state ce)) t1 = Ok arr"
      unfolding in_step_env(1) [OF r] by blast
    note tc = tick_cross_OkD(2-4) [OF c]
    have core: "tick_core t1 = tick_core (ta_ticks (sv_tick_array_current v1) ! i)"
      by (simp add: tick_core_def tc i(2) [symmetric])
    have ini: "tick_is_initialized (ta_ticks (sv_tick_array_current v1) ! i)"
      using f(3) i(2) by simp
    have "moderate (ts_tick t1)"
      using placed_moderate [OF p ts i(1) ini] i(2) by (simp add: tc)
    from update_keeps_core [OF up p ts i(1) ini core this] show ?thesis .
  next
    case False
    then have "arr = sv_tick_array_current v1"
      using shift by (auto simp: swap_step_shift_def cross_next_tick_def Let_def res_inv split: if_splits) 
    then show ?thesis by simp
  qed
  then show ?thesis
    using f(1) unfolding v' state by (auto simp: in_step_def same_ticks_def)
qed

end

section \<open>The whole swap\<close>

text \<open>
  The client also stops at the first and at the last tick; a swap that ends above the tick after
  the first does not come that far.
\<close>

definition inside :: "swap_state \<Rightarrow> bool" where
  "inside s \<longleftrightarrow> MIN_TICK < sw_tick s \<and> sw_tick s < MAX_TICK
     \<and> price_at (MIN_TICK + 1) < sw_sqrt_price_x64 s \<and> sw_sqrt_price_x64 s < MAX_SQRT_PRICE_X64"

lemma continues_agree:
  assumes "same_request env ce" "in_step ce v cv" "inside (sv_state v)"
  shows "client_continues ce cv = swap_continues env v"
  using assms by (auto simp: same_request_def in_step_def inside_def client_continues_def swap_continues_def client_view_def)

context uint_crate
begin

lemma body_stays_inside:
  assumes e: "env_ok env" and s: "state_ok env (sv_state v)" and i: "inside (sv_state v)"
    and ok: "swap_loop_body U D env v = Ok v'" and l: "price_at (MIN_TICK + 1) < sw_sqrt_price_x64 (sv_state v')"
  shows "inside (sv_state v')"
proof -
  define p where "p = sw_sqrt_price_x64 (sv_state v')"
  have p: "price_at (MIN_TICK + 1) < p" "p < MAX_SQRT_PRICE_X64"
    using swap_loop_body_OkD(2) [OF e s ok] e i l unfolding p_def progress_def price_between_def env_ok_def inside_def
    by (auto split: if_splits)
  from ok have "MIN_TICK < sw_tick (sv_state v') \<and> sw_tick (sv_state v') < MAX_TICK"
  proof (cases rule: swap_loop_body_tick)
    case (at n)
    have "\<not> n \<le> MIN_TICK + 1"
      using price_at_mono [of n "MIN_TICK + 1"] at(1,3) p(1) by (auto simp: p_def MIN_TICK_def MAX_TICK_def)
    moreover have "n \<noteq> MAX_TICK"
      using at(3) p(2) by (auto simp: p_def price_at_MAX_TICK)
    ultimately show ?thesis using at(2,4) by auto
  next
    case between
    have "MIN_SQRT_PRICE_X64 \<le> p"
      using p(1) price_at_bounds [of "MIN_TICK + 1"] by (simp add: MIN_TICK_def MAX_TICK_def)
    from get_tick_at_sqrt_price_correct [OF this p(2)] between
    have t: "MIN_TICK \<le> sw_tick (sv_state v')" "sw_tick (sv_state v') < MAX_TICK" "p < price_at (sw_tick (sv_state v') + 1)"
      by (auto simp: p_def)
    then have "sw_tick (sv_state v') \<noteq> MIN_TICK" using p(1) by (metis less_asym)
    with t show ?thesis by simp
  next
    case stay
    then show ?thesis using i by (simp add: inside_def)
  qed
  with p show ?thesis by (simp add: inside_def p_def)
qed

lemma loops_agree:
  assumes r: "same_request env ce" and e: "env_ok env" and ts: "spacing_ok (ps_tick_spacing (ce_pool_state ce))"
    and l: "price_at (MIN_TICK + 1) < sw_sqrt_price_x64 (sv_state v')"
  shows "client_swap_loop U ce n cv = Ok cv' \<Longrightarrow> swap_loop U D env v = Some (Ok v') \<Longrightarrow> in_step ce v cv
    \<Longrightarrow> state_ok env (sv_state v) \<Longrightarrow> inside (sv_state v) \<Longrightarrow> in_step ce v' cv'"
proof (induction "11 - n" arbitrary: n v cv rule: less_induct)
  case less
  note go = continues_agree [OF r less.prems(3,5)]
  show ?case
  proof (cases "swap_continues env v")
    case False
    then have "cv' = cv" "v' = v"
      using less.prems(1,2) go by (simp_all add: client_swap_loop.simps [of U ce n cv] swap_loop.simps [of U D env v])
    with less.prems(3) show ?thesis by simp
  next
    case True
    obtain v1 where body: "swap_loop_body U D env v = Ok v1" and more: "swap_loop U D env v1 = Some (Ok v')"
      using less.prems(2) True by (auto simp: swap_loop.simps [of U D env v] split: res.splits)
    have "\<not> 10 < n"
    proof
      assume "10 < n"
      then show False using less.prems(1) True go by (simp add: client_swap_loop.simps [of U ce n cv])
    qed
    then obtain t cv1 state where c: "client_next_tick ce cv = Ok (t, cv1)" "client_step U ce (cv_state cv1) t = Ok state"
      and cmore: "client_swap_loop U ce (n + 1) (cv1\<lparr>cv_state := state\<rparr>) = Ok cv'" and n: "11 - (n + 1) < 11 - n"
      using less.prems(1) True go by (auto simp: client_swap_loop.simps [of U ce n cv] res_inv)
    have m: "moderate (sw_tick (sv_state v))"
      using less.prems(5) by (auto simp: inside_def intro: moderate_tick)
    note b = swap_loop_body_OkD(1,2) [OF e less.prems(4) body]
    have "progress env (sv_state v1) (sv_state v')"
      using swap_loop_ends [OF e b(1), of D] more by auto
    then have "price_at (MIN_TICK + 1) < sw_sqrt_price_x64 (sv_state v1)"
      using b(2) l less.prems(5) by (auto simp: progress_def price_between_def inside_def split: if_splits)
    then show ?thesis
      by (rule less.hyps [OF n cmore more turn_in_step [OF r less.prems(3) ts m body c] b(1)
            body_stays_inside [OF e less.prems(4,5) body]])
  qed
qed

end

lemma begin_in_step:
  assumes P: "swap_begin U D c p arrays obs (Some ext) amount plim z base now = Ok (env, v)"
    and first: "get_first_initialized_tick_array p (Some ext) z = Ok (is_match, start)"
    and arrays: "arrays = a # rest" "ta_start_tick_index a = start"
    and placed: "\<forall>A \<in> set arrays. placed (ps_tick_spacing p) A" "distinct (map ta_start_tick_index arrays)"
  defines "ce \<equiv> \<lparr>ce_zero_for_one = z, ce_is_base_input = base, ce_fee = ac_trade_fee_rate c,
      ce_sqrt_price_limit_x64 = plim, ce_current_vaild_tick_array_start_index = start, ce_pool_state = p,
      ce_tickarray_bitmap_extension = ext\<rparr>"
  shows "same_request env ce"
    "in_step ce v \<lparr>cv_state = client_view (sv_state v), cv_tick_array_current = a, cv_tick_arrays = rest,
       cv_tick_match_current_tick_array = is_match, cv_tick_array_start_index_vec = [start]\<rparr>"
proof -
  note b = swap_begin_OkD [OF P]
  obtain infos where pool: "se_pool_state env = p\<lparr>ps_reward_infos := infos\<rparr>" "update_reward_infos U p now = Ok (infos, p\<lparr>ps_reward_infos := infos\<rparr>)"
    using b(5) by blast
  have pop: "pop_first_tick_array start arrays = Ok ([], a, rest)"
    using arrays by (cases rest) (simp_all add: pop_first_tick_array_def)
  have v: "sv_tick_array_current v = a" "sv_tick_array_states v = rest" "sv_is_match_pool_current_tick_array v = is_match"
    "sv_current_vaild_tick_array_start_index v = start" "se_tickarray_bitmap_extension env = Some ext"
    using P unfolding swap_begin_def pool(2) rbind.simps prod.case search_without_rewards first pop
    by (auto simp: res_inv Let_def)
  show "same_request env ce"
    using pool(1) by (auto simp: same_request_def ce_def b(1-4) v)
  show "in_step ce v \<lparr>cv_state = client_view (sv_state v), cv_tick_array_current = a, cv_tick_arrays = rest,
       cv_tick_match_current_tick_array = is_match, cv_tick_array_start_index_vec = [start]\<rparr>"
    using placed arrays by (simp add: in_step_def v ce_def)
qed

lemma swap_compute_OkE:
  assumes "get_out_put_amount_and_remaining_accounts U amount limit z base c p ext arrays = Ok (n, starts)"
  defines "l \<equiv> (case limit of None \<Rightarrow> 0 | Some l \<Rightarrow> l)"
  defines "plim \<equiv> (if l = 0 then if z then MIN_SQRT_PRICE_X64 + 1 else MAX_SQRT_PRICE_X64 - 1 else l)"
  obtains is_match start a rest cv where
    "get_first_initialized_tick_array p (Some ext) z = Ok (is_match, start)" "arrays = a # rest" "ta_start_tick_index a = start"
    "client_swap_loop U \<lparr>ce_zero_for_one = z, ce_is_base_input = base, ce_fee = ac_trade_fee_rate c,
      ce_sqrt_price_limit_x64 = plim, ce_current_vaild_tick_array_start_index = start, ce_pool_state = p,
      ce_tickarray_bitmap_extension = ext\<rparr> 0
      \<lparr>cv_state = \<lparr>cw_amount_specified_remaining = amount, cw_amount_calculated = 0, cw_sqrt_price_x64 = ps_sqrt_price_x64 p,
          cw_tick = ps_tick_current p, cw_liquidity = ps_liquidity p\<rparr>,
       cv_tick_array_current = a, cv_tick_arrays = rest, cv_tick_match_current_tick_array = is_match,
       cv_tick_array_start_index_vec = [start]\<rparr> = Ok cv"
    "n = cw_amount_calculated (cv_state cv)" "starts = cv_tick_array_start_index_vec cv"
  using assms(1) unfolding get_out_put_amount_and_remaining_accounts_def swap_compute_def Let_def l_def [symmetric] plim_def [symmetric]
  by (cases arrays) (auto simp: res_inv)

lemma client_agrees_with_program:
  assumes U: "uint_crate U" and c: "ac_trade_fee_rate c < FEE_RATE_DENOMINATOR_VALUE" and amount: "amount < 2 ^ 64"
    and p: "ps_liquidity p < 2 ^ 128" "spacing_ok (ps_tick_spacing p)" "MIN_TICK < ps_tick_current p" "ps_tick_current p < MAX_TICK"
    and price: "price_at (MIN_TICK + 1) < ps_sqrt_price_x64 p" "ps_sqrt_price_x64 p < MAX_SQRT_PRICE_X64"
      "price_at (MIN_TICK + 1) < ps_sqrt_price_x64 p'"
    and arrays: "\<forall>A \<in> set arrays. placed (ps_tick_spacing p) A" "distinct (map ta_start_tick_index arrays)"
    and C: "get_out_put_amount_and_remaining_accounts U amount limit z base c p ext arrays = Ok (n, starts)"
    and P: "swap_internal U D c p arrays obs (Some ext) amount
      (case limit of None \<Rightarrow> plim0 | Some l \<Rightarrow> if l = 0 then plim0 else l) z base now = Some (Ok ((a0, a1), p', arrays', obs'))"
    and plim0: "plim0 = (if z then MIN_SQRT_PRICE_X64 + 1 else MAX_SQRT_PRICE_X64 - 1)"
  shows "n = (if z = base then a1 else a0)"
proof -
  define l where "l = (case limit of None \<Rightarrow> 0 | Some l \<Rightarrow> l)"
  define plim where "plim = (if l = 0 then if z then MIN_SQRT_PRICE_X64 + 1 else MAX_SQRT_PRICE_X64 - 1 else l)"
  have "(case limit of None \<Rightarrow> plim0 | Some l \<Rightarrow> if l = 0 then plim0 else l) = plim"
    by (simp add: plim_def l_def plim0 split: option.splits)
  note P = P [unfolded this]
  obtain is_match start a rest cv where first: "get_first_initialized_tick_array p (Some ext) z = Ok (is_match, start)"
    and a: "arrays = a # rest" "ta_start_tick_index a = start"
    and cloop: "client_swap_loop U \<lparr>ce_zero_for_one = z, ce_is_base_input = base, ce_fee = ac_trade_fee_rate c,
      ce_sqrt_price_limit_x64 = plim, ce_current_vaild_tick_array_start_index = start, ce_pool_state = p,
      ce_tickarray_bitmap_extension = ext\<rparr> 0
      \<lparr>cv_state = \<lparr>cw_amount_specified_remaining = amount, cw_amount_calculated = 0, cw_sqrt_price_x64 = ps_sqrt_price_x64 p,
          cw_tick = ps_tick_current p, cw_liquidity = ps_liquidity p\<rparr>,
       cv_tick_array_current = a, cv_tick_arrays = rest, cv_tick_match_current_tick_array = is_match,
       cv_tick_array_start_index_vec = [start]\<rparr> = Ok cv"
    and n: "n = cw_amount_calculated (cv_state cv)"
    by (rule swap_compute_OkE [OF C, folded l_def, folded plim_def])
  obtain env v v' where b: "swap_begin U D c p arrays obs (Some ext) amount plim z base now = Ok (env, v)"
    and loop: "swap_loop U D env v = Some (Ok v')" and e: "swap_end U env (sv_state v') obs amount now = Ok ((a0, a1), p', obs')"
    by (rule swap_internal_OkE [OF P])
  have range: "MIN_SQRT_PRICE_X64 \<le> ps_sqrt_price_x64 p" "ps_sqrt_price_x64 p \<le> MAX_SQRT_PRICE_X64"
    using price(1,2) price_at_bounds [of "MIN_TICK + 1"] by (simp_all add: MIN_TICK_def MAX_TICK_def)
  note ok = uint_crate.swap_begin_ok [OF U b c amount range p(1)]
  note bD = swap_begin_OkD [OF b] and eD = swap_end_OkD [OF e]
  note start = begin_in_step [OF b first a arrays]
  have view: "client_view (sv_state v) = \<lparr>cw_amount_specified_remaining = amount, cw_amount_calculated = 0,
      cw_sqrt_price_x64 = ps_sqrt_price_x64 p, cw_tick = ps_tick_current p, cw_liquidity = ps_liquidity p\<rparr>"
    by (simp add: client_view_def bD(6))
  have "inside (sv_state v)"
    using p(3,4) price(1,2) by (simp add: inside_def bD(6))
  moreover have "price_at (MIN_TICK + 1) < sw_sqrt_price_x64 (sv_state v')"
    using price(3) eD(3) by simp
  ultimately have "in_step \<lparr>ce_zero_for_one = z, ce_is_base_input = base, ce_fee = ac_trade_fee_rate c,
      ce_sqrt_price_limit_x64 = plim, ce_current_vaild_tick_array_start_index = start, ce_pool_state = p,
      ce_tickarray_bitmap_extension = ext\<rparr> v' cv"
    using uint_crate.loops_agree [OF U start(1) ok(1) _ _ cloop loop start(2) [unfolded view] ok(2)] p(2) by simp
  then have "cw_amount_calculated (cv_state cv) = sw_amount_calculated (sv_state v')"
    by (simp add: in_step_def client_view_def)
  then show ?thesis
    using n eD(1) bD(3,4) by (auto split: if_splits)
qed

section \<open>The arrays that the client visits\<close>

text \<open>The queue is at the first array, or at the one array that a search from the first one finds.\<close>

definition at_most_one_on :: "client_swap_env \<Rightarrow> client_swap_vars \<Rightarrow> bool" where
  "at_most_one_on ce v \<longleftrightarrow> distinct (map ta_start_tick_index (cv_tick_array_current v # cv_tick_arrays v))
     \<and> (cv_tick_array_start_index_vec v = [ce_current_vaild_tick_array_start_index ce]
        \<or> pool_next_initialized_tick_array_start_index (ce_pool_state ce) (Some (ce_tickarray_bitmap_extension ce))
             (ce_current_vaild_tick_array_start_index ce) (ce_zero_for_one ce)
           = Ok (Some (ta_start_tick_index (cv_tick_array_current v)))
          \<and> cv_tick_array_start_index_vec v
            = [ce_current_vaild_tick_array_start_index ce, ta_start_tick_index (cv_tick_array_current v)])"

lemma in_array_stays:
  assumes "client_tick_in_array ce v = Ok (t, v1)"
  shows "cv_tick_array_current v1 = cv_tick_array_current v" "cv_tick_arrays v1 = cv_tick_arrays v"
    "cv_tick_array_start_index_vec v1 = cv_tick_array_start_index_vec v"
  using assms by (auto simp: client_tick_in_array_def Let_def res_inv split: option.splits if_splits)

lemma next_array_once:
  assumes "at_most_one_on ce v" "client_tick_in_next_array ce v = Ok (t, v1)"
  shows "at_most_one_on ce v1"
proof (cases "cv_tick_arrays v")
  case Nil
  then show ?thesis using assms(2) by (auto simp: client_tick_in_next_array_def res_inv)
next
  case (Cons a rest)
  then show ?thesis using assms by (auto simp: client_tick_in_next_array_def res_inv at_most_one_on_def)
qed

lemma next_tick_once:
  assumes "at_most_one_on ce v" "client_next_tick ce v = Ok (t, v1)"
  shows "at_most_one_on ce v1"
proof -
  obtain t0 v0 where 0: "client_tick_in_array ce v = Ok (t0, v0)"
    and 1: "(if \<not> tick_is_initialized t0 then client_tick_in_next_array ce v0 else Ok (t0, v0)) = Ok (t, v1)"
    using assms(2) by (auto simp: client_next_tick_def res_inv)
  have "at_most_one_on ce v0"
    using assms(1) in_array_stays [OF 0] by (simp add: at_most_one_on_def)
  then show ?thesis
    using 1 next_array_once by (auto split: if_splits)
qed

lemma loop_once:
  "client_swap_loop U ce n v = Ok v' \<Longrightarrow> at_most_one_on ce v \<Longrightarrow> at_most_one_on ce v'"
proof (induction "11 - n" arbitrary: n v rule: less_induct)
  case less
  show ?case
  proof (cases "client_continues ce v")
    case False
    then show ?thesis using less.prems by (simp add: client_swap_loop.simps [of U ce n v])
  next
    case True
    have "\<not> 10 < n"
    proof
      assume "10 < n"
      then show False using less.prems(1) True by (simp add: client_swap_loop.simps [of U ce n v])
    qed
    then obtain t v1 state where c: "client_next_tick ce v = Ok (t, v1)"
      and more: "client_swap_loop U ce (n + 1) (v1\<lparr>cv_state := state\<rparr>) = Ok v'" and n: "11 - (n + 1) < 11 - n"
      using less.prems(1) True by (auto simp: client_swap_loop.simps [of U ce n v] res_inv)
    have "at_most_one_on ce (v1\<lparr>cv_state := state\<rparr>)"
      using next_tick_once [OF less.prems(2) c] by (simp add: at_most_one_on_def)
    then show ?thesis by (rule less.hyps [OF n more])
  qed
qed

section \<open>The sample, computed by the client\<close>

lemma sample_placed: "placed 10 swap_sample_array"
proof -
  have "spacing_ok 10" by (simp add: spacing_ok_def)
  then have "valid_start 0 10"
    using array_start_bounds(1) [of 10 MIN_TICK] by (simp add: valid_start_def MIN_TICK_def MAX_TICK_def)
  then show ?thesis
    by (auto simp: placed_def swap_sample_array_def default_tick_array_def nth_list_update swap_sample_tick_def
        tick_is_initialized_def default_tick_state_def)
qed

lemma sample_client_computes:
  assumes "18455969290605287889 \<le> limit" "limit < MAX_SQRT_PRICE_X64"
  shows "get_out_put_amount_and_remaining_accounts uint_ref 10000 (Some limit) False True swap_sample_config swap_sample_pool
    default_bitmap_extension [swap_sample_array] = Ok (9974, [0])"
proof -
  define ce where "ce = \<lparr>ce_zero_for_one = False, ce_is_base_input = True, ce_fee = ac_trade_fee_rate swap_sample_config,
      ce_sqrt_price_limit_x64 = limit, ce_current_vaild_tick_array_start_index = 0, ce_pool_state = swap_sample_pool,
      ce_tickarray_bitmap_extension = default_bitmap_extension\<rparr>"
  define cv where "cv = \<lparr>cv_state = client_view (sv_state swap_sample_vars), cv_tick_array_current = swap_sample_array,
       cv_tick_arrays = [], cv_tick_match_current_tick_array = True, cv_tick_array_start_index_vec = [0]\<rparr>"
  define env where "env = swap_sample_env (Some default_bitmap_extension) limit"
  obtain v' where body: "swap_loop_body uint_ref sample_pda env swap_sample_vars = Ok v'"
    and v': "sv_state v' = (sv_state swap_sample_vars)\<lparr>sw_amount_specified_remaining := 0, sw_amount_calculated := 9974,
       sw_sqrt_price_x64 := 18446928079981686868, sw_tick := 0, sw_protocol_fee := 3, sw_fund_fee := 1, sw_fee_amount := 21,
       sw_fee_growth_global_x64 := 21 * 2 ^ 64 div 1000000000\<rparr>"
    using sample_body [OF assms(1)] unfolding env_def by blast
  obtain t v1 step target s1 step1 s2 step2 s3 arr where
    find: "find_next_tick sample_pda env swap_sample_vars = Ok (t, v1)"
    and start: "swap_step_start uint_ref env (sv_state v1) t = Ok (step, target)"
    and move: "swap_step_move uint_ref env target (sv_state v1) step = Ok (s1, step1)"
    and fees: "swap_step_fees uint_ref env s1 step1 = Ok (s2, step2)"
    and shift: "swap_step_shift uint_ref env t s2 step2 (sv_tick_array_current v1) = Ok (s3, arr)"
    and s3: "v' = v1\<lparr>sv_state := s3, sv_tick_array_current := arr\<rparr>"
    by (rule swap_loop_body_OkE [OF body])
  have t: "t = swap_sample_tick" "v1 = swap_sample_vars"
    using find by (simp_all add: env_def sample_find)
  have r: "same_request env ce"
    unfolding same_request_def env_def ce_def swap_sample_env_def
    by (simp, rule exI [of _ "ps_reward_infos swap_sample_pool"], simp)
  have step: "client_step uint_ref ce (cv_state cv) swap_sample_tick = Ok (client_view (sv_state v'))"
    using uint_ref.client_step_follows [OF r start move fees shift] s3 by (simp add: cv_def t)
  have pool: "ps_tick_spacing swap_sample_pool = 10" "ps_sqrt_price_x64 swap_sample_pool = 2 ^ 64"
    "ps_tick_current swap_sample_pool = 0" "ps_liquidity swap_sample_pool = 1000000000"
    by (simp_all add: swap_sample_pool_def sample_pool_def default_pool_def)
  have arr: "ta_ticks swap_sample_array ! 1 = swap_sample_tick" "ta_start_tick_index swap_sample_array = 0"
    by (simp_all add: swap_sample_array_def default_tick_array_def)
  have nxt: "client_next_tick ce cv = Ok (swap_sample_tick, cv)"
    using sample_next_tick arr(1) by (simp add: client_next_tick_def client_tick_in_array_def ce_def cv_def pool client_view_def
        swap_sample_vars_def Let_def swap_sample_tick_def tick_is_initialized_def)
  have limit: "2 ^ 64 \<noteq> limit" "limit \<noteq> 0" using assms(1) by auto
  have "client_continues ce cv" "\<not> client_continues ce (cv\<lparr>cv_state := client_view (sv_state v')\<rparr>)"
    using limit(1) by (simp_all add: client_continues_def ce_def cv_def client_view_def swap_sample_vars_def v' MIN_TICK_def MAX_TICK_def)
  then have loop: "client_swap_loop uint_ref ce 0 cv = Ok (cv\<lparr>cv_state := client_view (sv_state v')\<rparr>)"
    by (simp add: client_swap_loop.simps [of uint_ref ce 0 cv] nxt step client_swap_loop.simps [of uint_ref ce "Suc 0"])
  have start_view: "client_view (sv_state swap_sample_vars) = \<lparr>cw_amount_specified_remaining = 10000, cw_amount_calculated = 0,
      cw_sqrt_price_x64 = 2 ^ 64, cw_tick = 0, cw_liquidity = 1000000000\<rparr>"
    by (simp add: client_view_def swap_sample_vars_def)
  have check: "client_check_limit False limit swap_sample_pool = Ok ()"
    using assms by (simp add: client_check_limit_def pool)
  show ?thesis
    using loop unfolding get_out_put_amount_and_remaining_accounts_def sample_first swap_compute_def Let_def ce_def cv_def start_view
    by (simp add: limit check pool arr) (simp add: client_view_def v')
qed

definition sample_fee_mint :: mint_view where
  "sample_fee_mint = \<lparr>mv_transfer_fee_config = Some one_percent, mv_extension_types = Ok [TransferFeeConfig]\<rparr>"

definition sample_rpc :: rpc_client where
  "sample_rpc = \<lparr>rpc_get_mints = (\<lambda>keys. Ok (map (\<lambda>_. Some \<lparr>rm_owner = 2, rm_state = Ok sample_fee_mint\<rparr>) keys)),
     rpc_get_tick_arrays = (\<lambda>_. Err External), rpc_epoch = Ok 700\<rparr>"

section \<open>Properties\<close>

text \<open>
  C13. The client computes the swap of the program.  If the client finds an amount and the swap on
  the same accounts succeeds, whatever the rewards, the shares of protocol and fund and the time
  are, the amount that the client shows is the amount that the program computes, to the unit, at
  any limit, in both directions and for exact input and output.  The pool has to be off the first
  tick before and after, because the client stops there.
\<close>

theorem client_computes_program_swap:
  assumes "uint_crate U" "ac_trade_fee_rate c < FEE_RATE_DENOMINATOR_VALUE" "amount < 2 ^ 64"
    and "ps_liquidity p < 2 ^ 128" "spacing_ok (ps_tick_spacing p)" "MIN_TICK < ps_tick_current p" "ps_tick_current p < MAX_TICK"
    and "price_at (MIN_TICK + 1) < ps_sqrt_price_x64 p" "ps_sqrt_price_x64 p < MAX_SQRT_PRICE_X64"
    and "price_at (MIN_TICK + 1) < ps_sqrt_price_x64 p'"
    and "\<forall>A \<in> set arrays. placed (ps_tick_spacing p) A" "distinct (map ta_start_tick_index arrays)"
    and "get_out_put_amount_and_remaining_accounts U amount limit z base c p ext arrays = Ok (n, starts)"
    and "swap_internal U D c p arrays obs (Some ext) amount
      (case limit of None \<Rightarrow> plim | Some l \<Rightarrow> if l = 0 then plim else l) z base now = Some (Ok ((a0, a1), p', arrays', obs'))"
    and "plim = (if z then MIN_SQRT_PRICE_X64 + 1 else MAX_SQRT_PRICE_X64 - 1)"
  shows "n = (if z = base then a1 else a0)"
  by (rule client_agrees_with_program [OF assms])

theorem client_computes_program_swap_witness:
  "\<exists>n starts p arrays obs. get_out_put_amount_and_remaining_accounts uint_ref 10000 (Some (2 ^ 65)) False True
      swap_sample_config swap_sample_pool default_bitmap_extension [swap_sample_array] = Ok (n, starts)
    \<and> swap_internal uint_ref sample_pda swap_sample_config swap_sample_pool [swap_sample_array] swap_sample_observation
      (Some default_bitmap_extension) 10000 (2 ^ 65) False True 5 = Some (Ok ((n, 10000), p, arrays, obs))"
proof -
  define limit :: nat where "limit = 2 ^ 65"
  have l: "18455969290605287889 \<le> limit" "limit < MAX_SQRT_PRICE_X64" "limit \<noteq> 0"
    by (simp_all add: limit_def MAX_SQRT_PRICE_X64_def)
  note C = sample_client_computes [OF l(1,2)]
  obtain p arrays obs where P: "swap_internal uint_ref sample_pda swap_sample_config swap_sample_pool [swap_sample_array]
     swap_sample_observation (Some default_bitmap_extension) 10000 limit False True 5 = Some (Ok ((9974, 10000), p, arrays, obs))"
    and price: "ps_sqrt_price_x64 p = 18446928079981686868"
    using sample_swap [OF l(1,2), of "Some default_bitmap_extension"] by blast
  have P': "swap_internal uint_ref sample_pda swap_sample_config swap_sample_pool [swap_sample_array]
     swap_sample_observation (Some default_bitmap_extension) 10000
     (case Some limit of None \<Rightarrow> MAX_SQRT_PRICE_X64 - 1 | Some l \<Rightarrow> if l = 0 then MAX_SQRT_PRICE_X64 - 1 else l) False True 5
     = Some (Ok ((9974, 10000), p, arrays, obs))"
    using P l(3) by simp
  have low: "price_at (MIN_TICK + 1) < 18446744073709551616"
    using price_at_strict_mono [of "MIN_TICK + 1" 0] by (simp add: MIN_TICK_def MAX_TICK_def price_at_def ratio_of_0)
  have pool: "ps_tick_spacing swap_sample_pool = 10" "ps_sqrt_price_x64 swap_sample_pool = 18446744073709551616"
    "ps_tick_current swap_sample_pool = 0" "ps_liquidity swap_sample_pool = 1000000000"
    by (simp_all add: swap_sample_pool_def sample_pool_def default_pool_def)
  have n: "9974 = (if False = True then 10000 else 9974 :: nat)"
    by (rule client_computes_program_swap [OF uint_crate_ref _ _ _ _ _ _ _ _ _ _ _ C P'])
      (use low price sample_placed in \<open>simp_all add: pool swap_sample_config_def FEE_RATE_DENOMINATOR_VALUE_def spacing_ok_def
        MIN_TICK_def MAX_TICK_def MAX_SQRT_PRICE_X64_def\<close>)
  then show ?thesis
    using C P unfolding limit_def by blast
qed

text \<open>
  C15. The client crosses from one tick array to another at most once.  Whatever arrays it is
  given, one after the other, it visits the first one and at most the one that a search from the
  first one finds: it never advances the index that the search starts from, and gives up instead.
\<close>

theorem client_visits_at_most_two_arrays:
  assumes "distinct (map ta_start_tick_index arrays)"
    and "get_out_put_amount_and_remaining_accounts U amount limit z base c p ext arrays = Ok (n, starts)"
  shows "\<exists>first m. get_first_initialized_tick_array p (Some ext) z = Ok (m, first)
    \<and> (starts = [first]
       \<or> (\<exists>second. pool_next_initialized_tick_array_start_index p (Some ext) first z = Ok (Some second)
            \<and> starts = [first, second]))"
proof -
  define plim where "plim = (if (case limit of None \<Rightarrow> 0 | Some l \<Rightarrow> l) = 0
    then if z then MIN_SQRT_PRICE_X64 + 1 else MAX_SQRT_PRICE_X64 - 1 else (case limit of None \<Rightarrow> 0 | Some l \<Rightarrow> l))"
  obtain m first a rest cv where f: "get_first_initialized_tick_array p (Some ext) z = Ok (m, first)"
    and a: "arrays = a # rest" "ta_start_tick_index a = first"
    and loop: "client_swap_loop U \<lparr>ce_zero_for_one = z, ce_is_base_input = base, ce_fee = ac_trade_fee_rate c,
      ce_sqrt_price_limit_x64 = plim, ce_current_vaild_tick_array_start_index = first, ce_pool_state = p,
      ce_tickarray_bitmap_extension = ext\<rparr> 0
      \<lparr>cv_state = \<lparr>cw_amount_specified_remaining = amount, cw_amount_calculated = 0, cw_sqrt_price_x64 = ps_sqrt_price_x64 p,
          cw_tick = ps_tick_current p, cw_liquidity = ps_liquidity p\<rparr>,
       cv_tick_array_current = a, cv_tick_arrays = rest, cv_tick_match_current_tick_array = m,
       cv_tick_array_start_index_vec = [first]\<rparr> = Ok cv"
    and starts: "starts = cv_tick_array_start_index_vec cv"
    by (rule swap_compute_OkE [OF assms(2), folded plim_def])
  have "at_most_one_on \<lparr>ce_zero_for_one = z, ce_is_base_input = base, ce_fee = ac_trade_fee_rate c,
      ce_sqrt_price_limit_x64 = plim, ce_current_vaild_tick_array_start_index = first, ce_pool_state = p,
      ce_tickarray_bitmap_extension = ext\<rparr> cv"
    by (rule loop_once [OF loop]) (use assms(1) a in \<open>simp add: at_most_one_on_def\<close>)
  then show ?thesis
    using f by (auto simp: at_most_one_on_def starts)
qed

theorem client_visits_at_most_two_arrays_witness:
  "\<exists>m. get_first_initialized_tick_array swap_sample_pool (Some default_bitmap_extension) False = Ok (m, 0)"
proof -
  have l: "18455969290605287889 \<le> (2 ^ 65 :: nat)" "2 ^ 65 < MAX_SQRT_PRICE_X64"
    by (simp_all add: MAX_SQRT_PRICE_X64_def)
  have "distinct (map ta_start_tick_index [swap_sample_array])" by simp
  from client_visits_at_most_two_arrays [OF this sample_client_computes [OF l]]
  show ?thesis by auto
qed

text \<open>
  The client takes the fee of a token from the epoch instead of from the amount.  For a token
  whose fee on an amount is the same in every epoch, what the client finds for an amount is the
  fee on the number of the epoch, while the fee that the program finds is that on the amount.
\<close>

theorem client_fee_is_fee_of_epoch:
  assumes "load_pool_mints R m0 m1 = Ok (epoch, (o0, s0), (o1, s1))"
    and "mv_transfer_fee_config s0 = Some cfg" "\<forall>e x. tfc_calculate_epoch_fee cfg e x = Some (fee x)"
    and "get_pool_mints_transfer_fee R m0 m1 amount_0 amount_1 = Ok (i0, i1)"
    and "mint_program mint \<noteq> tl_token_id T" "tl_unpack_mint T (mint_key mint) = Ok s0" "tl_epoch T = Ok now"
  shows "tfi_transfer_fee i0 = fee epoch \<and> get_transfer_fee T mint amount_0 = Ok (fee amount_0)"
  using assms by (auto simp: get_pool_mints_transfer_fee_def client_get_transfer_fee_def get_transfer_fee_def res_inv)

theorem client_fee_is_fee_of_epoch_witness:
  "\<exists>i0 i1. get_pool_mints_transfer_fee sample_rpc 7 8 10000 0 = Ok (i0, i1) \<and> tfi_transfer_fee i0 = 7
    \<and> get_transfer_fee token_ref \<lparr>mint_key = 7, mint_decimals = 6, mint_program = 2\<rparr> 10000 = Ok 100"
proof -
  have load: "load_pool_mints sample_rpc 7 8 = Ok (700, (2, sample_fee_mint), (2, sample_fee_mint))"
    by (simp add: load_pool_mints_def sample_rpc_def index_at_def)
  then have "\<exists>i. get_pool_mints_transfer_fee sample_rpc 7 8 10000 0 = Ok i"
    by (simp add: get_pool_mints_transfer_fee_def client_get_transfer_fee_def sample_fee_mint_def one_percent_def)
  then obtain i0 i1 where g: "get_pool_mints_transfer_fee sample_rpc 7 8 10000 0 = Ok (i0, i1)" by auto
  have "tfi_transfer_fee i0 = cdiv 700 100 \<and>
      get_transfer_fee token_ref \<lparr>mint_key = 7, mint_decimals = 6, mint_program = 2\<rparr> 10000 = Ok (cdiv 10000 100)"
    by (rule client_fee_is_fee_of_epoch [OF load _ _ g, of one_percent])
      (simp_all add: sample_fee_mint_def one_percent_def token_ref_def)
  then show ?thesis using g by (auto simp: cdiv_def)
qed

end
