(* ===== verification/Client_Requests.thy ===== *)
theory Client_Requests
  imports Reward_Instructions Withdraw
begin

text \<open>
  The requests that the client sends: \<open>src/client/src/instructions/amm_instructions.rs\<close>.  A request is
  the keys of the instruction's accounts, in the structure that the program declares for them,
  the accounts after them, and the arguments.  Building it fails only where a key file cannot be
  read or an option is unwrapped.
\<close>

section \<open>What a request is made of\<close>

text \<open>
  Code of the crates that the client calls: derived addresses (\<open>Pubkey::find_program_address\<close>,
  with the seeds of each kind of account), the addresses of token accounts, and the identities
  of the other programs.
\<close>

record client_lib =
  cl_pda :: pda
  cl_amm_config :: "u16 \<Rightarrow> pubkey"
  cl_operation :: pubkey
  cl_pool :: "pubkey \<Rightarrow> pubkey \<Rightarrow> pubkey \<Rightarrow> pubkey"
  cl_pool_vault :: "pubkey \<Rightarrow> pubkey \<Rightarrow> pubkey"
  cl_pool_reward_vault :: "pubkey \<Rightarrow> pubkey \<Rightarrow> pubkey"
  cl_tick_array_bitmap :: "pubkey \<Rightarrow> pubkey"
  cl_metadata :: "pubkey \<Rightarrow> pubkey"
  cl_associated_token :: "pubkey \<Rightarrow> pubkey \<Rightarrow> pubkey"
  cl_spl_token :: pubkey
  cl_spl_token_2022 :: pubkey
  cl_spl_memo :: pubkey
  cl_spl_associated_token_account :: pubkey
  cl_mpl_token_metadata :: pubkey
  cl_system_program :: pubkey
  cl_rent :: pubkey

text \<open>
  The configuration of the client.  The two paths of key files are the keys in them, or why they
  cannot be read.
\<close>

record 'f client_config =
  cc_raydium_v3_program :: pubkey
  cc_payer :: "pubkey res"
  cc_admin :: "pubkey res"
  cc_slippage :: 'f
  cc_amm_config_key :: pubkey
  cc_mint0 :: "pubkey option"
  cc_mint1 :: "pubkey option"
  cc_pool_id_account :: "pubkey option"
  cc_tickarray_bitmap_extension :: "pubkey option"
  cc_amm_config_index :: u16

record account_meta =
  am_pubkey :: pubkey
  am_is_signer :: bool
  am_is_writable :: bool

definition account_meta_new :: "pubkey \<Rightarrow> bool \<Rightarrow> account_meta" where
  "account_meta_new k is_signer = \<lparr>am_pubkey = k, am_is_signer = is_signer, am_is_writable = True\<rparr>"

definition account_meta_new_readonly :: "pubkey \<Rightarrow> bool \<Rightarrow> account_meta" where
  "account_meta_new_readonly k is_signer = \<lparr>am_pubkey = k, am_is_signer = is_signer, am_is_writable = False\<rparr>"

record ('a, 'r) request =
  rq_payer :: pubkey
  rq_accounts :: 'a
  rq_remaining :: "account_meta list"
  rq_args :: 'r

definition make_request :: "pubkey \<Rightarrow> 'a \<Rightarrow> account_meta list \<Rightarrow> 'r \<Rightarrow> ('a, 'r) request res" where
  "make_request payer accounts remaining args =
     Ok \<lparr>rq_payer = payer, rq_accounts = accounts, rq_remaining = remaining, rq_args = args\<rparr>"

section \<open>Configurations and operation accounts\<close>

record create_amm_config_accounts =
  xc_owner :: pubkey
  xc_amm_config :: pubkey
  xc_system_program :: pubkey

record create_amm_config_args =
  xd_index :: u16
  xd_tick_spacing :: u16
  xd_trade_fee_rate :: u32
  xd_protocol_fee_rate :: u32
  xd_fund_fee_rate :: u32

record update_amm_config_accounts =
  xu_owner :: pubkey
  xu_amm_config :: pubkey

record update_amm_config_args =
  xv_param :: u8
  xv_value :: u32

record operation_account_accounts =
  xo_owner :: pubkey
  xo_operation_state :: pubkey
  xo_system_program :: pubkey

record update_operation_account_args =
  xp_param :: u8
  xp_keys :: "pubkey list"

definition create_amm_config_instr ::
  "client_lib \<Rightarrow> 'f client_config \<Rightarrow> u16 \<Rightarrow> u16 \<Rightarrow> u32 \<Rightarrow> u32 \<Rightarrow> u32 \<Rightarrow>
   (create_amm_config_accounts, create_amm_config_args) request res" where
  "create_amm_config_instr L config config_index tick_spacing trade_fee_rate protocol_fee_rate fund_fee_rate =
     rbind (cc_admin config) (\<lambda>payer.
     let amm_config_key = cl_amm_config L config_index in
     make_request payer
       \<lparr>xc_owner = payer, xc_amm_config = amm_config_key, xc_system_program = cl_system_program L\<rparr> []
       \<lparr>xd_index = config_index, xd_tick_spacing = tick_spacing, xd_trade_fee_rate = trade_fee_rate,
        xd_protocol_fee_rate = protocol_fee_rate, xd_fund_fee_rate = fund_fee_rate\<rparr>)"

definition update_amm_config_instr ::
  "'f client_config \<Rightarrow> pubkey \<Rightarrow> account_meta list \<Rightarrow> u8 \<Rightarrow> u32 \<Rightarrow>
   (update_amm_config_accounts, update_amm_config_args) request res" where
  "update_amm_config_instr config amm_config remaining_accounts param val =
     rbind (cc_payer config) (\<lambda>payer.
     rbind (cc_admin config) (\<lambda>admin.
     make_request payer \<lparr>xu_owner = admin, xu_amm_config = amm_config\<rparr> remaining_accounts
       \<lparr>xv_param = param, xv_value = val\<rparr>))"

definition create_operation_account_instr ::
  "client_lib \<Rightarrow> 'f client_config \<Rightarrow> (operation_account_accounts, unit) request res" where
  "create_operation_account_instr L config =
     rbind (cc_admin config) (\<lambda>payer.
     make_request payer
       \<lparr>xo_owner = payer, xo_operation_state = cl_operation L, xo_system_program = cl_system_program L\<rparr> [] ())"

definition update_operation_account_instr ::
  "client_lib \<Rightarrow> 'f client_config \<Rightarrow> u8 \<Rightarrow> pubkey list \<Rightarrow>
   (operation_account_accounts, update_operation_account_args) request res" where
  "update_operation_account_instr L config param keys =
     rbind (cc_admin config) (\<lambda>payer.
     make_request payer
       \<lparr>xo_owner = payer, xo_operation_state = cl_operation L, xo_system_program = cl_system_program L\<rparr> []
       \<lparr>xp_param = param, xp_keys = keys\<rparr>)"

section \<open>Pools and positions\<close>

record create_pool_accounts =
  cp_pool_creator :: pubkey
  cp_amm_config :: pubkey
  cp_pool_state :: pubkey
  cp_token_mint_0 :: pubkey
  cp_token_mint_1 :: pubkey
  cp_token_vault_0 :: pubkey
  cp_token_vault_1 :: pubkey
  cp_observation_state :: pubkey
  cp_tick_array_bitmap :: pubkey
  cp_token_program_0 :: pubkey
  cp_token_program_1 :: pubkey
  cp_system_program :: pubkey
  cp_rent :: pubkey

record create_pool_args =
  cq_sqrt_price_x64 :: u128
  cq_open_time :: u64

record open_position_accounts =
  oa_payer :: pubkey
  oa_position_nft_owner :: pubkey
  oa_position_nft_mint :: pubkey
  oa_position_nft_account :: pubkey
  oa_metadata_account :: pubkey
  oa_pool_state :: pubkey
  oa_protocol_position :: pubkey
  oa_tick_array_lower :: pubkey
  oa_tick_array_upper :: pubkey
  oa_personal_position :: pubkey
  oa_token_account_0 :: pubkey
  oa_token_account_1 :: pubkey
  oa_token_vault_0 :: pubkey
  oa_token_vault_1 :: pubkey
  oa_rent :: pubkey
  oa_system_program :: pubkey
  oa_token_program :: pubkey
  oa_associated_token_program :: pubkey
  oa_metadata_program :: pubkey
  oa_token_program_2022 :: pubkey
  oa_vault_0_mint :: pubkey
  oa_vault_1_mint :: pubkey

record open_position_args =
  ob_liquidity :: u128
  ob_amount_0_max :: u64
  ob_amount_1_max :: u64
  ob_tick_lower_index :: i32
  ob_tick_upper_index :: i32
  ob_tick_array_lower_start_index :: i32
  ob_tick_array_upper_start_index :: i32
  ob_with_matedata :: bool
  ob_base_flag :: "bool option"

record increase_liquidity_accounts =
  il_nft_owner :: pubkey
  il_nft_account :: pubkey
  il_pool_state :: pubkey
  il_protocol_position :: pubkey
  il_personal_position :: pubkey
  il_tick_array_lower :: pubkey
  il_tick_array_upper :: pubkey
  il_token_account_0 :: pubkey
  il_token_account_1 :: pubkey
  il_token_vault_0 :: pubkey
  il_token_vault_1 :: pubkey
  il_token_program :: pubkey
  il_token_program_2022 :: pubkey
  il_vault_0_mint :: pubkey
  il_vault_1_mint :: pubkey

record increase_liquidity_args =
  im_liquidity :: u128
  im_amount_0_max :: u64
  im_amount_1_max :: u64
  im_base_flag :: "bool option"

record decrease_liquidity_accounts =
  dl_nft_owner :: pubkey
  dl_nft_account :: pubkey
  dl_personal_position :: pubkey
  dl_pool_state :: pubkey
  dl_protocol_position :: pubkey
  dl_token_vault_0 :: pubkey
  dl_token_vault_1 :: pubkey
  dl_tick_array_lower :: pubkey
  dl_tick_array_upper :: pubkey
  dl_recipient_token_account_0 :: pubkey
  dl_recipient_token_account_1 :: pubkey
  dl_token_program :: pubkey
  dl_token_program_2022 :: pubkey
  dl_memo_program :: pubkey
  dl_vault_0_mint :: pubkey
  dl_vault_1_mint :: pubkey

record decrease_liquidity_args =
  dm_liquidity :: u128
  dm_amount_0_min :: u64
  dm_amount_1_min :: u64

record close_position_accounts =
  xl_nft_owner :: pubkey
  xl_position_nft_mint :: pubkey
  xl_position_nft_account :: pubkey
  xl_personal_position :: pubkey
  xl_system_program :: pubkey
  xl_token_program :: pubkey

definition create_pool_instr ::
  "client_lib \<Rightarrow> 'f client_config \<Rightarrow> pubkey \<Rightarrow> pubkey \<Rightarrow> pubkey \<Rightarrow> pubkey \<Rightarrow> pubkey \<Rightarrow> pubkey \<Rightarrow> pubkey \<Rightarrow> u128 \<Rightarrow> u64 \<Rightarrow>
   (create_pool_accounts, create_pool_args) request res" where
  "create_pool_instr L config amm_config observation_key token_mint_0 token_mint_1 token_program_0
      token_program_1 tick_array_bitmap sqrt_price_x64 open_time =
     rbind (cc_payer config) (\<lambda>payer.
     let pool_account_key = cl_pool L amm_config token_mint_0 token_mint_1;
         token_vault_0 = cl_pool_vault L pool_account_key token_mint_0;
         token_vault_1 = cl_pool_vault L pool_account_key token_mint_1 in
     make_request payer
       \<lparr>cp_pool_creator = payer, cp_amm_config = amm_config, cp_pool_state = pool_account_key,
        cp_token_mint_0 = token_mint_0, cp_token_mint_1 = token_mint_1, cp_token_vault_0 = token_vault_0,
        cp_token_vault_1 = token_vault_1, cp_observation_state = observation_key,
        cp_tick_array_bitmap = tick_array_bitmap, cp_token_program_0 = token_program_0,
        cp_token_program_1 = token_program_1, cp_system_program = cl_system_program L, cp_rent = cl_rent L\<rparr> []
       \<lparr>cq_sqrt_price_x64 = sqrt_price_x64, cq_open_time = open_time\<rparr>)"

definition open_position_instr ::
  "client_lib \<Rightarrow> 'f client_config \<Rightarrow> pubkey \<Rightarrow> pubkey \<Rightarrow> pubkey \<Rightarrow> pubkey \<Rightarrow> pubkey \<Rightarrow> pubkey \<Rightarrow> pubkey \<Rightarrow> pubkey \<Rightarrow> pubkey \<Rightarrow>
   account_meta list \<Rightarrow> u128 \<Rightarrow> u64 \<Rightarrow> u64 \<Rightarrow> i32 \<Rightarrow> i32 \<Rightarrow> i32 \<Rightarrow> i32 \<Rightarrow> bool \<Rightarrow>
   (open_position_accounts, open_position_args) request res" where
  "open_position_instr L config pool_account_key token_vault_0 token_vault_1 token_mint_0 token_mint_1
      nft_mint_key nft_to_owner user_token_account_0 user_token_account_1 remaining_accounts liquidity
      amount_0_max amount_1_max tick_lower_index tick_upper_index tick_array_lower_start_index
      tick_array_upper_start_index with_matedata =
     rbind (cc_payer config) (\<lambda>payer.
     let nft_ata_token_account = cl_associated_token L payer nft_mint_key;
         metadata_account_key = cl_metadata L nft_mint_key;
         protocol_position_key =
           pda_protocol_position (cl_pda L) pool_account_key tick_lower_index tick_upper_index;
         tick_array_lower = pda_tick_array (cl_pda L) pool_account_key tick_array_lower_start_index;
         tick_array_upper = pda_tick_array (cl_pda L) pool_account_key tick_array_upper_start_index;
         personal_position_key = pda_position (cl_pda L) nft_mint_key in
     make_request payer
       \<lparr>oa_payer = payer, oa_position_nft_owner = nft_to_owner, oa_position_nft_mint = nft_mint_key,
        oa_position_nft_account = nft_ata_token_account, oa_metadata_account = metadata_account_key,
        oa_pool_state = pool_account_key, oa_protocol_position = protocol_position_key,
        oa_tick_array_lower = tick_array_lower, oa_tick_array_upper = tick_array_upper,
        oa_personal_position = personal_position_key, oa_token_account_0 = user_token_account_0,
        oa_token_account_1 = user_token_account_1, oa_token_vault_0 = token_vault_0,
        oa_token_vault_1 = token_vault_1, oa_rent = cl_rent L, oa_system_program = cl_system_program L,
        oa_token_program = cl_spl_token L, oa_associated_token_program = cl_spl_associated_token_account L,
        oa_metadata_program = cl_mpl_token_metadata L, oa_token_program_2022 = cl_spl_token_2022 L,
        oa_vault_0_mint = token_mint_0, oa_vault_1_mint = token_mint_1\<rparr>
       remaining_accounts
       \<lparr>ob_liquidity = liquidity, ob_amount_0_max = amount_0_max, ob_amount_1_max = amount_1_max,
        ob_tick_lower_index = tick_lower_index, ob_tick_upper_index = tick_upper_index,
        ob_tick_array_lower_start_index = tick_array_lower_start_index,
        ob_tick_array_upper_start_index = tick_array_upper_start_index,
        ob_with_matedata = with_matedata, ob_base_flag = None\<rparr>)"

definition increase_liquidity_instr ::
  "client_lib \<Rightarrow> 'f client_config \<Rightarrow> pubkey \<Rightarrow> pubkey \<Rightarrow> pubkey \<Rightarrow> pubkey \<Rightarrow> pubkey \<Rightarrow> pubkey \<Rightarrow> pubkey \<Rightarrow> pubkey \<Rightarrow>
   account_meta list \<Rightarrow> u128 \<Rightarrow> u64 \<Rightarrow> u64 \<Rightarrow> i32 \<Rightarrow> i32 \<Rightarrow> i32 \<Rightarrow> i32 \<Rightarrow>
   (increase_liquidity_accounts, increase_liquidity_args) request res" where
  "increase_liquidity_instr L config pool_account_key token_vault_0 token_vault_1 token_mint_0 token_mint_1
      nft_mint_key user_token_account_0 user_token_account_1 remaining_accounts liquidity
      amount_0_max amount_1_max tick_lower_index tick_upper_index tick_array_lower_start_index
      tick_array_upper_start_index =
     rbind (cc_payer config) (\<lambda>payer.
     let nft_ata_token_account = cl_associated_token L payer nft_mint_key;
         tick_array_lower = pda_tick_array (cl_pda L) pool_account_key tick_array_lower_start_index;
         tick_array_upper = pda_tick_array (cl_pda L) pool_account_key tick_array_upper_start_index;
         protocol_position_key =
           pda_protocol_position (cl_pda L) pool_account_key tick_lower_index tick_upper_index;
         personal_position_key = pda_position (cl_pda L) nft_mint_key in
     make_request payer
       \<lparr>il_nft_owner = payer, il_nft_account = nft_ata_token_account, il_pool_state = pool_account_key,
        il_protocol_position = protocol_position_key, il_personal_position = personal_position_key,
        il_tick_array_lower = tick_array_lower, il_tick_array_upper = tick_array_upper,
        il_token_account_0 = user_token_account_0, il_token_account_1 = user_token_account_1,
        il_token_vault_0 = token_vault_0, il_token_vault_1 = token_vault_1,
        il_token_program = cl_spl_token L, il_token_program_2022 = cl_spl_token_2022 L,
        il_vault_0_mint = token_mint_0, il_vault_1_mint = token_mint_1\<rparr>
       remaining_accounts
       \<lparr>im_liquidity = liquidity, im_amount_0_max = amount_0_max, im_amount_1_max = amount_1_max,
        im_base_flag = None\<rparr>)"

definition decrease_liquidity_instr ::
  "client_lib \<Rightarrow> 'f client_config \<Rightarrow> pubkey \<Rightarrow> pubkey \<Rightarrow> pubkey \<Rightarrow> pubkey \<Rightarrow> pubkey \<Rightarrow> pubkey \<Rightarrow> pubkey \<Rightarrow> pubkey \<Rightarrow>
   account_meta list \<Rightarrow> u128 \<Rightarrow> u64 \<Rightarrow> u64 \<Rightarrow> i32 \<Rightarrow> i32 \<Rightarrow> i32 \<Rightarrow> i32 \<Rightarrow>
   (decrease_liquidity_accounts, decrease_liquidity_args) request res" where
  "decrease_liquidity_instr L config pool_account_key token_vault_0 token_vault_1 token_mint_0 token_mint_1
      nft_mint_key user_token_account_0 user_token_account_1 remaining_accounts liquidity
      amount_0_min amount_1_min tick_lower_index tick_upper_index tick_array_lower_start_index
      tick_array_upper_start_index =
     rbind (cc_payer config) (\<lambda>payer.
     let nft_ata_token_account = cl_associated_token L payer nft_mint_key;
         personal_position_key = pda_position (cl_pda L) nft_mint_key;
         protocol_position_key =
           pda_protocol_position (cl_pda L) pool_account_key tick_lower_index tick_upper_index;
         tick_array_lower = pda_tick_array (cl_pda L) pool_account_key tick_array_lower_start_index;
         tick_array_upper = pda_tick_array (cl_pda L) pool_account_key tick_array_upper_start_index in
     make_request payer
       \<lparr>dl_nft_owner = payer, dl_nft_account = nft_ata_token_account,
        dl_personal_position = personal_position_key, dl_pool_state = pool_account_key,
        dl_protocol_position = protocol_position_key, dl_token_vault_0 = token_vault_0,
        dl_token_vault_1 = token_vault_1, dl_tick_array_lower = tick_array_lower,
        dl_tick_array_upper = tick_array_upper, dl_recipient_token_account_0 = user_token_account_0,
        dl_recipient_token_account_1 = user_token_account_1, dl_token_program = cl_spl_token L,
        dl_token_program_2022 = cl_spl_token_2022 L, dl_memo_program = cl_spl_memo L,
        dl_vault_0_mint = token_mint_0, dl_vault_1_mint = token_mint_1\<rparr>
       remaining_accounts
       \<lparr>dm_liquidity = liquidity, dm_amount_0_min = amount_0_min, dm_amount_1_min = amount_1_min\<rparr>)"

definition close_personal_position_instr ::
  "client_lib \<Rightarrow> 'f client_config \<Rightarrow> pubkey \<Rightarrow> (close_position_accounts, unit) request res" where
  "close_personal_position_instr L config nft_mint_key =
     rbind (cc_payer config) (\<lambda>payer.
     let nft_ata_token_account = cl_associated_token L payer nft_mint_key;
         personal_position_key = pda_position (cl_pda L) nft_mint_key in
     make_request payer
       \<lparr>xl_nft_owner = payer, xl_position_nft_mint = nft_mint_key,
        xl_position_nft_account = nft_ata_token_account, xl_personal_position = personal_position_key,
        xl_system_program = cl_system_program L, xl_token_program = cl_spl_token L\<rparr> [] ())"

section \<open>Swaps\<close>

record swap_single_accounts =
  sw1_payer :: pubkey
  sw1_amm_config :: pubkey
  sw1_pool_state :: pubkey
  sw1_input_token_account :: pubkey
  sw1_output_token_account :: pubkey
  sw1_input_vault :: pubkey
  sw1_output_vault :: pubkey
  sw1_observation_state :: pubkey
  sw1_token_program :: pubkey
  sw1_tick_array :: pubkey

record swap_args =
  swa_amount :: u64
  swa_other_amount_threshold :: u64
  swa_sqrt_price_limit_x64 :: u128
  swa_is_base_input :: bool

record swap_single_v2_accounts =
  sw2_payer :: pubkey
  sw2_amm_config :: pubkey
  sw2_pool_state :: pubkey
  sw2_input_token_account :: pubkey
  sw2_output_token_account :: pubkey
  sw2_input_vault :: pubkey
  sw2_output_vault :: pubkey
  sw2_observation_state :: pubkey
  sw2_token_program :: pubkey
  sw2_token_program_2022 :: pubkey
  sw2_memo_program :: pubkey
  sw2_input_vault_mint :: pubkey
  sw2_output_vault_mint :: pubkey

text \<open>\<open>unwrap_or(0)\<close>: no limit is the limit 0, for which the program takes its own bound.\<close>

definition limit_or_zero :: "u128 option \<Rightarrow> u128" where
  "limit_or_zero sqrt_price_limit_x64 = (case sqrt_price_limit_x64 of None \<Rightarrow> 0 | Some l \<Rightarrow> l)"

definition swap_instr ::
  "client_lib \<Rightarrow> 'f client_config \<Rightarrow> pubkey \<Rightarrow> pubkey \<Rightarrow> pubkey \<Rightarrow> pubkey \<Rightarrow> pubkey \<Rightarrow> pubkey \<Rightarrow> pubkey \<Rightarrow> pubkey \<Rightarrow>
   account_meta list \<Rightarrow> u64 \<Rightarrow> u64 \<Rightarrow> u128 option \<Rightarrow> bool \<Rightarrow> (swap_single_accounts, swap_args) request res" where
  "swap_instr L config amm_config pool_account_key input_vault output_vault observation_state
      user_input_token user_out_put_token tick_array remaining_accounts amount other_amount_threshold
      sqrt_price_limit_x64 is_base_input =
     rbind (cc_payer config) (\<lambda>payer.
     make_request payer
       \<lparr>sw1_payer = payer, sw1_amm_config = amm_config, sw1_pool_state = pool_account_key,
        sw1_input_token_account = user_input_token, sw1_output_token_account = user_out_put_token,
        sw1_input_vault = input_vault, sw1_output_vault = output_vault,
        sw1_observation_state = observation_state, sw1_token_program = cl_spl_token L,
        sw1_tick_array = tick_array\<rparr>
       remaining_accounts
       \<lparr>swa_amount = amount, swa_other_amount_threshold = other_amount_threshold,
        swa_sqrt_price_limit_x64 = limit_or_zero sqrt_price_limit_x64, swa_is_base_input = is_base_input\<rparr>)"

definition swap_v2_instr ::
  "client_lib \<Rightarrow> 'f client_config \<Rightarrow> pubkey \<Rightarrow> pubkey \<Rightarrow> pubkey \<Rightarrow> pubkey \<Rightarrow> pubkey \<Rightarrow> pubkey \<Rightarrow> pubkey \<Rightarrow> pubkey \<Rightarrow> pubkey \<Rightarrow>
   account_meta list \<Rightarrow> u64 \<Rightarrow> u64 \<Rightarrow> u128 option \<Rightarrow> bool \<Rightarrow> (swap_single_v2_accounts, swap_args) request res" where
  "swap_v2_instr L config amm_config pool_account_key input_vault output_vault observation_state
      user_input_token user_out_put_token input_vault_mint output_vault_mint remaining_accounts amount
      other_amount_threshold sqrt_price_limit_x64 is_base_input =
     rbind (cc_payer config) (\<lambda>payer.
     make_request payer
       \<lparr>sw2_payer = payer, sw2_amm_config = amm_config, sw2_pool_state = pool_account_key,
        sw2_input_token_account = user_input_token, sw2_output_token_account = user_out_put_token,
        sw2_input_vault = input_vault, sw2_output_vault = output_vault,
        sw2_observation_state = observation_state, sw2_token_program = cl_spl_token L,
        sw2_token_program_2022 = cl_spl_token_2022 L, sw2_memo_program = cl_spl_memo L,
        sw2_input_vault_mint = input_vault_mint, sw2_output_vault_mint = output_vault_mint\<rparr>
       remaining_accounts
       \<lparr>swa_amount = amount, swa_other_amount_threshold = other_amount_threshold,
        swa_sqrt_price_limit_x64 = limit_or_zero sqrt_price_limit_x64, swa_is_base_input = is_base_input\<rparr>)"

section \<open>Rewards\<close>

record initialize_reward_accounts =
  ir_reward_funder :: pubkey
  ir_funder_token_account :: pubkey
  ir_amm_config :: pubkey
  ir_pool_state :: pubkey
  ir_operation_state :: pubkey
  ir_reward_token_mint :: pubkey
  ir_reward_token_vault :: pubkey
  ir_reward_token_program :: pubkey
  ir_system_program :: pubkey
  ir_rent :: pubkey

record set_reward_params_accounts =
  sr_authority :: pubkey
  sr_amm_config :: pubkey
  sr_pool_state :: pubkey
  sr_operation_state :: pubkey
  sr_token_program :: pubkey
  sr_token_program_2022 :: pubkey

record set_reward_params_args =
  ss_reward_index :: u8
  ss_emissions_per_second_x64 :: u128
  ss_open_time :: u64
  ss_end_time :: u64

record transfer_reward_owner_accounts =
  tr_authority :: pubkey
  tr_pool_state :: pubkey

definition initialize_reward_instr ::
  "client_lib \<Rightarrow> 'f client_config \<Rightarrow> pubkey \<Rightarrow> pubkey \<Rightarrow> pubkey \<Rightarrow> pubkey \<Rightarrow> pubkey \<Rightarrow> pubkey \<Rightarrow> pubkey \<Rightarrow> u64 \<Rightarrow> u64 \<Rightarrow> u128 \<Rightarrow>
   (initialize_reward_accounts, initialize_reward_param) request res" where
  "initialize_reward_instr L config pool_account_key amm_config operation_account_key reward_token_mint
      reward_token_vault user_reward_token reward_token_program open_time end_time
      emissions_per_second_x64 =
     rbind (cc_admin config) (\<lambda>admin.
     make_request admin
       \<lparr>ir_reward_funder = admin, ir_funder_token_account = user_reward_token, ir_amm_config = amm_config,
        ir_pool_state = pool_account_key, ir_operation_state = operation_account_key,
        ir_reward_token_mint = reward_token_mint, ir_reward_token_vault = reward_token_vault,
        ir_reward_token_program = reward_token_program, ir_system_program = cl_system_program L,
        ir_rent = cl_rent L\<rparr> []
       \<lparr>ip_open_time = open_time, ip_end_time = end_time,
        ip_emissions_per_second_x64 = emissions_per_second_x64\<rparr>)"

definition set_reward_params_instr ::
  "client_lib \<Rightarrow> 'f client_config \<Rightarrow> pubkey \<Rightarrow> pubkey \<Rightarrow> pubkey \<Rightarrow> pubkey \<Rightarrow> pubkey \<Rightarrow> u8 \<Rightarrow> u64 \<Rightarrow> u64 \<Rightarrow> u128 \<Rightarrow>
   (set_reward_params_accounts, set_reward_params_args) request res" where
  "set_reward_params_instr L config amm_config pool_account_key reward_token_vault user_reward_token
      operation_account_key reward_index open_time end_time emissions_per_second_x64 =
     rbind (cc_admin config) (\<lambda>admin.
     let remaining_accounts =
           [account_meta_new reward_token_vault False, account_meta_new user_reward_token False,
            account_meta_new_readonly (cl_spl_token L) False] in
     make_request admin
       \<lparr>sr_authority = admin, sr_amm_config = amm_config, sr_pool_state = pool_account_key,
        sr_operation_state = operation_account_key, sr_token_program = cl_spl_token L,
        sr_token_program_2022 = cl_spl_token_2022 L\<rparr>
       remaining_accounts
       \<lparr>ss_reward_index = reward_index, ss_emissions_per_second_x64 = emissions_per_second_x64,
        ss_open_time = open_time, ss_end_time = end_time\<rparr>)"

definition transfer_reward_owner_instr ::
  "'f client_config \<Rightarrow> pubkey \<Rightarrow> pubkey \<Rightarrow> bool \<Rightarrow> pubkey option \<Rightarrow>
   (transfer_reward_owner_accounts, pubkey) request res" where
  "transfer_reward_owner_instr config pool_account_key new_owner encode authority =
     rbind (cc_admin config) (\<lambda>admin.
     rbind (if encode then unwrap authority else Ok admin) (\<lambda>authority.
     make_request admin \<lparr>tr_authority = authority, tr_pool_state = pool_account_key\<rparr> [] new_owner))"

section \<open>Any instruction of the program\<close>

datatype program_request =
    CreateAmmConfig "(create_amm_config_accounts, create_amm_config_args) request"
  | UpdateAmmConfig "(update_amm_config_accounts, update_amm_config_args) request"
  | CreateOperationAccount "(operation_account_accounts, unit) request"
  | UpdateOperationAccount "(operation_account_accounts, update_operation_account_args) request"
  | CreatePool "(create_pool_accounts, create_pool_args) request"
  | OpenPositionV2 "(open_position_accounts, open_position_args) request"
  | IncreaseLiquidityV2 "(increase_liquidity_accounts, increase_liquidity_args) request"
  | DecreaseLiquidityV2 "(decrease_liquidity_accounts, decrease_liquidity_args) request"
  | ClosePosition "(close_position_accounts, unit) request"
  | Swap "(swap_single_accounts, swap_args) request"
  | SwapV2 "(swap_single_v2_accounts, swap_args) request"
  | InitializeReward "(initialize_reward_accounts, initialize_reward_param) request"
  | SetRewardParams "(set_reward_params_accounts, set_reward_params_args) request"
  | TransferRewardOwner "(transfer_reward_owner_accounts, pubkey) request"

end
