(* ===== verification/Request_Properties.thy ===== *)
theory Request_Properties
  imports Client_Requests Pool_Rewards Ledger Swap_Properties
begin

text \<open>
  What becomes of the client's requests in the program: the accounts that the requests for one
  position share, and the request to change a reward.
\<close>

section \<open>The requests and the program\<close>

text \<open>
  The requests for one position name the same accounts, the ones that the program derives: what the
  client opens it can also increase, decrease and close.
\<close>

lemma requests_for_position_agree:
  assumes "open_position_instr L K pool v0 v1 m0 m1 nft owner u0 u1 rem liq a0 a1 lo up slo shi meta = Ok op"
    and "increase_liquidity_instr L K pool v0 v1 m0 m1 nft u0 u1 rem liq a0 a1 lo up slo shi = Ok inc"
    and "decrease_liquidity_instr L K pool v0 v1 m0 m1 nft u0 u1 rem liq a0 a1 lo up slo shi = Ok dec"
    and "close_personal_position_instr L K nft = Ok cl"
  shows "check_open_seeds (cl_pda L) pool (oa_protocol_position (rq_accounts op)) (oa_tick_array_lower (rq_accounts op))
      (oa_tick_array_upper (rq_accounts op)) lo up slo shi = Ok ()"
    "oa_protocol_position (rq_accounts op) = il_protocol_position (rq_accounts inc)"
    "il_protocol_position (rq_accounts inc) = dl_protocol_position (rq_accounts dec)"
    "oa_personal_position (rq_accounts op) = il_personal_position (rq_accounts inc)"
    "il_personal_position (rq_accounts inc) = dl_personal_position (rq_accounts dec)"
    "dl_personal_position (rq_accounts dec) = xl_personal_position (rq_accounts cl)"
    "oa_position_nft_account (rq_accounts op) = xl_position_nft_account (rq_accounts cl)"
  using assms
  by (auto simp: open_position_instr_def increase_liquidity_instr_def decrease_liquidity_instr_def
      close_personal_position_instr_def make_request_def check_open_seeds_def Let_def res_inv)

text \<open>What the accounts of a request decode to on the chain.\<close>

definition decoded :: "(pubkey \<Rightarrow> remaining_account) \<Rightarrow> ('a, 'r) request \<Rightarrow> remaining_account list" where
  "decoded decode rq = map (\<lambda>m. decode (am_pubkey m)) (rq_remaining rq)"

context uint_crate
begin

lemma emission_ceil_pos:
  assumes "emission_ceil U t e = Ok n" "0 < t" "0 < e"
  shows "0 < n"
proof -
  have "0 < Q64" by (simp add: Q64_def)
  then have "n = cdiv (t * e) Q64"
    using assms(1) by (auto simp: emission_ceil_def mul_div_ceil_u256_eq fits_def res_inv split: if_splits)
  moreover have "t * e \<le> cdiv (t * e) Q64 * Q64"
    by (rule cdiv_mult_ge [OF \<open>0 < Q64\<close>])
  ultimately show ?thesis
    using assms(2,3) by (cases n) auto
qed

end

text \<open>Without a mint in the third place nothing can be paid to a reward.\<close>

lemma fund_reward_needs_mint:
  assumes "length rem = 3 \<Longrightarrow> \<exists>e. ra_mint (rem ! 2) = Err e" "length rem = 3"
  shows "fund_reward T authority rem tp tp22 r n s \<noteq> Ok s'"
proof -
  obtain a b c where rem: "rem = [a, b, c]"
    using assms(2) by (auto simp: numeral_3_eq_3 length_Suc_conv)
  then show ?thesis
    using assms by (auto simp: fund_reward_def res_inv)
qed

lemma set_reward_params_OkE:
  assumes "set_reward_params U T now authority ck ops tp tp22 rem i e op en p s = Ok (p', s')"
  obtains t rs q n r where "timestamp_u64 now = Ok t" "update_reward_infos U p t = Ok (rs, q)"
    "admin_update U (ps_reward_infos q ! i) t e op en = Ok (n, r) \<or> normal_update U (ps_reward_infos q ! i) t e op en = Ok (n, r)"
    "(if 0 < n then fund_reward T authority rem tp tp22 r n s else Ok s) = Ok s'" "op < en" "0 < e"
proof (cases "authority \<in> set (os_operation_owners ops) \<and> authority \<noteq> default_pubkey")
  case True
  then show ?thesis
    using assms by (auto simp: set_reward_params_def Let_def res_inv simp del: if_split intro: that)
next
  case False
  then show ?thesis
    using assms by (auto simp: set_reward_params_def Let_def res_inv simp del: if_split intro: that)
qed

lemma set_reward_params_of_client_OkD:
  assumes "uint_crate U" "set_reward_params_instr L K ck pool vault user ops_key i op en e = Ok rq"
    and "\<exists>x. ra_mint (decode (cl_spl_token L)) = Err x"
    and "set_reward_params U T now authority ck ops tp tp22 (decoded decode rq) i e op en p s = Ok (p', s')"
  shows "s' = s" "\<exists>t rs. update_reward_infos U p t = Ok (rs, p\<lparr>ps_reward_infos := rs\<rparr>) \<and> int t = now
     \<and> ri_last_update_time (rs ! i) \<noteq> ri_end_time (rs ! i)"
proof -
  have "length (decoded decode rq) = 3" "ra_mint (decoded decode rq ! 2) = ra_mint (decode (cl_spl_token L))"
    using assms(2) by (auto simp: set_reward_params_instr_def make_request_def decoded_def account_meta_new_def
        account_meta_new_readonly_def Let_def res_inv)
  with fund_reward_needs_mint assms(3)
  have no: "fund_reward T authority (decoded decode rq) tp tp22 r n s \<noteq> Ok s'" for r n
    by metis
  obtain t rs q n r where now: "timestamp_u64 now = Ok t" and up: "update_reward_infos U p t = Ok (rs, q)"
    and a: "admin_update U (ps_reward_infos q ! i) t e op en = Ok (n, r) \<or> normal_update U (ps_reward_infos q ! i) t e op en = Ok (n, r)"
    and n: "(if 0 < n then fund_reward T authority (decoded decode rq) tp tp22 r n s else Ok s) = Ok s'"
    and en: "op < en" "0 < e"
    by (rule set_reward_params_OkE [OF assms(4)])
  have t: "int t = now"
    using now by (auto simp: timestamp_u64_def split: if_splits)
  have u: "update_reward_infos U p t = Ok (rs, p\<lparr>ps_reward_infos := rs\<rparr>)" and q: "ps_reward_infos q = rs"
    using up update_reward_infos_OkD [OF up] by simp_all
  have n0: "n = 0" using n no by (auto split: if_splits)
  then show "s' = s" using n by simp
  have "0 < n" if "ri_last_update_time (rs ! i) = ri_end_time (rs ! i)"
  proof -
    have "emission_ceil U (en - op) e = Ok n"
      using a that by (auto simp: q admin_update_def normal_update_def Let_def res_inv split: if_splits)
    from uint_crate.emission_ceil_pos [OF assms(1) this] en show ?thesis by simp
  qed
  with n0 t u show "\<exists>t rs. update_reward_infos U p t = Ok (rs, p\<lparr>ps_reward_infos := rs\<rparr>) \<and> int t = now
     \<and> ri_last_update_time (rs ! i) \<noteq> ri_end_time (rs ! i)"
    by blast
qed

section \<open>Properties\<close>

text \<open>
  C19. The client cannot pay for a reward.  Its request to change a reward passes the token program
  where \<open>set_reward_params\<close> reads the mint of the reward; that account is no mint, so a request
  that the program accepts moves no tokens, and an emission that has ended is never restarted.
\<close>

theorem client_cannot_restart_reward:
  assumes "uint_crate U" "set_reward_params_instr L K ck pool vault user ops_key i op en e = Ok rq"
    and "\<exists>x. ra_mint (decode (cl_spl_token L)) = Err x"
    and "set_reward_params U T now authority ck ops tp tp22 (decoded decode rq) i e op en p s = Ok (p', s')"
  shows "s' = s \<and> (\<exists>t rs. update_reward_infos U p t = Ok (rs, p\<lparr>ps_reward_infos := rs\<rparr>) \<and> int t = now
     \<and> ri_last_update_time (rs ! i) \<noteq> ri_end_time (rs ! i))"
  using set_reward_params_of_client_OkD [OF assms] by blast

definition sample_reward_pool :: pool_state where
  "sample_reward_pool = default_pool\<lparr>ps_reward_infos :=
     [sample_reward, new_reward_info default_pubkey, new_reward_info default_pubkey]\<rparr>"

definition sample_client_lib :: client_lib where
  "sample_client_lib = \<lparr>cl_pda = sample_pda, cl_amm_config = (\<lambda>i. 100 + i), cl_operation = 51,
     cl_pool = (\<lambda>c a b. 200 + c + a + b), cl_pool_vault = (\<lambda>p m. 300 + p + m),
     cl_pool_reward_vault = (\<lambda>p m. 350 + p + m), cl_tick_array_bitmap = (\<lambda>p. 380 + p), cl_metadata = (\<lambda>m. 400 + m),
     cl_associated_token = (\<lambda>w m. 500 + w + m), cl_spl_token = 61, cl_spl_token_2022 = 62, cl_spl_memo = 63,
     cl_spl_associated_token_account = 64, cl_mpl_token_metadata = 65, cl_system_program = 66, cl_rent = 67\<rparr>"

definition sample_client_config :: "real client_config" where
  "sample_client_config = \<lparr>cc_raydium_v3_program = program_id, cc_payer = Ok 41, cc_admin = Ok 42, cc_slippage = 1 / 100, cc_amm_config_key = 101,
     cc_mint0 = Some 7, cc_mint1 = Some 8, cc_pool_id_account = Some 21, cc_tickarray_bitmap_extension = Some 401,
     cc_amm_config_index = 1\<rparr>"

definition opaque_account :: "pubkey \<Rightarrow> remaining_account" where
  "opaque_account k = \<lparr>ra_key = k, ra_extension = Err AccountOwnedByWrongProgram,
     ra_token_account = Err AccountOwnedByWrongProgram, ra_mint = Err AccountOwnedByWrongProgram\<rparr>"

lemma sample_reward_pool_update:
  "update_reward_infos uint_ref sample_reward_pool 200 =
     Ok ((ps_reward_infos sample_reward_pool)[0 := sample_reward\<lparr>ri_last_update_time := 200, ri_reward_state := 2\<rparr>],
         sample_reward_pool\<lparr>ps_reward_infos :=
           (ps_reward_infos sample_reward_pool)[0 := sample_reward\<lparr>ri_last_update_time := 200, ri_reward_state := 2\<rparr>]\<rparr>)"
  by (simp add: update_reward_infos_def sample_reward_pool_def default_pool_def update_reward_info_def accrue_reward_def
      sample_reward_def new_reward_info_def reward_initialized_def default_pubkey_def)

lemma sample_admin_update:
  "\<exists>r. admin_update uint_ref (sample_reward\<lparr>ri_last_update_time := 200, ri_reward_state := 2\<rparr>) 200 1 300 500 = Ok (0, r)"
  by (simp add: admin_update_def sample_reward_def new_reward_info_def Let_def checked_sub_def saturating_sub_def
      emission_floor_def uint_ref.mul_div_floor_u256_eq fits_def checked_add_def Q64_def)

lemma sample_set_reward_params:
  "\<exists>p'. set_reward_params uint_ref token_ref 200 42 (ps_amm_config sample_reward_pool)
     \<lparr>os_bump = 0, os_operation_owners = [42], os_whitelist_mints = []\<rparr> 61 62 rem 0 1 300 500 sample_reward_pool s = Ok (p', s)"
proof -
  obtain r where "admin_update uint_ref (sample_reward\<lparr>ri_last_update_time := 200, ri_reward_state := 2\<rparr>) 200 1 300 500 = Ok (0, r)"
    using sample_admin_update by blast
  moreover obtain a b where "ps_reward_infos sample_reward_pool = [sample_reward, a, b]" "ri_token_mint sample_reward = 5"
    by (simp add: sample_reward_pool_def sample_reward_def)
  ultimately show ?thesis
    by (simp add: set_reward_params_def sample_reward_pool_update REWARD_NUM_def Let_def default_pubkey_def
        timestamp_u64_def reward_initialized_def del: One_nat_def cong del: rbind_weak_cong if_weak_cong)
qed

theorem client_cannot_restart_reward_witness:
  "\<exists>rq. set_reward_params_instr sample_client_lib sample_client_config (ps_amm_config sample_reward_pool) 8 9 10 11 0 300 500 1 = Ok rq
     \<and> (\<forall>s. \<exists>p' s'. set_reward_params uint_ref token_ref 200 42 (ps_amm_config sample_reward_pool)
         \<lparr>os_bump = 0, os_operation_owners = [42], os_whitelist_mints = []\<rparr> 61 62 (decoded opaque_account rq)
         0 1 300 500 sample_reward_pool s = Ok (p', s') \<and> s' = s)"
proof -
  obtain rq where rq: "set_reward_params_instr sample_client_lib sample_client_config (ps_amm_config sample_reward_pool) 8 9 10 11 0 300 500 1 = Ok rq"
    by (simp add: set_reward_params_instr_def sample_client_config_def make_request_def Let_def)
  have "\<exists>x. ra_mint (opaque_account (cl_spl_token sample_client_lib)) = Err x"
    by (simp add: opaque_account_def)
  note same = client_cannot_restart_reward [OF uint_crate_ref rq, where decode = opaque_account, OF this]
  have "\<exists>p' s'. set_reward_params uint_ref token_ref 200 42 (ps_amm_config sample_reward_pool)
      \<lparr>os_bump = 0, os_operation_owners = [42], os_whitelist_mints = []\<rparr> 61 62 (decoded opaque_account rq)
      0 1 300 500 sample_reward_pool s = Ok (p', s') \<and> s' = s" for s
  proof -
    obtain p' where "set_reward_params uint_ref token_ref 200 42 (ps_amm_config sample_reward_pool)
      \<lparr>os_bump = 0, os_operation_owners = [42], os_whitelist_mints = []\<rparr> 61 62 (decoded opaque_account rq)
      0 1 300 500 sample_reward_pool s = Ok (p', s)"
      using sample_set_reward_params by blast
    with conjunct1 [OF same [OF this]] show ?thesis by blast
  qed
  with rq show ?thesis by blast
qed

end
