(* ===== verification/Client_Tokens.thy ===== *)
theory Client_Tokens
  imports Client_Requests
begin

text \<open>
  The instructions for token accounts that the client sends to the token programs and the system
  program, \<open>src/client/src/instructions/token_instructions.rs\<close>, and the commands of
  \<open>src/client/src/main.rs\<close> that use them.
\<close>

section \<open>Instructions of the token programs\<close>

datatype account_state = Uninitialized | Initialized | Frozen

text \<open>\<open>ExtensionInitializationParams\<close>, as far as the client uses it.\<close>

datatype extension_params =
    MintCloseAuthority "pubkey option"
  | PermanentDelegate pubkey
  | InterestBearingConfig "pubkey option" int
  | DefaultAccountState account_state
  | TransferFeeConfig "pubkey option" "pubkey option" u16 u64
  | NonTransferable
  | ConfidentialTransferMint "pubkey option" bool

datatype token_instruction =
    CreateAccount pubkey pubkey u64 u64 pubkey
  | InitializeExtension extension_params pubkey pubkey
  | InitializeMint pubkey pubkey pubkey "pubkey option" u8
  | InitializeImmutableOwner pubkey pubkey
  | InitializeAccount pubkey pubkey pubkey pubkey
  | CreateAssociatedTokenAccount pubkey pubkey pubkey pubkey
  | CreateAssociatedTokenAccountIdempotent pubkey pubkey pubkey pubkey
  | CloseAccount pubkey pubkey pubkey pubkey
  | TransferTokens pubkey pubkey pubkey pubkey u64
  | MintToAccount pubkey pubkey pubkey pubkey u64
  | SystemTransfer pubkey pubkey u64
  | SyncNative pubkey pubkey

text \<open>
  What the crates of the token programs compute: the length of an account with given extensions, the
  extensions that the account of a mint needs, the rent, and the state of a mint on the chain.
\<close>

record 'x token_crates =
  tc_extension :: "extension_params \<Rightarrow> 'x"
  tc_extension_instruction :: "extension_params \<Rightarrow> pubkey \<Rightarrow> pubkey \<Rightarrow> unit res"
  tc_immutable_owner :: 'x
  tc_mint_len :: "'x list \<Rightarrow> nat res"
  tc_account_len :: "'x list \<Rightarrow> nat res"
  tc_required_init_account_extensions :: "'x list \<Rightarrow> 'x list"
  tc_spl_account_len :: nat
  tc_rent :: "nat \<Rightarrow> u64 res"
  tc_account_owner :: "pubkey \<Rightarrow> pubkey res"
  tc_mint_extension_types :: "pubkey \<Rightarrow> 'x list res"
  tc_wsol_mint :: "pubkey res"

text \<open>The instructions of the extensions; the first that cannot be built ends the command.\<close>

fun extension_instructions ::
  "'x token_crates \<Rightarrow> extension_params list \<Rightarrow> pubkey \<Rightarrow> pubkey \<Rightarrow> token_instruction list res" where
  "extension_instructions X [] token_program new_mint_key = Ok []"
| "extension_instructions X (params # ps) token_program new_mint_key =
     rbind (tc_extension_instruction X params token_program new_mint_key) (\<lambda>_.
     rbind (extension_instructions X ps token_program new_mint_key) (\<lambda>instructions.
     Ok (InitializeExtension params token_program new_mint_key # instructions)))"

text \<open>\<open>client.program\<close> is the old token program for its id, the new one for every other.\<close>

definition token_program_of :: "client_lib \<Rightarrow> pubkey \<Rightarrow> pubkey" where
  "token_program_of L token_program =
     (if token_program = cl_spl_token L then cl_spl_token L else cl_spl_token_2022 L)"

definition create_and_init_mint_instr ::
  "client_lib \<Rightarrow> 'x token_crates \<Rightarrow> 'f client_config \<Rightarrow> pubkey \<Rightarrow> pubkey \<Rightarrow> pubkey \<Rightarrow> pubkey option \<Rightarrow>
   extension_params list \<Rightarrow> u8 \<Rightarrow> token_instruction list res" where
  "create_and_init_mint_instr L X config token_program new_mint_key mint_authority freeze_authority
      extension_init_params decimals =
     rbind (cc_payer config) (\<lambda>payer.
     let program = token_program_of L token_program;
         extension_types = map (tc_extension X) extension_init_params in
     rbind (tc_mint_len X extension_types) (\<lambda>space.
     rbind (tc_rent X space) (\<lambda>lamports.
     rbind (extension_instructions X extension_init_params token_program new_mint_key) (\<lambda>extensions.
     Ok ([CreateAccount payer new_mint_key lamports space program] @ extensions
         @ [InitializeMint program new_mint_key mint_authority freeze_authority decimals])))))"

definition create_account_rent_exmpt_instr ::
  "'x token_crates \<Rightarrow> 'f client_config \<Rightarrow> pubkey \<Rightarrow> pubkey \<Rightarrow> usize \<Rightarrow> token_instruction list res" where
  "create_account_rent_exmpt_instr X config new_account_key owner data_size =
     rbind (cc_payer config) (\<lambda>payer.
     rbind (tc_rent X data_size) (\<lambda>lamports.
     Ok [CreateAccount payer new_account_key lamports data_size owner]))"

definition create_ata_token_account_instr ::
  "'f client_config \<Rightarrow> pubkey \<Rightarrow> pubkey \<Rightarrow> pubkey \<Rightarrow> token_instruction list res" where
  "create_ata_token_account_instr config token_program mint owner =
     rbind (cc_payer config) (\<lambda>payer.
     Ok [CreateAssociatedTokenAccount payer owner mint token_program])"

text \<open>The extensions of an account that is not associated: those its mint requires, and a fixed owner.\<close>

definition account_extensions :: "'x token_crates \<Rightarrow> 'x list \<Rightarrow> 'x list" where
  "account_extensions X mint_extension_types =
     (let required_extensions = tc_required_init_account_extensions X mint_extension_types in
      if tc_immutable_owner X \<in> set required_extensions then required_extensions
      else required_extensions @ [tc_immutable_owner X])"

text \<open>The first instruction creates the account at the key of the mint, as the source has it.\<close>

definition create_and_init_auxiliary_token ::
  "client_lib \<Rightarrow> 'x token_crates \<Rightarrow> 'f client_config \<Rightarrow> pubkey \<Rightarrow> pubkey \<Rightarrow> pubkey \<Rightarrow> token_instruction list res" where
  "create_and_init_auxiliary_token L X config new_account_key mint owner =
     rbind (cc_payer config) (\<lambda>payer.
     rbind (tc_account_owner X mint) (\<lambda>mint_owner.
     rbind (if mint_owner = cl_spl_token L then Ok (cl_spl_token L, tc_spl_account_len X)
            else
              rbind (tc_mint_extension_types X mint) (\<lambda>mint_extension_types.
              rbind (tc_account_len X (account_extensions X mint_extension_types)) (\<lambda>space.
              Ok (cl_spl_token_2022 L, space)))) (\<lambda>(program, space).
     rbind (tc_rent X space) (\<lambda>lamports.
     Ok [CreateAccount payer mint lamports space program,
         InitializeImmutableOwner program new_account_key,
         InitializeAccount program new_account_key mint owner]))))"

definition close_token_account ::
  "client_lib \<Rightarrow> 'f client_config \<Rightarrow> pubkey \<Rightarrow> pubkey \<Rightarrow> pubkey \<Rightarrow> token_instruction list res" where
  "close_token_account L config close_account destination owner =
     rbind (cc_payer config) (\<lambda>payer.
     Ok [CloseAccount (cl_spl_token L) close_account destination owner])"

definition spl_token_transfer_instr ::
  "client_lib \<Rightarrow> 'f client_config \<Rightarrow> pubkey \<Rightarrow> pubkey \<Rightarrow> u64 \<Rightarrow> pubkey \<Rightarrow> token_instruction list res" where
  "spl_token_transfer_instr L config from_key to_key amount from_authority =
     rbind (cc_payer config) (\<lambda>payer.
     Ok [TransferTokens (cl_spl_token L) from_key to_key from_authority amount])"

definition spl_token_mint_to_instr ::
  "client_lib \<Rightarrow> 'f client_config \<Rightarrow> pubkey \<Rightarrow> pubkey \<Rightarrow> pubkey \<Rightarrow> u64 \<Rightarrow> pubkey \<Rightarrow> token_instruction list res" where
  "spl_token_mint_to_instr L config token_program mint to_key amount mint_authority =
     rbind (cc_payer config) (\<lambda>payer.
     Ok [MintToAccount (token_program_of L token_program) mint to_key mint_authority amount])"

definition wrap_sol_instr ::
  "client_lib \<Rightarrow> 'x token_crates \<Rightarrow> 'f client_config \<Rightarrow> u64 \<Rightarrow> token_instruction list res" where
  "wrap_sol_instr L X config amount =
     rbind (cc_payer config) (\<lambda>wallet_key.
     rbind (tc_wsol_mint X) (\<lambda>wsol_mint.
     let wsol_ata_account = cl_associated_token L wallet_key wsol_mint in
     Ok [CreateAssociatedTokenAccountIdempotent wallet_key wallet_key wsol_mint (cl_spl_token L),
         SystemTransfer wallet_key wsol_ata_account amount,
         SyncNative (cl_spl_token L) wsol_ata_account]))"

section \<open>What a command does\<close>

datatype client_instruction =
    ProgramInstruction program_request
  | TokenInstruction token_instruction
  | ComputeUnitLimit u32

text \<open>A transaction: its instructions, who pays for it and who signs it.\<close>

record transaction =
  tn_instructions :: "client_instruction list"
  tn_payer :: pubkey
  tn_signers :: "pubkey list"

definition token_transaction :: "pubkey \<Rightarrow> pubkey list \<Rightarrow> token_instruction list \<Rightarrow> transaction" where
  "token_transaction payer signers instructions =
     \<lparr>tn_instructions = map TokenInstruction instructions, tn_payer = payer, tn_signers = signers\<rparr>"

section \<open>Commands on tokens\<close>

text \<open>The options of \<open>NewMint\<close>.\<close>

record new_mint_options =
  nm_decimals :: u8
  nm_authority :: "pubkey option"
  nm_token_2022 :: bool
  nm_enable_freeze :: bool
  nm_enable_close :: bool
  nm_enable_non_transferable :: bool
  nm_enable_permanent_delegate :: bool
  nm_rate_bps :: "int option"
  nm_default_account_state :: "string option"
  nm_transfer_fee :: "u64 list option"
  nm_confidential_transfer_auto_approve :: "bool option"

definition parse_account_state :: "string \<Rightarrow> account_state res" where
  "parse_account_state state =
     (if state = ''Uninitialized'' then Ok Uninitialized
      else if state = ''Initialized'' then Ok Initialized
      else if state = ''Frozen'' then Ok Frozen
      else Panic)"

text \<open>\<open>transfer_fee_value[0] as u16\<close> and \<open>transfer_fee_value[1]\<close>.\<close>

definition transfer_fee_extension :: "pubkey \<Rightarrow> u64 list \<Rightarrow> extension_params res" where
  "transfer_fee_extension authority transfer_fee_value =
     (if length transfer_fee_value < 2 then Panic
      else Ok (TransferFeeConfig (Some authority) (Some authority)
             (transfer_fee_value ! 0 mod 2 ^ 16) (transfer_fee_value ! 1)))"

definition new_mint_extensions :: "new_mint_options \<Rightarrow> pubkey \<Rightarrow> extension_params list res" where
  "new_mint_extensions opts authority =
     rbind (case nm_default_account_state opts of None \<Rightarrow> Ok []
            | Some state \<Rightarrow>
                rbind (assertion (nm_enable_freeze opts)) (\<lambda>_.
                rbind (parse_account_state state) (\<lambda>account_state.
                Ok [DefaultAccountState account_state]))) (\<lambda>default_state.
     rbind (case nm_transfer_fee opts of None \<Rightarrow> Ok []
            | Some transfer_fee_value \<Rightarrow>
                rbind (transfer_fee_extension authority transfer_fee_value) (\<lambda>e. Ok [e])) (\<lambda>transfer_fee.
     Ok ((if nm_enable_close opts then [MintCloseAuthority (Some authority)] else [])
       @ (if nm_enable_permanent_delegate opts then [PermanentDelegate authority] else [])
       @ (case nm_rate_bps opts of None \<Rightarrow> [] | Some rate \<Rightarrow> [InterestBearingConfig (Some authority) rate])
       @ default_state @ transfer_fee
       @ (if nm_enable_non_transferable opts then [NonTransferable] else [])
       @ (case nm_confidential_transfer_auto_approve opts of None \<Rightarrow> []
          | Some auto_approve \<Rightarrow> [ConfidentialTransferMint (Some authority) auto_approve]))))"

definition new_mint ::
  "client_lib \<Rightarrow> 'x token_crates \<Rightarrow> 'f client_config \<Rightarrow> pubkey \<Rightarrow> pubkey \<Rightarrow> new_mint_options \<Rightarrow> transaction res" where
  "new_mint L X pool_config payer mint opts =
     (let token_program = (if nm_token_2022 opts then cl_spl_token_2022 L else cl_spl_token L);
          authority = (case nm_authority opts of Some key \<Rightarrow> key | None \<Rightarrow> payer);
          freeze_authority = (if nm_enable_freeze opts then Some authority else None) in
      rbind (new_mint_extensions opts authority) (\<lambda>extensions.
      rbind (create_and_init_mint_instr L X pool_config token_program mint authority freeze_authority
               extensions (nm_decimals opts)) (\<lambda>instructions.
      Ok (token_transaction payer [payer, mint] instructions))))"

definition new_token ::
  "client_lib \<Rightarrow> 'x token_crates \<Rightarrow> 'f client_config \<Rightarrow> pubkey \<Rightarrow> pubkey \<Rightarrow> pubkey \<Rightarrow> pubkey \<Rightarrow> bool \<Rightarrow> transaction res" where
  "new_token L X pool_config payer auxiliary_token mint authority not_ata =
     rbind (if not_ata then create_and_init_auxiliary_token L X pool_config auxiliary_token mint authority
            else
              rbind (tc_account_owner X mint) (\<lambda>mint_owner.
              create_ata_token_account_instr pool_config mint_owner mint authority)) (\<lambda>instructions.
     Ok (token_transaction payer (if not_ata then [payer, auxiliary_token] else [payer]) instructions))"

definition mint_to ::
  "client_lib \<Rightarrow> 'x token_crates \<Rightarrow> 'f client_config \<Rightarrow> pubkey \<Rightarrow> pubkey \<Rightarrow> pubkey \<Rightarrow> u64 \<Rightarrow> transaction res" where
  "mint_to L X pool_config payer mint to_token amount =
     rbind (tc_account_owner X mint) (\<lambda>mint_owner.
     rbind (spl_token_mint_to_instr L pool_config mint_owner mint to_token amount payer) (\<lambda>instructions.
     Ok (token_transaction payer [payer] instructions)))"

definition wrap_sol ::
  "client_lib \<Rightarrow> 'x token_crates \<Rightarrow> 'f client_config \<Rightarrow> pubkey \<Rightarrow> u64 \<Rightarrow> transaction res" where
  "wrap_sol L X pool_config payer amount =
     rbind (wrap_sol_instr L X pool_config amount) (\<lambda>instructions.
     Ok (token_transaction payer [payer] instructions))"

definition un_wrap_sol :: "client_lib \<Rightarrow> 'f client_config \<Rightarrow> pubkey \<Rightarrow> pubkey \<Rightarrow> transaction res" where
  "un_wrap_sol L pool_config payer wrap_sol_account =
     rbind (close_token_account L pool_config wrap_sol_account payer payer) (\<lambda>instructions.
     Ok (token_transaction payer [payer] instructions))"

end
