(* ===== verification/Client_Float.thy ===== *)
theory Client_Float
  imports Complex_Main Full_Math
begin

text \<open>
  The conversions of the client through floating point, \<open>src/client/src/instructions/utils.rs\<close>.  The
  operations of \<open>f64\<close> are a record; the locale \<open>float_arithmetic\<close> states the laws of rounding that the
  results rest on, and \<open>real_ops\<close> is the arithmetic without rounding.
\<close>

section \<open>Operations on floating point numbers\<close>

record 'f float_ops =
  fl_one :: 'f
  fl_q_ratio :: 'f
  fl_of_nat :: "nat \<Rightarrow> 'f"
  fl_add :: "'f \<Rightarrow> 'f \<Rightarrow> 'f"
  fl_sub :: "'f \<Rightarrow> 'f \<Rightarrow> 'f"
  fl_mul :: "'f \<Rightarrow> 'f \<Rightarrow> 'f"
  fl_div :: "'f \<Rightarrow> 'f \<Rightarrow> 'f"
  fl_sqrt :: "'f \<Rightarrow> 'f"
  fl_powi :: "'f \<Rightarrow> int \<Rightarrow> 'f"
  fl_log :: "'f \<Rightarrow> 'f \<Rightarrow> 'f"
  fl_floor :: "'f \<Rightarrow> 'f"
  fl_ceil :: "'f \<Rightarrow> 'f"
  fl_as_u64 :: "'f \<Rightarrow> u64"
  fl_as_u128 :: "'f \<Rightarrow> u128"
  fl_as_i32 :: "'f \<Rightarrow> i32"

section \<open>Slippage and prices\<close>

definition amount_with_slippage :: "'f float_ops \<Rightarrow> u64 \<Rightarrow> 'f \<Rightarrow> bool \<Rightarrow> u64" where
  "amount_with_slippage F amount slippage round_up =
     (if round_up then
        fl_as_u64 F (fl_ceil F (fl_mul F (fl_of_nat F amount) (fl_add F (fl_one F) slippage)))
      else
        fl_as_u64 F (fl_floor F (fl_mul F (fl_of_nat F amount) (fl_sub F (fl_one F) slippage))))"

definition tick_to_price :: "'f float_ops \<Rightarrow> i32 \<Rightarrow> 'f" where
  "tick_to_price F tick = fl_powi F (fl_q_ratio F) tick"

definition price_to_tick :: "'f float_ops \<Rightarrow> 'f \<Rightarrow> i32" where
  "price_to_tick F price = fl_as_i32 F (fl_log F price (fl_q_ratio F))"

definition tick_to_sqrt_price :: "'f float_ops \<Rightarrow> i32 \<Rightarrow> 'f" where
  "tick_to_sqrt_price F tick = fl_sqrt F (fl_powi F (fl_q_ratio F) tick)"

text \<open>\<open>(10_i32).checked_pow(decimals)\<close>.\<close>

definition multipler :: "'f float_ops \<Rightarrow> u8 \<Rightarrow> 'f res" where
  "multipler F decimals =
     (if 10 ^ decimals < (2 :: nat) ^ 31 then Ok (fl_of_nat F (10 ^ decimals)) else Panic)"

definition price_to_x64 :: "'f float_ops \<Rightarrow> 'f \<Rightarrow> u128" where
  "price_to_x64 F price = fl_as_u128 F (fl_mul F price (fl_of_nat F Q64))"

definition from_x64_price :: "'f float_ops \<Rightarrow> u128 \<Rightarrow> 'f" where
  "from_x64_price F price = fl_div F (fl_of_nat F price) (fl_of_nat F Q64)"

definition price_to_sqrt_price_x64 :: "'f float_ops \<Rightarrow> 'f \<Rightarrow> u8 \<Rightarrow> u8 \<Rightarrow> u128 res" where
  "price_to_sqrt_price_x64 F price decimals_0 decimals_1 =
     rbind (multipler F decimals_1) (\<lambda>m1.
     rbind (multipler F decimals_0) (\<lambda>m0.
     let price_with_decimals = fl_div F (fl_mul F price m1) m0 in
     Ok (price_to_x64 F (fl_sqrt F price_with_decimals))))"

definition sqrt_price_x64_to_price :: "'f float_ops \<Rightarrow> u128 \<Rightarrow> u8 \<Rightarrow> u8 \<Rightarrow> 'f res" where
  "sqrt_price_x64_to_price F price decimals_0 decimals_1 =
     rbind (multipler F decimals_0) (\<lambda>m0.
     rbind (multipler F decimals_1) (\<lambda>m1.
     Ok (fl_div F (fl_mul F (fl_powi F (from_x64_price F price) 2) m0) m1)))"

lemma multipler_eq: "multipler F decimals = (if decimals \<le> 9 then Ok (fl_of_nat F (10 ^ decimals)) else Panic)"
proof (cases "decimals \<le> 9")
  case True
  then have "(10::nat) ^ decimals \<le> 10 ^ 9" by (intro power_increasing) auto
  with True show ?thesis by (simp add: multipler_def)
next
  case False
  then have "(10::nat) ^ 10 \<le> 10 ^ decimals" by (intro power_increasing) auto
  with False show ?thesis by (simp add: multipler_def)
qed

section \<open>The laws of rounding\<close>

text \<open>
  What IEEE 754 arithmetic, which rounds to the nearest value, keeps of the order: integers up to
  \<open>2 ^ 53\<close> are exact, a factor at most (at least) 1 does not raise (lower) a value, and the conversion
  to an integer is monotone.  \<open>le\<close> is false when an operand is not a number.
\<close>

locale float_arithmetic =
  fixes F :: "'f float_ops" and le :: "'f \<Rightarrow> 'f \<Rightarrow> bool"
  assumes le_trans: "le x y \<Longrightarrow> le y z \<Longrightarrow> le x z"
    and as_u64_of_nat: "n \<le> 2 ^ 53 \<Longrightarrow> fl_as_u64 F (fl_of_nat F n) = n"
    and as_u64_mono: "le x y \<Longrightarrow> fl_as_u64 F x \<le> fl_as_u64 F y"
    and floor_le: "le x x \<Longrightarrow> le (fl_floor F x) x"
    and le_ceil: "le x x \<Longrightarrow> le x (fl_ceil F x)"
    and sub_from_one: "le (fl_of_nat F 0) s \<Longrightarrow> le s (fl_one F) \<Longrightarrow>
      le (fl_of_nat F 0) (fl_sub F (fl_one F) s) \<and> le (fl_sub F (fl_one F) s) (fl_one F)"
    and add_to_one: "le (fl_of_nat F 0) s \<Longrightarrow> le s (fl_one F) \<Longrightarrow>
      le (fl_one F) (fl_add F (fl_one F) s) \<and> le (fl_add F (fl_one F) s) (fl_of_nat F 2)"
    and mul_le: "n \<le> 2 ^ 53 \<Longrightarrow> le (fl_of_nat F 0) y \<Longrightarrow> le y (fl_one F) \<Longrightarrow>
      le (fl_mul F (fl_of_nat F n) y) (fl_of_nat F n)"
    and le_mul: "n \<le> 2 ^ 53 \<Longrightarrow> le (fl_one F) y \<Longrightarrow> le y (fl_of_nat F 2) \<Longrightarrow>
      le (fl_of_nat F n) (fl_mul F (fl_of_nat F n) y)"
    and le_defined: "le x y \<Longrightarrow> le x x \<and> le y y"
begin

lemma slippage_bounds:
  assumes "n \<le> 2 ^ 53" "le (fl_of_nat F 0) s" "le s (fl_one F)"
  shows "amount_with_slippage F n s False \<le> n" "n \<le> amount_with_slippage F n s True"
proof -
  let ?n = "fl_of_nat F n"
  have down: "le (fl_mul F ?n (fl_sub F (fl_one F) s)) ?n"
    using mul_le [OF assms(1)] sub_from_one [OF assms(2,3)] by blast
  then have "le (fl_floor F (fl_mul F ?n (fl_sub F (fl_one F) s))) ?n"
    using floor_le le_defined le_trans by blast
  from as_u64_mono [OF this] show "amount_with_slippage F n s False \<le> n"
    by (simp add: amount_with_slippage_def as_u64_of_nat [OF assms(1)])
  have up: "le ?n (fl_mul F ?n (fl_add F (fl_one F) s))"
    using le_mul [OF assms(1)] add_to_one [OF assms(2,3)] by blast
  then have "le ?n (fl_ceil F (fl_mul F ?n (fl_add F (fl_one F) s)))"
    using le_ceil le_defined le_trans by blast
  from as_u64_mono [OF this] show "n \<le> amount_with_slippage F n s True"
    by (simp add: amount_with_slippage_def as_u64_of_nat [OF assms(1)])
qed

end

section \<open>Arithmetic without rounding\<close>

definition saturated :: "nat \<Rightarrow> real \<Rightarrow> nat" where
  "saturated w x = nat (min (2 ^ w - 1) (max 0 \<lfloor>x\<rfloor>))"

definition real_ops :: "real float_ops" where
  "real_ops = \<lparr>fl_one = 1, fl_q_ratio = 10001 / 10000, fl_of_nat = real, fl_add = (+), fl_sub = (-),
     fl_mul = (*), fl_div = (/), fl_sqrt = sqrt, fl_powi = power_int, fl_log = (\<lambda>x b. log b x),
     fl_floor = (\<lambda>x. of_int \<lfloor>x\<rfloor>), fl_ceil = (\<lambda>x. of_int \<lceil>x\<rceil>), fl_as_u64 = saturated 64,
     fl_as_u128 = saturated 128,
     fl_as_i32 = (\<lambda>x. min (2 ^ 31 - 1) (max (- (2 ^ 31)) (if x < 0 then \<lceil>x\<rceil> else \<lfloor>x\<rfloor>)))\<rparr>"

lemma saturated_of_nat: "n < 2 ^ w \<Longrightarrow> saturated w (real n) = n"
proof -
  assume "n < 2 ^ w"
  then have "int n \<le> 2 ^ w - 1" by (simp add: zless_iff_Suc_zadd flip: of_nat_less_iff [where 'a = int])
  then show ?thesis by (simp add: saturated_def)
qed

lemma saturated_mono: "x \<le> y \<Longrightarrow> saturated w x \<le> saturated w y"
  unfolding saturated_def by (intro nat_mono min.mono max.mono order_refl floor_mono)

lemma float_arithmetic_real: "float_arithmetic real_ops (\<le>)"
proof
  show "n \<le> 2 ^ 53 \<Longrightarrow> fl_as_u64 real_ops (fl_of_nat real_ops n) = n" for n
    by (simp add: real_ops_def saturated_of_nat)
  show "n \<le> 2 ^ 53 \<Longrightarrow> fl_of_nat real_ops 0 \<le> y \<Longrightarrow> y \<le> fl_one real_ops \<Longrightarrow>
      fl_mul real_ops (fl_of_nat real_ops n) y \<le> fl_of_nat real_ops n" for n y
    by (simp add: real_ops_def mult_left_le)
  show "n \<le> 2 ^ 53 \<Longrightarrow> fl_one real_ops \<le> y \<Longrightarrow> y \<le> fl_of_nat real_ops 2 \<Longrightarrow>
      fl_of_nat real_ops n \<le> fl_mul real_ops (fl_of_nat real_ops n) y" for n y
    using mult_left_mono [of 1 y "real n"] by (simp add: real_ops_def)
qed (auto simp: real_ops_def saturated_mono)

interpretation real_ops: float_arithmetic real_ops "(\<le>)"
  by (rule float_arithmetic_real)

end
