(* ===== verification/Client_Commands.thy ===== *)
theory Client_Commands
  imports Client_Tokens Client_Float Client_Swap
begin

text \<open>
  The commands of the client, \<open>src/client/src/main.rs\<close>: from the arguments of the command line, the
  configuration and the accounts on the chain to the transaction that is sent.
\<close>

section \<open>The configuration\<close>

text \<open>The file of the configuration and the parsers of its entries.\<close>

record 'f config_file =
  ini_get :: "string \<Rightarrow> string \<Rightarrow> string option"
  ini_getfloat :: "string \<Rightarrow> string \<Rightarrow> 'f option res"
  ini_getuint :: "string \<Rightarrow> string \<Rightarrow> u64 option res"
  pubkey_from_str :: "string \<Rightarrow> pubkey res"
  read_keypair_file :: "string \<Rightarrow> pubkey res"

text \<open>An entry that must be there, and must not be empty.\<close>

definition required_entry :: "'f config_file \<Rightarrow> string \<Rightarrow> string \<Rightarrow> string res" where
  "required_entry I part entry =
     rbind (unwrap (ini_get I part entry)) (\<lambda>s. if s = [] then Panic else Ok s)"

definition optional_key :: "'f config_file \<Rightarrow> string \<Rightarrow> string \<Rightarrow> pubkey option res" where
  "optional_key I part entry =
     rbind (unwrap (ini_get I part entry)) (\<lambda>s.
     if s = [] then Ok None
     else rbind (unwrap_result (pubkey_from_str I s)) (\<lambda>key. Ok (Some key)))"

text \<open>The two mints in the order of their keys, and the pool that they have with the configuration.\<close>

definition order_mints :: "pubkey option \<Rightarrow> pubkey option \<Rightarrow> pubkey option \<times> pubkey option" where
  "order_mints mint0 mint1 =
     (case (mint0, mint1) of
        (Some a, Some b) \<Rightarrow> if a > b then (Some b, Some a) else (Some a, Some b)
      | _ \<Rightarrow> (mint0, mint1))"

definition pool_of_mints :: "client_lib \<Rightarrow> pubkey \<Rightarrow> pubkey option \<Rightarrow> pubkey option \<Rightarrow> pubkey option" where
  "pool_of_mints L amm_config_key mint0 mint1 =
     (case (mint0, mint1) of (Some a, Some b) \<Rightarrow> Some (cl_pool L amm_config_key a b) | _ \<Rightarrow> None)"

text \<open>Derived addresses are those of the program in the file.\<close>

definition load_cfg :: "(pubkey \<Rightarrow> client_lib) \<Rightarrow> 'f config_file \<Rightarrow> 'f client_config res" where
  "load_cfg lib I =
     rbind (required_entry I ''Global'' ''http_url'') (\<lambda>_.
     rbind (required_entry I ''Global'' ''ws_url'') (\<lambda>_.
     rbind (required_entry I ''Global'' ''payer_path'') (\<lambda>payer_path.
     rbind (required_entry I ''Global'' ''admin_path'') (\<lambda>admin_path.
     rbind (required_entry I ''Global'' ''raydium_v3_program'') (\<lambda>raydium_v3_program_str.
     rbind (unwrap_result (pubkey_from_str I raydium_v3_program_str)) (\<lambda>raydium_v3_program.
     let L = lib raydium_v3_program in
     rbind (unwrap_result (ini_getfloat I ''Global'' ''slippage'')) (\<lambda>s.
     rbind (unwrap s) (\<lambda>slippage.
     rbind (optional_key I ''Pool'' ''mint0'') (\<lambda>mint0.
     rbind (optional_key I ''Pool'' ''mint1'') (\<lambda>mint1.
     rbind (unwrap_result (ini_getuint I ''Pool'' ''amm_config_index'')) (\<lambda>n.
     rbind (unwrap n) (\<lambda>n.
     let amm_config_index = n mod 2 ^ 16;
         amm_config_key = cl_amm_config L amm_config_index;
         (mint0, mint1) = order_mints mint0 mint1;
         pool_id_account = pool_of_mints L amm_config_key mint0 mint1 in
     Ok \<lparr>cc_raydium_v3_program = raydium_v3_program, cc_payer = read_keypair_file I payer_path,
         cc_admin = read_keypair_file I admin_path, cc_slippage = slippage,
         cc_amm_config_key = amm_config_key, cc_mint0 = mint0, cc_mint1 = mint1,
         cc_pool_id_account = pool_id_account,
         cc_tickarray_bitmap_extension = map_option (cl_tick_array_bitmap L) pool_id_account,
         cc_amm_config_index = amm_config_index\<rparr>))))))))))))"

section \<open>The chain\<close>

text \<open>An account as the client decodes it: each type is what its bytes unpack to, or an error.\<close>

record loaded_account =
  la_owner :: pubkey
  la_spl_token_mint :: "pubkey res"
  la_token_mint :: "pubkey res"
  la_decimals :: "u8 res"
  la_mint_state :: "mint_view res"
  la_amm_config :: "amm_config res"
  la_pool_state :: "pool_state res"
  la_extension :: "bitmap_extension res"
  la_position :: "personal_position res"
  la_tick_array :: "tick_array res"

text \<open>A token account of an owner; \<open>None\<close> is one that is not of the old token program.\<close>

record ui_token_account =
  ui_mint :: "pubkey res"
  ui_amount :: "u64 res"
  ui_decimals :: u8
  ui_close_authority :: "pubkey res option"

record keyed_account =
  ka_pubkey :: "pubkey res"
  ka_account :: "ui_token_account option"

record chain =
  cn_rpc :: rpc_client
  cn_get_account :: "pubkey \<Rightarrow> loaded_account res"
  cn_get_multiple_accounts :: "pubkey list \<Rightarrow> loaded_account option list res"
  cn_get_token_accounts_by_owner :: "pubkey \<Rightarrow> keyed_account list res"

definition load_pool :: "chain \<Rightarrow> pubkey \<Rightarrow> pool_state res" where
  "load_pool C key = rbind (cn_get_account C key) (\<lambda>account. la_pool_state account)"

definition index_account :: "loaded_account option list \<Rightarrow> nat \<Rightarrow> loaded_account res" where
  "index_account rsps i = rbind (index_at rsps i) (\<lambda>rsp. unwrap rsp)"

section \<open>The positions of an owner\<close>

record token_info =
  ti_key :: pubkey
  ti_mint :: pubkey
  ti_amount :: u64
  ti_decimals :: u8

text \<open>A token with one unit and no decimals is the token of a position.\<close>

fun nft_accounts_and_positions :: "pda \<Rightarrow> keyed_account list \<Rightarrow> (token_info list \<times> pubkey list) res" where
  "nft_accounts_and_positions D [] = Ok ([], [])"
| "nft_accounts_and_positions D (keyed # accounts) =
     (case ka_account keyed of
        None \<Rightarrow> nft_accounts_and_positions D accounts
      | Some ui_token_account \<Rightarrow>
          rbind (unwrap_result (ui_mint ui_token_account)) (\<lambda>token.
          rbind (unwrap_result (ka_pubkey keyed)) (\<lambda>token_account.
          rbind (unwrap_result (ui_amount ui_token_account)) (\<lambda>token_amount.
          rbind (case ui_close_authority ui_token_account of None \<Rightarrow> Ok 0
                 | Some key \<Rightarrow> unwrap_result key) (\<lambda>_.
          rbind (nft_accounts_and_positions D accounts) (\<lambda>(nft_account, user_position_account).
          Ok (if ui_decimals ui_token_account = 0 \<and> token_amount = 1
              then (\<lparr>ti_key = token_account, ti_mint = token, ti_amount = token_amount,
                      ti_decimals = ui_decimals ui_token_account\<rparr> # nft_account,
                    pda_position D token # user_position_account)
              else (nft_account, user_position_account))))))))"

definition get_nft_account_and_position_by_owner ::
  "chain \<Rightarrow> pda \<Rightarrow> pubkey \<Rightarrow> (token_info list \<times> pubkey list) res" where
  "get_nft_account_and_position_by_owner C D owner =
     rbind (unwrap_result (cn_get_token_accounts_by_owner C owner)) (\<lambda>all_tokens.
     nft_accounts_and_positions D all_tokens)"

fun deserialize_positions :: "loaded_account option list \<Rightarrow> personal_position list res" where
  "deserialize_positions [] = Ok []"
| "deserialize_positions (None # rsps) = deserialize_positions rsps"
| "deserialize_positions (Some rsp # rsps) =
     rbind (la_position rsp) (\<lambda>position.
     rbind (deserialize_positions rsps) (\<lambda>positions. Ok (position # positions)))"

definition load_positions :: "chain \<Rightarrow> pda \<Rightarrow> pubkey \<Rightarrow> personal_position list res" where
  "load_positions C D owner =
     rbind (get_nft_account_and_position_by_owner C D owner) (\<lambda>(_, positions).
     rbind (cn_get_multiple_accounts C positions) (\<lambda>rsps.
     deserialize_positions rsps))"

text \<open>The last position of the pool on the range, or the default.\<close>

definition find_position :: "pubkey \<Rightarrow> i32 \<Rightarrow> i32 \<Rightarrow> personal_position list \<Rightarrow> personal_position" where
  "find_position pool_id tick_lower_index tick_upper_index user_positions =
     fold (\<lambda>position found.
         if pe_pool_id position = pool_id \<and> pe_tick_lower_index position = tick_lower_index
             \<and> pe_tick_upper_index position = tick_upper_index
         then position else found)
       user_positions default_personal_position"

section \<open>What a command results in\<close>

text \<open>A transaction that is sent or simulated, or a message only.\<close>

datatype outcome = Send transaction | Simulate transaction | Message_only

definition program_transaction :: "pubkey \<Rightarrow> pubkey list \<Rightarrow> program_request list \<Rightarrow> transaction" where
  "program_transaction payer signers requests =
     \<lparr>tn_instructions = map ProgramInstruction requests, tn_payer = payer, tn_signers = signers\<rparr>"

definition with_compute_limit :: "transaction \<Rightarrow> transaction" where
  "with_compute_limit t = t\<lparr>tn_instructions := ComputeUnitLimit 1400000 # tn_instructions t\<rparr>"

section \<open>Configurations, pools and rewards\<close>

definition create_config_command ::
  "client_lib \<Rightarrow> 'f client_config \<Rightarrow> pubkey \<Rightarrow> pubkey \<Rightarrow> u16 \<Rightarrow> u16 \<Rightarrow> u32 \<Rightarrow> u32 \<Rightarrow> u32 \<Rightarrow> outcome res" where
  "create_config_command L pool_config payer admin config_index tick_spacing trade_fee_rate protocol_fee_rate
      fund_fee_rate =
     rbind (create_amm_config_instr L pool_config config_index tick_spacing trade_fee_rate
              protocol_fee_rate fund_fee_rate) (\<lambda>create_instr.
     Ok (Send (program_transaction payer [payer, admin] [CreateAmmConfig create_instr])))"

definition update_config_command ::
  "client_lib \<Rightarrow> 'f client_config \<Rightarrow> pubkey \<Rightarrow> pubkey \<Rightarrow> u16 \<Rightarrow> u8 \<Rightarrow> u32 \<Rightarrow> pubkey option \<Rightarrow> outcome res" where
  "update_config_command L pool_config payer admin config_index param val remaining =
     rbind (if param \<le> 2 then Ok ([], val)
            else if param = 3 \<or> param = 4 then
              rbind (unwrap remaining) (\<lambda>remaining_key.
              Ok ([account_meta_new_readonly remaining_key False], 0))
            else Panic) (\<lambda>(remaing_accounts, update_value).
     let amm_config_key = cl_amm_config L config_index in
     rbind (update_amm_config_instr pool_config amm_config_key remaing_accounts param update_value)
       (\<lambda>update_instr.
     Ok (Send (program_transaction payer [payer, admin] [UpdateAmmConfig update_instr]))))"

definition create_operation_command ::
  "client_lib \<Rightarrow> 'f client_config \<Rightarrow> pubkey \<Rightarrow> pubkey \<Rightarrow> outcome res" where
  "create_operation_command L pool_config payer admin =
     rbind (create_operation_account_instr L pool_config) (\<lambda>create_instr.
     Ok (Send (program_transaction payer [payer, admin] [CreateOperationAccount create_instr])))"

definition update_operation_command ::
  "client_lib \<Rightarrow> 'f client_config \<Rightarrow> pubkey \<Rightarrow> pubkey \<Rightarrow> u8 \<Rightarrow> pubkey list \<Rightarrow> outcome res" where
  "update_operation_command L pool_config payer admin param keys =
     rbind (update_operation_account_instr L pool_config param keys) (\<lambda>create_instr.
     Ok (Send (program_transaction payer [payer, admin] [UpdateOperationAccount create_instr])))"

text \<open>The mints in order; the price is then that of the other direction.\<close>

definition order_price :: "'f float_ops \<Rightarrow> 'f \<Rightarrow> pubkey \<Rightarrow> pubkey \<Rightarrow> 'f \<times> pubkey \<times> pubkey" where
  "order_price F price mint0 mint1 =
     (if mint0 > mint1 then (fl_div F (fl_one F) price, mint1, mint0) else (price, mint0, mint1))"

definition create_pool_command ::
  "'f float_ops \<Rightarrow> uint_lib \<Rightarrow> client_lib \<Rightarrow> 'x token_crates \<Rightarrow> chain \<Rightarrow> 'f client_config \<Rightarrow> pubkey \<Rightarrow> pubkey \<Rightarrow>
   u16 \<Rightarrow> 'f \<Rightarrow> pubkey \<Rightarrow> pubkey \<Rightarrow> u64 \<Rightarrow> outcome res" where
  "create_pool_command F U L X C pool_config payer observation_account config_index price mint0 mint1 open_time =
     (let (price, mint0, mint1) = order_price F price mint0 mint1 in
      rbind (cn_get_multiple_accounts C [mint0, mint1]) (\<lambda>rsps.
      rbind (index_account rsps 0) (\<lambda>rsp0.
      rbind (index_account rsps 1) (\<lambda>rsp1.
      rbind (unwrap_result (la_decimals rsp0)) (\<lambda>decimals0.
      rbind (unwrap_result (la_decimals rsp1)) (\<lambda>decimals1.
      rbind (price_to_sqrt_price_x64 F price decimals0 decimals1) (\<lambda>sqrt_price_x64.
      let amm_config_key = cl_amm_config L config_index in
      rbind (unwrap_result (get_tick_at_sqrt_price U sqrt_price_x64)) (\<lambda>tick.
      rbind (create_account_rent_exmpt_instr X pool_config observation_account
               (cc_raydium_v3_program pool_config) OBSERVATION_STATE_LEN) (\<lambda>create_observation_instr.
      rbind (unwrap (cc_tickarray_bitmap_extension pool_config)) (\<lambda>tick_array_bitmap.
      rbind (create_pool_instr L pool_config amm_config_key observation_account mint0 mint1
               (la_owner rsp0) (la_owner rsp1) tick_array_bitmap sqrt_price_x64 open_time) (\<lambda>create_pool.
      Ok (Send \<lparr>tn_instructions =
                  map TokenInstruction create_observation_instr @ [ProgramInstruction (CreatePool create_pool)],
                tn_payer = payer, tn_signers = [payer, observation_account]\<rparr>))))))))))))"

text \<open>\<open>(emissions * fixed_point_64::Q64 as f64) as u128\<close>.\<close>

definition emissions_x64 :: "'f float_ops \<Rightarrow> 'f \<Rightarrow> u128" where
  "emissions_x64 F emissions = fl_as_u128 F (fl_mul F emissions (fl_of_nat F Q64))"

definition init_reward_command ::
  "'f float_ops \<Rightarrow> client_lib \<Rightarrow> chain \<Rightarrow> 'f client_config \<Rightarrow> pubkey \<Rightarrow> pubkey \<Rightarrow> u64 \<Rightarrow> u64 \<Rightarrow> 'f \<Rightarrow> pubkey \<Rightarrow>
   outcome res" where
  "init_reward_command F L C pool_config payer admin open_time end_time emissions reward_mint =
     rbind (cn_get_account C reward_mint) (\<lambda>mint_account.
     let emissions_per_second_x64 = emissions_x64 F emissions in
     rbind (unwrap (cc_pool_id_account pool_config)) (\<lambda>pool_id.
     rbind (load_pool C pool_id) (\<lambda>pool_account.
     rbind (initialize_reward_instr L pool_config pool_id (ps_amm_config pool_account) (cl_operation L) reward_mint
              (cl_pool_reward_vault L pool_id reward_mint) (cl_associated_token L admin reward_mint)
              (la_owner mint_account) open_time end_time emissions_per_second_x64) (\<lambda>create_instr.
     Ok (Send (program_transaction payer [payer, admin] [InitializeReward create_instr]))))))"

definition set_reward_params_command ::
  "'f float_ops \<Rightarrow> client_lib \<Rightarrow> chain \<Rightarrow> 'f client_config \<Rightarrow> pubkey \<Rightarrow> pubkey \<Rightarrow> u8 \<Rightarrow> u64 \<Rightarrow> u64 \<Rightarrow> 'f \<Rightarrow> pubkey \<Rightarrow>
   outcome res" where
  "set_reward_params_command F L C pool_config payer admin index open_time end_time emissions reward_mint =
     (let emissions_per_second_x64 = emissions_x64 F emissions in
      rbind (unwrap (cc_pool_id_account pool_config)) (\<lambda>pool_id.
      rbind (load_pool C pool_id) (\<lambda>pool_account.
      rbind (set_reward_params_instr L pool_config (ps_amm_config pool_account) pool_id
               (cl_pool_reward_vault L pool_id reward_mint) (cl_associated_token L admin reward_mint)
               (cl_operation L) index open_time end_time emissions_per_second_x64) (\<lambda>create_instr.
      Ok (Send (program_transaction payer [payer, admin] [SetRewardParams create_instr]))))))"

definition transfer_reward_owner_command ::
  "'f client_config \<Rightarrow> pubkey \<Rightarrow> pubkey \<Rightarrow> pubkey \<Rightarrow> pubkey \<Rightarrow> bool \<Rightarrow> pubkey option \<Rightarrow> outcome res" where
  "transfer_reward_owner_command pool_config payer admin pool_id new_owner encode authority =
     rbind (unwrap_result (transfer_reward_owner_instr pool_config pool_id new_owner encode authority))
       (\<lambda>transfer_reward_owner_instrs.
     if encode then Ok Message_only
     else Ok (Send (program_transaction payer [payer, admin]
                      [TransferRewardOwner transfer_reward_owner_instrs])))"

section \<open>Positions\<close>

text \<open>\<open>as i128\<close> keeps the bits.\<close>

definition u128_as_i128 :: "u128 \<Rightarrow> i128" where
  "u128_as_i128 n = (if n < 2 ^ 127 then int n else int n - 2 ^ 128)"

text \<open>The two prices as ticks on the spacing of the pool.\<close>

definition ticks_of_prices ::
  "'f float_ops \<Rightarrow> uint_lib \<Rightarrow> pool_state \<Rightarrow> 'f \<Rightarrow> 'f \<Rightarrow> (i32 \<times> i32) res" where
  "ticks_of_prices F U pool tick_lower_price tick_upper_price =
     rbind (price_to_sqrt_price_x64 F tick_lower_price (ps_mint_decimals_0 pool) (ps_mint_decimals_1 pool))
       (\<lambda>tick_lower_price_x64.
     rbind (price_to_sqrt_price_x64 F tick_upper_price (ps_mint_decimals_0 pool) (ps_mint_decimals_1 pool))
       (\<lambda>tick_upper_price_x64.
     rbind (get_tick_at_sqrt_price U tick_lower_price_x64) (\<lambda>tick_lower.
     rbind (tick_with_spacing tick_lower (int (ps_tick_spacing pool))) (\<lambda>tick_lower_index.
     rbind (get_tick_at_sqrt_price U tick_upper_price_x64) (\<lambda>tick_upper.
     rbind (tick_with_spacing tick_upper (int (ps_tick_spacing pool))) (\<lambda>tick_upper_index.
     Ok (tick_lower_index, tick_upper_index)))))))"

text \<open>The liquidity for an amount of one token, and the most that it may cost of each.\<close>

definition plan_deposit ::
  "'f float_ops \<Rightarrow> uint_lib \<Rightarrow> u16 \<Rightarrow> rpc_client \<Rightarrow> pool_state \<Rightarrow> 'f \<Rightarrow> i32 \<Rightarrow> i32 \<Rightarrow> bool \<Rightarrow> u64 \<Rightarrow>
   (u128 \<times> u64 \<times> u64) res" where
  "plan_deposit F U max_fee_basis_points R pool slippage tick_lower_index tick_upper_index is_base_0
      input_amount =
     rbind (get_sqrt_price_at_tick U tick_lower_index) (\<lambda>tick_lower_price_x64.
     rbind (get_sqrt_price_at_tick U tick_upper_index) (\<lambda>tick_upper_price_x64.
     rbind (if is_base_0 then
              get_liquidity_from_single_amount_0 U (ps_sqrt_price_x64 pool) tick_lower_price_x64
                tick_upper_price_x64 input_amount
            else
              get_liquidity_from_single_amount_1 U (ps_sqrt_price_x64 pool) tick_lower_price_x64
                tick_upper_price_x64 input_amount) (\<lambda>liquidity.
     rbind (get_delta_amounts_signed U (ps_tick_current pool) (ps_sqrt_price_x64 pool) tick_lower_index
              tick_upper_index (u128_as_i128 liquidity)) (\<lambda>(amount_0, amount_1).
     let amount_0_with_slippage = amount_with_slippage F amount_0 slippage True;
         amount_1_with_slippage = amount_with_slippage F amount_1 slippage True in
     rbind (get_pool_mints_inverse_fee max_fee_basis_points R (ps_token_mint_0 pool) (ps_token_mint_1 pool)
              amount_0_with_slippage amount_1_with_slippage) (\<lambda>(fee_0, fee_1).
     rbind (unwrap (checked_add 64 amount_0_with_slippage (tfi_transfer_fee fee_0))) (\<lambda>amount_0_max.
     rbind (unwrap (checked_add 64 amount_1_with_slippage (tfi_transfer_fee fee_1))) (\<lambda>amount_1_max.
     Ok (liquidity, amount_0_max, amount_1_max))))))))"

definition start_indexes :: "pool_state \<Rightarrow> i32 \<Rightarrow> i32 \<Rightarrow> (i32 \<times> i32) res" where
  "start_indexes pool tick_lower_index tick_upper_index =
     rbind (get_array_start_index tick_lower_index (ps_tick_spacing pool)) (\<lambda>lower.
     rbind (get_array_start_index tick_upper_index (ps_tick_spacing pool)) (\<lambda>upper.
     Ok (lower, upper)))"

text \<open>The accounts of the owner for the two tokens of the configuration.\<close>

definition own_accounts :: "client_lib \<Rightarrow> 'f client_config \<Rightarrow> pubkey \<Rightarrow> (pubkey \<times> pubkey) res" where
  "own_accounts L pool_config owner =
     rbind (unwrap (cc_mint0 pool_config)) (\<lambda>mint0.
     rbind (unwrap (cc_mint1 pool_config)) (\<lambda>mint1.
     Ok (cl_associated_token L owner mint0, cl_associated_token L owner mint1)))"

definition open_position_command ::
  "'f float_ops \<Rightarrow> uint_lib \<Rightarrow> u16 \<Rightarrow> client_lib \<Rightarrow> chain \<Rightarrow> 'f client_config \<Rightarrow> pubkey \<Rightarrow> pubkey \<Rightarrow> 'f \<Rightarrow> 'f \<Rightarrow>
   bool \<Rightarrow> u64 \<Rightarrow> bool \<Rightarrow> outcome res" where
  "open_position_command F U max_fee_basis_points L C pool_config payer nft_mint tick_lower_price
      tick_upper_price is_base_0 input_amount with_metadata =
     rbind (unwrap (cc_pool_id_account pool_config)) (\<lambda>pool_id.
     rbind (load_pool C pool_id) (\<lambda>pool.
     rbind (ticks_of_prices F U pool tick_lower_price tick_upper_price) (\<lambda>(tick_lower_index, tick_upper_index).
     rbind (plan_deposit F U max_fee_basis_points (cn_rpc C) pool (cc_slippage pool_config) tick_lower_index
              tick_upper_index is_base_0 input_amount) (\<lambda>(liquidity, amount_0_max, amount_1_max).
     rbind (start_indexes pool tick_lower_index tick_upper_index)
       (\<lambda>(tick_array_lower_start_index, tick_array_upper_start_index).
     rbind (load_positions C (cl_pda L) payer) (\<lambda>user_positions.
     let position = find_position pool_id tick_lower_index tick_upper_index user_positions in
     if pe_nft_mint position = default_pubkey then
       rbind (unwrap (cc_tickarray_bitmap_extension pool_config)) (\<lambda>extension.
       rbind (own_accounts L pool_config payer) (\<lambda>(token_account_0, token_account_1).
       rbind (open_position_instr L pool_config pool_id (ps_token_vault_0 pool) (ps_token_vault_1 pool)
                (ps_token_mint_0 pool) (ps_token_mint_1 pool) nft_mint payer token_account_0 token_account_1
                [account_meta_new extension False] liquidity amount_0_max amount_1_max tick_lower_index
                tick_upper_index tick_array_lower_start_index tick_array_upper_start_index with_metadata)
         (\<lambda>open_position.
       Ok (Send (with_compute_limit
                  (program_transaction payer [payer, nft_mint] [OpenPositionV2 open_position]))))))
     else Ok Message_only))))))"

definition increase_liquidity_command ::
  "'f float_ops \<Rightarrow> uint_lib \<Rightarrow> u16 \<Rightarrow> client_lib \<Rightarrow> chain \<Rightarrow> 'f client_config \<Rightarrow> pubkey \<Rightarrow> 'f \<Rightarrow> 'f \<Rightarrow>
   bool \<Rightarrow> u64 \<Rightarrow> outcome res" where
  "increase_liquidity_command F U max_fee_basis_points L C pool_config payer tick_lower_price
      tick_upper_price is_base_0 imput_amount =
     rbind (unwrap (cc_pool_id_account pool_config)) (\<lambda>pool_id.
     rbind (load_pool C pool_id) (\<lambda>pool.
     rbind (load_positions C (cl_pda L) payer) (\<lambda>user_positions.
     rbind (ticks_of_prices F U pool tick_lower_price tick_upper_price) (\<lambda>(tick_lower_index, tick_upper_index).
     rbind (plan_deposit F U max_fee_basis_points (cn_rpc C) pool (cc_slippage pool_config) tick_lower_index
              tick_upper_index is_base_0 imput_amount) (\<lambda>(liquidity, amount_0_max, amount_1_max).
     rbind (start_indexes pool tick_lower_index tick_upper_index)
       (\<lambda>(tick_array_lower_start_index, tick_array_upper_start_index).
     let position = find_position pool_id tick_lower_index tick_upper_index user_positions in
     if pe_nft_mint position \<noteq> default_pubkey \<and> pe_pool_id position = pool_id then
       rbind (unwrap (cc_tickarray_bitmap_extension pool_config)) (\<lambda>extension.
       rbind (own_accounts L pool_config payer) (\<lambda>(token_account_0, token_account_1).
       rbind (increase_liquidity_instr L pool_config pool_id (ps_token_vault_0 pool) (ps_token_vault_1 pool)
                (ps_token_mint_0 pool) (ps_token_mint_1 pool) (pe_nft_mint position) token_account_0
                token_account_1 [account_meta_new_readonly extension False] liquidity amount_0_max
                amount_1_max tick_lower_index tick_upper_index tick_array_lower_start_index
                tick_array_upper_start_index) (\<lambda>increase_instr.
       Ok (Send (program_transaction payer [payer] [IncreaseLiquidityV2 increase_instr])))))
     else Ok Message_only))))))"

text \<open>For every reward that is set up: its vault, the account of the owner, its mint.\<close>

fun reward_vault_with_user_vault :: "client_lib \<Rightarrow> pubkey \<Rightarrow> reward_info list \<Rightarrow> pubkey list" where
  "reward_vault_with_user_vault L owner [] = []"
| "reward_vault_with_user_vault L owner (item # items) =
     (if ri_token_mint item \<noteq> default_pubkey
      then [ri_token_vault item, cl_associated_token L owner (ri_token_mint item), ri_token_mint item]
      else []) @ reward_vault_with_user_vault L owner items"

text \<open>The least that a liquidity is to bring of each token.\<close>

definition plan_withdrawal ::
  "'f float_ops \<Rightarrow> uint_lib \<Rightarrow> rpc_client \<Rightarrow> pool_state \<Rightarrow> 'f \<Rightarrow> i32 \<Rightarrow> i32 \<Rightarrow> u128 \<Rightarrow> (u64 \<times> u64) res" where
  "plan_withdrawal F U R pool slippage tick_lower_index tick_upper_index liquidity =
     rbind (chk_i 128 (- u128_as_i128 liquidity)) (\<lambda>liquidity_delta.
     rbind (get_delta_amounts_signed U (ps_tick_current pool) (ps_sqrt_price_x64 pool) tick_lower_index
              tick_upper_index liquidity_delta) (\<lambda>(amount_0, amount_1).
     let amount_0_with_slippage = amount_with_slippage F amount_0 slippage False;
         amount_1_with_slippage = amount_with_slippage F amount_1 slippage False in
     rbind (get_pool_mints_transfer_fee R (ps_token_mint_0 pool) (ps_token_mint_1 pool)
              amount_0_with_slippage amount_1_with_slippage) (\<lambda>(fee_0, fee_1).
     rbind (unwrap (checked_sub amount_0_with_slippage (tfi_transfer_fee fee_0))) (\<lambda>amount_0_min.
     rbind (unwrap (checked_sub amount_1_with_slippage (tfi_transfer_fee fee_1))) (\<lambda>amount_1_min.
     Ok (amount_0_min, amount_1_min))))))"

definition decrease_liquidity_command ::
  "'f float_ops \<Rightarrow> uint_lib \<Rightarrow> client_lib \<Rightarrow> chain \<Rightarrow> 'f client_config \<Rightarrow> pubkey \<Rightarrow> i32 \<Rightarrow> i32 \<Rightarrow>
   u128 option \<Rightarrow> bool \<Rightarrow> outcome res" where
  "decrease_liquidity_command F U L C pool_config payer tick_lower_index tick_upper_index liquidity simulate =
     rbind (unwrap (cc_pool_id_account pool_config)) (\<lambda>pool_id.
     rbind (load_pool C pool_id) (\<lambda>pool.
     rbind (start_indexes pool tick_lower_index tick_upper_index)
       (\<lambda>(tick_array_lower_start_index, tick_array_upper_start_index).
     rbind (load_positions C (cl_pda L) payer) (\<lambda>user_positions.
     let position = find_position pool_id tick_lower_index tick_upper_index user_positions in
     if pe_nft_mint position \<noteq> default_pubkey \<and> pe_pool_id position = pool_id then
       let rewards = reward_vault_with_user_vault L payer (ps_reward_infos pool);
           liquidity = (case liquidity of Some liquidity \<Rightarrow> liquidity | None \<Rightarrow> pe_liquidity position) in
       rbind (plan_withdrawal F U (cn_rpc C) pool (cc_slippage pool_config) tick_lower_index
                tick_upper_index liquidity) (\<lambda>(amount_0_min, amount_1_min).
       rbind (unwrap (cc_tickarray_bitmap_extension pool_config)) (\<lambda>extension.
       rbind (own_accounts L pool_config payer) (\<lambda>(token_account_0, token_account_1).
       rbind (decrease_liquidity_instr L pool_config pool_id (ps_token_vault_0 pool) (ps_token_vault_1 pool)
                (ps_token_mint_0 pool) (ps_token_mint_1 pool) (pe_nft_mint position) token_account_0
                token_account_1
                (account_meta_new extension False # map (\<lambda>item. account_meta_new item False) rewards)
                liquidity amount_0_min amount_1_min tick_lower_index tick_upper_index
                tick_array_lower_start_index tick_array_upper_start_index) (\<lambda>decrease_instr.
       rbind (if liquidity = pe_liquidity position then
                rbind (close_personal_position_instr L pool_config (pe_nft_mint position)) (\<lambda>close_instr.
                Ok [ClosePosition close_instr])
              else Ok []) (\<lambda>close_instrs.
       let txn = program_transaction payer [payer] (DecreaseLiquidityV2 decrease_instr # close_instrs) in
       Ok (if simulate then Simulate txn else Send txn))))))
     else Ok Message_only))))"

section \<open>Swaps\<close>

definition limit_of_price :: "'f float_ops \<Rightarrow> pool_state \<Rightarrow> 'f option \<Rightarrow> u128 option res" where
  "limit_of_price F pool_state limit_price =
     (case limit_price of None \<Rightarrow> Ok None
      | Some price \<Rightarrow>
          rbind (price_to_sqrt_price_x64 F price (ps_mint_decimals_0 pool_state)
                   (ps_mint_decimals_1 pool_state)) (\<lambda>sqrt_price_x64.
          Ok (Some sqrt_price_x64)))"

text \<open>The extension of the bitmap, then the tick arrays after the first (or all of them).\<close>

definition swap_remaining_accounts :: "client_lib \<Rightarrow> pubkey \<Rightarrow> pubkey \<Rightarrow> i32 list \<Rightarrow> account_meta list" where
  "swap_remaining_accounts L extension pool_id tick_array_indexs =
     account_meta_new_readonly extension False
     # map (\<lambda>index. account_meta_new (pda_tick_array (cl_pda L) pool_id index) False) tick_array_indexs"

text \<open>What \<open>Swap\<close> reads from the chain: the states, the direction and the tick arrays.\<close>

definition read_for_swap ::
  "client_lib \<Rightarrow> chain \<Rightarrow> pubkey \<Rightarrow> pubkey \<Rightarrow> pubkey \<Rightarrow> pubkey \<Rightarrow> pubkey \<Rightarrow>
   (amm_config \<times> pool_state \<times> bitmap_extension \<times> bool \<times> tick_array list) res" where
  "read_for_swap L C amm_config_key pool_id extension input_token output_token =
     rbind (cn_get_multiple_accounts C [input_token, output_token, amm_config_key, pool_id, extension]) (\<lambda>rsps.
     rbind (assertion (5 \<le> length rsps)) (\<lambda>_.
     rbind (index_account rsps 0) (\<lambda>user_input_account.
     rbind (unwrap_result (la_spl_token_mint user_input_account)) (\<lambda>user_input_mint.
     rbind (index_account rsps 1) (\<lambda>user_output_account.
     rbind (unwrap_result (la_spl_token_mint user_output_account)) (\<lambda>user_output_mint.
     rbind (index_account rsps 2) (\<lambda>amm_config_account.
     rbind (la_amm_config amm_config_account) (\<lambda>amm_config_state.
     rbind (index_account rsps 3) (\<lambda>pool_account.
     rbind (la_pool_state pool_account) (\<lambda>pool_state.
     rbind (index_account rsps 4) (\<lambda>extension_account.
     rbind (la_extension extension_account) (\<lambda>tickarray_bitmap_extension.
     let zero_for_one = (user_input_mint = ps_token_mint_0 pool_state \<and> user_output_mint = ps_token_mint_1 pool_state) in
     rbind (load_cur_and_next_five_tick_array (cn_rpc C) (cl_pda L) (Some pool_id) pool_state
              tickarray_bitmap_extension zero_for_one) (\<lambda>tick_arrays.
     Ok (amm_config_state, pool_state, tickarray_bitmap_extension, zero_for_one, tick_arrays))))))))))))))"

definition swap_command ::
  "'f float_ops \<Rightarrow> uint_lib \<Rightarrow> client_lib \<Rightarrow> chain \<Rightarrow> 'f client_config \<Rightarrow> pubkey \<Rightarrow> pubkey \<Rightarrow> pubkey \<Rightarrow> bool \<Rightarrow>
   bool \<Rightarrow> u64 \<Rightarrow> 'f option \<Rightarrow> outcome res" where
  "swap_command F U L C pool_config payer input_token output_token base_in simulate amount limit_price =
     rbind (unwrap (cc_pool_id_account pool_config)) (\<lambda>pool_id.
     rbind (unwrap (cc_tickarray_bitmap_extension pool_config)) (\<lambda>extension.
     rbind (read_for_swap L C (cc_amm_config_key pool_config) pool_id extension input_token output_token)
       (\<lambda>(amm_config_state, pool_state, tickarray_bitmap_extension, zero_for_one, tick_arrays).
     rbind (limit_of_price F pool_state limit_price) (\<lambda>sqrt_price_limit_x64.
     rbind (unwrap_result (get_out_put_amount_and_remaining_accounts U amount sqrt_price_limit_x64
              zero_for_one base_in amm_config_state pool_state tickarray_bitmap_extension tick_arrays))
       (\<lambda>(other_amount, tick_array_indexs).
     let other_amount_threshold =
           amount_with_slippage F other_amount (cc_slippage pool_config) (\<not> base_in) in
     rbind (next_account tick_array_indexs) (\<lambda>(first_index, tick_array_indexs).
     rbind (unwrap_result (swap_instr L pool_config (ps_amm_config pool_state) pool_id
              (if zero_for_one then ps_token_vault_0 pool_state else ps_token_vault_1 pool_state)
              (if zero_for_one then ps_token_vault_1 pool_state else ps_token_vault_0 pool_state)
              (ps_observation_key pool_state) input_token output_token
              (pda_tick_array (cl_pda L) pool_id first_index)
              (swap_remaining_accounts L extension pool_id tick_array_indexs)
              amount other_amount_threshold sqrt_price_limit_x64 base_in)) (\<lambda>swap_instr.
     let txn = with_compute_limit (program_transaction payer [payer] [Swap swap_instr]) in
     Ok (if simulate then Simulate txn else Send txn))))))))"

text \<open>The threshold of \<open>SwapV2\<close>: the fee on what is paid in comes on top of it.\<close>

definition swap_v2_threshold ::
  "'f float_ops \<Rightarrow> u16 \<Rightarrow> 'f \<Rightarrow> mint_view \<Rightarrow> u64 \<Rightarrow> bool \<Rightarrow> u64 \<Rightarrow> u64 res" where
  "swap_v2_threshold F max_fee_basis_points slippage input_mint epoch base_in other_amount =
     (if base_in then Ok (amount_with_slippage F other_amount slippage False)
      else
        let threshold = amount_with_slippage F other_amount slippage True in
        rbind (client_get_transfer_inverse_fee max_fee_basis_points input_mint epoch threshold) (\<lambda>transfer_fee.
        chk_add 64 threshold transfer_fee))"

definition swap_v2_command ::
  "'f float_ops \<Rightarrow> uint_lib \<Rightarrow> u16 \<Rightarrow> client_lib \<Rightarrow> chain \<Rightarrow> 'f client_config \<Rightarrow> pubkey \<Rightarrow> pubkey \<Rightarrow> pubkey \<Rightarrow>
   bool \<Rightarrow> bool \<Rightarrow> u64 \<Rightarrow> 'f option \<Rightarrow> outcome res" where
  "swap_v2_command F U max_fee_basis_points L C pool_config payer input_token output_token base_in simulate
      amount limit_price =
     rbind (unwrap (cc_pool_id_account pool_config)) (\<lambda>pool_id.
     rbind (unwrap (cc_tickarray_bitmap_extension pool_config)) (\<lambda>extension.
     rbind (unwrap (cc_mint0 pool_config)) (\<lambda>mint0.
     rbind (unwrap (cc_mint1 pool_config)) (\<lambda>mint1.
     rbind (cn_get_multiple_accounts C
              [input_token, output_token, cc_amm_config_key pool_config, pool_id, extension, mint0, mint1]) (\<lambda>rsps.
     rbind (unwrap_result (rpc_epoch (cn_rpc C))) (\<lambda>epoch.
     rbind (assertion (7 \<le> length rsps)) (\<lambda>_.
     rbind (index_account rsps 0) (\<lambda>user_input_account.
     rbind (la_token_mint user_input_account) (\<lambda>user_input_mint.
     rbind (index_account rsps 1) (\<lambda>user_output_account.
     rbind (la_token_mint user_output_account) (\<lambda>user_output_mint.
     rbind (index_account rsps 5) (\<lambda>mint0_account.
     rbind (la_mint_state mint0_account) (\<lambda>mint0_state.
     rbind (index_account rsps 6) (\<lambda>mint1_account.
     rbind (la_mint_state mint1_account) (\<lambda>mint1_state.
     rbind (index_account rsps 2) (\<lambda>amm_config_account.
     rbind (la_amm_config amm_config_account) (\<lambda>amm_config_state.
     rbind (index_account rsps 3) (\<lambda>pool_account.
     rbind (la_pool_state pool_account) (\<lambda>pool_state.
     rbind (index_account rsps 4) (\<lambda>extension_account.
     rbind (la_extension extension_account) (\<lambda>tickarray_bitmap_extension.
     let zero_for_one = (user_input_mint = ps_token_mint_0 pool_state \<and> user_output_mint = ps_token_mint_1 pool_state);
         input_mint = (if zero_for_one then mint0_state else mint1_state) in
     rbind (if base_in then client_get_transfer_fee input_mint epoch amount else Ok 0) (\<lambda>transfer_fee.
     rbind (unwrap (checked_sub amount transfer_fee)) (\<lambda>amount_specified.
     rbind (load_cur_and_next_five_tick_array (cn_rpc C) (cl_pda L) (Some pool_id) pool_state
              tickarray_bitmap_extension zero_for_one) (\<lambda>tick_arrays.
     rbind (limit_of_price F pool_state limit_price) (\<lambda>sqrt_price_limit_x64.
     rbind (unwrap_result (get_out_put_amount_and_remaining_accounts U amount_specified sqrt_price_limit_x64
              zero_for_one base_in amm_config_state pool_state tickarray_bitmap_extension tick_arrays))
       (\<lambda>(other_amount, tick_array_indexs).
     rbind (swap_v2_threshold F max_fee_basis_points (cc_slippage pool_config) input_mint epoch base_in
              other_amount) (\<lambda>other_amount_threshold.
     rbind (unwrap_result (swap_v2_instr L pool_config (ps_amm_config pool_state) pool_id
              (if zero_for_one then ps_token_vault_0 pool_state else ps_token_vault_1 pool_state)
              (if zero_for_one then ps_token_vault_1 pool_state else ps_token_vault_0 pool_state)
              (ps_observation_key pool_state) input_token output_token
              (if zero_for_one then ps_token_mint_0 pool_state else ps_token_mint_1 pool_state)
              (if zero_for_one then ps_token_mint_1 pool_state else ps_token_mint_0 pool_state)
              (swap_remaining_accounts L extension pool_id tick_array_indexs)
              amount other_amount_threshold sqrt_price_limit_x64 base_in)) (\<lambda>swap_instr.
     let txn = with_compute_limit (program_transaction payer [payer] [SwapV2 swap_instr]) in
     Ok (if simulate then Simulate txn else Send txn)))))))))))))))))))))))))))))"

section \<open>Commands that only show something\<close>

definition compare_key :: "pubkey \<Rightarrow> pubkey \<Rightarrow> pubkey \<times> pubkey" where
  "compare_key key0 key1 = (if key0 > key1 then (key1, key0) else (key0, key1))"

definition liquidity_to_amounts ::
  "uint_lib \<Rightarrow> chain \<Rightarrow> 'f client_config \<Rightarrow> i32 \<Rightarrow> i32 \<Rightarrow> i128 \<Rightarrow> (u64 \<times> u64) res" where
  "liquidity_to_amounts U C pool_config tick_lower tick_upper liquidity =
     rbind (unwrap (cc_pool_id_account pool_config)) (\<lambda>pool_id.
     rbind (load_pool C pool_id) (\<lambda>pool_account.
     get_delta_amounts_signed U (ps_tick_current pool_account) (ps_sqrt_price_x64 pool_account) tick_lower
       tick_upper liquidity))"

text \<open>\<open>PPersonalPositionByPool\<close>: the sums over the positions of a pool, in 64 bits.\<close>

fun total_owed ::
  "pubkey \<Rightarrow> personal_position list \<Rightarrow> (u64 \<times> u64 \<times> u64) \<Rightarrow> (u64 \<times> u64 \<times> u64) res" where
  "total_owed pool_id [] totals = Ok totals"
| "total_owed pool_id (personal # positions) (total_fees_owed_0, total_fees_owed_1, total_reward_owed) =
     (if pe_pool_id personal = pool_id then
        rbind (chk_add 64 total_fees_owed_0 (pe_token_fees_owed_0 personal)) (\<lambda>total_fees_owed_0.
        rbind (chk_add 64 total_fees_owed_1 (pe_token_fees_owed_1 personal)) (\<lambda>total_fees_owed_1.
        rbind (index_at (pe_reward_infos personal) 0) (\<lambda>info.
        rbind (chk_add 64 total_reward_owed (pr_reward_amount_owed info)) (\<lambda>total_reward_owed.
        total_owed pool_id positions (total_fees_owed_0, total_fees_owed_1, total_reward_owed)))))
      else total_owed pool_id positions (total_fees_owed_0, total_fees_owed_1, total_reward_owed))"

text \<open>The state of one tick of a pool, or of the pool of the configuration.\<close>

definition chosen_pool :: "'f client_config \<Rightarrow> pubkey option \<Rightarrow> pubkey res" where
  "chosen_pool pool_config pool_id =
     (case pool_id of Some pool_id \<Rightarrow> Ok pool_id | None \<Rightarrow> unwrap (cc_pool_id_account pool_config))"

definition show_tick_state ::
  "client_lib \<Rightarrow> chain \<Rightarrow> 'f client_config \<Rightarrow> i32 \<Rightarrow> pubkey option \<Rightarrow> tick_state res" where
  "show_tick_state L C pool_config tick pool_id =
     rbind (chosen_pool pool_config pool_id) (\<lambda>pool_id.
     rbind (load_pool C pool_id) (\<lambda>pool.
     rbind (get_array_start_index tick (ps_tick_spacing pool)) (\<lambda>tick_array_start_index.
     let tick_array_key = pda_tick_array (cl_pda L) pool_id tick_array_start_index in
     rbind (cn_get_account C tick_array_key) (\<lambda>account.
     rbind (la_tick_array account) (\<lambda>tick_array_account.
     rbind (unwrap_result (get_tick_state tick_array_account tick (ps_tick_spacing pool))) (\<lambda>(_, tick_state).
     Ok tick_state))))))"

definition show_positions_by_owner ::
  "client_lib \<Rightarrow> chain \<Rightarrow> pubkey \<Rightarrow> (pubkey \<times> personal_position) list res" where
  "show_positions_by_owner L C user_wallet =
     rbind (load_positions C (cl_pda L) user_wallet) (\<lambda>positions.
     Ok (map (\<lambda>position. (pda_position (cl_pda L) (pe_nft_mint position), position)) positions))"

section \<open>The commands that send a transaction\<close>

datatype 'f command =
    NewMintCommand new_mint_options
  | NewTokenCommand pubkey pubkey bool
  | MintToCommand pubkey pubkey u64
  | WrapSolCommand u64
  | UnWrapSolCommand pubkey
  | CreateConfigCommand u16 u16 u32 u32 u32
  | UpdateConfigCommand u16 u8 u32 "pubkey option"
  | CreateOperationCommand
  | UpdateOperationCommand u8 "pubkey list"
  | CreatePoolCommand u16 'f pubkey pubkey u64
  | InitRewardCommand u64 u64 'f pubkey
  | SetRewardParamsCommand u8 u64 u64 'f pubkey
  | TransferRewardOwnerCommand pubkey pubkey bool "pubkey option"
  | OpenPositionCommand 'f 'f bool u64 bool
  | IncreaseLiquidityCommand 'f 'f bool u64
  | DecreaseLiquidityCommand i32 i32 "u128 option" bool
  | SwapCommand pubkey pubkey bool bool u64 "'f option"
  | SwapV2Command pubkey pubkey bool bool u64 "'f option"

definition sent :: "transaction res \<Rightarrow> outcome res" where
  "sent txn = rbind txn (\<lambda>txn. Ok (Send txn))"

text \<open>
  Both keys are read before the command is looked at.  \<open>new_key\<close> is the key that the command
  generates, where it needs one.
\<close>

definition run_command ::
  "'f float_ops \<Rightarrow> uint_lib \<Rightarrow> u16 \<Rightarrow> client_lib \<Rightarrow> 'x token_crates \<Rightarrow> chain \<Rightarrow> pubkey \<Rightarrow> 'f client_config \<Rightarrow>
   'f command \<Rightarrow> outcome res" where
  "run_command F U max_fee_basis_points L X C new_key pool_config command =
     rbind (cc_payer pool_config) (\<lambda>payer.
     rbind (cc_admin pool_config) (\<lambda>admin.
     case command of
       NewMintCommand opts \<Rightarrow> sent (new_mint L X pool_config payer new_key opts)
     | NewTokenCommand mint authority not_ata \<Rightarrow>
         sent (new_token L X pool_config payer new_key mint authority not_ata)
     | MintToCommand mint to_token amount \<Rightarrow> sent (mint_to L X pool_config payer mint to_token amount)
     | WrapSolCommand amount \<Rightarrow> sent (wrap_sol L X pool_config payer amount)
     | UnWrapSolCommand wrap_sol_account \<Rightarrow> sent (un_wrap_sol L pool_config payer wrap_sol_account)
     | CreateConfigCommand config_index tick_spacing trade_fee_rate protocol_fee_rate fund_fee_rate \<Rightarrow>
         create_config_command L pool_config payer admin config_index tick_spacing trade_fee_rate
           protocol_fee_rate fund_fee_rate
     | UpdateConfigCommand config_index param val remaining \<Rightarrow>
         update_config_command L pool_config payer admin config_index param val remaining
     | CreateOperationCommand \<Rightarrow> create_operation_command L pool_config payer admin
     | UpdateOperationCommand param keys \<Rightarrow> update_operation_command L pool_config payer admin param keys
     | CreatePoolCommand config_index price mint0 mint1 open_time \<Rightarrow>
         create_pool_command F U L X C pool_config payer new_key config_index price mint0 mint1 open_time
     | InitRewardCommand open_time end_time emissions reward_mint \<Rightarrow>
         init_reward_command F L C pool_config payer admin open_time end_time emissions reward_mint
     | SetRewardParamsCommand index open_time end_time emissions reward_mint \<Rightarrow>
         set_reward_params_command F L C pool_config payer admin index open_time end_time emissions reward_mint
     | TransferRewardOwnerCommand pool_id new_owner encode authority \<Rightarrow>
         transfer_reward_owner_command pool_config payer admin pool_id new_owner encode authority
     | OpenPositionCommand tick_lower_price tick_upper_price is_base_0 input_amount with_metadata \<Rightarrow>
         open_position_command F U max_fee_basis_points L C pool_config payer new_key tick_lower_price
           tick_upper_price is_base_0 input_amount with_metadata
     | IncreaseLiquidityCommand tick_lower_price tick_upper_price is_base_0 imput_amount \<Rightarrow>
         increase_liquidity_command F U max_fee_basis_points L C pool_config payer tick_lower_price
           tick_upper_price is_base_0 imput_amount
     | DecreaseLiquidityCommand tick_lower_index tick_upper_index liquidity simulate \<Rightarrow>
         decrease_liquidity_command F U L C pool_config payer tick_lower_index tick_upper_index liquidity simulate
     | SwapCommand input_token output_token base_in simulate amount limit_price \<Rightarrow>
         swap_command F U L C pool_config payer input_token output_token base_in simulate amount limit_price
     | SwapV2Command input_token output_token base_in simulate amount limit_price \<Rightarrow>
         swap_v2_command F U max_fee_basis_points L C pool_config payer input_token output_token base_in
           simulate amount limit_price))"

end
