(* ===== verification/Command_Properties.thy ===== *)
theory Command_Properties
  imports Client_Commands Client_Properties Request_Properties
begin

text \<open>
  What the transactions of the client's commands do in the program: the threshold of a swap, the
  maxima of a deposit, the accounts of a withdrawal, and the accounts that are set up for tokens.
\<close>

section \<open>The swap command\<close>

text \<open>The program, on what the client read, meets the threshold of the request.\<close>

definition meets_threshold ::
  "uint_lib \<Rightarrow> pda \<Rightarrow> amm_config \<Rightarrow> pool_state \<Rightarrow> bitmap_extension \<Rightarrow> bool \<Rightarrow> tick_array list \<Rightarrow>
   observation_state \<Rightarrow> u32 \<Rightarrow> swap_args \<Rightarrow> bool" where
  "meets_threshold U D c p ext z arrays obs now args \<longleftrightarrow>
     (\<forall>a0 a1 p' arrays' obs'.
        swap_internal U D c p arrays obs (Some ext) (swa_amount args)
          (price_limit (swa_sqrt_price_limit_x64 args) z) z (swa_is_base_input args) now
          = Some (Ok ((a0, a1), p', arrays', obs'))
        \<and> price_at (MIN_TICK + 1) < ps_sqrt_price_x64 p' \<and> a0 \<le> 2 ^ 53 \<and> a1 \<le> 2 ^ 53 \<longrightarrow>
        check_threshold (swa_is_base_input args) (if z = swa_is_base_input args then a1 else a0)
          (swa_other_amount_threshold args) = Ok ())"

lemma swap_command_OkE:
  assumes "swap_command F U L C K payer tin tout base simulate amount price = Ok out"
    and "cc_pool_id_account K = Some pool" "cc_tickarray_bitmap_extension K = Some ext_key"
    and "read_for_swap L C (cc_amm_config_key K) pool ext_key tin tout = Ok (c, p, ext, z, arrays)"
  obtains limit n first rest rq where "limit_of_price F p price = Ok limit"
    "get_out_put_amount_and_remaining_accounts U amount limit z base c p ext arrays = Ok (n, first # rest)"
    "out = (if simulate then Simulate else Send)
       (with_compute_limit (program_transaction payer [payer] [Swap rq]))"
    "rq_args rq = \<lparr>swa_amount = amount, swa_other_amount_threshold = amount_with_slippage F n (cc_slippage K) (\<not> base),
       swa_sqrt_price_limit_x64 = limit_or_zero limit, swa_is_base_input = base\<rparr>"
    "sw1_tick_array (rq_accounts rq) = pda_tick_array (cl_pda L) pool first"
    "rq_remaining rq = swap_remaining_accounts L ext_key pool rest"
proof -
  obtain limit n starts first rest rq where a: "limit_of_price F p price = Ok limit"
    "get_out_put_amount_and_remaining_accounts U amount limit z base c p ext arrays = Ok (n, starts)"
    "next_account starts = Ok (first, rest)"
    "swap_instr L K (ps_amm_config p) pool
              (if z then ps_token_vault_0 p else ps_token_vault_1 p)
              (if z then ps_token_vault_1 p else ps_token_vault_0 p)
              (ps_observation_key p) tin tout (pda_tick_array (cl_pda L) pool first)
              (swap_remaining_accounts L ext_key pool rest) amount
              (amount_with_slippage F n (cc_slippage K) (\<not> base)) limit base = Ok rq"
    "out = (if simulate then Simulate else Send)
       (with_compute_limit (program_transaction payer [payer] [Swap rq]))"
    using assms by (auto simp: swap_command_def res_inv Let_def simp del: if_split split: prod.splits)
  have "starts = first # rest" using a(3) by (cases starts) auto
  with a show ?thesis
    by (intro that [of limit n first rest rq]) (auto simp: swap_instr_def make_request_def res_inv)
qed

lemma price_limit_of_client:
  "price_limit (limit_or_zero limit) z = (case limit of None \<Rightarrow> (if z then MIN_SQRT_PRICE_X64 + 1 else MAX_SQRT_PRICE_X64 - 1)
     | Some l \<Rightarrow> if l = 0 then (if z then MIN_SQRT_PRICE_X64 + 1 else MAX_SQRT_PRICE_X64 - 1) else l)"
  by (cases limit) (simp_all add: price_limit_def limit_or_zero_def)

lemma swap_command_meets_threshold:
  assumes U: "uint_crate U" and F: "float_arithmetic F le"
    and s: "le (fl_of_nat F 0) (cc_slippage K)" "le (cc_slippage K) (fl_one F)"
    and K: "cc_pool_id_account K = Some pool" "cc_tickarray_bitmap_extension K = Some ext_key"
    and read: "read_for_swap L C (cc_amm_config_key K) pool ext_key tin tout = Ok (c, p, ext, z, arrays)"
    and p: "ac_trade_fee_rate c < FEE_RATE_DENOMINATOR_VALUE" "amount < 2 ^ 64" "ps_liquidity p < 2 ^ 128"
      "spacing_ok (ps_tick_spacing p)" "MIN_TICK < ps_tick_current p" "ps_tick_current p < MAX_TICK"
      "price_at (MIN_TICK + 1) < ps_sqrt_price_x64 p" "ps_sqrt_price_x64 p < MAX_SQRT_PRICE_X64"
    and arrays: "\<forall>A \<in> set arrays. placed (ps_tick_spacing p) A" "distinct (map ta_start_tick_index arrays)"
    and out: "swap_command F U L C K payer tin tout base simulate amount price = Ok out"
  obtains rq where "out = (if simulate then Simulate else Send)
       (with_compute_limit (program_transaction payer [payer] [Swap rq]))"
    "\<And>D obs now. meets_threshold U D c p ext z arrays obs now (rq_args rq)"
proof -
  obtain limit n first rest rq where
    g: "get_out_put_amount_and_remaining_accounts U amount limit z base c p ext arrays = Ok (n, first # rest)"
    and o: "out = (if simulate then Simulate else Send)
       (with_compute_limit (program_transaction payer [payer] [Swap rq]))"
    and args: "rq_args rq = \<lparr>swa_amount = amount, swa_other_amount_threshold = amount_with_slippage F n (cc_slippage K) (\<not> base),
       swa_sqrt_price_limit_x64 = limit_or_zero limit, swa_is_base_input = base\<rparr>"
    by (rule swap_command_OkE [OF out K read])
  have "check_threshold base (if z = base then a1 else a0) (amount_with_slippage F n (cc_slippage K) (\<not> base)) = Ok ()"
    if P: "swap_internal U D c p arrays obs (Some ext) amount (price_limit (limit_or_zero limit) z) z base now
        = Some (Ok ((a0, a1), p', arrays', obs'))"
      and price: "price_at (MIN_TICK + 1) < ps_sqrt_price_x64 p'" and a: "a0 \<le> 2 ^ 53" "a1 \<le> 2 ^ 53"
    for D obs now a0 a1 p' arrays' obs'
  proof -
    have n: "n = (if z = base then a1 else a0)"
      by (rule client_agrees_with_program [OF U p price arrays g P [unfolded price_limit_of_client] refl])
    then have "n \<le> 2 ^ 53" using a by simp
    from float_arithmetic.slippage_bounds [OF F this s] show ?thesis
      by (simp add: check_threshold_def flip: n)
  qed
  then have "meets_threshold U D c p ext z arrays obs now (rq_args rq)" for D obs now
    by (auto simp: meets_threshold_def args)
  with o show ?thesis by (rule that)
qed

section \<open>A swap on the sample pool\<close>

lemma sample_next_array:
  "pool_next_initialized_tick_array_start_index swap_sample_pool (Some default_bitmap_extension) 0 False = Ok None"
proof -
  have has: "pool_has swap_sample_pool default_bitmap_extension s \<longleftrightarrow> s = 0" for s
    using sample_pool_has [of s] by (simp add: pool_has_def swap_sample_pool_def)
  have ts: "spacing_ok 10" by (simp add: spacing_ok_def)
  have a: "get_array_start_index 0 (ps_tick_spacing swap_sample_pool) = Ok 0"
    by (simp add: swap_sample_pool_def sample_pool_def default_pool_def get_array_start_index_eq ts moderate_def array_start_def)
  have wf: "wf_pool_maps swap_sample_pool default_bitmap_extension"
    using sample_pool_wf by (simp add: wf_pool_maps_def has sample_pool_has) (simp add: swap_sample_pool_def)
  have "valid_start 0 (spacing_of swap_sample_pool)"
    using sample_placed by (simp add: placed_def swap_sample_array_def default_tick_array_def swap_sample_pool_def
        sample_pool_def default_pool_def)
  from pool_next_loop_nearest [OF refl wf this, of False] obtain r where
    "pool_next_loop swap_sample_pool (Some default_bitmap_extension) 0 False = Ok r"
    "nearest_mark (pool_has swap_sample_pool default_bitmap_extension) False 0 r"
    by blast
  then show ?thesis
    using a by (cases r) (auto simp: pool_next_initialized_tick_array_start_index_def nearest_mark_def beyond_def has)
qed

definition unknown_account :: loaded_account where
  "unknown_account = \<lparr>la_owner = 0, la_spl_token_mint = Err External, la_token_mint = Err External,
     la_decimals = Err External, la_mint_state = Err External, la_amm_config = Err External,
     la_pool_state = Err External, la_extension = Err External, la_position = Err External,
     la_tick_array = Err External\<rparr>"

definition sample_chain :: chain where
  "sample_chain = \<lparr>cn_rpc = sample_rpc\<lparr>rpc_get_tick_arrays := (\<lambda>_. Ok [Some (Ok swap_sample_array)])\<rparr>,
     cn_get_account = (\<lambda>_. Ok (unknown_account\<lparr>la_pool_state := Ok swap_sample_pool\<rparr>)),
     cn_get_multiple_accounts = (\<lambda>_. Ok [Some (unknown_account\<lparr>la_spl_token_mint := Ok 8\<rparr>),
       Some (unknown_account\<lparr>la_spl_token_mint := Ok 7\<rparr>), Some (unknown_account\<lparr>la_amm_config := Ok swap_sample_config\<rparr>),
       Some (unknown_account\<lparr>la_pool_state := Ok swap_sample_pool\<rparr>),
       Some (unknown_account\<lparr>la_extension := Ok default_bitmap_extension\<rparr>)]),
     cn_get_token_accounts_by_owner = (\<lambda>_. Ok [])\<rparr>"

lemma index_account_Cons: "index_account (x # xs) i = (if i = 0 then unwrap x else index_account xs (i - 1))"
  by (cases i) (simp_all add: index_account_def index_at_def)

lemma sample_accounts:
  "cn_get_multiple_accounts sample_chain keys = Ok [Some (unknown_account\<lparr>la_spl_token_mint := Ok 8\<rparr>),
       Some (unknown_account\<lparr>la_spl_token_mint := Ok 7\<rparr>), Some (unknown_account\<lparr>la_amm_config := Ok swap_sample_config\<rparr>),
       Some (unknown_account\<lparr>la_pool_state := Ok swap_sample_pool\<rparr>),
       Some (unknown_account\<lparr>la_extension := Ok default_bitmap_extension\<rparr>)]"
  by (simp add: sample_chain_def)

lemma sample_read:
  "read_for_swap sample_client_lib sample_chain 101 21 401 70 71
     = Ok (swap_sample_config, swap_sample_pool, default_bitmap_extension, False, [swap_sample_array])"
proof -
  have "ps_token_mint_0 swap_sample_pool = 0"
    by (simp add: swap_sample_pool_def sample_pool_def default_pool_def default_pubkey_def)
  moreover have "load_cur_and_next_five_tick_array (cn_rpc sample_chain) (cl_pda sample_client_lib) (Some 21)
      swap_sample_pool default_bitmap_extension False = Ok [swap_sample_array]"
    by (simp add: load_cur_and_next_five_tick_array_def sample_first sample_next_array eval_nat_numeral)
      (simp add: sample_chain_def)
  ultimately show ?thesis
    by (simp add: read_for_swap_def index_account_Cons Let_def sample_accounts)
qed

lemma real_price_4: "price_to_sqrt_price_x64 real_ops 4 0 0 = Ok (2 ^ 65)"
proof -
  have "saturated 128 (real (2 ^ 65)) = 2 ^ 65" by (rule saturated_of_nat) simp
  then show ?thesis
    by (simp add: price_to_sqrt_price_x64_def multipler_eq price_to_x64_def real_ops_def Q64_def)
qed

lemma sample_swap_command:
  "\<exists>rq. swap_command real_ops uint_ref sample_client_lib sample_chain sample_client_config 41 70 71 True False 10000 (Some 4)
    = Ok (Send (with_compute_limit (program_transaction 41 [41] [Swap rq])))
    \<and> rq_args rq = \<lparr>swa_amount = 10000, swa_other_amount_threshold = 9874, swa_sqrt_price_limit_x64 = 2 ^ 65,
        swa_is_base_input = True\<rparr>"
proof -
  define limit :: nat where "limit = 2 ^ 65"
  have "18455969290605287889 \<le> limit" "limit < MAX_SQRT_PRICE_X64"
    by (simp_all add: limit_def MAX_SQRT_PRICE_X64_def)
  note C = sample_client_computes [OF this]
  have "limit_of_price real_ops swap_sample_pool (Some 4) = Ok (Some limit)"
    using real_price_4 by (simp add: limit_of_price_def limit_def swap_sample_pool_def sample_pool_def default_pool_def)
  moreover have "amount_with_slippage real_ops 9974 (1 / 100) False = 9874"
  proof -
    have "\<lfloor>9974 * (1 - 1 / 100 :: real)\<rfloor> = 9874" by (simp add: floor_eq_iff)
    then show ?thesis by (simp add: amount_with_slippage_def real_ops_def saturated_def)
  qed
  ultimately show ?thesis
    using C sample_read
    by (simp add: swap_command_def sample_client_config_def limit_def swap_instr_def make_request_def limit_or_zero_def Let_def)
      (rule exI, rule conjI, rule refl, simp)
qed

section \<open>Properties\<close>

text \<open>
  C14. A swap of the client does not miss its own threshold.  If the command results in a
  transaction, with a slippage between 0 and 1, the program that runs its request on the state that
  the client read accepts the amounts: the least output, or the most input, that the request
  names is met, in both directions and for every limit, as long as the amounts are exact in
  floating point.
\<close>

theorem swap_command_threshold_is_met:
  assumes "uint_crate U" "float_arithmetic F le"
    and "le (fl_of_nat F 0) (cc_slippage K)" "le (cc_slippage K) (fl_one F)"
    and "cc_pool_id_account K = Some pool" "cc_tickarray_bitmap_extension K = Some ext_key"
    and "read_for_swap L C (cc_amm_config_key K) pool ext_key tin tout = Ok (c, p, ext, z, arrays)"
    and "ac_trade_fee_rate c < FEE_RATE_DENOMINATOR_VALUE" "amount < 2 ^ 64" "ps_liquidity p < 2 ^ 128"
    and "spacing_ok (ps_tick_spacing p)" "MIN_TICK < ps_tick_current p" "ps_tick_current p < MAX_TICK"
    and "price_at (MIN_TICK + 1) < ps_sqrt_price_x64 p" "ps_sqrt_price_x64 p < MAX_SQRT_PRICE_X64"
    and "\<forall>A \<in> set arrays. placed (ps_tick_spacing p) A" "distinct (map ta_start_tick_index arrays)"
    and "swap_command F U L C K payer tin tout base simulate amount price = Ok out"
  shows "\<exists>rq. out = (if simulate then Simulate else Send)
       (with_compute_limit (program_transaction payer [payer] [Swap rq]))
     \<and> (\<forall>D obs now. meets_threshold U D c p ext z arrays obs now (rq_args rq))"
  by (rule swap_command_meets_threshold [OF assms]) blast

theorem swap_command_threshold_is_met_witness:
  "\<exists>rq p arrays obs. swap_command real_ops uint_ref sample_client_lib sample_chain sample_client_config 41 70 71 True False
       10000 (Some 4) = Ok (Send (with_compute_limit (program_transaction 41 [41] [Swap rq])))
     \<and> swap_internal uint_ref sample_pda swap_sample_config swap_sample_pool [swap_sample_array] swap_sample_observation
         (Some default_bitmap_extension) (swa_amount (rq_args rq))
         (price_limit (swa_sqrt_price_limit_x64 (rq_args rq)) False) False (swa_is_base_input (rq_args rq)) 5
         = Some (Ok ((9974, 10000), p, arrays, obs))
     \<and> check_threshold True 9974 (swa_other_amount_threshold (rq_args rq)) = Ok ()"
proof -
  obtain rq where cmd: "swap_command real_ops uint_ref sample_client_lib sample_chain sample_client_config 41 70 71 True False
       10000 (Some 4) = Ok (Send (with_compute_limit (program_transaction 41 [41] [Swap rq])))"
    and args: "rq_args rq = \<lparr>swa_amount = 10000, swa_other_amount_threshold = 9874, swa_sqrt_price_limit_x64 = 2 ^ 65,
        swa_is_base_input = True\<rparr>"
    using sample_swap_command by blast
  define limit :: nat where "limit = 2 ^ 65"
  have l: "18455969290605287889 \<le> limit" "limit < MAX_SQRT_PRICE_X64" "price_limit limit False = limit"
    by (simp_all add: limit_def MAX_SQRT_PRICE_X64_def price_limit_def)
  obtain p arrays obs where P: "swap_internal uint_ref sample_pda swap_sample_config swap_sample_pool [swap_sample_array]
     swap_sample_observation (Some default_bitmap_extension) 10000 limit False True 5 = Some (Ok ((9974, 10000), p, arrays, obs))"
    and price: "ps_sqrt_price_x64 p = 18446928079981686868"
    using sample_swap [OF l(1,2), of "Some default_bitmap_extension"] by blast
  have low: "price_at (MIN_TICK + 1) < 18446744073709551616"
    using price_at_strict_mono [of "MIN_TICK + 1" 0] by (simp add: MIN_TICK_def MAX_TICK_def price_at_def ratio_of_0)
  have pool: "ps_tick_spacing swap_sample_pool = 10" "ps_sqrt_price_x64 swap_sample_pool = 18446744073709551616"
    "ps_tick_current swap_sample_pool = 0" "ps_liquidity swap_sample_pool = 1000000000"
    by (simp_all add: swap_sample_pool_def sample_pool_def default_pool_def)
  have "\<exists>rq'. Send (with_compute_limit (program_transaction 41 [41] [Swap rq]))
       = (if False then Simulate else Send) (with_compute_limit (program_transaction 41 [41] [Swap rq']))
     \<and> (\<forall>D obs now. meets_threshold uint_ref D swap_sample_config swap_sample_pool default_bitmap_extension False
          [swap_sample_array] obs now (rq_args rq'))"
    by (rule swap_command_threshold_is_met [OF uint_crate_ref float_arithmetic_real _ _ _ _ _ _ _ _ _ _ _ _ _ _ _ cmd,
          where pool = 21 and ext_key = 401 and ?c = swap_sample_config and ?p = swap_sample_pool])
      (use low sample_placed sample_read in \<open>simp_all add: sample_client_config_def real_ops_def pool swap_sample_config_def
        FEE_RATE_DENOMINATOR_VALUE_def spacing_ok_def MIN_TICK_def MAX_TICK_def MAX_SQRT_PRICE_X64_def\<close>)
  then have "meets_threshold uint_ref sample_pda swap_sample_config swap_sample_pool default_bitmap_extension False
      [swap_sample_array] swap_sample_observation 5 (rq_args rq)"
    by (auto simp: with_compute_limit_def program_transaction_def)
  then have "check_threshold True 9974 (swa_other_amount_threshold (rq_args rq)) = Ok ()"
    using P l(3) low price unfolding meets_threshold_def args limit_def by fastforce
  moreover have "swap_internal uint_ref sample_pda swap_sample_config swap_sample_pool [swap_sample_array] swap_sample_observation
      (Some default_bitmap_extension) (swa_amount (rq_args rq)) (price_limit (swa_sqrt_price_limit_x64 (rq_args rq)) False)
      False (swa_is_base_input (rq_args rq)) 5 = Some (Ok ((9974, 10000), p, arrays, obs))"
    using P l(3) by (simp add: args limit_def)
  ultimately show ?thesis
    using cmd by blast
qed

end
