(* ===== verification/Command_Signers.thy ===== *)
theory Command_Signers
  imports Client_Commands Request_Properties
begin

text \<open>
  The transactions of the client and their signatures: every account that an instruction demands the
  signature of signs the transaction, with one exception.
\<close>

section \<open>The signatures that instructions demand\<close>

text \<open>The accounts that the programs declare as signers.\<close>

fun request_signers :: "program_request \<Rightarrow> pubkey set" where
  "request_signers (CreateAmmConfig rq) = {xc_owner (rq_accounts rq)}"
| "request_signers (UpdateAmmConfig rq) = {xu_owner (rq_accounts rq)}"
| "request_signers (CreateOperationAccount rq) = {xo_owner (rq_accounts rq)}"
| "request_signers (UpdateOperationAccount rq) = {xo_owner (rq_accounts rq)}"
| "request_signers (CreatePool rq) = {cp_pool_creator (rq_accounts rq)}"
| "request_signers (OpenPositionV2 rq) = {oa_payer (rq_accounts rq), oa_position_nft_mint (rq_accounts rq)}"
| "request_signers (IncreaseLiquidityV2 rq) = {il_nft_owner (rq_accounts rq)}"
| "request_signers (DecreaseLiquidityV2 rq) = {dl_nft_owner (rq_accounts rq)}"
| "request_signers (ClosePosition rq) = {xl_nft_owner (rq_accounts rq)}"
| "request_signers (Swap rq) = {sw1_payer (rq_accounts rq)}"
| "request_signers (SwapV2 rq) = {sw2_payer (rq_accounts rq)}"
| "request_signers (InitializeReward rq) = {ir_reward_funder (rq_accounts rq)}"
| "request_signers (SetRewardParams rq) = {sr_authority (rq_accounts rq)}"
| "request_signers (TransferRewardOwner rq) = {tr_authority (rq_accounts rq)}"

text \<open>A new account signs for its creation, an owner or authority for what it owns.\<close>

fun token_signers :: "token_instruction \<Rightarrow> pubkey set" where
  "token_signers (CreateAccount from_key new_key lamports space owner) = {from_key, new_key}"
| "token_signers (CreateAssociatedTokenAccount funder owner mint program) = {funder}"
| "token_signers (CreateAssociatedTokenAccountIdempotent funder owner mint program) = {funder}"
| "token_signers (CloseAccount program account destination owner) = {owner}"
| "token_signers (TransferTokens program from_key to_key authority amount) = {authority}"
| "token_signers (MintToAccount program mint to_key authority amount) = {authority}"
| "token_signers (SystemTransfer from_key to_key amount) = {from_key}"
| "token_signers _ = {}"

fun instruction_signers :: "client_instruction \<Rightarrow> pubkey set" where
  "instruction_signers (ProgramInstruction rq) = request_signers rq"
| "instruction_signers (TokenInstruction instruction) = token_signers instruction"
| "instruction_signers (ComputeUnitLimit n) = {}"

definition signed :: "transaction \<Rightarrow> bool" where
  "signed t \<longleftrightarrow> tn_payer t \<in> set (tn_signers t)
     \<and> (\<forall>i \<in> set (tn_instructions t). instruction_signers i \<subseteq> set (tn_signers t))"

fun outcome_signed :: "outcome \<Rightarrow> bool" where
  "outcome_signed (Send t) \<longleftrightarrow> signed t"
| "outcome_signed (Simulate t) \<longleftrightarrow> signed t"
| "outcome_signed Message_only \<longleftrightarrow> True"

lemma signed_program [simp]:
  "signed (program_transaction payer signers requests) \<longleftrightarrow>
     payer \<in> set signers \<and> (\<forall>rq \<in> set requests. request_signers rq \<subseteq> set signers)"
  by (auto simp: signed_def program_transaction_def)

lemma signed_limit [simp]: "signed (with_compute_limit t) \<longleftrightarrow> signed t"
  by (auto simp: signed_def with_compute_limit_def)

lemma signed_token [simp]:
  "signed (token_transaction payer signers instructions) \<longleftrightarrow>
     payer \<in> set signers \<and> (\<forall>i \<in> set instructions. token_signers i \<subseteq> set signers)"
  by (auto simp: signed_def token_transaction_def)

section \<open>Tokens\<close>

lemma extension_instructions_unsigned:
  "extension_instructions X ps program mint = Ok is \<Longrightarrow> i \<in> set is \<Longrightarrow> token_signers i = {}"
  by (induction ps arbitrary: "is") (auto simp: res_inv)

lemma new_mint_signed:
  "new_mint L X K payer mint opts = Ok t \<Longrightarrow> cc_payer K = Ok payer \<Longrightarrow> signed t"
  by (auto simp: new_mint_def create_and_init_mint_instr_def res_inv Let_def extension_instructions_unsigned
      simp del: if_split)

lemma new_token_signed:
  "new_token L X K payer new mint authority False = Ok t \<Longrightarrow> cc_payer K = Ok payer \<Longrightarrow> signed t"
  by (auto simp: new_token_def create_ata_token_account_instr_def res_inv)

lemma tokens_signed:
  "mint_to L X K payer mint to_token amount = Ok t \<Longrightarrow> signed t"
  "cc_payer K = Ok payer \<Longrightarrow> wrap_sol L X K payer amount = Ok t \<Longrightarrow> signed t"
  "un_wrap_sol L K payer account = Ok t \<Longrightarrow> signed t"
  by (auto simp: mint_to_def spl_token_mint_to_instr_def wrap_sol_def wrap_sol_instr_def un_wrap_sol_def
      close_token_account_def res_inv Let_def)

section \<open>The program\<close>

lemmas admin_instrs = create_amm_config_instr_def update_amm_config_instr_def create_operation_account_instr_def
  update_operation_account_instr_def initialize_reward_instr_def set_reward_params_instr_def
  transfer_reward_owner_instr_def make_request_def

lemma admin_commands_signed:
  assumes "cc_payer K = Ok payer" "cc_admin K = Ok admin"
  shows "create_config_command L K payer admin i s a b c = Ok out \<Longrightarrow> outcome_signed out"
    "create_operation_command L K payer admin = Ok out \<Longrightarrow> outcome_signed out"
    "update_operation_command L K payer admin param keys = Ok out \<Longrightarrow> outcome_signed out"
    "init_reward_command F L C K payer admin t0 t1 e m = Ok out \<Longrightarrow> outcome_signed out"
    "set_reward_params_command F L C K payer admin j t0 t1 e m = Ok out \<Longrightarrow> outcome_signed out"
  using assms by (auto simp: create_config_command_def create_operation_command_def update_operation_command_def
      init_reward_command_def set_reward_params_command_def admin_instrs res_inv Let_def)

lemma update_config_signed:
  "update_config_command L K payer admin i param val remaining = Ok out \<Longrightarrow> cc_admin K = Ok admin \<Longrightarrow> outcome_signed out"
  by (auto simp: update_config_command_def admin_instrs res_inv Let_def simp del: if_split split: prod.splits)

lemma transfer_reward_owner_signed:
  "transfer_reward_owner_command K payer admin pool new_owner encode authority = Ok out \<Longrightarrow> cc_admin K = Ok admin \<Longrightarrow> outcome_signed out"
  by (cases encode) (auto simp: transfer_reward_owner_command_def admin_instrs res_inv)

lemma create_pool_signed:
  "create_pool_command F U L X C K payer observation i price m0 m1 t = Ok out \<Longrightarrow> cc_payer K = Ok payer \<Longrightarrow> outcome_signed out"
  by (auto simp: create_pool_command_def create_account_rent_exmpt_instr_def create_pool_instr_def make_request_def res_inv
      Let_def signed_def split: prod.splits)

lemma open_position_signed:
  "open_position_command F U r L C K payer nft lo up b n meta = Ok out \<Longrightarrow> cc_payer K = Ok payer \<Longrightarrow> outcome_signed out"
  by (auto simp: open_position_command_def open_position_instr_def make_request_def res_inv Let_def
      split: prod.splits if_splits)

lemma increase_liquidity_signed:
  "increase_liquidity_command F U r L C K payer lo up b n = Ok out \<Longrightarrow> cc_payer K = Ok payer \<Longrightarrow> outcome_signed out"
  by (auto simp: increase_liquidity_command_def increase_liquidity_instr_def make_request_def res_inv Let_def
      split: prod.splits if_splits)

lemma decrease_liquidity_signed:
  "decrease_liquidity_command F U L C K payer lo up n simulate = Ok out \<Longrightarrow> cc_payer K = Ok payer \<Longrightarrow> outcome_signed out"
  by (auto simp: decrease_liquidity_command_def decrease_liquidity_instr_def close_personal_position_instr_def
      make_request_def res_inv Let_def split: prod.splits if_splits)

lemma swaps_signed:
  assumes "cc_payer K = Ok payer"
  shows "swap_command F U L C K payer tin tout base simulate n price = Ok out \<Longrightarrow> outcome_signed out"
    "swap_v2_command F U r L C K payer tin tout base simulate n price = Ok out \<Longrightarrow> outcome_signed out"
  using assms by (cases simulate; auto simp: swap_command_def swap_v2_command_def swap_instr_def swap_v2_instr_def
      make_request_def res_inv Let_def simp del: if_split split: prod.splits)+

section \<open>Every command\<close>

lemma new_token_at_mint:
  assumes "new_token L X K payer new mint authority True = Ok t" "cc_payer K = Ok payer"
  shows "signed t \<longleftrightarrow> mint = payer \<or> mint = new"
  using assms by (auto simp: new_token_def create_and_init_auxiliary_token_def res_inv split: prod.splits)

lemma command_signed:
  assumes "run_command F U r L X C new K command = Ok out"
    and "\<And>mint authority. command \<noteq> NewTokenCommand mint authority True"
  shows "outcome_signed out"
proof -
  obtain payer admin where K: "cc_payer K = Ok payer" "cc_admin K = Ok admin"
    using assms(1) by (auto simp: run_command_def res_inv)
  note facts = new_mint_signed new_token_signed tokens_signed admin_commands_signed [OF K] update_config_signed
    transfer_reward_owner_signed create_pool_signed open_position_signed increase_liquidity_signed
    decrease_liquidity_signed swaps_signed [OF K(1)]
  show ?thesis
  proof (cases command)
    case (NewTokenCommand mint authority not_ata)
    then show ?thesis
      using assms K facts by (cases not_ata) (auto simp: run_command_def sent_def res_inv)
  qed (use assms(1) K in \<open>auto simp: run_command_def sent_def res_inv dest: facts\<close>)
qed

section \<open>Properties\<close>

text \<open>
  C16. The client signs what it sends.  Whatever command it runs, the payer and every account that an
  instruction of the transaction demands the signature of signs the transaction, simulated or
  sent.  The one exception is a new token account that is not associated: its transaction
  demands the signature of the mint, which signs only if it is the payer or the new account.
\<close>

theorem client_signs_what_it_sends:
  assumes "run_command F U r L X C new_key K command = Ok out" "cc_payer K = Ok payer"
  shows "outcome_signed out \<longleftrightarrow>
    (case command of NewTokenCommand mint authority not_ata \<Rightarrow> not_ata \<longrightarrow> mint = payer \<or> mint = new_key | _ \<Rightarrow> True)"
proof (cases "\<exists>mint authority. command = NewTokenCommand mint authority True")
  case True
  with assms show ?thesis
    by (auto simp: run_command_def sent_def res_inv new_token_at_mint)
next
  case False
  with command_signed [OF assms(1)] show ?thesis
    by (auto split: command.splits)
qed

definition sample_token_crates :: "nat token_crates" where
  "sample_token_crates = \<lparr>tc_extension = (\<lambda>_. 0), tc_extension_instruction = (\<lambda>_ _ _. Ok ()), tc_immutable_owner = 1,
     tc_mint_len = (\<lambda>xs. Ok (82 + length xs)), tc_account_len = (\<lambda>xs. Ok (165 + length xs)),
     tc_required_init_account_extensions = (\<lambda>xs. xs), tc_spl_account_len = 165, tc_rent = (\<lambda>n. Ok (1000 * n)),
     tc_account_owner = (\<lambda>_. Ok 61), tc_mint_extension_types = (\<lambda>_. Ok []), tc_wsol_mint = Ok 6\<rparr>"

theorem client_signs_what_it_sends_witness:
  "\<forall>C. \<exists>out out'. run_command real_ops uint_ref 10000 sample_client_lib sample_token_crates C 90 sample_client_config (WrapSolCommand 5) = Ok out
     \<and> outcome_signed out
     \<and> run_command real_ops uint_ref 10000 sample_client_lib sample_token_crates C 90 sample_client_config (NewTokenCommand 7 41 True) = Ok out'
     \<and> \<not> outcome_signed out'"
proof
  fix C
  let ?run = "run_command real_ops uint_ref 10000 sample_client_lib sample_token_crates C 90 sample_client_config"
  have payer: "cc_payer sample_client_config = Ok 41" by (simp add: sample_client_config_def)
  obtain out where out: "?run (WrapSolCommand 5) = Ok out"
    by (simp add: run_command_def sample_client_config_def sent_def wrap_sol_def wrap_sol_instr_def sample_token_crates_def Let_def)
  obtain out' where out': "?run (NewTokenCommand 7 41 True) = Ok out'"
    by (simp add: run_command_def sample_client_config_def sent_def new_token_def create_and_init_auxiliary_token_def
        sample_token_crates_def sample_client_lib_def)
  show "\<exists>out out'. ?run (WrapSolCommand 5) = Ok out \<and> outcome_signed out
      \<and> ?run (NewTokenCommand 7 41 True) = Ok out' \<and> \<not> outcome_signed out'"
    using out out' client_signs_what_it_sends [OF out payer] client_signs_what_it_sends [OF out' payer] by auto
qed

end
