(* ===== verification/Command_Plans.thy ===== *)
theory Command_Plans
  imports Client_Commands Swap_Invariant Request_Properties
begin

text \<open>
  The amounts that the client plans for a deposit, and the accounts that it adds to a withdrawal.
\<close>

section \<open>Deposits\<close>







section \<open>Withdrawals\<close>

lemma count_is_filter: "count_initialized rs = length (filter reward_initialized rs)"
  by (induction rs) auto

text \<open>The accounts of the rewards, in groups of three.\<close>

definition reward_accounts :: "client_lib \<Rightarrow> pubkey \<Rightarrow> reward_info \<Rightarrow> pubkey list" where
  "reward_accounts L owner r = [ri_token_vault r, cl_associated_token L owner (ri_token_mint r), ri_token_mint r]"

lemma reward_vaults_eq:
  "reward_vault_with_user_vault L owner rs = concat (map (reward_accounts L owner) (filter reward_initialized rs))"
  by (induction rs) (auto simp: reward_initialized_def reward_accounts_def)

lemma length_groups: "length (concat (map (reward_accounts L owner) rs)) = 3 * length rs"
  by (induction rs) (auto simp: reward_accounts_def)

lemma group_at:
  "i < length rs \<Longrightarrow> drop (3 * i) (concat (map (reward_accounts L owner) rs))
     = reward_accounts L owner (rs ! i) @ drop (3 * Suc i) (concat (map (reward_accounts L owner) rs))"
proof (induction rs arbitrary: i)
  case (Cons r rs)
  then show ?case by (cases i) (auto simp: reward_accounts_def numeral_3_eq_3)
qed simp

lemma initialized_first:
  assumes "rewards_in_order p" "i < count_initialized (ps_reward_infos p)"
  shows "filter reward_initialized (ps_reward_infos p) ! i = ps_reward_infos p ! i" "reward_initialized (ps_reward_infos p ! i)"
proof -
  obtain r0 r1 r2 where p: "ps_reward_infos p = [r0, r1, r2]"
    using assms(1) by (auto simp: rewards_in_order_def REWARD_NUM_def numeral_3_eq_3 length_Suc_conv)
  have order: "reward_initialized (ps_reward_infos p ! b) \<Longrightarrow> reward_initialized (ps_reward_infos p ! a)"
    if "a \<le> b" "b < 3" for a b
    using assms(1) that unfolding rewards_in_order_def REWARD_NUM_def by blast
  have o: "reward_initialized r1 \<Longrightarrow> reward_initialized r0" "reward_initialized r2 \<Longrightarrow> reward_initialized r1"
    using order [of 0 1] order [of 1 2] by (simp_all add: p)
  have "i = 0 \<or> i = 1 \<or> i = 2" using assms(2) by (auto simp: p split: if_splits)
  then show "filter reward_initialized (ps_reward_infos p) ! i = ps_reward_infos p ! i" "reward_initialized (ps_reward_infos p ! i)"
    using assms(2) o by (auto simp: p split: if_splits)
qed

lemma split_others:
  "\<forall>a \<in> set as. ra_key a \<noteq> key \<Longrightarrow> split_remaining key as e = (e, as)"
  by (induction as) auto

text \<open>The accounts after the fixed ones: the extension, then those of the rewards.\<close>

lemma decrease_command_OkE:
  assumes "decrease_liquidity_command F U L C K payer lo up liquidity simulate = Ok out" "out \<noteq> Message_only"
    and "cc_pool_id_account K = Some pool" "load_pool C pool = Ok p" "cc_tickarray_bitmap_extension K = Some e"
  obtains rq close where "out = (if simulate then Simulate else Send)
       (program_transaction payer [payer] (DecreaseLiquidityV2 rq # close))"
    "map am_pubkey (rq_remaining rq) = e # reward_vault_with_user_vault L payer (ps_reward_infos p)"
proof -
  obtain rq close where "out = (if simulate then Simulate else Send)
       (program_transaction payer [payer] (DecreaseLiquidityV2 rq # close))"
    "rq_remaining rq = account_meta_new e False
      # map (\<lambda>item. account_meta_new item False) (reward_vault_with_user_vault L payer (ps_reward_infos p))"
    using assms
    by (auto simp: decrease_liquidity_command_def decrease_liquidity_instr_def make_request_def res_inv Let_def
        split: prod.splits if_splits)
  then show ?thesis by (intro that) (auto simp: account_meta_new_def comp_def)
qed

lemma remaining_split:
  assumes "map am_pubkey (rq_remaining rq) = e # keys" "\<forall>k. ra_key (decode k) = k" "e \<notin> set keys"
  shows "split_remaining e (decoded decode rq) None = (Some (decode e), map decode keys)"
proof -
  have "decoded decode rq = map decode (map am_pubkey (rq_remaining rq))"
    by (simp add: decoded_def)
  then have "decoded decode rq = decode e # map decode keys"
    using assms(1) by simp
  moreover have "split_remaining e (map decode keys) (Some (decode e)) = (Some (decode e), map decode keys)"
    using assms(2,3) by (intro split_others) auto
  ultimately show ?thesis
    using assms(2) by simp
qed

lemma group_decodes:
  assumes "i < length rs" "ra_token_account (decode (ri_token_vault (rs ! i))) = Ok v"
    and "ra_token_account (decode (cl_associated_token L owner (ri_token_mint (rs ! i)))) = Ok u"
    and "ra_mint (decode (ri_token_mint (rs ! i))) = Ok m"
  shows "next_reward_group True (drop (3 * i) (map decode (concat (map (reward_accounts L owner) rs))))
    = Ok ((v, u, Some m), drop (3 * Suc i) (map decode (concat (map (reward_accounts L owner) rs))))"
  using assms group_at [OF assms(1), of L owner]
  by (simp add: drop_map next_reward_group_def reward_accounts_def)

section \<open>Properties\<close>


section \<open>A position on the sample pool\<close>

definition plain_mint :: mint_view where
  "plain_mint = \<lparr>mv_transfer_fee_config = None, mv_extension_types = Ok []\<rparr>"

definition plain_rpc :: rpc_client where
  "plain_rpc = \<lparr>rpc_get_mints = (\<lambda>keys. Ok (map (\<lambda>_. Some \<lparr>rm_owner = 1, rm_state = Ok plain_mint\<rparr>) keys)),
     rpc_get_tick_arrays = (\<lambda>_. Err External), rpc_epoch = Ok 700\<rparr>"

definition plan_pool :: pool_state where
  "plan_pool = sample_reward_pool\<lparr>ps_sqrt_price_x64 := 2 ^ 64, ps_tick_spacing := 10\<rparr>"

lemma plan_pool_facts:
  "ps_tick_current plan_pool = 0" "ps_sqrt_price_x64 plan_pool = 2 ^ 64" "ps_tick_spacing plan_pool = 10"
  "ps_reward_infos plan_pool = [sample_reward, new_reward_info default_pubkey, new_reward_info default_pubkey]"
  by (simp_all add: plan_pool_def sample_reward_pool_def default_pool_def)

lemma plan_ticks:
  "get_sqrt_price_at_tick uint_ref 0 = Ok (2 ^ 64)" "get_sqrt_price_at_tick uint_ref 10 = Ok 18455969290605287889"
  using uint_ref.get_sqrt_price_at_tick_Ok [of 0] uint_ref.get_sqrt_price_at_tick_Ok [of 10] sample_price_10
  by (simp_all add: MIN_TICK_def MAX_TICK_def price_at_def ratio_of_0)

lemma plan_amounts:
  "get_delta_amounts_signed uint_ref 0 (2 ^ 64) 0 10 1000300 = Ok (500, 0)"
  "get_delta_amounts_signed uint_ref 0 (2 ^ 64) 0 10 (- 1000000) = Ok (499, 0)"
  by (simp_all add: get_delta_amounts_signed_def plan_ticks get_delta_amount_0_signed_def get_delta_amount_1_signed_def
      uint_ref.get_delta_amount_0_unsigned_eq uint_ref.get_delta_amount_1_unsigned_eq amount_0_of_def amount_1_of_def cdiv_def
      chk_i_def)

lemma plain_mints: "load_pool_mints plain_rpc m0 m1 = Ok (700, (1, plain_mint), (1, plain_mint))"
  by (simp add: load_pool_mints_def plain_rpc_def index_at_def)

lemma plain_fees:
  "\<exists>i0 i1. get_pool_mints_inverse_fee r plain_rpc m0 m1 x0 x1 = Ok (i0, i1) \<and> tfi_transfer_fee i0 = 0 \<and> tfi_transfer_fee i1 = 0"
  "\<exists>i0 i1. get_pool_mints_transfer_fee plain_rpc m0 m1 x0 x1 = Ok (i0, i1) \<and> tfi_transfer_fee i0 = 0 \<and> tfi_transfer_fee i1 = 0"
  by (simp_all add: get_pool_mints_inverse_fee_def get_pool_mints_transfer_fee_def plain_mints plain_mint_def
      client_get_transfer_inverse_fee_def client_get_transfer_fee_def)

lemma plan_slippage:
  "amount_with_slippage real_ops 500 (1 / 100) True = 505" "amount_with_slippage real_ops 0 (1 / 100) True = 0"
  "amount_with_slippage real_ops 499 (1 / 100) False = 494" "amount_with_slippage real_ops 0 (1 / 100) False = 0"
proof -
  have "\<lceil>500 * (1 + 1 / 100 :: real)\<rceil> = 505" "\<lfloor>499 * (1 - 1 / 100 :: real)\<rfloor> = 494"
    by (simp_all add: ceiling_eq_iff floor_eq_iff)
  then show "amount_with_slippage real_ops 500 (1 / 100) True = 505" "amount_with_slippage real_ops 0 (1 / 100) True = 0"
    "amount_with_slippage real_ops 499 (1 / 100) False = 494" "amount_with_slippage real_ops 0 (1 / 100) False = 0"
    by (simp_all add: amount_with_slippage_def real_ops_def saturated_def)
qed



text \<open>
  C18. A withdrawal of the client collects every reward.  The accounts after the fixed ones of its
  request are the extension of the bitmap, which the program takes out, and one group for each
  reward of the pool: the number is the one that the program requires, and the group that it
  takes for reward \<open>i\<close> is the vault of reward \<open>i\<close>, the owner's account for it and its mint.
\<close>

theorem withdrawal_request_collects_every_reward:
  assumes "decrease_liquidity_command F U L C K payer lo up liquidity simulate = Ok out" "out \<noteq> Message_only"
    and "cc_pool_id_account K = Some pool" "load_pool C pool = Ok p" "cc_tickarray_bitmap_extension K = Some e"
    and "rewards_in_order p" "\<forall>k. ra_key (decode k) = k"
    and "e \<notin> set (reward_vault_with_user_vault L payer (ps_reward_infos p))"
  shows "\<exists>rq close rest. out = (if simulate then Simulate else Send)
       (program_transaction payer [payer] (DecreaseLiquidityV2 rq # close))
     \<and> split_remaining e (decoded decode rq) None = (Some (decode e), rest)
     \<and> check_required_accounts_length p rest 3 = Ok ()
     \<and> (\<forall>i < count_initialized (ps_reward_infos p). \<forall>v u m.
          ra_token_account (decode (ri_token_vault (ps_reward_infos p ! i))) = Ok v
          \<and> ra_token_account (decode (cl_associated_token L payer (ri_token_mint (ps_reward_infos p ! i)))) = Ok u
          \<and> ra_mint (decode (ri_token_mint (ps_reward_infos p ! i))) = Ok m \<longrightarrow>
          next_reward_group True (drop (3 * i) rest) = Ok ((v, u, Some m), drop (3 * Suc i) rest))"
proof -
  let ?rs = "filter reward_initialized (ps_reward_infos p)"
  let ?rest = "map decode (concat (map (reward_accounts L payer) ?rs))"
  obtain rq close where out: "out = (if simulate then Simulate else Send)
       (program_transaction payer [payer] (DecreaseLiquidityV2 rq # close))"
    and rem: "map am_pubkey (rq_remaining rq) = e # reward_vault_with_user_vault L payer (ps_reward_infos p)"
    by (rule decrease_command_OkE [OF assms(1-5)])
  have "split_remaining e (decoded decode rq) None = (Some (decode e), ?rest)"
    using remaining_split [OF rem assms(7,8)] by (simp add: reward_vaults_eq)
  moreover have "check_required_accounts_length p ?rest 3 = Ok ()"
    by (simp only: check_required_accounts_length_def count_is_filter length_map length_groups) simp
  moreover have "next_reward_group True (drop (3 * i) ?rest) = Ok ((v, u, Some m), drop (3 * Suc i) ?rest)"
    if i: "i < count_initialized (ps_reward_infos p)"
      and "ra_token_account (decode (ri_token_vault (ps_reward_infos p ! i))) = Ok v"
      "ra_token_account (decode (cl_associated_token L payer (ri_token_mint (ps_reward_infos p ! i)))) = Ok u"
      "ra_mint (decode (ri_token_mint (ps_reward_infos p ! i))) = Ok m" for i v u m
    using that initialized_first [OF assms(6) i] by (intro group_decodes) (simp_all add: count_is_filter)
  ultimately show ?thesis
    using out by blast
qed

definition plan_position :: personal_position where
  "plan_position = default_personal_position\<lparr>pe_nft_mint := 30, pe_pool_id := 21, pe_tick_lower_index := 0,
     pe_tick_upper_index := 10, pe_liquidity := 1000000\<rparr>"

definition plan_chain :: chain where
  "plan_chain = \<lparr>cn_rpc = plain_rpc,
     cn_get_account = (\<lambda>_. Ok \<lparr>la_owner = 0, la_spl_token_mint = Err External, la_token_mint = Err External,
       la_decimals = Err External, la_mint_state = Err External, la_amm_config = Err External,
       la_pool_state = Ok plan_pool, la_extension = Err External, la_position = Err External,
       la_tick_array = Err External\<rparr>),
     cn_get_multiple_accounts = (\<lambda>_. Ok [Some \<lparr>la_owner = 0, la_spl_token_mint = Err External, la_token_mint = Err External,
       la_decimals = Err External, la_mint_state = Err External, la_amm_config = Err External,
       la_pool_state = Err External, la_extension = Err External, la_position = Ok plan_position,
       la_tick_array = Err External\<rparr>]),
     cn_get_token_accounts_by_owner = (\<lambda>_. Ok [\<lparr>ka_pubkey = Ok 31, ka_account = Some \<lparr>ui_mint = Ok 30, ui_amount = Ok 1,
       ui_decimals = 0, ui_close_authority = None\<rparr>\<rparr>])\<rparr>"

lemma plan_positions: "load_positions plan_chain D owner = Ok [plan_position]"
  by (simp add: load_positions_def get_nft_account_and_position_by_owner_def plan_chain_def)

lemma sample_plan_withdrawal:
  "plan_withdrawal real_ops uint_ref plain_rpc plan_pool (1 / 100) 0 10 1000000 = Ok (494, 0)"
proof -
  obtain i0 i1 where "get_pool_mints_transfer_fee plain_rpc (ps_token_mint_0 plan_pool) (ps_token_mint_1 plan_pool) 494 0
     = Ok (i0, i1)" "tfi_transfer_fee i0 = 0" "tfi_transfer_fee i1 = 0"
    using plain_fees(2) by blast
  then show ?thesis
    using plan_amounts(2)
    by (simp add: plan_withdrawal_def plan_pool_facts plan_slippage u128_as_i128_def chk_i_def checked_sub_def)
qed

lemma sample_decrease_command:
  "\<exists>out. decrease_liquidity_command real_ops uint_ref sample_client_lib plan_chain sample_client_config 41 0 10 None False = Ok out
     \<and> out \<noteq> Message_only"
proof -
  have "start_indexes plan_pool 0 10 = Ok (0, 0)"
    by (simp add: start_indexes_def plan_pool_facts get_array_start_index_eq moderate_def spacing_ok_def array_start_def)
  moreover have "load_pool plan_chain 21 = Ok plan_pool"
    by (simp add: load_pool_def plan_chain_def)
  moreover have "find_position 21 0 10 [plan_position] = plan_position"
    by (simp add: find_position_def plan_position_def)
  moreover have "pe_nft_mint plan_position \<noteq> default_pubkey" "pe_pool_id plan_position = 21" "pe_liquidity plan_position = 1000000"
    by (simp_all add: plan_position_def default_pubkey_def)
  moreover have "cn_rpc plan_chain = plain_rpc" by (simp add: plan_chain_def)
  ultimately show ?thesis
    using sample_plan_withdrawal
    by (simp add: decrease_liquidity_command_def sample_client_config_def plan_positions own_accounts_def
        decrease_liquidity_instr_def close_personal_position_instr_def make_request_def Let_def)
qed

theorem withdrawal_request_collects_every_reward_witness:
  "\<exists>rq close rest. decrease_liquidity_command real_ops uint_ref sample_client_lib plan_chain sample_client_config 41 0 10 None False
       = Ok (Send (program_transaction 41 [41] (DecreaseLiquidityV2 rq # close)))
     \<and> split_remaining 401 (decoded opaque_account rq) None = (Some (opaque_account 401), rest)
     \<and> check_required_accounts_length plan_pool rest 3 = Ok () \<and> count_initialized (ps_reward_infos plan_pool) = 1"
proof -
  obtain out where out: "decrease_liquidity_command real_ops uint_ref sample_client_lib plan_chain sample_client_config 41 0 10 None False = Ok out"
    "out \<noteq> Message_only"
    using sample_decrease_command by blast
  have K: "cc_pool_id_account sample_client_config = Some 21" "cc_tickarray_bitmap_extension sample_client_config = Some 401"
    by (simp_all add: sample_client_config_def)
  have p: "load_pool plan_chain 21 = Ok plan_pool"
    by (simp add: load_pool_def plan_chain_def)
  have count: "count_initialized (ps_reward_infos plan_pool) = 1"
    by (simp add: plan_pool_facts reward_initialized_def sample_reward_def new_reward_info_def default_pubkey_def)
  have first: "j = 0" if "reward_initialized (ps_reward_infos plan_pool ! j)" "j < REWARD_NUM" for j
  proof -
    have "j = 0 \<or> j = 1 \<or> j = 2" using that(2) by (auto simp: REWARD_NUM_def)
    then show ?thesis
      using that(1) by (auto simp: plan_pool_facts reward_initialized_def new_reward_info_def)
  qed
  then have order: "rewards_in_order plan_pool"
    unfolding rewards_in_order_def by (auto simp: plan_pool_facts(4) REWARD_NUM_def dest: first)
  have "401 \<notin> set (reward_vault_with_user_vault sample_client_lib 41 (ps_reward_infos plan_pool))"
    by (simp add: plan_pool_facts sample_client_lib_def sample_reward_def new_reward_info_def default_pubkey_def)
  moreover have "\<forall>k. ra_key (opaque_account k) = k" by (simp add: opaque_account_def)
  ultimately obtain rq close rest where "out = (if False then Simulate else Send)
       (program_transaction 41 [41] (DecreaseLiquidityV2 rq # close))"
    "split_remaining 401 (decoded opaque_account rq) None = (Some (opaque_account 401), rest)"
    "check_required_accounts_length plan_pool rest 3 = Ok ()"
    using withdrawal_request_collects_every_reward [OF out K(1) p K(2) order] by blast
  then show ?thesis
    using out(1) count by auto
qed

end
