(* ===== verification/Client_Events.thy ===== *)
theory Client_Events
  imports Prelude "HOL-Library.Sublist"
begin

text \<open>
  The decoding of logs and instructions that the client shows,
  \<open>src/client/src/instructions/events_instructions_parse.rs\<close>: which program a line of the log belongs
  to, and which instructions of a transaction are shown.  What is printed is the result.  The
  decoders of text and of the program's data are a parameter.
\<close>

section \<open>Text\<close>

definition strip_prefix :: "string \<Rightarrow> string \<Rightarrow> string option" where
  "strip_prefix p s = (if prefix p s then Some (drop (length p) s) else None)"

fun contains :: "string \<Rightarrow> string \<Rightarrow> bool" where
  "contains p [] \<longleftrightarrow> p = []"
| "contains p (c # cs) \<longleftrightarrow> prefix p (c # cs) \<or> contains p cs"

text \<open>What comes before the last occurrence.\<close>

fun before_last :: "string \<Rightarrow> string \<Rightarrow> string option" where
  "before_last p [] = (if p = [] then Some [] else None)"
| "before_last p (c # cs) =
     (case before_last p cs of Some x \<Rightarrow> Some (c # x)
      | None \<Rightarrow> if prefix p (c # cs) then Some [] else None)"

text \<open>
  The two patterns: \<open>^Program (.*) invoke.*$\<close>, with what its group captures, and
  \<open>^Program (.*) success*$\<close>, whose last letter may be there any number of times, or not at all.
  A dot stands for any character but the end of a line.
\<close>

definition invoke_pattern :: "string \<Rightarrow> string option" where
  "invoke_pattern l =
     (if CHR 0x0A \<in> set l then None
      else case strip_prefix ''Program '' l of None \<Rightarrow> None | Some rest \<Rightarrow> before_last '' invoke'' rest)"

definition success_pattern :: "string \<Rightarrow> bool" where
  "success_pattern l \<longleftrightarrow> CHR 0x0A \<notin> set l \<and>
     (case strip_prefix ''Program '' l of None \<Rightarrow> False
      | Some rest \<Rightarrow>
          let base = rev (dropWhile (\<lambda>c. c = CHR ''s'') (rev rest)) in
          base \<noteq> rest \<and> suffix '' succe'' base)"

section \<open>The stack of running programs\<close>

record execution =
  ex_stack :: "string list"

text \<open>The first line of the log; another one than an invocation is an error.\<close>

definition execution_new :: "string list \<Rightarrow> (execution \<times> string list) res" where
  "execution_new logs =
     (case logs of [] \<Rightarrow> Panic
      | l # logs \<Rightarrow>
          (case invoke_pattern l of None \<Rightarrow> Err External
           | Some program \<Rightarrow> Ok (\<lparr>ex_stack = [program]\<rparr>, logs)))"

definition execution_program :: "execution \<Rightarrow> string res" where
  "execution_program self = rbind (assertion (ex_stack self \<noteq> [])) (\<lambda>_. Ok (last (ex_stack self)))"

definition execution_is_empty :: "execution \<Rightarrow> bool" where
  "execution_is_empty self \<longleftrightarrow> ex_stack self = []"

definition execution_push :: "execution \<Rightarrow> string \<Rightarrow> execution" where
  "execution_push self new_program = self\<lparr>ex_stack := ex_stack self @ [new_program]\<rparr>"

definition execution_pop :: "execution \<Rightarrow> execution res" where
  "execution_pop self =
     rbind (assertion (ex_stack self \<noteq> [])) (\<lambda>_. Ok (self\<lparr>ex_stack := butlast (ex_stack self)\<rparr>))"

section \<open>Lines of the log\<close>

text \<open>The program that a line starts, if any, and whether one has returned.\<close>

definition handle_system_log :: "string \<Rightarrow> string \<Rightarrow> string option \<times> bool" where
  "handle_system_log this_program_str log =
     (if prefix (''Program '' @ this_program_str @ '' invoke'') log then (Some this_program_str, False)
      else if contains ''invoke'' log then (Some ''cpi'', False)
      else if success_pattern log then (None, True)
      else (None, False))"

text \<open>The events, in the order in which they are tried.\<close>

datatype event_kind =
    ConfigChangeEvent | CollectPersonalFeeEvent | CollectProtocolFeeEvent | CreatePersonalPositionEvent
  | DecreaseLiquidityEvent | IncreaseLiquidityEvent | LiquidityCalculateEvent | LiquidityChangeEvent
  | SwapEvent | PoolCreatedEvent

definition event_kinds :: "event_kind list" where
  "event_kinds = [ConfigChangeEvent, CollectPersonalFeeEvent, CollectProtocolFeeEvent,
     CreatePersonalPositionEvent, DecreaseLiquidityEvent, IncreaseLiquidityEvent, LiquidityCalculateEvent,
     LiquidityChangeEvent, SwapEvent, PoolCreatedEvent]"

text \<open>The decoding of text and, for the kinds of one sort of data, the first bytes and the rest.\<close>

record ('k, 'd) codec =
  co_base64 :: "string \<Rightarrow> u8 list option"
  co_base58 :: "string \<Rightarrow> u8 list option"
  co_hex :: "string \<Rightarrow> u8 list option"
  co_discriminator :: "'k \<Rightarrow> u8 list"
  co_deserialize :: "'k \<Rightarrow> u8 list \<Rightarrow> 'd option"

datatype ('k, 'd) shown = Shown 'k 'd | Unknown string | NotDecoded string | Heading "nat list"

text \<open>\<open>data[..8]\<close> panics when there are fewer bytes.\<close>

definition split_discriminator :: "u8 list \<Rightarrow> (u8 list \<times> u8 list) res" where
  "split_discriminator data =
     rbind (assertion (8 \<le> length data)) (\<lambda>_. Ok (take 8 data, drop 8 data))"

definition show_event :: "(event_kind, 'd) codec \<Rightarrow> string \<Rightarrow> u8 list \<Rightarrow> (event_kind, 'd) shown res" where
  "show_event E l borsh_bytes =
     rbind (split_discriminator borsh_bytes) (\<lambda>(disc, slice).
     case find (\<lambda>k. co_discriminator E k = disc) event_kinds of
       None \<Rightarrow> Ok (Unknown l)
     | Some k \<Rightarrow>
         (case co_deserialize E k slice of None \<Rightarrow> Err External | Some event \<Rightarrow> Ok (Shown k event)))"

definition handle_program_log ::
  "(event_kind, 'd) codec \<Rightarrow> string \<Rightarrow> string \<Rightarrow> bool \<Rightarrow>
   ((string option \<times> bool) \<times> (event_kind, 'd) shown list) res" where
  "handle_program_log E self_program_str l with_prefix =
     (case (if with_prefix then
              (case strip_prefix ''Program log: '' l of Some log \<Rightarrow> Some log
               | None \<Rightarrow> strip_prefix ''Program data: '' l)
            else Some l) of
        Some log \<Rightarrow>
          if prefix ''Program log:'' l then Ok ((None, False), [])
          else
            (case co_base64 E log of
               None \<Rightarrow> Ok ((None, False), [NotDecoded log])
             | Some borsh_bytes \<Rightarrow>
                 rbind (show_event E l borsh_bytes) (\<lambda>event. Ok ((None, False), [event])))
      | None \<Rightarrow> Ok (handle_system_log self_program_str l, []))"

text \<open>A line that cannot be parsed ends the process, as a panic does.\<close>

definition parse_line ::
  "(event_kind, 'd) codec \<Rightarrow> string \<Rightarrow> execution \<Rightarrow> string \<Rightarrow> (execution \<times> (event_kind, 'd) shown list) res" where
  "parse_line E self_program_str execution l =
     rbind (if execution_is_empty execution then Ok False
            else rbind (execution_program execution) (\<lambda>program. Ok (self_program_str = program))) (\<lambda>own.
     rbind (if own then unwrap_result (handle_program_log E self_program_str l True)
            else Ok (handle_system_log self_program_str l, [])) (\<lambda>((new_program, did_pop), out).
     let execution = (case new_program of Some new_program \<Rightarrow> execution_push execution new_program
                      | None \<Rightarrow> execution) in
     rbind (if did_pop then execution_pop execution else Ok execution) (\<lambda>execution.
     Ok (execution, out))))"

fun parse_lines ::
  "(event_kind, 'd) codec \<Rightarrow> string \<Rightarrow> execution \<Rightarrow> string list \<Rightarrow> (execution \<times> (event_kind, 'd) shown list) res" where
  "parse_lines E self_program_str execution [] = Ok (execution, [])"
| "parse_lines E self_program_str execution (l # logs) =
     rbind (parse_line E self_program_str execution l) (\<lambda>(execution, out).
     rbind (parse_lines E self_program_str execution logs) (\<lambda>(execution, outs).
     Ok (execution, out @ outs)))"

text \<open>The metadata of a transaction, as far as it is read here: the messages of its log.\<close>

definition parse_program_event ::
  "(event_kind, 'd) codec \<Rightarrow> string \<Rightarrow> string list option option \<Rightarrow> (event_kind, 'd) shown list res" where
  "parse_program_event E self_program_str meta =
     (let logs = (case meta of Some (Some log_messages) \<Rightarrow> log_messages | _ \<Rightarrow> []) in
      if logs \<noteq> [] then
        (case execution_new logs of
           Ok (execution, logs) \<Rightarrow>
             rbind (parse_lines E self_program_str execution logs) (\<lambda>(_, out). Ok out)
         | Err e \<Rightarrow> Ok []
         | Panic \<Rightarrow> Panic)
      else Ok [])"

section \<open>Instructions\<close>

text \<open>The instructions of the program, in the order in which they are tried.\<close>

datatype instruction_kind =
    CreateAmmConfigKind | UpdateAmmConfigKind | CreatePoolKind | UpdatePoolStatusKind
  | CreateOperationAccountKind | UpdateOperationAccountKind | TransferRewardOwnerKind
  | InitializeRewardKind | CollectRemainingRewardsKind | UpdateRewardInfosKind | SetRewardParamsKind
  | CollectProtocolFeeKind | CollectFundFeeKind | OpenPositionKind | OpenPositionV2Kind
  | ClosePositionKind | IncreaseLiquidityKind | IncreaseLiquidityV2Kind | DecreaseLiquidityKind
  | DecreaseLiquidityV2Kind | SwapKind | SwapV2Kind | SwapRouterBaseInKind

definition instruction_kinds :: "instruction_kind list" where
  "instruction_kinds = [CreateAmmConfigKind, UpdateAmmConfigKind, CreatePoolKind, UpdatePoolStatusKind,
     CreateOperationAccountKind, UpdateOperationAccountKind, TransferRewardOwnerKind, InitializeRewardKind,
     CollectRemainingRewardsKind, UpdateRewardInfosKind, SetRewardParamsKind, CollectProtocolFeeKind,
     CollectFundFeeKind, OpenPositionKind, OpenPositionV2Kind, ClosePositionKind, IncreaseLiquidityKind,
     IncreaseLiquidityV2Kind, DecreaseLiquidityKind, DecreaseLiquidityV2Kind, SwapKind, SwapV2Kind,
     SwapRouterBaseInKind]"

text \<open>The arguments of each instruction, in the order in which they are shown.\<close>

datatype instruction_data =
    CreateAmmConfig u16 u16 u32 u32 u32
  | UpdateAmmConfig u8 u32
  | CreatePool u128 u64
  | UpdatePoolStatus u8
  | CreateOperationAccount
  | UpdateOperationAccount u8 "pubkey list"
  | TransferRewardOwner pubkey
  | InitializeReward u64 u64 u128
  | CollectRemainingRewards u8
  | UpdateRewardInfos
  | SetRewardParams u8 u128 u64 u64
  | CollectProtocolFee u64 u64
  | CollectFundFee u64 u64
  | OpenPosition i32 i32 i32 i32 u128 u64 u64
  | OpenPositionV2 i32 i32 i32 i32 u128 u64 u64 "bool option" bool
  | ClosePosition
  | IncreaseLiquidity u128 u64 u64
  | IncreaseLiquidityV2 u128 u64 u64 "bool option"
  | DecreaseLiquidity u128 u64 u64
  | DecreaseLiquidityV2 u128 u64 u64
  | Swap u64 u64 u128 bool
  | SwapV2 u64 u64 u128 bool
  | SwapRouterBaseIn u64 u64

datatype decode_type = BaseHex | Base64 | Base58

text \<open>Text that does not decode is reported for two of the three encodings.\<close>

definition decode_text :: "('k, 'd) codec \<Rightarrow> string \<Rightarrow> decode_type \<Rightarrow> u8 list option res" where
  "decode_text E instr_data decode_type =
     (case decode_type of
        BaseHex \<Rightarrow> rbind (unwrap (co_hex E instr_data)) (\<lambda>data. Ok (Some data))
      | Base64 \<Rightarrow> Ok (co_base64 E instr_data)
      | Base58 \<Rightarrow> Ok (co_base58 E instr_data))"

text \<open>Each kind shows all the fields of its arguments, so the arguments themselves are shown here.\<close>

definition handle_program_instruction ::
  "(instruction_kind, instruction_data) codec \<Rightarrow> string \<Rightarrow> decode_type \<Rightarrow> (instruction_kind, instruction_data) shown list res" where
  "handle_program_instruction E instr_data decode_type =
     rbind (decode_text E instr_data decode_type) (\<lambda>decoded.
     case decoded of
       None \<Rightarrow> Ok [NotDecoded instr_data]
     | Some data \<Rightarrow>
         rbind (split_discriminator data) (\<lambda>(disc, ix_data).
         case find (\<lambda>k. co_discriminator E k = disc) instruction_kinds of
           None \<Rightarrow> Ok [Unknown instr_data]
         | Some k \<Rightarrow> rbind (unwrap (co_deserialize E k ix_data)) (\<lambda>ix. Ok [Shown k ix])))"

record compiled_instruction =
  ci_program_id_index :: nat
  ci_data :: string

text \<open>Inner instructions belong to an instruction of the transaction; \<open>None\<close> is one that is parsed already.\<close>

record inner_instructions =
  in_index :: nat
  in_instructions :: "compiled_instruction option list"

record transaction_meta =
  tm_log_messages :: "string list option"
  tm_loaded_addresses :: "(string list \<times> string list) option"
  tm_inner_instructions :: "inner_instructions list option"

text \<open>The message of the transaction: nothing, when it is not a raw one.\<close>

record raw_message =
  rw_account_keys :: "string list"
  rw_instructions :: "compiled_instruction list"

definition no_message :: raw_message where
  "no_message = \<lparr>rw_account_keys = [], rw_instructions = []\<rparr>"

fun position_of :: "string \<Rightarrow> string list \<Rightarrow> nat option" where
  "position_of key [] = None"
| "position_of key (k # ks) = (if k = key then Some 0 else map_option Suc (position_of key ks))"

text \<open>The instructions of a list that are of the program, each under its number.\<close>

fun show_instructions ::
  "(instruction_kind, instruction_data) codec \<Rightarrow> nat \<Rightarrow> nat list \<Rightarrow> nat \<Rightarrow> compiled_instruction option list \<Rightarrow>
   (instruction_kind, instruction_data) shown list res" where
  "show_instructions E program_index heading i [] = Ok []"
| "show_instructions E program_index heading i (ix # ixs) =
     rbind (case ix of
              Some ui_compiled_instruction \<Rightarrow>
                if ci_program_id_index ui_compiled_instruction = program_index
                then rbind (handle_program_instruction E (ci_data ui_compiled_instruction) Base58)
                       (\<lambda>out. Ok (Heading (heading @ [i + 1]) # out))
                else Ok []
            | None \<Rightarrow> Ok []) (\<lambda>out.
     rbind (show_instructions E program_index heading (i + 1) ixs) (\<lambda>outs. Ok (out @ outs)))"

fun show_inner_instructions ::
  "(instruction_kind, instruction_data) codec \<Rightarrow> nat \<Rightarrow> inner_instructions list \<Rightarrow> (instruction_kind, instruction_data) shown list res" where
  "show_inner_instructions E program_index [] = Ok []"
| "show_inner_instructions E program_index (inner # inners) =
     rbind (show_instructions E program_index [in_index inner + 1] 0 (in_instructions inner)) (\<lambda>out.
     rbind (show_inner_instructions E program_index inners) (\<lambda>outs. Ok (out @ outs)))"

definition parse_program_instruction ::
  "(instruction_kind, instruction_data) codec \<Rightarrow> string \<Rightarrow> raw_message option \<Rightarrow> transaction_meta option \<Rightarrow>
   (instruction_kind, instruction_data) shown list res" where
  "parse_program_instruction E self_program_str message meta =
     (let ui_raw_msg = (case message of Some m \<Rightarrow> m | None \<Rightarrow> no_message) in
      case meta of
        None \<Rightarrow> Ok []
      | Some meta \<Rightarrow>
          let account_keys =
                (case tm_loaded_addresses meta of
                   Some (writeable_address, readonly_address) \<Rightarrow>
                     rw_account_keys ui_raw_msg @ writeable_address @ readonly_address
                 | None \<Rightarrow> rw_account_keys ui_raw_msg) in
          rbind (unwrap (position_of self_program_str account_keys)) (\<lambda>program_index.
          rbind (show_instructions E program_index [] 0 (map Some (rw_instructions ui_raw_msg))) (\<lambda>out.
          rbind (case tm_inner_instructions meta of
                   Some inner_instructions \<Rightarrow> show_inner_instructions E program_index inner_instructions
                 | None \<Rightarrow> Ok []) (\<lambda>inner_out.
          Ok (out @ inner_out)))))"

section \<open>The commands\<close>

text \<open>\<open>DecodeTxLog\<close>: the metadata of the transaction carries the messages of its log.\<close>

definition decode_tx_log ::
  "(instruction_kind, instruction_data) codec \<Rightarrow> (event_kind, 'e) codec \<Rightarrow> string \<Rightarrow> raw_message option \<Rightarrow>
   transaction_meta option \<Rightarrow> ((instruction_kind, instruction_data) shown list \<times> (event_kind, 'e) shown list) res" where
  "decode_tx_log EI EV program message meta =
     rbind (parse_program_instruction EI program message meta) (\<lambda>instructions.
     rbind (parse_program_event EV program (map_option tm_log_messages meta)) (\<lambda>events.
     Ok (instructions, events)))"

end
