(* ===== verification/Event_Properties.thy ===== *)
theory Event_Properties
  imports Client_Events
begin

text \<open>
  The lines of a log belong to the programs that the stack says.  For logs of nested calls that all
  succeed, and in which no message of another program looks like a call or a return, exactly the
  lines that the program itself wrote are decoded; a message of another program that looks like a
  return is enough for its next line to be decoded too.
\<close>

section \<open>Logs of nested calls\<close>

text \<open>A line, or the call of a program with its depth and what is logged until it returns, with success.\<close>

datatype entry = Line string | Call string string "entry list"

definition header :: "string \<Rightarrow> string \<Rightarrow> string" where
  "header program depth = ''Program '' @ program @ '' invoke ['' @ depth @ '']''"

definition footer :: "string \<Rightarrow> string" where
  "footer program = ''Program '' @ program @ '' success''"

fun log_of :: "entry \<Rightarrow> string list" where
  "log_of (Line l) = [l]"
| "log_of (Call program depth body) = header program depth # concat (map log_of body) @ [footer program]"

text \<open>The lines that a program writes itself, while it is the one that runs.\<close>

fun own_lines :: "string \<Rightarrow> string option \<Rightarrow> entry \<Rightarrow> string list" where
  "own_lines self running (Line l) = (if running = Some self then [l] else [])"
| "own_lines self running (Call program depth body) = concat (map (own_lines self (Some program)) body)"

text \<open>
  The names are without blanks and colons, as base 58 is.  A line that the program did not write
  itself, or that is neither a message nor data, is quiet: it does not contain \<open>invoke\<close> and does not
  match the pattern of a return.  The messages of other programs need not be quiet in a real log:
  being well logged is a condition on what they write.
\<close>

definition word :: "string \<Rightarrow> bool" where
  "word q \<longleftrightarrow> CHR '' '' \<notin> set q \<and> CHR 0x0A \<notin> set q"

definition name_ok :: "string \<Rightarrow> bool" where
  "name_ok q \<longleftrightarrow> word q \<and> CHR '':'' \<notin> set q \<and> \<not> contains ''invoke'' (footer q)"

definition message :: "string \<Rightarrow> bool" where
  "message l \<longleftrightarrow> prefix ''Program log: '' l \<or> prefix ''Program data: '' l"

definition quiet :: "string \<Rightarrow> bool" where
  "quiet l \<longleftrightarrow> \<not> contains ''invoke'' l \<and> \<not> success_pattern l"

fun well_logged :: "string \<Rightarrow> string option \<Rightarrow> entry \<Rightarrow> bool" where
  "well_logged self running (Line l) \<longleftrightarrow> (running = Some self \<and> message l) \<or> quiet l"
| "well_logged self running (Call program depth body) \<longleftrightarrow>
     name_ok program \<and> word depth \<and> list_all (well_logged self (Some program)) body"

text \<open>What is shown of the lines of the program.\<close>

fun show_lines :: "(event_kind, 'd) codec \<Rightarrow> string \<Rightarrow> string list \<Rightarrow> (event_kind, 'd) shown list res" where
  "show_lines E self [] = Ok []"
| "show_lines E self (l # ls) =
     rbind (unwrap_result (handle_program_log E self l True)) (\<lambda>(_, out).
     rbind (show_lines E self ls) (\<lambda>outs. Ok (out @ outs)))"

section \<open>Text\<close>

lemma contains_prefix: "prefix p s \<Longrightarrow> contains p s"
  by (cases s) auto

lemma contains_append: "contains p (x @ p @ y)"
  by (induction x) (auto simp: contains_prefix)

lemma words_split:
  "CHR '' '' \<notin> set a \<Longrightarrow> CHR '' '' \<notin> set b \<Longrightarrow> a @ CHR '' '' # x = b @ CHR '' '' # y \<longleftrightarrow> a = b \<and> x = y"
  by (induction a arbitrary: b) (auto simp: neq_Nil_conv, (case_tac b; auto)+)

lemma before_last_word: "CHR '' '' \<notin> set s \<Longrightarrow> before_last (CHR '' '' # p) s = None"
  by (induction s) auto

lemma before_last_at:
  "before_last p t = None \<Longrightarrow> prefix p (c # t) \<Longrightarrow> before_last p (x @ c # t) = Some x"
  by (induction x) auto

lemma header_invoke: "word q \<Longrightarrow> word d \<Longrightarrow> invoke_pattern (header q d) = Some q"
proof -
  assume w: "word q" "word d"
  have "before_last '' invoke'' (''invoke ['' @ d @ '']'') = None"
    using w(2) by (simp add: before_last_word word_def)
  from before_last_at [OF this, of "CHR '' ''" q] show ?thesis
    using w by (simp add: invoke_pattern_def header_def strip_prefix_def word_def)
qed

lemma footer_success: "word q \<Longrightarrow> success_pattern (footer q)"
  by (simp add: success_pattern_def footer_def strip_prefix_def word_def Let_def suffix_def)

lemma not_message: "CHR '':'' \<notin> set q \<Longrightarrow> \<not> message (''Program '' @ q @ CHR '' '' # x)"
proof -
  assume q: "CHR '':'' \<notin> set q"
  have "\<not> prefix (w @ CHR '':'' # v) (q @ CHR '' '' # x)" if "CHR '' '' \<notin> set w" for w v
  proof
    assume "prefix (w @ CHR '':'' # v) (q @ CHR '' '' # x)"
    then obtain z where "w @ CHR '':'' # v @ z = q @ CHR '' '' # x" by (auto simp: prefix_def)
    with q that show False
      by (auto simp: append_eq_append_conv2 Cons_eq_append_conv append_eq_Cons_conv)
  qed
  from this [of "''log''" "'' ''"] this [of "''data''" "'' ''"] show ?thesis
    by (simp add: message_def)
qed

lemma header_prefix:
  assumes "word self" "word q"
  shows "prefix (''Program '' @ self @ '' invoke'') (header q d) \<longleftrightarrow> q = self"
proof
  assume "prefix (''Program '' @ self @ '' invoke'') (header q d)"
  then obtain z where "self @ CHR '' '' # ''invoke'' @ z = q @ CHR '' '' # ''invoke ['' @ d @ '']''"
    by (auto simp: prefix_def header_def)
  with assms show "q = self"
    using words_split [of self q] by (simp add: word_def)
qed (simp add: header_def prefix_def)

lemma footer_prefix:
  assumes "word self" "word q"
  shows "\<not> prefix (''Program '' @ self @ '' invoke'') (footer q)"
proof
  assume "prefix (''Program '' @ self @ '' invoke'') (footer q)"
  then obtain z where "self @ CHR '' '' # ''invoke'' @ z = q @ CHR '' '' # ''success''"
    by (auto simp: prefix_def footer_def)
  with assms show False
    using words_split [of self q] by (simp add: word_def)
qed

section \<open>Lines one by one\<close>

lemma contains_header: "contains ''invoke'' (header q d)"
  using contains_append [of "''invoke''" "''Program '' @ q @ '' ''" "'' ['' @ d @ '']''"] by (simp add: header_def)

lemma system_header:
  assumes "word self" "word q"
  shows "handle_system_log self (header q d) = (Some (if q = self then self else ''cpi''), False)"
  unfolding handle_system_log_def header_prefix [OF assms] by (simp add: contains_header)

lemma system_footer: "word self \<Longrightarrow> name_ok q \<Longrightarrow> handle_system_log self (footer q) = (None, True)"
  unfolding handle_system_log_def name_ok_def by (simp only: footer_prefix footer_success simp_thms if_False if_True)

lemma quiet_line: "quiet l \<Longrightarrow> handle_system_log self l = (None, False)"
proof -
  assume q: "quiet l"
  have "\<not> prefix (''Program '' @ self @ '' invoke'') l"
  proof
    assume "prefix (''Program '' @ self @ '' invoke'') l"
    then obtain z where "l = (''Program '' @ self @ '' '') @ ''invoke'' @ z" by (auto simp: prefix_def)
    with q contains_append [of "''invoke''" "''Program '' @ self @ '' ''" z] show False by (simp add: quiet_def)
  qed
  with q show ?thesis unfolding handle_system_log_def quiet_def by (simp only: simp_thms if_False)
qed

lemma strip_not_message:
  "\<not> message l \<Longrightarrow> handle_program_log E self l True = Ok (handle_system_log self l, [])"
  by (simp add: handle_program_log_def strip_prefix_def message_def)

lemma message_no_change:
  assumes "message l" "handle_program_log E self l True = Ok (r, out)"
  shows "r = (None, False)"
  using assms by (auto simp: handle_program_log_def strip_prefix_def message_def res_inv split: option.splits if_splits)

text \<open>The top of the stack is the program itself when it runs.\<close>

definition tracks :: "string \<Rightarrow> string option \<Rightarrow> string list \<Rightarrow> bool" where
  "tracks self running st \<longleftrightarrow>
     (case running of None \<Rightarrow> st = [] | Some p \<Rightarrow> st \<noteq> [] \<and> (last st = self \<longleftrightarrow> p = self))"

lemma parse_line_eq:
  assumes "tracks self running st"
  shows "parse_line E self \<lparr>ex_stack = st\<rparr> l =
    rbind (if running = Some self then unwrap_result (handle_program_log E self l True)
           else Ok (handle_system_log self l, [])) (\<lambda>((new_program, did_pop), out).
    rbind (if did_pop then execution_pop \<lparr>ex_stack = st @ (case new_program of Some p \<Rightarrow> [p] | None \<Rightarrow> [])\<rparr>
           else Ok \<lparr>ex_stack = st @ (case new_program of Some p \<Rightarrow> [p] | None \<Rightarrow> [])\<rparr>) (\<lambda>x. Ok (x, out)))"
proof -
  have "(if execution_is_empty \<lparr>ex_stack = st\<rparr> then Ok False
      else rbind (execution_program \<lparr>ex_stack = st\<rparr>) (\<lambda>program. Ok (self = program))) = Ok (running = Some self)"
    using assms by (auto simp: tracks_def execution_is_empty_def execution_program_def split: option.splits)
  then show ?thesis
    unfolding parse_line_def
    by (simp only: rbind.simps Let_def) (rule arg_cong2 [where f = rbind]; auto simp: execution_push_def split: option.splits)
qed

text \<open>A line that is not the start or the end of a call changes nothing on the stack.\<close>

lemma parse_plain_line:
  assumes "tracks self running st" "well_logged self running (Line l)"
  shows "parse_line E self \<lparr>ex_stack = st\<rparr> l =
    rbind (show_lines E self (own_lines self running (Line l))) (\<lambda>outs. Ok (\<lparr>ex_stack = st\<rparr>, outs))"
proof (cases "running = Some self")
  case True
  show ?thesis
  proof (cases "handle_program_log E self l True")
    case (Ok x)
    obtain r out where x: "x = (r, out)" by (cases x)
    have "r = (None, False)"
      using assms(2) True message_no_change [of l E self r out] strip_not_message [of l E self] quiet_line [of l self] Ok x
      by (cases "message l") auto
    then show ?thesis
      unfolding parse_line_eq [OF assms(1)] using True Ok x by simp
  qed (use True in \<open>simp_all add: parse_line_eq [OF assms(1)]\<close>)
next
  case False
  then have "quiet l" using assms(2) by simp
  then show ?thesis
    unfolding parse_line_eq [OF assms(1)] using False by (simp add: quiet_line)
qed

lemma header_not_message: "name_ok q \<Longrightarrow> \<not> message (header q d)"
  unfolding header_def name_ok_def using not_message [of q "''invoke ['' @ d @ '']''"] by simp

lemma footer_not_message: "name_ok q \<Longrightarrow> \<not> message (footer q)"
  unfolding footer_def name_ok_def using not_message [of q "''success''"] by simp

lemma parse_header:
  assumes "tracks self running st" "name_ok self" "name_ok q"
  shows "parse_line E self \<lparr>ex_stack = st\<rparr> (header q d) =
    Ok (\<lparr>ex_stack = st @ [if q = self then self else ''cpi'']\<rparr>, [])"
proof -
  have "handle_program_log E self (header q d) True = Ok (handle_system_log self (header q d), [])"
    by (rule strip_not_message) (rule header_not_message [OF assms(3)])
  moreover have "handle_system_log self (header q d) = (Some (if q = self then self else ''cpi''), False)"
    using assms(2,3) by (intro system_header) (simp_all add: name_ok_def)
  ultimately show ?thesis
    unfolding parse_line_eq [OF assms(1)] by simp
qed

lemma parse_footer:
  assumes "tracks self running (st @ [x])" "name_ok self" "name_ok q"
  shows "parse_line E self \<lparr>ex_stack = st @ [x]\<rparr> (footer q) = Ok (\<lparr>ex_stack = st\<rparr>, [])"
proof -
  have "handle_program_log E self (footer q) True = Ok (handle_system_log self (footer q), [])"
    by (rule strip_not_message) (rule footer_not_message [OF assms(3)])
  moreover have "handle_system_log self (footer q) = (None, True)"
    using assms(2,3) by (intro system_footer) (simp_all add: name_ok_def)
  ultimately show ?thesis
    unfolding parse_line_eq [OF assms(1)] by (simp add: execution_pop_def)
qed

section \<open>The whole log\<close>

lemma parse_lines_append:
  "parse_lines E self x (ls @ ms) =
    rbind (parse_lines E self x ls) (\<lambda>(x, out). rbind (parse_lines E self x ms) (\<lambda>(x, outs). Ok (x, out @ outs)))"
proof (induction ls arbitrary: x)
  case Nil
  show ?case by (cases "parse_lines E self x ms") auto
next
  case (Cons l ls)
  show ?case
  proof (cases "parse_line E self x l")
    case (Ok r)
    obtain y out where r: "r = (y, out)" by (cases r)
    show ?thesis
    proof (cases "parse_lines E self y ls")
      case (Ok r')
      obtain z out' where "r' = (z, out')" by (cases r')
      then show ?thesis
        using Ok \<open>parse_line E self x l = Ok r\<close> r by (cases "parse_lines E self z ms") (auto simp: Cons.IH)
    qed (use Ok r in \<open>simp_all add: Cons.IH\<close>)
  qed simp_all
qed

lemma show_lines_append:
  "show_lines E self (ls @ ms) = rbind (show_lines E self ls) (\<lambda>out. rbind (show_lines E self ms) (\<lambda>outs. Ok (out @ outs)))"
proof (induction ls)
  case Nil
  show ?case by (cases "show_lines E self ms") auto
next
  case (Cons l ls)
  show ?case
    by (cases "unwrap_result (handle_program_log E self l True)"; cases "show_lines E self ls"; cases "show_lines E self ms")
      (auto simp: Cons.IH)
qed

lemma parse_entries:
  assumes "\<And>e st. e \<in> set es \<Longrightarrow> tracks self running st \<Longrightarrow>
      parse_lines E self \<lparr>ex_stack = st\<rparr> (log_of e) = rbind (show_lines E self (own_lines self running e)) (\<lambda>outs. Ok (\<lparr>ex_stack = st\<rparr>, outs))"
    and "tracks self running st"
  shows "parse_lines E self \<lparr>ex_stack = st\<rparr> (concat (map log_of es)) =
    rbind (show_lines E self (concat (map (own_lines self running) es))) (\<lambda>outs. Ok (\<lparr>ex_stack = st\<rparr>, outs))"
  using assms(1)
proof (induction es)
  case (Cons e es)
  have "parse_lines E self \<lparr>ex_stack = st\<rparr> (log_of e) = rbind (show_lines E self (own_lines self running e)) (\<lambda>outs. Ok (\<lparr>ex_stack = st\<rparr>, outs))"
    using Cons.prems assms(2) by simp
  moreover have "parse_lines E self \<lparr>ex_stack = st\<rparr> (concat (map log_of es)) =
    rbind (show_lines E self (concat (map (own_lines self running) es))) (\<lambda>outs. Ok (\<lparr>ex_stack = st\<rparr>, outs))"
    using Cons.prems by (intro Cons.IH) auto
  ultimately show ?case
    by (cases "show_lines E self (own_lines self running e)";
        cases "show_lines E self (concat (map (own_lines self running) es))")
      (simp_all add: parse_lines_append show_lines_append)
qed simp

lemma parse_entry:
  assumes "name_ok self" "self \<noteq> ''cpi''"
  shows "well_logged self running e \<Longrightarrow> tracks self running st \<Longrightarrow>
    parse_lines E self \<lparr>ex_stack = st\<rparr> (log_of e) = rbind (show_lines E self (own_lines self running e)) (\<lambda>outs. Ok (\<lparr>ex_stack = st\<rparr>, outs))"
proof (induction e arbitrary: running st)
  case (Line l)
  from parse_plain_line [OF Line(2,1), of E] show ?case
    by (cases "show_lines E self (own_lines self running (Line l))") (auto simp del: own_lines.simps show_lines.simps)
next
  case (Call q d body)
  let ?x = "if q = self then self else ''cpi''"
  have q: "name_ok q" "word d" "\<And>e. e \<in> set body \<Longrightarrow> well_logged self (Some q) e"
    using Call.prems(1) by (auto simp: list_all_iff)
  have t: "tracks self (Some q) (st @ [?x])"
    using assms(2) by (auto simp: tracks_def)
  have body: "parse_lines E self \<lparr>ex_stack = st @ [?x]\<rparr> (concat (map log_of body)) =
    rbind (show_lines E self (concat (map (own_lines self (Some q)) body))) (\<lambda>outs. Ok (\<lparr>ex_stack = st @ [?x]\<rparr>, outs))"
    by (rule parse_entries [OF Call.IH [OF _ q(3)] t])
  define x where "x = ?x"
  note body [folded x_def]
  then show ?case
    using parse_header [OF Call.prems(2) assms(1) q(1), of E d, folded x_def] parse_footer [OF t [folded x_def] assms(1) q(1), of E]
    by (cases "show_lines E self (concat (map (own_lines self (Some q)) body))") (simp_all add: parse_lines_append)
qed

lemma events_of_well_logged_calls:
  assumes "name_ok self" "self \<noteq> ''cpi''"
    and "calls \<noteq> []" "\<forall>e \<in> set calls. (\<exists>q d body. e = Call q d body) \<and> well_logged self None e"
  shows "parse_program_event E self (Some (Some (concat (map log_of calls))))
    = show_lines E self (concat (map (own_lines self None) calls))"
proof -
  obtain q d body rest where calls: "calls = Call q d body # rest"
    using assms(3,4) by (cases calls) auto
  have q: "name_ok q" "word q" "word d" "\<And>e. e \<in> set body \<Longrightarrow> well_logged self (Some q) e"
    using assms(4) by (auto simp: calls list_all_iff name_ok_def)
  let ?own = "show_lines E self (concat (map (own_lines self (Some q)) body))"
  let ?rest = "show_lines E self (concat (map (own_lines self None) rest))"
  have t: "tracks self (Some q) ([] @ [q])" "tracks self None []"
    by (auto simp: tracks_def)
  have b: "parse_lines E self \<lparr>ex_stack = [q]\<rparr> (concat (map log_of body)) = rbind ?own (\<lambda>outs. Ok (\<lparr>ex_stack = [q]\<rparr>, outs))"
    by (rule parse_entries) (use parse_entry [OF assms(1,2) q(4)] t in \<open>simp_all add: assms(1)\<close>)
  have r: "parse_lines E self \<lparr>ex_stack = []\<rparr> (concat (map log_of rest)) = rbind ?rest (\<lambda>outs. Ok (\<lparr>ex_stack = []\<rparr>, outs))"
  proof (rule parse_entries [OF _ t(2)])
    fix e st
    assume "e \<in> set rest" "tracks self None st"
    then show "parse_lines E self \<lparr>ex_stack = st\<rparr> (log_of e)
        = rbind (show_lines E self (own_lines self None e)) (\<lambda>outs. Ok (\<lparr>ex_stack = st\<rparr>, outs))"
      using assms(4) by (intro parse_entry [OF assms(1,2)]) (simp_all add: calls)
  qed
  have "parse_lines E self \<lparr>ex_stack = [q]\<rparr> (concat (map log_of body) @ footer q # concat (map log_of rest))
    = rbind ?own (\<lambda>out. rbind ?rest (\<lambda>outs. Ok (\<lparr>ex_stack = []\<rparr>, out @ outs)))"
    using b r parse_footer [OF t(1) assms(1) q(1), of E]
    by (cases ?own; cases ?rest) (simp_all add: parse_lines_append)
  then show ?thesis
    using header_invoke [OF q(2,3)]
    by (cases ?own; cases ?rest) (simp_all add: parse_program_event_def execution_new_def calls show_lines_append)
qed

text \<open>A message of another program that looks like a return: its call seems to be over.\<close>

lemma false_return:
  assumes "tracks self (Some q) (st @ [x])" "q \<noteq> self" "\<not> contains ''invoke'' l" "success_pattern l"
  shows "parse_line E self \<lparr>ex_stack = st @ [x]\<rparr> l = Ok (\<lparr>ex_stack = st\<rparr>, [])"
proof -
  have "\<not> prefix (''Program '' @ self @ '' invoke'') l"
  proof
    assume "prefix (''Program '' @ self @ '' invoke'') l"
    then obtain z where "l = (''Program '' @ self @ '' '') @ ''invoke'' @ z" by (auto simp: prefix_def)
    with assms(3) contains_append [of "''invoke''" "''Program '' @ self @ '' ''" z] show False by simp
  qed
  then have "handle_system_log self l = (None, True)"
    unfolding handle_system_log_def using assms(3,4) by (simp only: simp_thms if_True if_False)
  then show ?thesis
    unfolding parse_line_eq [OF assms(1)] using assms(2) by (simp add: execution_pop_def)
qed

lemma line_after_false_return:
  assumes "name_ok self" "self \<noteq> ''cpi''" "name_ok q" "q \<noteq> self" "word d"
    and "\<not> contains ''invoke'' l" "success_pattern l" "message m"
  shows "parse_program_event E self (Some (Some [header self d, header q e, l, m])) = show_lines E self [m]"
    "parse_program_event E self (Some (Some (log_of (Call self d [Call q e [Line l, Line m]])))) = Panic"
proof -
  have t: "tracks self (Some self) ([] @ [self])" "tracks self (Some q) ([self] @ [''cpi''])" "tracks self None []"
    using assms(2,4) by (auto simp: tracks_def)
  have self: "word self" using assms(1) by (simp add: name_ok_def)
  define h where "h = header self d"
  define h' where "h' = header q e"
  define f where "f = footer q"
  define f' where "f' = footer self"
  have h: "invoke_pattern h = Some self" unfolding h_def by (rule header_invoke [OF self assms(5)])
  have h': "parse_line E self \<lparr>ex_stack = [self]\<rparr> h' = Ok (\<lparr>ex_stack = [self, ''cpi'']\<rparr>, [])"
    using parse_header [OF t(1) assms(1,3), of E e] assms(4) by (simp add: h'_def)
  have l: "parse_line E self \<lparr>ex_stack = [self, ''cpi'']\<rparr> l = Ok (\<lparr>ex_stack = [self]\<rparr>, [])"
    using false_return [OF t(2) assms(4,6,7), of E] by simp
  have m: "parse_line E self \<lparr>ex_stack = [self]\<rparr> m = rbind (show_lines E self [m]) (\<lambda>outs. Ok (\<lparr>ex_stack = [self]\<rparr>, outs))"
    using parse_plain_line [of self "Some self" "[self]" m E] t(1) assms(8) by simp
  have f: "parse_line E self \<lparr>ex_stack = [self]\<rparr> f = Ok (\<lparr>ex_stack = []\<rparr>, [])"
    using parse_footer [OF t(1) assms(1,3), of E] by (simp add: f_def)
  have f': "parse_line E self \<lparr>ex_stack = []\<rparr> f' = Panic"
    unfolding parse_line_eq [OF t(3)] f'_def system_footer [OF self assms(1)] by (simp add: execution_pop_def)
  show "parse_program_event E self (Some (Some [header self d, header q e, l, m])) = show_lines E self [m]"
    unfolding h_def [symmetric] h'_def [symmetric]
    by (cases "show_lines E self [m]")
      (simp_all add: parse_program_event_def execution_new_def h h' l m del: show_lines.simps)
  have "\<forall>x. show_lines E self [m] \<noteq> Err x"
    by (cases "handle_program_log E self m True") auto
  moreover have log: "log_of (Call self d [Call q e [Line l, Line m]]) = [h, h', l, m, f, f']"
    by (simp add: h_def h'_def f_def f'_def)
  ultimately show "parse_program_event E self (Some (Some (log_of (Call self d [Call q e [Line l, Line m]])))) = Panic"
    unfolding log by (cases "show_lines E self [m]")
      (simp_all add: parse_program_event_def execution_new_def h h' l m f f' del: show_lines.simps)
qed

section \<open>Properties\<close>

text \<open>
  C20. The client decodes the program's own lines, as long as the other programs log nothing that
  looks like a call or a return.  For the log of a transaction, a sequence of calls that nest to any
  depth and all return with success, in which every line that is not a message or data of the program
  itself neither contains \<open>invoke\<close> nor matches the pattern of a return, the events that the client
  shows are those of the lines that the program wrote while it was the one that runs, in their order:
  calls of the program by others and by itself are recognised, and no line of another program is
  decoded.  Without that condition it is not so: when a program called by this one logs a message that
  matches the pattern of a return, such as \<open>Program log: transfer success\<close>, the next message of that
  program is decoded as one of this program, which wrote none, and the whole log ends in a panic,
  because the last return finds the stack empty.
\<close>

theorem events_of_nested_calls:
  assumes "name_ok self" "self \<noteq> ''cpi''"
  shows "(calls \<noteq> [] \<and> (\<forall>e \<in> set calls. (\<exists>q d body. e = Call q d body) \<and> well_logged self None e) \<longrightarrow>
      parse_program_event E self (Some (Some (concat (map log_of calls))))
        = show_lines E self (concat (map (own_lines self None) calls)))
    \<and> (name_ok q \<and> q \<noteq> self \<and> word d \<and> \<not> contains ''invoke'' l \<and> success_pattern l \<and> message m \<longrightarrow>
      own_lines self None (Call self d [Call q e [Line l, Line m]]) = []
      \<and> parse_program_event E self (Some (Some [header self d, header q e, l, m])) = show_lines E self [m]
      \<and> parse_program_event E self (Some (Some (log_of (Call self d [Call q e [Line l, Line m]])))) = Panic)"
  using events_of_well_logged_calls [OF assms, of calls E] line_after_false_return [OF assms, of q d l m E e]
  by simp

definition sample_codec :: "(event_kind, unit) codec" where
  "sample_codec = \<lparr>co_base64 = (\<lambda>s. if s = ''AAAA'' then Some (replicate 8 7) else None), co_base58 = (\<lambda>_. None),
     co_hex = (\<lambda>_. None), co_discriminator = (\<lambda>k. if k = SwapEvent then replicate 8 7 else []), co_deserialize = (\<lambda>_ _. Some ())\<rparr>"

definition sample_calls :: "entry list" where
  "sample_calls = [Call ''Router'' ''1'' [Line ''Program data: AAAA'',
     Call ''Amm1'' ''2'' [Line ''Program log: swap'', Call ''Token'' ''3'' [Line ''Program data: AAAA''],
       Line ''Program data: AAAA'']]]"

theorem events_of_nested_calls_witness:
  "parse_program_event sample_codec ''Amm1'' (Some (Some (concat (map log_of sample_calls)))) = Ok [Shown SwapEvent ()]
   \<and> parse_program_event sample_codec ''Amm1'' (Some (Some [header ''Amm1'' ''1'', header ''Token'' ''2'',
       ''Program log: transfer success'', ''Program data: AAAA''])) = Ok [Shown SwapEvent ()]"
proof -
  have names: "name_ok ''Amm1''" "name_ok ''Router''" "name_ok ''Token''" "word ''1''" "word ''2''" "word ''3''"
    by (simp_all add: name_ok_def word_def footer_def)
  have lines: "quiet ''Program data: AAAA''" "message ''Program log: swap''" "message ''Program data: AAAA''"
    by (simp_all add: quiet_def message_def success_pattern_def strip_prefix_def Let_def)
  have returned: "\<not> contains ''invoke'' ''Program log: transfer success''" "success_pattern ''Program log: transfer success''"
    by (simp_all add: success_pattern_def strip_prefix_def Let_def suffix_def)
  have "show_lines sample_codec ''Amm1'' (concat (map (own_lines ''Amm1'' None) sample_calls)) = Ok [Shown SwapEvent ()]"
    "show_lines sample_codec ''Amm1'' [''Program data: AAAA''] = Ok [Shown SwapEvent ()]"
    by (simp_all add: sample_calls_def handle_program_log_def strip_prefix_def sample_codec_def show_event_def
        split_discriminator_def event_kinds_def eval_nat_numeral)
  moreover have "\<forall>e \<in> set sample_calls. (\<exists>q d body. e = Call q d body) \<and> well_logged ''Amm1'' None e" "sample_calls \<noteq> []"
    using names lines by (simp_all add: sample_calls_def)
  ultimately show ?thesis
    using events_of_nested_calls [OF names(1), of sample_calls sample_codec "''Token''" "''1''"
        "''Program log: transfer success''" "''Program data: AAAA''" "''2''"] names(3,4) returned lines(3)
    by simp
qed

end
