(* ===== verification/Client_Show.thy ===== *)
theory Client_Show
  imports Client_Commands
begin

text \<open>
  The commands of \<open>src/client/src/main.rs\<close> that send nothing: what they read from the chain and what
  they print, as the result.
\<close>

section \<open>The accounts of the program\<close>

text \<open>What the bytes of an account of the program decode to.\<close>

record program_account =
  pc_personal_position :: "personal_position res"
  pc_protocol_position :: "protocol_position res"
  pc_tick_array :: "tick_array res"
  pc_operation :: "operation_state res"
  pc_observation :: "observation_state res"

text \<open>A filter on the accounts of the program: a key at an offset, and the length of the data.\<close>

record account_filter =
  af_offset :: nat
  af_key :: pubkey
  af_data_size :: nat

record display_chain = chain +
  dc_account :: "pubkey \<Rightarrow> program_account res"
  dc_program_accounts :: "account_filter \<Rightarrow> (pubkey \<times> program_account) list res"

definition POSITION_REWARD_INFO_LEN :: nat where
  "POSITION_REWARD_INFO_LEN = 16 + 8"

definition PERSONAL_POSITION_LEN :: nat where
  "PERSONAL_POSITION_LEN =
     8 + 1 + 32 + 32 + 4 + 4 + 16 + 16 + 16 + 8 + 8 + POSITION_REWARD_INFO_LEN * REWARD_NUM + 64"

definition PROTOCOL_POSITION_LEN :: nat where
  "PROTOCOL_POSITION_LEN = 8 + 1 + 32 + 4 + 4 + 16 + 16 + 16 + 8 + 8 + 16 * REWARD_NUM + 64"

section \<open>Accounts of a pool\<close>

text \<open>Every account is decoded, in turn; those of other pools are left out.\<close>

fun accounts_of_pool ::
  "(program_account \<Rightarrow> 'a res) \<Rightarrow> ('a \<Rightarrow> pubkey) \<Rightarrow> pubkey \<Rightarrow> (pubkey \<times> program_account) list \<Rightarrow>
   (pubkey \<times> 'a) list res" where
  "accounts_of_pool decode pool_of pool_id [] = Ok []"
| "accounts_of_pool decode pool_of pool_id ((key, account) # accounts) =
     rbind (decode account) (\<lambda>state.
     rbind (accounts_of_pool decode pool_of pool_id accounts) (\<lambda>states.
     Ok (if pool_of state = pool_id then (key, state) # states else states)))"

definition personal_positions_by_pool ::
  "display_chain \<Rightarrow> 'f client_config \<Rightarrow> pubkey option \<Rightarrow>
   ((pubkey \<times> personal_position) list \<times> u64 \<times> u64 \<times> u64) res" where
  "personal_positions_by_pool C pool_config pool_id =
     rbind (chosen_pool pool_config pool_id) (\<lambda>pool_id.
     rbind (dc_program_accounts C \<lparr>af_offset = 8 + 1 + 32, af_key = pool_id,
              af_data_size = PERSONAL_POSITION_LEN\<rparr>) (\<lambda>position_accounts_by_pool.
     rbind (accounts_of_pool pc_personal_position pe_pool_id pool_id position_accounts_by_pool) (\<lambda>positions.
     rbind (total_owed pool_id (map snd positions) (0, 0, 0)) (\<lambda>totals.
     Ok (positions, totals)))))"

definition protocol_positions_by_pool ::
  "display_chain \<Rightarrow> 'f client_config \<Rightarrow> pubkey option \<Rightarrow> (pubkey \<times> protocol_position) list res" where
  "protocol_positions_by_pool C pool_config pool_id =
     rbind (chosen_pool pool_config pool_id) (\<lambda>pool_id.
     rbind (dc_program_accounts C \<lparr>af_offset = 8 + 1, af_key = pool_id,
              af_data_size = PROTOCOL_POSITION_LEN\<rparr>) (\<lambda>position_accounts_by_pool.
     accounts_of_pool pc_protocol_position pp_pool_id pool_id position_accounts_by_pool))"

text \<open>Of a tick array, its start and count and the ticks with liquidity.\<close>

definition tick_arrays_by_pool ::
  "display_chain \<Rightarrow> 'f client_config \<Rightarrow> pubkey option \<Rightarrow> (pubkey \<times> i32 \<times> u8 \<times> tick_state list) list res" where
  "tick_arrays_by_pool C pool_config pool_id =
     rbind (chosen_pool pool_config pool_id) (\<lambda>pool_id.
     rbind (dc_program_accounts C \<lparr>af_offset = 8, af_key = pool_id, af_data_size = TICK_ARRAY_LEN\<rparr>)
       (\<lambda>tick_arrays_by_pool.
     rbind (accounts_of_pool pc_tick_array ta_pool_id pool_id tick_arrays_by_pool) (\<lambda>arrays.
     Ok (map (\<lambda>(key, tick_array_state).
               (key, ta_start_tick_index tick_array_state, ta_initialized_tick_count tick_array_state,
                filter (\<lambda>tick_state. ts_liquidity_gross tick_state \<noteq> 0) (ta_ticks tick_array_state)))
            arrays))))"

section \<open>Single accounts\<close>

definition show_operation :: "client_lib \<Rightarrow> display_chain \<Rightarrow> (pubkey \<times> operation_state) res" where
  "show_operation L C =
     (let operation_account_key = cl_operation L in
      rbind (dc_account C operation_account_key) (\<lambda>account.
      rbind (pc_operation account) (\<lambda>operation_account.
      Ok (operation_account_key, operation_account))))"

definition show_observation ::
  "display_chain \<Rightarrow> 'f client_config \<Rightarrow> (pubkey \<times> observation_state) res" where
  "show_observation C pool_config =
     rbind (unwrap (cc_pool_id_account pool_config)) (\<lambda>pool_id.
     rbind (load_pool (chain.truncate C) pool_id) (\<lambda>pool.
     rbind (dc_account C (ps_observation_key pool)) (\<lambda>account.
     rbind (pc_observation account) (\<lambda>observation_account.
     Ok (ps_observation_key pool, observation_account)))))"

definition show_config :: "client_lib \<Rightarrow> display_chain \<Rightarrow> u16 \<Rightarrow> (pubkey \<times> amm_config) res" where
  "show_config L C config_index =
     (let amm_config_key = cl_amm_config L config_index in
      rbind (cn_get_account C amm_config_key) (\<lambda>account.
      rbind (la_amm_config account) (\<lambda>amm_config_account.
      Ok (amm_config_key, amm_config_account))))"

definition show_pool :: "display_chain \<Rightarrow> 'f client_config \<Rightarrow> pubkey option \<Rightarrow> (pubkey \<times> pool_state) res" where
  "show_pool C pool_config pool_id =
     rbind (chosen_pool pool_config pool_id) (\<lambda>pool_id.
     rbind (load_pool (chain.truncate C) pool_id) (\<lambda>pool_account.
     Ok (pool_id, pool_account)))"

definition show_bitmap_extension ::
  "display_chain \<Rightarrow> 'f client_config \<Rightarrow> pubkey option \<Rightarrow> (pubkey \<times> bitmap_extension) res" where
  "show_bitmap_extension C pool_config bitmap_extension =
     rbind (case bitmap_extension of Some bitmap_extension \<Rightarrow> Ok bitmap_extension
            | None \<Rightarrow> unwrap (cc_tickarray_bitmap_extension pool_config)) (\<lambda>bitmap_extension.
     rbind (cn_get_account C bitmap_extension) (\<lambda>account.
     rbind (la_extension account) (\<lambda>bitmap_extension_account.
     Ok (bitmap_extension, bitmap_extension_account))))"

definition show_protocol :: "display_chain \<Rightarrow> pubkey \<Rightarrow> protocol_position res" where
  "show_protocol C protocol_id =
     rbind (dc_account C protocol_id) (\<lambda>account. pc_protocol_position account)"

definition show_personal :: "display_chain \<Rightarrow> pubkey \<Rightarrow> personal_position res" where
  "show_personal C personal_id =
     rbind (dc_account C personal_id) (\<lambda>account. pc_personal_position account)"

definition show_mint :: "display_chain \<Rightarrow> pubkey \<Rightarrow> mint_view res" where
  "show_mint C mint = rbind (cn_get_account C mint) (\<lambda>account. la_mint_state account)"

section \<open>Numbers\<close>

definition show_tick_with_spacing :: "i32 \<Rightarrow> u16 \<Rightarrow> i32 res" where
  "show_tick_with_spacing tick tick_spacing = tick_with_spacing tick (int tick_spacing)"

definition show_start_index :: "i32 \<Rightarrow> u16 \<Rightarrow> i32 res" where
  "show_start_index tick tick_spacing = get_array_start_index tick tick_spacing"

section \<open>The sums over the positions of a pool\<close>

text \<open>The positions that are shown are those of the pool, and the sums are over them.\<close>

lemma accounts_of_pool_OkD:
  "accounts_of_pool decode pool_of pool_id accounts = Ok states \<Longrightarrow> \<forall>state \<in> set states. pool_of (snd state) = pool_id"
  by (induction accounts arbitrary: states) (fastforce simp: res_inv split: if_splits)+

lemma total_owed_OkD:
  assumes "\<forall>p \<in> set positions. pe_pool_id p = pool_id"
  shows "total_owed pool_id positions (a, b, c) = Ok (a', b', c') \<Longrightarrow>
    a' = a + sum_list (map pe_token_fees_owed_0 positions)
    \<and> b' = b + sum_list (map pe_token_fees_owed_1 positions)
    \<and> c' = c + sum_list (map (\<lambda>p. pr_reward_amount_owed (pe_reward_infos p ! 0)) positions)"
  using assms
proof (induction positions arbitrary: a b c)
  case (Cons p positions)
  then have "total_owed pool_id positions (a + pe_token_fees_owed_0 p, b + pe_token_fees_owed_1 p,
      c + pr_reward_amount_owed (pe_reward_infos p ! 0)) = Ok (a', b', c')"
    by (auto simp: res_inv chk_add_def index_at_def split: if_splits)
  from Cons.IH [OF this] Cons.prems(2) show ?case by simp
qed simp

lemma shown_totals:
  assumes "personal_positions_by_pool C pool_config pool_id = Ok (positions, a, b, c)"
  shows "a = sum_list (map (\<lambda>p. pe_token_fees_owed_0 (snd p)) positions)
    \<and> b = sum_list (map (\<lambda>p. pe_token_fees_owed_1 (snd p)) positions)"
proof -
  obtain p accounts where p: "accounts_of_pool pc_personal_position pe_pool_id p accounts = Ok positions"
    and t: "total_owed p (map snd positions) (0, 0, 0) = Ok (a, b, c)"
    using assms by (auto simp: personal_positions_by_pool_def res_inv)
  have "\<forall>x \<in> set (map snd positions). pe_pool_id x = p"
    using accounts_of_pool_OkD [OF p] by auto
  from total_owed_OkD [OF this t] show ?thesis
    by (simp add: comp_def)
qed

end
