(* ===== verification/Spec2Isabelle.thy ===== *)
theory Spec2Isabelle
  imports Ledger Liveness Pool_Rewards Reward_Payouts Pool_Lifecycle Client_Properties Request_Properties
    Command_Properties Command_Signers Command_Plans Event_Properties Client_Show
begin

text \<open>
  A verification library for the concentrated-liquidity market maker of
  \<open>src/programs/clamm/src\<close> (a Solana program in Rust, on the framework Anchor) and for its command
  line client in \<open>src/client/src\<close>, up to the transactions that it sends.

  \<^bold>\<open>The program.\<close>  A pool holds two tokens and a price between them.  Liquidity providers put
  liquidity on ranges of ticks (\<open>open_position\<close>, \<open>increase_liquidity\<close>); traders swap one token for
  the other (\<open>swap\<close>, \<open>swap_v2\<close>, \<open>swap_router_base_in\<close>), which moves the price across ticks and
  brings the liquidity of ranges in and out; fees and rewards accrue to ranges through growth
  accumulators and are paid when liquidity is withdrawn (\<open>decrease_liquidity\<close>).  Ticks are stored
  in arrays of 60, and a bitmap of 1024 bits in the pool, with an extension of 14 times two
  bitmaps of 512 bits, says which arrays are in use.

  \<^bold>\<open>How it is modelled.\<close>  Every account is a \<open>record\<close> and every function of the source a definition
  with the name of the source.  Unsigned integers are \<open>nat\<close> and signed ones \<open>int\<close>; each arithmetic
  operation of the source is written out with its check (\<open>chk_add\<close>, \<open>checked_sub\<close>, \<open>chk_i\<close>,
  \<open>i_div\<close>) or its wrap-around (\<open>mod 2 ^ w\<close>).  Plain \<open>+\<close>, \<open>-\<close>, \<open>*\<close> panic on overflow: the
  model assumes a build with overflow checks, as \<open>programs/clamm/Cargo.toml\<close> asks for (a profile
  there has no effect unless the manifest of the workspace repeats it, which it does not);
  \<open>add_delta_unchecked\<close> shows the other build for the one function that relies on the difference.
  A result is \<open>Ok x\<close>, \<open>Err e\<close> or \<open>Panic\<close> (\<open>Prelude\<close>), sequenced by \<open>rbind\<close>, so every \<open>require!\<close>,
  \<open>?\<close>, \<open>unwrap\<close> and array index of the source is a branch.  Code outside \<open>src/\<close> is a parameter:
  the crate \<open>uint\<close> (\<open>Uint_Crate\<close>: the locale \<open>uint_crate\<close>, with the reference instance
  \<open>uint_ref\<close>), program derived addresses (the record \<open>pda\<close>), the system program and account
  loading (\<open>Account_Load\<close>), the token programs (\<open>Token_Util\<close>: the locale \<open>token_programs\<close>, with
  laws on balances, and the instance \<open>token_ref\<close>); for the client, the remote calls (\<open>rpc_client\<close>,
  \<open>chain\<close>), derived addresses and program identities (\<open>client_lib\<close>), what the crates of the token
  programs compute (\<open>token_crates\<close>) and the operations on \<open>f64\<close> (\<open>float_ops\<close>: the locale
  \<open>float_arithmetic\<close>, with the laws of rounding and the instance \<open>real_ops\<close>).

  \<^bold>\<open>The theories, in the order of the code.\<close>
  \<^item> \<open>Full_Math\<close>, \<open>Tick_Math\<close>, \<open>Tick_Log\<close>, \<open>Liquidity_Math\<close>, \<open>Sqrt_Price_Math\<close>, \<open>Swap_Math\<close>,
    \<open>Big_Num\<close>, \<open>Bit_Map\<close>: the files of \<open>libraries/\<close>.  The lemmas give each function as an exact
    fraction, rounding or bound (\<open>price_at\<close> is the price of a tick, \<open>amount_0_of\<close> and
    \<open>amount_1_of\<close> the tokens of a price move), and \<open>Tick_Log\<close> that the tick of a price is right
    for all prices.
  \<^item> \<open>Tick_Array\<close>, \<open>Bitmap_Extension\<close>, \<open>Config\<close>, \<open>Pool\<close>, \<open>Oracle\<close>, \<open>Positions\<close>: the accounts of
    \<open>states/\<close> with their operations.  \<open>Pool_Search\<close> shows that the search over both bitmaps finds
    the nearest array in use, \<open>Pool_Rewards\<close> that rewards are covered.
  \<^item> \<open>Ledger\<close>: an abstract ledger of liquidity per range.  \<open>represents\<close> relates it to the ticks, the
    liquidity of the pool and the positions, and \<open>modify_position\<close> refines the change of one entry.
    \<open>Liveness\<close>: from what the ledger represents, the liquidity of a range can be taken out again.
  \<^item> \<open>Swap_Core\<close>, \<open>Swap_Bounds\<close>: \<open>swap_internal\<close> of \<open>instructions/swap.rs\<close>, in stages, and what a
    turn of its loop does (\<open>progress\<close>).  \<open>Swap_Invariant\<close>: what every turn keeps, up to
    \<open>pool_well_formed\<close> for the whole swap.
  \<^item> \<open>Account_Load\<close>, \<open>Token_Util\<close>: \<open>util/\<close>.
  \<^item> \<open>Deposit\<close>, \<open>Withdraw\<close>, \<open>Pool_Instructions\<close>, \<open>Reward_Instructions\<close>, \<open>Swap_Instructions\<close>,
    \<open>Swap_Router\<close>: the files of \<open>instructions/\<close>, each instruction from the constraints on its
    accounts to its transfers.  \<open>Position_Properties\<close> shows what adding and removing liquidity does
    to the range (\<open>range_changed\<close>) and to the balances (\<open>deposited\<close>, \<open>paid_out\<close>), \<open>Swap_Properties\<close>
    what a swap does to the balances, \<open>Reward_Payouts\<close> what collecting rewards does to the
    position, the pool and the balances (\<open>reward_paid\<close>, \<open>paid_from\<close>, \<open>paid_to\<close>).
  \<^item> \<open>Pool_Lifecycle\<close>: one transition per instruction on a pool (\<open>pool_step\<close>), the pools that any
    sequence of them reaches from \<open>create_pool\<close> (\<open>pool_reachable\<close>), and what holds of all of them.
  \<^item> \<open>Client_Swap\<close>, \<open>Client_Properties\<close>: the swap that the client computes before it sends one, in
    lock step with that of the program (\<open>in_step\<close>).
  \<^item> \<open>Client_Requests\<close>, \<open>Request_Properties\<close>: the instructions that the client builds, and what the
    program does with them.
  \<^item> \<open>Client_Float\<close>, \<open>Client_Tokens\<close>, \<open>Client_Commands\<close>: conversions through floating point, the
    instructions for token accounts, and the commands of \<open>main.rs\<close> as functions from the
    configuration and the chain to a transaction (\<open>run_command\<close>).  \<open>Command_Properties\<close> shows that
    a swap meets its own threshold in the program, \<open>Command_Signers\<close> who signs, \<open>Command_Plans\<close>
    that deposits are covered and withdrawals name every reward.
    \<open>Client_Show\<close>: the commands that print accounts.
  \<^item> \<open>Client_Events\<close>, \<open>Event_Properties\<close>: the decoding of logs and instructions, with what is printed
    as the result; the lines of nested calls are attributed to the right program as long as no
    message of another program looks like a call or a return (\<open>well_logged\<close>).

  \<^bold>\<open>Loops.\<close>  \<open>swap_loop\<close> is a \<open>partial_function\<close>; \<open>swap_internal_terminates\<close> shows that it always
  returns, with \<open>ticks_left\<close> as the measure.  \<open>pool_next_loop\<close> is a \<open>function\<close> whose measure is the
  distance to the last tick, on every input.  \<open>client_swap_loop\<close> carries the counter of the source,
  which ends it after eleven turns.  All other loops are over lists or over numbers.  No fuel is
  used.

  \<^bold>\<open>Not modelled.\<close>  Events, logs and memos (output only); the layout of accounts in bytes and the
  discriminators, which are the framework's (\<open>Account_Load\<close> keeps the cases that the code tells
  apart); the arithmetic operators of \<open>construct_bignum!\<close>, which nothing in the program uses; in
  the client, the parsing of arguments, the remote calls and the signing and sending of
  transactions, and the printing of the extensions of a token; the decoders of text and bytes that
  \<open>Client_Events\<close> takes as a parameter (\<open>codec\<close>); the unit tests.
\<close>

end
